(* ===== verification/Prelude.thy ===== *)
theory Prelude
  imports Main "HOL-Library.AList" "HOL-Library.Word"
begin

text \<open>
  Shared vocabulary of the development.

  \<^item> Go strings and byte slices are both \<^typ>\<open>string\<close> (a \<^typ>\<open>char\<close> is one byte),
    so \<^verbatim>\<open>len(s)\<close> is \<^const>\<open>length\<close>.
  \<^item> A Go \<^verbatim>\<open>map[K]V\<close> is an association list whose keys are distinct
    (\<open>gwf\<close>). The order of the list is the order in which a \<^verbatim>\<open>range\<close> loop visits
    the entries. Go leaves that order open, so every statement about a loop over a map is
    made for all lists.
  \<^item> A fallible operation returns \<open>error + result\<close> with \<^const>\<open>Inl\<close> the error.
  \<^item> The functions of \<^verbatim>\<open>strings\<close>, \<^verbatim>\<open>strconv\<close> and \<^verbatim>\<open>fmt\<close> that the
    sources call are defined here on byte lists.
  The collection \<open>go_simps\<close> holds the rewrite rules that unfold these helpers.
\<close>

named_theorems go_simps "unfolding rules of the Go library helpers"
named_theorems op_defs "definitions of the operations of a component"

section \<open>Names of the model's types\<close>

type_synonym gostring = string
type_synonym bytes = string
type_synonym ('k, 'v) gomap = "('k \<times> 'v) list"
type_synonym uint16 = "16 word"
type_synonym uint32 = "32 word"
type_synonym int64 = "64 word"

section \<open>Go maps\<close>

definition gget :: "('k, 'v) gomap \<Rightarrow> 'k \<Rightarrow> 'v option" where
  "gget m k = map_of m k"

definition gput :: "'k \<Rightarrow> 'v \<Rightarrow> ('k, 'v) gomap \<Rightarrow> ('k, 'v) gomap" where
  "gput k v m = AList.update k v m"

definition gdel :: "'k \<Rightarrow> ('k, 'v) gomap \<Rightarrow> ('k, 'v) gomap" where
  "gdel k m = AList.delete k m"

definition glen :: "('k, 'v) gomap \<Rightarrow> nat" where
  "glen m = length m"

definition gkeys :: "('k, 'v) gomap \<Rightarrow> 'k set" where
  "gkeys m = fst ` set m"

definition gwf :: "('k, 'v) gomap \<Rightarrow> bool" where
  "gwf m \<longleftrightarrow> distinct (map fst m)"

lemma gget_Nil [simp]: "gget [] k = None"
  by (simp add: gget_def)

lemma gget_Cons [simp]: "gget ((k', v) # m) k = (if k = k' then Some v else gget m k)"
  by (simp add: gget_def)

lemma gput_Nil [simp]: "gput k v [] = [(k, v)]"
  by (simp add: gput_def)

lemma gput_Cons [simp]:
  "gput k v ((k', v') # m) = (if k = k' then (k, v) # m else (k', v') # gput k v m)"
  by (simp add: gput_def)

lemma gdel_Nil [simp]: "gdel k [] = []"
  by (simp add: gdel_def)

lemma gdel_Cons [simp]:
  "gdel k ((k', v') # m) = (if k = k' then gdel k m else (k', v') # gdel k m)"
  by (simp add: gdel_def)

lemma gget_gput [simp]: "gget (gput k v m) = (gget m)(k \<mapsto> v)"
  by (simp add: fun_eq_iff gget_def gput_def update_conv')

lemma gget_gdel [simp]: "gget (gdel k m) = (gget m)(k := None)"
  by (simp add: fun_eq_iff gget_def gdel_def delete_conv')

lemma gwf_Nil [simp]: "gwf []"
  by (simp add: gwf_def)

lemma gwf_Cons [simp]: "gwf ((k, v) # m) \<longleftrightarrow> k \<notin> gkeys m \<and> gwf m"
  by (simp add: gwf_def gkeys_def)

lemma gwf_gput [simp]: "gwf m \<Longrightarrow> gwf (gput k v m)"
  by (simp add: gwf_def gput_def distinct_update)

lemma gwf_gdel [simp]: "gwf m \<Longrightarrow> gwf (gdel k m)"
  by (simp add: gwf_def gdel_def distinct_delete)

lemma gwf_filter [simp]: "gwf m \<Longrightarrow> gwf (filter P m)"
  by (simp add: gwf_def distinct_map_filter)

lemma gget_map_of: "gget m = map_of m"
  by (rule ext) (simp add: gget_def)

lemma gkeys_dom: "gkeys m = dom (gget m)"
  by (simp add: gkeys_def gget_map_of dom_map_of_conv_image_fst)

lemma gkeys_Nil [simp]: "gkeys [] = {}"
  by (simp add: gkeys_def)

lemma gkeys_Cons [simp]: "gkeys ((k, v) # m) = insert k (gkeys m)"
  by (simp add: gkeys_def)

lemma gkeys_gput [simp]: "gkeys (gput k v m) = insert k (gkeys m)"
  by (simp add: gkeys_dom)

lemma gkeys_gdel [simp]: "gkeys (gdel k m) = gkeys m - {k}"
  by (simp add: gkeys_dom)

lemma finite_gkeys [simp]: "finite (gkeys m)"
  by (simp add: gkeys_def)

lemma glen_card: "gwf m \<Longrightarrow> glen m = card (gkeys m)"
  by (metis distinct_card glen_def gkeys_def gwf_def length_map list.set_map)

lemma gget_None_iff: "gget m k = None \<longleftrightarrow> k \<notin> gkeys m"
  by (auto simp: gkeys_dom)

lemma gget_Some_iff: "gwf m \<Longrightarrow> gget m k = Some v \<longleftrightarrow> (k, v) \<in> set m"
  by (simp add: gget_def gwf_def map_of_eq_Some_iff)

lemma gget_SomeD: "gget m k = Some v \<Longrightarrow> (k, v) \<in> set m"
  by (simp add: gget_def map_of_SomeD)

lemma gget_filter:
  "gwf m \<Longrightarrow> gget (filter P m) k =
     (case gget m k of None \<Rightarrow> None | Some v \<Rightarrow> if P (k, v) then Some v else None)"
proof (induction m)
  case (Cons e m)
  obtain k' v where [simp]: "e = (k', v)" by (cases e)
  have "k' \<notin> gkeys m \<Longrightarrow> gget m k' = None" for m :: "('a, 'b) gomap"
    by (simp add: gget_None_iff)
  moreover have "k' \<notin> gkeys (filter P m)" if "k' \<notin> gkeys m"
    using that by (auto simp: gkeys_def)
  ultimately show ?case
    using Cons by auto
qed simp

lemma glen_gput: "gwf m \<Longrightarrow> glen (gput k v m) = (if k \<in> gkeys m then glen m else Suc (glen m))"
  by (simp add: glen_card insert_absorb)

lemma glen_gdel: "gwf m \<Longrightarrow> glen (gdel k m) = (if k \<in> gkeys m then glen m - 1 else glen m)"
  by (simp add: glen_card)

lemma glen_Nil [simp]: "glen [] = 0"
  by (simp add: glen_def)

lemma glen_filter_le: "glen (filter P m) \<le> glen m"
  by (simp add: glen_def)

text \<open>
  The interface every component that keeps a Go map relies on: what a lookup returns after
  a store or a deletion, and how the number of entries moves.
\<close>

locale keyed_store =
  fixes get :: "'m \<Rightarrow> 'k \<Rightarrow> 'v option"
    and put :: "'k \<Rightarrow> 'v \<Rightarrow> 'm \<Rightarrow> 'm"
    and del :: "'k \<Rightarrow> 'm \<Rightarrow> 'm"
    and size_of :: "'m \<Rightarrow> nat"
    and wf :: "'m \<Rightarrow> bool"
  assumes get_put: "wf m \<Longrightarrow> get (put k v m) k' = (if k' = k then Some v else get m k')"
    and get_del: "wf m \<Longrightarrow> get (del k m) k' = (if k' = k then None else get m k')"
    and size_put: "wf m \<Longrightarrow> size_of (put k v m) = (if get m k = None then Suc (size_of m) else size_of m)"
    and size_del: "wf m \<Longrightarrow> size_of (del k m) = (if get m k = None then size_of m else size_of m - 1)"
    and size_pos: "wf m \<Longrightarrow> get m k = Some v \<Longrightarrow> 0 < size_of m"
    and wf_put: "wf m \<Longrightarrow> wf (put k v m)"
    and wf_del: "wf m \<Longrightarrow> wf (del k m)"
begin

lemma get_put_same: "wf m \<Longrightarrow> get (put k v m) k = Some v"
  by (simp add: get_put)

lemma del_put_fresh_size: "wf m \<Longrightarrow> get m k = None \<Longrightarrow> size_of (del k (put k v m)) = size_of m"
  by (simp add: get_put size_del size_put wf_put)

lemma guarded_put_bound:
  assumes "wf m" "size_of m < n"
  shows "size_of (put k v m) \<le> n"
  using assms by (simp add: size_put)

lemma del_bound: "wf m \<Longrightarrow> size_of m \<le> n \<Longrightarrow> size_of (del k m) \<le> n"
  by (auto simp: size_del)

end

interpretation gm: keyed_store gget gput gdel glen gwf
proof unfold_locales
  fix m :: "('k, 'v) gomap" and k v
  assume "gwf m" "gget m k = Some v"
  then have "k \<in> gkeys m" by (metis gget_None_iff option.distinct(1))
  then show "0 < glen m" using \<open>gwf m\<close> by (auto simp: glen_card card_gt_0_iff)
qed (simp_all add: glen_gput glen_gdel gget_None_iff)

section \<open>Decimal numbers: \<^verbatim>\<open>%d\<close> and \<^verbatim>\<open>strconv.Itoa\<close>\<close>

definition digit_char :: "nat \<Rightarrow> char" where
  "digit_char d = char_of (48 + d)"

fun itoa :: "nat \<Rightarrow> gostring" where
  "itoa n = (if n < 10 then [digit_char n] else itoa (n div 10) @ [digit_char (n mod 10)])"

declare itoa.simps [simp del]

definition digit_val :: "char \<Rightarrow> nat" where
  "digit_val c = of_char c - 48"

definition atoi_digits :: "gostring \<Rightarrow> nat" where
  "atoi_digits s = foldl (\<lambda>n c. 10 * n + digit_val c) 0 s"

definition is_digit :: "char \<Rightarrow> bool" where
  "is_digit c \<longleftrightarrow> 48 \<le> (of_char c :: nat) \<and> (of_char c :: nat) \<le> 57"

lemma of_char_digit_char: "d < 10 \<Longrightarrow> (of_char (digit_char d) :: nat) = 48 + d"
  by (simp add: digit_char_def)

lemma digit_val_digit_char [simp]: "d < 10 \<Longrightarrow> digit_val (digit_char d) = d"
  by (simp add: digit_val_def of_char_digit_char)

lemma is_digit_digit_char [simp]: "d < 10 \<Longrightarrow> is_digit (digit_char d)"
  by (simp add: is_digit_def of_char_digit_char)

lemma atoi_itoa [simp]: "atoi_digits (itoa n) = n"
proof (induction n rule: itoa.induct)
  case (1 n)
  then show ?case
    by (subst itoa.simps) (auto simp: atoi_digits_def)
qed

lemma itoa_inject [simp]: "itoa m = itoa n \<longleftrightarrow> m = n"
  by (metis atoi_itoa)

lemma itoa_not_Nil [simp]: "itoa n \<noteq> []"
  by (subst itoa.simps) simp

lemma itoa_digits: "c \<in> set (itoa n) \<Longrightarrow> is_digit c"
proof (induction n rule: itoa.induct)
  case (1 n)
  then show ?case
    by (subst (asm) (2) itoa.simps) (auto split: if_splits)
qed

section \<open>The \<^verbatim>\<open>strings\<close> package\<close>

definition has_prefix :: "gostring \<Rightarrow> gostring \<Rightarrow> bool" where
  "has_prefix s p \<longleftrightarrow> take (length p) s = p"

definition trim_prefix :: "gostring \<Rightarrow> gostring \<Rightarrow> gostring" where
  "trim_prefix s p = (if has_prefix s p then drop (length p) s else s)"

definition trim_left_char :: "char \<Rightarrow> gostring \<Rightarrow> gostring" where
  "trim_left_char c s = dropWhile (\<lambda>x. x = c) s"

definition trim_right_char :: "char \<Rightarrow> gostring \<Rightarrow> gostring" where
  "trim_right_char c s = rev (dropWhile (\<lambda>x. x = c) (rev s))"

definition trim_char :: "char \<Rightarrow> gostring \<Rightarrow> gostring" where
  "trim_char c s = trim_right_char c (trim_left_char c s)"

text \<open>\<^verbatim>\<open>strings.Cut\<close> for a separator of one byte: before, after, found.\<close>

fun cut_char :: "char \<Rightarrow> gostring \<Rightarrow> gostring \<times> gostring \<times> bool" where
  "cut_char c [] = ([], [], False)"
| "cut_char c (x # xs) =
     (if x = c then ([], xs, True)
      else (let (b, a, ok) = cut_char c xs in (x # b, a, ok)))"

text \<open>\<^verbatim>\<open>strings.SplitN(s, sep, 2)\<close> for a separator of one byte.\<close>

definition split_n2 :: "char \<Rightarrow> gostring \<Rightarrow> gostring list" where
  "split_n2 c s = (case cut_char c s of (b, a, ok) \<Rightarrow> if ok then [b, a] else [s])"

fun join_strings :: "gostring list \<Rightarrow> gostring \<Rightarrow> gostring" where
  "join_strings [] sep = []"
| "join_strings [s] sep = s"
| "join_strings (s # ss) sep = s @ sep @ join_strings ss sep"

fun contains_sub :: "gostring \<Rightarrow> gostring \<Rightarrow> bool" where
  "contains_sub [] p \<longleftrightarrow> p = []"
| "contains_sub (x # xs) p \<longleftrightarrow> has_prefix (x # xs) p \<or> contains_sub xs p"

lemma has_prefix_append [simp]: "has_prefix (p @ s) p"
  by (simp add: has_prefix_def)

lemma has_prefix_iff: "has_prefix s p \<longleftrightarrow> (\<exists>r. s = p @ r)"
  by (metis append_eq_conv_conj append_take_drop_id has_prefix_def)

lemma cut_char_none: "c \<notin> set s \<Longrightarrow> cut_char c s = (s, [], False)"
  by (induction s) auto

lemma cut_char_append: "c \<notin> set b \<Longrightarrow> cut_char c (b @ c # a) = (b, a, True)"
  by (induction b) auto

lemma cut_char_True: "cut_char c s = (b, a, True) \<Longrightarrow> s = b @ c # a \<and> c \<notin> set b"
  by (induction s arbitrary: b) (auto split: if_splits prod.splits)

lemma cut_char_False: "cut_char c s = (b, a, False) \<Longrightarrow> b = s \<and> a = [] \<and> c \<notin> set s"
  by (induction s arbitrary: b a) (auto split: if_splits prod.splits)

lemma set_trim_right_char: "set (trim_right_char c s) \<subseteq> set s"
  using set_dropWhileD by (fastforce simp: trim_right_char_def)

lemma set_trim_left_char: "set (trim_left_char c s) \<subseteq> set s"
  using set_dropWhileD by (fastforce simp: trim_left_char_def)

lemma last_trim_right_char: "trim_right_char c s \<noteq> [] \<Longrightarrow> last (trim_right_char c s) \<noteq> c"
  unfolding trim_right_char_def by (metis (mono_tags, lifting) hd_dropWhile last_rev rev_is_Nil_conv)

lemma hd_trim_left_char: "trim_left_char c s \<noteq> [] \<Longrightarrow> hd (trim_left_char c s) \<noteq> c"
  unfolding trim_left_char_def by (metis (full_types) hd_dropWhile)

lemma trim_right_char_prefix: "\<exists>r. s = trim_right_char c s @ r"
proof -
  have "rev s = takeWhile (\<lambda>x. x = c) (rev s) @ dropWhile (\<lambda>x. x = c) (rev s)" by simp
  then have "rev (rev s) = trim_right_char c s @ rev (takeWhile (\<lambda>x. x = c) (rev s))"
    unfolding trim_right_char_def by (metis rev_append)
  then show ?thesis by auto
qed

lemma hd_trim_right_char: "trim_right_char c s \<noteq> [] \<Longrightarrow> hd (trim_right_char c s) = hd s"
  using trim_right_char_prefix [of s c] by (metis hd_append2)

lemma length_trim_right_char: "length (trim_right_char c s) \<le> length s"
  by (simp add: trim_right_char_def) (metis length_dropWhile_le length_rev)

section \<open>ASCII classes\<close>

definition is_lower :: "char \<Rightarrow> bool" where
  "is_lower c \<longleftrightarrow> 97 \<le> (of_char c :: nat) \<and> (of_char c :: nat) \<le> 122"

definition is_upper :: "char \<Rightarrow> bool" where
  "is_upper c \<longleftrightarrow> 65 \<le> (of_char c :: nat) \<and> (of_char c :: nat) \<le> 90"

definition is_alnum_lc :: "char \<Rightarrow> bool" where
  "is_alnum_lc c \<longleftrightarrow> is_lower c \<or> is_digit c"

definition ascii_lower :: "char \<Rightarrow> char" where
  "ascii_lower c = (if is_upper c then char_of ((of_char c :: nat) + 32) else c)"

definition replace_char :: "char \<Rightarrow> char \<Rightarrow> gostring \<Rightarrow> gostring" where
  "replace_char a b s = map (\<lambda>c. if c = a then b else c) s"

lemma is_lower_ascii_lower: "is_upper c \<Longrightarrow> is_lower (ascii_lower c)"
  by (simp add: ascii_lower_def is_upper_def is_lower_def)

lemma digit_not_colon: "is_digit c \<Longrightarrow> c \<noteq> CHR '':'' \<and> c \<noteq> CHR ''.'' \<and> c \<noteq> CHR ''/''"
  by (auto simp: is_digit_def)

section \<open>Decimal fields separated by a character that is no digit\<close>

lemma itoa_append_inject:
  assumes "itoa a @ c # s = itoa b @ c # t" "\<not> is_digit c"
  shows "a = b \<and> s = t"
proof -
  have "c \<notin> set (itoa a)" "c \<notin> set (itoa b)"
    using assms(2) itoa_digits by auto
  then have "itoa a = itoa b \<and> s = t"
    using assms(1) by (metis cut_char_append prod.inject)
  then show ?thesis by simp
qed

end
