(* ===== verification/Go_Errors.thy ===== *)
theory Go_Errors
  imports Prelude
begin

text \<open>
  The error values of the program and how they travel to the wire.

  \<^item> \<^verbatim>\<open>internal/core/errors.go\<close>: the domain error types and \<^verbatim>\<open>DomainErrorCode\<close>.
  \<^item> \<^verbatim>\<open>internal/providers/kubernetes/errors.go\<close>: \<^verbatim>\<open>wrapK8sError\<close>.
  \<^item> \<^verbatim>\<open>internal/handler/code.go\<close>: \<^verbatim>\<open>domainErrorToConnectError\<close>.

  A Go error is a value of \<open>go_error\<close>. \<open>Wrap p e\<close> is \<^verbatim>\<open>fmt.Errorf("p: %w", e)\<close>,
  \<open>Joined\<close> is \<^verbatim>\<open>errors.Join\<close>, \<open>Plain\<close> an error with a text and no cause, \<open>StatusErr\<close>
  an error of the Kubernetes client that implements \<^verbatim>\<open>APIStatus\<close> (its reason and
  message), \<open>ConnectErr\<close> a \<^verbatim>\<open>*connect.Error\<close>, \<open>CtxCanceled\<close> and
  \<open>CtxDeadlineExceeded\<close> the errors of a finished context. \<open>err_tree\<close> is the order in which
  \<^verbatim>\<open>errors.As\<close> visits an error and its causes.
\<close>

section \<open>Domain error codes and error values\<close>

text \<open>\<open>ErrorCodeUndefined\<close> stands for the values of the Go \<^verbatim>\<open>int\<close> type outside the const block.\<close>

datatype ErrorCode =
    ErrorCodeInternal
  | ErrorCodeInvalidArgument
  | ErrorCodeNotFound
  | ErrorCodeAlreadyExists
  | ErrorCodeUnauthenticated
  | ErrorCodePermissionDenied
  | ErrorCodeFailedPrecondition
  | ErrorCodeDeadlineExceeded
  | ErrorCodeResourceExhausted
  | ErrorCodeUnimplemented
  | ErrorCodeUnavailable
  | ErrorCodeUndefined int

text \<open>The reasons of the Kubernetes API that the adapter names; \<open>ReasonOther\<close> is any other.\<close>

datatype status_reason =
    StatusReasonUnauthorized | StatusReasonForbidden | StatusReasonNotFound
  | StatusReasonAlreadyExists | StatusReasonConflict | StatusReasonGone
  | StatusReasonInvalid | StatusReasonServerTimeout | StatusReasonStoreReadError
  | StatusReasonTimeout | StatusReasonTooManyRequests | StatusReasonBadRequest
  | StatusReasonMethodNotAllowed | StatusReasonNotAcceptable
  | StatusReasonRequestEntityTooLarge | StatusReasonUnsupportedMediaType
  | StatusReasonInternalError | StatusReasonExpired | StatusReasonServiceUnavailable
  | ReasonOther gostring

text \<open>The codes of the Connect protocol.\<close>

datatype connect_code =
    CodeCanceled | CodeUnknown | CodeInvalidArgument | CodeDeadlineExceeded | CodeNotFound
  | CodeAlreadyExists | CodePermissionDenied | CodeResourceExhausted | CodeFailedPrecondition
  | CodeAborted | CodeOutOfRange | CodeUnimplemented | CodeInternal | CodeUnavailable
  | CodeDataLoss | CodeUnauthenticated

datatype go_error =
    DomainError ErrorCode gostring "go_error option"
  | ErrClusterNotFound gostring
  | ErrNotReady gostring
  | ErrInvalidInput gostring gostring
  | ErrSessionNotFound gostring gostring
  | StatusErr status_reason gostring
  | Plain gostring
  | Wrap gostring go_error
  | Joined "go_error list"
  | ConnectErr connect_code go_error
  | CtxCanceled
  | CtxDeadlineExceeded

type_synonym 'a res = "go_error + 'a"

section \<open>Text of an error\<close>

text \<open>
  \<^verbatim>\<open>%q\<close> on the strings that occur here: the quote and the backslash are escaped, the
  usual control characters get their letter, the other ASCII control characters a hex
  escape, and every other byte stands for itself.
\<close>

definition hex_digit :: "nat \<Rightarrow> char" where
  "hex_digit d = (if d < 10 then char_of (48 + d) else char_of (87 + d))"

definition quote_char :: "char \<Rightarrow> gostring" where
  "quote_char c =
     (let n = (of_char c :: nat)
      in if n = 34 then [CHR 0x5C, c]
         else if n = 92 then [CHR 0x5C, c]
         else if n = 7 then [CHR 0x5C, CHR ''a'']
         else if n = 8 then [CHR 0x5C, CHR ''b'']
         else if n = 12 then [CHR 0x5C, CHR ''f'']
         else if n = 10 then [CHR 0x5C, CHR ''n'']
         else if n = 13 then [CHR 0x5C, CHR ''r'']
         else if n = 9 then [CHR 0x5C, CHR ''t'']
         else if n = 11 then [CHR 0x5C, CHR ''v'']
         else if n < 32 \<or> n = 127
           then [CHR 0x5C, CHR ''x'', hex_digit (n div 16), hex_digit (n mod 16)]
         else [c])"

definition go_quote :: "gostring \<Rightarrow> gostring" where
  "go_quote s = CHR 0x22 # concat (map quote_char s) @ [CHR 0x22]"

fun error_string :: "go_error \<Rightarrow> gostring" where
  "error_string (DomainError c m None) = m"
| "error_string (DomainError c m (Some e)) = m @ '': '' @ error_string e"
| "error_string (ErrClusterNotFound cl) = ''cluster '' @ cl @ '' not registered''"
| "error_string (ErrNotReady sub) = sub @ '' not initialized''"
| "error_string (ErrInvalidInput f m) =
     (if f \<noteq> [] then ''invalid '' @ f @ '': '' @ m else m)"
| "error_string (ErrSessionNotFound r i) = r @ '' '' @ go_quote i @ '' not found''"
| "error_string (StatusErr r m) = m"
| "error_string (Plain m) = m"
| "error_string (Wrap p e) = p @ '': '' @ error_string e"
| "error_string (Joined es) = join_strings (map error_string es) [CHR 0x0A]"
| "error_string (ConnectErr c e) = error_string e"
| "error_string CtxCanceled = ''context canceled''"
| "error_string CtxDeadlineExceeded = ''context deadline exceeded''"

section \<open>\<^verbatim>\<open>Unwrap\<close>, \<^verbatim>\<open>errors.As\<close>, \<^verbatim>\<open>DomainErrorCode\<close>\<close>

fun err_tree :: "go_error \<Rightarrow> go_error list" where
  "err_tree (DomainError c m None) = [DomainError c m None]"
| "err_tree (DomainError c m (Some e)) = DomainError c m (Some e) # err_tree e"
| "err_tree (Wrap p e) = Wrap p e # err_tree e"
| "err_tree (Joined es) = Joined es # concat (map err_tree es)"
| "err_tree (ConnectErr c e) = ConnectErr c e # err_tree e"
| "err_tree e = [e]"

fun first_some :: "('a \<Rightarrow> 'b option) \<Rightarrow> 'a list \<Rightarrow> 'b option" where
  "first_some sel [] = None"
| "first_some sel (x # xs) = (case sel x of Some y \<Rightarrow> Some y | None \<Rightarrow> first_some sel xs)"

definition errors_As :: "(go_error \<Rightarrow> 'a option) \<Rightarrow> go_error \<Rightarrow> 'a option" where
  "errors_As sel e = first_some sel (err_tree e)"

fun as_DomainError :: "go_error \<Rightarrow> (ErrorCode \<times> gostring \<times> go_error option) option" where
  "as_DomainError (DomainError c m e) = Some (c, m, e)"
| "as_DomainError _ = None"

fun as_ErrInvalidInput :: "go_error \<Rightarrow> (gostring \<times> gostring) option" where
  "as_ErrInvalidInput (ErrInvalidInput f m) = Some (f, m)"
| "as_ErrInvalidInput _ = None"

fun as_ErrSessionNotFound :: "go_error \<Rightarrow> (gostring \<times> gostring) option" where
  "as_ErrSessionNotFound (ErrSessionNotFound r i) = Some (r, i)"
| "as_ErrSessionNotFound _ = None"

fun as_ErrClusterNotFound :: "go_error \<Rightarrow> gostring option" where
  "as_ErrClusterNotFound (ErrClusterNotFound c) = Some c"
| "as_ErrClusterNotFound _ = None"

fun as_ErrNotReady :: "go_error \<Rightarrow> gostring option" where
  "as_ErrNotReady (ErrNotReady s) = Some s"
| "as_ErrNotReady _ = None"

fun as_APIStatus :: "go_error \<Rightarrow> (status_reason \<times> gostring) option" where
  "as_APIStatus (StatusErr r m) = Some (r, m)"
| "as_APIStatus _ = None"

definition DomainErrorCode :: "go_error \<Rightarrow> ErrorCode \<times> bool" where
  "DomainErrorCode e =
     (case errors_As as_DomainError e of
        Some (c, _, _) \<Rightarrow> (c, True)
      | None \<Rightarrow> (ErrorCodeInternal, False))"

section \<open>The Kubernetes adapter: \<^verbatim>\<open>wrapK8sError\<close>\<close>

fun statusReasonToDomainCode :: "status_reason \<Rightarrow> ErrorCode option" where
  "statusReasonToDomainCode StatusReasonUnauthorized = Some ErrorCodeUnauthenticated"
| "statusReasonToDomainCode StatusReasonForbidden = Some ErrorCodePermissionDenied"
| "statusReasonToDomainCode StatusReasonNotFound = Some ErrorCodeNotFound"
| "statusReasonToDomainCode StatusReasonAlreadyExists = Some ErrorCodeAlreadyExists"
| "statusReasonToDomainCode StatusReasonConflict = Some ErrorCodeFailedPrecondition"
| "statusReasonToDomainCode StatusReasonGone = Some ErrorCodeNotFound"
| "statusReasonToDomainCode StatusReasonInvalid = Some ErrorCodeInvalidArgument"
| "statusReasonToDomainCode StatusReasonServerTimeout = Some ErrorCodeDeadlineExceeded"
| "statusReasonToDomainCode StatusReasonStoreReadError = Some ErrorCodeInternal"
| "statusReasonToDomainCode StatusReasonTimeout = Some ErrorCodeDeadlineExceeded"
| "statusReasonToDomainCode StatusReasonTooManyRequests = Some ErrorCodeResourceExhausted"
| "statusReasonToDomainCode StatusReasonBadRequest = Some ErrorCodeInvalidArgument"
| "statusReasonToDomainCode StatusReasonMethodNotAllowed = Some ErrorCodeUnimplemented"
| "statusReasonToDomainCode StatusReasonNotAcceptable = Some ErrorCodeInvalidArgument"
| "statusReasonToDomainCode StatusReasonRequestEntityTooLarge = Some ErrorCodeResourceExhausted"
| "statusReasonToDomainCode StatusReasonUnsupportedMediaType = Some ErrorCodeInvalidArgument"
| "statusReasonToDomainCode StatusReasonInternalError = Some ErrorCodeInternal"
| "statusReasonToDomainCode StatusReasonExpired = Some ErrorCodeInvalidArgument"
| "statusReasonToDomainCode StatusReasonServiceUnavailable = Some ErrorCodeUnavailable"
| "statusReasonToDomainCode (ReasonOther _) = None"

text \<open>\<^verbatim>\<open>wrapK8sError(nil)\<close> is \<^verbatim>\<open>nil\<close>; the model works on a present error and
  \<open>wrap_res\<close> lifts it to results.\<close>

definition wrapK8sError :: "go_error \<Rightarrow> go_error" where
  "wrapK8sError err =
     (case errors_As as_APIStatus err of
        None \<Rightarrow> err
      | Some (reason, msg) \<Rightarrow>
          (let code = (case statusReasonToDomainCode reason of
                         Some c \<Rightarrow> c | None \<Rightarrow> ErrorCodeInternal)
           in DomainError code msg (Some err)))"

definition wrap_res :: "'a res \<Rightarrow> 'a res" where
  "wrap_res r = (case r of Inl e \<Rightarrow> Inl (wrapK8sError e) | Inr x \<Rightarrow> Inr x)"

section \<open>The handler: \<^verbatim>\<open>domainErrorToConnectError\<close>\<close>

fun domainCodeToConnectCode :: "ErrorCode \<Rightarrow> connect_code option" where
  "domainCodeToConnectCode ErrorCodeInternal = Some CodeInternal"
| "domainCodeToConnectCode ErrorCodeInvalidArgument = Some CodeInvalidArgument"
| "domainCodeToConnectCode ErrorCodeNotFound = Some CodeNotFound"
| "domainCodeToConnectCode ErrorCodeAlreadyExists = Some CodeAlreadyExists"
| "domainCodeToConnectCode ErrorCodeUnauthenticated = Some CodeUnauthenticated"
| "domainCodeToConnectCode ErrorCodePermissionDenied = Some CodePermissionDenied"
| "domainCodeToConnectCode ErrorCodeFailedPrecondition = Some CodeFailedPrecondition"
| "domainCodeToConnectCode ErrorCodeDeadlineExceeded = Some CodeDeadlineExceeded"
| "domainCodeToConnectCode ErrorCodeResourceExhausted = Some CodeResourceExhausted"
| "domainCodeToConnectCode ErrorCodeUnimplemented = Some CodeUnimplemented"
| "domainCodeToConnectCode ErrorCodeUnavailable = Some CodeUnavailable"
| "domainCodeToConnectCode (ErrorCodeUndefined _) = None"

definition domainErrorToConnectError :: "go_error \<Rightarrow> go_error" where
  "domainErrorToConnectError err =
     (if errors_As as_ErrInvalidInput err \<noteq> None then ConnectErr CodeInvalidArgument err
      else if errors_As as_ErrSessionNotFound err \<noteq> None then ConnectErr CodeNotFound err
      else if errors_As as_ErrClusterNotFound err \<noteq> None then ConnectErr CodeNotFound err
      else if errors_As as_ErrNotReady err \<noteq> None then ConnectErr CodeUnavailable err
      else (case errors_As as_DomainError err of
              Some (c, _, _) \<Rightarrow>
                ConnectErr (case domainCodeToConnectCode c of
                              Some code \<Rightarrow> code | None \<Rightarrow> CodeInternal) err
            | None \<Rightarrow> ConnectErr CodeInternal err))"

fun connect_code_of :: "go_error \<Rightarrow> connect_code option" where
  "connect_code_of (ConnectErr c _) = Some c"
| "connect_code_of _ = None"

text \<open>The result of a handler: a domain error is translated, a result passes.\<close>

definition to_connect :: "'a res \<Rightarrow> 'a res" where
  "to_connect r = (case r of Inl e \<Rightarrow> Inl (domainErrorToConnectError e) | Inr x \<Rightarrow> Inr x)"

section \<open>Facts about \<^verbatim>\<open>errors.As\<close>\<close>

lemma errors_As_hit [simp]: "sel e = Some x \<Longrightarrow> errors_As sel e = Some x"
  by (cases e rule: err_tree.cases) (simp_all add: errors_As_def)

lemma errors_As_Wrap: "sel (Wrap p e) = None \<Longrightarrow> errors_As sel (Wrap p e) = errors_As sel e"
  by (simp add: errors_As_def)

lemma errors_As_cause:
  "sel (DomainError c m (Some e)) = None \<Longrightarrow>
   errors_As sel (DomainError c m (Some e)) = errors_As sel e"
  by (simp add: errors_As_def)

lemma first_some_None_iff: "first_some sel xs = None \<longleftrightarrow> (\<forall>x\<in>set xs. sel x = None)"
  by (induction xs) (auto split: option.splits)

lemma errors_As_None_iff: "errors_As sel e = None \<longleftrightarrow> (\<forall>x\<in>set (err_tree e). sel x = None)"
  by (simp add: errors_As_def first_some_None_iff)

lemma selectors_Wrap [simp]:
  "as_DomainError (Wrap p e) = None" "as_ErrInvalidInput (Wrap p e) = None"
  "as_ErrSessionNotFound (Wrap p e) = None" "as_ErrClusterNotFound (Wrap p e) = None"
  "as_ErrNotReady (Wrap p e) = None" "as_APIStatus (Wrap p e) = None"
  by simp_all

text \<open>An error is plain for the handler when no domain type occurs among its causes.\<close>

definition infrastructure_error :: "go_error \<Rightarrow> bool" where
  "infrastructure_error e \<longleftrightarrow>
     errors_As as_ErrInvalidInput e = None \<and> errors_As as_ErrSessionNotFound e = None \<and>
     errors_As as_ErrClusterNotFound e = None \<and> errors_As as_ErrNotReady e = None"

lemma to_connect_simps [simp]:
  "to_connect (Inl e) = Inl (domainErrorToConnectError e)" "to_connect (Inr x) = Inr x"
  by (simp_all add: to_connect_def)

lemma wrap_res_simps [simp]:
  "wrap_res (Inl e) = Inl (wrapK8sError e)" "wrap_res (Inr x) = Inr x"
  by (simp_all add: wrap_res_def)

lemma domainErrorToConnectError_shape:
  "\<exists>c. domainErrorToConnectError e = ConnectErr c e"
  by (simp add: domainErrorToConnectError_def split: option.splits)

lemma domainErrorToConnectError_wrap:
  "connect_code_of (domainErrorToConnectError (Wrap p e)) = connect_code_of (domainErrorToConnectError e)"
  by (simp add: domainErrorToConnectError_def errors_As_Wrap split: option.splits)

lemma domainErrorToConnectError_types [simp]:
  "domainErrorToConnectError (ErrInvalidInput f m) = ConnectErr CodeInvalidArgument (ErrInvalidInput f m)"
  "domainErrorToConnectError (ErrSessionNotFound r i) = ConnectErr CodeNotFound (ErrSessionNotFound r i)"
  "domainErrorToConnectError (ErrClusterNotFound c) = ConnectErr CodeNotFound (ErrClusterNotFound c)"
  "domainErrorToConnectError (ErrNotReady s) = ConnectErr CodeUnavailable (ErrNotReady s)"
  by (simp_all add: domainErrorToConnectError_def errors_As_def)

lemma domainErrorToConnectError_DomainError [simp]:
  "domainErrorToConnectError (DomainError c m None) =
     ConnectErr (case domainCodeToConnectCode c of Some code \<Rightarrow> code | None \<Rightarrow> CodeInternal)
       (DomainError c m None)"
  by (simp add: domainErrorToConnectError_def errors_As_def)

section \<open>Properties\<close>

text \<open>The Connect code each reason of the Kubernetes API is expected to reach the client as.\<close>

fun reason_connect_code :: "status_reason \<Rightarrow> connect_code" where
  "reason_connect_code StatusReasonUnauthorized = CodeUnauthenticated"
| "reason_connect_code StatusReasonForbidden = CodePermissionDenied"
| "reason_connect_code StatusReasonNotFound = CodeNotFound"
| "reason_connect_code StatusReasonGone = CodeNotFound"
| "reason_connect_code StatusReasonAlreadyExists = CodeAlreadyExists"
| "reason_connect_code StatusReasonConflict = CodeFailedPrecondition"
| "reason_connect_code StatusReasonServerTimeout = CodeDeadlineExceeded"
| "reason_connect_code StatusReasonTimeout = CodeDeadlineExceeded"
| "reason_connect_code StatusReasonTooManyRequests = CodeResourceExhausted"
| "reason_connect_code StatusReasonRequestEntityTooLarge = CodeResourceExhausted"
| "reason_connect_code StatusReasonMethodNotAllowed = CodeUnimplemented"
| "reason_connect_code StatusReasonServiceUnavailable = CodeUnavailable"
| "reason_connect_code StatusReasonInvalid = CodeInvalidArgument"
| "reason_connect_code StatusReasonBadRequest = CodeInvalidArgument"
| "reason_connect_code StatusReasonNotAcceptable = CodeInvalidArgument"
| "reason_connect_code StatusReasonUnsupportedMediaType = CodeInvalidArgument"
| "reason_connect_code StatusReasonExpired = CodeInvalidArgument"
| "reason_connect_code StatusReasonStoreReadError = CodeInternal"
| "reason_connect_code StatusReasonInternalError = CodeInternal"
| "reason_connect_code (ReasonOther _) = CodeInternal"

lemma infrastructure_wrapK8sError:
  "infrastructure_error e \<Longrightarrow> infrastructure_error (wrapK8sError e)"
  by (auto simp: infrastructure_error_def wrapK8sError_def errors_As_cause Let_def split: option.splits)

text \<open>
  Claim C33. An error of the Kubernetes API, however deeply it is wrapped, reaches the
  client with the Connect code of its reason; an unknown reason becomes an internal
  error; and the Connect error carries the API's message and the original error as its
  cause.
\<close>

theorem k8s_error_reaches_client:
  assumes "errors_As as_APIStatus e = Some (r, m)" and "infrastructure_error e"
  shows "\<exists>code. domainErrorToConnectError (wrapK8sError e) =
           ConnectErr (reason_connect_code r) (DomainError code m (Some e))"
proof -
  obtain code where w: "wrapK8sError e = DomainError code m (Some e)"
      and code: "code = (case statusReasonToDomainCode r of Some c \<Rightarrow> c | None \<Rightarrow> ErrorCodeInternal)"
    using assms(1) by (simp add: wrapK8sError_def Let_def)
  have conn: "(case domainCodeToConnectCode code of Some c \<Rightarrow> c | None \<Rightarrow> CodeInternal)
                = reason_connect_code r"
    unfolding code by (cases r) simp_all
  have "infrastructure_error (DomainError code m (Some e))"
    using infrastructure_wrapK8sError [OF assms(2)] w by simp
  then have "domainErrorToConnectError (DomainError code m (Some e)) =
               ConnectErr (case domainCodeToConnectCode code of Some c \<Rightarrow> c | None \<Rightarrow> CodeInternal)
                 (DomainError code m (Some e))"
    by (simp add: domainErrorToConnectError_def infrastructure_error_def)
  then show ?thesis using w conn by auto
qed

theorem k8s_error_reaches_client_witness:
  "\<exists>code. domainErrorToConnectError (wrapK8sError (Wrap ''get'' (StatusErr StatusReasonGone ''old''))) =
     ConnectErr CodeNotFound (DomainError code ''old''
       (Some (Wrap ''get'' (StatusErr StatusReasonGone ''old''))))"
proof -
  let ?e = "Wrap ''get'' (StatusErr StatusReasonGone ''old'')"
  have "errors_As as_APIStatus ?e = Some (StatusReasonGone, ''old'')"
    by (simp add: errors_As_def)
  moreover have "infrastructure_error ?e"
    by (simp add: infrastructure_error_def errors_As_def)
  ultimately show ?thesis
    using k8s_error_reaches_client [of ?e StatusReasonGone "''old''"] by simp
qed

end
