(* ===== verification/Addresses.thy ===== *)
theory Addresses
  imports Go_Errors
begin

text \<open>
  The loopback address pool: \<^verbatim>\<open>internal/providers/chisel/address_allocator.go\<close> and the
  constants of \<^verbatim>\<open>service.go\<close> it uses.

  The allocator's set \<^verbatim>\<open>usedHosts\<close> is a Go map with unit values. Indices and the hash are
  32-bit words, because \<^verbatim>\<open>base + i\<close> wraps around in the source. FNV-1a is the hash of
  \<^verbatim>\<open>hash/fnv\<close>.
\<close>

unbundle bit_operations_syntax

section \<open>Constants and hash\<close>

definition tunnelPort :: nat where
  "tunnelPort = 16598"

definition maxHosts :: nat where
  "maxHosts = 254 * 254 * 254"

definition fnv1a_step :: "uint32 \<Rightarrow> char \<Rightarrow> uint32" where
  "fnv1a_step h c = (h XOR of_nat (of_char c)) * 16777619"

definition hashKey :: "gostring \<Rightarrow> uint32" where
  "hashKey key = foldl fnv1a_step 2166136261 key"

definition hostFromIndex :: "uint32 \<Rightarrow> gostring" where
  "hostFromIndex idx =
     (let a = idx div (254 * 254);
          b = (idx div 254) mod 254;
          c = idx mod 254
      in ''127.'' @ itoa (unat (a + 1)) @ ''.'' @ itoa (unat (b + 1)) @ ''.'' @ itoa (unat (c + 1)))"

section \<open>The allocator\<close>

record addressAllocator =
  usedHosts :: "(gostring, unit) gomap"

definition newAddressAllocator :: addressAllocator where
  "newAddressAllocator = \<lparr>usedHosts = []\<rparr>"

definition candidate :: "uint32 \<Rightarrow> nat \<Rightarrow> gostring" where
  "candidate base i = hostFromIndex ((base + of_nat i) mod of_nat maxHosts)"

text \<open>The loop \<^verbatim>\<open>for i := range uint32(maxHosts)\<close>, from a given \<open>i\<close> on.\<close>

function probe :: "(gostring, unit) gomap \<Rightarrow> uint32 \<Rightarrow> nat \<Rightarrow> gostring option" where
  "probe used base i =
     (if i < maxHosts
      then (if gget used (candidate base i) \<noteq> None
            then probe used base (Suc i)
            else Some (candidate base i))
      else None)"
  by pat_completeness auto
termination
  by (relation "measure (\<lambda>(used, base, i). maxHosts - i)") auto

declare probe.simps [simp del]

definition exhausted :: go_error where
  "exhausted = Plain (''exhausted loopback address space ('' @ itoa maxHosts @ '' hosts)'')"

definition allocate :: "addressAllocator \<Rightarrow> gostring \<Rightarrow> (gostring \<times> addressAllocator) res" where
  "allocate a cluster =
     (case probe (usedHosts a) (hashKey cluster) 0 of
        None \<Rightarrow> Inl exhausted
      | Some host \<Rightarrow> Inr (host, a\<lparr>usedHosts := gput host () (usedHosts a)\<rparr>))"

definition release :: "addressAllocator \<Rightarrow> gostring \<Rightarrow> addressAllocator" where
  "release a host = a\<lparr>usedHosts := gdel host (usedHosts a)\<rparr>"

text \<open>The hosts of the pool, as the specification of what can be allocated.\<close>

definition host_pool :: "gostring set" where
  "host_pool = (\<lambda>n. hostFromIndex (of_nat n)) ` {..<maxHosts}"

section \<open>Indices as natural numbers\<close>

text \<open>The index the loop probes at step \<open>i\<close>: the sum wraps at \<open>2 ^ 32\<close> before it is reduced.\<close>

definition probe_index :: "uint32 \<Rightarrow> nat \<Rightarrow> nat" where
  "probe_index base i = ((unat base + i) mod 2 ^ 32) mod maxHosts"

lemma maxHosts_pos [simp]: "0 < maxHosts"
  by (simp add: maxHosts_def)

lemma probe_index_less [simp]: "probe_index base i < maxHosts"
  by (simp add: probe_index_def)

lemma maxHosts_word: "unat (of_nat maxHosts :: uint32) = maxHosts"
  by (simp add: maxHosts_def)

lemma unat_probe:
  "unat ((base + of_nat i) mod of_nat maxHosts :: uint32) = probe_index base i"
  unfolding probe_index_def unat_mod_distrib maxHosts_word
  by (simp add: unat_word_ariths(1) unat_of_nat mod_add_right_eq)

lemma candidate_index: "candidate base i = hostFromIndex (of_nat (probe_index base i))"
  unfolding candidate_def by (simp flip: unat_probe)

lemma hostFromIndex_nat:
  assumes "n < maxHosts"
  shows "hostFromIndex (of_nat n) =
    ''127.'' @ itoa (n div 64516 + 1) @ ''.'' @ itoa ((n div 254) mod 254 + 1) @ ''.'' @ itoa (n mod 254 + 1)"
proof -
  have n: "unat (of_nat n :: uint32) = n"
    using assms by (simp add: maxHosts_def unat_of_nat)
  have [simp]: "unat (of_nat n div 64516 :: uint32) = n div 64516"
    "unat ((of_nat n div 254) mod 254 :: uint32) = (n div 254) mod 254"
    "unat (of_nat n mod 254 :: uint32) = n mod 254"
    by (simp_all add: unat_div_distrib unat_mod_distrib n)
  have "n div 64516 + 1 < 2 ^ 32"
    using assms by (simp add: maxHosts_def)
  moreover have "k mod 254 + 1 < 2 ^ 32" for k :: nat
    using mod_less_divisor [of 254 k] by (simp add: less_trans)
  ultimately show ?thesis
    unfolding hostFromIndex_def Let_def by (simp add: unat_word_ariths(1))
qed

lemma hostFromIndex_inj:
  assumes "m < maxHosts" "n < maxHosts" "hostFromIndex (of_nat m) = hostFromIndex (of_nat n)"
  shows "m = n"
proof -
  have dot: "\<not> is_digit (CHR ''.'')"
    by (simp add: is_digit_def)
  have "itoa (m div 64516 + 1) @ CHR ''.'' # itoa ((m div 254) mod 254 + 1) @ CHR ''.'' # itoa (m mod 254 + 1)
      = itoa (n div 64516 + 1) @ CHR ''.'' # itoa ((n div 254) mod 254 + 1) @ CHR ''.'' # itoa (n mod 254 + 1)"
    using assms by (simp add: hostFromIndex_nat)
  from itoa_append_inject [OF this dot] have one: "m div 64516 = n div 64516" and
    "itoa ((m div 254) mod 254 + 1) @ CHR ''.'' # itoa (m mod 254 + 1)
       = itoa ((n div 254) mod 254 + 1) @ CHR ''.'' # itoa (n mod 254 + 1)"
    by simp_all
  from itoa_append_inject [OF this(2) dot]
  have *: "m div 64516 = n div 64516" "(m div 254) mod 254 = (n div 254) mod 254" "m mod 254 = n mod 254"
    using one by simp_all
  have div2: "k div 64516 = (k div 254) div 254" for k :: nat
    by (simp flip: div_mult2_eq)
  have "m div 254 = n div 254"
    using * unfolding div2 by (metis div_mult_mod_eq)
  then show ?thesis using * by (metis div_mult_mod_eq)
qed

lemma inj_on_host: "inj_on (\<lambda>n. hostFromIndex (of_nat n)) {..<maxHosts}"
  by (auto intro!: inj_onI hostFromIndex_inj)

lemma card_host_pool: "card host_pool = maxHosts"
  unfolding host_pool_def by (simp add: card_image inj_on_host)

lemma candidate_in_pool [simp]: "candidate base i \<in> host_pool"
  by (simp add: candidate_index host_pool_def)

section \<open>The probe sequence\<close>

lemma probe_Some:
  assumes "probe used base i = Some h"
  shows "\<exists>j. i \<le> j \<and> j < maxHosts \<and> h = candidate base j \<and> gget used h = None \<and>
             (\<forall>k. i \<le> k \<and> k < j \<longrightarrow> gget used (candidate base k) \<noteq> None)"
  using assms
proof (induction used base i rule: probe.induct)
  case (1 used base i)
  show ?case
  proof (cases "i < maxHosts \<and> gget used (candidate base i) \<noteq> None")
    case True
    then have "probe used base (Suc i) = Some h"
      using "1.prems" by (simp add: probe.simps [of used base i])
    then obtain j where j: "Suc i \<le> j" "j < maxHosts" "h = candidate base j" "gget used h = None"
      "\<forall>k. Suc i \<le> k \<and> k < j \<longrightarrow> gget used (candidate base k) \<noteq> None"
      using "1.IH" True by blast
    moreover have "\<forall>k. i \<le> k \<and> k < j \<longrightarrow> gget used (candidate base k) \<noteq> None"
      using j(5) True by (metis Suc_leI le_neq_implies_less)
    ultimately show ?thesis by (metis Suc_leD)
  next
    case False
    then show ?thesis
      using "1.prems"
      by (cases "gget used (candidate base i)")
        (auto simp: probe.simps [of used base i] split: if_splits intro!: exI [of _ i])
  qed
qed

lemma probe_None:
  "probe used base i = None \<longleftrightarrow> (\<forall>j. i \<le> j \<and> j < maxHosts \<longrightarrow> gget used (candidate base j) \<noteq> None)"
proof (induction used base i rule: probe.induct)
  case (1 used base i)
  show ?case
  proof (cases "i < maxHosts \<and> gget used (candidate base i) \<noteq> None")
    case True
    then have "probe used base i = probe used base (Suc i)"
      by (simp add: probe.simps [of used base i])
    then show ?thesis
      using "1.IH" True by (metis Suc_leD Suc_leI le_neq_implies_less)
  next
    case False
    then show ?thesis
      by (auto simp: probe.simps [of used base i])
  qed
qed

text \<open>The hosts the loop looks at, for one hash.\<close>

definition probed :: "uint32 \<Rightarrow> gostring set" where
  "probed base = candidate base ` {..<maxHosts}"

lemma probed_subset: "probed base \<subseteq> host_pool"
  by (auto simp: probed_def)

lemma finite_probed [simp]: "finite (probed base)"
  by (simp add: probed_def)

lemma probe_None_probed: "probe used base 0 = None \<longleftrightarrow> probed base \<subseteq> gkeys used"
  unfolding probe_None probed_def
  by (auto simp: gkeys_dom image_subset_iff)

lemma probed_image: "probed base = (\<lambda>n. hostFromIndex (of_nat n)) ` (probe_index base ` {..<maxHosts})"
  by (simp add: probed_def candidate_index image_image)

lemma probed_card: "card (probed base) = card (probe_index base ` {..<maxHosts})"
proof -
  have "probe_index base ` {..<maxHosts} \<subseteq> {..<maxHosts}" by auto
  then have "inj_on (\<lambda>n. hostFromIndex (of_nat n)) (probe_index base ` {..<maxHosts})"
    using inj_on_host inj_on_subset by blast
  then show ?thesis unfolding probed_image by (rule card_image)
qed

text \<open>
  Where the sum does not wrap, the loop visits every index. Where it does, \<open>w\<close> steps are
  made before the wrap. The indices below \<open>maxHosts - w\<close> are visited after it and those from
  \<open>maxHosts - w + 2 ^ 32 mod maxHosts\<close> on before it; the block between them is not visited.
\<close>

abbreviation pool_slack :: nat where
  "pool_slack \<equiv> 2 ^ 32 mod maxHosts"

lemma probe_index_no_wrap:
  assumes "unat base + maxHosts \<le> 2 ^ 32"
  shows "probe_index base ` {..<maxHosts} = {..<maxHosts}"
proof -
  have "j \<in> probe_index base ` {..<maxHosts}" if j: "j < maxHosts" for j
  proof -
    let ?r = "unat base mod maxHosts"
    define i where "i = (j + maxHosts - ?r) mod maxHosts"
    have r: "?r < maxHosts" and i: "i < maxHosts" by (simp_all add: i_def)
    have "probe_index base i = (unat base + i) mod maxHosts"
      using assms i by (simp add: probe_index_def)
    also have "\<dots> = (?r + (j + maxHosts - ?r)) mod maxHosts"
      unfolding i_def by (simp only: mod_add_left_eq mod_add_right_eq)
    also have "?r + (j + maxHosts - ?r) = j + maxHosts" using r by linarith
    also have "(j + maxHosts) mod maxHosts = j" using j by simp
    finally show ?thesis using i by auto
  qed
  then show ?thesis by auto
qed

lemma probe_index_wrap_visits:
  assumes "2 ^ 32 < unat base + maxHosts" and w: "w = 2 ^ 32 - unat base"
    and "j < maxHosts" and "j < maxHosts - w \<or> maxHosts - w + pool_slack \<le> j"
  shows "j \<in> probe_index base ` {..<maxHosts}"
proof -
  have lt: "unat base < 2 ^ 32" using unsigned_less [of base] by simp
  then have base: "unat base = 2 ^ 32 - w" and wpos: "0 < w" and wM: "w < maxHosts"
    using w assms(1) by linarith+
  have wle: "w \<le> 2 ^ 32" using w by simp
  show ?thesis
  proof (cases "j < maxHosts - w")
    case True
    have "probe_index base (w + j) = (2 ^ 32 + j) mod 2 ^ 32 mod maxHosts"
      using wle by (simp add: probe_index_def base)
    also have "\<dots> = j" using assms(3) by (simp add: maxHosts_def)
    finally show ?thesis using True by (metis imageI lessThan_iff less_diff_conv2 add.commute wM less_imp_le less_diff_conv)
  next
    case False
    then have j: "maxHosts - w + pool_slack \<le> j" using assms(4) by simp
    define i where "i = j + w - maxHosts - pool_slack"
    have i: "i + (maxHosts + pool_slack) = j + w" and iw: "i < w"
      using j wM assms(3) wpos by (simp_all add: i_def)
    have "probe_index base i = (2 ^ 32 - w + i) mod maxHosts"
      using iw wle by (simp add: probe_index_def base)
    also have "\<dots> = j"
    proof -
      let ?q = "2 ^ 32 div maxHosts"
      have "(2 :: nat) ^ 32 = ?q * maxHosts + pool_slack" by simp
      then have "2 ^ 32 - w + i = ?q * maxHosts + pool_slack - w + i" by simp
      also have "\<dots> = (?q - 1) * maxHosts + j"
        using i wM by (simp add: maxHosts_def)
      finally show ?thesis using assms(3) by simp
    qed
    finally show ?thesis using iw wM by (metis imageI lessThan_iff less_trans)
  qed
qed

lemma probed_no_wrap: "unat base + maxHosts \<le> 2 ^ 32 \<Longrightarrow> probed base = host_pool"
  by (simp add: probed_image probe_index_no_wrap host_pool_def)

lemma probed_card_ge: "maxHosts - pool_slack \<le> card (probed base)"
proof (cases "unat base + maxHosts \<le> 2 ^ 32")
  case True
  then show ?thesis by (simp add: probed_no_wrap card_host_pool)
next
  case False
  define w where "w = 2 ^ 32 - unat base"
  let ?A = "{..<maxHosts - w}" and ?B = "{maxHosts - w + pool_slack..<maxHosts}"
  have "?A \<union> ?B \<subseteq> probe_index base ` {..<maxHosts}"
    using probe_index_wrap_visits [of base w] False by (auto simp: w_def)
  then have "card (?A \<union> ?B) \<le> card (probed base)"
    unfolding probed_card by (intro card_mono) auto
  moreover have "card (?A \<union> ?B) = card ?A + card ?B"
    by (rule card_Un_disjoint) auto
  ultimately show ?thesis by simp
qed

section \<open>The allocator's operations\<close>

definition alloc_inv :: "addressAllocator \<Rightarrow> bool" where
  "alloc_inv a \<longleftrightarrow> gwf (usedHosts a) \<and> gkeys (usedHosts a) \<subseteq> host_pool"

lemma alloc_inv_new: "alloc_inv newAddressAllocator"
  by (simp add: alloc_inv_def newAddressAllocator_def)

lemma allocate_Inr:
  assumes "allocate a cluster = Inr (h, a')"
  shows "h \<in> host_pool" "h \<notin> gkeys (usedHosts a)"
    "a' = a\<lparr>usedHosts := gput h () (usedHosts a)\<rparr>"
  using assms probe_Some [of "usedHosts a" "hashKey cluster" 0]
  by (fastforce simp: allocate_def gget_None_iff split: option.splits)+

lemma allocate_Inl: "allocate a cluster = Inl e \<longleftrightarrow>
    e = exhausted \<and> probed (hashKey cluster) \<subseteq> gkeys (usedHosts a)"
  by (auto simp: allocate_def probe_None_probed [symmetric] split: option.splits)

lemma alloc_inv_allocate: "alloc_inv a \<Longrightarrow> allocate a cluster = Inr (h, a') \<Longrightarrow> alloc_inv a'"
  using allocate_Inr [of a cluster h a'] by (auto simp: alloc_inv_def)

lemma alloc_inv_release: "alloc_inv a \<Longrightarrow> alloc_inv (release a h)"
  by (auto simp: alloc_inv_def release_def)

lemma usedHosts_release [simp]: "usedHosts (release a h) = gdel h (usedHosts a)"
  by (simp add: release_def)

text \<open>The outcome of a probe depends on the set of used hosts only.\<close>

lemma probe_cong:
  assumes "gkeys u = gkeys u'"
  shows "probe u base i = probe u' base i"
  using assms
proof (induction u base i rule: probe.induct)
  case (1 u base i)
  have "gget u x = None \<longleftrightarrow> gget u' x = None" for x
    using "1.prems" by (simp add: gget_None_iff)
  then show ?case
    using "1.IH" "1.prems" by (subst (1 2) probe.simps) simp
qed

lemma allocate_again:
  assumes "allocate a cluster = Inr (h, a')"
  shows "allocate (release a' h) cluster = Inr (h, a')"
proof -
  have h: "h \<notin> gkeys (usedHosts a)" and a': "a' = a\<lparr>usedHosts := gput h () (usedHosts a)\<rparr>"
    using allocate_Inr [OF assms] by simp_all
  have "gdel h (gput h () m) = m" if "h \<notin> gkeys m" for m :: "(gostring, unit) gomap"
    using that by (induction m) auto
  then have "release a' h = a" using h a' by (simp add: release_def)
  then show ?thesis using assms by simp
qed

lemma allocate_ok:
  assumes "alloc_inv a" "glen (usedHosts a) < 14830536"
  shows "\<exists>h a'. allocate a cluster = Inr (h, a')"
proof -
  have "card (gkeys (usedHosts a)) < card (probed (hashKey cluster))"
    using assms probed_card_ge [of "hashKey cluster"] by (simp add: alloc_inv_def glen_card maxHosts_def)
  then have "\<not> probed (hashKey cluster) \<subseteq> gkeys (usedHosts a)"
    by (metis card_mono finite_gkeys leD)
  then show ?thesis
    using allocate_Inl [of a cluster] by (cases "allocate a cluster") auto
qed

section \<open>Properties\<close>

text \<open>
  Distinct indices below \<^verbatim>\<open>maxHosts\<close> give distinct loopback addresses, as
  strings: two clusters that hold different indices never share a host.
\<close>

theorem hostFromIndex_unique:
  fixes m n :: uint32
  assumes "unat m < maxHosts" and "unat n < maxHosts"
  shows "hostFromIndex m = hostFromIndex n \<longleftrightarrow> m = n"
proof
  assume "hostFromIndex m = hostFromIndex n"
  then have "unat m = unat n"
    using assms by (intro hostFromIndex_inj) simp_all
  then show "m = n" by (simp add: word_unat_eq_iff)
qed simp

theorem hostFromIndex_unique_witness:
  "hostFromIndex 300 = ''127.1.2.47'' \<and> hostFromIndex 301 \<noteq> ''127.1.2.47''"
proof -
  have h: "hostFromIndex 300 = ''127.1.2.47''"
    by code_simp
  then show ?thesis
    using hostFromIndex_unique [of 300 301] by (simp add: maxHosts_def)
qed

text \<open>
  A successful allocation returns a host of the pool that was not in use, adds
  exactly that host to the used ones, and keeps the allocator's invariant; releasing it
  gives back the pool as it was before.
\<close>

theorem allocate_fresh:
  assumes "alloc_inv a" and "allocate a cluster = Inr (h, a')"
  shows "h \<in> host_pool \<and> h \<notin> gkeys (usedHosts a) \<and> alloc_inv a' \<and>
         gkeys (usedHosts a') = insert h (gkeys (usedHosts a)) \<and>
         gkeys (usedHosts (release a' h)) = gkeys (usedHosts a)"
  using allocate_Inr [OF assms(2)] alloc_inv_allocate [OF assms] by auto

theorem allocate_fresh_witness:
  "\<exists>h a'. allocate newAddressAllocator ''z'' = Inr (h, a') \<and> gkeys (usedHosts a') = {h}"
proof -
  have "\<not> probed (hashKey ''z'') \<subseteq> gkeys (usedHosts newAddressAllocator)"
  proof -
    have "candidate (hashKey ''z'') 0 \<in> probed (hashKey ''z'')" by (simp add: probed_def)
    then show ?thesis by (auto simp: newAddressAllocator_def)
  qed
  then obtain h a' where ok: "allocate newAddressAllocator ''z'' = Inr (h, a')"
    using allocate_Inl [of newAddressAllocator "''z''"] by (metis obj_sumE surj_pair)
  then show ?thesis
    using allocate_fresh [OF alloc_inv_new ok] by (auto simp: newAddressAllocator_def)
qed

text \<open>
  Claim C34. Allocation cannot fail while fewer than 14,830,536 hosts are in use, whatever
  the cluster name. Where \<^verbatim>\<open>hash + maxHosts\<close> does not pass \<open>2 ^ 32\<close>, it succeeds exactly
  when some host of the pool is free.
\<close>

theorem allocate_succeeds:
  assumes "alloc_inv a"
  shows "(glen (usedHosts a) < 14830536 \<longrightarrow> (\<exists>h a'. allocate a cluster = Inr (h, a'))) \<and>
         (unat (hashKey cluster) + maxHosts \<le> 2 ^ 32 \<longrightarrow>
            ((\<exists>h a'. allocate a cluster = Inr (h, a')) \<longleftrightarrow> gkeys (usedHosts a) \<noteq> host_pool))"
proof (intro conjI impI)
  have ex: "(\<exists>h a'. allocate a cluster = Inr (h, a')) \<longleftrightarrow> \<not> probed (hashKey cluster) \<subseteq> gkeys (usedHosts a)"
    using allocate_Inl [of a cluster] by (cases "allocate a cluster") auto
  {
    assume "glen (usedHosts a) < 14830536"
    then show "\<exists>h a'. allocate a cluster = Inr (h, a')" using allocate_ok [OF assms] by blast
  }
  {
    assume "unat (hashKey cluster) + maxHosts \<le> 2 ^ 32"
    then show "(\<exists>h a'. allocate a cluster = Inr (h, a')) \<longleftrightarrow> gkeys (usedHosts a) \<noteq> host_pool"
      using ex assms by (auto simp: probed_no_wrap alloc_inv_def)
  }
qed

theorem allocate_succeeds_witness:
  "\<exists>h a'. allocate newAddressAllocator ''prod'' = Inr (h, a')"
  using allocate_succeeds [OF alloc_inv_new, of "''prod''"] by (simp add: newAddressAllocator_def)

lemma hashKey_z: "hashKey ''z'' = 4278997933"
  by (simp add: hashKey_def fnv1a_step_def)

lemma probe_index_z: "i < maxHosts \<Longrightarrow> probe_index 4278997933 i \<noteq> 1556528"
proof -
  assume i: "i < maxHosts"
  consider "i < 14412835" | "14412835 \<le> i" "i < 15969363" | "15969363 \<le> i" by linarith
  then show ?thesis
  proof cases
    case 1
    then have "probe_index 4278997933 i = (261 * 16387064 + (1974229 + i)) mod 16387064"
      by (simp add: probe_index_def maxHosts_def)
    also have "\<dots> = 1974229 + i"
      using 1 unfolding mod_mult_self3 by simp
    finally show ?thesis by simp
  next
    case 2
    define k where "k = i - 14412835"
    have k: "i = 14412835 + k" "k < 1556528" using 2 by (simp_all add: k_def)
    then have "probe_index 4278997933 i = (262 * 16387064 + k) mod 16387064"
      by (simp add: probe_index_def maxHosts_def)
    also have "\<dots> = k"
      using k unfolding mod_mult_self3 by simp
    finally show ?thesis using k by simp
  next
    case 3
    define k where "k = i - 15969363"
    have k: "i = 15969363 + k" "k < 417701" using 3 i by (simp_all add: k_def maxHosts_def)
    then have "probe_index 4278997933 i = (2 ^ 32 + k) mod 2 ^ 32 mod 16387064"
      by (simp add: probe_index_def maxHosts_def)
    also have "\<dots> = k" using k by simp
    finally show ?thesis using k by simp
  qed
qed

text \<open>
  The probe sequence of \<^verbatim>\<open>allocate\<close> is not complete: the 32-bit sum
  \<^verbatim>\<open>base + i\<close> wraps around, and \<open>2 ^ 32\<close> is not a multiple of \<^verbatim>\<open>maxHosts\<close>. For the
  cluster name \<^verbatim>\<open>z\<close> there is a valid allocator state in which a host of the pool is free
  and the allocator still reports that the address space is exhausted.
\<close>

theorem allocate_wraps_past_free_host:
  "\<exists>a. alloc_inv a \<and> gkeys (usedHosts a) \<subset> host_pool \<and> allocate a ''z'' = Inl exhausted"
proof -
  let ?P = "probed 4278997933"
  obtain hs where hs: "distinct hs" "set hs = ?P"
    using finite_distinct_list [OF finite_probed] by blast
  define a where "a = \<lparr>usedHosts = map (\<lambda>h. (h, ())) hs\<rparr>"
  have keys: "gkeys (usedHosts a) = ?P"
    by (simp add: a_def gkeys_def image_image hs)
  have wf: "gwf (usedHosts a)"
    by (simp add: a_def gwf_def comp_def hs)
  have free: "hostFromIndex (of_nat 1556528) \<notin> ?P"
  proof
    assume "hostFromIndex (of_nat 1556528) \<in> ?P"
    then obtain i where "i < maxHosts" "hostFromIndex (of_nat 1556528) = candidate 4278997933 i"
      unfolding probed_def by blast
    moreover have "(1556528 :: nat) < maxHosts" by (simp add: maxHosts_def)
    ultimately have "1556528 = probe_index 4278997933 i"
      unfolding candidate_index by (intro hostFromIndex_inj) auto
    then show False using probe_index_z \<open>i < maxHosts\<close> by metis
  qed
  have "hostFromIndex (of_nat 1556528) \<in> host_pool"
    unfolding host_pool_def by (intro imageI) (simp add: maxHosts_def)
  then have "gkeys (usedHosts a) \<subset> host_pool"
    using free probed_subset unfolding keys by blast
  moreover have "allocate a ''z'' = Inl exhausted"
    using keys by (simp add: allocate_Inl hashKey_z)
  moreover have "alloc_inv a"
    using wf probed_subset by (simp add: alloc_inv_def keys)
  ultimately show ?thesis by blast
qed

end
