(* ===== verification/Encoding.thy ===== *)
theory Encoding
  imports Go_Errors
begin

text \<open>
  The encodings of the Go standard library that tokens and credentials are built from:
  \<^verbatim>\<open>base64.RawURLEncoding\<close> (\<^verbatim>\<open>EncodeToString\<close>, \<^verbatim>\<open>DecodeString\<close>) and \<^verbatim>\<open>%x\<close>.

  The decoder is the one of \<^verbatim>\<open>encoding/base64\<close> without padding and not in strict mode:
  carriage returns and newlines are skipped, any other byte outside the alphabet is an
  error, one left-over character is an error, and the unused low bits of the last
  character are ignored.
\<close>

section \<open>Bytes as numbers\<close>

definition byte_of :: "nat \<Rightarrow> char" where
  "byte_of n = char_of n"

definition ord_of :: "char \<Rightarrow> nat" where
  "ord_of c = of_char c"

lemma ord_of_less [simp]: "ord_of c < 256"
  unfolding ord_of_def using range_nat_of_char by (metis UNIV_I atLeastLessThan_iff image_eqI)

lemma byte_of_ord_of [simp]: "byte_of (ord_of c) = c"
  by (simp add: byte_of_def ord_of_def)

lemma ord_of_byte_of [simp]: "n < 256 \<Longrightarrow> ord_of (byte_of n) = n"
  by (simp add: byte_of_def ord_of_def)

lemma ord_of_inject: "ord_of a = ord_of b \<longleftrightarrow> a = b"
  by (metis byte_of_ord_of)

section \<open>Base 64, URL alphabet, no padding\<close>

definition enc6 :: "nat \<Rightarrow> char" where
  "enc6 d = byte_of (if d < 26 then 65 + d else if d < 52 then 71 + d
     else if d < 62 then d - 4 else if d = 62 then 45 else 95)"

definition dec6 :: "char \<Rightarrow> nat option" where
  "dec6 c = (let n = ord_of c in
     if 65 \<le> n \<and> n \<le> 90 then Some (n - 65)
     else if 97 \<le> n \<and> n \<le> 122 then Some (n - 71)
     else if 48 \<le> n \<and> n \<le> 57 then Some (n + 4)
     else if n = 45 then Some 62
     else if n = 95 then Some 63
     else None)"

fun b64_encode :: "bytes \<Rightarrow> gostring" where
  "b64_encode [] = []"
| "b64_encode [a] =
     (let n = ord_of a * 16 in [enc6 (n div 64), enc6 (n mod 64)])"
| "b64_encode [a, b] =
     (let n = (ord_of a * 256 + ord_of b) * 4
      in [enc6 (n div 4096), enc6 (n div 64 mod 64), enc6 (n mod 64)])"
| "b64_encode (a # b # c # s) =
     (let n = ord_of a * 65536 + ord_of b * 256 + ord_of c
      in [enc6 (n div 262144), enc6 (n div 4096 mod 64), enc6 (n div 64 mod 64), enc6 (n mod 64)]
         @ b64_encode s)"

fun sextets :: "gostring \<Rightarrow> nat list option" where
  "sextets [] = Some []"
| "sextets (c # s) =
     (case dec6 c of
        None \<Rightarrow> None
      | Some d \<Rightarrow> map_option ((#) d) (sextets s))"

fun b64_bytes :: "nat list \<Rightarrow> bytes option" where
  "b64_bytes [] = Some []"
| "b64_bytes [w] = None"
| "b64_bytes [w, x] = Some [byte_of ((w * 64 + x) div 16)]"
| "b64_bytes [w, x, y] =
     (let n = (w * 4096 + x * 64 + y) div 4
      in Some [byte_of (n div 256), byte_of (n mod 256)])"
| "b64_bytes (w # x # y # z # ds) =
     (let n = w * 262144 + x * 4096 + y * 64 + z
      in map_option (\<lambda>s. byte_of (n div 65536) # byte_of (n div 256 mod 256) # byte_of (n mod 256) # s)
           (b64_bytes ds))"

definition b64_decode :: "gostring \<Rightarrow> bytes option" where
  "b64_decode s =
     (case sextets (filter (\<lambda>c. c \<noteq> CHR 0x0A \<and> c \<noteq> CHR 0x0D) s) of
        None \<Rightarrow> None
      | Some ds \<Rightarrow> b64_bytes ds)"

lemma dec6_enc6 [simp]: "d < 64 \<Longrightarrow> dec6 (enc6 d) = Some d"
  by (auto simp: dec6_def enc6_def Let_def)

lemma enc6_alphabet: "d < 64 \<Longrightarrow> enc6 d \<noteq> CHR 0x0A \<and> enc6 d \<noteq> CHR 0x0D \<and> enc6 d \<noteq> CHR ''.'' \<and> enc6 d \<noteq> CHR ''/'' \<and> enc6 d \<noteq> CHR ''%''"
  using dec6_enc6 [of d] by (auto simp: dec6_def ord_of_def Let_def)

lemma digit_split:
  fixes q r m :: nat
  assumes "r < m"
  shows "(q * m + r) div m = q" "(q * m + r) mod m = r"
  using assms by simp_all

lemma three_bytes:
  fixes a b c :: nat
  assumes "a < 256" "b < 256" "c < 256"
  shows "(a * 65536 + b * 256 + c) div 65536 = a"
    "(a * 65536 + b * 256 + c) div 256 mod 256 = b"
    "(a * 65536 + b * 256 + c) mod 256 = c"
    "a * 65536 + b * 256 + c < 16777216"
proof -
  have eq: "a * 65536 + b * 256 + c = (a * 256 + b) * 256 + c" by simp
  have bc: "b * 256 + c < 65536" using assms by simp
  show "(a * 65536 + b * 256 + c) div 65536 = a"
    using digit_split(1) [OF bc, of a] by (simp add: add.assoc)
  show "(a * 65536 + b * 256 + c) div 256 mod 256 = b"
    unfolding eq using assms by (simp only: digit_split)
  show "(a * 65536 + b * 256 + c) mod 256 = c"
    unfolding eq using assms by (simp only: digit_split)
  show "a * 65536 + b * 256 + c < 16777216" using assms by linarith
qed

lemma four_sextets:
  fixes n :: nat
  shows "n div 262144 * 262144 + n div 4096 mod 64 * 4096 + n div 64 mod 64 * 64 + n mod 64 = n"
proof -
  have e: "n div 4096 = n div 64 div 64" "n div 262144 = n div 64 div 64 div 64"
    by (simp_all flip: div_mult2_eq)
  show ?thesis
    unfolding e
    using div_mult_mod_eq [of n 64] div_mult_mod_eq [of "n div 64" 64]
      div_mult_mod_eq [of "n div 64 div 64" 64] by linarith
qed

text \<open>The values of the characters of an encoding.\<close>

fun b64_values :: "bytes \<Rightarrow> nat list" where
  "b64_values [] = []"
| "b64_values [a] = (let n = ord_of a * 16 in [n div 64, n mod 64])"
| "b64_values [a, b] =
     (let n = (ord_of a * 256 + ord_of b) * 4 in [n div 4096, n div 64 mod 64, n mod 64])"
| "b64_values (a # b # c # s) =
     (let n = ord_of a * 65536 + ord_of b * 256 + ord_of c
      in [n div 262144, n div 4096 mod 64, n div 64 mod 64, n mod 64] @ b64_values s)"

lemma b64_encode_values: "b64_encode s = map enc6 (b64_values s)"
  by (induction s rule: b64_values.induct) (simp_all add: Let_def)

lemma b64_values_less: "d \<in> set (b64_values s) \<Longrightarrow> d < 64"
proof (induction s rule: b64_values.induct)
  case (2 a)
  have "ord_of a * 16 div 64 < 64" by (rule less_mult_imp_div_less) (use ord_of_less [of a] in linarith)
  then show ?case using 2 by (auto simp: Let_def simp del: div_mult_mult1 div_mult_mult2)
next
  case (3 a b)
  have "ord_of a \<le> 255" "ord_of b \<le> 255"
    using ord_of_less [of a] ord_of_less [of b] by linarith+
  then have "ord_of a * 1024 + ord_of b * 4 < 262144" by linarith
  then have "(ord_of a * 256 + ord_of b) * 4 < 64 * 4096" by (simp add: algebra_simps)
  then have "(ord_of a * 256 + ord_of b) * 4 div 4096 < 64"
    by (rule less_mult_imp_div_less)
  then show ?case using 3 by (simp only: b64_values.simps Let_def set_simps) auto
next
  case (4 a b c s)
  have "ord_of a * 65536 + ord_of b * 256 + ord_of c < 16777216"
    by (rule three_bytes) simp_all
  then show ?case using 4 by (auto simp: Let_def)
qed simp

lemma b64_bytes_values: "b64_bytes (b64_values s) = Some s"
proof (induction s rule: b64_values.induct)
  case (2 a)
  have "(ord_of a * 16) div 64 * 64 + (ord_of a * 16) mod 64 = ord_of a * 16"
    by (rule div_mult_mod_eq)
  then show ?case by (simp only: b64_values.simps Let_def b64_bytes.simps) simp
next
  case (3 a b)
  let ?n = "(ord_of a * 256 + ord_of b) * 4"
  have "?n div 4096 * 4096 + ?n div 64 mod 64 * 64 + ?n mod 64 = ?n"
  proof -
    have e: "m div 4096 = m div 64 div 64" for m :: nat
      by (simp flip: div_mult2_eq)
    show ?thesis
      unfolding e using div_mult_mod_eq [of ?n 64] div_mult_mod_eq [of "?n div 64" 64] by linarith
  qed
  then show ?case
    by (simp only: b64_values.simps Let_def b64_bytes.simps) (simp add: digit_split)
next
  case (4 a b c s)
  let ?n = "ord_of a * 65536 + ord_of b * 256 + ord_of c"
  have n: "?n div 65536 = ord_of a" "?n div 256 mod 256 = ord_of b" "?n mod 256 = ord_of c"
    by (rule three_bytes; simp)+
  show ?case
    using 4 by (simp only: b64_values.simps Let_def append.simps b64_bytes.simps four_sextets n) simp
qed simp

lemma sextets_enc6: "(\<And>d. d \<in> set ds \<Longrightarrow> d < 64) \<Longrightarrow> sextets (map enc6 ds) = Some ds"
  by (induction ds) auto

lemma b64_encode_chars: "c \<in> set (b64_encode s) \<Longrightarrow> c \<noteq> CHR 0x0A \<and> c \<noteq> CHR 0x0D \<and> c \<noteq> CHR ''.'' \<and> c \<noteq> CHR ''/'' \<and> c \<noteq> CHR ''%''"
  using enc6_alphabet b64_values_less by (fastforce simp: b64_encode_values)

lemma b64_decode_encode [simp]: "b64_decode (b64_encode s) = Some s"
proof -
  have "filter (\<lambda>c. c \<noteq> CHR 0x0A \<and> c \<noteq> CHR 0x0D) (b64_encode s) = b64_encode s"
    using b64_encode_chars by (intro filter_True) blast
  moreover have "sextets (b64_encode s) = Some (b64_values s)"
    unfolding b64_encode_values using b64_values_less by (intro sextets_enc6) blast
  ultimately show ?thesis by (simp add: b64_decode_def b64_bytes_values)
qed

lemma b64_encode_no_dot: "CHR ''.'' \<notin> set (b64_encode s)"
  using b64_encode_chars by blast

section \<open>Hexadecimal text: \<^verbatim>\<open>%x\<close> of a byte slice\<close>

definition hex_bytes :: "bytes \<Rightarrow> gostring" where
  "hex_bytes s = concat (map (\<lambda>c. [hex_digit (ord_of c div 16), hex_digit (ord_of c mod 16)]) s)"

lemma is_alnum_hex_digit: "d < 16 \<Longrightarrow> is_alnum_lc (hex_digit d)"
  by (auto simp: hex_digit_def is_alnum_lc_def is_digit_def is_lower_def)

lemma hex_bytes_alnum: "c \<in> set (hex_bytes s) \<Longrightarrow> is_alnum_lc c"
  by (auto simp: hex_bytes_def intro!: is_alnum_hex_digit less_mult_imp_div_less)

lemma length_hex_bytes: "length (hex_bytes s) = 2 * length s"
  by (induction s) (simp_all add: hex_bytes_def)

end
