(* ===== verification/Sha256.thy ===== *)
theory Sha256
  imports Encoding
begin

text \<open>
  The hash functions the program calls from the Go standard library: SHA-256
  (\<^verbatim>\<open>crypto/sha256\<close>), HMAC over it (\<^verbatim>\<open>crypto/hmac\<close>) and HKDF (\<^verbatim>\<open>crypto/hkdf\<close>) for
  an output of one block, which is the only length the program asks for.
\<close>

unbundle bit_operations_syntax

section \<open>SHA-256\<close>

definition sha_K :: "uint32 list" where
  "sha_K = [
     1116352408, 1899447441, 3049323471, 3921009573, 961987163, 1508970993,
     2453635748, 2870763221, 3624381080, 310598401, 607225278, 1426881987,
     1925078388, 2162078206, 2614888103, 3248222580, 3835390401, 4022224774,
     264347078, 604807628, 770255983, 1249150122, 1555081692, 1996064986,
     2554220882, 2821834349, 2952996808, 3210313671, 3336571891, 3584528711,
     113926993, 338241895, 666307205, 773529912, 1294757372, 1396182291,
     1695183700, 1986661051, 2177026350, 2456956037, 2730485921, 2820302411,
     3259730800, 3345764771, 3516065817, 3600352804, 4094571909, 275423344,
     430227734, 506948616, 659060556, 883997877, 958139571, 1322822218,
     1537002063, 1747873779, 1955562222, 2024104815, 2227730452, 2361852424,
     2428436474, 2756734187, 3204031479, 3329325298]"

definition sha_init :: "uint32 list" where
  "sha_init = [
     1779033703, 3144134277, 1013904242, 2773480762, 1359893119, 2600822924,
     528734635, 1541459225]"

definition rotr :: "nat \<Rightarrow> uint32 \<Rightarrow> uint32" where
  "rotr n w = drop_bit n w OR push_bit (32 - n) w"

definition big_endian32 :: "char \<Rightarrow> char \<Rightarrow> char \<Rightarrow> char \<Rightarrow> uint32" where
  "big_endian32 a b c d =
     of_nat (((ord_of a * 256 + ord_of b) * 256 + ord_of c) * 256 + ord_of d)"

fun to_words :: "bytes \<Rightarrow> uint32 list" where
  "to_words (a # b # c # d # s) = big_endian32 a b c d # to_words s"
| "to_words _ = []"

definition word_bytes :: "uint32 \<Rightarrow> bytes" where
  "word_bytes w =
     (let n = unat w
      in [byte_of (n div 16777216), byte_of (n div 65536 mod 256),
          byte_of (n div 256 mod 256), byte_of (n mod 256)])"

text \<open>The message schedule, newest word first: each step looks 2, 7, 15 and 16 words back.\<close>

fun schedule :: "nat \<Rightarrow> uint32 list \<Rightarrow> uint32 list" where
  "schedule 0 ws = ws"
| "schedule (Suc n) ws =
     (let w2 = ws ! 1; w7 = ws ! 6; w15 = ws ! 14; w16 = ws ! 15;
          s0 = rotr 7 w15 XOR rotr 18 w15 XOR drop_bit 3 w15;
          s1 = rotr 17 w2 XOR rotr 19 w2 XOR drop_bit 10 w2
      in schedule n ((w16 + s0 + w7 + s1) # ws))"

fun sha_rounds :: "(uint32 \<times> uint32) list \<Rightarrow> uint32 list \<Rightarrow> uint32 list" where
  "sha_rounds ((k, w) # kws) [a, b, c, d, e, f, g, h] =
     (let s1 = rotr 6 e XOR rotr 11 e XOR rotr 25 e;
          ch = (e AND f) XOR (NOT e AND g);
          t1 = h + s1 + ch + k + w;
          s0 = rotr 2 a XOR rotr 13 a XOR rotr 22 a;
          maj = (a AND b) XOR (a AND c) XOR (b AND c);
          t2 = s0 + maj
      in sha_rounds kws [t1 + t2, a, b, c, d + t1, e, f, g])"
| "sha_rounds _ st = st"

definition sha_block :: "uint32 list \<Rightarrow> bytes \<Rightarrow> uint32 list" where
  "sha_block st blk =
     (let ws = rev (schedule 48 (rev (to_words blk)))
      in map2 (+) st (sha_rounds (zip sha_K ws) st))"

definition sha_pad :: "bytes \<Rightarrow> bytes" where
  "sha_pad msg =
     (let n = length msg;
          z = (119 - n mod 64) mod 64
      in msg @ byte_of 128 # replicate z (byte_of 0)
         @ map (\<lambda>i. byte_of ((8 * n) div 256 ^ i mod 256)) (rev [0..<8]))"

fun sha_blocks :: "nat \<Rightarrow> uint32 list \<Rightarrow> bytes \<Rightarrow> uint32 list" where
  "sha_blocks 0 st s = st"
| "sha_blocks (Suc n) st s = sha_blocks n (sha_block st (take 64 s)) (drop 64 s)"

definition sha256 :: "bytes \<Rightarrow> bytes" where
  "sha256 msg =
     (let p = sha_pad msg
      in concat (map word_bytes (sha_blocks (length p div 64) sha_init p)))"

section \<open>HMAC and HKDF\<close>

definition xor_byte :: "nat \<Rightarrow> char \<Rightarrow> char" where
  "xor_byte k c = byte_of (k XOR ord_of c)"

definition hmac_key_block :: "bytes \<Rightarrow> bytes" where
  "hmac_key_block key =
     (let k = (if length key > 64 then sha256 key else key)
      in k @ replicate (64 - length k) (byte_of 0))"

definition hmac_sha256 :: "bytes \<Rightarrow> bytes \<Rightarrow> bytes" where
  "hmac_sha256 key msg =
     (let k = hmac_key_block key
      in sha256 (map (xor_byte 0x5c) k @ sha256 (map (xor_byte 0x36) k @ msg)))"

text \<open>\<^verbatim>\<open>hkdf.Key(sha256.New, secret, nil, info, 32)\<close>: extract with an all-zero salt, expand
  by one block.\<close>

definition hkdf_key32 :: "bytes \<Rightarrow> gostring \<Rightarrow> bytes" where
  "hkdf_key32 secret info =
     (let prk = hmac_sha256 (replicate 32 (byte_of 0)) secret
      in hmac_sha256 prk (info @ [byte_of 1]))"

section \<open>Lengths\<close>

lemma length_sha_rounds: "length st = 8 \<Longrightarrow> length (sha_rounds kws st) = 8"
  by (induction kws st rule: sha_rounds.induct) (simp_all add: Let_def)

lemma length_to_words: "length (to_words s) = length s div 4"
  by (induction s rule: to_words.induct) simp_all

lemma length_sha_block: "length st = 8 \<Longrightarrow> length (sha_block st blk) = 8"
  by (simp add: sha_block_def Let_def length_sha_rounds)

lemma length_sha_blocks: "length st = 8 \<Longrightarrow> length (sha_blocks n st s) = 8"
  by (induction n st s rule: sha_blocks.induct) (simp_all add: length_sha_block)

lemma length_sha256 [simp]: "length (sha256 msg) = 32"
proof -
  have "length (sha_blocks n sha_init p) = 8" for n p
    by (rule length_sha_blocks) (simp add: sha_init_def)
  moreover have "length (concat (map word_bytes ws)) = 4 * length ws" for ws
    by (induction ws) (simp_all add: word_bytes_def Let_def)
  ultimately show ?thesis by (simp add: sha256_def Let_def)
qed

lemma length_hmac_sha256 [simp]: "length (hmac_sha256 key msg) = 32"
  by (simp add: hmac_sha256_def Let_def)

lemma length_hkdf_key32 [simp]: "length (hkdf_key32 secret info) = 32"
  by (simp add: hkdf_key32_def Let_def)

end
