(* ===== verification/Pki.thy ===== *)
theory Pki
  imports Sha256
begin

text \<open>
  The certificate authority: \<^verbatim>\<open>internal/pki/ca.go\<close> and \<^verbatim>\<open>internal/pki/provider.go\<close>.

  \<^verbatim>\<open>crypto/x509\<close>, \<^verbatim>\<open>crypto/ecdsa\<close>, \<^verbatim>\<open>encoding/pem\<close>, \<^verbatim>\<open>net.ParseIP\<close> and the random
  source are the fields of a record \<open>pki_lib\<close>: keys, public keys, certificates and requests
  are opaque types, and every call that draws randomness threads a state. SHA-256, HMAC, HKDF
  and base 64 are the concrete functions of the theories \<open>Sha256\<close> and \<open>Encoding\<close>.
  Points in time and durations are integers, in seconds.

  The file system of \<open>ProvideCA\<close> is a map from (directory, base name) to contents. A run
  records every intermediate file system, so that a crash is a prefix of the run; a failing
  system call is an argument.
\<close>

section \<open>Templates and the library the authority calls\<close>

record pkix_name =
  Organization :: "gostring list"
  CommonName :: gostring
  other_attributes :: "gostring list"

datatype key_usage = KeyUsageDigitalSignature | KeyUsageCertSign | KeyUsageCRLSign
datatype ext_key_usage = ExtKeyUsageServerAuth | ExtKeyUsageClientAuth

record x509_template =
  SerialNumber :: nat
  Subject :: pkix_name
  NotBefore :: int
  NotAfter :: int
  KeyUsage :: "key_usage list"
  ExtKeyUsage :: "ext_key_usage list"
  BasicConstraintsValid :: bool
  IsCA :: bool
  MaxPathLen :: nat
  IPAddresses :: "bytes list"
  DNSNames :: "gostring list"

definition empty_template :: x509_template where
  "empty_template = \<lparr>SerialNumber = 0, Subject = \<lparr>Organization = [], CommonName = [], other_attributes = []\<rparr>,
     NotBefore = 0, NotAfter = 0, KeyUsage = [], ExtKeyUsage = [], BasicConstraintsValid = False,
     IsCA = False, MaxPathLen = 0, IPAddresses = [], DNSNames = []\<rparr>"

text \<open>\<open>create_certificate\<close> takes the parent's certificate, or \<^const>\<open>None\<close> where the template
  is its own parent.\<close>

record ('r, 'k, 'p, 'c, 'q) pki_lib =
  pem_encode :: "gostring \<Rightarrow> bytes \<Rightarrow> bytes"
  pem_decode :: "bytes \<Rightarrow> (gostring \<times> bytes) option"
  ecdsa_generate :: "'r \<Rightarrow> 'k res \<times> 'r"
  rand_int :: "nat \<Rightarrow> 'r \<Rightarrow> nat res \<times> 'r"
  public_key :: "'k \<Rightarrow> 'p"
  create_certificate :: "'r \<Rightarrow> x509_template \<Rightarrow> 'c option \<Rightarrow> 'p \<Rightarrow> 'k \<Rightarrow> bytes res \<times> 'r"
  parse_certificate :: "bytes \<Rightarrow> 'c res"
  cert_is_ca :: "'c \<Rightarrow> bool"
  cert_public_key :: "'c \<Rightarrow> 'p option"
  marshal_ec_key :: "'k \<Rightarrow> bytes res"
  parse_ec_key :: "bytes \<Rightarrow> 'k res"
  create_request :: "'r \<Rightarrow> pkix_name \<Rightarrow> 'k \<Rightarrow> bytes res \<times> 'r"
  parse_request :: "bytes \<Rightarrow> 'q res"
  request_signature :: "'q \<Rightarrow> unit res"
  request_subject :: "'q \<Rightarrow> pkix_name"
  request_key :: "'q \<Rightarrow> 'p"
  parse_ip :: "gostring \<Rightarrow> bytes option"

record ('k, 'c) CA =
  ca_cert :: 'c
  ca_key :: 'k
  ca_certPEM :: bytes

definition certValidity :: int where
  "certValidity = 24 * 3600"

definition perr :: "gostring \<Rightarrow> go_error \<Rightarrow> go_error" where
  "perr msg e = Wrap (''pki: '' @ msg) e"

definition pplain :: "gostring \<Rightarrow> go_error" where
  "pplain msg = Plain (''pki: '' @ msg)"

section \<open>The authority\<close>

definition randomSerial :: "('r, 'k, 'p, 'c, 'q) pki_lib \<Rightarrow> 'r \<Rightarrow> nat res \<times> 'r" where
  "randomSerial L r =
     (case rand_int L (2 ^ 128) r of
        (Inl e, r') \<Rightarrow> (Inl (perr ''generate serial'' e), r')
      | (Inr n, r') \<Rightarrow> (Inr n, r'))"

definition ca_template :: "nat \<Rightarrow> int \<Rightarrow> x509_template" where
  "ca_template serial now = empty_template
     \<lparr>SerialNumber := serial,
      Subject := \<lparr>Organization = [''otterscale''], CommonName = ''otterscale-ca'', other_attributes = []\<rparr>,
      NotBefore := now - 5 * 60, NotAfter := now + 10 * 365 * 24 * 3600,
      KeyUsage := [KeyUsageCertSign, KeyUsageCRLSign], BasicConstraintsValid := True,
      IsCA := True, MaxPathLen := 0\<rparr>"

definition NewCA :: "('r, 'k, 'p, 'c, 'q) pki_lib \<Rightarrow> int \<Rightarrow> 'r \<Rightarrow> ('k, 'c) CA res \<times> 'r" where
  "NewCA L now r =
     (case ecdsa_generate L r of
        (Inl e, r1) \<Rightarrow> (Inl (perr ''generate CA key'' e), r1)
      | (Inr key, r1) \<Rightarrow>
          (case randomSerial L r1 of
             (Inl e, r2) \<Rightarrow> (Inl e, r2)
           | (Inr serial, r2) \<Rightarrow>
               (case create_certificate L r2 (ca_template serial now) None (public_key L key) key of
                  (Inl e, r3) \<Rightarrow> (Inl (perr ''create CA cert'' e), r3)
                | (Inr certDER, r3) \<Rightarrow>
                    (case parse_certificate L certDER of
                       Inl e \<Rightarrow> (Inl (perr ''parse CA cert'' e), r3)
                     | Inr cert \<Rightarrow>
                         (Inr \<lparr>ca_cert = cert, ca_key = key,
                               ca_certPEM = pem_encode L ''CERTIFICATE'' certDER\<rparr>, r3)))))"

definition LoadCA :: "('r, 'k, 'p, 'c, 'q) pki_lib \<Rightarrow> bytes \<Rightarrow> bytes \<Rightarrow> ('k, 'c) CA res" where
  "LoadCA L certPEM keyPEM =
     (case pem_decode L certPEM of
        None \<Rightarrow> Inl (pplain ''failed to decode CA certificate PEM'')
      | Some (_, certBytes) \<Rightarrow>
          (case parse_certificate L certBytes of
             Inl e \<Rightarrow> Inl (perr ''parse CA cert'' e)
           | Inr cert \<Rightarrow>
               if \<not> cert_is_ca L cert then Inl (pplain ''certificate is not a CA'')
               else
                 (case pem_decode L keyPEM of
                    None \<Rightarrow> Inl (pplain ''failed to decode CA private key PEM'')
                  | Some (_, keyBytes) \<Rightarrow>
                      (case parse_ec_key L keyBytes of
                         Inl e \<Rightarrow> Inl (perr ''parse CA key'' e)
                       | Inr key \<Rightarrow>
                           (case cert_public_key L cert of
                              None \<Rightarrow> Inl (pplain ''CA certificate does not contain an ECDSA public key'')
                            | Some certPub \<Rightarrow>
                                if public_key L key \<noteq> certPub
                                then Inl (pplain ''CA private key does not match certificate public key'')
                                else Inr \<lparr>ca_cert = cert, ca_key = key, ca_certPEM = certPEM\<rparr>)))))"

definition CertPEM :: "('k, 'c) CA \<Rightarrow> bytes" where
  "CertPEM ca = ca_certPEM ca"

definition KeyPEM :: "('r, 'k, 'p, 'c, 'q) pki_lib \<Rightarrow> ('k, 'c) CA \<Rightarrow> bytes res" where
  "KeyPEM L ca =
     (case marshal_ec_key L (ca_key ca) of
        Inl e \<Rightarrow> Inl (perr ''marshal CA key'' e)
      | Inr keyDER \<Rightarrow> Inr (pem_encode L ''EC PRIVATE KEY'' keyDER))"

definition DeriveHMACKey :: "('r, 'k, 'p, 'c, 'q) pki_lib \<Rightarrow> ('k, 'c) CA \<Rightarrow> gostring \<Rightarrow> bytes res" where
  "DeriveHMACKey L ca label =
     (case marshal_ec_key L (ca_key ca) of
        Inl e \<Rightarrow> Inl (perr ''marshal key for HKDF'' e)
      | Inr keyDER \<Rightarrow> Inr (hkdf_key32 keyDER label))"

definition client_template :: "nat \<Rightarrow> pkix_name \<Rightarrow> int \<Rightarrow> x509_template" where
  "client_template serial subject now = empty_template
     \<lparr>SerialNumber := serial, Subject := subject,
      NotBefore := now - 5 * 60, NotAfter := now + certValidity,
      KeyUsage := [KeyUsageDigitalSignature], ExtKeyUsage := [ExtKeyUsageClientAuth]\<rparr>"

definition SignCSR ::
  "('r, 'k, 'p, 'c, 'q) pki_lib \<Rightarrow> ('k, 'c) CA \<Rightarrow> int \<Rightarrow> bytes \<Rightarrow> 'r \<Rightarrow> bytes res \<times> 'r" where
  "SignCSR L ca now csrPEM r =
     (case pem_decode L csrPEM of
        None \<Rightarrow> (Inl (pplain ''invalid CSR PEM''), r)
      | Some (ty, blk) \<Rightarrow>
          if ty \<noteq> ''CERTIFICATE REQUEST'' then (Inl (pplain ''invalid CSR PEM''), r)
          else
            (case parse_request L blk of
               Inl e \<Rightarrow> (Inl (perr ''parse CSR'' e), r)
             | Inr csr \<Rightarrow>
                 (case request_signature L csr of
                    Inl e \<Rightarrow> (Inl (perr ''CSR signature invalid'' e), r)
                  | Inr _ \<Rightarrow>
                      (case randomSerial L r of
                         (Inl e, r1) \<Rightarrow> (Inl e, r1)
                       | (Inr serial, r1) \<Rightarrow>
                           (case create_certificate L r1 (client_template serial (request_subject L csr) now)
                                   (Some (ca_cert ca)) (request_key L csr) (ca_key ca) of
                              (Inl e, r2) \<Rightarrow> (Inl (perr ''sign certificate'' e), r2)
                            | (Inr certDER, r2) \<Rightarrow> (Inr (pem_encode L ''CERTIFICATE'' certDER), r2))))))"

text \<open>The loop of \<open>GenerateServerCert\<close> that sorts the hosts into addresses and names.\<close>

fun add_hosts :: "(gostring \<Rightarrow> bytes option) \<Rightarrow> gostring list \<Rightarrow> x509_template \<Rightarrow> x509_template" where
  "add_hosts ipf [] tmpl = tmpl"
| "add_hosts ipf (h # hs) tmpl =
     (case ipf h of
        Some ip \<Rightarrow> add_hosts ipf hs (tmpl\<lparr>IPAddresses := IPAddresses tmpl @ [ip]\<rparr>)
      | None \<Rightarrow> add_hosts ipf hs (tmpl\<lparr>DNSNames := DNSNames tmpl @ [h]\<rparr>))"

definition server_template :: "nat \<Rightarrow> int \<Rightarrow> x509_template" where
  "server_template serial now = empty_template
     \<lparr>SerialNumber := serial,
      Subject := \<lparr>Organization = [''otterscale''], CommonName = ''otterscale-tunnel'', other_attributes = []\<rparr>,
      NotBefore := now - 5 * 60, NotAfter := now + 365 * 24 * 3600,
      KeyUsage := [KeyUsageDigitalSignature], ExtKeyUsage := [ExtKeyUsageServerAuth]\<rparr>"

definition GenerateServerCert ::
  "('r, 'k, 'p, 'c, 'q) pki_lib \<Rightarrow> ('k, 'c) CA \<Rightarrow> int \<Rightarrow> gostring list \<Rightarrow> 'r \<Rightarrow> (bytes \<times> bytes) res \<times> 'r" where
  "GenerateServerCert L ca now hosts r =
     (case ecdsa_generate L r of
        (Inl e, r1) \<Rightarrow> (Inl (perr ''generate server key'' e), r1)
      | (Inr key, r1) \<Rightarrow>
          (case randomSerial L r1 of
             (Inl e, r2) \<Rightarrow> (Inl e, r2)
           | (Inr serial, r2) \<Rightarrow>
               (case create_certificate L r2 (add_hosts (parse_ip L) hosts (server_template serial now))
                       (Some (ca_cert ca)) (public_key L key) (ca_key ca) of
                  (Inl e, r3) \<Rightarrow> (Inl (perr ''create server cert'' e), r3)
                | (Inr certDER, r3) \<Rightarrow>
                    (case marshal_ec_key L key of
                       Inl e \<Rightarrow> (Inl (perr ''marshal server key'' e), r3)
                     | Inr keyDER \<Rightarrow>
                         (Inr (pem_encode L ''CERTIFICATE'' certDER,
                               pem_encode L ''EC PRIVATE KEY'' keyDER), r3)))))"

definition GenerateKey :: "('r, 'k, 'p, 'c, 'q) pki_lib \<Rightarrow> 'r \<Rightarrow> ('k \<times> bytes) res \<times> 'r" where
  "GenerateKey L r =
     (case ecdsa_generate L r of
        (Inl e, r1) \<Rightarrow> (Inl (perr ''generate key'' e), r1)
      | (Inr key, r1) \<Rightarrow>
          (case marshal_ec_key L key of
             Inl e \<Rightarrow> (Inl (perr ''marshal key'' e), r1)
           | Inr keyDER \<Rightarrow> (Inr (key, pem_encode L ''EC PRIVATE KEY'' keyDER), r1)))"

definition GenerateCSR :: "('r, 'k, 'p, 'c, 'q) pki_lib \<Rightarrow> 'k \<Rightarrow> gostring \<Rightarrow> 'r \<Rightarrow> bytes res \<times> 'r" where
  "GenerateCSR L key cn r =
     (case create_request L r \<lparr>Organization = [''otterscale''], CommonName = cn, other_attributes = []\<rparr> key of
        (Inl e, r1) \<Rightarrow> (Inl (perr ''create CSR'' e), r1)
      | (Inr csrDER, r1) \<Rightarrow> (Inr (pem_encode L ''CERTIFICATE REQUEST'' csrDER), r1))"

definition DeriveAuth :: "('r, 'k, 'p, 'c, 'q) pki_lib \<Rightarrow> gostring \<Rightarrow> bytes \<Rightarrow> gostring res" where
  "DeriveAuth L agentID certPEM =
     (case pem_decode L certPEM of
        None \<Rightarrow> Inl (pplain ''failed to decode certificate PEM'')
      | Some (_, blk) \<Rightarrow>
          Inr (agentID @ '':'' @ b64_encode (take 24 (sha256 blk))))"

section \<open>Loading and persisting the authority\<close>

type_synonym path = "gostring \<times> gostring"
type_synonym fs = "(path, bytes) gomap"

text \<open>The system calls that can fail, each named by the call it stands for.\<close>

datatype fs_call = ReadFile path | MkdirAll gostring | CreateTemp path | WriteTemp path
  | ChmodTemp path | CloseTemp path | Rename path

text \<open>A run of the program on the file system: its result and the file systems it goes
  through, oldest first, the first one being the initial one.\<close>

definition readFile :: "(fs_call \<Rightarrow> go_error option) \<Rightarrow> fs \<Rightarrow> path \<Rightarrow> bytes res" where
  "readFile fault f p =
     (case fault (ReadFile p) of
        Some e \<Rightarrow> Inl e
      | None \<Rightarrow> (case gget f p of None \<Rightarrow> Inl (Plain ''no such file or directory'') | Some b \<Rightarrow> Inr b))"

text \<open>
  \<open>rnd\<close> is the random part of the temporary name, \<open>part\<close> the number of bytes a failing
  write leaves in the temporary file. The result carries the list of file systems after each
  call that changes one.
\<close>

definition temp_path :: "path \<Rightarrow> gostring \<Rightarrow> path" where
  "temp_path p rnd = (fst p, snd p @ ''.tmp.'' @ rnd)"

definition atomicWriteFile ::
  "(fs_call \<Rightarrow> go_error option) \<Rightarrow> gostring \<Rightarrow> nat \<Rightarrow> path \<Rightarrow> bytes \<Rightarrow> fs \<Rightarrow> unit res \<times> fs list" where
  "atomicWriteFile fault rnd part p data f =
     (let tmp = temp_path p rnd in
      case fault (CreateTemp p) of
        Some e \<Rightarrow> (Inl (Wrap ''create temp file'' e), [])
      | None \<Rightarrow>
          (let f1 = gput tmp [] f in
           case fault (WriteTemp p) of
             Some e \<Rightarrow>
               (let f2 = gput tmp (take part data) f1
                in (Inl (Wrap ''write temp file'' e), [f1, f2, gdel tmp f2]))
           | None \<Rightarrow>
               (let f2 = gput tmp data f1 in
                case fault (ChmodTemp p) of
                  Some e \<Rightarrow> (Inl (Wrap ''chmod temp file'' e), [f1, f2, gdel tmp f2])
                | None \<Rightarrow>
                    (case fault (CloseTemp p) of
                       Some e \<Rightarrow> (Inl (Wrap ''close temp file'' e), [f1, f2, gdel tmp f2])
                     | None \<Rightarrow>
                         (case fault (Rename p) of
                            Some e \<Rightarrow> (Inl (Wrap ''rename temp file'' e), [f1, f2, gdel tmp f2])
                          | None \<Rightarrow> (Inr (), [f1, f2, gput p data (gdel tmp f2)]))))))"

definition last_fs :: "fs \<Rightarrow> fs list \<Rightarrow> fs" where
  "last_fs f fsl = last (f # fsl)"

definition ProvideCA ::
  "('r, 'k, 'p, 'c, 'q) pki_lib \<Rightarrow> (fs_call \<Rightarrow> go_error option) \<Rightarrow> gostring \<times> gostring \<Rightarrow> nat \<Rightarrow> int \<Rightarrow>
     gostring \<Rightarrow> fs \<Rightarrow> 'r \<Rightarrow> ('k, 'c) CA res \<times> fs list \<times> 'r" where
  "ProvideCA L fault rnds part now dir f r =
     (let certPath = (dir, ''ca.pem''); keyPath = (dir, ''ca-key.pem'') in
      case (readFile fault f certPath, readFile fault f keyPath) of
        (Inr certPEM, Inr keyPEM) \<Rightarrow> (LoadCA L certPEM keyPEM, [], r)
      | _ \<Rightarrow>
          (case NewCA L now r of
             (Inl e, r1) \<Rightarrow> (Inl (Wrap ''generate CA'' e), [], r1)
           | (Inr ca, r1) \<Rightarrow>
               (case fault (MkdirAll dir) of
                  Some e \<Rightarrow> (Inl (Wrap ''create CA dir'' e), [], r1)
                | None \<Rightarrow>
                    (case KeyPEM L ca of
                       Inl e \<Rightarrow> (Inl (Wrap ''export CA key'' e), [], r1)
                     | Inr keyPEM \<Rightarrow>
                         (case atomicWriteFile fault (fst rnds) part certPath (CertPEM ca) f of
                            (Inl e, w1) \<Rightarrow> (Inl (Wrap ''write CA cert'' e), w1, r1)
                          | (Inr _, w1) \<Rightarrow>
                              (case atomicWriteFile fault (snd rnds) part keyPath keyPEM (last_fs f w1) of
                                 (Inl e, w2) \<Rightarrow> (Inl (Wrap ''write CA key'' e), w1 @ w2, r1)
                               | (Inr _, w2) \<Rightarrow> (Inr ca, w1 @ w2, r1)))))))"

section \<open>What the library promises\<close>

text \<open>
  Documented behaviour of the libraries: a PEM block of one of the three types the code writes
  decodes to what was encoded, a marshalled
  key parses back, and a certificate that was created parses to one with the template's
  basic constraints and the given public key.
\<close>

definition pki_laws :: "('r, 'k, 'p, 'c, 'q) pki_lib \<Rightarrow> bool" where
  "pki_laws L \<longleftrightarrow>
     (\<forall>ty \<in> {''CERTIFICATE'', ''EC PRIVATE KEY'', ''CERTIFICATE REQUEST''}. \<forall>b.
        pem_decode L (pem_encode L ty b) = Some (ty, b)) \<and>
     (\<forall>k der. marshal_ec_key L k = Inr der \<longrightarrow> parse_ec_key L der = Inr k) \<and>
     (\<forall>r t par pub k der r'. create_certificate L r t par pub k = (Inr der, r') \<longrightarrow>
        (\<exists>c. parse_certificate L der = Inr c \<and>
             cert_is_ca L c = (BasicConstraintsValid t \<and> IsCA t) \<and> cert_public_key L c = Some pub))"

lemma pki_laws_pem:
  assumes "pki_laws L"
  shows "pem_decode L (pem_encode L ''CERTIFICATE'' b) = Some (''CERTIFICATE'', b)"
    "pem_decode L (pem_encode L ''EC PRIVATE KEY'' b) = Some (''EC PRIVATE KEY'', b)"
    "pem_decode L (pem_encode L ''CERTIFICATE REQUEST'' b) = Some (''CERTIFICATE REQUEST'', b)"
  using assms unfolding pki_laws_def by blast+

lemma pki_laws_key: "pki_laws L \<Longrightarrow> marshal_ec_key L k = Inr der \<Longrightarrow> parse_ec_key L der = Inr k"
  unfolding pki_laws_def by blast

lemma pki_laws_cert:
  "pki_laws L \<Longrightarrow> create_certificate L r t par pub k = (Inr der, r') \<Longrightarrow>
   \<exists>c. parse_certificate L der = Inr c \<and> cert_is_ca L c = (BasicConstraintsValid t \<and> IsCA t) \<and> cert_public_key L c = Some pub"
  unfolding pki_laws_def by blast

lemma NewCA_InrE:
  assumes "NewCA L now r = (Inr ca, r')"
  obtains r1 r2 serial der where
    "create_certificate L r2 (ca_template serial now) None (public_key L (ca_key ca)) (ca_key ca) = (Inr der, r')"
    "parse_certificate L der = Inr (ca_cert ca)" "ca_certPEM ca = pem_encode L ''CERTIFICATE'' der"
  using assms by (auto simp: NewCA_def split: prod.splits sum.splits)

lemma KeyPEM_Inr:
  "KeyPEM L ca = Inr kp \<longleftrightarrow> (\<exists>der. marshal_ec_key L (ca_key ca) = Inr der \<and> kp = pem_encode L ''EC PRIVATE KEY'' der)"
  by (auto simp: KeyPEM_def split: sum.splits)

text \<open>A new authority loads back from its own PEM files.\<close>

lemma LoadCA_NewCA:
  assumes "pki_laws L" "NewCA L now r = (Inr ca, r')" "KeyPEM L ca = Inr kp"
  shows "LoadCA L (ca_certPEM ca) kp = Inr ca"
proof -
  obtain r2 serial der where der:
      "create_certificate L r2 (ca_template serial now) None (public_key L (ca_key ca)) (ca_key ca) = (Inr der, r')"
      "parse_certificate L der = Inr (ca_cert ca)" "ca_certPEM ca = pem_encode L ''CERTIFICATE'' der"
    by (rule NewCA_InrE [OF assms(2)])
  obtain kd where kd: "marshal_ec_key L (ca_key ca) = Inr kd" "kp = pem_encode L ''EC PRIVATE KEY'' kd"
    using assms(3) by (auto simp: KeyPEM_Inr)
  have "cert_is_ca L (ca_cert ca)" "cert_public_key L (ca_cert ca) = Some (public_key L (ca_key ca))"
    using pki_laws_cert [OF assms(1) der(1)] der(2) by (auto simp: ca_template_def empty_template_def)
  then show ?thesis
    using pki_laws_pem [OF assms(1)] pki_laws_key [OF assms(1) kd(1)] der(2,3) kd(2) by (auto simp: LoadCA_def)
qed

section \<open>The temporary file and rename\<close>

lemma temp_path_neq: "temp_path p rnd \<noteq> p"
  by (cases p) (simp add: temp_path_def)

lemma temp_path_neq' [simp]: "p \<noteq> temp_path p rnd"
  using temp_path_neq [of p rnd] by simp

lemma temp_path_base: "temp_path (d, b) rnd = (d', b') \<longleftrightarrow> d' = d \<and> b' = b @ ''.tmp.'' @ rnd"
  by (auto simp: temp_path_def)

lemma atomicWriteFile_frame:
  assumes "atomicWriteFile fault rnd part p data f = (res, gs)" "g \<in> set gs"
  shows "gget g p \<in> {gget f p, Some data}"
    and "q \<noteq> p \<Longrightarrow> q \<noteq> temp_path p rnd \<Longrightarrow> gget g q = gget f q"
  using assms by (auto simp: atomicWriteFile_def Let_def split: option.splits)

lemma atomicWriteFile_last:
  assumes "atomicWriteFile fault rnd part p data f = (res, gs)"
  shows "gget (last_fs f gs) p = (case res of Inl _ \<Rightarrow> gget f p | Inr _ \<Rightarrow> Some data)"
    and "gget f (temp_path p rnd) = None \<Longrightarrow> gget (last_fs f gs) (temp_path p rnd) = None"
  using assms by (auto simp: atomicWriteFile_def Let_def last_fs_def temp_path_neq split: option.splits)

lemma atomicWriteFile_frame_last:
  assumes "atomicWriteFile fault rnd part p data f = (res, gs)"
    and "q \<noteq> p" "q \<noteq> temp_path p rnd"
  shows "gget (last_fs f gs) q = gget f q"
  using assms by (auto simp: atomicWriteFile_def Let_def last_fs_def split: option.splits)

section \<open>Properties\<close>

text \<open>
  Writing a file of the authority is atomic: in every file system the run goes
  through, hence after a crash at any point, the target holds its old or its complete new
  contents and no file other than the target and the temporary one changes; on success the
  target holds the new contents, on failure the old, and in both cases the temporary file is
  gone.
\<close>

theorem atomicWriteFile_atomic:
  assumes "atomicWriteFile fault rnd part p data f = (res, gs)"
    and "gget f (temp_path p rnd) = None"
  shows "(\<forall>g \<in> set gs. gget g p \<in> {gget f p, Some data} \<and>
            (\<forall>q. q \<noteq> p \<and> q \<noteq> temp_path p rnd \<longrightarrow> gget g q = gget f q)) \<and>
         gget (last_fs f gs) p = (case res of Inl _ \<Rightarrow> gget f p | Inr _ \<Rightarrow> Some data) \<and>
         gget (last_fs f gs) (temp_path p rnd) = None"
  using atomicWriteFile_frame [OF assms(1)] atomicWriteFile_last [OF assms(1)] assms(2) by blast

definition no_fault :: "fs_call \<Rightarrow> go_error option" where
  "no_fault c = None"

theorem atomicWriteFile_atomic_witness:
  "gget (last_fs [((''d'', ''ca.pem''), ''old'')]
           (snd (atomicWriteFile no_fault ''7'' 0 (''d'', ''ca.pem'') ''new'' [((''d'', ''ca.pem''), ''old'')])))
     (''d'', ''ca.pem'') = Some ''new''"
proof -
  let ?f = "[((''d'', ''ca.pem''), ''old'')]" and ?p = "(''d'', ''ca.pem'')"
  have "fst (atomicWriteFile no_fault ''7'' 0 ?p ''new'' ?f) = Inr ()"
    by (simp add: atomicWriteFile_def no_fault_def Let_def)
  then obtain gs where run: "atomicWriteFile no_fault ''7'' 0 ?p ''new'' ?f = (Inr (), gs)"
    by (metis eq_fst_iff)
  have "gget ?f (temp_path ?p ''7'') = None"
    by (simp add: temp_path_def)
  from atomicWriteFile_atomic [OF run this] show ?thesis
    using run by simp
qed

text \<open>
  The directory of the authority is usable when it has no key file, so that a fresh authority
  is generated, or when its certificate and key load.
\<close>

definition ca_dir_ok :: "('r, 'k, 'p, 'c, 'q) pki_lib \<Rightarrow> gostring \<Rightarrow> fs \<Rightarrow> bool" where
  "ca_dir_ok L dir f \<longleftrightarrow>
     (case gget f (dir, ''ca-key.pem'') of
        None \<Rightarrow> True
      | Some k \<Rightarrow> (case gget f (dir, ''ca.pem'') of
                     None \<Rightarrow> False
                   | Some c \<Rightarrow> (case LoadCA L c k of Inl _ \<Rightarrow> False | Inr _ \<Rightarrow> True)))"

lemma ca_dir_ok_no_key: "gget f (dir, ''ca-key.pem'') = None \<Longrightarrow> ca_dir_ok L dir f"
  by (simp add: ca_dir_ok_def)

lemma ca_dir_ok_pair:
  "gget f (dir, ''ca-key.pem'') = Some k \<Longrightarrow> gget f (dir, ''ca.pem'') = Some c \<Longrightarrow>
   LoadCA L c k = Inr ca \<Longrightarrow> ca_dir_ok L dir f"
  by (simp add: ca_dir_ok_def)

lemma readFile_ok:
  "fault (ReadFile p) = None \<Longrightarrow>
   readFile fault f p = (case gget f p of None \<Rightarrow> Inl (Plain ''no such file or directory'') | Some b \<Rightarrow> Inr b)"
  by (simp add: readFile_def)

text \<open>The run when the authority is generated: both writes, their results and their states.\<close>

lemma ProvideCA_generate:
  assumes "gget f (dir, ''ca-key.pem'') = None"
    and "ProvideCA L fault rnds part now dir f r = (res, gs, r')"
  shows "(gs = [] \<and> (\<exists>e. res = Inl e)) \<or>
    (\<exists>ca kp w1. NewCA L now r = (Inr ca, r') \<and> KeyPEM L ca = Inr kp \<and>
       ((\<exists>e. atomicWriteFile fault (fst rnds) part (dir, ''ca.pem'') (ca_certPEM ca) f = (Inl e, w1) \<and>
              gs = w1 \<and> res = Inl (Wrap ''write CA cert'' e)) \<or>
        (\<exists>res2 w2. atomicWriteFile fault (fst rnds) part (dir, ''ca.pem'') (ca_certPEM ca) f = (Inr (), w1) \<and>
              atomicWriteFile fault (snd rnds) part (dir, ''ca-key.pem'') kp (last_fs f w1) = (res2, w2) \<and>
              gs = w1 @ w2 \<and>
              ((\<exists>e. res2 = Inl e \<and> res = Inl (Wrap ''write CA key'' e)) \<or> (res2 = Inr () \<and> res = Inr ca)))))"
  using assms by (auto simp: ProvideCA_def Let_def readFile_def CertPEM_def split: sum.splits prod.splits option.splits)

lemma write_cert_keeps_no_key:
  assumes "atomicWriteFile fault rnd part (dir, ''ca.pem'') c f = (res1, w1)"
    and "gget f (dir, ''ca-key.pem'') = None"
  shows "g \<in> set w1 \<Longrightarrow> gget g (dir, ''ca-key.pem'') = None"
    and "gget (last_fs f w1) (dir, ''ca-key.pem'') = None"
  using assms atomicWriteFile_frame(2) [OF assms(1), of g "(dir, ''ca-key.pem'')"]
    atomicWriteFile_frame_last [OF assms(1), of "(dir, ''ca-key.pem'')"]
  by (auto simp: temp_path_def)

lemma write_key_usable:
  assumes "atomicWriteFile fault rnd part (dir, ''ca-key.pem'') kp f = (res2, w2)" "g \<in> set w2"
    and "gget f (dir, ''ca-key.pem'') = None" "gget f (dir, ''ca.pem'') = Some c" "LoadCA L c kp = Inr ca"
  shows "ca_dir_ok L dir g"
proof -
  have "gget g (dir, ''ca.pem'') = Some c"
    using assms atomicWriteFile_frame(2) [OF assms(1,2), of "(dir, ''ca.pem'')"] by (simp add: temp_path_def)
  moreover have "gget g (dir, ''ca-key.pem'') \<in> {None, Some kp}"
    using assms atomicWriteFile_frame(1) [OF assms(1,2)] by simp
  ultimately show ?thesis
    using assms(5) by (auto intro: ca_dir_ok_no_key ca_dir_ok_pair)
qed

text \<open>
  Claim C12. Crash safety of the authority's directory. If the directory is usable, and reading
  the certificate and the key of an existing authority succeeds, every file system a start goes
  through leaves it usable, whichever of the other system calls fails and wherever the run is cut off; in
  particular the certificate and the key on disk never come from different authorities, and an
  existing authority is not written at all. The condition on reading is needed: any read error
  makes the code generate a new authority over the existing one
  (\<open>ProvideCA_read_error_replaces\<close>).
\<close>

theorem ProvideCA_crash_safe:
  assumes "pki_laws L" and "ca_dir_ok L dir f"
    and "gget f (dir, ''ca-key.pem'') \<noteq> None \<longrightarrow> fault (ReadFile (dir, ''ca.pem'')) = None \<and> fault (ReadFile (dir, ''ca-key.pem'')) = None"
    and run: "ProvideCA L fault rnds part now dir f r = (res, gs, r')"
  shows "(\<forall>g \<in> set gs. ca_dir_ok L dir g) \<and> (gget f (dir, ''ca-key.pem'') \<noteq> None \<longrightarrow> gs = [])"
proof (cases "gget f (dir, ''ca-key.pem'')")
  case None
  have cert: "ca_dir_ok L dir g"
    if "atomicWriteFile fault (fst rnds) part (dir, ''ca.pem'') c f = (res1, w1)" "g \<in> set w1" for c res1 w1 g
    using write_cert_keeps_no_key(1) [OF that(1) None that(2)] by (rule ca_dir_ok_no_key)
  have key: "ca_dir_ok L dir g"
    if "NewCA L now r = (Inr ca, r')" "KeyPEM L ca = Inr kp"
      "atomicWriteFile fault (fst rnds) part (dir, ''ca.pem'') (ca_certPEM ca) f = (Inr (), w1)"
      "atomicWriteFile fault (snd rnds) part (dir, ''ca-key.pem'') kp (last_fs f w1) = (res2, w2)"
      "g \<in> set w2" for ca kp w1 res2 w2 g
    using atomicWriteFile_last(1) [OF that(3)]
    by (intro write_key_usable [OF that(4,5) write_cert_keeps_no_key(2) [OF that(3) None]
          _ LoadCA_NewCA [OF assms(1) that(1,2)]]) simp
  show ?thesis
    using ProvideCA_generate [OF None run] None cert key by auto
next
  case (Some k)
  then obtain c where "gget f (dir, ''ca.pem'') = Some c"
    using assms(2) by (auto simp: ca_dir_ok_def split: option.splits)
  then have "gs = []" using run Some assms(3) by (auto simp: ProvideCA_def Let_def readFile_ok)
  then show ?thesis by simp
qed

text \<open>
  Restart. A start with an empty directory that succeeds leaves an authority on disk that the
  next start loads: the same certificate, key and PEM text, hence the same derived HMAC keys,
  so certificates and tokens issued before the restart stay valid.
\<close>

theorem ProvideCA_restart:
  assumes "pki_laws L" and "gget f (dir, ''ca-key.pem'') = None"
    and "\<forall>p. fault (ReadFile p) = None" and "\<forall>p. fault' (ReadFile p) = None"
    and run: "ProvideCA L fault rnds part now dir f r = (Inr ca, gs, r')"
  shows "ProvideCA L fault' rnds' part' now' dir (last_fs f gs) r'' = (Inr ca, [], r'')"
proof -
  obtain kp w1 w2 where *: "NewCA L now r = (Inr ca, r')" "KeyPEM L ca = Inr kp"
      "atomicWriteFile fault (fst rnds) part (dir, ''ca.pem'') (ca_certPEM ca) f = (Inr (), w1)"
      "atomicWriteFile fault (snd rnds) part (dir, ''ca-key.pem'') kp (last_fs f w1) = (Inr (), w2)"
      "gs = w1 @ w2"
    using ProvideCA_generate [OF assms(2) run] by auto
  have fin: "last_fs f gs = last_fs (last_fs f w1) w2"
    using *(5) by (auto simp: last_fs_def)
  have "gget (last_fs f gs) (dir, ''ca-key.pem'') = Some kp"
    using atomicWriteFile_last(1) [OF *(4)] by (simp add: fin)
  moreover have "gget (last_fs f gs) (dir, ''ca.pem'') = Some (ca_certPEM ca)"
    using atomicWriteFile_frame_last [OF *(4), of "(dir, ''ca.pem'')"] atomicWriteFile_last(1) [OF *(3)]
    by (simp add: fin temp_path_def)
  ultimately show ?thesis
    using LoadCA_NewCA [OF assms(1) *(1,2)] assms(4) by (simp add: ProvideCA_def Let_def readFile_ok)
qed

text \<open>A concrete library for the witnesses: keys, public keys and certificates are numbers
  and flags, and the random source is a counter.\<close>

definition demo_lib :: "(nat, nat, nat, bool \<times> nat, nat) pki_lib" where
  "demo_lib = \<lparr>pem_encode = (\<lambda>ty b. itoa (length ty) @ '':'' @ ty @ b),
     pem_decode = (\<lambda>s. let (n, rest, ok) = cut_char (CHR '':'') s
                       in if ok then Some (take (atoi_digits n) rest, drop (atoi_digits n) rest) else None),
     ecdsa_generate = (\<lambda>r. (Inr r, Suc r)),
     rand_int = (\<lambda>n r. (Inr (r mod n), Suc r)),
     public_key = (\<lambda>k. k),
     create_certificate = (\<lambda>r t par pub k.
        (Inr ((if BasicConstraintsValid t \<and> IsCA t then CHR ''c'' else CHR ''l'') # itoa pub), Suc r)),
     parse_certificate = (\<lambda>s. case s of [] \<Rightarrow> Inl (Plain ''empty'') | x # d \<Rightarrow> Inr (x = CHR ''c'', atoi_digits d)),
     cert_is_ca = fst, cert_public_key = (\<lambda>c. Some (snd c)),
     marshal_ec_key = (\<lambda>k. Inr (itoa k)), parse_ec_key = (\<lambda>s. Inr (atoi_digits s)),
     create_request = (\<lambda>r n k. (Inr (itoa k), Suc r)),
     parse_request = (\<lambda>s. Inr (atoi_digits s)), request_signature = (\<lambda>q. Inr ()),
     request_subject = (\<lambda>q. \<lparr>Organization = [''otterscale''], CommonName = ''agent'', other_attributes = []\<rparr>),
     request_key = (\<lambda>q. q), parse_ip = (\<lambda>s. None)\<rparr>"

lemma cut_itoa: "cut_char (CHR '':'') (itoa n @ CHR '':'' # s) = (itoa n, s, True)"
  using itoa_digits digit_not_colon by (intro cut_char_append) blast

lemma demo_pem [simp]: "pem_decode demo_lib (pem_encode demo_lib ty b) = Some (ty, b)"
  by (simp add: demo_lib_def cut_itoa)

lemma demo_lib_laws: "pki_laws demo_lib"
  unfolding pki_laws_def by (auto simp: demo_lib_def cut_itoa)

lemma demo_ProvideCA:
  "\<exists>ca gs r'. ProvideCA demo_lib no_fault (''1'', ''2'') 0 0 ''d'' [] 7 = (Inr ca, gs, r') \<and> gs \<noteq> []"
proof -
  have "\<exists>ca r'. NewCA demo_lib 0 7 = (Inr ca, r')"
    by (simp add: NewCA_def randomSerial_def demo_lib_def)
  then obtain ca r' where ca: "NewCA demo_lib 0 7 = (Inr ca, r')" by blast
  have "\<exists>kp. KeyPEM demo_lib ca = Inr kp"
    by (simp add: KeyPEM_def demo_lib_def)
  then obtain kp where kp: "KeyPEM demo_lib ca = Inr kp" by blast
  show ?thesis
    unfolding ProvideCA_def Let_def
    by (simp add: ca kp readFile_def no_fault_def atomicWriteFile_def Let_def last_fs_def)
qed

theorem ProvideCA_crash_safe_witness:
  "\<exists>g \<in> set (fst (snd (ProvideCA demo_lib no_fault (''1'', ''2'') 0 0 ''d'' [] 7))). ca_dir_ok demo_lib ''d'' g"
proof -
  obtain ca gs r' where run: "ProvideCA demo_lib no_fault (''1'', ''2'') 0 0 ''d'' [] 7 = (Inr ca, gs, r')" "gs \<noteq> []"
    using demo_ProvideCA by blast
  have "ca_dir_ok demo_lib ''d'' []" by (simp add: ca_dir_ok_def)
  from ProvideCA_crash_safe [OF demo_lib_laws this _ run(1)] show ?thesis
    using run by (simp add: no_fault_def) (meson last_in_set)
qed

theorem ProvideCA_restart_witness:
  "\<exists>ca gs r'. ProvideCA demo_lib no_fault (''1'', ''2'') 0 0 ''d'' [] 7 = (Inr ca, gs, r') \<and>
     ProvideCA demo_lib no_fault (''3'', ''4'') 0 50 ''d'' (last_fs [] gs) r' = (Inr ca, [], r')"
proof -
  obtain ca gs r' where run: "ProvideCA demo_lib no_fault (''1'', ''2'') 0 0 ''d'' [] 7 = (Inr ca, gs, r')"
    using demo_ProvideCA by blast
  then show ?thesis
    using ProvideCA_restart [OF demo_lib_laws _ _ _ run, of no_fault "(''3'', ''4'')" 0 50 r']
    by (simp add: no_fault_def)
qed

text \<open>
  Claim C11. A certificate is only signed for a well-formed request whose self-signature
  verifies, and what is signed is a client certificate for the requester's own key: it
  decodes to a certificate that is no authority and that carries the request's public key,
  made from a template with the request's subject, the client-authentication usage only, and
  a validity from five minutes before to 24 hours after the signing time.
\<close>

theorem SignCSR_sound:
  assumes "pki_laws L" and "SignCSR L ca now csrPEM r = (Inr certPEM, r')"
  shows "\<exists>blk csr der cert tmpl r1.
     pem_decode L csrPEM = Some (''CERTIFICATE REQUEST'', blk) \<and> parse_request L blk = Inr csr \<and>
     request_signature L csr = Inr () \<and>
     pem_decode L certPEM = Some (''CERTIFICATE'', der) \<and> parse_certificate L der = Inr cert \<and>
     \<not> cert_is_ca L cert \<and> cert_public_key L cert = Some (request_key L csr) \<and>
     create_certificate L r1 tmpl (Some (ca_cert ca)) (request_key L csr) (ca_key ca) = (Inr der, r') \<and>
     Subject tmpl = request_subject L csr \<and> ExtKeyUsage tmpl = [ExtKeyUsageClientAuth] \<and>
     KeyUsage tmpl = [KeyUsageDigitalSignature] \<and>
     NotBefore tmpl = now - 300 \<and> NotAfter tmpl = now + 86400"
proof -
  obtain blk csr serial r1 der where *:
      "pem_decode L csrPEM = Some (''CERTIFICATE REQUEST'', blk)" "parse_request L blk = Inr csr"
      "request_signature L csr = Inr ()"
      "create_certificate L r1 (client_template serial (request_subject L csr) now)
         (Some (ca_cert ca)) (request_key L csr) (ca_key ca) = (Inr der, r')"
      "certPEM = pem_encode L ''CERTIFICATE'' der"
    using assms(2) by (auto simp: SignCSR_def split: option.splits prod.splits if_splits sum.splits)
  let ?t = "client_template serial (request_subject L csr) now"
  have t: "\<not> IsCA ?t" "Subject ?t = request_subject L csr" "ExtKeyUsage ?t = [ExtKeyUsageClientAuth]"
      "KeyUsage ?t = [KeyUsageDigitalSignature]" "NotBefore ?t = now - 300" "NotAfter ?t = now + 86400"
    by (simp_all add: client_template_def empty_template_def certValidity_def)
  obtain cert where "parse_certificate L der = Inr cert" "\<not> cert_is_ca L cert"
      "cert_public_key L cert = Some (request_key L csr)"
    using pki_laws_cert [OF assms(1) *(4)] t(1) by blast
  moreover have "pem_decode L certPEM = Some (''CERTIFICATE'', der)"
    using pki_laws_pem [OF assms(1)] *(5) by simp
  ultimately show ?thesis using * t by blast
qed

lemma demo_SignCSR:
  "\<exists>certPEM r'. SignCSR demo_lib \<lparr>ca_cert = (True, 5), ca_key = 5, ca_certPEM = []\<rparr> 1000
      (pem_encode demo_lib ''CERTIFICATE REQUEST'' ''9'') 3 = (Inr certPEM, r')"
proof -
  have "parse_request demo_lib ''9'' = Inr (atoi_digits ''9'')" "request_signature demo_lib q = Inr ()"
    "randomSerial demo_lib 3 = (Inr (3 mod 2 ^ 128), 4)"
    "create_certificate demo_lib r t par pub k =
       (Inr ((if BasicConstraintsValid t \<and> IsCA t then CHR ''c'' else CHR ''l'') # itoa pub), Suc r)" for r t par pub k q
    by (simp_all add: demo_lib_def randomSerial_def)
  then show ?thesis
    unfolding SignCSR_def by simp
qed

theorem SignCSR_sound_witness:
  "\<exists>certPEM r' der cert. SignCSR demo_lib \<lparr>ca_cert = (True, 5), ca_key = 5, ca_certPEM = []\<rparr> 1000
      (pem_encode demo_lib ''CERTIFICATE REQUEST'' ''9'') 3 = (Inr certPEM, r') \<and>
      pem_decode demo_lib certPEM = Some (''CERTIFICATE'', der) \<and>
      parse_certificate demo_lib der = Inr cert \<and> \<not> cert_is_ca demo_lib cert"
proof -
  obtain certPEM r' where ok: "SignCSR demo_lib \<lparr>ca_cert = (True, 5), ca_key = 5, ca_certPEM = []\<rparr> 1000
      (pem_encode demo_lib ''CERTIFICATE REQUEST'' ''9'') 3 = (Inr certPEM, r')"
    using demo_SignCSR by blast
  from SignCSR_sound [OF demo_lib_laws ok] ok show ?thesis by blast
qed

text \<open>
  Reading an existing authority can fail for a reason other than a missing file, and then a new
  one silently replaces it: both files end up with the new authority's contents.
\<close>

theorem ProvideCA_read_error_replaces:
  assumes "fault (ReadFile (dir, ''ca.pem'')) = Some e" "\<forall>c. (\<forall>p. c \<noteq> ReadFile p) \<longrightarrow> fault c = None"
    and "NewCA L now r = (Inr ca, r')" "KeyPEM L ca = Inr kp"
  shows "\<exists>gs. ProvideCA L fault rnds part now dir f r = (Inr ca, gs, r') \<and>
      gget (last_fs f gs) (dir, ''ca.pem'') = Some (ca_certPEM ca) \<and>
      gget (last_fs f gs) (dir, ''ca-key.pem'') = Some kp"
  using assms by (auto simp: ProvideCA_def Let_def readFile_def atomicWriteFile_def last_fs_def CertPEM_def temp_path_def)

lemma DeriveAuth_shape:
  "DeriveAuth L agentID certPEM = Inr auth \<Longrightarrow>
   \<exists>ty blk. pem_decode L certPEM = Some (ty, blk) \<and> auth = agentID @ CHR '':'' # b64_encode (take 24 (sha256 blk))"
  by (auto simp: DeriveAuth_def split: option.splits)

lemma b64_encode_no_colon: "CHR '':'' \<notin> set (b64_encode s)"
proof -
  have "dec6 (CHR '':'') = None" by code_simp
  then show ?thesis
    unfolding b64_encode_values by (metis (no_types, lifting) b64_values_less dec6_enc6 image_iff list.set_map option.distinct(1))
qed
end
