(* ===== verification/Tunnel_Service.thy ===== *)
theory Tunnel_Service
  imports Addresses Pki
begin

text \<open>
  The server side of the tunnels: \<^verbatim>\<open>internal/providers/chisel/service.go\<close> and
  \<^verbatim>\<open>health.go\<close>, and the interface \<^verbatim>\<open>TunnelProvider\<close> of \<^verbatim>\<open>internal/core/fleet.go\<close> as the
  locale \<open>tunnel_provider\<close>, which the service interprets.

  The chisel server is third-party code: its state is a type variable and its two methods are
  the fields of \<open>chisel_lib\<close>. The atomic pointer to it is an option. Every method of the
  service holds the mutex while it touches the maps, so each is one function of the state; the
  one place where the lock is dropped between a check and an action, the health check, is also
  given as a step relation in which other methods may run in between.
\<close>

section \<open>State\<close>

record Cluster =
  Host :: gostring
  User :: gostring
  AgentVersion :: gostring

record 'v chisel_lib =
  AddUser :: "'v \<Rightarrow> gostring \<Rightarrow> gostring \<Rightarrow> gostring \<Rightarrow> unit res \<times> 'v"
  DeleteUser :: "'v \<Rightarrow> gostring \<Rightarrow> 'v"

record ('v, 'k, 'c) Service =
  server :: "'v option"
  service_ca :: "('k, 'c) CA"
  addrs :: addressAllocator
  clusters :: "(gostring, Cluster) gomap"

definition NewService :: "('k, 'c) CA \<Rightarrow> ('v, 'k, 'c) Service" where
  "NewService ca = \<lparr>server = None, service_ca = ca, addrs = newAddressAllocator, clusters = []\<rparr>"

text \<open>The transport stores the initialised server through \<^verbatim>\<open>ServerRef\<close>.\<close>

definition ServerRef_Store :: "'v \<Rightarrow> ('v, 'k, 'c) Service \<Rightarrow> ('v, 'k, 'c) Service" where
  "ServerRef_Store v s = s\<lparr>server := Some v\<rparr>"

definition CACertPEM :: "('v, 'k, 'c) Service \<Rightarrow> bytes" where
  "CACertPEM s = CertPEM (service_ca s)"

definition ListClusters :: "('v, 'k, 'c) Service \<Rightarrow> (gostring, Cluster) gomap" where
  "ListClusters s = clusters s"

section \<open>Registration\<close>

definition parseAuth :: "gostring \<Rightarrow> gostring \<times> gostring \<times> bool" where
  "parseAuth auth = cut_char (CHR '':'') auth"

text \<open>\<^verbatim>\<open>regexp.QuoteMeta\<close>\<close>

definition quote_meta :: "gostring \<Rightarrow> gostring" where
  "quote_meta s =
     concat (map (\<lambda>c. if c \<in> set (CHR 0x5C # ''.+*?()|[]{}^$'') then [CHR 0x5C, c] else [c]) s)"

definition allowed_pattern :: "gostring \<Rightarrow> gostring" where
  "allowed_pattern host = ''^R:'' @ quote_meta host @ '':'' @ itoa tunnelPort @ ''(:.*)?$''"

definition endpoint_of :: "gostring \<Rightarrow> gostring" where
  "endpoint_of host = host @ '':'' @ itoa tunnelPort"

text \<open>The release of a previous registration of the same cluster.\<close>

definition release_prev ::
  "'v chisel_lib \<Rightarrow> gostring \<Rightarrow> 'v \<Rightarrow> ('v, 'k, 'c) Service \<Rightarrow> ('v, 'k, 'c) Service" where
  "release_prev C cluster srv s =
     (case gget (clusters s) cluster of
        None \<Rightarrow> s
      | Some prev \<Rightarrow>
          s\<lparr>server := Some (DeleteUser C srv (User prev)),
            addrs := release (addrs s) (Host prev),
            clusters := gdel cluster (clusters s)\<rparr>)"

definition invalid_auth :: "gostring \<Rightarrow> go_error" where
  "invalid_auth auth = Plain (''invalid auth format: expected user:pass, got '' @ go_quote auth)"

text \<open>The part of \<open>RegisterCluster\<close> under the mutex, once the chisel server is known.\<close>

definition register_locked ::
  "'v chisel_lib \<Rightarrow> 'v \<Rightarrow> gostring \<Rightarrow> gostring \<Rightarrow> gostring \<Rightarrow> gostring \<Rightarrow> bytes \<Rightarrow> ('v, 'k, 'c) Service \<Rightarrow>
     (gostring \<times> bytes) res \<times> ('v, 'k, 'c) Service" where
  "register_locked C srv cluster agentID agentVersion pass certPEM s =
     (let s1 = release_prev C cluster srv s;
          srv1 = the (server s1)
      in case allocate (addrs s1) cluster of
           Inl e \<Rightarrow> (Inl e, s1)
         | Inr (host, addrs2) \<Rightarrow>
             (case AddUser C srv1 agentID pass (allowed_pattern host) of
                (Inl e, srv2) \<Rightarrow> (Inl e, s1\<lparr>server := Some srv2, addrs := release addrs2 host\<rparr>)
              | (Inr _, srv2) \<Rightarrow>
                  (Inr (endpoint_of host, certPEM),
                   s1\<lparr>server := Some srv2, addrs := addrs2,
                      clusters := gput cluster \<lparr>Host = host, User = agentID, AgentVersion = agentVersion\<rparr>
                                    (clusters s1)\<rparr>)))"

definition RegisterCluster ::
  "('r, 'k, 'p, 'c, 'q) pki_lib \<Rightarrow> 'v chisel_lib \<Rightarrow> int \<Rightarrow> ('v, 'k, 'c) Service \<times> 'r \<Rightarrow>
     gostring \<Rightarrow> gostring \<Rightarrow> gostring \<Rightarrow> bytes \<Rightarrow> (gostring \<times> bytes) res \<times> ('v, 'k, 'c) Service \<times> 'r" where
  "RegisterCluster L C now st cluster agentID agentVersion csrPEM =
     (let (s, r) = st in
      case SignCSR L (service_ca s) now csrPEM r of
        (Inl e, r1) \<Rightarrow> (Inl (Wrap ''sign CSR'' e), s, r1)
      | (Inr certPEM, r1) \<Rightarrow>
          (case DeriveAuth L agentID certPEM of
             Inl e \<Rightarrow> (Inl (Wrap ''derive auth'' e), s, r1)
           | Inr auth \<Rightarrow>
               (case parseAuth auth of
                  (_, pass, ok) \<Rightarrow>
                    if \<not> ok then (Inl (invalid_auth auth), s, r1)
                    else
                      (case server s of
                         None \<Rightarrow> (Inl (ErrNotReady ''chisel server''), s, r1)
                       | Some srv \<Rightarrow>
                           (case register_locked C srv cluster agentID agentVersion pass certPEM s of
                              (res, s') \<Rightarrow> (res, s', r1))))))"

definition DeregisterCluster :: "'v chisel_lib \<Rightarrow> gostring \<Rightarrow> ('v, 'k, 'c) Service \<Rightarrow> ('v, 'k, 'c) Service" where
  "DeregisterCluster C cluster s =
     (case server s of
        None \<Rightarrow> s
      | Some srv \<Rightarrow>
          (case gget (clusters s) cluster of
             None \<Rightarrow> s
           | Some entry \<Rightarrow>
               s\<lparr>server := Some (DeleteUser C srv (User entry)),
                 addrs := release (addrs s) (Host entry),
                 clusters := gdel cluster (clusters s)\<rparr>))"

definition ResolveAddress :: "('v, 'k, 'c) Service \<Rightarrow> gostring \<Rightarrow> gostring res" where
  "ResolveAddress s cluster =
     (case gget (clusters s) cluster of
        None \<Rightarrow> Inl (ErrClusterNotFound cluster)
      | Some entry \<Rightarrow> Inr (''http://'' @ Host entry @ '':'' @ itoa tunnelPort))"

section \<open>Health check\<close>

definition healthFailThreshold :: nat where
  "healthFailThreshold = 3"

definition clusterSnapshot :: "('v, 'k, 'c) Service \<Rightarrow> (gostring, gostring) gomap" where
  "clusterSnapshot s = map (\<lambda>(name, entry). (name, Host entry)) (clusters s)"

text \<open>The first loop of \<open>checkClusters\<close>: counters of clusters that are gone are dropped.\<close>

definition clean_counts :: "(gostring, gostring) gomap \<Rightarrow> (gostring, nat) gomap \<Rightarrow> (gostring, nat) gomap" where
  "clean_counts snapshot failCounts = filter (\<lambda>(name, _). gget snapshot name \<noteq> None) failCounts"

definition fail_count :: "(gostring, nat) gomap \<Rightarrow> gostring \<Rightarrow> nat" where
  "fail_count failCounts cluster = (case gget failCounts cluster of None \<Rightarrow> 0 | Some n \<Rightarrow> n)"

text \<open>The check under the read lock before a cluster is deregistered.\<close>

definition host_unchanged :: "('v, 'k, 'c) Service \<Rightarrow> gostring \<Rightarrow> gostring \<Rightarrow> bool" where
  "host_unchanged s cluster host =
     (case gget (clusters s) cluster of None \<Rightarrow> False | Some current \<Rightarrow> Host current = host)"

text \<open>
  The second loop. \<open>dial addr\<close> says whether the TCP dial of this round succeeds, \<open>cancelled
  cluster\<close> whether the context is seen as cancelled after the failed dial to that cluster.
\<close>

fun check_loop ::
  "'v chisel_lib \<Rightarrow> (gostring \<Rightarrow> bool) \<Rightarrow> (gostring \<Rightarrow> bool) \<Rightarrow> (gostring, gostring) gomap \<Rightarrow>
     ('v, 'k, 'c) Service \<Rightarrow> (gostring, nat) gomap \<Rightarrow> ('v, 'k, 'c) Service \<times> (gostring, nat) gomap" where
  "check_loop C dial cancelled [] s fc = (s, fc)"
| "check_loop C dial cancelled ((cluster, host) # rest) s fc =
     (if dial (endpoint_of host) then check_loop C dial cancelled rest s (gdel cluster fc)
      else if cancelled cluster then (s, fc)
      else
        (let fc1 = gput cluster (fail_count fc cluster + 1) fc in
         if healthFailThreshold \<le> fail_count fc1 cluster
         then check_loop C dial cancelled rest
                (if host_unchanged s cluster host then DeregisterCluster C cluster s else s)
                (gdel cluster fc1)
         else check_loop C dial cancelled rest s fc1))"

definition checkClusters ::
  "'v chisel_lib \<Rightarrow> (gostring \<Rightarrow> bool) \<Rightarrow> (gostring \<Rightarrow> bool) \<Rightarrow>
     ('v, 'k, 'c) Service \<times> (gostring, nat) gomap \<Rightarrow> ('v, 'k, 'c) Service \<times> (gostring, nat) gomap" where
  "checkClusters C dial cancelled st =
     (let (s, fc) = st; snapshot = clusterSnapshot s
      in check_loop C dial cancelled snapshot s (clean_counts snapshot fc))"

text \<open>The ticker loop over the rounds that happen before the context is done; \<open>failCounts\<close>
  starts empty.\<close>

fun run_rounds ::
  "'v chisel_lib \<Rightarrow> ((gostring \<Rightarrow> bool) \<times> (gostring \<Rightarrow> bool)) list \<Rightarrow>
     ('v, 'k, 'c) Service \<times> (gostring, nat) gomap \<Rightarrow> ('v, 'k, 'c) Service \<times> (gostring, nat) gomap" where
  "run_rounds C [] st = st"
| "run_rounds C ((dial, cancelled) # rs) st = run_rounds C rs (checkClusters C dial cancelled st)"

definition runHealthCheck ::
  "'v chisel_lib \<Rightarrow> ((gostring \<Rightarrow> bool) \<times> (gostring \<Rightarrow> bool)) list \<Rightarrow> ('v, 'k, 'c) Service \<Rightarrow> ('v, 'k, 'c) Service" where
  "runHealthCheck C rounds s = fst (run_rounds C rounds (s, []))"

section \<open>The interface to the use cases\<close>

text \<open>What \<^verbatim>\<open>core.TunnelProvider\<close> promises its clients.\<close>

locale tunnel_provider =
  fixes inv :: "'s \<Rightarrow> bool"
    and register :: "'s \<Rightarrow> gostring \<Rightarrow> gostring \<Rightarrow> gostring \<Rightarrow> bytes \<Rightarrow> (gostring \<times> bytes) res \<times> 's"
    and resolve :: "'s \<Rightarrow> gostring \<Rightarrow> gostring res"
    and listing :: "'s \<Rightarrow> (gostring, Cluster) gomap"
  assumes register_inv: "inv s \<Longrightarrow> inv (snd (register s c a v q))"
    and register_resolve: "inv s \<Longrightarrow> register s c a v q = (Inr (ep, cert), s') \<Longrightarrow> resolve s' c = Inr (''http://'' @ ep)"
    and register_frame: "inv s \<Longrightarrow> c' \<noteq> c \<Longrightarrow> resolve (snd (register s c a v q)) c' = resolve s c'"
    and resolve_inj: "inv s \<Longrightarrow> resolve s c = Inr u \<Longrightarrow> resolve s c' = Inr u \<Longrightarrow> c' = c"
    and resolve_Inl: "resolve s c = Inl e \<longleftrightarrow> gget (listing s) c = None \<and> e = ErrClusterNotFound c"
begin

text \<open>Two registrations of different clusters: both stay reachable, at different addresses.\<close>

lemma register_two:
  assumes "inv s" "register s c1 a1 v1 q1 = (Inr (ep1, cert1), s1)"
    and "register s1 c2 a2 v2 q2 = (Inr (ep2, cert2), s2)" "c1 \<noteq> c2"
  shows "resolve s2 c1 = Inr (''http://'' @ ep1)" "resolve s2 c2 = Inr (''http://'' @ ep2)" "ep1 \<noteq> ep2"
proof -
  have s1: "inv s1" using register_inv [OF assms(1)] assms(2) by (metis snd_conv)
  then have s2: "inv s2" using register_inv assms(3) by (metis snd_conv)
  show r1: "resolve s2 c1 = Inr (''http://'' @ ep1)"
    using register_frame [OF s1 assms(4), of a2 v2 q2] register_resolve [OF assms(1,2)] assms(3) by simp
  show r2: "resolve s2 c2 = Inr (''http://'' @ ep2)"
    using register_resolve [OF s1 assms(3)] .
  show "ep1 \<noteq> ep2" using resolve_inj [OF s2 r1] r2 assms(4) by metis
qed

lemma listed_resolves: "gget (listing s) c = Some e \<Longrightarrow> \<exists>u. resolve s c = Inr u"
  by (metis option.distinct(1) resolve_Inl sumE)

end

section \<open>The invariant of the service\<close>

text \<open>
  The hosts in use are exactly the hosts of the registered clusters, no two clusters share a
  host, and without a chisel server nothing is registered.
\<close>

definition host_used :: "(gostring, Cluster) gomap \<Rightarrow> gostring \<Rightarrow> bool" where
  "host_used m h \<longleftrightarrow> (\<exists>c e. gget m c = Some e \<and> Host e = h)"

definition hosts_unique :: "(gostring, Cluster) gomap \<Rightarrow> bool" where
  "hosts_unique m \<longleftrightarrow>
     (\<forall>c e c' e'. gget m c = Some e \<and> gget m c' = Some e' \<and> Host e = Host e' \<longrightarrow> c = c')"

definition service_inv :: "('v, 'k, 'c) Service \<Rightarrow> bool" where
  "service_inv s \<longleftrightarrow>
     alloc_inv (addrs s) \<and> gwf (clusters s) \<and> hosts_unique (clusters s) \<and>
     gkeys (usedHosts (addrs s)) = Collect (host_used (clusters s)) \<and>
     (server s = None \<longrightarrow> clusters s = [])"

lemma hosts_uniqueD:
  "hosts_unique m \<Longrightarrow> gget m c = Some e \<Longrightarrow> gget m c' = Some e' \<Longrightarrow> Host e = Host e' \<Longrightarrow> c = c'"
  unfolding hosts_unique_def by blast

lemma hosts_unique_gdel: "hosts_unique m \<Longrightarrow> hosts_unique (gdel c m)"
  by (auto simp: hosts_unique_def split: if_splits)

lemma host_used_gdel:
  assumes "hosts_unique m" "gget m c = Some e"
  shows "host_used (gdel c m) h \<longleftrightarrow> host_used m h \<and> h \<noteq> Host e"
proof
  assume "host_used (gdel c m) h"
  then obtain c' e' where "c' \<noteq> c" "gget m c' = Some e'" "Host e' = h"
    by (auto simp: host_used_def split: if_splits)
  then show "host_used m h \<and> h \<noteq> Host e"
    using hosts_uniqueD [OF assms, of c' e'] by (auto simp: host_used_def)
next
  assume "host_used m h \<and> h \<noteq> Host e"
  then obtain c' e' where "gget m c' = Some e'" "Host e' = h" "c' \<noteq> c"
    using assms(2) by (metis host_used_def option.inject)
  then show "host_used (gdel c m) h" by (auto simp: host_used_def)
qed

lemma host_used_gput: "gget m c = None \<Longrightarrow> host_used (gput c e m) h \<longleftrightarrow> h = Host e \<or> host_used m h"
  unfolding host_used_def by (auto split: if_splits) (metis option.distinct(1))

lemma hosts_unique_gput:
  assumes "hosts_unique m" "\<not> host_used m (Host e)"
  shows "hosts_unique (gput c e m)"
  unfolding hosts_unique_def
proof (intro allI impI)
  fix c1 e1 c2 e2
  assume "gget (gput c e m) c1 = Some e1 \<and> gget (gput c e m) c2 = Some e2 \<and> Host e1 = Host e2"
  then show "c1 = c2"
    using assms hosts_uniqueD [OF assms(1), of c1 e1 c2 e2] by (force simp: host_used_def split: if_splits)
qed

lemma service_inv_new: "service_inv (NewService ca)"
  by (simp add: service_inv_def NewService_def alloc_inv_def newAddressAllocator_def hosts_unique_def host_used_def)

lemma service_inv_store: "service_inv s \<Longrightarrow> service_inv (ServerRef_Store v s)"
  by (simp add: service_inv_def ServerRef_Store_def)

text \<open>Removing a registered cluster and releasing its host keeps the invariant.\<close>

lemma service_inv_remove:
  assumes "service_inv s" "gget (clusters s) c = Some e"
  shows "service_inv (s\<lparr>server := Some v, addrs := release (addrs s) (Host e), clusters := gdel c (clusters s)\<rparr>)"
proof -
  have u: "hosts_unique (clusters s)" using assms(1) by (simp add: service_inv_def)
  have "Collect (host_used (gdel c (clusters s))) = Collect (host_used (clusters s)) - {Host e}"
    using host_used_gdel [OF u assms(2)] by blast
  then show ?thesis
    using assms(1) by (simp add: service_inv_def alloc_inv_release hosts_unique_gdel)
qed

lemma release_prev_inv: "service_inv s \<Longrightarrow> server s = Some srv \<Longrightarrow> service_inv (release_prev C cluster srv s)"
  by (auto simp: release_prev_def service_inv_remove split: option.splits)

lemma release_prev_simps:
  "gget (clusters (release_prev C cluster srv s)) cluster = None"
  "c \<noteq> cluster \<Longrightarrow> gget (clusters (release_prev C cluster srv s)) c = gget (clusters s) c"
  "service_ca (release_prev C cluster srv s) = service_ca s"
  "server s = Some srv \<Longrightarrow> server (release_prev C cluster srv s) \<noteq> None"
  by (auto simp: release_prev_def split: option.splits)

text \<open>Adding a cluster at a freshly allocated host keeps the invariant.\<close>

lemma service_inv_add:
  assumes "service_inv s" "gget (clusters s) c = None" "allocate (addrs s) c = Inr (h, a2)" "Host e = h"
  shows "service_inv (s\<lparr>server := Some v, addrs := a2, clusters := gput c e (clusters s)\<rparr>)"
proof -
  have h: "h \<notin> gkeys (usedHosts (addrs s))" "gkeys (usedHosts a2) = insert h (gkeys (usedHosts (addrs s)))"
    using allocate_Inr [OF assms(3)] by simp_all
  have "alloc_inv a2" using alloc_inv_allocate assms(1,3) by (auto simp: service_inv_def)
  moreover have "\<not> host_used (clusters s) (Host e)"
    using assms(1,4) h(1) by (auto simp: service_inv_def)
  moreover have "Collect (host_used (gput c e (clusters s))) = insert h (Collect (host_used (clusters s)))"
    using host_used_gput [OF assms(2), of e] assms(4) by auto
  ultimately show ?thesis
    using assms(1) h(2) by (auto simp: service_inv_def hosts_unique_gput)
qed

lemma allocate_release_gkeys:
  "allocate a c = Inr (h, a2) \<Longrightarrow> gkeys (usedHosts (release a2 h)) = gkeys (usedHosts a)"
  using allocate_Inr [of a c h a2] by auto

lemma service_inv_addr_cong:
  assumes "service_inv s" "alloc_inv a" "gkeys (usedHosts a) = gkeys (usedHosts (addrs s))"
  shows "service_inv (s\<lparr>server := Some v, addrs := a\<rparr>)"
  using assms by (simp add: service_inv_def)

text \<open>The outcomes of a registration.\<close>

lemma register_locked_cases:
  fixes s :: "('v, 'k, 'c) Service"
  assumes "register_locked C srv cluster agentID ver pass certPEM s = (res, s')"
  obtains (full) e where "allocate (addrs (release_prev C cluster srv s)) cluster = Inl e"
      "res = Inl e" "s' = release_prev C cluster srv s"
  | (refused) host a2 e srv2 where "allocate (addrs (release_prev C cluster srv s)) cluster = Inr (host, a2)"
      "res = Inl e" "s' = (release_prev C cluster srv s)\<lparr>server := Some srv2, addrs := release a2 host\<rparr>"
  | (registered) host a2 srv2 where "allocate (addrs (release_prev C cluster srv s)) cluster = Inr (host, a2)"
      "AddUser C (the (server (release_prev C cluster srv s))) agentID pass (allowed_pattern host) = (Inr (), srv2)"
      "res = Inr (endpoint_of host, certPEM)"
      "s' = (release_prev C cluster srv s)\<lparr>server := Some srv2, addrs := a2,
         clusters := gput cluster \<lparr>Host = host, User = agentID, AgentVersion = ver\<rparr>
           (clusters (release_prev C cluster srv s))\<rparr>"
proof (cases "allocate (addrs (release_prev C cluster srv s)) cluster")
  case (Inl e)
  then show ?thesis using assms by (intro full) (auto simp: register_locked_def Let_def)
next
  case (Inr ha)
  obtain host a2 where a: "allocate (addrs (release_prev C cluster srv s)) cluster = Inr (host, a2)"
    using Inr by (cases ha) simp
  obtain ur srv2 where u: "AddUser C (the (server (release_prev C cluster srv s))) agentID pass (allowed_pattern host) = (ur, srv2)"
    by (metis surj_pair)
  show ?thesis
  proof (cases ur)
    case Inl
    then show ?thesis using assms a u by (intro refused) (auto simp: register_locked_def Let_def)
  next
    case Inr
    then show ?thesis using assms a u by (intro registered) (auto simp: register_locked_def Let_def)
  qed
qed

lemma RegisterCluster_cases:
  assumes "RegisterCluster L C now (s, r) cluster agentID ver csrPEM = (res, s', r')"
  obtains (rejected) e where "res = Inl e" "s' = s"
  | (locked) srv certPEM auth u pass where "server s = Some srv"
      "SignCSR L (service_ca s) now csrPEM r = (Inr certPEM, r')"
      "DeriveAuth L agentID certPEM = Inr auth" "parseAuth auth = (u, pass, True)"
      "register_locked C srv cluster agentID ver pass certPEM s = (res, s')"
proof -
  obtain sr r1 where S: "SignCSR L (service_ca s) now csrPEM r = (sr, r1)" by (metis surj_pair)
  show ?thesis
  proof (cases "\<exists>certPEM auth srv. sr = Inr certPEM \<and> DeriveAuth L agentID certPEM = Inr auth \<and>
      snd (snd (parseAuth auth)) \<and> server s = Some srv")
    case True
    then obtain certPEM auth srv u pass where ok: "sr = Inr certPEM" "DeriveAuth L agentID certPEM = Inr auth"
        "parseAuth auth = (u, pass, True)" "server s = Some srv"
      by (metis prod.collapse)
    then show ?thesis
      using assms S by (intro locked [OF ok(4) _ ok(2,3)]) (auto simp: RegisterCluster_def split: prod.splits)
  next
    case False
    then have "\<exists>e. res = Inl e \<and> s' = s"
      using assms S by (auto simp: RegisterCluster_def split: sum.splits prod.splits option.splits if_splits)
    then show ?thesis using rejected by blast
  qed
qed

lemma register_locked_inv:
  assumes "service_inv s" "server s = Some srv"
    and "register_locked C srv cluster agentID ver pass certPEM s = (res, s')"
  shows "service_inv s'"
  using assms(3)
proof (cases rule: register_locked_cases)
  case (refused host a2 e srv2)
  let ?s1 = "release_prev C cluster srv s"
  have s1: "service_inv ?s1" using release_prev_inv assms(1,2) .
  then have "alloc_inv (release a2 host)"
    using alloc_inv_release alloc_inv_allocate refused(1) by (auto simp: service_inv_def)
  then show ?thesis
    unfolding refused(3) using service_inv_addr_cong [OF s1] allocate_release_gkeys [OF refused(1)] by blast
next
  case (registered host a2 srv2)
  then show ?thesis
    using service_inv_add [OF release_prev_inv [OF assms(1,2)] release_prev_simps(1) registered(1)] by simp
qed (use assms(1,2) release_prev_inv in auto)

lemma RegisterCluster_inv:
  assumes "service_inv s" "RegisterCluster L C now (s, r) cluster agentID ver csrPEM = (res, s', r')"
  shows "service_inv s'"
  using assms(2) by (cases rule: RegisterCluster_cases) (use assms(1) register_locked_inv in auto)

lemma register_locked_frame:
  "register_locked C srv cluster agentID ver pass certPEM s = (res, s') \<Longrightarrow> c \<noteq> cluster \<Longrightarrow>
   gget (clusters s') c = gget (clusters s) c"
  by (erule register_locked_cases) (simp_all add: release_prev_simps(2))

lemma RegisterCluster_frame:
  assumes "RegisterCluster L C now (s, r) cluster agentID ver csrPEM = (res, s', r')" "c \<noteq> cluster"
  shows "gget (clusters s') c = gget (clusters s) c"
  using assms(1) by (cases rule: RegisterCluster_cases) (use assms(2) register_locked_frame in auto)

lemma RegisterCluster_entry:
  assumes "RegisterCluster L C now (s, r) cluster agentID ver csrPEM = (Inr (ep, cert), s', r')"
  obtains host where "gget (clusters s') cluster = Some \<lparr>Host = host, User = agentID, AgentVersion = ver\<rparr>"
    "ep = endpoint_of host"
  using assms
proof (cases rule: RegisterCluster_cases)
  case (locked srv certPEM auth u pass)
  from locked(5) show ?thesis
    by (cases rule: register_locked_cases) (use that in auto)
qed simp

lemma DeregisterCluster_inv: "service_inv s \<Longrightarrow> service_inv (DeregisterCluster C cluster s)"
  by (auto simp: DeregisterCluster_def service_inv_remove split: option.splits)

lemma DeregisterCluster_clusters:
  "service_inv s \<Longrightarrow> gget (clusters (DeregisterCluster C cluster s)) = (gget (clusters s))(cluster := None)"
  by (auto simp: DeregisterCluster_def service_inv_def fun_eq_iff split: option.splits)

lemma check_loop_inv: "service_inv s \<Longrightarrow> service_inv (fst (check_loop C dial cancelled snap s fc))"
  by (induction C dial cancelled snap s fc rule: check_loop.induct) (auto simp: Let_def DeregisterCluster_inv)

lemma checkClusters_inv: "service_inv s \<Longrightarrow> service_inv (fst (checkClusters C dial cancelled (s, fc)))"
  by (simp add: checkClusters_def Let_def check_loop_inv)

section \<open>The service implements the interface\<close>

lemma host_port_inject: "''http://'' @ h @ '':'' @ p = ''http://'' @ h' @ '':'' @ p \<longleftrightarrow> h = h'"
  by simp

lemma endpoint_of_inject [simp]: "endpoint_of h = endpoint_of h' \<longleftrightarrow> h = h'"
  by (simp add: endpoint_of_def)

lemma ResolveAddress_endpoint:
  "ResolveAddress s c = Inr u \<longleftrightarrow> (\<exists>e. gget (clusters s) c = Some e \<and> u = ''http://'' @ endpoint_of (Host e))"
  by (auto simp: ResolveAddress_def endpoint_of_def split: option.splits)

interpretation chisel: tunnel_provider
  "\<lambda>st. service_inv (fst st)" "RegisterCluster L C now" "\<lambda>st. ResolveAddress (fst st)" "\<lambda>st. ListClusters (fst st)"
  for L :: "('r, 'k, 'p, 'c, 'q) pki_lib" and C :: "'v chisel_lib" and now :: int
proof unfold_locales
  fix st :: "('v, 'k, 'c) Service \<times> 'r" and c a v q
  obtain s r where [simp]: "st = (s, r)" by (cases st)
  obtain res s' r' where run: "RegisterCluster L C now (s, r) c a v q = (res, s', r')" by (metis prod_cases3)
  assume "service_inv (fst st)"
  then show "service_inv (fst (snd (RegisterCluster L C now st c a v q)))"
    using RegisterCluster_inv run by fastforce
  fix c' assume "c' \<noteq> c"
  then show "ResolveAddress (fst (snd (RegisterCluster L C now st c a v q))) c' = ResolveAddress (fst st) c'"
    using RegisterCluster_frame [OF run] by (simp add: run ResolveAddress_def)
next
  fix st st' :: "('v, 'k, 'c) Service \<times> 'r" and c a v q ep cert
  assume "RegisterCluster L C now st c a v q = (Inr (ep, cert), st')"
  then have "RegisterCluster L C now (fst st, snd st) c a v q = (Inr (ep, cert), fst st', snd st')" by simp
  then show "ResolveAddress (fst st') c = Inr (''http://'' @ ep)"
    by (rule RegisterCluster_entry) (simp add: ResolveAddress_endpoint)
next
  fix st :: "('v, 'k, 'c) Service \<times> 'r" and c c' u
  assume "service_inv (fst st)" "ResolveAddress (fst st) c = Inr u" "ResolveAddress (fst st) c' = Inr u"
  then show "c' = c" by (auto simp: ResolveAddress_endpoint service_inv_def dest: hosts_uniqueD)
qed (auto simp: ResolveAddress_def ListClusters_def split: option.splits)

section \<open>Health check: the effect of a round on one cluster\<close>

lemma DeregisterCluster_other: "c \<noteq> cluster \<Longrightarrow> gget (clusters (DeregisterCluster C cluster s)) c = gget (clusters s) c"
  by (simp add: DeregisterCluster_def split: option.splits)

lemma DeregisterCluster_self: "server s \<noteq> None \<Longrightarrow> gget (clusters (DeregisterCluster C cluster s)) cluster = None"
  by (auto simp: DeregisterCluster_def split: option.splits)

lemma DeregisterCluster_server [simp]: "server (DeregisterCluster C cluster s) = None \<longleftrightarrow> server s = None"
  by (simp add: DeregisterCluster_def split: option.splits)

lemma DeregisterCluster_server_Some [simp]:
  "(\<exists>v. server (DeregisterCluster C cluster s) = Some v) \<longleftrightarrow> (\<exists>v. server s = Some v)"
  using DeregisterCluster_server [of C cluster s] by (metis not_Some_eq)

lemma fail_count_simps [simp]:
  "fail_count (gput c n fc) c = n" "c' \<noteq> c \<Longrightarrow> fail_count (gput c n fc) c' = fail_count fc c'"
  "c' \<noteq> c \<Longrightarrow> fail_count (gdel c fc) c' = fail_count fc c'" "fail_count (gdel c fc) c = 0"
  "fail_count [] c = 0"
  by (simp_all add: fail_count_def)

lemma check_loop_server: "server (fst (check_loop C dial cancelled snap s fc)) = None \<longleftrightarrow> server s = None"
  by (induction C dial cancelled snap s fc rule: check_loop.induct) (auto simp: Let_def)

lemma check_loop_other:
  "c \<notin> gkeys snap \<Longrightarrow> check_loop C dial cancelled snap s fc = (s', fc') \<Longrightarrow>
   gget (clusters s') c = gget (clusters s) c \<and> fail_count fc' c = fail_count fc c"
  by (induction C dial cancelled snap s fc arbitrary: s' fc' rule: check_loop.induct)
     (auto simp: Let_def DeregisterCluster_other split: if_splits)

text \<open>What a round does to a cluster \<open>c\<close> that is still registered at \<open>h\<close>.\<close>

definition round_effect :: "bool \<Rightarrow> nat \<Rightarrow> nat option" where
  "round_effect ok k = (if ok then Some 0 else if healthFailThreshold \<le> k + 1 then None else Some (k + 1))"

lemma check_loop_one:
  assumes "gwf snap" "gget snap c = Some h" "gget (clusters s) c = Some e" "Host e = h" "server s \<noteq> None"
    and "\<And>x. \<not> cancelled x" "check_loop C dial cancelled snap s fc = (s', fc')"
  shows "case round_effect (dial (endpoint_of h)) (fail_count fc c) of
           None \<Rightarrow> gget (clusters s') c = None
         | Some k \<Rightarrow> gget (clusters s') c = Some e \<and> fail_count fc' c = k"
  using assms
proof (induction C dial cancelled snap s fc rule: check_loop.induct)
  case (2 C dial cancelled cluster host rest s fc)
  show ?case
  proof (cases "cluster = c")
    case True
    then have c: "c \<notin> gkeys rest" "host = h" using "2.prems" by simp_all
    have loop: "check_loop C dial cancelled ((c, h) # rest) s fc = (s', fc')"
      using "2.prems"(7) unfolding c(2) True .
    show ?thesis
      using loop c "2.prems"(3-6) check_loop_other [OF c(1)]
      by (fastforce simp: round_effect_def Let_def DeregisterCluster_self host_unchanged_def split: if_splits)
  next
    case False
    then show ?thesis
      using 2 by (auto simp: Let_def DeregisterCluster_other split: if_splits)
  qed
qed simp

lemma gget_clusterSnapshot: "gget (clusterSnapshot s) c = map_option Host (gget (clusters s) c)"
  by (simp add: clusterSnapshot_def gget_def map_of_map)

lemma gwf_clusterSnapshot: "gwf (clusters s) \<Longrightarrow> gwf (clusterSnapshot s)"
  by (simp add: clusterSnapshot_def gwf_def comp_def case_prod_unfold)

lemma fail_count_clean:
  "gget snap c \<noteq> None \<Longrightarrow> fail_count (clean_counts snap fc) c = fail_count fc c"
proof -
  assume "gget snap c \<noteq> None"
  then have "map_of (filter (\<lambda>(name, _). gget snap name \<noteq> None) fc) c = map_of fc c"
    by (induction fc) auto
  then show ?thesis by (simp add: fail_count_def clean_counts_def gget_def)
qed

lemma checkClusters_one:
  assumes "service_inv s" "gget (clusters s) c = Some e" "\<And>x. \<not> cancelled x"
    and "checkClusters C dial cancelled (s, fc) = (s', fc')"
  shows "case round_effect (dial (endpoint_of (Host e))) (fail_count fc c) of
           None \<Rightarrow> gget (clusters s') c = None
         | Some k \<Rightarrow> gget (clusters s') c = Some e \<and> fail_count fc' c = k"
proof -
  have snap: "gwf (clusterSnapshot s)" "gget (clusterSnapshot s) c = Some (Host e)"
    using assms(1,2) by (simp_all add: service_inv_def gwf_clusterSnapshot gget_clusterSnapshot)
  have "server s \<noteq> None" using assms(1,2) by (auto simp: service_inv_def)
  then show ?thesis
    using check_loop_one [OF snap assms(2) refl _ assms(3)] assms(4) snap
    by (fastforce simp: checkClusters_def Let_def fail_count_clean)
qed

lemma checkClusters_gone:
  assumes "gget (clusters s) c = None" "checkClusters C dial cancelled (s, fc) = (s', fc')"
  shows "gget (clusters s') c = None"
proof -
  have "c \<notin> gkeys (clusterSnapshot s)" using assms(1) by (simp add: gget_clusterSnapshot flip: gget_None_iff)
  then show ?thesis using check_loop_other assms by (fastforce simp: checkClusters_def Let_def)
qed

lemma run_rounds_gone:
  "gget (clusters s) c = None \<Longrightarrow> gget (clusters (fst (run_rounds C rounds (s, fc)))) c = None"
proof (induction rounds arbitrary: s fc)
  case (Cons rd rounds)
  obtain dial cancelled where "rd = (dial, cancelled)" by (cases rd)
  moreover obtain s' fc' where step: "checkClusters C dial cancelled (s, fc) = (s', fc')" by (metis surj_pair)
  ultimately show ?case using Cons.IH [OF checkClusters_gone [OF Cons.prems step], of fc'] step by simp
qed simp

text \<open>Three failures in a row in a list of probe outcomes.\<close>

fun three_failures :: "bool list \<Rightarrow> bool" where
  "three_failures (a # b # c # os) \<longleftrightarrow> (\<not> a \<and> \<not> b \<and> \<not> c) \<or> three_failures (b # c # os)"
| "three_failures _ \<longleftrightarrow> False"

lemma three_failures_True [simp]: "three_failures (True # os) = three_failures os"
  by (cases os; cases "tl os") auto

lemma three_failures_False_True [simp]: "three_failures (False # True # os) = three_failures os"
  by (cases os) auto

lemma three_failures_prefix:
  assumes "k < 3"
  shows "three_failures (replicate k False @ True # os) = three_failures os"
proof -
  from assms consider "k = 0" | "k = 1" | "k = 2" by linarith
  then show ?thesis by cases (simp_all add: numeral_2_eq_2)
qed

lemma run_rounds_threshold:
  assumes "service_inv s" "gget (clusters s) c = Some e" "fail_count fc c < 3"
    and "\<forall>(dial, cancelled) \<in> set rounds. \<forall>x. \<not> cancelled x"
  shows "gget (clusters (fst (run_rounds C rounds (s, fc)))) c =
           (if three_failures (replicate (fail_count fc c) False @ map (\<lambda>(dial, _). dial (endpoint_of (Host e))) rounds)
            then None else Some e)"
  using assms
proof (induction rounds arbitrary: s fc)
  case Nil
  then consider "fail_count fc c = 0" | "fail_count fc c = 1" | "fail_count fc c = 2" by linarith
  then show ?case using Nil.prems(2) by cases (simp_all add: numeral_2_eq_2)
next
  case (Cons rd rounds)
  obtain dial cancelled where rd: "rd = (dial, cancelled)" by (cases rd)
  obtain s' fc' where step: "checkClusters C dial cancelled (s, fc) = (s', fc')" by (metis surj_pair)
  have inv': "service_inv s'" using checkClusters_inv [OF Cons.prems(1)] step by (metis fst_conv)
  have eff: "case round_effect (dial (endpoint_of (Host e))) (fail_count fc c) of
       None \<Rightarrow> gget (clusters s') c = None
     | Some k \<Rightarrow> gget (clusters s') c = Some e \<and> fail_count fc' c = k"
    using checkClusters_one [OF Cons.prems(1,2) _ step] Cons.prems(4) rd by auto
  have run: "run_rounds C (rd # rounds) (s, fc) = run_rounds C rounds (s', fc')" by (simp add: rd step)
  show ?case
  proof (cases "dial (endpoint_of (Host e))")
    case True
    then have "gget (clusters s') c = Some e" "fail_count fc' c = 0" using eff by (simp_all add: round_effect_def)
    then show ?thesis
      using Cons.IH [OF inv', of fc'] Cons.prems(3,4) True unfolding run by (simp add: rd three_failures_prefix)
  next
    case False
    show ?thesis
    proof (cases "fail_count fc c = 2")
      case True
      then have "gget (clusters s') c = None" using eff False by (simp add: round_effect_def healthFailThreshold_def)
      then show ?thesis
        using run_rounds_gone [of s' c] True False unfolding run by (simp add: rd numeral_2_eq_2)
    next
      case k: False
      then have "gget (clusters s') c = Some e" "fail_count fc' c = Suc (fail_count fc c)"
        using eff False Cons.prems(3) by (simp_all add: round_effect_def healthFailThreshold_def)
      then show ?thesis
        using Cons.IH [OF inv', of fc'] Cons.prems(3,4) k False unfolding run
        by (simp add: rd replicate_app_Cons_same)
    qed
  qed
qed

section \<open>Interleaving\<close>

text \<open>
  The health check as a thread of its own: \<open>Probing\<close> holds the clusters of the snapshot that
  are still to be probed, \<open>Checking\<close> a cluster whose counter has just reached the threshold,
  \<open>Deregistering\<close> one whose host was found unchanged. Between any two of its steps the other
  methods of the service may run.
\<close>

datatype health_pc =
    Idle
  | Probing "(gostring, gostring) gomap"
  | Checking gostring gostring "(gostring, gostring) gomap"
  | Deregistering gostring "(gostring, gostring) gomap"

inductive tunnel_step ::
  "('r, 'k, 'p, 'c, 'q) pki_lib \<Rightarrow> 'v chisel_lib \<Rightarrow>
     ('v, 'k, 'c) Service \<times> (gostring, nat) gomap \<times> health_pc \<Rightarrow>
     ('v, 'k, 'c) Service \<times> (gostring, nat) gomap \<times> health_pc \<Rightarrow> bool"
  for L :: "('r, 'k, 'p, 'c, 'q) pki_lib" and C :: "'v chisel_lib" where
  step_register: "RegisterCluster L C now (s, r) cl a v q = (res, s', r') \<Longrightarrow>
     tunnel_step L C (s, fc, pc) (s', fc, pc)"
| step_deregister: "tunnel_step L C (s, fc, pc) (DeregisterCluster C cl s, fc, pc)"
| step_store: "tunnel_step L C (s, fc, pc) (ServerRef_Store v s, fc, pc)"
| step_tick: "tunnel_step L C (s, fc, Idle)
     (s, clean_counts (clusterSnapshot s) fc, Probing (clusterSnapshot s))"
| step_ok: "tunnel_step L C (s, fc, Probing ((cl, h) # rest)) (s, gdel cl fc, Probing rest)"
| step_cancelled: "tunnel_step L C (s, fc, Probing ((cl, h) # rest)) (s, fc, Idle)"
| step_fail: "fail_count fc cl + 1 < healthFailThreshold \<Longrightarrow>
     tunnel_step L C (s, fc, Probing ((cl, h) # rest)) (s, gput cl (fail_count fc cl + 1) fc, Probing rest)"
| step_limit: "healthFailThreshold \<le> fail_count fc cl + 1 \<Longrightarrow>
     tunnel_step L C (s, fc, Probing ((cl, h) # rest)) (s, gput cl (fail_count fc cl + 1) fc, Checking cl h rest)"
| step_changed: "\<not> host_unchanged s cl h \<Longrightarrow>
     tunnel_step L C (s, fc, Checking cl h rest) (s, gdel cl fc, Probing rest)"
| step_unchanged: "host_unchanged s cl h \<Longrightarrow>
     tunnel_step L C (s, fc, Checking cl h rest) (s, fc, Deregistering cl rest)"
| step_drop: "tunnel_step L C (s, fc, Deregistering cl rest) (DeregisterCluster C cl s, gdel cl fc, Probing rest)"
| step_done: "tunnel_step L C (s, fc, Probing []) (s, fc, Idle)"

lemma tunnel_step_inv:
  "tunnel_step L C st st' \<Longrightarrow> service_inv (fst st) \<Longrightarrow> service_inv (fst st')"
  by (induction rule: tunnel_step.induct)
     (auto simp: DeregisterCluster_inv service_inv_store dest: RegisterCluster_inv)

lemma tunnel_steps_inv:
  "(tunnel_step L C)\<^sup>*\<^sup>* st st' \<Longrightarrow> service_inv (fst st) \<Longrightarrow> service_inv (fst st')"
  by (induction rule: rtranclp_induct) (auto dest: tunnel_step_inv)

text \<open>A round of the function is a run of the thread in which nothing else happens.\<close>

lemma check_loop_steps:
  assumes "check_loop C dial cancelled snap s fc = (s', fc')"
  shows "(tunnel_step L C)\<^sup>*\<^sup>* (s, fc, Probing snap) (s', fc', Idle)"
  using assms
proof (induction C dial cancelled snap s fc rule: check_loop.induct)
  case (1 C dial cancelled s fc)
  then show ?case using step_done by fastforce
next
  case (2 C dial cancelled cluster host rest s fc)
  let ?n = "fail_count fc cluster + 1"
  let ?fc1 = "gput cluster ?n fc"
  have limit: "(tunnel_step L C)\<^sup>*\<^sup>* (s, fc, Probing ((cluster, host) # rest))
      (if host_unchanged s cluster host then DeregisterCluster C cluster s else s, gdel cluster ?fc1, Probing rest)"
    if "healthFailThreshold \<le> ?n"
  proof (cases "host_unchanged s cluster host")
    case True
    then show ?thesis
      using step_limit [OF that, of L C s host rest] step_unchanged [OF True, of L C ?fc1 rest] step_drop [of L C s ?fc1 cluster rest]
      by (simp add: converse_rtranclp_into_rtranclp)
  next
    case False
    then show ?thesis
      using step_limit [OF that, of L C s host rest] step_changed [OF False, of L C ?fc1 rest]
      by (simp add: converse_rtranclp_into_rtranclp)
  qed
  consider "dial (endpoint_of host)" | "\<not> dial (endpoint_of host)" "cancelled cluster"
    | "\<not> dial (endpoint_of host)" "\<not> cancelled cluster" "healthFailThreshold \<le> ?n"
    | "\<not> dial (endpoint_of host)" "\<not> cancelled cluster" "?n < healthFailThreshold" by linarith
  then show ?case
  proof cases
    case 1
    then show ?thesis
      using "2.IH"(1) "2.prems" step_ok [of L C s fc cluster host rest] by (simp add: converse_rtranclp_into_rtranclp)
  next
    case 2
    then show ?thesis using "2.prems" step_cancelled by fastforce
  next
    case 3
    then show ?thesis using "2.IH"(2) [OF 3(1,2) refl] "2.prems" limit by (simp add: Let_def)
  next
    case 4
    then show ?thesis
      using "2.IH"(3) [OF 4(1,2) refl] "2.prems" step_fail [of fc cluster L C s host rest]
      by (simp add: Let_def converse_rtranclp_into_rtranclp)
  qed
qed

lemma reregister_endpoint:
  assumes "RegisterCluster L C now (s, r) c a v q = (Inr (ep, cert), s1, r1)"
    and "RegisterCluster L C now' (s1, r1') c a' v' q' = (Inr (ep', cert'), s2, r2)"
  shows "ep' = ep"
proof -
  obtain srv host a2 where one: "allocate (addrs (release_prev C c srv s)) c = Inr (host, a2)"
      "ep = endpoint_of host" "addrs s1 = a2" "\<exists>e. gget (clusters s1) c = Some e \<and> Host e = host"
    using assms(1) by (auto elim!: RegisterCluster_cases register_locked_cases)
  obtain srv' host' a2' where two: "allocate (addrs (release_prev C c srv' s1)) c = Inr (host', a2')"
      "ep' = endpoint_of host'"
    using assms(2) by (auto elim!: RegisterCluster_cases register_locked_cases)
  have "addrs (release_prev C c srv' s1) = release a2 host"
    using one by (auto simp: release_prev_def)
  then show ?thesis using two one allocate_again [OF one(1)] by simp
qed

section \<open>Properties\<close>

text \<open>
  Two agents that register for different clusters, one after the other, are both
  reachable afterwards: each cluster resolves to the endpoint its agent was given, and the two
  endpoints differ. Any cluster other than the two resolves as before.
\<close>

theorem register_two_clusters:
  assumes "service_inv s" and "c1 \<noteq> c2"
    and "RegisterCluster L C now1 (s, r) c1 a1 v1 q1 = (Inr (ep1, cert1), s1, r1)"
    and "RegisterCluster L C now2 (s1, r1) c2 a2 v2 q2 = (Inr (ep2, cert2), s2, r2)"
  shows "ResolveAddress s2 c1 = Inr (''http://'' @ ep1) \<and> ResolveAddress s2 c2 = Inr (''http://'' @ ep2) \<and>
         ep1 \<noteq> ep2 \<and> (\<forall>c. c \<noteq> c1 \<and> c \<noteq> c2 \<longrightarrow> ResolveAddress s2 c = ResolveAddress s c)"
proof -
  have s1: "service_inv s1" using RegisterCluster_inv [OF assms(1,3)] .
  have s2: "service_inv s2" using RegisterCluster_inv [OF s1 assms(4)] .
  have r1: "ResolveAddress s2 c1 = Inr (''http://'' @ ep1)"
    using chisel.register_frame [of "(s1, r1)" c1 c2 L C now2 a2 v2 q2]
      chisel.register_resolve [of "(s, r)" L C now1 c1 a1 v1 q1 ep1 cert1 "(s1, r1)"] assms s1 by simp
  have r2: "ResolveAddress s2 c2 = Inr (''http://'' @ ep2)"
    using chisel.register_resolve [of "(s1, r1)" L C now2 c2 a2 v2 q2 ep2 cert2 "(s2, r2)"] assms s1 by simp
  have "ep1 \<noteq> ep2"
    using chisel.resolve_inj [of "(s2, r2)" c1 "''http://'' @ ep1" c2] s2 r1 r2 assms(2) by auto
  moreover have "ResolveAddress s2 c = ResolveAddress s c" if "c \<noteq> c1" "c \<noteq> c2" for c
    using RegisterCluster_frame [OF assms(3) that(1)] RegisterCluster_frame [OF assms(4) that(2)]
    by (simp add: ResolveAddress_def)
  ultimately show ?thesis using r1 r2 by blast
qed

text \<open>What the invariant says of the hosts and of the resolution.\<close>

lemma service_inv_hosts:
  assumes "service_inv s"
  shows "gkeys (usedHosts (addrs s)) = {h. \<exists>c e. gget (clusters s) c = Some e \<and> Host e = h}"
    "\<forall>c c' u. ResolveAddress s c = Inr u \<and> ResolveAddress s c' = Inr u \<longrightarrow> c = c'"
proof -
  have "gkeys (usedHosts (addrs s)) = Collect (host_used (clusters s))" using assms by (simp add: service_inv_def)
  then show "gkeys (usedHosts (addrs s)) = {h. \<exists>c e. gget (clusters s) c = Some e \<and> Host e = h}" unfolding host_used_def by blast
  show "\<forall>c c' u. ResolveAddress s c = Inr u \<and> ResolveAddress s c' = Inr u \<longrightarrow> c = c'"
    using chisel.resolve_inj [of "(s, ())"] assms by auto
qed

text \<open>
  In every state the service can reach, under any interleaving of registrations,
  deregistrations, server restarts and the steps of the health check: the allocator's hosts in
  use are exactly the hosts of the registered clusters (no host leaks), no two clusters share a
  host, and so two clusters never resolve to the same URL.
\<close>

theorem tunnel_reachable_inv:
  assumes "(tunnel_step L C)\<^sup>*\<^sup>* (NewService ca, [], Idle) (s, fc, pc)"
  shows "gkeys (usedHosts (addrs s)) = {h. \<exists>c e. gget (clusters s) c = Some e \<and> Host e = h} \<and>
         (\<forall>c c' u. ResolveAddress s c = Inr u \<and> ResolveAddress s c' = Inr u \<longrightarrow> c = c')"
proof -
  have "service_inv s" using tunnel_steps_inv [OF assms] by (simp add: service_inv_new)
  from service_inv_hosts [OF this] show ?thesis by blast
qed

text \<open>
  Claim C32. The health check deregisters a cluster exactly when three probes in a row fail: over
  any sequence of rounds without cancellation, a registered cluster is gone at the end if some
  three consecutive rounds found its endpoint dead, and is still registered with its entry
  unchanged otherwise.
\<close>

theorem health_check_threshold:
  assumes "service_inv s" and "gget (clusters s) c = Some e"
    and "\<forall>(dial, cancelled) \<in> set rounds. \<forall>x. \<not> cancelled x"
  shows "gget (clusters (runHealthCheck C rounds s)) c =
           (if three_failures (map (\<lambda>(dial, _). dial (endpoint_of (Host e))) rounds) then None else Some e)"
  using run_rounds_threshold [OF assms(1,2) _ assms(3), of "[]" C] by (simp add: runHealthCheck_def)

text \<open>
  A cluster that registers twice in a row gets the same endpoint both times: the
  release of the old host makes it the first free candidate of the same hash again.
\<close>

theorem reregister_same_endpoint:
  assumes "RegisterCluster L C now (s, r) c a v q = (Inr (ep, cert), s1, r1)"
    and "RegisterCluster L C now' (s1, r1') c a' v' q' = (Inr (ep', cert'), s2, r2)"
  shows "ep' = ep"
  using reregister_endpoint [OF assms] .

text \<open>
  The host comparison before a deregistration does not protect a concurrent
  re-registration: while the health check holds a failed probe of a cluster, the agent
  re-registers successfully and is given the same endpoint, the comparison finds the host
  unchanged, and the registration that just succeeded is dropped.
\<close>

theorem health_check_drops_reregistration:
  assumes "service_inv s" and "gget (clusters s) c = Some e" and "fail_count fc c = 2"
    and "RegisterCluster L C now (s, r) c a v q = (Inr (endpoint_of (Host e), cert), s1, r1)"
  shows "\<exists>s2 fc2. (tunnel_step L C)\<^sup>*\<^sup>* (s, fc, Probing [(c, Host e)]) (s2, fc2, Idle) \<and>
           ResolveAddress s1 c = Inr (''http://'' @ endpoint_of (Host e)) \<and>
           ResolveAddress s2 c = Inl (ErrClusterNotFound c)"
proof -
  let ?fc = "gput c 3 fc"
  have s1: "service_inv s1" using RegisterCluster_inv [OF assms(1,4)] .
  obtain host where h: "gget (clusters s1) c = Some \<lparr>Host = host, User = a, AgentVersion = v\<rparr>"
      "endpoint_of (Host e) = endpoint_of host"
    by (rule RegisterCluster_entry [OF assms(4)])
  have "host_unchanged s1 c (Host e)" using h by (simp add: host_unchanged_def)
  then have "(tunnel_step L C)\<^sup>*\<^sup>* (s, fc, Probing [(c, Host e)]) (DeregisterCluster C c s1, gdel c ?fc, Idle)"
    using step_limit [of fc c L C s "Host e" "[]"] step_register [OF assms(4), of ?fc "Checking c (Host e) []"]
      step_unchanged [of s1 c "Host e" L C ?fc "[]"] step_drop [of L C s1 ?fc c "[]"]
      step_done [of L C "DeregisterCluster C c s1" "gdel c ?fc"] assms(3)
    by (simp add: healthFailThreshold_def numeral_3_eq_3 converse_rtranclp_into_rtranclp)
  moreover have "server s1 \<noteq> None" using s1 h(1) by (auto simp: service_inv_def)
  then have "ResolveAddress (DeregisterCluster C c s1) c = Inl (ErrClusterNotFound c)"
    by (simp add: ResolveAddress_def DeregisterCluster_self)
  moreover have "ResolveAddress s1 c = Inr (''http://'' @ endpoint_of (Host e))"
    using h by (simp add: ResolveAddress_endpoint)
  ultimately show ?thesis by blast
qed

text \<open>
  What the chisel server promises: \<open>users\<close> reads its user index, in which \<open>AddUser\<close> binds a
  name to a password and an address pattern (or leaves it alone when it fails) and
  \<open>DeleteUser\<close> removes a name.
\<close>

definition chisel_laws :: "'v chisel_lib \<Rightarrow> ('v \<Rightarrow> gostring \<Rightarrow> (gostring \<times> gostring) option) \<Rightarrow> bool" where
  "chisel_laws C users \<longleftrightarrow>
     (\<forall>v n p a v'. AddUser C v n p a = (Inr (), v') \<longrightarrow> users v' = (users v)(n \<mapsto> (p, a))) \<and>
     (\<forall>v n p a e v'. AddUser C v n p a = (Inl e, v') \<longrightarrow> users v' = users v) \<and>
     (\<forall>v n. users (DeleteUser C v n) = (users v)(n := None))"

lemma parseAuth_DeriveAuth:
  assumes "DeriveAuth L agentID certPEM = Inr auth" "CHR '':'' \<notin> set agentID"
  shows "\<exists>pass. parseAuth auth = (agentID, pass, True) \<and> auth = agentID @ '':'' @ pass"
  using DeriveAuth_shape [OF assms(1)] assms(2) by (auto simp: parseAuth_def cut_char_append)

text \<open>
  After a successful registration the chisel server knows the agent under the very
  credentials the agent computes for itself from the certificate it is sent, and restricts it
  to the address pattern of the endpoint it is told to use.
\<close>

theorem registered_agent_can_log_in:
  assumes "chisel_laws C users" and "CHR '':'' \<notin> set agentID"
    and "RegisterCluster L C now (s, r) cluster agentID ver csrPEM = (Inr (ep, cert), s', r')"
  shows "\<exists>srv pass host. server s' = Some srv \<and> users srv agentID = Some (pass, allowed_pattern host) \<and>
           ep = endpoint_of host \<and> DeriveAuth L agentID cert = Inr (agentID @ '':'' @ pass)"
  using assms(3)
proof (cases rule: RegisterCluster_cases)
  case (locked srv certPEM auth u pass)
  from parseAuth_DeriveAuth [OF locked(3) assms(2)] have auth: "auth = agentID @ '':'' @ pass"
    using locked(4) by auto
  from locked(5) show ?thesis
  proof (cases rule: register_locked_cases)
    case (registered host a2 srv2)
    then have "users srv2 agentID = Some (pass, allowed_pattern host)"
      using assms(1) by (auto simp: chisel_laws_def)
    then show ?thesis using registered locked(3) auth by auto
  qed simp_all
qed simp

text \<open>
  Users of the chisel server are keyed by agent ID and not by cluster: when two
  clusters are registered by agents with the same ID, deregistering one deletes the user of the
  other, which stays registered and resolvable but can no longer log in.
\<close>

theorem shared_agent_id_loses_user:
  assumes "chisel_laws C users" and "service_inv s" and "c1 \<noteq> c2"
    and "gget (clusters s) c1 = Some e1" and "gget (clusters s) c2 = Some e2" and "User e1 = User e2"
  shows "\<exists>srv. server (DeregisterCluster C c1 s) = Some srv \<and> users srv (User e2) = None \<and>
           ResolveAddress (DeregisterCluster C c1 s) c2 = Inr (''http://'' @ endpoint_of (Host e2))"
proof -
  obtain v where "server s = Some v" using assms(2,4) by (auto simp: service_inv_def)
  then show ?thesis
    using assms by (auto simp: DeregisterCluster_def ResolveAddress_endpoint chisel_laws_def)
qed

section \<open>Witnesses\<close>

definition demo_chisel :: "(gostring, gostring \<times> gostring) gomap chisel_lib" where
  "demo_chisel = \<lparr>AddUser = (\<lambda>v n p a. (Inr (), gput n (p, a) v)), DeleteUser = (\<lambda>v n. gdel n v)\<rparr>"

lemma demo_AddUser: "AddUser demo_chisel v n p a = (Inr (), gput n (p, a) v)"
  by (simp add: demo_chisel_def)

lemma demo_chisel_laws: "chisel_laws demo_chisel gget"
  by (simp add: chisel_laws_def demo_chisel_def)

definition demo_csr :: bytes where
  "demo_csr = pem_encode demo_lib ''CERTIFICATE REQUEST'' ''9''"

definition demo_service :: "((gostring, gostring \<times> gostring) gomap, nat, bool \<times> nat) Service" where
  "demo_service = ServerRef_Store [] (NewService \<lparr>ca_cert = (True, 5), ca_key = 5, ca_certPEM = []\<rparr>)"

lemma demo_service_inv: "service_inv demo_service"
  by (simp add: demo_service_def service_inv_store service_inv_new)

lemma glen_release_le: "glen (usedHosts (release a h)) \<le> glen (usedHosts a)"
  using length_delete_le [of h "usedHosts a"] by (simp add: glen_def gdel_def)

lemma glen_release_prev_le:
  "glen (usedHosts (addrs (release_prev C c srv s))) \<le> glen (usedHosts (addrs s))"
  by (auto simp: release_prev_def glen_release_le simp del: usedHosts_release split: option.splits)

lemma demo_sign: "\<exists>der r'. SignCSR demo_lib ca now demo_csr r = (Inr (pem_encode demo_lib ''CERTIFICATE'' der), r')"
proof -
  have "parse_request demo_lib ''9'' = Inr (atoi_digits ''9'')" "request_signature demo_lib q = Inr ()"
    "randomSerial demo_lib r = (Inr (r mod 2 ^ 128), Suc r)"
    "create_certificate demo_lib r1 t par pub k =
       (Inr ((if BasicConstraintsValid t \<and> IsCA t then CHR ''c'' else CHR ''l'') # itoa pub), Suc r1)" for r1 t par pub k q
    by (simp_all add: demo_lib_def randomSerial_def)
  then show ?thesis unfolding SignCSR_def demo_csr_def by auto
qed

lemma demo_register:
  fixes s :: "((gostring, gostring \<times> gostring) gomap, nat, bool \<times> nat) Service"
  assumes "service_inv s" "server s \<noteq> None" "glen (usedHosts (addrs s)) < 14830536"
  shows "\<exists>ep cert s1 r1. RegisterCluster demo_lib demo_chisel now (s, r) c a v demo_csr = (Inr (ep, cert), s1, r1) \<and>
           server s1 \<noteq> None \<and> glen (usedHosts (addrs s1)) \<le> Suc (glen (usedHosts (addrs s)))"
proof -
  obtain srv where srv: "server s = Some srv" using assms(2) by blast
  obtain der r' where sign: "SignCSR demo_lib (service_ca s) now demo_csr r = (Inr (pem_encode demo_lib ''CERTIFICATE'' der), r')"
    using demo_sign by blast
  obtain auth where auth: "DeriveAuth demo_lib a (pem_encode demo_lib ''CERTIFICATE'' der) = Inr auth" "CHR '':'' \<in> set auth"
    by (simp add: DeriveAuth_def)
  then obtain u pass where pa: "parseAuth auth = (u, pass, True)"
    by (metis (full_types) cut_char_False parseAuth_def surj_pair)
  let ?s1 = "release_prev demo_chisel c srv s"
  have inv1: "service_inv ?s1" using release_prev_inv assms(1) srv .
  then obtain h a2 where al: "allocate (addrs ?s1) c = Inr (h, a2)"
    using allocate_ok [of "addrs ?s1" c] glen_release_prev_le [of demo_chisel c srv s] assms(3)
    by (auto simp: service_inv_def)
  have "glen (usedHosts a2) \<le> Suc (glen (usedHosts (addrs s)))"
    using allocate_Inr [OF al] glen_release_prev_le [of demo_chisel c srv s] inv1
    by (auto simp: service_inv_def alloc_inv_def glen_gput)
  then show ?thesis
    by (simp add: RegisterCluster_def sign auth(1) pa srv register_locked_def al demo_AddUser Let_def)
qed

lemma demo_used: "glen (usedHosts (addrs demo_service)) = 0" "server demo_service \<noteq> None"
  by (simp_all add: demo_service_def ServerRef_Store_def NewService_def newAddressAllocator_def)

lemma demo_register_first:
  obtains ep cert s1 r1 where
    "RegisterCluster demo_lib demo_chisel 0 (demo_service, 0) ''prod'' ''agent'' ''v1'' demo_csr = (Inr (ep, cert), s1, r1)"
    "service_inv s1" "server s1 \<noteq> None" "glen (usedHosts (addrs s1)) \<le> 1"
proof -
  obtain ep cert s1 r1 where *:
      "RegisterCluster demo_lib demo_chisel 0 (demo_service, 0) ''prod'' ''agent'' ''v1'' demo_csr = (Inr (ep, cert), s1, r1)"
      "server s1 \<noteq> None" "glen (usedHosts (addrs s1)) \<le> Suc (glen (usedHosts (addrs demo_service)))"
    using demo_register [OF demo_service_inv, of 0 0 "''prod''" "''agent''" "''v1''"] demo_used by auto
  show ?thesis
    using that [OF *(1) RegisterCluster_inv [OF demo_service_inv *(1)] *(2)] *(3) demo_used(1) by simp
qed

theorem register_two_clusters_witness:
  "\<exists>ep1 ep2 s2. ResolveAddress s2 ''prod'' = Inr (''http://'' @ ep1) \<and>
     ResolveAddress (s2 :: ((gostring, gostring \<times> gostring) gomap, nat, bool \<times> nat) Service) ''test'' = Inr (''http://'' @ ep2) \<and> ep1 \<noteq> ep2"
proof -
  obtain ep cert s1 r1 where one:
      "RegisterCluster demo_lib demo_chisel 0 (demo_service, 0) ''prod'' ''agent'' ''v1'' demo_csr = (Inr (ep, cert), s1, r1)"
      "service_inv s1" "server s1 \<noteq> None" "glen (usedHosts (addrs s1)) \<le> 1"
    by (rule demo_register_first)
  obtain ep2 cert2 s2 r2 where
      two: "RegisterCluster demo_lib demo_chisel 1 (s1, r1) ''test'' ''other'' ''v1'' demo_csr = (Inr (ep2, cert2), s2, r2)"
    using demo_register [OF one(2,3), of 1 r1 "''test''" "''other''" "''v1''"] one(4) by auto
  show ?thesis
    using register_two_clusters [OF demo_service_inv _ one(1) two] by auto
qed

theorem tunnel_reachable_inv_witness:
  "gkeys (usedHosts (addrs demo_service)) = {h. \<exists>c e. gget (clusters demo_service) c = Some e \<and> Host e = h}"
proof -
  have "(tunnel_step demo_lib demo_chisel)\<^sup>*\<^sup>* (NewService \<lparr>ca_cert = (True, 5), ca_key = 5, ca_certPEM = []\<rparr>, [], Idle) (demo_service, [], Idle)"
    unfolding demo_service_def by (rule r_into_rtranclp) (rule step_store)
  from tunnel_reachable_inv [OF this] show ?thesis by blast
qed

theorem health_check_threshold_witness:
  "\<exists>s e. gget (clusters (s :: ((gostring, gostring \<times> gostring) gomap, nat, bool \<times> nat) Service)) ''prod'' = Some e \<and>
     gget (clusters (runHealthCheck demo_chisel (replicate 2 (\<lambda>_. False, \<lambda>_. False)) s)) ''prod'' = Some e \<and>
     gget (clusters (runHealthCheck demo_chisel (replicate 3 (\<lambda>_. False, \<lambda>_. False)) s)) ''prod'' = None"
proof -
  obtain ep cert s1 r1 where one:
      "RegisterCluster demo_lib demo_chisel 0 (demo_service, 0) ''prod'' ''agent'' ''v1'' demo_csr = (Inr (ep, cert), s1, r1)"
      "service_inv s1"
    using demo_register_first by metis
  obtain host where "gget (clusters s1) ''prod'' = Some \<lparr>Host = host, User = ''agent'', AgentVersion = ''v1''\<rparr>"
    by (rule RegisterCluster_entry [OF one(1)])
  then show ?thesis
    using health_check_threshold [OF one(2), of "''prod''" _ "replicate 2 (\<lambda>_. False, \<lambda>_. False)" demo_chisel]
      health_check_threshold [OF one(2), of "''prod''" _ "replicate 3 (\<lambda>_. False, \<lambda>_. False)" demo_chisel]
    by (auto simp: numeral_2_eq_2 numeral_3_eq_3)
qed

theorem reregister_same_endpoint_witness:
  "\<exists>ep cert s1 r1 cert2 s2 r2.
     RegisterCluster demo_lib demo_chisel 0 (demo_service, 0) ''prod'' ''agent'' ''v1'' demo_csr = (Inr (ep, cert), s1, r1) \<and>
     RegisterCluster demo_lib demo_chisel 1 (s1, r1) ''prod'' ''agent'' ''v2'' demo_csr = (Inr (ep, cert2), s2, r2)"
proof -
  obtain ep cert s1 r1 where one:
      "RegisterCluster demo_lib demo_chisel 0 (demo_service, 0) ''prod'' ''agent'' ''v1'' demo_csr = (Inr (ep, cert), s1, r1)"
      "service_inv s1" "server s1 \<noteq> None" "glen (usedHosts (addrs s1)) \<le> 1"
    by (rule demo_register_first)
  obtain ep2 cert2 s2 r2 where
      two: "RegisterCluster demo_lib demo_chisel 1 (s1, r1) ''prod'' ''agent'' ''v2'' demo_csr = (Inr (ep2, cert2), s2, r2)"
    using demo_register [OF one(2,3), of 1 r1 "''prod''" "''agent''" "''v2''"] one(4) by auto
  show ?thesis using reregister_same_endpoint [OF one(1) two] one(1) two by blast
qed

theorem registered_agent_can_log_in_witness:
  "\<exists>srv pass host. gget (srv :: (gostring, gostring \<times> gostring) gomap) ''agent'' = Some (pass, allowed_pattern host)"
proof -
  obtain ep cert s1 r1 where one:
      "RegisterCluster demo_lib demo_chisel 0 (demo_service, 0) ''prod'' ''agent'' ''v1'' demo_csr = (Inr (ep, cert), s1, r1)"
    using demo_register_first by metis
  from registered_agent_can_log_in [OF demo_chisel_laws _ one] show ?thesis by auto
qed

lemma demo_registered_entry:
  obtains s1 e where "service_inv s1" "gget (clusters s1) ''prod'' = Some e" "User e = ''agent''"
    "server (s1 :: ((gostring, gostring \<times> gostring) gomap, nat, bool \<times> nat) Service) \<noteq> None"
    "glen (usedHosts (addrs s1)) \<le> 1"
    "\<exists>cert r1 s0 r. RegisterCluster demo_lib demo_chisel 0 (s0, r) ''prod'' ''agent'' ''v1'' demo_csr = (Inr (endpoint_of (Host e), cert), s1, r1)"
proof (rule demo_register_first)
  fix ep cert s1 r1
  assume *: "RegisterCluster demo_lib demo_chisel 0 (demo_service, 0) ''prod'' ''agent'' ''v1'' demo_csr = (Inr (ep, cert), s1, r1)"
    "service_inv s1" "server s1 \<noteq> None" "glen (usedHosts (addrs s1)) \<le> 1"
  obtain host where "gget (clusters s1) ''prod'' = Some \<lparr>Host = host, User = ''agent'', AgentVersion = ''v1''\<rparr>" "ep = endpoint_of host"
    by (rule RegisterCluster_entry [OF *(1)])
  then show thesis using that [OF *(2) _ _ *(3,4)] *(1) by auto
qed

theorem health_check_drops_reregistration_witness:
  "\<exists>s fc s2 fc2 h. (tunnel_step demo_lib demo_chisel)\<^sup>*\<^sup>* (s, fc, Probing [(''prod'', h)]) (s2, fc2, Idle) \<and>
     ResolveAddress s2 ''prod'' = Inl (ErrClusterNotFound ''prod'')"
proof -
  obtain s1 e where reg: "service_inv s1" "gget (clusters s1) ''prod'' = Some e" "User e = ''agent''" "server s1 \<noteq> None"
      "glen (usedHosts (addrs s1)) \<le> 1"
      "\<exists>cert r1 s0 r. RegisterCluster demo_lib demo_chisel 0 (s0, r) ''prod'' ''agent'' ''v1'' demo_csr = (Inr (endpoint_of (Host e), cert), s1, r1)"
    by (rule demo_registered_entry)
  obtain ep cert2 s2 r2 where
      two: "RegisterCluster demo_lib demo_chisel 1 (s1, 0) ''prod'' ''agent'' ''v2'' demo_csr = (Inr (ep, cert2), s2, r2)"
    using demo_register [OF reg(1,4), of 1 0 "''prod''" "''agent''" "''v2''"] reg(5) by auto
  then have ep: "ep = endpoint_of (Host e)" using reg(6) reregister_endpoint by metis
  have "fail_count [(''prod'', 2)] ''prod'' = 2" by (simp add: fail_count_def)
  from health_check_drops_reregistration [OF reg(1,2) this two [unfolded ep]] show ?thesis by blast
qed

theorem shared_agent_id_loses_user_witness:
  "\<exists>s srv u. server (DeregisterCluster demo_chisel ''prod'' s) = Some srv \<and> gget srv ''agent'' = None \<and>
     ResolveAddress (DeregisterCluster demo_chisel ''prod'' (s :: ((gostring, gostring \<times> gostring) gomap, nat, bool \<times> nat) Service)) ''test'' = Inr u"
proof -
  obtain s1 e where reg: "service_inv s1" "gget (clusters s1) ''prod'' = Some e" "User e = ''agent''" "server s1 \<noteq> None"
      "glen (usedHosts (addrs s1)) \<le> 1"
      "\<exists>cert r1 s0 r. RegisterCluster demo_lib demo_chisel 0 (s0, r) ''prod'' ''agent'' ''v1'' demo_csr = (Inr (endpoint_of (Host e), cert), s1, r1)"
    by (rule demo_registered_entry)
  obtain ep2 cert2 s2 r2 where
      two: "RegisterCluster demo_lib demo_chisel 1 (s1, 0) ''test'' ''agent'' ''v1'' demo_csr = (Inr (ep2, cert2), s2, r2)"
    using demo_register [OF reg(1,4), of 1 0 "''test''" "''agent''" "''v1''"] reg(5) by auto
  obtain host where "gget (clusters s2) ''test'' = Some \<lparr>Host = host, User = ''agent'', AgentVersion = ''v1''\<rparr>"
    by (rule RegisterCluster_entry [OF two])
  moreover have "gget (clusters s2) ''prod'' = Some e"
    using RegisterCluster_frame [OF two, of "''prod''"] reg(2) by simp
  ultimately show ?thesis
    using shared_agent_id_loses_user [OF demo_chisel_laws RegisterCluster_inv [OF reg(1) two], of "''prod''" "''test''"] reg(3)
    by fastforce
qed
end
