(* ===== verification/Registry.thy ===== *)
theory Registry
  imports Tunnel_Service
begin

text \<open>
  The abstract specification of the tunnel service: a registry of clusters in which no two entries
  have the same host. The service with its address allocator, its chisel users and its health
  check running in parallel refines it.
\<close>

section \<open>The specification\<close>

type_synonym registry = "gostring \<Rightarrow> Cluster option"

inductive registry_step :: "registry \<Rightarrow> registry \<Rightarrow> bool" where
  enrol: "\<lbrakk>\<And>c' e. c' \<noteq> c \<Longrightarrow> m c' = Some e \<Longrightarrow> Host e \<noteq> h\<rbrakk> \<Longrightarrow>
    registry_step m (m(c \<mapsto> \<lparr>Host = h, User = a, AgentVersion = v\<rparr>))"
| leave: "registry_step m (m(c := None))"

definition registry_resolve :: "registry \<Rightarrow> gostring \<Rightarrow> gostring res" where
  "registry_resolve m c =
     (case m c of None \<Rightarrow> Inl (ErrClusterNotFound c) | Some e \<Rightarrow> Inr (''http://'' @ endpoint_of (Host e)))"

section \<open>The refinement\<close>

definition registry_of :: "('v, 'k, 'c) Service \<Rightarrow> registry" where
  "registry_of s = gget (clusters s)"

lemma registry_of_simps [simp]:
  "registry_of (NewService ca) = Map.empty" "registry_of (ServerRef_Store v s) = registry_of s"
  by (auto simp: registry_of_def NewService_def ServerRef_Store_def)

lemma registry_of_release: "registry_of (release_prev C c srv s) = (registry_of s)(c := None)"
  by (auto simp: registry_of_def release_prev_def fun_eq_iff split: option.splits)

lemma registry_of_Deregister:
  "registry_of (DeregisterCluster C c s) = registry_of s \<or> registry_of (DeregisterCluster C c s) = (registry_of s)(c := None)"
  by (auto simp: registry_of_def DeregisterCluster_def split: option.splits)

lemma Resolve_refines: "ResolveAddress s = registry_resolve (registry_of s)"
  by (auto simp: fun_eq_iff ResolveAddress_def registry_resolve_def registry_of_def endpoint_of_def split: option.splits)

text \<open>A registration: on success the cluster is enrolled at the endpoint's host, on failure it stays
  or, when its old registration was already released, leaves.\<close>

lemma Register_refines:
  assumes "service_inv s" "RegisterCluster L C now (s, r) c a v q = (res, s', r')"
  shows "case res of
      Inr (ep, cert) \<Rightarrow> \<exists>h. ep = endpoint_of h \<and> registry_of s' = (registry_of s)(c \<mapsto> \<lparr>Host = h, User = a, AgentVersion = v\<rparr>) \<and>
        registry_step (registry_of s) (registry_of s')
    | Inl e \<Rightarrow> registry_of s' = registry_of s \<or> registry_of s' = (registry_of s)(c := None)"
  using assms(2)
proof (cases rule: RegisterCluster_cases)
  case (locked srv certPEM auth u pass)
  have inv: "service_inv s'" using RegisterCluster_inv [OF assms] .
  from locked(5) show ?thesis
  proof (cases rule: register_locked_cases)
    case (registered host a2 srv2)
    let ?e = "\<lparr>Host = host, User = a, AgentVersion = v\<rparr>"
    have "registry_of s' = (registry_of (release_prev C c srv s))(c \<mapsto> ?e)"
      using registered(4) by (simp add: registry_of_def)
    then have eq: "registry_of s' = (registry_of s)(c \<mapsto> ?e)" by (simp add: registry_of_release)
    have "Host e \<noteq> host" if "c' \<noteq> c" "registry_of s c' = Some e" for c' e
      using inv that eq by (auto simp: service_inv_def registry_of_def dest: hosts_uniqueD [of _ c' e c])
    then have "registry_step (registry_of s) (registry_of s')" unfolding eq by (rule enrol)
    then show ?thesis using registered(3) eq by auto
  qed (auto simp: registry_of_release registry_of_def [of "_\<lparr>server := _, addrs := _\<rparr>"] registry_of_def [symmetric])
qed simp

lemma tunnel_step_refines:
  assumes "tunnel_step L C st st'" "service_inv (fst st)"
  shows "registry_of (fst st') = registry_of (fst st) \<or> registry_step (registry_of (fst st)) (registry_of (fst st'))"
  using assms
proof (induction rule: tunnel_step.induct)
  case (step_register now s r cl a v q res s' r' fc pc)
  have L: "registry_step (registry_of s) ((registry_of s)(cl := None))" by (rule leave)
  show ?case
    using Register_refines [of s L C now r cl a v q res s' r'] step_register L by (cases res) (auto simp del: fun_upd_apply)
qed (use registry_of_Deregister registry_step.leave in \<open>fastforce+\<close>)

section \<open>Properties\<close>

text \<open>Claim C5. The tunnel service refines the registry: it starts as the empty registry; in every reachable state
  each further step of the service, under any interleaving of registrations, deregistrations,
  server restarts and the health check, changes the registry by an enrolment at a host no other
  cluster has, by a departure, or not at all; and address resolution and the listing read the
  registry.\<close>

theorem tunnel_refines_registry:
  assumes "(tunnel_step L C)\<^sup>*\<^sup>* (NewService ca, [], Idle) (s, fc, pc)"
  shows "registry_step\<^sup>*\<^sup>* Map.empty (registry_of s) \<and>
    (\<forall>s' fc' pc'. tunnel_step L C (s, fc, pc) (s', fc', pc') \<longrightarrow>
       registry_of s' = registry_of s \<or> registry_step (registry_of s) (registry_of s')) \<and>
    ResolveAddress s = registry_resolve (registry_of s) \<and> gget (ListClusters s) = registry_of s"
proof -
  have inv: "service_inv (fst st)" if "(tunnel_step L C)\<^sup>*\<^sup>* (NewService ca, [], Idle) st" for st
    using tunnel_steps_inv [OF that] by (simp add: service_inv_new)
  have "registry_step\<^sup>*\<^sup>* Map.empty (registry_of (fst st))" if "(tunnel_step L C)\<^sup>*\<^sup>* (NewService ca, [], Idle) st" for st
    using that
  proof (induction rule: rtranclp_induct)
    case (step st st')
    then show ?case using tunnel_step_refines [OF step(2) inv [OF step(1)]] by (metis rtranclp.rtrancl_into_rtrancl)
  qed simp
  then show ?thesis
    using assms inv [OF assms] tunnel_step_refines [of L C "(s, fc, pc)"] Resolve_refines [of s]
    by (fastforce simp: ListClusters_def registry_of_def)
qed

theorem tunnel_refines_registry_witness:
  "\<exists>s e. registry_step\<^sup>*\<^sup>* Map.empty (registry_of s) \<and> registry_of s ''prod'' = Some e \<and>
     ResolveAddress (s :: ((gostring, gostring \<times> gostring) gomap, nat, bool \<times> nat) Service) = registry_resolve (registry_of s)"
proof -
  obtain ca where ca: "demo_service = ServerRef_Store [] (NewService ca)" by (simp add: demo_service_def)
  obtain ep cert s1 r1 where reg:
      "RegisterCluster demo_lib demo_chisel 0 (demo_service, 0) ''prod'' ''agent'' ''v1'' demo_csr = (Inr (ep, cert), s1, r1)"
    by (rule demo_register_first)
  have "tunnel_step demo_lib demo_chisel (NewService ca, [], Idle) (demo_service, [], Idle)" unfolding ca by (rule step_store)
  moreover have "tunnel_step demo_lib demo_chisel (demo_service, [], Idle) (s1, [], Idle)" using reg by (rule step_register)
  ultimately have "(tunnel_step demo_lib demo_chisel)\<^sup>*\<^sup>* (NewService ca, [], Idle) (s1, [], Idle)"
    by (meson converse_rtranclp_into_rtranclp rtranclp.rtrancl_refl)
  note R = tunnel_refines_registry [OF this]
  obtain h where "registry_of s1 ''prod'' = Some \<lparr>Host = h, User = ''agent'', AgentVersion = ''v1''\<rparr>"
    using RegisterCluster_entry [OF reg] unfolding registry_of_def by blast
  then show ?thesis using R by blast
qed

end
