(* ===== verification/Step_Systems.thy ===== *)
theory Step_Systems
  imports Main
begin

text \<open>
  Runs of a labelled step relation, and the contract of a set of states that steps with permitted labels do not
  leave. With all labels permitted such a set is an invariant; with some labels excluded it is a
  trap, from which only an excluded step leads out.
\<close>

inductive run :: "('l \<Rightarrow> 's \<Rightarrow> 's \<Rightarrow> bool) \<Rightarrow> 's \<Rightarrow> 'l list \<Rightarrow> 's \<Rightarrow> bool" for step where
  nil: "run step s [] s"
| cons: "step l s s1 \<Longrightarrow> run step s1 ls s2 \<Longrightarrow> run step s (l # ls) s2"

inductive_cases run_consE: "run step s (l # ls) s'"

inductive_simps run_nil_iff [simp]: "run step s [] s'"

lemma run_append: "run step s ls s1 \<Longrightarrow> run step s1 ls' s2 \<Longrightarrow> run step s (ls @ ls') s2"
  by (induction rule: run.induct) (auto intro: run.intros)

lemma run_one: "step l s s' \<Longrightarrow> run step s [l] s'"
  by (rule run.cons [OF _ run.nil])

locale closed_set =
  fixes step :: "'l \<Rightarrow> 's \<Rightarrow> 's \<Rightarrow> bool" and permitted :: "'l \<Rightarrow> bool" and Q :: "'s \<Rightarrow> bool"
  assumes kept: "Q s \<Longrightarrow> step l s s' \<Longrightarrow> permitted l \<Longrightarrow> Q s'"
begin

lemma run_stays:
  assumes "run step s ls s'" "Q s" "list_all permitted ls"
  shows "Q s'"
  using assms by (induction rule: run.induct) (auto dest: kept)

lemma must_leave:
  assumes "run step s ls s'" "Q s" "\<not> Q s'"
  shows "\<exists>l \<in> set ls. \<not> permitted l"
  using run_stays [OF assms(1,2)] assms(3) by (auto simp: list_all_iff)

end

text \<open>Steps that a measure counts down: runs of them are bounded, and one leads to a state where none is possible.\<close>

locale counted_steps =
  fixes step :: "'l \<Rightarrow> 's \<Rightarrow> 's \<Rightarrow> bool" and counted :: "'l \<Rightarrow> bool" and work :: "'s \<Rightarrow> nat"
  assumes decreases: "step l s s' \<Longrightarrow> counted l \<Longrightarrow> work s' < work s"
begin

definition at_rest :: "'s \<Rightarrow> bool" where
  "at_rest s \<longleftrightarrow> (\<forall>l s'. counted l \<longrightarrow> \<not> step l s s')"

lemma run_bounded:
  assumes "run step s ls s'" "list_all counted ls"
  shows "length ls + work s' \<le> work s"
  using assms by (induction rule: run.induct) (auto dest: decreases)

lemma comes_to_rest: "\<exists>ls s'. run step s ls s' \<and> list_all counted ls \<and> at_rest s'"
proof (induction "work s" arbitrary: s rule: less_induct)
  case less
  show ?case
  proof (cases "at_rest s")
    case True
    then show ?thesis by (intro exI [of _ "[]"] exI [of _ s]) (simp add: run.nil)
  next
    case False
    then obtain l s1 where st: "counted l" "step l s s1" by (auto simp: at_rest_def)
    then obtain ls s' where "run step s1 ls s'" "list_all counted ls" "at_rest s'" using less [OF decreases] by blast
    then show ?thesis using st by (intro exI [of _ "l # ls"] exI [of _ s']) (simp add: run.cons)
  qed
qed

end

text \<open>A system that implements another: as long as its invariant holds, each of its steps is a step of the other
  system, with the label and the states seen through the abstraction.\<close>

locale simulation =
  fixes step :: "'l \<Rightarrow> 's \<Rightarrow> 's \<Rightarrow> bool" and inv :: "'s \<Rightarrow> bool"
    and spec :: "'k \<Rightarrow> 'a \<Rightarrow> 'a \<Rightarrow> bool" and label :: "'l \<Rightarrow> 'k" and abs :: "'s \<Rightarrow> 'a"
  assumes preserved: "step l s s' \<Longrightarrow> inv s \<Longrightarrow> inv s'"
    and simulated: "step l s s' \<Longrightarrow> inv s \<Longrightarrow> spec (label l) (abs s) (abs s')"
begin

lemma run_inv: "run step s ls s' \<Longrightarrow> inv s \<Longrightarrow> inv s'"
  by (induction rule: run.induct) (auto dest: preserved)

lemma run_simulated: "run step s ls s' \<Longrightarrow> inv s \<Longrightarrow> run spec (abs s) (map label ls) (abs s')"
  by (induction rule: run.induct) (auto intro: run.intros dest: preserved simulated)

end

end
