(* ===== verification/Effects.thy ===== *)
theory Effects
  imports Go_Errors
begin

text \<open>
  Operations with effects: a function from a world to a result and a new world, and the
  sequencing of the sources' \<^verbatim>\<open>x, err := f(); if err != nil { return err }\<close>. The predicate
  \<open>logs_only\<close> says which entries an operation may append to a log kept in the world; it is
  closed under sequencing, so a statement about every request an operation sends is proved
  call by call.
\<close>

type_synonym ('w, 'a) eff = "'w \<Rightarrow> 'a res \<times> 'w"

definition retE :: "'a \<Rightarrow> ('w, 'a) eff" where
  "retE x w = (Inr x, w)"

definition failE :: "go_error \<Rightarrow> ('w, 'a) eff" where
  "failE e w = (Inl e, w)"

definition liftE :: "'a res \<Rightarrow> ('w, 'a) eff" where
  "liftE r w = (r, w)"

definition bindE :: "('w, 'a) eff \<Rightarrow> ('a \<Rightarrow> ('w, 'b) eff) \<Rightarrow> ('w, 'b) eff" where
  "bindE m f w = (case m w of (Inl e, w') \<Rightarrow> (Inl e, w') | (Inr x, w') \<Rightarrow> f x w')"

text \<open>The error of an operation is replaced.\<close>

definition mapErrE :: "(go_error \<Rightarrow> go_error) \<Rightarrow> ('w, 'a) eff \<Rightarrow> ('w, 'a) eff" where
  "mapErrE g m w = (case m w of (Inl e, w') \<Rightarrow> (Inl (g e), w') | (Inr x, w') \<Rightarrow> (Inr x, w'))"

lemma bindE_InlD:
  "bindE m f w = (Inl e, w') \<Longrightarrow> m w = (Inl e, w') \<or> (\<exists>x w1. m w = (Inr x, w1) \<and> f x w1 = (Inl e, w'))"
  by (auto simp: bindE_def split: prod.splits sum.splits)

lemma bindE_InrD:
  "bindE m f w = (Inr y, w') \<Longrightarrow> \<exists>x w1. m w = (Inr x, w1) \<and> f x w1 = (Inr y, w')"
  by (auto simp: bindE_def split: prod.splits sum.splits)

lemma bindE_Inl [simp]: "m w = (Inl e, w') \<Longrightarrow> bindE m f w = (Inl e, w')"
  by (simp add: bindE_def)

lemma bindE_Inr [simp]: "m w = (Inr x, w') \<Longrightarrow> bindE m f w = f x w'"
  by (simp add: bindE_def)

lemma ret_fail_simps [simp]: "retE x w = (Inr x, w)" "failE e w = (Inl e, w)" "liftE r w = (r, w)"
  by (simp_all add: retE_def failE_def liftE_def)

lemma mapErrE_Inr [simp]: "mapErrE g m w = (Inr x, w') \<longleftrightarrow> m w = (Inr x, w')"
  by (auto simp: mapErrE_def split: prod.splits sum.splits)

lemma mapErrE_Inl: "mapErrE g m w = (Inl e, w') \<longleftrightarrow> (\<exists>e'. m w = (Inl e', w') \<and> e = g e')"
  by (auto simp: mapErrE_def split: prod.splits sum.splits)

lemma mapErrE_snd [simp]: "snd (mapErrE g m w) = snd (m w)"
  by (simp add: mapErrE_def split: prod.splits sum.splits)

section \<open>What an operation appends to a log\<close>

definition logs_only :: "('w \<Rightarrow> 'l list) \<Rightarrow> ('w \<Rightarrow> bool) \<Rightarrow> ('l \<Rightarrow> bool) \<Rightarrow> ('w, 'a) eff \<Rightarrow> bool" where
  "logs_only logf I P m \<longleftrightarrow>
     (\<forall>w. I w \<longrightarrow> I (snd (m w)) \<and> (\<exists>l. logf (snd (m w)) = logf w @ l \<and> (\<forall>x\<in>set l. P x)))"

lemma logs_onlyI:
  "(\<And>w. I w \<Longrightarrow> I (snd (m w)) \<and> (\<exists>l. logf (snd (m w)) = logf w @ l \<and> (\<forall>x\<in>set l. P x))) \<Longrightarrow> logs_only logf I P m"
  by (simp add: logs_only_def)

lemma logs_only_pure [intro, simp]: "logs_only logf I P (retE x)" "logs_only logf I P (failE e)" "logs_only logf I P (liftE r)"
  by (simp_all add: logs_only_def)

lemma logs_only_bindE [intro]:
  assumes "logs_only logf I P m" "\<And>x. logs_only logf I P (f x)"
  shows "logs_only logf I P (bindE m f)"
proof (rule logs_onlyI)
  fix w assume I: "I w"
  obtain r w1 where m: "m w = (r, w1)" by (metis surj_pair)
  from assms(1) I m obtain l1 where l1: "I w1" "logf w1 = logf w @ l1" "\<forall>x\<in>set l1. P x"
    unfolding logs_only_def by (metis snd_conv)
  show "I (snd (bindE m f w)) \<and> (\<exists>l. logf (snd (bindE m f w)) = logf w @ l \<and> (\<forall>x\<in>set l. P x))"
  proof (cases r)
    case (Inl e)
    then show ?thesis using l1 m by auto
  next
    case (Inr x)
    obtain l2 where "I (snd (f x w1))" "logf (snd (f x w1)) = logf w1 @ l2" "\<forall>x\<in>set l2. P x"
      using assms(2) [of x] l1(1) unfolding logs_only_def by blast
    then show ?thesis using Inr m l1 by (auto intro!: exI [of _ "l1 @ l2"])
  qed
qed

lemma logs_only_mapErrE [intro]: "logs_only logf I P m \<Longrightarrow> logs_only logf I P (mapErrE g m)"
  by (simp add: logs_only_def)

lemma logs_only_if [intro]:
  "(b \<Longrightarrow> logs_only logf I P m) \<Longrightarrow> (\<not> b \<Longrightarrow> logs_only logf I P m') \<Longrightarrow> logs_only logf I P (if b then m else m')"
  by simp

lemma logs_only_case_option [intro]:
  "logs_only logf I P m \<Longrightarrow> (\<And>x. logs_only logf I P (f x)) \<Longrightarrow> logs_only logf I P (case v of None \<Rightarrow> m | Some x \<Rightarrow> f x)"
  by (cases v) simp_all

lemma logs_onlyD:
  assumes "logs_only logf I P m" "I w" "m w = (r, w')"
  shows "I w'" "\<exists>l. logf w' = logf w @ l \<and> (\<forall>x\<in>set l. P x)"
  using assms unfolding logs_only_def by (metis snd_conv)+

end
