(* ===== verification/Sessions.thy ===== *)
theory Sessions
  imports Go_Errors
begin

text \<open>
  Interactive sessions: \<^verbatim>\<open>internal/core/session.go\<close>.

  The buffered channel of a size queue is the list of its elements. Sessions are shared by
  pointer, so they live in a heap from references to records; the record holds the state
  other goroutines see: the one-place buffer of the \<^verbatim>\<open>Done\<close> channel (\<^const>\<open>None\<close> when
  empty) and how often \<^verbatim>\<open>Cancel\<close> and \<^verbatim>\<open>Close\<close> were called. Both kinds of session
  satisfy one contract, the locale \<open>session_table\<close>, interpreted for each.
\<close>

section \<open>Terminal sizes\<close>

record TerminalSize =
  Width :: uint16
  Height :: uint16

record TerminalSizeQueue =
  ch :: "TerminalSize list"
  closed :: bool

definition queue_cap :: nat where
  "queue_cap = 4"

definition NewTerminalSizeQueue :: TerminalSizeQueue where
  "NewTerminalSizeQueue = \<lparr>ch = [], closed = False\<rparr>"

text \<open>A receive from the channel: it blocks on an open empty channel.\<close>

datatype next_result = Blocks | NextNil | NextSize TerminalSize

definition Next :: "TerminalSizeQueue \<Rightarrow> next_result \<times> TerminalSizeQueue" where
  "Next q = (case ch q of
     x # xs \<Rightarrow> (NextSize x, q\<lparr>ch := xs\<rparr>)
   | [] \<Rightarrow> if closed q then (NextNil, q) else (Blocks, q))"

text \<open>\<^verbatim>\<open>Set\<close> when no receiver runs in between: the drained element is the oldest one.\<close>

definition SetSize :: "TerminalSizeQueue \<Rightarrow> uint16 \<Rightarrow> uint16 \<Rightarrow> TerminalSizeQueue" where
  "SetSize q width height =
     (let size = \<lparr>Width = width, Height = height\<rparr> in
      if closed q then q
      else if length (ch q) < queue_cap then q\<lparr>ch := ch q @ [size]\<rparr>
      else q\<lparr>ch := tl (ch q) @ [size]\<rparr>)"

definition CloseQueue :: "TerminalSizeQueue \<Rightarrow> TerminalSizeQueue" where
  "CloseQueue q = (if closed q then q else q\<lparr>closed := True\<rparr>)"

section \<open>Sessions and their store\<close>

record ExecSession =
  exec_ID :: gostring
  exec_SizeQueue :: TerminalSizeQueue
  exec_Done :: "unit res option"
  exec_cancels :: nat
  exec_stdin_closes :: nat
  exec_stdin_writes :: "bytes list"
  exec_stdinR_closed :: bool
  exec_stdoutW_closed :: bool
  exec_stderrW_closed :: bool

record PortForwardSession =
  pf_ID :: gostring
  pf_Done :: "unit res option"
  pf_cancels :: nat
  pf_writer_closes :: nat
  pf_writes :: "bytes list"
  pf_dataInR_closed :: bool
  pf_dataOutW_closed :: bool

definition maxExecSessions :: nat where
  "maxExecSessions = 100"

definition maxPortForwardSessions :: nat where
  "maxPortForwardSessions = 100"

record SessionStore =
  execSess :: "(gostring, nat) gomap"
  pfSess :: "(gostring, nat) gomap"

record sessions_world =
  sess_store :: SessionStore
  exec_heap :: "(nat, ExecSession) gomap"
  pf_heap :: "(nat, PortForwardSession) gomap"

definition NewSessionStore :: SessionStore where
  "NewSessionStore = \<lparr>execSess = [], pfSess = []\<rparr>"

definition new_world :: sessions_world where
  "new_world = \<lparr>sess_store = NewSessionStore, exec_heap = [], pf_heap = []\<rparr>"

abbreviation exec_tab :: "sessions_world \<Rightarrow> (gostring, nat) gomap" where
  "exec_tab w \<equiv> execSess (sess_store w)"

abbreviation pf_tab :: "sessions_world \<Rightarrow> (gostring, nat) gomap" where
  "pf_tab w \<equiv> pfSess (sess_store w)"

definition set_exec_tab :: "(gostring, nat) gomap \<Rightarrow> sessions_world \<Rightarrow> sessions_world" where
  "set_exec_tab m w = w\<lparr>sess_store := (sess_store w)\<lparr>execSess := m\<rparr>\<rparr>"

definition set_pf_tab :: "(gostring, nat) gomap \<Rightarrow> sessions_world \<Rightarrow> sessions_world" where
  "set_pf_tab m w = w\<lparr>sess_store := (sess_store w)\<lparr>pfSess := m\<rparr>\<rparr>"

definition exec_id :: "sessions_world \<Rightarrow> nat \<Rightarrow> gostring" where
  "exec_id w r = (case gget (exec_heap w) r of None \<Rightarrow> [] | Some s \<Rightarrow> exec_ID s)"

definition pf_id :: "sessions_world \<Rightarrow> nat \<Rightarrow> gostring" where
  "pf_id w r = (case gget (pf_heap w) r of None \<Rightarrow> [] | Some s \<Rightarrow> pf_ID s)"

definition PutExec :: "sessions_world \<Rightarrow> nat \<Rightarrow> unit res \<times> sessions_world" where
  "PutExec w sess =
     (if glen (exec_tab w) \<ge> maxExecSessions
      then (Inl (DomainError ErrorCodeResourceExhausted
              (''max concurrent exec sessions ('' @ itoa maxExecSessions @ '') reached'') None), w)
      else (Inr (), set_exec_tab (gput (exec_id w sess) sess (exec_tab w)) w))"

definition GetExec :: "sessions_world \<Rightarrow> gostring \<Rightarrow> nat option" where
  "GetExec w i = gget (exec_tab w) i"

definition RemoveExec :: "sessions_world \<Rightarrow> gostring \<Rightarrow> nat option \<times> sessions_world" where
  "RemoveExec w i =
     (case gget (exec_tab w) i of
        None \<Rightarrow> (None, w)
      | Some sess \<Rightarrow> (Some sess, set_exec_tab (gdel i (exec_tab w)) w))"

definition PutPortForward :: "sessions_world \<Rightarrow> nat \<Rightarrow> unit res \<times> sessions_world" where
  "PutPortForward w sess =
     (if glen (pf_tab w) \<ge> maxPortForwardSessions
      then (Inl (DomainError ErrorCodeResourceExhausted
              (''max concurrent port-forward sessions ('' @ itoa maxPortForwardSessions @ '') reached'') None), w)
      else (Inr (), set_pf_tab (gput (pf_id w sess) sess (pf_tab w)) w))"

definition GetPortForward :: "sessions_world \<Rightarrow> gostring \<Rightarrow> nat option" where
  "GetPortForward w i = gget (pf_tab w) i"

definition RemovePortForward :: "sessions_world \<Rightarrow> gostring \<Rightarrow> nat option \<times> sessions_world" where
  "RemovePortForward w i =
     (case gget (pf_tab w) i of
        None \<Rightarrow> (None, w)
      | Some sess \<Rightarrow> (Some sess, set_pf_tab (gdel i (pf_tab w)) w))"

section \<open>Reaping\<close>

text \<open>
  The loops under the lock. A non-blocking receive from \<^verbatim>\<open>Done\<close> succeeds when its buffer is
  full, and empties it. The results are the entries kept, the sessions taken and the heap.
\<close>

definition exec_done :: "(nat, ExecSession) gomap \<Rightarrow> nat \<Rightarrow> bool" where
  "exec_done h r = (case gget h r of None \<Rightarrow> False | Some s \<Rightarrow> exec_Done s \<noteq> None)"

definition take_exec_done :: "nat \<Rightarrow> (nat, ExecSession) gomap \<Rightarrow> (nat, ExecSession) gomap" where
  "take_exec_done r h = (case gget h r of None \<Rightarrow> h | Some s \<Rightarrow> gput r (s\<lparr>exec_Done := None\<rparr>) h)"

fun reap_exec :: "(gostring, nat) gomap \<Rightarrow> (nat, ExecSession) gomap \<Rightarrow>
    (gostring, nat) gomap \<times> nat list \<times> (nat, ExecSession) gomap" where
  "reap_exec [] h = ([], [], h)"
| "reap_exec ((i, r) # m) h =
     (if exec_done h r
      then (let (kept, stale, h') = reap_exec m (take_exec_done r h) in (kept, r # stale, h'))
      else (let (kept, stale, h') = reap_exec m h in ((i, r) # kept, stale, h')))"

definition pf_done :: "(nat, PortForwardSession) gomap \<Rightarrow> nat \<Rightarrow> bool" where
  "pf_done h r = (case gget h r of None \<Rightarrow> False | Some s \<Rightarrow> pf_Done s \<noteq> None)"

definition take_pf_done :: "nat \<Rightarrow> (nat, PortForwardSession) gomap \<Rightarrow> (nat, PortForwardSession) gomap" where
  "take_pf_done r h = (case gget h r of None \<Rightarrow> h | Some s \<Rightarrow> gput r (s\<lparr>pf_Done := None\<rparr>) h)"

fun reap_pf :: "(gostring, nat) gomap \<Rightarrow> (nat, PortForwardSession) gomap \<Rightarrow>
    (gostring, nat) gomap \<times> nat list \<times> (nat, PortForwardSession) gomap" where
  "reap_pf [] h = ([], [], h)"
| "reap_pf ((i, r) # m) h =
     (if pf_done h r
      then (let (kept, stale, h') = reap_pf m (take_pf_done r h) in (kept, r # stale, h'))
      else (let (kept, stale, h') = reap_pf m h in ((i, r) # kept, stale, h')))"

text \<open>\<^verbatim>\<open>Cancel()\<close> and \<^verbatim>\<open>Close()\<close> of a claimed session.\<close>

definition exec_cancel_close :: "nat \<Rightarrow> sessions_world \<Rightarrow> sessions_world" where
  "exec_cancel_close r w =
     (case gget (exec_heap w) r of
        None \<Rightarrow> w
      | Some s \<Rightarrow> w\<lparr>exec_heap := gput r (s\<lparr>exec_cancels := Suc (exec_cancels s),
                                             exec_stdin_closes := Suc (exec_stdin_closes s)\<rparr>) (exec_heap w)\<rparr>)"

definition pf_cancel_close :: "nat \<Rightarrow> sessions_world \<Rightarrow> sessions_world" where
  "pf_cancel_close r w =
     (case gget (pf_heap w) r of
        None \<Rightarrow> w
      | Some s \<Rightarrow> w\<lparr>pf_heap := gput r (s\<lparr>pf_cancels := Suc (pf_cancels s),
                                           pf_writer_closes := Suc (pf_writer_closes s)\<rparr>) (pf_heap w)\<rparr>)"

text \<open>Phase 1 takes the stale sessions out of the store, phase 2 closes them.\<close>

definition reap_phase1 :: "sessions_world \<Rightarrow> (nat list \<times> nat list) \<times> sessions_world" where
  "reap_phase1 w =
     (let (keptE, staleE, hE) = reap_exec (exec_tab w) (exec_heap w);
          (keptP, staleP, hP) = reap_pf (pf_tab w) (pf_heap w)
      in ((staleE, staleP),
          w\<lparr>sess_store := \<lparr>execSess = keptE, pfSess = keptP\<rparr>, exec_heap := hE, pf_heap := hP\<rparr>))"

definition reap_phase2 :: "nat list \<times> nat list \<Rightarrow> sessions_world \<Rightarrow> sessions_world" where
  "reap_phase2 stale w = fold pf_cancel_close (snd stale) (fold exec_cancel_close (fst stale) w)"

definition ReapStaleSessions :: "sessions_world \<Rightarrow> nat \<times> sessions_world" where
  "ReapStaleSessions w =
     (let (stale, w1) = reap_phase1 w
      in (length (fst stale) + length (snd stale), reap_phase2 stale w1))"

section \<open>The contract of a session table\<close>

locale session_table =
  fixes tab :: "'w \<Rightarrow> (gostring, nat) gomap"
    and put :: "'w \<Rightarrow> nat \<Rightarrow> unit res \<times> 'w"
    and ident :: "'w \<Rightarrow> nat \<Rightarrow> gostring"
    and remove :: "'w \<Rightarrow> gostring \<Rightarrow> nat option \<times> 'w"
    and limit :: nat
  assumes put_free: "glen (tab w) < limit \<Longrightarrow> \<exists>w'. put w r = (Inr (), w') \<and> tab w' = gput (ident w r) r (tab w)"
    and put_full: "limit \<le> glen (tab w) \<Longrightarrow> \<exists>m. put w r = (Inl (DomainError ErrorCodeResourceExhausted m None), w)"
    and remove_fst: "fst (remove w i) = gget (tab w) i"
    and remove_tab: "tab (snd (remove w i)) = gdel i (tab w)"
begin

lemma put_bound:
  assumes "gwf (tab w)" "glen (tab w) \<le> limit" "put w r = (res, w')"
  shows "gwf (tab w') \<and> glen (tab w') \<le> limit"
proof (cases "glen (tab w) < limit")
  case True
  then have "tab w' = gput (ident w r) r (tab w)" using put_free [OF True, of r] assms(3) by auto
  then show ?thesis using assms(1) True gm.guarded_put_bound [of "tab w" limit "ident w r" r] by simp
next
  case False
  then show ?thesis using put_full [of w r] assms by auto
qed

lemma remove_bound:
  assumes "gwf (tab w)" "glen (tab w) \<le> limit"
  shows "gwf (tab (snd (remove w i))) \<and> glen (tab (snd (remove w i))) \<le> limit"
  using assms gm.del_bound [of "tab w" limit i] by (simp add: remove_tab)

lemma put_get: "put w r = (Inr (), w') \<Longrightarrow> gget (tab w') (ident w r) = Some r"
  using put_free [of w r] put_full [of w r] by (cases "glen (tab w) < limit") auto

text \<open>A session can be claimed once.\<close>

lemma remove_once: "fst (remove (snd (remove w i)) i) = None"
  by (simp add: remove_fst remove_tab)

lemma put_then_remove:
  assumes "put w r = (Inr (), w')"
  shows "fst (remove w' (ident w r)) = Some r"
  using put_get [OF assms] by (simp add: remove_fst)

end

lemma set_tab_simps [simp]:
  "exec_tab (set_exec_tab m w) = m" "pf_tab (set_exec_tab m w) = pf_tab w"
  "pf_tab (set_pf_tab m w) = m" "exec_tab (set_pf_tab m w) = exec_tab w"
  "exec_heap (set_exec_tab m w) = exec_heap w" "pf_heap (set_exec_tab m w) = pf_heap w"
  "exec_heap (set_pf_tab m w) = exec_heap w" "pf_heap (set_pf_tab m w) = pf_heap w"
  by (simp_all add: set_exec_tab_def set_pf_tab_def)

lemma gdel_absent: "gget m i = None \<Longrightarrow> gdel i m = m"
  by (induction m) (auto split: if_splits)

interpretation exec: session_table exec_tab PutExec exec_id RemoveExec maxExecSessions
  by unfold_locales (auto simp: PutExec_def RemoveExec_def gdel_absent split: option.splits)

interpretation pf: session_table pf_tab PutPortForward pf_id RemovePortForward maxPortForwardSessions
  by unfold_locales (auto simp: PutPortForward_def RemovePortForward_def gdel_absent split: option.splits)

section \<open>What reaping does\<close>

lemma exec_done_take: "exec_done (take_exec_done r h) r' \<longleftrightarrow> exec_done h r' \<and> r' \<noteq> r"
  by (auto simp: exec_done_def take_exec_done_def split: option.splits)

lemma pf_done_take: "pf_done (take_pf_done r h) r' \<longleftrightarrow> pf_done h r' \<and> r' \<noteq> r"
  by (auto simp: pf_done_def take_pf_done_def split: option.splits)

lemma reap_exec_tables:
  assumes "distinct (map snd m)" "reap_exec m h = (kept, stale, h')"
  shows "kept = filter (\<lambda>(i, r). \<not> exec_done h r) m \<and> stale = map snd (filter (\<lambda>(i, r). exec_done h r) m)"
  using assms
proof (induction m h arbitrary: kept stale h' rule: reap_exec.induct)
  case (2 i r m h)
  have other: "filter (\<lambda>(i, r'). exec_done (take_exec_done r h) r') m = filter (\<lambda>(i, r'). exec_done h r') m"
      "filter (\<lambda>(i, r'). \<not> exec_done (take_exec_done r h) r') m = filter (\<lambda>(i, r'). \<not> exec_done h r') m"
    using "2.prems"(1) by (auto intro!: filter_cong simp: exec_done_take) (metis image_eqI snd_conv)+
  show ?case
    using 2 by (auto simp: other split: if_splits prod.splits)
qed simp

lemma reap_pf_tables:
  assumes "distinct (map snd m)" "reap_pf m h = (kept, stale, h')"
  shows "kept = filter (\<lambda>(i, r). \<not> pf_done h r) m \<and> stale = map snd (filter (\<lambda>(i, r). pf_done h r) m)"
  using assms
proof (induction m h arbitrary: kept stale h' rule: reap_pf.induct)
  case (2 i r m h)
  have other: "filter (\<lambda>(i, r'). pf_done (take_pf_done r h) r') m = filter (\<lambda>(i, r'). pf_done h r') m"
      "filter (\<lambda>(i, r'). \<not> pf_done (take_pf_done r h) r') m = filter (\<lambda>(i, r'). \<not> pf_done h r') m"
    using "2.prems"(1) by (auto intro!: filter_cong simp: pf_done_take) (metis image_eqI snd_conv)+
  show ?case
    using 2 by (auto simp: other split: if_splits prod.splits)
qed simp

text \<open>The heap after reaping: the \<^verbatim>\<open>Done\<close> buffers of the sessions taken are empty.\<close>

lemma gget_take_exec_done:
  "gget (take_exec_done r h) x =
     (if x = r then map_option (\<lambda>s. s\<lparr>exec_Done := None\<rparr>) (gget h x) else gget h x)"
  by (auto simp: take_exec_done_def split: option.splits)

lemma reap_exec_heap:
  assumes "reap_exec m h = (kept, stale, h')"
  shows "gget h' x = (if x \<in> set stale then map_option (\<lambda>s. s\<lparr>exec_Done := None\<rparr>) (gget h x) else gget h x)"
  using assms
proof (induction m h arbitrary: kept stale h' rule: reap_exec.induct)
  case (2 i r m h)
  show ?case
  proof (cases "exec_done h r")
    case True
    then obtain stale' where "reap_exec m (take_exec_done r h) = (kept, stale', h')" "stale = r # stale'"
      using "2.prems" by (auto split: prod.splits)
    moreover have "gget h' x = (if x \<in> set stale' then map_option (\<lambda>s. s\<lparr>exec_Done := None\<rparr>) (gget (take_exec_done r h) x)
        else gget (take_exec_done r h) x)"
      using "2.IH"(1) [OF True] calculation(1) by blast
    ultimately show ?thesis by (auto simp: gget_take_exec_done option.map_comp comp_def)
  next
    case False
    then show ?thesis using 2 by (auto split: prod.splits)
  qed
qed simp

lemma gget_exec_cancel_close:
  "gget (exec_heap (exec_cancel_close r w)) x =
     (if x = r then map_option (\<lambda>s. s\<lparr>exec_cancels := Suc (exec_cancels s), exec_stdin_closes := Suc (exec_stdin_closes s)\<rparr>)
                      (gget (exec_heap w) x)
      else gget (exec_heap w) x)"
  by (auto simp: exec_cancel_close_def split: option.splits)

lemma cancel_close_frame [simp]:
  "exec_tab (exec_cancel_close r w) = exec_tab w" "pf_tab (exec_cancel_close r w) = pf_tab w"
  "pf_heap (exec_cancel_close r w) = pf_heap w"
  "exec_tab (pf_cancel_close r w) = exec_tab w" "pf_tab (pf_cancel_close r w) = pf_tab w"
  "exec_heap (pf_cancel_close r w) = exec_heap w"
  by (simp_all add: exec_cancel_close_def pf_cancel_close_def split: option.splits)

lemma fold_exec_cancel_close:
  assumes "distinct rs"
  shows "gget (exec_heap (fold exec_cancel_close rs w)) x =
     (if x \<in> set rs then map_option (\<lambda>s. s\<lparr>exec_cancels := Suc (exec_cancels s), exec_stdin_closes := Suc (exec_stdin_closes s)\<rparr>)
                            (gget (exec_heap w) x)
      else gget (exec_heap w) x)"
  using assms by (induction rs arbitrary: w) (auto simp: gget_exec_cancel_close)

lemma fold_cancel_close_frame [simp]:
  "exec_tab (fold exec_cancel_close rs w) = exec_tab w" "pf_tab (fold exec_cancel_close rs w) = pf_tab w"
  "pf_heap (fold exec_cancel_close rs w) = pf_heap w"
  "exec_tab (fold pf_cancel_close rs w) = exec_tab w" "pf_tab (fold pf_cancel_close rs w) = pf_tab w"
  "exec_heap (fold pf_cancel_close rs w) = exec_heap w"
  by (induction rs arbitrary: w) simp_all

lemma distinct_snd_filter: "distinct (map snd m) \<Longrightarrow> distinct (map snd (filter P m))"
  by (rule distinct_map_filter)

section \<open>The size queue\<close>

lemma SetSize_open:
  "\<not> closed q \<Longrightarrow> length (ch q) \<le> queue_cap \<Longrightarrow>
   SetSize q w h = q\<lparr>ch := drop (length (ch q) + 1 - queue_cap) (ch q @ [\<lparr>Width = w, Height = h\<rparr>])\<rparr>"
  by (cases "length (ch q) < queue_cap") (simp_all add: SetSize_def Let_def queue_cap_def drop_Suc tl_append split: list.splits)

lemma set_sizes:
  "foldl (\<lambda>q (w, h). SetSize q w h) NewTerminalSizeQueue sizes =
     \<lparr>ch = drop (length sizes - queue_cap) (map (\<lambda>(w, h). \<lparr>Width = w, Height = h\<rparr>) sizes), closed = False\<rparr>"
proof (induction sizes rule: rev_induct)
  case Nil
  then show ?case by (simp add: NewTerminalSizeQueue_def)
next
  case (snoc x sizes)
  obtain w h where x: "x = (w, h)" by (cases x)
  let ?ts = "map (\<lambda>(w, h). \<lparr>Width = w, Height = h\<rparr>) sizes"
  let ?q = "\<lparr>ch = drop (length sizes - queue_cap) ?ts, closed = False\<rparr>"
  have "SetSize ?q w h = \<lparr>ch = drop (length (ch ?q) + 1 - queue_cap) (ch ?q @ [\<lparr>Width = w, Height = h\<rparr>]), closed = False\<rparr>"
    by (subst SetSize_open) (auto simp: queue_cap_def)
  moreover have "drop (length (ch ?q) + 1 - queue_cap) (ch ?q @ [t]) = drop (length sizes + 1 - queue_cap) (?ts @ [t])" for t
  proof (cases "length sizes < queue_cap")
    case False
    then have "Suc (length sizes - 4) = length sizes - 3" by (simp add: queue_cap_def)
    then show ?thesis using False by (simp add: queue_cap_def)
  qed (simp add: queue_cap_def)
  ultimately show ?case using snoc x by simp
qed

text \<open>
  The queue under concurrency. One \<^verbatim>\<open>Set\<close> at a time holds the mutex; \<open>SendOrFull\<close> is the
  \<^verbatim>\<open>select\<close>, \<open>Draining\<close> and \<open>Pushing\<close> the two statements of its default branch. Receivers
  do not take the mutex.
\<close>

datatype set_pc = Unlocked | SendOrFull TerminalSize | Draining TerminalSize | Pushing TerminalSize

inductive queue_step :: "TerminalSizeQueue \<times> set_pc \<Rightarrow> TerminalSizeQueue \<times> set_pc \<Rightarrow> bool" where
  q_lock: "\<not> closed q \<Longrightarrow> queue_step (q, Unlocked) (q, SendOrFull x)"
| q_ignored: "closed q \<Longrightarrow> queue_step (q, Unlocked) (q, Unlocked)"
| q_send: "length (ch q) < queue_cap \<Longrightarrow> queue_step (q, SendOrFull x) (q\<lparr>ch := ch q @ [x]\<rparr>, Unlocked)"
| q_full: "queue_cap \<le> length (ch q) \<Longrightarrow> queue_step (q, SendOrFull x) (q, Draining x)"
| q_drain: "ch q = y # ys \<Longrightarrow> queue_step (q, Draining x) (q\<lparr>ch := ys\<rparr>, Pushing x)"
| q_push: "length (ch q) < queue_cap \<Longrightarrow> queue_step (q, Pushing x) (q\<lparr>ch := ch q @ [x]\<rparr>, Unlocked)"
| q_next: "ch q = y # ys \<Longrightarrow> queue_step (q, pc) (q\<lparr>ch := ys\<rparr>, pc)"
| q_close: "queue_step (q, Unlocked) (CloseQueue q, Unlocked)"

inductive_cases queue_stepE: "queue_step st st'"

definition queue_inv :: "TerminalSizeQueue \<times> set_pc \<Rightarrow> bool" where
  "queue_inv st \<longleftrightarrow>
     (case st of (q, pc) \<Rightarrow>
        length (ch q) \<le> queue_cap \<and> (closed q \<longrightarrow> pc = Unlocked) \<and>
        (\<forall>x. pc = Pushing x \<longrightarrow> length (ch q) < queue_cap))"

lemma queue_inv_step: "queue_step st st' \<Longrightarrow> queue_inv st \<Longrightarrow> queue_inv st'"
  by (induction rule: queue_step.induct) (auto simp: queue_inv_def CloseQueue_def)

text \<open>What the \<^verbatim>\<open>Set\<close> that holds the mutex does next, if it can go on.\<close>

fun set_next :: "TerminalSizeQueue \<times> set_pc \<Rightarrow> (TerminalSizeQueue \<times> set_pc) option" where
  "set_next (q, Unlocked) = None"
| "set_next (q, SendOrFull x) = (if length (ch q) < queue_cap then Some (q\<lparr>ch := ch q @ [x]\<rparr>, Unlocked) else Some (q, Draining x))"
| "set_next (q, Draining x) = (case ch q of [] \<Rightarrow> None | y # ys \<Rightarrow> Some (q\<lparr>ch := ys\<rparr>, Pushing x))"
| "set_next (q, Pushing x) = (if length (ch q) < queue_cap then Some (q\<lparr>ch := ch q @ [x]\<rparr>, Unlocked) else None)"

lemma set_next_step: "set_next st = Some st' \<Longrightarrow> queue_step st st'"
  by (induction st rule: set_next.induct) (auto intro: queue_step.intros split: if_splits list.splits)

lemma queue_inv_steps: "queue_step\<^sup>*\<^sup>* st st' \<Longrightarrow> queue_inv st \<Longrightarrow> queue_inv st'"
  by (induction rule: rtranclp_induct) (auto dest: queue_inv_step)

section \<open>Properties\<close>

text \<open>
  Resizing without a reader never blocks and keeps the most recent sizes: after any
  number of \<^verbatim>\<open>Set\<close> calls the queue holds exactly the last four sizes, in the order they were
  set, and after \<^verbatim>\<open>Close\<close> further calls change nothing.
\<close>

theorem SetSize_keeps_latest:
  "ch (foldl (\<lambda>q (w, h). SetSize q w h) NewTerminalSizeQueue sizes) =
     drop (length sizes - 4) (map (\<lambda>(w, h). \<lparr>Width = w, Height = h\<rparr>) sizes) \<and>
   SetSize (CloseQueue q) w h = CloseQueue q"
  unfolding set_sizes by (simp add: queue_cap_def SetSize_def CloseQueue_def Let_def)

text \<open>
  Claim C36. Under any interleaving of resizes, reads and closes, the channel never holds more
  than four sizes, no size is ever sent on the closed channel (which would panic), and the send
  after a drain never blocks.
\<close>

theorem queue_never_panics:
  assumes "queue_step\<^sup>*\<^sup>* (NewTerminalSizeQueue, Unlocked) (q, pc)"
  shows "length (ch q) \<le> 4 \<and>
         (case pc of
            SendOrFull x \<Rightarrow> \<not> closed q
          | Pushing x \<Rightarrow> \<not> closed q \<and> length (ch q) < 4
          | _ \<Rightarrow> True)"
  using queue_inv_steps [OF assms]
  by (auto simp: queue_inv_def NewTerminalSizeQueue_def queue_cap_def split: set_pc.splits)

lemma queue_fills:
  "n \<le> queue_cap \<Longrightarrow> queue_step\<^sup>*\<^sup>* (NewTerminalSizeQueue, Unlocked) (\<lparr>ch = replicate n x, closed = False\<rparr>, Unlocked)"
proof (induction n)
  case (Suc n)
  let ?q = "\<lambda>n. \<lparr>ch = replicate n x, closed = False\<rparr>"
  have "queue_step (?q n, Unlocked) (?q n, SendOrFull x)" by (rule q_lock) simp
  moreover have "queue_step (?q n, SendOrFull x) (?q (Suc n), Unlocked)"
    using q_send [of "?q n" x] Suc.prems by (simp add: replicate_append_same)
  ultimately show ?case using Suc by (meson Suc_leD rtranclp.rtrancl_into_rtrancl)
qed (simp add: NewTerminalSizeQueue_def)

lemma queue_drains:
  "queue_step\<^sup>*\<^sup>* (NewTerminalSizeQueue, Unlocked) (\<lparr>ch = replicate 4 x, closed = False\<rparr>, Draining x)"
proof -
  let ?q = "\<lparr>ch = replicate 4 x, closed = False\<rparr>"
  have "queue_step (?q, Unlocked) (?q, SendOrFull x)" by (rule q_lock) simp
  moreover have "queue_step (?q, SendOrFull x) (?q, Draining x)" by (rule q_full) (simp add: queue_cap_def)
  ultimately show ?thesis using queue_fills [of 4 x] by (simp add: queue_cap_def)
qed

text \<open>Four sizes fill the queue, and the fifth \<^verbatim>\<open>Set\<close> has drained the oldest and is about to send.\<close>

theorem queue_never_panics_witness:
  "\<exists>q x. queue_step\<^sup>*\<^sup>* (NewTerminalSizeQueue, Unlocked) (q, Pushing x) \<and> \<not> closed q \<and> length (ch q) < 4"
proof -
  let ?x = "\<lparr>Width = 80, Height = 24\<rparr>"
  let ?q = "\<lparr>ch = replicate 4 ?x, closed = False\<rparr>"
  have "queue_step (?q, Draining ?x) (?q\<lparr>ch := replicate 3 ?x\<rparr>, Pushing ?x)" by (rule q_drain) (simp add: numeral_eq_Suc)
  then have run: "queue_step\<^sup>*\<^sup>* (NewTerminalSizeQueue, Unlocked) (?q\<lparr>ch := replicate 3 ?x\<rparr>, Pushing ?x)"
    using queue_drains [of ?x] by (rule rtranclp.rtrancl_into_rtrancl [rotated])
  from queue_never_panics [OF run] run show ?thesis by auto
qed

text \<open>
  The drain of a full queue can deadlock it: if a reader empties the channel between
  the failed send and the receive, the setter waits on an empty channel while it holds the
  mutex, and no call of \<^verbatim>\<open>Set\<close>, \<^verbatim>\<open>Next\<close> or \<^verbatim>\<open>Close\<close> can make a step again.
\<close>

theorem queue_drain_deadlocks:
  "\<exists>q pc. queue_step\<^sup>*\<^sup>* (NewTerminalSizeQueue, Unlocked) (q, pc) \<and> pc \<noteq> Unlocked \<and>
     (\<forall>st. \<not> queue_step (q, pc) st)"
proof -
  let ?x = "\<lparr>Width = 80, Height = 24\<rparr>"
  let ?q = "\<lambda>n. \<lparr>ch = replicate n ?x, closed = False\<rparr>"
  have empty: "queue_step\<^sup>*\<^sup>* (?q n, Draining ?x) (?q 0, Draining ?x)" for n
  proof (induction n)
    case (Suc n)
    have "queue_step (?q (Suc n), Draining ?x) (?q n, Draining ?x)"
      using q_next [of "?q (Suc n)"] by simp
    then show ?case using Suc by (rule converse_rtranclp_into_rtranclp)
  qed simp
  have "queue_step\<^sup>*\<^sup>* (NewTerminalSizeQueue, Unlocked) (?q 0, Draining ?x)"
    using queue_drains [of ?x] empty [of 4] by (rule rtranclp_trans)
  moreover have "\<not> queue_step (?q 0, Draining ?x) st" for st
    by (auto elim: queue_stepE)
  ultimately show ?thesis by (metis set_pc.distinct(3))
qed

text \<open>
  Reaping removes exactly the sessions whose background goroutine has finished (a
  value waits in \<^verbatim>\<open>Done\<close>), returns their number, cancels and closes each of them once, and
  leaves every other session as it was.
\<close>

theorem reap_exact:
  assumes "distinct (map snd (exec_tab w))" and "distinct (map snd (pf_tab w))"
    and "ReapStaleSessions w = (n, w')"
  shows "exec_tab w' = filter (\<lambda>(i, r). \<not> exec_done (exec_heap w) r) (exec_tab w) \<and>
         pf_tab w' = filter (\<lambda>(i, r). \<not> pf_done (pf_heap w) r) (pf_tab w) \<and>
         n = length (filter (\<lambda>(i, r). exec_done (exec_heap w) r) (exec_tab w)) +
             length (filter (\<lambda>(i, r). pf_done (pf_heap w) r) (pf_tab w)) \<and>
         (\<forall>r s. gget (exec_heap w) r = Some s \<longrightarrow> gget (exec_heap w') r =
            Some (if exec_done (exec_heap w) r \<and> r \<in> snd ` set (exec_tab w)
                  then s\<lparr>exec_Done := None, exec_cancels := Suc (exec_cancels s),
                         exec_stdin_closes := Suc (exec_stdin_closes s)\<rparr>
                  else s))"
proof -
  obtain keptE staleE hE where E: "reap_exec (exec_tab w) (exec_heap w) = (keptE, staleE, hE)" by (metis prod_cases3)
  obtain keptP staleP hP where P: "reap_pf (pf_tab w) (pf_heap w) = (keptP, staleP, hP)" by (metis prod_cases3)
  have E': "keptE = filter (\<lambda>(i, r). \<not> exec_done (exec_heap w) r) (exec_tab w)"
      "staleE = map snd (filter (\<lambda>(i, r). exec_done (exec_heap w) r) (exec_tab w))"
    using reap_exec_tables [OF assms(1) E] by simp_all
  have P': "keptP = filter (\<lambda>(i, r). \<not> pf_done (pf_heap w) r) (pf_tab w)"
      "staleP = map snd (filter (\<lambda>(i, r). pf_done (pf_heap w) r) (pf_tab w))"
    using reap_pf_tables [OF assms(2) P] by simp_all
  have dist: "distinct staleE" using assms(1) by (simp add: E' distinct_snd_filter)
  have stale: "r \<in> set staleE \<longleftrightarrow> exec_done (exec_heap w) r \<and> r \<in> snd ` set (exec_tab w)" for r
    by (force simp: E')
  let ?w1 = "w\<lparr>sess_store := \<lparr>execSess = keptE, pfSess = keptP\<rparr>, exec_heap := hE, pf_heap := hP\<rparr>"
  have w': "w' = fold pf_cancel_close staleP (fold exec_cancel_close staleE ?w1)"
      "n = length staleE + length staleP"
    using assms(3) by (simp_all add: ReapStaleSessions_def reap_phase1_def reap_phase2_def E P)
  have "gget (exec_heap w') r = Some (if r \<in> set staleE then s\<lparr>exec_Done := None, exec_cancels := Suc (exec_cancels s),
      exec_stdin_closes := Suc (exec_stdin_closes s)\<rparr> else s)" if "gget (exec_heap w) r = Some s" for r s
    using that by (simp add: w' fold_exec_cancel_close [OF dist] reap_exec_heap [OF E])
  then show ?thesis using w' E' P' stale by simp
qed

definition demo_exec :: "gostring \<Rightarrow> unit res option \<Rightarrow> ExecSession" where
  "demo_exec i d = \<lparr>exec_ID = i, exec_SizeQueue = NewTerminalSizeQueue, exec_Done = d, exec_cancels = 0,
     exec_stdin_closes = 0, exec_stdin_writes = [], exec_stdinR_closed = False, exec_stdoutW_closed = False,
     exec_stderrW_closed = False\<rparr>"

definition demo_world :: sessions_world where
  "demo_world = \<lparr>sess_store = \<lparr>execSess = [(''a'', 0), (''b'', 1)], pfSess = []\<rparr>,
     exec_heap = [(0, demo_exec ''a'' (Some (Inr ()))), (1, demo_exec ''b'' None)], pf_heap = []\<rparr>"

theorem reap_exact_witness:
  "exec_tab (snd (ReapStaleSessions demo_world)) = [(''b'', 1)] \<and> fst (ReapStaleSessions demo_world) = 1"
proof -
  obtain n w' where run: "ReapStaleSessions demo_world = (n, w')" by (metis surj_pair)
  have "distinct (map snd (exec_tab demo_world))" "distinct (map snd (pf_tab demo_world))"
    by (simp_all add: demo_world_def)
  from reap_exact [OF this run] show ?thesis
    unfolding run by (simp add: demo_world_def exec_done_def demo_exec_def)
qed

datatype store_op = OpPutExec nat | OpPutPortForward nat | OpRemoveExec gostring | OpRemovePortForward gostring | OpReap

fun store_step :: "sessions_world \<Rightarrow> store_op \<Rightarrow> sessions_world" where
  "store_step w (OpPutExec r) = snd (PutExec w r)"
| "store_step w (OpPutPortForward r) = snd (PutPortForward w r)"
| "store_step w (OpRemoveExec i) = snd (RemoveExec w i)"
| "store_step w (OpRemovePortForward i) = snd (RemovePortForward w i)"
| "store_step w OpReap = snd (ReapStaleSessions w)"

definition store_bounded :: "sessions_world \<Rightarrow> bool" where
  "store_bounded w \<longleftrightarrow> gwf (exec_tab w) \<and> glen (exec_tab w) \<le> maxExecSessions \<and>
     gwf (pf_tab w) \<and> glen (pf_tab w) \<le> maxPortForwardSessions"

lemma put_frames:
  "pf_tab (snd (PutExec w r)) = pf_tab w" "exec_tab (snd (PutPortForward w r)) = exec_tab w"
  "pf_tab (snd (RemoveExec w i)) = pf_tab w" "exec_tab (snd (RemovePortForward w i)) = exec_tab w"
  by (simp_all add: PutExec_def PutPortForward_def RemoveExec_def RemovePortForward_def split: option.splits)

lemma reap_exec_kept:
  "reap_exec m h = (kept, stale, h') \<Longrightarrow> set kept \<subseteq> set m \<and> length kept \<le> length m \<and> (gwf m \<longrightarrow> gwf kept)"
proof (induction m h arbitrary: kept stale h' rule: reap_exec.induct)
  case (2 i r m h)
  then show ?case by (fastforce simp: gkeys_def split: if_splits prod.splits)
qed simp

lemma reap_pf_kept:
  "reap_pf m h = (kept, stale, h') \<Longrightarrow> set kept \<subseteq> set m \<and> length kept \<le> length m \<and> (gwf m \<longrightarrow> gwf kept)"
proof (induction m h arbitrary: kept stale h' rule: reap_pf.induct)
  case (2 i r m h)
  then show ?case by (fastforce simp: gkeys_def split: if_splits prod.splits)
qed simp

lemma reap_bounded:
  assumes "store_bounded w"
  shows "store_bounded (snd (ReapStaleSessions w))"
proof -
  obtain keptE staleE hE where E: "reap_exec (exec_tab w) (exec_heap w) = (keptE, staleE, hE)" by (metis prod_cases3)
  obtain keptP staleP hP where P: "reap_pf (pf_tab w) (pf_heap w) = (keptP, staleP, hP)" by (metis prod_cases3)
  show ?thesis
    using reap_exec_kept [OF E] reap_pf_kept [OF P] assms
    by (auto simp: store_bounded_def ReapStaleSessions_def reap_phase1_def reap_phase2_def E P glen_def)
qed

lemma store_step_bounded: "store_bounded w \<Longrightarrow> store_bounded (store_step w op)"
proof (cases op)
  case (OpPutExec r)
  assume "store_bounded w"
  then show ?thesis using OpPutExec exec.put_bound [of w r "fst (PutExec w r)" "snd (PutExec w r)"]
    by (simp add: store_bounded_def put_frames)
next
  case (OpPutPortForward r)
  assume "store_bounded w"
  then show ?thesis using OpPutPortForward pf.put_bound [of w r "fst (PutPortForward w r)" "snd (PutPortForward w r)"]
    by (simp add: store_bounded_def put_frames)
next
  case OpReap
  assume "store_bounded w"
  then show ?thesis using OpReap reap_bounded by simp
qed (auto simp: store_bounded_def put_frames exec.remove_bound pf.remove_bound)

text \<open>
  The stores stay bounded: whatever sequence of puts, removals and reaps is run from
  the empty store, never more than 100 sessions of either kind are held. A put into a full
  store is refused as exhausted and changes nothing.
\<close>

theorem store_never_exceeds_limit:
  "glen (exec_tab (foldl store_step new_world ops)) \<le> 100 \<and>
   glen (pf_tab (foldl store_step new_world ops)) \<le> 100 \<and>
   (if glen (exec_tab w) \<ge> 100
    then \<exists>m. PutExec w r = (Inl (DomainError ErrorCodeResourceExhausted m None), w)
    else \<exists>w'. PutExec w r = (Inr (), w') \<and> GetExec w' (exec_id w r) = Some r)"
proof -
  have "store_bounded (foldl store_step new_world ops)"
  proof (induction ops rule: rev_induct)
    case (snoc op ops)
    then show ?case using store_step_bounded by simp
  qed (simp add: store_bounded_def new_world_def NewSessionStore_def)
  then have "glen (exec_tab (foldl store_step new_world ops)) \<le> 100 \<and> glen (pf_tab (foldl store_step new_world ops)) \<le> 100"
    by (simp add: store_bounded_def maxExecSessions_def maxPortForwardSessions_def)
  moreover have "if glen (exec_tab w) \<ge> 100
      then \<exists>m. PutExec w r = (Inl (DomainError ErrorCodeResourceExhausted m None), w)
      else \<exists>w'. PutExec w r = (Inr (), w') \<and> GetExec w' (exec_id w r) = Some r"
    using exec.put_full [of w r] exec.put_free [of w r] exec.put_get [of w r]
    by (auto simp: maxExecSessions_def GetExec_def)
  ultimately show ?thesis by blast
qed
end
