(* ===== verification/Core_Types.thy ===== *)
theory Core_Types
  imports Effects Sessions
begin

text \<open>
  The domain types of \<^verbatim>\<open>internal/core\<close> (\<^verbatim>\<open>resource.go\<close>, \<^verbatim>\<open>runtime.go\<close>,
  \<^verbatim>\<open>watcher.go\<close>, \<^verbatim>\<open>user_info.go\<close>) and the interfaces the use cases are written against,
  \<^verbatim>\<open>DiscoveryClient\<close>, \<^verbatim>\<open>ResourceRepo\<close>, \<^verbatim>\<open>SchemaResolver\<close> and \<^verbatim>\<open>RuntimeRepo\<close>, as
  records of operations on a world.

  JSON objects (\<^verbatim>\<open>map[string]any\<close>) are association lists of \<open>json\<close> values. A stream (a log
  reader, a watch) is the list of what it delivers before it ends.
\<close>

section \<open>JSON values\<close>

datatype json =
    JNull
  | JBool bool
  | JInt int
  | JFloat gostring
  | JStr gostring
  | JArr "json list"
  | JObj "(gostring \<times> json) list"

type_synonym jobj = "(gostring, json) gomap"

section \<open>Domain types\<close>

record UserInfo =
  ui_Subject :: gostring
  ui_Groups :: "gostring list"

text \<open>A request context, as far as the adapters read it.\<close>

record go_context =
  ctx_user :: "UserInfo option"

definition WithUserInfo :: "go_context \<Rightarrow> UserInfo \<Rightarrow> go_context" where
  "WithUserInfo ctx u = ctx\<lparr>ctx_user := Some u\<rparr>"

definition UserInfoFromContext :: "go_context \<Rightarrow> UserInfo option" where
  "UserInfoFromContext ctx = ctx_user ctx"

record GroupVersionResource =
  gvr_Group :: gostring
  gvr_Version :: gostring
  gvr_Resource :: gostring

record ListOptions =
  lo_LabelSelector :: gostring
  lo_FieldSelector :: gostring
  lo_Limit :: int
  lo_Continue :: gostring

record ApplyOptions =
  ao_Force :: bool
  ao_FieldManager :: gostring

record DeleteOptions =
  do_GracePeriodSeconds :: "int option"

record WatchOptions =
  wo_LabelSelector :: gostring
  wo_FieldSelector :: gostring
  wo_ResourceVersion :: gostring
  wo_SendInitialEvents :: bool

record UnstructuredList =
  ul_Items :: "jobj list"
  ul_ResourceVersion :: gostring
  ul_Continue :: gostring
  ul_RemainingItemCount :: "int option"

definition empty_list :: UnstructuredList where
  "empty_list = \<lparr>ul_Items = [], ul_ResourceVersion = [], ul_Continue = [], ul_RemainingItemCount = None\<rparr>"

datatype WatchEventType = WatchEventAdded | WatchEventModified | WatchEventDeleted | WatchEventBookmark
  | WatchEventError | WatchEventOther gostring

record WatchEvent =
  we_Type :: WatchEventType
  we_Object :: "jobj option"

record PodLogOptions =
  pl_Container :: gostring
  pl_Follow :: bool
  pl_TailLines :: "int option"
  pl_SinceSeconds :: "int option"
  pl_SinceTime :: "int option"
  pl_Previous :: bool
  pl_Timestamps :: bool
  pl_LimitBytes :: "int option"

text \<open>The readers, writers and the size queue of an exec are represented by their presence.\<close>

record ExecOptions =
  eo_Container :: gostring
  eo_Command :: "gostring list"
  eo_TTY :: bool
  eo_Stdin :: bool
  eo_Stdout :: bool
  eo_Stderr :: bool
  eo_SizeQueue :: bool

record APIResource =
  ar_Name :: gostring
  ar_Kind :: gostring
  ar_Namespaced :: bool
  ar_Verbs :: "gostring list"
  ar_ShortNames :: "gostring list"

record APIResourceList =
  al_GroupVersion :: gostring
  al_APIResources :: "APIResource list"

section \<open>Interfaces of the use cases\<close>

record ('w, 'sc) DiscoveryClient =
  dc_LookupResource :: "go_context \<Rightarrow> gostring \<Rightarrow> gostring \<Rightarrow> gostring \<Rightarrow> gostring \<Rightarrow> ('w, GroupVersionResource) eff"
  dc_ServerResources :: "go_context \<Rightarrow> gostring \<Rightarrow> ('w, APIResourceList list) eff"
  dc_ResolveSchema :: "go_context \<Rightarrow> gostring \<Rightarrow> gostring \<Rightarrow> gostring \<Rightarrow> gostring \<Rightarrow> ('w, 'sc) eff"
  dc_ServerVersion :: "go_context \<Rightarrow> gostring \<Rightarrow> ('w, gostring) eff"
  dc_SupportsWatchList :: "go_context \<Rightarrow> gostring \<Rightarrow> ('w, bool) eff"

record 'w ResourceRepo =
  rr_List :: "go_context \<Rightarrow> gostring \<Rightarrow> GroupVersionResource \<Rightarrow> gostring \<Rightarrow> ListOptions \<Rightarrow> ('w, UnstructuredList) eff"
  rr_Get :: "go_context \<Rightarrow> gostring \<Rightarrow> GroupVersionResource \<Rightarrow> gostring \<Rightarrow> gostring \<Rightarrow> ('w, jobj) eff"
  rr_Create :: "go_context \<Rightarrow> gostring \<Rightarrow> GroupVersionResource \<Rightarrow> gostring \<Rightarrow> bytes \<Rightarrow> ('w, jobj) eff"
  rr_Apply :: "go_context \<Rightarrow> gostring \<Rightarrow> GroupVersionResource \<Rightarrow> gostring \<Rightarrow> gostring \<Rightarrow> bytes \<Rightarrow> ApplyOptions \<Rightarrow> ('w, jobj) eff"
  rr_Delete :: "go_context \<Rightarrow> gostring \<Rightarrow> GroupVersionResource \<Rightarrow> gostring \<Rightarrow> gostring \<Rightarrow> DeleteOptions \<Rightarrow> ('w, unit) eff"
  rr_Watch :: "go_context \<Rightarrow> gostring \<Rightarrow> GroupVersionResource \<Rightarrow> gostring \<Rightarrow> WatchOptions \<Rightarrow> ('w, WatchEvent list) eff"
  rr_ListEvents :: "go_context \<Rightarrow> gostring \<Rightarrow> gostring \<Rightarrow> ListOptions \<Rightarrow> ('w, UnstructuredList) eff"

text \<open>\<^verbatim>\<open>Exec\<close> and \<^verbatim>\<open>PortForward\<close> block for the life of a session and run in its goroutine;
  their results enter the sessions through the \<^verbatim>\<open>Done\<close> channel.\<close>

record 'w RuntimeRepo =
  rt_PodLogs :: "go_context \<Rightarrow> gostring \<Rightarrow> gostring \<Rightarrow> gostring \<Rightarrow> PodLogOptions \<Rightarrow> ('w, bytes list) eff"
  rt_GetScale :: "go_context \<Rightarrow> gostring \<Rightarrow> GroupVersionResource \<Rightarrow> gostring \<Rightarrow> gostring \<Rightarrow> ('w, 32 word) eff"
  rt_UpdateScale :: "go_context \<Rightarrow> gostring \<Rightarrow> GroupVersionResource \<Rightarrow> gostring \<Rightarrow> gostring \<Rightarrow> 32 word \<Rightarrow> ('w, 32 word) eff"
  rt_Restart :: "go_context \<Rightarrow> gostring \<Rightarrow> GroupVersionResource \<Rightarrow> gostring \<Rightarrow> gostring \<Rightarrow> ('w, unit) eff"

end
