(* ===== verification/Resources.thy ===== *)
theory Resources
  imports Core_Types
begin

text \<open>
  The resource use case: \<^verbatim>\<open>internal/core/resource.go\<close>. Every operation first validates the
  resource triple through the discovery client and then calls the repository.

  The locale \<open>cluster_backend\<close> states what the use case relies on: that a lookup returns the
  triple it was asked for, and that every call of the backend appends only permitted entries to
  a request log. It is proved inside the locale that the use-case operations do the same. The
  theory \<open>Kubernetes_Client\<close> interprets it.
\<close>

section \<open>Identifiers and the use case\<close>

record ResourceIdentifier =
  id_Cluster :: gostring
  id_Group :: gostring
  id_Version :: gostring
  id_Resource :: gostring
  id_Namespace :: gostring
  id_Name :: gostring

text \<open>The schema resolver is the operation of the interface \<^verbatim>\<open>SchemaResolver\<close>.\<close>

record ('w, 'sc) ResourceUseCase =
  uc_discovery :: "('w, 'sc) DiscoveryClient"
  uc_resource :: "'w ResourceRepo"
  uc_schemaResolver :: "go_context \<Rightarrow> gostring \<Rightarrow> gostring \<Rightarrow> gostring \<Rightarrow> gostring \<Rightarrow> ('w, 'sc) eff"

definition NewResourceUseCase ::
  "('w, 'sc) DiscoveryClient \<Rightarrow> 'w ResourceRepo \<Rightarrow>
     (go_context \<Rightarrow> gostring \<Rightarrow> gostring \<Rightarrow> gostring \<Rightarrow> gostring \<Rightarrow> ('w, 'sc) eff) \<Rightarrow> ('w, 'sc) ResourceUseCase" where
  "NewResourceUseCase d r s = \<lparr>uc_discovery = d, uc_resource = r, uc_schemaResolver = s\<rparr>"

definition lookupGVR :: "ResourceIdentifier \<Rightarrow> go_context \<Rightarrow> ('w, 'sc) DiscoveryClient \<Rightarrow> ('w, GroupVersionResource) eff" where
  "lookupGVR i ctx dc = dc_LookupResource dc ctx (id_Cluster i) (id_Group i) (id_Version i) (id_Resource i)"

definition uc_ServerResources :: "('w, 'sc) ResourceUseCase \<Rightarrow> go_context \<Rightarrow> gostring \<Rightarrow> ('w, APIResourceList list) eff" where
  "uc_ServerResources uc ctx cluster = dc_ServerResources (uc_discovery uc) ctx cluster"

definition uc_ResolveSchema ::
  "('w, 'sc) ResourceUseCase \<Rightarrow> go_context \<Rightarrow> gostring \<Rightarrow> gostring \<Rightarrow> gostring \<Rightarrow> gostring \<Rightarrow> ('w, 'sc) eff" where
  "uc_ResolveSchema uc ctx cluster grp version knd = uc_schemaResolver uc ctx cluster grp version knd"

definition ListResources ::
  "('w, 'sc) ResourceUseCase \<Rightarrow> go_context \<Rightarrow> ResourceIdentifier \<Rightarrow> ListOptions \<Rightarrow> ('w, UnstructuredList) eff" where
  "ListResources uc ctx i opts =
     bindE (lookupGVR i ctx (uc_discovery uc)) (\<lambda>gvr.
       rr_List (uc_resource uc) ctx (id_Cluster i) gvr (id_Namespace i) opts)"

definition GetResource :: "('w, 'sc) ResourceUseCase \<Rightarrow> go_context \<Rightarrow> ResourceIdentifier \<Rightarrow> ('w, jobj) eff" where
  "GetResource uc ctx i =
     bindE (lookupGVR i ctx (uc_discovery uc)) (\<lambda>gvr.
       rr_Get (uc_resource uc) ctx (id_Cluster i) gvr (id_Namespace i) (id_Name i))"

text \<open>\<^verbatim>\<open>obj.GetUID()\<close>: the string at \<^verbatim>\<open>metadata.uid\<close>, empty when it is missing.\<close>

definition GetUID :: "jobj \<Rightarrow> gostring" where
  "GetUID obj =
     (case gget obj ''metadata'' of
        Some (JObj md) \<Rightarrow> (case gget md ''uid'' of Some (JStr u) \<Rightarrow> u | _ \<Rightarrow> [])
      | _ \<Rightarrow> [])"

definition DescribeResource ::
  "('w, 'sc) ResourceUseCase \<Rightarrow> go_context \<Rightarrow> ResourceIdentifier \<Rightarrow> ('w, jobj \<times> UnstructuredList) eff" where
  "DescribeResource uc ctx i =
     bindE (lookupGVR i ctx (uc_discovery uc)) (\<lambda>gvr.
       bindE (rr_Get (uc_resource uc) ctx (id_Cluster i) gvr (id_Namespace i) (id_Name i)) (\<lambda>obj w.
         case rr_ListEvents (uc_resource uc) ctx (id_Cluster i) (id_Namespace i)
                \<lparr>lo_LabelSelector = [], lo_FieldSelector = ''involvedObject.uid='' @ GetUID obj, lo_Limit = 0, lo_Continue = []\<rparr> w of
           (Inl e, w') \<Rightarrow> (Inr (obj, empty_list), w')
         | (Inr events, w') \<Rightarrow> (Inr (obj, events), w')))"

definition CreateResource ::
  "('w, 'sc) ResourceUseCase \<Rightarrow> go_context \<Rightarrow> ResourceIdentifier \<Rightarrow> bytes \<Rightarrow> ('w, jobj) eff" where
  "CreateResource uc ctx i manifest =
     bindE (lookupGVR i ctx (uc_discovery uc)) (\<lambda>gvr.
       rr_Create (uc_resource uc) ctx (id_Cluster i) gvr (id_Namespace i) manifest)"

definition ApplyResource ::
  "('w, 'sc) ResourceUseCase \<Rightarrow> go_context \<Rightarrow> ResourceIdentifier \<Rightarrow> bytes \<Rightarrow> ApplyOptions \<Rightarrow> ('w, jobj) eff" where
  "ApplyResource uc ctx i manifest opts =
     bindE (lookupGVR i ctx (uc_discovery uc)) (\<lambda>gvr.
       rr_Apply (uc_resource uc) ctx (id_Cluster i) gvr (id_Namespace i) (id_Name i) manifest opts)"

definition DeleteResource ::
  "('w, 'sc) ResourceUseCase \<Rightarrow> go_context \<Rightarrow> ResourceIdentifier \<Rightarrow> DeleteOptions \<Rightarrow> ('w, unit) eff" where
  "DeleteResource uc ctx i opts =
     bindE (lookupGVR i ctx (uc_discovery uc)) (\<lambda>gvr.
       rr_Delete (uc_resource uc) ctx (id_Cluster i) gvr (id_Namespace i) (id_Name i) opts)"

definition WatchResource ::
  "('w, 'sc) ResourceUseCase \<Rightarrow> go_context \<Rightarrow> ResourceIdentifier \<Rightarrow> WatchOptions \<Rightarrow> ('w, WatchEvent list) eff" where
  "WatchResource uc ctx i opts =
     bindE (lookupGVR i ctx (uc_discovery uc)) (\<lambda>gvr.
       bindE (dc_SupportsWatchList (uc_discovery uc) ctx (id_Cluster i)) (\<lambda>watchList.
         rr_Watch (uc_resource uc) ctx (id_Cluster i) gvr (id_Namespace i) (opts\<lparr>wo_SendInitialEvents := watchList\<rparr>)))"

section \<open>The contract of the backend\<close>

locale cluster_backend =
  fixes D :: "('w, 'sc) DiscoveryClient"
    and R :: "'w ResourceRepo"
    and logf :: "'w \<Rightarrow> 'l list"
    and I :: "'w \<Rightarrow> bool"
    and P :: "go_context \<Rightarrow> gostring \<Rightarrow> 'l \<Rightarrow> bool"
  assumes lookup_gvr: "dc_LookupResource D ctx cl g v r w = (Inr x, w') \<Longrightarrow>
      x = \<lparr>gvr_Group = g, gvr_Version = v, gvr_Resource = r\<rparr>"
    and lookup_log: "logs_only logf I (P ctx cl) (dc_LookupResource D ctx cl g v r)"
    and watchlist_log: "logs_only logf I (P ctx cl) (dc_SupportsWatchList D ctx cl)"
    and list_log: "logs_only logf I (P ctx cl) (rr_List R ctx cl gvr ns lo)"
    and get_log: "logs_only logf I (P ctx cl) (rr_Get R ctx cl gvr ns name)"
    and create_log: "logs_only logf I (P ctx cl) (rr_Create R ctx cl gvr ns manifest)"
    and apply_log: "logs_only logf I (P ctx cl) (rr_Apply R ctx cl gvr ns name manifest ao)"
    and delete_log: "logs_only logf I (P ctx cl) (rr_Delete R ctx cl gvr ns name dopts)"
    and watch_log: "logs_only logf I (P ctx cl) (rr_Watch R ctx cl gvr ns wopts)"
    and events_log: "logs_only logf I (P ctx cl) (rr_ListEvents R ctx cl ns lo)"
begin

lemma lookupGVR_log: "logs_only logf I (P ctx (id_Cluster i)) (lookupGVR i ctx D)"
  unfolding lookupGVR_def by (rule lookup_log)

lemma describe_tail_log:
  "logs_only logf I (P ctx cl)
     (\<lambda>w. case rr_ListEvents R ctx cl ns lo w of
        (Inl e, w') \<Rightarrow> (Inr (obj, empty_list), w') | (Inr events, w') \<Rightarrow> (Inr (obj, events), w'))"
proof (rule logs_onlyI)
  fix w assume "I w"
  then show "I (snd (case rr_ListEvents R ctx cl ns lo w of
        (Inl e, w') \<Rightarrow> (Inr (obj, empty_list), w') | (Inr events, w') \<Rightarrow> (Inr (obj, events), w'))) \<and>
      (\<exists>l. logf (snd (case rr_ListEvents R ctx cl ns lo w of
        (Inl e, w') \<Rightarrow> (Inr (obj, empty_list), w') | (Inr events, w') \<Rightarrow> (Inr (obj, events), w'))) = logf w @ l \<and>
        (\<forall>x\<in>set l. P ctx cl x))"
    using events_log [of ctx cl ns lo] unfolding logs_only_def by (auto split: prod.splits sum.splits)
qed

text \<open>Every operation of the use case makes permitted requests only.\<close>

lemma use_case_log:
  fixes sr :: "go_context \<Rightarrow> gostring \<Rightarrow> gostring \<Rightarrow> gostring \<Rightarrow> gostring \<Rightarrow> ('w, 'sc) eff"
  defines "uc \<equiv> NewResourceUseCase D R sr"
  shows "logs_only logf I (P ctx (id_Cluster i)) (ListResources uc ctx i lo)"
    "logs_only logf I (P ctx (id_Cluster i)) (GetResource uc ctx i)"
    "logs_only logf I (P ctx (id_Cluster i)) (DescribeResource uc ctx i)"
    "logs_only logf I (P ctx (id_Cluster i)) (CreateResource uc ctx i manifest)"
    "logs_only logf I (P ctx (id_Cluster i)) (ApplyResource uc ctx i manifest ao)"
    "logs_only logf I (P ctx (id_Cluster i)) (DeleteResource uc ctx i dopts)"
    "logs_only logf I (P ctx (id_Cluster i)) (WatchResource uc ctx i wopts)"
  unfolding ListResources_def GetResource_def DescribeResource_def CreateResource_def ApplyResource_def
    DeleteResource_def WatchResource_def uc_def NewResourceUseCase_def
  by (auto intro!: logs_only_bindE lookupGVR_log describe_tail_log
        simp: list_log get_log create_log apply_log delete_log watch_log watchlist_log)

text \<open>The failure of a lookup is the failure of the operation, and nothing else is called.\<close>

lemma lookup_failure:
  assumes "lookupGVR i ctx D w = (Inl e, w')"
  shows "ListResources (NewResourceUseCase D R sr) ctx i lo w = (Inl e, w')"
    "GetResource (NewResourceUseCase D R sr) ctx i w = (Inl e, w')"
    "DescribeResource (NewResourceUseCase D R sr) ctx i w = (Inl e, w')"
    "CreateResource (NewResourceUseCase D R sr) ctx i manifest w = (Inl e, w')"
    "ApplyResource (NewResourceUseCase D R sr) ctx i manifest ao w = (Inl e, w')"
    "DeleteResource (NewResourceUseCase D R sr) ctx i dopts w = (Inl e, w')"
    "WatchResource (NewResourceUseCase D R sr) ctx i wopts w = (Inl e, w')"
  using assms
  by (simp_all add: ListResources_def GetResource_def DescribeResource_def CreateResource_def ApplyResource_def
        DeleteResource_def WatchResource_def NewResourceUseCase_def)

end

end
