(* ===== verification/Runtime.thy ===== *)
theory Runtime
  imports Resources
begin

text \<open>
  Runtime operations: the use case of \<^verbatim>\<open>internal/core/runtime.go\<close> and the service of
  \<^verbatim>\<open>internal/handler/runtime.go\<close>.

  A session's background goroutine is represented by what it does to the session: the call of
  the repository it makes (returned by the start operations as \<open>exec_call\<close> or
  \<open>pf_call\<close>) and its end (\<open>exec_finish\<close>, \<open>pf_finish\<close>), which fills the \<^verbatim>\<open>Done\<close> buffer and
  closes its ends of the pipes. The identifier \<^verbatim>\<open>uuid.New()\<close> and the reference of a new session
  are arguments. A \<^verbatim>\<open>select\<close> between a write and the context is resolved by an argument.
  Streams to the client are lists of messages, and \<open>sendf\<close> decides from the messages already
  sent whether the next \<^verbatim>\<open>Send\<close> fails.
\<close>

section \<open>Parameters of a session\<close>

record StartExecParams =
  sp_Cluster :: gostring
  sp_Namespace :: gostring
  sp_Name :: gostring
  sp_Container :: gostring
  sp_Command :: "gostring list"
  sp_TTY :: bool
  sp_Rows :: uint16
  sp_Cols :: uint16

record exec_call =
  ec_Cluster :: gostring
  ec_Namespace :: gostring
  ec_Name :: gostring
  ec_Opts :: ExecOptions

record pf_call =
  fc_Cluster :: gostring
  fc_Namespace :: gostring
  fc_Name :: gostring
  fc_Port :: "32 word"

definition invalid :: "gostring \<Rightarrow> gostring \<Rightarrow> go_error" where
  "invalid field msg = ErrInvalidInput field msg"

section \<open>Pod logs\<close>

definition StartPodLogs ::
  "'w RuntimeRepo \<Rightarrow> go_context \<Rightarrow> gostring \<Rightarrow> gostring \<Rightarrow> gostring \<Rightarrow> PodLogOptions \<Rightarrow> ('w, bytes list) eff" where
  "StartPodLogs rt ctx cluster ns name opts =
     (if name = [] then failE (invalid ''name'' ''pod name is required'')
      else rt_PodLogs rt ctx cluster ns name opts)"

section \<open>Exec sessions\<close>

definition new_exec_session :: "gostring \<Rightarrow> StartExecParams \<Rightarrow> ExecSession" where
  "new_exec_session uuid params =
     \<lparr>exec_ID = uuid,
      exec_SizeQueue =
        (if sp_Rows params > 0 \<and> sp_Cols params > 0
         then SetSize NewTerminalSizeQueue (sp_Cols params) (sp_Rows params) else NewTerminalSizeQueue),
      exec_Done = None, exec_cancels = 0, exec_stdin_closes = 0, exec_stdin_writes = [],
      exec_stdinR_closed = False, exec_stdoutW_closed = False, exec_stderrW_closed = False\<rparr>"

text \<open>The cleanup when the session store is full.\<close>

definition abandon_exec :: "ExecSession \<Rightarrow> ExecSession" where
  "abandon_exec s = s\<lparr>exec_cancels := Suc (exec_cancels s), exec_stdin_closes := Suc (exec_stdin_closes s),
     exec_stdinR_closed := True, exec_stdoutW_closed := True, exec_stderrW_closed := True,
     exec_SizeQueue := CloseQueue (exec_SizeQueue s)\<rparr>"

definition upd_exec :: "nat \<Rightarrow> (ExecSession \<Rightarrow> ExecSession) \<Rightarrow> sessions_world \<Rightarrow> sessions_world" where
  "upd_exec r g w =
     (case gget (exec_heap w) r of None \<Rightarrow> w | Some s \<Rightarrow> w\<lparr>exec_heap := gput r (g s) (exec_heap w)\<rparr>)"

definition StartExec ::
  "sessions_world \<Rightarrow> nat \<Rightarrow> gostring \<Rightarrow> StartExecParams \<Rightarrow> (nat \<times> exec_call) res \<times> sessions_world" where
  "StartExec w r uuid params =
     (if sp_Name params = [] then (Inl (invalid ''name'' ''pod name is required''), w)
      else if sp_Command params = [] then (Inl (invalid ''command'' ''command is required''), w)
      else
        (let w1 = w\<lparr>exec_heap := gput r (new_exec_session uuid params) (exec_heap w)\<rparr> in
         case PutExec w1 r of
           (Inl e, w2) \<Rightarrow> (Inl e, upd_exec r abandon_exec w2)
         | (Inr _, w2) \<Rightarrow>
             (Inr (r, \<lparr>ec_Cluster = sp_Cluster params, ec_Namespace = sp_Namespace params, ec_Name = sp_Name params,
                       ec_Opts = \<lparr>eo_Container = sp_Container params, eo_Command = sp_Command params,
                                  eo_TTY = sp_TTY params, eo_Stdin = True, eo_Stdout = True,
                                  eo_Stderr = \<not> sp_TTY params, eo_SizeQueue = True\<rparr>\<rparr>), w2)))"

text \<open>The end of the goroutine: the result is sent to \<^verbatim>\<open>Done\<close>, then the deferred calls run.\<close>

definition exec_finish :: "sessions_world \<Rightarrow> nat \<Rightarrow> unit res \<Rightarrow> sessions_world" where
  "exec_finish w r result =
     upd_exec r (\<lambda>s. s\<lparr>exec_Done := Some result, exec_SizeQueue := CloseQueue (exec_SizeQueue s),
       exec_stderrW_closed := True, exec_stdoutW_closed := True, exec_stdinR_closed := True\<rparr>) w"

datatype write_outcome = WriteCtxDone go_error | WriteReturned "unit res"

definition WriteExec :: "sessions_world \<Rightarrow> gostring \<Rightarrow> bytes \<Rightarrow> write_outcome \<Rightarrow> unit res \<times> sessions_world" where
  "WriteExec w sessionID data outcome =
     (case GetExec w sessionID of
        None \<Rightarrow> (Inl (ErrSessionNotFound ''exec-session'' sessionID), w)
      | Some r \<Rightarrow>
          if exec_done (exec_heap w) r
          then (Inl (ErrSessionNotFound ''exec-session'' sessionID), w\<lparr>exec_heap := take_exec_done r (exec_heap w)\<rparr>)
          else
            (let w1 = upd_exec r (\<lambda>s. s\<lparr>exec_stdin_writes := exec_stdin_writes s @ [data]\<rparr>) w in
             case outcome of
               WriteCtxDone e \<Rightarrow> (Inl e, w1)
             | WriteReturned res \<Rightarrow> (res, w1)))"

definition ResizeExec :: "sessions_world \<Rightarrow> gostring \<Rightarrow> uint16 \<Rightarrow> uint16 \<Rightarrow> unit res \<times> sessions_world" where
  "ResizeExec w sessionID rows cols =
     (case GetExec w sessionID of
        None \<Rightarrow> (Inl (ErrSessionNotFound ''exec-session'' sessionID), w)
      | Some r \<Rightarrow> (Inr (), upd_exec r (\<lambda>s. s\<lparr>exec_SizeQueue := SetSize (exec_SizeQueue s) cols rows\<rparr>) w))"

definition CleanupExec :: "sessions_world \<Rightarrow> gostring \<Rightarrow> sessions_world" where
  "CleanupExec w sessionID =
     (case RemoveExec w sessionID of
        (None, w1) \<Rightarrow> w1
      | (Some r, w1) \<Rightarrow> exec_cancel_close r w1)"

section \<open>Port-forward sessions\<close>

definition new_pf_session :: "gostring \<Rightarrow> PortForwardSession" where
  "new_pf_session uuid =
     \<lparr>pf_ID = uuid, pf_Done = None, pf_cancels = 0, pf_writer_closes = 0, pf_writes = [],
      pf_dataInR_closed = False, pf_dataOutW_closed = False\<rparr>"

definition abandon_pf :: "PortForwardSession \<Rightarrow> PortForwardSession" where
  "abandon_pf s = s\<lparr>pf_cancels := Suc (pf_cancels s), pf_writer_closes := Suc (pf_writer_closes s),
     pf_dataInR_closed := True, pf_dataOutW_closed := True\<rparr>"

definition upd_pf :: "nat \<Rightarrow> (PortForwardSession \<Rightarrow> PortForwardSession) \<Rightarrow> sessions_world \<Rightarrow> sessions_world" where
  "upd_pf r g w =
     (case gget (pf_heap w) r of None \<Rightarrow> w | Some s \<Rightarrow> w\<lparr>pf_heap := gput r (g s) (pf_heap w)\<rparr>)"

text \<open>The port is a signed 32-bit integer.\<close>

definition StartPortForward ::
  "sessions_world \<Rightarrow> nat \<Rightarrow> gostring \<Rightarrow> gostring \<Rightarrow> gostring \<Rightarrow> gostring \<Rightarrow> 32 word \<Rightarrow> (nat \<times> pf_call) res \<times> sessions_world" where
  "StartPortForward w r uuid cluster ns name port =
     (if name = [] then (Inl (invalid ''name'' ''pod name is required''), w)
      else if sint port \<le> 0 \<or> sint port > 65535 then (Inl (invalid ''port'' ''must be between 1 and 65535''), w)
      else
        (let w1 = w\<lparr>pf_heap := gput r (new_pf_session uuid) (pf_heap w)\<rparr> in
         case PutPortForward w1 r of
           (Inl e, w2) \<Rightarrow> (Inl e, upd_pf r abandon_pf w2)
         | (Inr _, w2) \<Rightarrow>
             (Inr (r, \<lparr>fc_Cluster = cluster, fc_Namespace = ns, fc_Name = name, fc_Port = port\<rparr>), w2)))"

definition pf_finish :: "sessions_world \<Rightarrow> nat \<Rightarrow> unit res \<Rightarrow> sessions_world" where
  "pf_finish w r result =
     upd_pf r (\<lambda>s. s\<lparr>pf_Done := Some result, pf_dataOutW_closed := True, pf_dataInR_closed := True\<rparr>) w"

definition WritePortForward :: "sessions_world \<Rightarrow> gostring \<Rightarrow> bytes \<Rightarrow> write_outcome \<Rightarrow> unit res \<times> sessions_world" where
  "WritePortForward w sessionID data outcome =
     (case GetPortForward w sessionID of
        None \<Rightarrow> (Inl (ErrSessionNotFound ''portforward-session'' sessionID), w)
      | Some r \<Rightarrow>
          if pf_done (pf_heap w) r
          then (Inl (ErrSessionNotFound ''portforward-session'' sessionID), w\<lparr>pf_heap := take_pf_done r (pf_heap w)\<rparr>)
          else
            (let w1 = upd_pf r (\<lambda>s. s\<lparr>pf_writes := pf_writes s @ [data]\<rparr>) w in
             case outcome of
               WriteCtxDone e \<Rightarrow> (Inl e, w1)
             | WriteReturned res \<Rightarrow> (res, w1)))"

definition CleanupPortForward :: "sessions_world \<Rightarrow> gostring \<Rightarrow> sessions_world" where
  "CleanupPortForward w sessionID =
     (case RemovePortForward w sessionID of
        (None, w1) \<Rightarrow> w1
      | (Some r, w1) \<Rightarrow> pf_cancel_close r w1)"

text \<open>The reaper: one reap per tick until the context is done.\<close>

definition StartSessionReaper :: "nat \<Rightarrow> sessions_world \<Rightarrow> sessions_world" where
  "StartSessionReaper ticks w = ((\<lambda>w. snd (ReapStaleSessions w)) ^^ ticks) w"

section \<open>Scale and restart\<close>

definition uc_GetScale ::
  "('w, 'sc) DiscoveryClient \<Rightarrow> 'w RuntimeRepo \<Rightarrow> go_context \<Rightarrow> ResourceIdentifier \<Rightarrow> ('w, 32 word) eff" where
  "uc_GetScale dc rt ctx i =
     (if id_Name i = [] then failE (invalid ''name'' ''resource name is required'')
      else bindE (lookupGVR i ctx dc) (\<lambda>gvr. rt_GetScale rt ctx (id_Cluster i) gvr (id_Namespace i) (id_Name i)))"

definition uc_Scale ::
  "('w, 'sc) DiscoveryClient \<Rightarrow> 'w RuntimeRepo \<Rightarrow> go_context \<Rightarrow> ResourceIdentifier \<Rightarrow> 32 word \<Rightarrow> ('w, 32 word) eff" where
  "uc_Scale dc rt ctx i replicas =
     (if id_Name i = [] then failE (invalid ''name'' ''resource name is required'')
      else if sint replicas < 0 then failE (invalid ''replicas'' ''must be non-negative'')
      else bindE (lookupGVR i ctx dc) (\<lambda>gvr. rt_UpdateScale rt ctx (id_Cluster i) gvr (id_Namespace i) (id_Name i) replicas))"

definition uc_Restart ::
  "('w, 'sc) DiscoveryClient \<Rightarrow> 'w RuntimeRepo \<Rightarrow> go_context \<Rightarrow> ResourceIdentifier \<Rightarrow> ('w, unit) eff" where
  "uc_Restart dc rt ctx i =
     (if id_Name i = [] then failE (invalid ''name'' ''resource name is required'')
      else bindE (lookupGVR i ctx dc) (\<lambda>gvr. rt_Restart rt ctx (id_Cluster i) gvr (id_Namespace i) (id_Name i)))"

section \<open>The service: streams\<close>

definition streamChunkSize :: nat where
  "streamChunkSize = 32 * 1024"

definition io_EOF :: go_error where
  "io_EOF = Plain ''EOF''"

definition errors_Is :: "go_error \<Rightarrow> go_error \<Rightarrow> bool" where
  "errors_Is e target \<longleftrightarrow> target \<in> set (err_tree e)"

text \<open>
  The read-and-send loop of \<^verbatim>\<open>PodLog\<close> and \<^verbatim>\<open>PortForward\<close>. A read returns data and maybe an
  error; the list holds the results of the reads to come. The result is \<^const>\<open>None\<close> while the
  reader blocks, otherwise the returned error and the messages sent.
\<close>

fun copy_stream ::
  "(bytes list \<Rightarrow> go_error option) \<Rightarrow> (bytes \<times> go_error option) list \<Rightarrow> bytes list \<Rightarrow> (unit res \<times> bytes list) option" where
  "copy_stream sendf [] msgs = None"
| "copy_stream sendf ((data, readErr) # reads) msgs =
     (if data \<noteq> [] \<and> sendf msgs \<noteq> None then Some (Inl (the (sendf msgs)), msgs)
      else
        (let msgs' = (if data \<noteq> [] then msgs @ [data] else msgs) in
         case readErr of
           None \<Rightarrow> copy_stream sendf reads msgs'
         | Some e \<Rightarrow> if errors_Is e io_EOF then Some (Inr (), msgs') else Some (Inl (domainErrorToConnectError e), msgs')))"

record PodLogRequest =
  lr_Cluster :: gostring
  lr_Namespace :: gostring
  lr_Name :: gostring
  lr_Container :: gostring
  lr_Follow :: bool
  lr_Previous :: bool
  lr_Timestamps :: bool
  lr_TailLines :: "int option"
  lr_SinceSeconds :: "int option"
  lr_SinceTime :: "int option"
  lr_LimitBytes :: "int option"

definition pod_log_options :: "PodLogRequest \<Rightarrow> PodLogOptions" where
  "pod_log_options req =
     \<lparr>pl_Container = lr_Container req, pl_Follow = lr_Follow req, pl_TailLines = lr_TailLines req,
      pl_SinceSeconds = lr_SinceSeconds req, pl_SinceTime = lr_SinceTime req, pl_Previous = lr_Previous req,
      pl_Timestamps = lr_Timestamps req, pl_LimitBytes = lr_LimitBytes req\<rparr>"

text \<open>\<open>reads_of\<close> turns the opened stream into the results of the reads; \<^verbatim>\<open>PodLog\<close> then copies.\<close>

definition PodLog ::
  "'w RuntimeRepo \<Rightarrow> go_context \<Rightarrow> (bytes list \<Rightarrow> (bytes \<times> go_error option) list) \<Rightarrow> (bytes list \<Rightarrow> go_error option) \<Rightarrow>
     PodLogRequest \<Rightarrow> ('w, (unit res \<times> bytes list) option) eff" where
  "PodLog rt ctx reads_of sendf req =
     bindE (mapErrE domainErrorToConnectError
              (StartPodLogs rt ctx (lr_Cluster req) (lr_Namespace req) (lr_Name req) (pod_log_options req)))
       (\<lambda>stream. retE (copy_stream sendf (reads_of stream) []))"

section \<open>The service: terminals\<close>

record ExecuteTTYRequest =
  et_Cluster :: gostring
  et_Namespace :: gostring
  et_Name :: gostring
  et_Container :: gostring
  et_Command :: "gostring list"
  et_Tty :: bool
  et_Rows :: uint32
  et_Cols :: uint32

datatype exec_msg = MsgSession gostring | MsgOutput bytes bytes

datatype exec_event = ExCtxDone | ExChunk bytes bytes

definition dims_error :: go_error where
  "dims_error = ConnectErr CodeInvalidArgument (Plain (''terminal dimensions out of range (max '' @ itoa 65535 @ '')''))"

definition dims_ok :: "uint32 \<Rightarrow> uint32 \<Rightarrow> bool" where
  "dims_ok rows cols \<longleftrightarrow> unat rows \<le> 65535 \<and> unat cols \<le> 65535"

text \<open>
  The loop that forwards chunks: the events are the ones its \<^verbatim>\<open>select\<close> receives, in order; the
  end of the list is the closed channel, reached once both readers have finished.
\<close>

fun forward_chunks :: "(exec_msg list \<Rightarrow> go_error option) \<Rightarrow> exec_event list \<Rightarrow> exec_msg list \<Rightarrow> unit res \<times> exec_msg list" where
  "forward_chunks sendf [] msgs = (Inr (), msgs)"
| "forward_chunks sendf (ExCtxDone # evs) msgs = (Inr (), msgs)"
| "forward_chunks sendf (ExChunk out err # evs) msgs =
     (case sendf msgs of
        Some e \<Rightarrow> (Inl e, msgs)
      | None \<Rightarrow> forward_chunks sendf evs (msgs @ [MsgOutput out err]))"

definition exec_params :: "ExecuteTTYRequest \<Rightarrow> StartExecParams" where
  "exec_params req =
     \<lparr>sp_Cluster = et_Cluster req, sp_Namespace = et_Namespace req, sp_Name = et_Name req,
      sp_Container = et_Container req, sp_Command = et_Command req, sp_TTY = et_Tty req,
      sp_Rows = ucast (et_Rows req), sp_Cols = ucast (et_Cols req)\<rparr>"

text \<open>While the terminal runs, other calls act on the sessions: \<open>env\<close> is what they do.\<close>

definition ExecuteTTY ::
  "sessions_world \<Rightarrow> nat \<Rightarrow> gostring \<Rightarrow> (exec_msg list \<Rightarrow> go_error option) \<Rightarrow> exec_event list \<Rightarrow> (sessions_world \<Rightarrow> sessions_world) \<Rightarrow>
     ExecuteTTYRequest \<Rightarrow> (unit res \<times> exec_msg list) \<times> sessions_world" where
  "ExecuteTTY w r uuid sendf evs env req =
     (if \<not> dims_ok (et_Rows req) (et_Cols req) then ((Inl dims_error, []), w)
      else
        (case StartExec w r uuid (exec_params req) of
           (Inl e, w1) \<Rightarrow> ((Inl (domainErrorToConnectError e), []), w1)
         | (Inr (sess, call), w1) \<Rightarrow>
             (case sendf [] of
                Some e \<Rightarrow> ((Inl e, []), CleanupExec w1 uuid)
              | None \<Rightarrow>
                  (let out = forward_chunks sendf evs [MsgSession uuid]
                   in (out, CleanupExec (env w1) uuid)))))"

definition WriteTTY :: "sessions_world \<Rightarrow> gostring \<Rightarrow> bytes \<Rightarrow> write_outcome \<Rightarrow> unit res \<times> sessions_world" where
  "WriteTTY w sessionID stdin outcome =
     (case WriteExec w sessionID stdin outcome of (res, w') \<Rightarrow> (to_connect res, w'))"

definition ResizeTTY :: "sessions_world \<Rightarrow> gostring \<Rightarrow> uint32 \<Rightarrow> uint32 \<Rightarrow> unit res \<times> sessions_world" where
  "ResizeTTY w sessionID rows cols =
     (if \<not> dims_ok rows cols then (Inl dims_error, w)
      else (case ResizeExec w sessionID (ucast rows) (ucast cols) of (res, w') \<Rightarrow> (to_connect res, w')))"

section \<open>The service: port forwarding, scale, restart\<close>

definition srv_PortForward ::
  "sessions_world \<Rightarrow> nat \<Rightarrow> gostring \<Rightarrow> (bytes list \<Rightarrow> go_error option) \<Rightarrow> (bytes \<times> go_error option) list \<Rightarrow>
     (sessions_world \<Rightarrow> sessions_world) \<Rightarrow> go_error option \<Rightarrow> gostring \<Rightarrow> gostring \<Rightarrow> gostring \<Rightarrow> 32 word \<Rightarrow>
     (unit res \<times> bytes list) option \<times> sessions_world" where
  "srv_PortForward w r uuid sendf reads env firstSend cluster ns name port =
     (case StartPortForward w r uuid cluster ns name port of
        (Inl e, w1) \<Rightarrow> (Some (Inl (domainErrorToConnectError e), []), w1)
      | (Inr (sess, call), w1) \<Rightarrow>
          (case firstSend of
             Some e \<Rightarrow> (Some (Inl e, []), CleanupPortForward w1 uuid)
           | None \<Rightarrow>
               (case copy_stream sendf reads [] of
                  None \<Rightarrow> (None, env w1)
                | Some out \<Rightarrow> (Some out, CleanupPortForward (env w1) uuid))))"

definition srv_WritePortForward :: "sessions_world \<Rightarrow> gostring \<Rightarrow> bytes \<Rightarrow> write_outcome \<Rightarrow> unit res \<times> sessions_world" where
  "srv_WritePortForward w sessionID data outcome =
     (case WritePortForward w sessionID data outcome of (res, w') \<Rightarrow> (to_connect res, w'))"

definition srv_Scale ::
  "('w, 'sc) DiscoveryClient \<Rightarrow> 'w RuntimeRepo \<Rightarrow> go_context \<Rightarrow> ResourceIdentifier \<Rightarrow> 32 word \<Rightarrow> ('w, 32 word) eff" where
  "srv_Scale dc rt ctx i replicas = mapErrE domainErrorToConnectError (uc_Scale dc rt ctx i replicas)"

definition srv_Restart ::
  "('w, 'sc) DiscoveryClient \<Rightarrow> 'w RuntimeRepo \<Rightarrow> go_context \<Rightarrow> ResourceIdentifier \<Rightarrow> ('w, unit) eff" where
  "srv_Restart dc rt ctx i = mapErrE domainErrorToConnectError (uc_Restart dc rt ctx i)"

section \<open>Lemmas\<close>

lemma gput_new: "gget m k = None \<Longrightarrow> gput k v m = m @ [(k, v)]"
  by (induction m) (auto split: if_splits)

lemma gget_upd_exec:
  "gget (exec_heap (upd_exec r g w)) x = (if x = r then map_option g (gget (exec_heap w) x) else gget (exec_heap w) x)"
  by (auto simp: upd_exec_def split: option.splits)

lemma gkeys_upd_exec [simp]: "gkeys (exec_heap (upd_exec r g w)) = gkeys (exec_heap w)"
  by (auto simp: upd_exec_def gkeys_dom split: option.splits)

lemma gkeys_take_exec_done [simp]: "gkeys (take_exec_done r h) = gkeys h"
  by (auto simp: take_exec_done_def gkeys_dom split: option.splits)

lemma upd_exec_frame [simp]:
  "exec_tab (upd_exec r g w) = exec_tab w" "pf_tab (upd_exec r g w) = pf_tab w" "pf_heap (upd_exec r g w) = pf_heap w"
  by (simp_all add: upd_exec_def split: option.splits)

lemma distinct_partition:
  "distinct (map snd m) \<Longrightarrow> distinct (map snd (filter (\<lambda>x. \<not> P x) m) @ map snd (filter P m))"
  by (induction m) auto

text \<open>A session whose \<^verbatim>\<open>Done\<close> buffer is empty is never reaped.\<close>

lemma reap_exec_keeps:
  assumes "reap_exec m h = (kept, stale, h')" "gget m i = Some r" "\<not> exec_done h r"
  shows "gget kept i = Some r \<and> \<not> exec_done h' r"
  using assms
proof (induction m h arbitrary: kept stale h' rule: reap_exec.induct)
  case (2 j q m h)
  have "\<not> exec_done h' r"
    using "2.prems"(3) reap_exec_heap [OF "2.prems"(1), of r]
    by (auto simp: exec_done_def split: option.splits if_splits)
  moreover have "gget kept i = Some r"
    using 2 by (auto simp: exec_done_take split: if_splits prod.splits)
  ultimately show ?case by simp
qed simp

lemma exec_done_cancel_close: "exec_done (exec_heap (exec_cancel_close q w)) r = exec_done (exec_heap w) r"
  by (auto simp: exec_done_def gget_exec_cancel_close split: option.splits)

lemma exec_done_fold: "exec_done (exec_heap (fold exec_cancel_close qs w)) r = exec_done (exec_heap w) r"
  by (induction qs arbitrary: w) (simp_all add: exec_done_cancel_close)

lemma Reap_keeps:
  assumes "GetExec w i = Some r" "\<not> exec_done (exec_heap w) r"
  shows "GetExec (snd (ReapStaleSessions w)) i = Some r \<and> \<not> exec_done (exec_heap (snd (ReapStaleSessions w))) r"
proof -
  obtain keptE staleE hE where E: "reap_exec (exec_tab w) (exec_heap w) = (keptE, staleE, hE)" by (metis prod_cases3)
  obtain keptP staleP hP where P: "reap_pf (pf_tab w) (pf_heap w) = (keptP, staleP, hP)" by (metis prod_cases3)
  show ?thesis
    using reap_exec_keeps [OF E _ assms(2), of i] assms(1)
    by (simp add: ReapStaleSessions_def reap_phase1_def reap_phase2_def E P GetExec_def exec_done_fold)
qed

lemma Reaper_keeps:
  "GetExec w i = Some r \<Longrightarrow> \<not> exec_done (exec_heap w) r \<Longrightarrow> GetExec (StartSessionReaper n w) i = Some r"
  unfolding StartSessionReaper_def
  by (induction n arbitrary: w) (auto simp: funpow_Suc_right simp del: funpow.simps dest: Reap_keeps)

section \<open>Properties\<close>

definition demo_params :: StartExecParams where
  "demo_params = \<lparr>sp_Cluster = ''c'', sp_Namespace = ''n'', sp_Name = ''p'', sp_Container = [], sp_Command = [''sh''],
     sp_TTY = True, sp_Rows = 24, sp_Cols = 80\<rparr>"

definition demo_started :: sessions_world where
  "demo_started = snd (StartExec new_world 0 ''s'' demo_params)"

lemma demo_started_tables:
  "exec_tab demo_started = [(''s'', 0)]" "exec_heap demo_started = [(0, new_exec_session ''s'' demo_params)]"
  "pf_tab demo_started = []" "pf_heap demo_started = []"
  by (simp_all add: demo_started_def StartExec_def PutExec_def new_world_def NewSessionStore_def exec_id_def Let_def
      demo_params_def new_exec_session_def maxExecSessions_def)

text \<open>
  A write to a session whose goroutine has finished reports that the session does not
  exist, but it takes the value out of \<^verbatim>\<open>Done\<close>: from then on no number of ticks of the reaper
  removes the session, although the reaper exists for exactly these sessions.
\<close>

theorem write_after_exit_hides_session:
  assumes "GetExec w i = Some r" and "exec_done (exec_heap w) r"
  shows "fst (WriteExec w i data outcome) = Inl (ErrSessionNotFound ''exec-session'' i) \<and>
         GetExec (StartSessionReaper n (snd (WriteExec w i data outcome))) i = Some r"
proof -
  let ?w = "w\<lparr>exec_heap := take_exec_done r (exec_heap w)\<rparr>"
  have "GetExec ?w i = Some r" "\<not> exec_done (exec_heap ?w) r"
    using assms(1) by (simp_all add: GetExec_def exec_done_take)
  from Reaper_keeps [OF this] show ?thesis using assms by (simp add: WriteExec_def)
qed

theorem write_after_exit_hides_session_witness:
  "GetExec demo_world ''a'' = Some 0 \<and> GetExec (StartSessionReaper 1 demo_world) ''a'' = None \<and>
   GetExec (StartSessionReaper 1 (snd (WriteExec demo_world ''a'' [] (WriteReturned (Inr ()))))) ''a'' = Some 0"
proof -
  have "GetExec demo_world ''a'' = Some 0" "exec_done (exec_heap demo_world) 0"
    by (simp_all add: GetExec_def demo_world_def exec_done_def demo_exec_def)
  moreover have "GetExec (StartSessionReaper 1 demo_world) ''a'' = None"
    by (simp add: StartSessionReaper_def ReapStaleSessions_def reap_phase1_def reap_phase2_def demo_world_def
        exec_done_def demo_exec_def GetExec_def take_exec_done_def exec_cancel_close_def)
  ultimately show ?thesis using write_after_exit_hides_session [of demo_world "''a''" 0] by blast
qed

fun event_msg :: "exec_event \<Rightarrow> exec_msg" where
  "event_msg (ExChunk out err) = MsgOutput out err"
| "event_msg ExCtxDone = MsgOutput [] []"

lemma forward_chunks_prefix:
  "\<exists>k. snd (forward_chunks sendf evs msgs) = msgs @ take k (map event_msg (takeWhile (\<lambda>ev. ev \<noteq> ExCtxDone) evs))"
proof (induction sendf evs msgs rule: forward_chunks.induct)
  case (3 sendf out err evs msgs)
  show ?case
  proof (cases "sendf msgs")
    case None
    from 3 [OF None] obtain k where
      "snd (forward_chunks sendf evs (msgs @ [MsgOutput out err])) =
         (msgs @ [MsgOutput out err]) @ take k (map event_msg (takeWhile (\<lambda>ev. ev \<noteq> ExCtxDone) evs))" by blast
    then show ?thesis using None by (intro exI [of _ "Suc k"]) simp
  next
    case (Some e)
    then show ?thesis by (intro exI [of _ 0]) simp
  qed
qed auto

lemma GetExec_CleanupExec: "GetExec (CleanupExec w i) i = None"
  by (auto simp: CleanupExec_def RemoveExec_def GetExec_def exec_cancel_close_def split: option.splits)

lemma GetExec_StartExec_fail:
  "StartExec w r uuid params = (Inl e, w') \<Longrightarrow> exec_tab w' = exec_tab w"
  by (auto simp: StartExec_def PutExec_def Let_def split: if_splits)

text \<open>
  Claim C37. Whatever the other calls do to the sessions while the terminal runs, and whichever
  send to the client fails, a finished \<^verbatim>\<open>ExecuteTTY\<close> leaves no session under the identifier it
  created, and the client has received nothing, or the session message followed by a prefix of
  the output chunks in their order.
\<close>

theorem ExecuteTTY_releases_session:
  assumes "GetExec w uuid = None" and "ExecuteTTY w r uuid sendf evs env req = ((res, msgs), w')"
  shows "GetExec w' uuid = None \<and>
         (msgs = [] \<or> (\<exists>k. msgs = MsgSession uuid # take k (map event_msg (takeWhile (\<lambda>ev. ev \<noteq> ExCtxDone) evs))))"
proof -
  let ?start = "StartExec w r uuid (exec_params req)"
  consider (dims) "\<not> dims_ok (et_Rows req) (et_Cols req)"
    | (fail) e w1 where "dims_ok (et_Rows req) (et_Cols req)" "?start = (Inl e, w1)"
    | (run) sess call w1 where "dims_ok (et_Rows req) (et_Cols req)" "?start = (Inr (sess, call), w1)"
    by (metis obj_sumE surj_pair)
  then show ?thesis
  proof cases
    case dims
    then show ?thesis using assms by (auto simp: ExecuteTTY_def)
  next
    case fail
    then have "exec_tab w1 = exec_tab w" by (rule_tac GetExec_StartExec_fail)
    then show ?thesis using assms fail by (auto simp: ExecuteTTY_def GetExec_def)
  next
    case run
    then show ?thesis
      using assms(2) forward_chunks_prefix [of sendf evs "[MsgSession uuid]"]
      by (auto simp: ExecuteTTY_def Let_def GetExec_CleanupExec split: option.splits)
  qed
qed

definition demo_tty :: ExecuteTTYRequest where
  "demo_tty = \<lparr>et_Cluster = ''c'', et_Namespace = ''n'', et_Name = ''p'', et_Container = [], et_Command = [''sh''],
     et_Tty = True, et_Rows = 24, et_Cols = 80\<rparr>"

theorem ExecuteTTY_releases_session_witness:
  "fst (ExecuteTTY new_world 0 ''s'' (\<lambda>_. None) [ExChunk ''a'' [], ExCtxDone, ExChunk ''b'' []] id demo_tty) =
     (Inr (), [MsgSession ''s'', MsgOutput ''a'' []]) \<and>
   GetExec (snd (ExecuteTTY new_world 0 ''s'' (\<lambda>_. None) [ExChunk ''a'' [], ExCtxDone, ExChunk ''b'' []] id demo_tty)) ''s'' = None"
proof -
  let ?run = "ExecuteTTY new_world 0 ''s'' (\<lambda>_. None) [ExChunk ''a'' [], ExCtxDone, ExChunk ''b'' []] id demo_tty"
  have "GetExec new_world ''s'' = None" by (simp add: GetExec_def new_world_def NewSessionStore_def)
  moreover have "?run = ((fst (fst ?run), snd (fst ?run)), snd ?run)" by simp
  ultimately have "GetExec (snd ?run) ''s'' = None" using ExecuteTTY_releases_session by blast
  moreover have "fst ?run = (Inr (), [MsgSession ''s'', MsgOutput ''a'' []])"
    by (simp add: ExecuteTTY_def exec_params_def demo_tty_def dims_ok_def StartExec_def PutExec_def new_world_def NewSessionStore_def
        Let_def maxExecSessions_def)
  ultimately show ?thesis by simp
qed

lemma copy_stream_all:
  "copy_stream (\<lambda>_. None) (map (\<lambda>d. (d, None)) ds @ (d, Some e) # rest) msgs =
     Some (if errors_Is e io_EOF then Inr () else Inl (domainErrorToConnectError e),
           msgs @ filter (\<lambda>d. d \<noteq> []) (ds @ [d]))"
  by (induction ds arbitrary: msgs) (simp_all add: Let_def)

lemma copy_stream_prefix:
  "copy_stream sendf reads msgs = Some (res, out) \<Longrightarrow>
     \<exists>k. out = msgs @ take k (filter (\<lambda>d. d \<noteq> []) (map fst reads))"
proof (induction sendf reads msgs rule: copy_stream.induct)
  case (2 sendf data readErr reads msgs)
  show ?case
  proof (cases "data \<noteq> [] \<and> sendf msgs \<noteq> None")
    case True
    then have "out = msgs" using "2.prems" by auto
    then show ?thesis by (intro exI [of _ 0]) simp
  next
    case sent: False
    let ?msgs = "if data \<noteq> [] then msgs @ [data] else msgs"
    have "\<exists>k. out = ?msgs @ take k (filter (\<lambda>d. d \<noteq> []) (map fst reads))"
    proof (cases readErr)
      case None
      then have "copy_stream sendf reads ?msgs = Some (res, out)"
        using "2.prems" sent by (auto simp: Let_def)
      then show ?thesis using "2.IH" [OF sent refl None] by blast
    next
      case (Some e)
      then have "out = ?msgs" using "2.prems" sent by (auto simp: Let_def split: if_splits)
      then show ?thesis by (intro exI [of _ 0]) simp
    qed
    then obtain k where k: "out = ?msgs @ take k (filter (\<lambda>d. d \<noteq> []) (map fst reads))" by blast
    show ?thesis by (rule exI [of _ "if data \<noteq> [] then Suc k else k"]) (simp add: k)
  qed
qed simp

text \<open>
  The read-and-send loop of \<^verbatim>\<open>PodLog\<close> and \<^verbatim>\<open>PortForward\<close>: when the client accepts
  every message, it receives the data of every read up to and including the one that reports the
  error, in order, with nothing for empty reads, and the call succeeds exactly when that error is
  the end of the stream; when a send fails, the call returns that error and the client has
  received a prefix.
\<close>

theorem stream_copied_in_order:
  "copy_stream (\<lambda>_. None) (map (\<lambda>d. (d, None)) ds @ (d, Some e) # rest) [] =
     Some (if errors_Is e io_EOF then Inr () else Inl (domainErrorToConnectError e),
           filter (\<lambda>d. d \<noteq> []) (ds @ [d])) \<and>
   (\<forall>sendf reads res out. copy_stream sendf reads [] = Some (res, out) \<longrightarrow>
      (\<exists>k. out = take k (filter (\<lambda>d. d \<noteq> []) (map fst reads))))"
  using copy_stream_all [of ds d e rest "[]"] copy_stream_prefix by fastforce

theorem stream_copied_in_order_witness:
  "copy_stream (\<lambda>_. None) [(''a'', None), ([], None), (''b'', Some io_EOF)] [] = Some (Inr (), [''a'', ''b'']) \<and>
   (\<exists>k. [''a''] = take k [''a'', ''b''])"
proof -
  have e: "errors_Is io_EOF io_EOF" by (simp add: errors_Is_def io_EOF_def)
  let ?f = "\<lambda>msgs. if msgs = [] then None else Some io_EOF"
  have "copy_stream ?f [(''a'', None), (''b'', None)] [] = Some (Inl io_EOF, [''a''])" by simp
  then have "\<exists>k. [''a''] = take k [''a'', ''b'']" using stream_copied_in_order [of "[]" "[]" io_EOF "[]"] by fastforce
  then show ?thesis using stream_copied_in_order [of "[''a'', []]" "''b''" io_EOF "[]"] e by simp
qed

end
