(* ===== verification/Session_Lifecycle.thy ===== *)
theory Session_Lifecycle
  imports Step_Systems Runtime
begin

text \<open>
  What the session store promises: a session is listed under its identifier, then taken out by exactly one caller, who
  ends it; a session for which there is no room is ended at once. The operations of the store and of the runtime use case
  (\<^verbatim>\<open>core/session.go\<close>, \<^verbatim>\<open>core/runtime.go\<close>) implement this for exec and for port-forward sessions, under every interleaving in
  which taking a session out and closing it are separate steps. Both kinds of session are one kind of table.
\<close>

section \<open>The specification\<close>

datatype stage = Listed gostring | Taken | Ended

type_synonym lifecycle = "nat \<Rightarrow> stage option"

definition listed :: "lifecycle \<Rightarrow> nat set" where
  "listed L = {r. \<exists>i. L r = Some (Listed i)}"

datatype life_event = Opens nat gostring | Refuses nat | Takes "nat set" | Ends nat | Stays

inductive life_step :: "nat \<Rightarrow> life_event \<Rightarrow> lifecycle \<Rightarrow> lifecycle \<Rightarrow> bool" for limit where
  life_opens: "L r = None \<Longrightarrow> \<forall>q. L q \<noteq> Some (Listed i) \<Longrightarrow> card (listed L) < limit \<Longrightarrow> life_step limit (Opens r i) L (L(r \<mapsto> Listed i))"
| life_refuses: "L r = None \<Longrightarrow> limit \<le> card (listed L) \<Longrightarrow> life_step limit (Refuses r) L (L(r \<mapsto> Ended))"
| life_takes: "R \<subseteq> listed L \<Longrightarrow> life_step limit (Takes R) L (\<lambda>r. if r \<in> R then Some Taken else L r)"
| life_ends: "L r = Some Taken \<Longrightarrow> life_step limit (Ends r) L (L(r \<mapsto> Ended))"
| life_stays: "life_step limit Stays L L"

inductive_cases life_stepE: "life_step limit l L L'"

text \<open>An ended session stays ended, whatever happens.\<close>

interpretation over: closed_set "life_step limit" "\<lambda>_. True" "\<lambda>L. L r = Some Ended" for limit r
  by unfold_locales (auto simp: listed_def elim!: life_stepE)

section \<open>Tables\<close>

text \<open>A table of sessions, the sessions it refers to, and the ones taken out of it that are still to be closed. \<open>count\<close> tells how
  often a session was closed and cancelled.\<close>

type_synonym 's table_state = "(gostring, nat) gomap \<times> (nat, 's) gomap \<times> nat list"

definition same_counts :: "('s \<Rightarrow> nat \<times> nat) \<Rightarrow> (nat, 's) gomap \<Rightarrow> (nat, 's) gomap \<Rightarrow> bool" where
  "same_counts count h h' \<longleftrightarrow> (\<forall>r. map_option count (gget h' r) = map_option count (gget h r))"

inductive table_step :: "('s \<Rightarrow> nat \<times> nat) \<Rightarrow> nat \<Rightarrow> life_event \<Rightarrow> 's table_state \<Rightarrow> 's table_state \<Rightarrow> bool" for count limit where
  table_opens: "gget h r = None \<Longrightarrow> gget t i = None \<Longrightarrow> glen t < limit \<Longrightarrow> count s = (0, 0) \<Longrightarrow>
    table_step count limit (Opens r i) (t, h, c) (gput i r t, gput r s h, c)"
| table_refuses: "gget h r = None \<Longrightarrow> limit \<le> glen t \<Longrightarrow> same_counts count (gput r s h) h' \<Longrightarrow> count s = (1, 1) \<Longrightarrow>
    table_step count limit (Refuses r) (t, h, c) (t, h', c)"
| table_removes: "gget t i = Some r \<Longrightarrow> table_step count limit (Takes {r}) (t, h, c) (gdel i t, h, r # c)"
| table_reaps: "same_counts count h h' \<Longrightarrow>
    table_step count limit (Takes (set (map snd (filter P t)))) (t, h, c) (filter (\<lambda>e. \<not> P e) t, h', map snd (filter P t) @ c)"
| table_closes: "gget h r = Some s \<Longrightarrow> gget h' = (gget h)(r \<mapsto> s') \<Longrightarrow> count s' = (Suc (fst (count s)), Suc (snd (count s))) \<Longrightarrow>
    table_step count limit (Ends r) (t, h, xs @ r # ys) (t, h', xs @ ys)"
| table_stays: "same_counts count h h' \<Longrightarrow> table_step count limit Stays (t, h, c) (t, h', c)"

text \<open>Sessions owned by the table or by a caller were not closed, all others once.\<close>

definition table_inv :: "('s \<Rightarrow> nat \<times> nat) \<Rightarrow> nat \<Rightarrow> 's table_state \<Rightarrow> bool" where
  "table_inv count limit st \<longleftrightarrow>
     (case st of (t, h, c) \<Rightarrow>
        gwf t \<and> glen t \<le> limit \<and> distinct (map snd t @ c) \<and> set (map snd t @ c) \<subseteq> gkeys h \<and>
        (\<forall>r s. gget h r = Some s \<longrightarrow> count s = (if r \<in> set (map snd t @ c) then (0, 0) else (1, 1))))"

definition life :: "'s table_state \<Rightarrow> lifecycle" where
  "life st r =
     (case st of (t, h, c) \<Rightarrow>
        if gget h r = None then None
        else if r \<in> set c then Some Taken
        else (case map_of (map prod.swap t) r of Some i \<Rightarrow> Some (Listed i) | None \<Rightarrow> Some Ended))"

lemma map_fst_swap: "map fst (map prod.swap t) = map snd t"
  by (induction t) auto

lemma set_swap: "(r, i) \<in> set (map prod.swap t) \<longleftrightarrow> (i, r) \<in> set t"
  by (induction t) auto

lemma swap_Some: "distinct (map snd t) \<Longrightarrow> map_of (map prod.swap t) r = Some i \<longleftrightarrow> (i, r) \<in> set t"
  using map_of_eq_Some_iff [of "map prod.swap t" r i] by (simp only: map_fst_swap set_swap)

lemma swap_None: "map_of (map prod.swap t) r = None \<longleftrightarrow> r \<notin> snd ` set t"
  by (induction t) (auto split: if_splits)

lemma life_Listed:
  assumes "table_inv count limit (t, h, c)"
  shows "life (t, h, c) r = Some (Listed i) \<longleftrightarrow> gget t i = Some r"
proof -
  have inv: "gwf t" "distinct (map snd t)" "set (map snd t @ c) \<subseteq> gkeys h" "snd ` set t \<inter> set c = {}"
    using assms by (auto simp: table_inv_def)
  have "life (t, h, c) r = Some (Listed i) \<longleftrightarrow> gget h r \<noteq> None \<and> r \<notin> set c \<and> map_of (map prod.swap t) r = Some i"
    by (cases "map_of (map prod.swap t) r") (auto simp: life_def)
  moreover have "gget h r \<noteq> None \<and> r \<notin> set c" if "(i, r) \<in> set t"
    using that inv(3,4) by (force simp: gget_None_iff)
  ultimately show ?thesis using swap_Some [OF inv(2)] gget_Some_iff [OF inv(1)] by blast
qed

lemma life_Taken: "table_inv count limit (t, h, c) \<Longrightarrow> life (t, h, c) r = Some Taken \<longleftrightarrow> r \<in> set c"
  by (auto simp: life_def table_inv_def gget_None_iff split: option.splits)

lemma life_None: "life (t, h, c) r = None \<longleftrightarrow> gget h r = None"
  by (simp add: life_def split: option.splits)

lemma card_listed:
  assumes "table_inv count limit (t, h, c)"
  shows "card (listed (life (t, h, c))) = glen t"
proof -
  have "listed (life (t, h, c)) = snd ` set t"
    using assms by (force simp: listed_def life_Listed [OF assms] gget_Some_iff table_inv_def)
  moreover have "card (set (map snd t)) = length (map snd t)" using assms by (intro distinct_card) (simp add: table_inv_def)
  ultimately show ?thesis by (simp add: glen_def)
qed

lemma same_countsD: "same_counts count h h' \<Longrightarrow> gget h' r = Some s \<Longrightarrow> \<exists>s0. gget h r = Some s0 \<and> count s = count s0"
  unfolding same_counts_def by (metis map_option_eq_Some)

lemma same_counts_keys: "same_counts count h h' \<Longrightarrow> gget h' r = None \<longleftrightarrow> gget h r = None"
  unfolding same_counts_def by (metis map_option_is_None)

lemma same_counts_gkeys: "same_counts count h h' \<Longrightarrow> gkeys h' = gkeys h"
  using same_counts_keys [of count h h'] by (auto simp: gget_None_iff)

lemma gdel_split:
  assumes "gwf t" "gget t i = Some r"
  obtains xs ys where "t = xs @ (i, r) # ys" "gdel i t = xs @ ys"
proof -
  obtain xs ys where t: "t = xs @ (i, r) # ys" using split_list [OF gget_SomeD [OF assms(2)]] by blast
  have "i \<notin> gkeys xs" "i \<notin> gkeys ys" using assms(1) by (auto simp: t gwf_def gkeys_def)
  then have "gdel i (xs @ (i, r) # ys) = xs @ ys" by (induction xs) (auto simp: gdel_absent gget_None_iff)
  then have "gdel i t = xs @ ys" by (simp add: t)
  then show thesis using t that by blast
qed

lemma table_step_inv:
  assumes "table_step count limit l st st'" "table_inv count limit st"
  shows "table_inv count limit st'"
  using assms
proof (cases rule: table_step.cases)
  case (table_opens h r t i s c)
  then have "r \<notin> set (map snd t @ c)" using assms(2) by (auto simp: table_inv_def gget_None_iff)
  moreover have "gwf (gput i r t)" "glen (gput i r t) = Suc (glen t)"
    using table_opens assms(2) by (auto simp: table_inv_def glen_gput gget_None_iff)
  moreover note gput_new [OF table_opens(5), of r]
  ultimately show ?thesis using table_opens assms(2) by (auto simp: table_inv_def split: if_splits)
next
  case (table_refuses h r t s h' c)
  have r: "r \<notin> set (map snd t @ c)" using table_refuses assms(2) by (auto simp: table_inv_def gget_None_iff)
  have "count z = (if q \<in> set (map snd t @ c) then (0, 0) else (1, 1))" if "gget h' q = Some z" for q z
    using same_countsD [OF table_refuses(6) that] table_refuses(7) r assms(2) by (auto simp: table_inv_def table_refuses(2) split: if_splits)
  then show ?thesis using table_refuses assms(2) same_counts_gkeys [OF table_refuses(6)] by (auto simp: table_inv_def)
next
  case (table_removes t i r h c)
  then have "gwf t" using assms(2) by (simp add: table_inv_def)
  then obtain xs ys where t: "t = xs @ (i, r) # ys" "gdel i t = xs @ ys" by (rule gdel_split [OF _ table_removes(4)])
  show ?thesis
    using assms(2) [unfolded table_removes(2) t(1)] unfolding table_removes(3) t(2) by (auto simp: table_inv_def glen_def gwf_def)
next
  case (table_reaps h h' P t c)
  let ?own = "set (map snd t @ c)" and ?own' = "set (map snd (filter (\<lambda>e. \<not> P e) t) @ map snd (filter P t) @ c)"
  have own: "?own' = ?own" by auto
  have "count z = (if q \<in> ?own then (0, 0) else (1, 1))" if "gget h' q = Some z" for q z
    using same_countsD [OF table_reaps(4) that] assms(2) by (auto simp: table_inv_def table_reaps(2) split: if_splits)
  moreover have "distinct (map snd (filter (\<lambda>e. \<not> P e) t) @ map snd (filter P t) @ c)"
    using assms(2) distinct_partition [of t P] by (auto simp: table_inv_def table_reaps(2))
  moreover have "glen (filter (\<lambda>e. \<not> P e) t) \<le> limit" "gwf (filter (\<lambda>e. \<not> P e) t)" "?own \<subseteq> gkeys h'"
    using assms(2) glen_filter_le [of "\<lambda>e. \<not> P e" t] same_counts_gkeys [OF table_reaps(4)] by (auto simp: table_inv_def table_reaps(2))
  ultimately show ?thesis unfolding table_inv_def table_reaps(3) prod.case own by blast
next
  case (table_closes h r s h' s' t xs ys)
  then have "r \<notin> set (map snd t @ xs @ ys)" "gkeys h' = gkeys h" using assms(2) by (auto simp: table_inv_def gkeys_dom)
  moreover have "count s = (0, 0)" using table_closes assms(2) by (auto simp: table_inv_def)
  ultimately show ?thesis using table_closes assms(2) unfolding table_inv_def by (auto split: if_splits)
next
  case (table_stays h h' t c)
  have "count z = (if q \<in> set (map snd t @ c) then (0, 0) else (1, 1))" if "gget h' q = Some z" for q z
    using same_countsD [OF table_stays(4) that] assms(2) by (auto simp: table_inv_def table_stays(2) split: if_splits)
  then show ?thesis using table_stays assms(2) same_counts_gkeys [OF table_stays(4)] by (auto simp: table_inv_def)
qed

lemma table_inv_count:
  "table_inv count limit (t, h, c) \<Longrightarrow> gget h r = Some s \<Longrightarrow> count s = (if r \<in> snd ` set t \<or> r \<in> set c then (0, 0) else (1, 1))"
  by (simp add: table_inv_def)

lemma swap_filter: "q \<notin> snd ` set (filter P t) \<Longrightarrow> map_of (map prod.swap (filter (\<lambda>e. \<not> P e) t)) q = map_of (map prod.swap t) q"
  by (induction t) (auto split: if_splits)

lemma table_step_life:
  assumes "table_step count limit l st st'" "table_inv count limit st"
  shows "life_step limit l (life st) (life st')"
  using assms
proof (cases rule: table_step.cases)
  case (table_opens h r t i s c)
  note inv = assms(2) [unfolded table_opens(2)]
  have "r \<notin> set c" "r \<notin> snd ` set t" using inv table_opens(4) by (auto simp: table_inv_def gget_None_iff)
  then have "life st' = (life (t, h, c))(r \<mapsto> Listed i)"
    using swap_None [of t r] by (auto simp: life_def fun_eq_iff table_opens(3) gput_new [OF table_opens(5)] map_add_def split: option.splits)
  then show ?thesis
    using table_opens life_None life_Listed [OF inv] card_listed [OF inv] by (auto intro!: life_opens)
next
  case (table_refuses h r t s h' c)
  note inv = assms(2) [unfolded table_refuses(2)]
  have "r \<notin> set c" "r \<notin> snd ` set t" using inv table_refuses(4) by (auto simp: table_inv_def gget_None_iff)
  then have "life st' = (life (t, h, c))(r \<mapsto> Ended)"
    using same_counts_keys [OF table_refuses(6)] swap_None [of t r] by (auto simp: life_def fun_eq_iff table_refuses(3) split: option.splits)
  then show ?thesis using table_refuses life_None card_listed [OF inv] by (auto intro!: life_refuses)
next
  case (table_removes t i r h c)
  note inv = assms(2) [unfolded table_removes(2)]
  have "gwf t" using inv by (simp add: table_inv_def)
  then obtain xs ys where t: "t = xs @ (i, r) # ys" "gdel i t = xs @ ys" by (rule gdel_split [OF _ table_removes(4)])
  have "gget h r \<noteq> None" using inv t(1) by (auto simp: table_inv_def gget_None_iff)
  then have "life st' = (\<lambda>q. if q \<in> {r} then Some Taken else life (t, h, c) q)"
    unfolding table_removes(3) t(2) by (auto simp: life_def fun_eq_iff t(1) map_add_def split: option.splits)
  moreover have "r \<in> listed (life (t, h, c))" using life_Listed [OF inv] table_removes(4) by (auto simp: listed_def)
  ultimately show ?thesis using table_removes(1,2) life_takes [of "{r}"] by simp
next
  case (table_reaps h h' P t c)
  note inv = assms(2) [unfolded table_reaps(2)]
  let ?R = "set (map snd (filter P t))"
  have R: "?R \<subseteq> gkeys h" "?R \<inter> set c = {}" using inv by (auto simp: table_inv_def)
  have "life st' = (\<lambda>q. if q \<in> ?R then Some Taken else life (t, h, c) q)"
    using R same_counts_keys [OF table_reaps(4)] swap_filter [of _ P t] by (auto simp: life_def fun_eq_iff table_reaps(3) gget_None_iff)
  moreover have "?R \<subseteq> listed (life (t, h, c))"
    using inv by (auto simp: listed_def life_Listed [OF inv] gget_Some_iff table_inv_def)
  ultimately show ?thesis using table_reaps(1,2) life_takes [of ?R] by simp
next
  case (table_closes h r s h' s' t xs ys)
  note inv = assms(2) [unfolded table_closes(2)]
  have "r \<notin> set xs" "r \<notin> set ys" "r \<notin> snd ` set t" using inv by (auto simp: table_inv_def)
  then have "life st' = (life (t, h, xs @ r # ys))(r \<mapsto> Ended)"
    using table_closes(4,5) swap_None [of t r] by (auto simp: life_def fun_eq_iff table_closes(3) split: option.splits)
  then show ?thesis using table_closes life_Taken [OF inv] by (auto intro!: life_ends)
next
  case (table_stays h h' t c)
  then have "life st' = life st" using same_counts_keys [OF table_stays(4)] by (auto simp: life_def fun_eq_iff)
  then show ?thesis using table_stays(1) life_stays by simp
qed

interpretation table: simulation "table_step count limit" "table_inv count limit" "life_step limit" "\<lambda>l. l" life for count limit
  by unfold_locales (auto intro: table_step_inv table_step_life)

section \<open>Both kinds of session\<close>

definition exec_count :: "ExecSession \<Rightarrow> nat \<times> nat" where
  "exec_count s = (exec_stdin_closes s, exec_cancels s)"

definition pf_count :: "PortForwardSession \<Rightarrow> nat \<times> nat" where
  "pf_count s = (pf_writer_closes s, pf_cancels s)"

text \<open>The store with the exec and the port-forward sessions that were taken out and are to be closed.\<close>

type_synonym claimed_world = "sessions_world \<times> nat list \<times> nat list"

definition exec_view :: "claimed_world \<Rightarrow> ExecSession table_state" where
  "exec_view st = (case st of (w, ce, cp) \<Rightarrow> (exec_tab w, exec_heap w, ce))"

definition pf_view :: "claimed_world \<Rightarrow> PortForwardSession table_state" where
  "pf_view st = (case st of (w, ce, cp) \<Rightarrow> (pf_tab w, pf_heap w, cp))"

text \<open>What a caller learns of the start of a session.\<close>

definition start_event :: "nat \<Rightarrow> gostring \<Rightarrow> 'a res \<Rightarrow> life_event" where
  "start_event r i res =
     (case res of
        Inr _ \<Rightarrow> Opens r i
      | Inl (DomainError ErrorCodeResourceExhausted _ _) \<Rightarrow> Refuses r
      | Inl _ \<Rightarrow> Stays)"

inductive session_step :: "life_event \<times> life_event \<Rightarrow> claimed_world \<Rightarrow> claimed_world \<Rightarrow> bool" where
  exec_starts: "gget (exec_heap w) r = None \<Longrightarrow> gget (exec_tab w) uuid = None \<Longrightarrow> StartExec w r uuid params = (res, w') \<Longrightarrow>
    session_step (start_event r uuid res, Stays) (w, ce, cp) (w', ce, cp)"
| exec_finishes: "session_step (Stays, Stays) (w, ce, cp) (exec_finish w r result, ce, cp)"
| exec_writes: "session_step (Stays, Stays) (w, ce, cp) (snd (WriteExec w i data outcome), ce, cp)"
| exec_resizes: "session_step (Stays, Stays) (w, ce, cp) (snd (ResizeExec w i rows cols), ce, cp)"
| exec_removes: "RemoveExec w i = (Some r, w') \<Longrightarrow> session_step (Takes {r}, Stays) (w, ce, cp) (w', r # ce, cp)"
| exec_closes: "session_step (Ends r, Stays) (w, xs @ r # ys, cp) (exec_cancel_close r w, xs @ ys, cp)"
| pf_starts: "gget (pf_heap w) r = None \<Longrightarrow> gget (pf_tab w) uuid = None \<Longrightarrow> StartPortForward w r uuid cl ns name port = (res, w') \<Longrightarrow>
    session_step (Stays, start_event r uuid res) (w, ce, cp) (w', ce, cp)"
| pf_finishes: "session_step (Stays, Stays) (w, ce, cp) (pf_finish w r result, ce, cp)"
| pf_writes: "session_step (Stays, Stays) (w, ce, cp) (snd (WritePortForward w i data outcome), ce, cp)"
| pf_removes: "RemovePortForward w i = (Some r, w') \<Longrightarrow> session_step (Stays, Takes {r}) (w, ce, cp) (w', ce, r # cp)"
| pf_closes: "session_step (Stays, Ends r) (w, ce, xs @ r # ys) (pf_cancel_close r w, ce, xs @ ys)"
| both_reaped: "reap_phase1 w = (stale, w') \<Longrightarrow>
    session_step (Takes (set (fst stale)), Takes (set (snd stale))) (w, ce, cp) (w', fst stale @ ce, snd stale @ cp)"

lemma gget_upd_pf:
  "gget (pf_heap (upd_pf r g w)) x = (if x = r then map_option g (gget (pf_heap w) x) else gget (pf_heap w) x)"
  by (auto simp: upd_pf_def split: option.splits)

lemma gget_take_pf_done:
  "gget (take_pf_done r h) x = (if x = r then map_option (\<lambda>s. s\<lparr>pf_Done := None\<rparr>) (gget h x) else gget h x)"
  by (auto simp: take_pf_done_def split: option.splits)

lemma gget_pf_cancel_close:
  "gget (pf_heap (pf_cancel_close r w)) =
     (gget (pf_heap w))(r := map_option (\<lambda>s. s\<lparr>pf_cancels := Suc (pf_cancels s), pf_writer_closes := Suc (pf_writer_closes s)\<rparr>) (gget (pf_heap w) r))"
  by (auto simp: pf_cancel_close_def fun_eq_iff split: option.splits)

lemma upd_pf_frame [simp]:
  "exec_tab (upd_pf r g w) = exec_tab w" "pf_tab (upd_pf r g w) = pf_tab w" "exec_heap (upd_pf r g w) = exec_heap w"
  by (simp_all add: upd_pf_def split: option.splits)

lemma same_counts_refl [simp]: "same_counts count h h"
  by (simp add: same_counts_def)

lemma same_counts_trans: "same_counts count h h1 \<Longrightarrow> same_counts count h1 h2 \<Longrightarrow> same_counts count h h2"
  by (simp add: same_counts_def)

lemma same_countsI:
  assumes "\<And>x. gget h' x = (if x = r then map_option g (gget h x) else gget h x)" "\<And>s. count (g s) = count s"
  shows "same_counts count h h'"
  unfolding same_counts_def
proof
  fix x show "map_option count (gget h' x) = map_option count (gget h x)"
    by (cases "gget h x") (auto simp: assms)
qed

lemma same_counts_upd:
  "(\<And>s. exec_count (g s) = exec_count s) \<Longrightarrow> same_counts exec_count (exec_heap w) (exec_heap (upd_exec r g w))"
  "(\<And>s. pf_count (k s) = pf_count s) \<Longrightarrow> same_counts pf_count (pf_heap w) (pf_heap (upd_pf r k w))"
  by (rule same_countsI, rule gget_upd_exec gget_upd_pf, simp)+

lemma same_counts_take: "same_counts exec_count h (take_exec_done r h)" "same_counts pf_count p (take_pf_done r p)"
  by (rule same_countsI, rule gget_take_exec_done gget_take_pf_done, simp add: exec_count_def pf_count_def)+

lemma same_counts_reap_exec: "reap_exec m h = (kept, stale, h') \<Longrightarrow> same_counts exec_count h h'"
proof (induction m h arbitrary: kept stale h' rule: reap_exec.induct)
  case (2 i r m h)
  show ?case
  proof (cases "exec_done h r")
    case True
    then obtain stale' where "reap_exec m (take_exec_done r h) = (kept, stale', h')" using "2.prems" by (auto split: prod.splits)
    from "2.IH"(1) [OF True this] show ?thesis by (rule same_counts_trans [OF same_counts_take(1)])
  next
    case False
    then obtain kept' where "reap_exec m h = (kept', stale, h')" using "2.prems" by (auto split: prod.splits)
    from "2.IH"(2) [OF False this] show ?thesis .
  qed
qed simp

lemma same_counts_reap_pf: "reap_pf m h = (kept, stale, h') \<Longrightarrow> same_counts pf_count h h'"
proof (induction m h arbitrary: kept stale h' rule: reap_pf.induct)
  case (2 i r m h)
  show ?case
  proof (cases "pf_done h r")
    case True
    then obtain stale' where "reap_pf m (take_pf_done r h) = (kept, stale', h')" using "2.prems" by (auto split: prod.splits)
    from "2.IH"(1) [OF True this] show ?thesis by (rule same_counts_trans [OF same_counts_take(2)])
  next
    case False
    then obtain kept' where "reap_pf m h = (kept', stale, h')" using "2.prems" by (auto split: prod.splits)
    from "2.IH"(2) [OF False this] show ?thesis .
  qed
qed simp

lemma view_simps [simp]:
  "exec_view (w, ce, cp) = (exec_tab w, exec_heap w, ce)" "pf_view (w, ce, cp) = (pf_tab w, pf_heap w, cp)"
  by (simp_all add: exec_view_def pf_view_def)

text \<open>The start of a session of either kind.\<close>

lemma StartExec_step:
  assumes "gget (exec_heap w) r = None" "gget (exec_tab w) uuid = None" "StartExec w r uuid params = (res, w')"
  shows "table_step exec_count maxExecSessions (start_event r uuid res) (exec_tab w, exec_heap w, ce) (exec_tab w', exec_heap w', ce)"
    "pf_tab w' = pf_tab w" "pf_heap w' = pf_heap w"
proof -
  let ?s = "new_exec_session uuid params" and ?w1 = "w\<lparr>exec_heap := gput r (new_exec_session uuid params) (exec_heap w)\<rparr>"
  have "(\<exists>f m. res = Inl (invalid f m)) \<and> w' = w" if "sp_Name params = [] \<or> sp_Command params = []"
    using assms(3) that by (auto simp: StartExec_def split: if_splits)
  moreover have "(\<exists>m. res = Inl (DomainError ErrorCodeResourceExhausted m None)) \<and> w' = upd_exec r abandon_exec ?w1"
    if "\<not> (sp_Name params = [] \<or> sp_Command params = [])" "maxExecSessions \<le> glen (exec_tab w)"
    using assms(3) that by (auto simp: StartExec_def PutExec_def Let_def)
  moreover have "(\<exists>x. res = Inr x) \<and> w' = set_exec_tab (gput uuid r (exec_tab w)) ?w1" if "\<not> (sp_Name params = [] \<or> sp_Command params = [])" "\<not> maxExecSessions \<le> glen (exec_tab w)"
    using assms(3) that by (auto simp: StartExec_def PutExec_def Let_def exec_id_def new_exec_session_def)
  ultimately consider (invalid) f m where "res = Inl (invalid f m)" "w' = w"
    | (full) m where "maxExecSessions \<le> glen (exec_tab w)" "res = Inl (DomainError ErrorCodeResourceExhausted m None)" "w' = upd_exec r abandon_exec ?w1"
    | (stored) x where "glen (exec_tab w) < maxExecSessions" "res = Inr x" "w' = set_exec_tab (gput uuid r (exec_tab w)) ?w1"
    by (meson not_le)
  then show "table_step exec_count maxExecSessions (start_event r uuid res) (exec_tab w, exec_heap w, ce) (exec_tab w', exec_heap w', ce)"
  proof cases
    case invalid
    then show ?thesis using table_stays [of exec_count "exec_heap w"] by (simp add: start_event_def invalid_def)
  next
    case full
    have "same_counts exec_count (gput r (abandon_exec ?s) (exec_heap w)) (exec_heap w')"
      by (auto simp: same_counts_def full(3) gget_upd_exec)
    moreover have "exec_count (abandon_exec ?s) = (1, 1)" by (simp add: exec_count_def abandon_exec_def new_exec_session_def)
    ultimately show ?thesis using table_refuses [OF assms(1) full(1)] full(2,3) by (simp add: start_event_def)
  next
    case stored
    have "exec_count ?s = (0, 0)" by (simp add: exec_count_def new_exec_session_def)
    from table_opens [where count = exec_count, OF assms(1,2) stored(1) this] show ?thesis using stored(2,3) by (simp add: start_event_def)
  qed
  show "pf_tab w' = pf_tab w" "pf_heap w' = pf_heap w"
    using assms(3) by (auto simp: StartExec_def PutExec_def Let_def split: if_splits)
qed

lemma StartPortForward_step:
  assumes "gget (pf_heap w) r = None" "gget (pf_tab w) uuid = None" "StartPortForward w r uuid cl ns name port = (res, w')"
  shows "table_step pf_count maxPortForwardSessions (start_event r uuid res) (pf_tab w, pf_heap w, cp) (pf_tab w', pf_heap w', cp)"
    "exec_tab w' = exec_tab w" "exec_heap w' = exec_heap w"
proof -
  let ?s = "new_pf_session uuid" and ?w1 = "w\<lparr>pf_heap := gput r (new_pf_session uuid) (pf_heap w)\<rparr>"
  have "(\<exists>f m. res = Inl (invalid f m)) \<and> w' = w" if "name = [] \<or> sint port \<le> 0 \<or> sint port > 65535"
    using assms(3) that by (auto simp: StartPortForward_def split: if_splits)
  moreover have "(\<exists>m. res = Inl (DomainError ErrorCodeResourceExhausted m None)) \<and> w' = upd_pf r abandon_pf ?w1"
    if "\<not> (name = [] \<or> sint port \<le> 0 \<or> sint port > 65535)" "maxPortForwardSessions \<le> glen (pf_tab w)"
    using assms(3) that by (auto simp: StartPortForward_def PutPortForward_def Let_def)
  moreover have "(\<exists>x. res = Inr x) \<and> w' = set_pf_tab (gput uuid r (pf_tab w)) ?w1" if "\<not> (name = [] \<or> sint port \<le> 0 \<or> sint port > 65535)" "\<not> maxPortForwardSessions \<le> glen (pf_tab w)"
    using assms(3) that by (auto simp: StartPortForward_def PutPortForward_def Let_def pf_id_def new_pf_session_def)
  ultimately consider (invalid) f m where "res = Inl (invalid f m)" "w' = w"
    | (full) m where "maxPortForwardSessions \<le> glen (pf_tab w)" "res = Inl (DomainError ErrorCodeResourceExhausted m None)" "w' = upd_pf r abandon_pf ?w1"
    | (stored) x where "glen (pf_tab w) < maxPortForwardSessions" "res = Inr x" "w' = set_pf_tab (gput uuid r (pf_tab w)) ?w1"
    by (meson not_le)
  then show "table_step pf_count maxPortForwardSessions (start_event r uuid res) (pf_tab w, pf_heap w, cp) (pf_tab w', pf_heap w', cp)"
  proof cases
    case invalid
    then show ?thesis using table_stays [of pf_count "pf_heap w"] by (simp add: start_event_def invalid_def)
  next
    case full
    have "same_counts pf_count (gput r (abandon_pf ?s) (pf_heap w)) (pf_heap w')"
      by (auto simp: same_counts_def full(3) gget_upd_pf)
    moreover have "pf_count (abandon_pf ?s) = (1, 1)" by (simp add: pf_count_def abandon_pf_def new_pf_session_def)
    ultimately show ?thesis using table_refuses [OF assms(1) full(1)] full(2,3) by (simp add: start_event_def)
  next
    case stored
    have "pf_count ?s = (0, 0)" by (simp add: pf_count_def new_pf_session_def)
    from table_opens [where count = pf_count, OF assms(1,2) stored(1) this] show ?thesis using stored(2,3) by (simp add: start_event_def)
  qed
  show "exec_tab w' = exec_tab w" "exec_heap w' = exec_heap w"
    using assms(3) by (auto simp: StartPortForward_def PutPortForward_def Let_def split: if_splits)
qed

definition both_inv :: "claimed_world \<Rightarrow> bool" where
  "both_inv st \<longleftrightarrow> table_inv exec_count maxExecSessions (exec_view st) \<and> table_inv pf_count maxPortForwardSessions (pf_view st)"

definition both_life :: "claimed_world \<Rightarrow> lifecycle \<times> lifecycle" where
  "both_life st = (life (exec_view st), life (pf_view st))"

definition both_step :: "life_event \<times> life_event \<Rightarrow> lifecycle \<times> lifecycle \<Rightarrow> lifecycle \<times> lifecycle \<Rightarrow> bool" where
  "both_step l L L' \<longleftrightarrow>
     life_step maxExecSessions (fst l) (fst L) (fst L') \<and> life_step maxPortForwardSessions (snd l) (snd L) (snd L')"

text \<open>Operations that touch no more than one session.\<close>

lemma exec_touch_counts:
  "same_counts exec_count (exec_heap w) (exec_heap (exec_finish w r result))"
  "same_counts exec_count (exec_heap w) (exec_heap (snd (WriteExec w i data outcome)))"
  "same_counts exec_count (exec_heap w) (exec_heap (snd (ResizeExec w i rows cols)))"
  unfolding exec_finish_def WriteExec_def ResizeExec_def Let_def
  by (auto simp: exec_count_def intro!: same_counts_upd same_counts_take split: option.splits write_outcome.splits)

lemma pf_touch_counts:
  "same_counts pf_count (pf_heap w) (pf_heap (pf_finish w r result))"
  "same_counts pf_count (pf_heap w) (pf_heap (snd (WritePortForward w i data outcome)))"
  unfolding pf_finish_def WritePortForward_def Let_def
  by (auto simp: pf_count_def intro!: same_counts_upd same_counts_take split: option.splits write_outcome.splits)

lemma touch_frames [simp]:
  "exec_tab (exec_finish w r result) = exec_tab w" "pf_tab (exec_finish w r result) = pf_tab w" "pf_heap (exec_finish w r result) = pf_heap w"
  "exec_tab (snd (WriteExec w i data outcome)) = exec_tab w" "pf_tab (snd (WriteExec w i data outcome)) = pf_tab w"
  "pf_heap (snd (WriteExec w i data outcome)) = pf_heap w"
  "exec_tab (snd (ResizeExec w i rows cols)) = exec_tab w" "pf_tab (snd (ResizeExec w i rows cols)) = pf_tab w"
  "pf_heap (snd (ResizeExec w i rows cols)) = pf_heap w"
  "exec_tab (pf_finish w r result) = exec_tab w" "pf_tab (pf_finish w r result) = pf_tab w" "exec_heap (pf_finish w r result) = exec_heap w"
  "exec_tab (snd (WritePortForward w i data outcome)) = exec_tab w" "pf_tab (snd (WritePortForward w i data outcome)) = pf_tab w"
  "exec_heap (snd (WritePortForward w i data outcome)) = exec_heap w"
  by (auto simp: exec_finish_def WriteExec_def ResizeExec_def pf_finish_def WritePortForward_def Let_def split: option.splits write_outcome.splits)

lemma reap_step:
  assumes "both_inv (w, ce, cp)" "reap_phase1 w = (stale, w')"
  shows "table_step exec_count maxExecSessions (Takes (set (fst stale))) (exec_tab w, exec_heap w, ce) (exec_tab w', exec_heap w', fst stale @ ce)"
    "table_step pf_count maxPortForwardSessions (Takes (set (snd stale))) (pf_tab w, pf_heap w, cp) (pf_tab w', pf_heap w', snd stale @ cp)"
proof -
  obtain keptE staleE hE where E: "reap_exec (exec_tab w) (exec_heap w) = (keptE, staleE, hE)" by (metis prod_cases3)
  obtain keptP staleP hP where P: "reap_pf (pf_tab w) (pf_heap w) = (keptP, staleP, hP)" by (metis prod_cases3)
  have w': "exec_tab w' = keptE" "exec_heap w' = hE" "pf_tab w' = keptP" "pf_heap w' = hP" "fst stale = staleE" "snd stale = staleP"
    using assms(2) E P by (auto simp: reap_phase1_def)
  have d: "distinct (map snd (exec_tab w))" "distinct (map snd (pf_tab w))" using assms(1) by (auto simp: both_inv_def table_inv_def)
  let ?QE = "\<lambda>e. exec_done (exec_heap w) (snd e)" and ?QP = "\<lambda>e. pf_done (pf_heap w) (snd e)"
  have tE: "keptE = filter (\<lambda>e. \<not> ?QE e) (exec_tab w)" "staleE = map snd (filter ?QE (exec_tab w))"
    using reap_exec_tables [OF d(1) E] by (simp_all add: case_prod_unfold)
  have tP: "keptP = filter (\<lambda>e. \<not> ?QP e) (pf_tab w)" "staleP = map snd (filter ?QP (pf_tab w))"
    using reap_pf_tables [OF d(2) P] by (simp_all add: case_prod_unfold)
  show "table_step exec_count maxExecSessions (Takes (set (fst stale))) (exec_tab w, exec_heap w, ce) (exec_tab w', exec_heap w', fst stale @ ce)"
    unfolding w' tE by (rule table_reaps [OF same_counts_reap_exec [OF E]])
  show "table_step pf_count maxPortForwardSessions (Takes (set (snd stale))) (pf_tab w, pf_heap w, cp) (pf_tab w', pf_heap w', snd stale @ cp)"
    unfolding w' tP by (rule table_reaps [OF same_counts_reap_pf [OF P]])
qed

lemma session_step_tables:
  assumes "session_step l st st'" "both_inv st"
  shows "table_step exec_count maxExecSessions (fst l) (exec_view st) (exec_view st') \<and>
    table_step pf_count maxPortForwardSessions (snd l) (pf_view st) (pf_view st')"
  using assms
proof (cases rule: session_step.cases)
  case (exec_starts w r uuid params res w' ce cp)
  then show ?thesis using StartExec_step [OF exec_starts(4-6)] by (simp add: table_stays)
next
  case (pf_starts w r uuid cl ns name port res w' ce cp)
  then show ?thesis using StartPortForward_step [OF pf_starts(4-6)] by (simp add: table_stays)
next
  case (exec_removes w i r w' ce cp)
  then have "gget (exec_tab w) i = Some r" "w' = set_exec_tab (gdel i (exec_tab w)) w" by (auto simp: RemoveExec_def split: option.splits)
  then show ?thesis using exec_removes table_removes [of "exec_tab w" i r] by (simp add: table_stays)
next
  case (pf_removes w i r w' ce cp)
  then have "gget (pf_tab w) i = Some r" "w' = set_pf_tab (gdel i (pf_tab w)) w" by (auto simp: RemovePortForward_def split: option.splits)
  then show ?thesis using pf_removes table_removes [of "pf_tab w" i r] by (simp add: table_stays)
next
  case (exec_closes r w xs ys cp)
  then have "r \<in> gkeys (exec_heap w)" using assms(2) by (simp add: both_inv_def table_inv_def)
  then obtain z where z: "gget (exec_heap w) r = Some z" by (auto simp: gkeys_dom)
  let ?z = "z\<lparr>exec_cancels := Suc (exec_cancels z), exec_stdin_closes := Suc (exec_stdin_closes z)\<rparr>"
  have "gget (exec_heap (exec_cancel_close r w)) = (gget (exec_heap w))(r \<mapsto> ?z)" by (auto simp: fun_eq_iff gget_exec_cancel_close z)
  from table_closes [where count = exec_count, OF z this] show ?thesis using exec_closes by (simp add: table_stays exec_count_def)
next
  case (pf_closes r w ce xs ys)
  then have "r \<in> gkeys (pf_heap w)" using assms(2) by (simp add: both_inv_def table_inv_def)
  then obtain z where z: "gget (pf_heap w) r = Some z" by (auto simp: gkeys_dom)
  let ?z = "z\<lparr>pf_cancels := Suc (pf_cancels z), pf_writer_closes := Suc (pf_writer_closes z)\<rparr>"
  have "gget (pf_heap (pf_cancel_close r w)) = (gget (pf_heap w))(r \<mapsto> ?z)" by (simp add: gget_pf_cancel_close z)
  from table_closes [where count = pf_count, OF z this] show ?thesis using pf_closes by (simp add: table_stays pf_count_def)
next
  case (both_reaped w stale w' ce cp)
  then show ?thesis using reap_step [OF assms(2) [unfolded both_reaped(2)] both_reaped(4)] by simp
qed (simp_all add: table_stays exec_touch_counts pf_touch_counts)

interpretation sessions: simulation session_step both_inv both_step "\<lambda>l. l" both_life
proof unfold_locales
  fix l st st' assume st: "session_step l st st'" and inv: "both_inv st"
  note steps = session_step_tables [OF st inv]
  show "both_inv st'" using steps inv unfolding both_inv_def by (blast intro: table.preserved)
  show "both_step l (both_life st) (both_life st')"
    using steps inv by (auto simp: both_inv_def both_step_def both_life_def intro: table.simulated)
qed

lemma both_inv_new: "both_inv (new_world, [], [])"
  by (simp add: both_inv_def table_inv_def new_world_def NewSessionStore_def)

lemma both_life_new: "both_life (new_world, [], []) = (\<lambda>_. None, \<lambda>_. None)"
  by (simp add: both_life_def life_def fun_eq_iff new_world_def NewSessionStore_def)

section \<open>Properties\<close>

text \<open>Claim C13. The session store and the operations of the runtime use case implement the life cycle of sessions: every run from
  the empty store, with any number of exec and port-forward sessions started, finished, written to, resized, cleaned up,
  reaped and closed in any order, is step by step a run of the specification, in which a session is listed under a
  free identifier if fewer than a hundred are, ended at once if there is no room, taken out once and ended by the one who took
  it. Looking a session up returns exactly the session listed under the identifier.\<close>

theorem sessions_refine_lifecycle:
  assumes "run session_step (new_world, [], []) ls (w, ce, cp)"
  shows "\<exists>LE LP. run both_step (\<lambda>_. None, \<lambda>_. None) ls (LE, LP) \<and>
    (\<forall>i r. GetExec w i = Some r \<longleftrightarrow> LE r = Some (Listed i)) \<and> (\<forall>i r. GetPortForward w i = Some r \<longleftrightarrow> LP r = Some (Listed i)) \<and>
    (\<forall>r. LE r = None \<longleftrightarrow> gget (exec_heap w) r = None) \<and> (\<forall>r. LP r = None \<longleftrightarrow> gget (pf_heap w) r = None)"
proof -
  have inv: "table_inv exec_count maxExecSessions (exec_tab w, exec_heap w, ce)" "table_inv pf_count maxPortForwardSessions (pf_tab w, pf_heap w, cp)"
    using sessions.run_inv [OF assms both_inv_new] by (simp_all add: both_inv_def)
  have "run both_step (\<lambda>_. None, \<lambda>_. None) ls (life (exec_tab w, exec_heap w, ce), life (pf_tab w, pf_heap w, cp))"
    using sessions.run_simulated [OF assms both_inv_new] both_life_new by (simp add: both_life_def)
  then show ?thesis
    by (intro exI conjI) (assumption, simp_all add: GetExec_def GetPortForward_def life_Listed [OF inv(1)] life_Listed [OF inv(2)] life_None)
qed

text \<open>Claim C14. Under every such run the input of a session of either kind is closed and its context cancelled at most once, and
  exactly once as soon as it is neither in the store nor in the hands of the caller that took it out.\<close>

theorem sessions_closed_once:
  assumes "run session_step (new_world, [], []) ls (w, ce, cp)"
  shows "(\<forall>r s. gget (exec_heap w) r = Some s \<longrightarrow>
       exec_stdin_closes s = (if r \<in> snd ` set (exec_tab w) \<or> r \<in> set ce then 0 else 1) \<and> exec_cancels s = exec_stdin_closes s) \<and>
    (\<forall>r s. gget (pf_heap w) r = Some s \<longrightarrow>
       pf_writer_closes s = (if r \<in> snd ` set (pf_tab w) \<or> r \<in> set cp then 0 else 1) \<and> pf_cancels s = pf_writer_closes s)"
proof -
  have inv: "table_inv exec_count maxExecSessions (exec_tab w, exec_heap w, ce)" "table_inv pf_count maxPortForwardSessions (pf_tab w, pf_heap w, cp)"
    using sessions.run_inv [OF assms both_inv_new] by (simp_all add: both_inv_def)
  note counts = table_inv_count [OF inv(1), unfolded exec_count_def] table_inv_count [OF inv(2), unfolded pf_count_def]
  show ?thesis by (intro conjI allI impI) (drule counts, simp split: if_splits)+
qed

section \<open>Witnesses\<close>

definition demo_forwarded :: sessions_world where
  "demo_forwarded = snd (StartPortForward demo_started 0 ''f'' ''c'' ''n'' ''p'' 80)"

text \<open>An exec and a port-forward session are started, the exec session is taken out and closed.\<close>

definition demo_closed :: sessions_world where
  "demo_closed = exec_cancel_close 0 (set_exec_tab [] demo_forwarded)"

lemma demo_forwarded_tables:
  "exec_tab demo_forwarded = [(''s'', 0)]" "exec_heap demo_forwarded = exec_heap demo_started"
  "pf_tab demo_forwarded = [(''f'', 0)]" "pf_heap demo_forwarded = [(0, new_pf_session ''f'')]"
  by (simp_all add: demo_forwarded_def StartPortForward_def PutPortForward_def demo_started_tables pf_id_def Let_def new_pf_session_def maxPortForwardSessions_def)

lemma demo_lifecycle:
  "run session_step (new_world, [], []) [(Opens 0 ''s'', Stays), (Stays, Opens 0 ''f''), (Takes {0}, Stays), (Ends 0, Stays)] (demo_closed, [], [])"
proof -
  have "start_event 0 ''s'' (fst (StartExec new_world 0 ''s'' demo_params)) = Opens 0 ''s''"
    by (simp add: start_event_def StartExec_def PutExec_def new_world_def NewSessionStore_def Let_def demo_params_def maxExecSessions_def)
  then have "session_step (Opens 0 ''s'', Stays) (new_world, [], []) (demo_started, [], [])"
    using exec_starts [of new_world 0 "''s''" demo_params "fst (StartExec new_world 0 ''s'' demo_params)" demo_started]
    by (simp add: demo_started_def new_world_def NewSessionStore_def)
  moreover have "start_event 0 ''f'' (fst (StartPortForward demo_started 0 ''f'' ''c'' ''n'' ''p'' 80)) = Opens 0 ''f''"
    by (simp add: start_event_def StartPortForward_def PutPortForward_def demo_started_tables Let_def maxPortForwardSessions_def)
  then have "session_step (Stays, Opens 0 ''f'') (demo_started, [], []) (demo_forwarded, [], [])"
    using pf_starts [of demo_started 0 "''f''" "''c''" "''n''" "''p''" 80 "fst (StartPortForward demo_started 0 ''f'' ''c'' ''n'' ''p'' 80)" demo_forwarded]
    by (simp add: demo_forwarded_def demo_started_tables)
  moreover have "session_step (Takes {0}, Stays) (demo_forwarded, [], []) (set_exec_tab [] demo_forwarded, [0], [])"
    by (rule exec_removes [of _ "''s''"]) (simp add: RemoveExec_def demo_forwarded_tables)
  moreover have "session_step (Ends 0, Stays) (set_exec_tab [] demo_forwarded, [0], []) (demo_closed, [], [])"
    using exec_closes [of 0 "set_exec_tab [] demo_forwarded" "[]" "[]"] by (simp add: demo_closed_def)
  ultimately show ?thesis by (blast intro: run.intros)
qed

theorem sessions_refine_lifecycle_witness:
  "\<exists>LE LP. run both_step (\<lambda>_. None, \<lambda>_. None) [(Opens 0 ''s'', Stays), (Stays, Opens 0 ''f''), (Takes {0}, Stays), (Ends 0, Stays)] (LE, LP) \<and>
     LP 0 = Some (Listed ''f'') \<and> (\<forall>i. LE 0 \<noteq> Some (Listed i))"
proof -
  have gone: "GetPortForward demo_closed ''f'' = Some 0" "GetExec demo_closed i = None" for i
    by (simp_all add: GetPortForward_def GetExec_def demo_closed_def demo_forwarded_tables)
  obtain LE LP where life: "run both_step (\<lambda>_. None, \<lambda>_. None) [(Opens 0 ''s'', Stays), (Stays, Opens 0 ''f''), (Takes {0}, Stays), (Ends 0, Stays)] (LE, LP)"
      "\<forall>i r. GetExec demo_closed i = Some r \<longleftrightarrow> LE r = Some (Listed i)" "\<forall>i r. GetPortForward demo_closed i = Some r \<longleftrightarrow> LP r = Some (Listed i)"
    using sessions_refine_lifecycle [OF demo_lifecycle] by blast
  have "LP 0 = Some (Listed ''f'')" using life(3) gone(1) by blast
  moreover have "LE 0 \<noteq> Some (Listed i)" for i using life(2) [rule_format, of i 0] gone(2) [of i] by simp
  ultimately show ?thesis using life(1) by blast
qed

theorem sessions_closed_once_witness:
  "\<exists>s p. gget (exec_heap demo_closed) 0 = Some s \<and> exec_stdin_closes s = 1 \<and> gget (pf_heap demo_closed) 0 = Some p \<and> pf_writer_closes p = 0"
proof -
  have "exec_tab demo_closed = []" "pf_tab demo_closed = [(''f'', 0)]" by (simp_all add: demo_closed_def demo_forwarded_tables)
  moreover have "gget (exec_heap demo_closed) 0 \<noteq> None" "gget (pf_heap demo_closed) 0 \<noteq> None"
    by (simp_all add: demo_closed_def gget_exec_cancel_close demo_forwarded_tables demo_started_tables)
  ultimately show ?thesis using sessions_closed_once [OF demo_lifecycle] by force
qed

end
