(* ===== verification/Discovery_Cache.thy ===== *)
theory Discovery_Cache
  imports Resources
begin

text \<open>
  The schema cache of \<^verbatim>\<open>internal/providers/cache/discovery_cache.go\<close>.

  Times are integers in nanoseconds and the clock is read from the world of the wrapped
  discovery client. \<^verbatim>\<open>singleflight.Group.Do\<close> is an argument of \<open>cached_ResolveSchema\<close>; the step
  relation \<open>cache_step\<close> uses its documented contract, at most one flight per key at a time, and
  lets lookups, flights, evictions and the clock interleave.
\<close>

section \<open>State\<close>

definition nanos_minute :: int where
  "nanos_minute = 60000000000"

definition DefaultTTL :: int where
  "DefaultTTL = 10 * nanos_minute"

definition defaultMaxSchemaEntries :: nat where
  "defaultMaxSchemaEntries = 10000"

record 'sc schemaCacheEntry =
  ce_schema :: 'sc
  ce_expiresAt :: int

record 'sc DiscoveryCache =
  ca_ttl :: int
  ca_maxSchemaEntries :: nat
  ca_schemaCache :: "(gostring, 'sc schemaCacheEntry) gomap"

definition WithMaxSchemaEntries :: "int \<Rightarrow> 'sc DiscoveryCache \<Rightarrow> 'sc DiscoveryCache" where
  "WithMaxSchemaEntries n c = (if n > 0 then c\<lparr>ca_maxSchemaEntries := nat n\<rparr> else c)"

definition NewDiscoveryCache :: "int \<Rightarrow> ('sc DiscoveryCache \<Rightarrow> 'sc DiscoveryCache) list \<Rightarrow> 'sc DiscoveryCache" where
  "NewDiscoveryCache ttl opts =
     fold (\<lambda>opt c. opt c) opts \<lparr>ca_ttl = ttl, ca_maxSchemaEntries = defaultMaxSchemaEntries, ca_schemaCache = []\<rparr>"

section \<open>Operations\<close>

definition schemaCacheKey :: "gostring \<Rightarrow> gostring \<Rightarrow> gostring \<Rightarrow> gostring \<Rightarrow> gostring" where
  "schemaCacheKey cluster grp version knd = join_strings [cluster, grp, version, knd] ''/''"

definition evictExpiredSchemas :: "int \<Rightarrow> 'sc DiscoveryCache \<Rightarrow> 'sc DiscoveryCache" where
  "evictExpiredSchemas now c = c\<lparr>ca_schemaCache := filter (\<lambda>(k, e). \<not> now > ce_expiresAt e) (ca_schemaCache c)\<rparr>"

text \<open>The read under the read lock and the expiry check.\<close>

definition cache_lookup :: "int \<Rightarrow> gostring \<Rightarrow> 'sc DiscoveryCache \<Rightarrow> 'sc option" where
  "cache_lookup now key c =
     (case gget (ca_schemaCache c) key of
        None \<Rightarrow> None
      | Some entry \<Rightarrow> if now < ce_expiresAt entry then Some (ce_schema entry) else None)"

text \<open>The insertion under the write lock.\<close>

definition cache_insert :: "int \<Rightarrow> gostring \<Rightarrow> 'sc \<Rightarrow> 'sc DiscoveryCache \<Rightarrow> 'sc DiscoveryCache" where
  "cache_insert now key resolved c =
     (let c1 = (if glen (ca_schemaCache c) \<ge> ca_maxSchemaEntries c then evictExpiredSchemas now c else c) in
      if glen (ca_schemaCache c1) < ca_maxSchemaEntries c1
      then c1\<lparr>ca_schemaCache := gput key \<lparr>ce_schema = resolved, ce_expiresAt = now + ca_ttl c1\<rparr> (ca_schemaCache c1)\<rparr>
      else c1)"

record ('w, 'sc) cache_world =
  cw_cache :: "'sc DiscoveryCache"
  cw_ext :: 'w

definition fetch_schema ::
  "('w \<Rightarrow> int) \<Rightarrow> ('w, 'sc) DiscoveryClient \<Rightarrow> go_context \<Rightarrow> gostring \<Rightarrow> gostring \<Rightarrow> gostring \<Rightarrow> gostring \<Rightarrow>
     (('w, 'sc) cache_world, 'sc) eff" where
  "fetch_schema clock disc ctx cluster grp version knd w =
     (case dc_ResolveSchema disc ctx cluster grp version knd (cw_ext w) of
        (Inl e, x) \<Rightarrow> (Inl e, w\<lparr>cw_ext := x\<rparr>)
      | (Inr resolved, x) \<Rightarrow>
          (Inr resolved,
           w\<lparr>cw_cache := cache_insert (clock x) (schemaCacheKey cluster grp version knd) resolved (cw_cache w), cw_ext := x\<rparr>))"

definition cached_ResolveSchema ::
  "('w \<Rightarrow> int) \<Rightarrow> ('w, 'sc) DiscoveryClient \<Rightarrow>
     (gostring \<Rightarrow> (('w, 'sc) cache_world, 'sc) eff \<Rightarrow> (('w, 'sc) cache_world, 'sc) eff) \<Rightarrow>
     go_context \<Rightarrow> gostring \<Rightarrow> gostring \<Rightarrow> gostring \<Rightarrow> gostring \<Rightarrow> (('w, 'sc) cache_world, 'sc) eff" where
  "cached_ResolveSchema clock disc flight_Do ctx cluster grp version knd w =
     (let key = schemaCacheKey cluster grp version knd in
      case cache_lookup (clock (cw_ext w)) key (cw_cache w) of
        Some schema \<Rightarrow> (Inr schema, w)
      | None \<Rightarrow> flight_Do key (fetch_schema clock disc ctx cluster grp version knd) w)"

text \<open>The ticks of the background goroutine, each at its own time.\<close>

definition StartEvictionLoop :: "int list \<Rightarrow> 'sc DiscoveryCache \<Rightarrow> 'sc DiscoveryCache" where
  "StartEvictionLoop ticks c = fold evictExpiredSchemas ticks c"

section \<open>Interleavings\<close>

text \<open>
  The state: the cache, the clock, the keys in flight with the tuple they were started for, and
  the log of successful fetches (tuple, schema, time). A caller that missed the cache joins or starts
  the flight in a later step, after the read lock is released; by then another flight may have filled
  the cache, so a flight may start whatever the cache holds.
\<close>

datatype gvk_tuple = GVK gostring gostring gostring gostring

fun key_of :: "gvk_tuple \<Rightarrow> gostring" where
  "key_of (GVK cluster grp version knd) = schemaCacheKey cluster grp version knd"

record 'sc cache_state =
  st_cache :: "'sc DiscoveryCache"
  st_now :: int
  st_flights :: "(gostring, gvk_tuple) gomap"
  st_log :: "(gvk_tuple \<times> 'sc \<times> int) list"

inductive cache_step :: "'sc cache_state \<Rightarrow> 'sc cache_state \<Rightarrow> bool" where
  cs_tick: "d \<ge> 0 \<Longrightarrow> cache_step s (s\<lparr>st_now := st_now s + d\<rparr>)"
| cs_start: "gget (st_flights s) (key_of q) = None \<Longrightarrow>
     cache_step s (s\<lparr>st_flights := gput (key_of q) q (st_flights s)\<rparr>)"
| cs_fetched: "gget (st_flights s) k = Some q \<Longrightarrow>
     cache_step s (s\<lparr>st_flights := gdel k (st_flights s), st_log := st_log s @ [(q, v, st_now s)],
                     st_cache := cache_insert (st_now s) k v (st_cache s)\<rparr>)"
| cs_failed: "gget (st_flights s) k = Some q \<Longrightarrow> cache_step s (s\<lparr>st_flights := gdel k (st_flights s)\<rparr>)"
| cs_evict: "cache_step s (s\<lparr>st_cache := evictExpiredSchemas (st_now s) (st_cache s)\<rparr>)"

definition new_cache_state :: "int \<Rightarrow> ('sc DiscoveryCache \<Rightarrow> 'sc DiscoveryCache) list \<Rightarrow> int \<Rightarrow> 'sc cache_state" where
  "new_cache_state ttl opts t = \<lparr>st_cache = NewDiscoveryCache ttl opts, st_now = t, st_flights = [], st_log = []\<rparr>"

definition cache_inv :: "int \<Rightarrow> nat \<Rightarrow> 'sc cache_state \<Rightarrow> bool" where
  "cache_inv ttl mx s \<longleftrightarrow>
     ca_ttl (st_cache s) = ttl \<and> ca_maxSchemaEntries (st_cache s) = mx \<and>
     gwf (ca_schemaCache (st_cache s)) \<and> glen (ca_schemaCache (st_cache s)) \<le> mx \<and>
     (\<forall>k q. gget (st_flights s) k = Some q \<longrightarrow> k = key_of q) \<and>
     (\<forall>k e. gget (ca_schemaCache (st_cache s)) k = Some e \<longrightarrow>
        (\<exists>q t. (q, ce_schema e, t) \<in> set (st_log s) \<and> k = key_of q \<and> ce_expiresAt e = t + ttl)) \<and>
     (\<forall>q v t. (q, v, t) \<in> set (st_log s) \<longrightarrow> t \<le> st_now s)"

section \<open>Lemmas\<close>

declare key_of.simps [simp del]

lemma evict_simps [simp]:
  "ca_ttl (evictExpiredSchemas t c) = ca_ttl c" "ca_maxSchemaEntries (evictExpiredSchemas t c) = ca_maxSchemaEntries c"
  by (simp_all add: evictExpiredSchemas_def)

lemma evict_gwf: "gwf (ca_schemaCache c) \<Longrightarrow> gwf (ca_schemaCache (evictExpiredSchemas t c))"
  by (simp add: evictExpiredSchemas_def)

lemma evict_gget:
  "gwf (ca_schemaCache c) \<Longrightarrow> gget (ca_schemaCache (evictExpiredSchemas t c)) k = Some e \<longleftrightarrow>
     gget (ca_schemaCache c) k = Some e \<and> t \<le> ce_expiresAt e"
  by (auto simp: evictExpiredSchemas_def gget_filter split: option.splits if_splits)

lemma evict_glen: "glen (ca_schemaCache (evictExpiredSchemas t c)) \<le> glen (ca_schemaCache c)"
  by (simp add: evictExpiredSchemas_def glen_def)

lemma glen_gput_less: "gwf m \<Longrightarrow> glen m < n \<Longrightarrow> glen (gput k v m) \<le> n"
  using gm.guarded_put_bound [of m n k v] by simp

lemma cache_insert_simps [simp]:
  "ca_ttl (cache_insert t k v c) = ca_ttl c" "ca_maxSchemaEntries (cache_insert t k v c) = ca_maxSchemaEntries c"
  by (simp_all add: cache_insert_def Let_def)

lemma cache_insert_gwf: "gwf (ca_schemaCache c) \<Longrightarrow> gwf (ca_schemaCache (cache_insert t k v c))"
  by (auto simp: cache_insert_def Let_def evict_gwf)

lemma cache_insert_bound:
  assumes "gwf (ca_schemaCache c)" "glen (ca_schemaCache c) \<le> ca_maxSchemaEntries c"
  shows "glen (ca_schemaCache (cache_insert t k v c)) \<le> ca_maxSchemaEntries c"
  using assms evict_glen [of t c]
  by (auto simp: cache_insert_def Let_def intro: glen_gput_less evict_gwf)

lemma cache_insert_gget:
  assumes "gwf (ca_schemaCache c)" "gget (ca_schemaCache (cache_insert t k v c)) j = Some e"
  shows "gget (ca_schemaCache c) j = Some e \<or> (j = k \<and> e = \<lparr>ce_schema = v, ce_expiresAt = t + ca_ttl c\<rparr>)"
  using assms by (auto simp: cache_insert_def Let_def evict_gget split: if_splits)

lemma cache_inv_step:
  assumes "cache_step s s'" "cache_inv ttl mx s"
  shows "cache_inv ttl mx s'"
  using assms
proof (cases rule: cache_step.cases)
  case (cs_tick d)
  then show ?thesis using assms(2) by (force simp: cache_inv_def)
next
  case (cs_start q)
  then show ?thesis using assms(2) by (auto simp: cache_inv_def)
next
  case (cs_fetched k q v)
  have wf: "gwf (ca_schemaCache (st_cache s))" and k: "k = key_of q"
    using assms(2) cs_fetched(2) unfolding cache_inv_def by blast+
  have src: "\<exists>q t. (q, ce_schema e, t) \<in> set (st_log s') \<and> j = key_of q \<and> ce_expiresAt e = t + ttl"
    if "gget (ca_schemaCache (st_cache s')) j = Some e" for j e
  proof -
    have "gget (ca_schemaCache (st_cache s)) j = Some e \<or> (j = k \<and> e = \<lparr>ce_schema = v, ce_expiresAt = st_now s + ca_ttl (st_cache s)\<rparr>)"
      using cache_insert_gget [OF wf] that cs_fetched(1) by simp
    then show ?thesis
    proof
      assume "gget (ca_schemaCache (st_cache s)) j = Some e"
      then obtain q t where "(q, ce_schema e, t) \<in> set (st_log s)" "j = key_of q" "ce_expiresAt e = t + ttl"
        using assms(2) unfolding cache_inv_def by blast
      then show ?thesis using cs_fetched(1) by auto
    next
      assume "j = k \<and> e = \<lparr>ce_schema = v, ce_expiresAt = st_now s + ca_ttl (st_cache s)\<rparr>"
      moreover have "ca_ttl (st_cache s) = ttl" using assms(2) unfolding cache_inv_def by blast
      ultimately show ?thesis
        using cs_fetched(1) k by (intro exI [of _ q] exI [of _ "st_now s"]) simp
    qed
  qed
  have inv: "ca_ttl (st_cache s) = ttl" "ca_maxSchemaEntries (st_cache s) = mx"
      "glen (ca_schemaCache (st_cache s)) \<le> mx" "\<And>k q. gget (st_flights s) k = Some q \<Longrightarrow> k = key_of q"
      "\<And>q v t. (q, v, t) \<in> set (st_log s) \<Longrightarrow> t \<le> st_now s"
    using assms(2) unfolding cache_inv_def by blast+
  have "glen (ca_schemaCache (st_cache s')) \<le> mx"
    using cache_insert_bound [OF wf] inv(2,3) cs_fetched(1) by simp
  moreover have "gwf (ca_schemaCache (st_cache s'))" using cache_insert_gwf [OF wf] cs_fetched(1) by simp
  moreover have "t \<le> st_now s'" if "(p, u, t) \<in> set (st_log s')" for p u t
    using that inv(5) cs_fetched(1) by auto
  moreover have "j = key_of p" if "gget (st_flights s') j = Some p" for j p
    using that inv(4) cs_fetched(1) by (auto split: if_splits)
  moreover have "ca_ttl (st_cache s') = ttl" "ca_maxSchemaEntries (st_cache s') = mx" using inv cs_fetched(1) by simp_all
  ultimately show ?thesis using src unfolding cache_inv_def by blast
next
  case (cs_failed k q)
  then show ?thesis using assms(2) by (auto simp: cache_inv_def split: if_splits)
next
  case cs_evict
  have wf: "gwf (ca_schemaCache (st_cache s))" using assms(2) by (simp add: cache_inv_def)
  show ?thesis
    using assms(2) cs_evict evict_glen [of "st_now s" "st_cache s"]
    by (auto simp: cache_inv_def evict_gwf evict_gget [OF wf])
qed

lemma cache_inv_steps: "cache_step\<^sup>*\<^sup>* s s' \<Longrightarrow> cache_inv ttl mx s \<Longrightarrow> cache_inv ttl mx s'"
  by (induction rule: rtranclp_induct) (auto dest: cache_inv_step)

section \<open>Keys\<close>

lemma count_key:
  "count_list (schemaCacheKey a b c d) CHR ''/'' =
     3 + count_list a CHR ''/'' + count_list b CHR ''/'' + count_list c CHR ''/'' + count_list d CHR ''/''"
  by (simp add: schemaCacheKey_def count_list_append)

lemma sep_inject:
  "x \<notin> set a \<Longrightarrow> x \<notin> set a' \<Longrightarrow> a @ x # r = a' @ x # r' \<longleftrightarrow> a = a' \<and> r = r'"
proof (induction a arbitrary: a')
  case Nil
  then show ?case by (cases a') auto
next
  case (Cons y a)
  then show ?case by (cases a') auto
qed

fun slash_free :: "gvk_tuple \<Rightarrow> bool" where
  "slash_free (GVK a b c d) \<longleftrightarrow>
     CHR ''/'' \<notin> set a \<and> CHR ''/'' \<notin> set b \<and> CHR ''/'' \<notin> set c \<and> CHR ''/'' \<notin> set d"

text \<open>A tuple without slashes shares its key with no other tuple at all.\<close>

lemma key_of_inject:
  assumes "key_of p = key_of q" "slash_free p"
  shows "q = p"
proof -
  obtain a b c d where p: "p = GVK a b c d" by (cases p)
  obtain a' b' c' d' where q: "q = GVK a' b' c' d'" by (cases q)
  have eq: "schemaCacheKey a b c d = schemaCacheKey a' b' c' d'" using assms(1) by (simp add: p q key_of.simps)
  have free: "CHR ''/'' \<notin> set a" "CHR ''/'' \<notin> set b" "CHR ''/'' \<notin> set c" "CHR ''/'' \<notin> set d"
    using assms(2) by (simp_all add: p)
  have "count_list a' CHR ''/'' + count_list b' CHR ''/'' + count_list c' CHR ''/'' + count_list d' CHR ''/'' = 0"
    using count_key [of a b c d] count_key [of a' b' c' d'] free by (simp add: eq count_notin)
  then have free': "CHR ''/'' \<notin> set a'" "CHR ''/'' \<notin> set b'" "CHR ''/'' \<notin> set c'"
    by (simp_all add: count_list_0_iff)
  have "a @ CHR ''/'' # b @ CHR ''/'' # c @ CHR ''/'' # d = a' @ CHR ''/'' # b' @ CHR ''/'' # c' @ CHR ''/'' # d'"
    using eq by (simp add: schemaCacheKey_def)
  then have "a = a' \<and> b = b' \<and> c = c' \<and> d = d'"
    using free free' by (simp only: sep_inject simp_thms)
  then show ?thesis by (simp add: p q)
qed

section \<open>Properties\<close>

lemma new_cache_inv:
  assumes "0 < n"
  shows "cache_inv ttl (nat n) (new_cache_state ttl [WithMaxSchemaEntries n] t)"
  using assms by (simp add: cache_inv_def new_cache_state_def NewDiscoveryCache_def WithMaxSchemaEntries_def glen_def)

text \<open>
  Claim C31. In every state the cache reaches, under any interleaving of lookups, flights,
  evictions and the clock, it holds at most the configured number of schemas, and a hit for a
  cluster, group, version and kind without slashes returns a schema that was fetched for exactly
  that tuple, at a time no later than now and less than the TTL ago.
\<close>

theorem schema_cache_fresh:
  assumes "cache_step\<^sup>*\<^sup>* (new_cache_state ttl [WithMaxSchemaEntries n] t0) s" and "0 < n"
  shows "glen (ca_schemaCache (st_cache s)) \<le> nat n \<and>
    (\<forall>q v. slash_free q \<and> cache_lookup (st_now s) (key_of q) (st_cache s) = Some v \<longrightarrow>
       (\<exists>t. (q, v, t) \<in> set (st_log s) \<and> t \<le> st_now s \<and> st_now s < t + ttl))"
proof -
  have inv: "cache_inv ttl (nat n) s" using cache_inv_steps [OF assms(1) new_cache_inv [OF assms(2)]] .
  have "\<exists>t. (q, v, t) \<in> set (st_log s) \<and> t \<le> st_now s \<and> st_now s < t + ttl"
    if q: "slash_free q" and hit: "cache_lookup (st_now s) (key_of q) (st_cache s) = Some v" for q v
  proof -
    from hit obtain e where e: "gget (ca_schemaCache (st_cache s)) (key_of q) = Some e" "st_now s < ce_expiresAt e" "ce_schema e = v"
      by (auto simp: cache_lookup_def split: option.splits if_splits)
    then obtain p t where pt: "(p, v, t) \<in> set (st_log s)" "key_of q = key_of p" "ce_expiresAt e = t + ttl"
      using inv unfolding cache_inv_def by blast
    then have "p = q" using key_of_inject [OF _ q] by metis
    moreover have "t \<le> st_now s" using inv pt(1) unfolding cache_inv_def by blast
    ultimately show ?thesis using pt e(2) by auto
  qed
  moreover have "glen (ca_schemaCache (st_cache s)) \<le> nat n" using inv unfolding cache_inv_def by blast
  ultimately show ?thesis by blast
qed

definition demo_q :: gvk_tuple where
  "demo_q = GVK ''prod'' ''apps'' ''v1'' ''Deployment''"

definition demo_cache :: "nat cache_state" where
  "demo_cache = \<lparr>st_cache = \<lparr>ca_ttl = 10, ca_maxSchemaEntries = 2,
       ca_schemaCache = [(key_of demo_q, \<lparr>ce_schema = 7, ce_expiresAt = 10\<rparr>)]\<rparr>,
     st_now = 9, st_flights = [], st_log = [(demo_q, 7, 0)]\<rparr>"

lemma demo_cache_reached: "cache_step\<^sup>*\<^sup>* (new_cache_state 10 [WithMaxSchemaEntries 2] 0) demo_cache"
proof -
  let ?s0 = "new_cache_state 10 [WithMaxSchemaEntries 2] 0 :: nat cache_state"
  let ?s1 = "?s0\<lparr>st_flights := gput (key_of demo_q) demo_q (st_flights ?s0)\<rparr>"
  let ?s2 = "?s1\<lparr>st_flights := gdel (key_of demo_q) (st_flights ?s1), st_log := st_log ?s1 @ [(demo_q, 7, st_now ?s1)],
      st_cache := cache_insert (st_now ?s1) (key_of demo_q) 7 (st_cache ?s1)\<rparr>"
  have "cache_step ?s0 ?s1"
    by (rule cs_start) (simp add: new_cache_state_def)
  moreover have "cache_step ?s1 ?s2" by (rule cs_fetched) simp
  moreover have "cache_step ?s2 (?s2\<lparr>st_now := st_now ?s2 + 9\<rparr>)" by (rule cs_tick) simp
  moreover have "?s2\<lparr>st_now := st_now ?s2 + 9\<rparr> = demo_cache"
    by (simp add: demo_cache_def new_cache_state_def NewDiscoveryCache_def WithMaxSchemaEntries_def cache_insert_def
        glen_def Let_def)
  ultimately have "cache_step ?s0 ?s1" "cache_step ?s1 ?s2" "cache_step ?s2 demo_cache" by (simp_all only:)
  then show ?thesis by (blast intro: converse_rtranclp_into_rtranclp)
qed

theorem schema_cache_fresh_witness:
  "cache_lookup (st_now demo_cache) (key_of demo_q) (st_cache demo_cache) = Some 7 \<and>
   (\<exists>t. (demo_q, 7, t) \<in> set (st_log demo_cache) \<and> t \<le> 9 \<and> 9 < t + 10)"
proof -
  have hit: "cache_lookup (st_now demo_cache) (key_of demo_q) (st_cache demo_cache) = Some 7"
    by (simp add: cache_lookup_def demo_cache_def)
  have "slash_free demo_q" by (simp add: demo_q_def)
  then have "\<exists>t. (demo_q, 7, t) \<in> set (st_log demo_cache) \<and> t \<le> st_now demo_cache \<and> st_now demo_cache < t + 10"
    using schema_cache_fresh [OF demo_cache_reached] hit by simp
  then show ?thesis using hit by (simp add: demo_cache_def)
qed

lemma cache_insert_lookup:
  assumes "glen (ca_schemaCache c) < ca_maxSchemaEntries c" "t' < t + ca_ttl c"
  shows "cache_lookup t' k (cache_insert t k v c) = Some v"
  using assms by (simp add: cache_insert_def cache_lookup_def)

text \<open>
  Without a concurrent flight and while the cache has room: once one caller has
  resolved a schema, every later caller gets the same schema until the TTL has passed, whatever
  happens to the cluster meanwhile and whatever the identity in its request context, even
  without one, and the discovery client is not called. A failed call caches nothing.
\<close>

theorem schema_shared_by_all_callers:
  assumes "\<And>k f. flight_Do k f = f"
    and "glen (ca_schemaCache (cw_cache w)) < ca_maxSchemaEntries (cw_cache w)"
    and "cache_lookup (clock (cw_ext w)) (schemaCacheKey cluster grp version knd) (cw_cache w) = None"
    and "cached_ResolveSchema clock disc flight_Do ctx cluster grp version knd w = (res, w1)"
  shows "case res of
      Inl e \<Rightarrow> cw_cache w1 = cw_cache w
    | Inr v \<Rightarrow> \<forall>ctx' x. clock x < clock (cw_ext w1) + ca_ttl (cw_cache w) \<longrightarrow>
        cached_ResolveSchema clock disc flight_Do ctx' cluster grp version knd (w1\<lparr>cw_ext := x\<rparr>) = (Inr v, w1\<lparr>cw_ext := x\<rparr>)"
proof -
  let ?k = "schemaCacheKey cluster grp version knd"
  obtain r x where call: "dc_ResolveSchema disc ctx cluster grp version knd (cw_ext w) = (r, x)" by (metis surj_pair)
  show ?thesis
  proof (cases r)
    case (Inl e)
    then show ?thesis using assms(1,3,4) call by (auto simp: cached_ResolveSchema_def fetch_schema_def Let_def)
  next
    case (Inr v)
    then have "res = Inr v" "w1 = w\<lparr>cw_cache := cache_insert (clock x) ?k v (cw_cache w), cw_ext := x\<rparr>"
      using assms(1,3,4) call by (auto simp: cached_ResolveSchema_def fetch_schema_def Let_def)
    then show ?thesis
      using cache_insert_lookup [OF assms(2)] by (simp add: cached_ResolveSchema_def Let_def)
  qed
qed

definition demo_disc :: "(nat, gostring) DiscoveryClient" where
  "demo_disc = \<lparr>dc_LookupResource = (\<lambda>_ _ _ _ _. failE (Plain ''x'')), dc_ServerResources = (\<lambda>_ _. failE (Plain ''x'')),
     dc_ResolveSchema = (\<lambda>ctx _ _ _ _ n. if ctx_user ctx = None then (Inl (Plain ''unauthenticated''), n)
                                            else (Inr ''schema'', Suc n)),
     dc_ServerVersion = (\<lambda>_ _. failE (Plain ''x'')), dc_SupportsWatchList = (\<lambda>_ _. failE (Plain ''x''))\<rparr>"

definition demo_resolve :: "go_context \<Rightarrow> ((nat, gostring) cache_world, gostring) eff" where
  "demo_resolve ctx = cached_ResolveSchema int demo_disc (\<lambda>k f. f) ctx ''c'' ''g'' ''v'' ''k''"

definition demo_alice :: go_context where
  "demo_alice = \<lparr>ctx_user = Some \<lparr>ui_Subject = ''alice'', ui_Groups = []\<rparr>\<rparr>"

definition demo_cw :: "(nat, gostring) cache_world" where
  "demo_cw = \<lparr>cw_cache = NewDiscoveryCache DefaultTTL [], cw_ext = 0\<rparr>"

theorem schema_shared_by_all_callers_witness:
  "fst (demo_resolve \<lparr>ctx_user = None\<rparr> demo_cw) = Inl (Plain ''unauthenticated'') \<and>
   fst (demo_resolve \<lparr>ctx_user = None\<rparr> ((snd (demo_resolve demo_alice demo_cw))\<lparr>cw_ext := 100\<rparr>)) = Inr ''schema''"
proof -
  have miss: "cache_lookup t k (cw_cache demo_cw) = None" for t k
    by (simp add: cache_lookup_def NewDiscoveryCache_def demo_cw_def)
  have room: "glen (ca_schemaCache (cw_cache demo_cw)) < ca_maxSchemaEntries (cw_cache demo_cw)"
    by (simp add: NewDiscoveryCache_def defaultMaxSchemaEntries_def glen_def demo_cw_def)
  have first: "fst (demo_resolve demo_alice demo_cw) = Inr ''schema'' \<and> cw_ext (snd (demo_resolve demo_alice demo_cw)) = 1"
    by (simp add: demo_resolve_def cached_ResolveSchema_def fetch_schema_def Let_def miss demo_disc_def demo_alice_def)
       (simp add: demo_cw_def)
  then have run: "cached_ResolveSchema int demo_disc (\<lambda>k f. f) demo_alice ''c'' ''g'' ''v'' ''k'' demo_cw =
      (Inr ''schema'', snd (demo_resolve demo_alice demo_cw))"
    unfolding demo_resolve_def by (metis prod.collapse)
  have ttl: "int 100 < int (cw_ext (snd (demo_resolve demo_alice demo_cw))) + ca_ttl (cw_cache demo_cw)"
    using first by (simp add: NewDiscoveryCache_def DefaultTTL_def nanos_minute_def demo_cw_def)
  have "demo_resolve \<lparr>ctx_user = None\<rparr> ((snd (demo_resolve demo_alice demo_cw))\<lparr>cw_ext := 100\<rparr>) =
      (Inr ''schema'', (snd (demo_resolve demo_alice demo_cw))\<lparr>cw_ext := 100\<rparr>)"
    using schema_shared_by_all_callers [OF refl room miss run] ttl unfolding sum.case
    by (metis demo_resolve_def)
  moreover have "fst (demo_resolve \<lparr>ctx_user = None\<rparr> demo_cw) = Inl (Plain ''unauthenticated'')"
    by (simp add: demo_resolve_def cached_ResolveSchema_def fetch_schema_def Let_def miss demo_disc_def)
  ultimately show ?thesis by simp
qed

end
