(* ===== verification/Kubernetes_Client.thy ===== *)
theory Kubernetes_Client
  imports Resources
begin

text \<open>
  Access to a cluster's API through its tunnel: \<^verbatim>\<open>kubernetes.go\<close>,
  \<^verbatim>\<open>discovery_client.go\<close>, \<^verbatim>\<open>resource_repo.go\<close> and \<^verbatim>\<open>runtime_repo.go\<close> of
  \<^verbatim>\<open>internal/providers/kubernetes\<close>, which implement the interfaces of the use cases.

  The Kubernetes client libraries are third-party code: every call of theirs is a field of
  \<open>k8s_api\<close>, an arbitrary function of its arguments and of an external state. The world keeps,
  besides that state, the tunnel provider's state, the cache of transports and a log of every
  request sent with the configuration it was sent under. The log has no counterpart in the
  program; it is what the statements about impersonation range over.
\<close>

section \<open>Configurations and requests\<close>

record 't rest_config =
  rc_Host :: gostring
  rc_UserName :: gostring
  rc_Groups :: "gostring list"
  rc_Transport :: "'t option"
  rc_Timeout :: int

text \<open>\<^verbatim>\<open>metav1.ListOptions\<close> of a list or a watch.\<close>

record MetaListOptions =
  ml_LabelSelector :: gostring
  ml_FieldSelector :: gostring
  ml_Limit :: int
  ml_Continue :: gostring
  ml_Watch :: bool
  ml_AllowWatchBookmarks :: bool
  ml_ResourceVersion :: gostring
  ml_ResourceVersionMatch :: gostring
  ml_SendInitialEvents :: "bool option"

definition meta_list :: "ListOptions \<Rightarrow> MetaListOptions" where
  "meta_list opts = \<lparr>ml_LabelSelector = lo_LabelSelector opts, ml_FieldSelector = lo_FieldSelector opts,
     ml_Limit = lo_Limit opts, ml_Continue = lo_Continue opts, ml_Watch = False,
     ml_AllowWatchBookmarks = False, ml_ResourceVersion = [], ml_ResourceVersionMatch = [],
     ml_SendInitialEvents = None\<rparr>"

datatype patch_type = ApplyPatchType | MergePatchType

datatype api_request =
    ReqServerResourcesForGroupVersion gostring
  | ReqServerGroupsAndResources
  | ReqResolveSchema gostring gostring gostring
  | ReqServerVersion
  | ReqList GroupVersionResource gostring MetaListOptions
  | ReqGet GroupVersionResource gostring gostring "gostring option"
  | ReqCreate GroupVersionResource gostring jobj
  | ReqPatch GroupVersionResource gostring gostring patch_type bytes "bool option" gostring
  | ReqDelete GroupVersionResource gostring gostring "int option"
  | ReqUpdate GroupVersionResource gostring jobj "gostring option"
  | ReqWatch GroupVersionResource gostring MetaListOptions
  | ReqPodLogs gostring gostring PodLogOptions
  | ReqExec gostring gostring ExecOptions
  | ReqPortForward gostring gostring int

text \<open>An event of the upstream watch: its type and its object, an unstructured object, a
  status, or anything else.\<close>

datatype k8s_object = KUnstructured jobj | KStatus jobj | KOther

record k8s_event =
  ke_Type :: gostring
  ke_Object :: k8s_object

text \<open>The client libraries. \<open>nested_int64\<close> returns value and found flag.\<close>

record ('tun, 't, 'x, 'sc, 'ver) k8s_api =
  resolve_address :: "'tun \<Rightarrow> gostring \<Rightarrow> gostring res"
  transport_for :: "gostring \<Rightarrow> ('x, 't) eff"
  close_idle :: "'t \<Rightarrow> 'x \<Rightarrow> 'x"
  new_discovery_client :: "'t rest_config \<Rightarrow> unit res"
  new_dynamic_client :: "'t rest_config \<Rightarrow> unit res"
  new_clientset :: "'t rest_config \<Rightarrow> unit res"
  server_resources_gv :: "'t rest_config \<Rightarrow> gostring \<Rightarrow> ('x, APIResource list) eff"
  server_groups_resources :: "'t rest_config \<Rightarrow> ('x, APIResourceList list) eff"
  resolve_schema_gvk :: "'t rest_config \<Rightarrow> gostring \<Rightarrow> gostring \<Rightarrow> gostring \<Rightarrow> ('x, 'sc) eff"
  server_version_info :: "'t rest_config \<Rightarrow> ('x, gostring) eff"
  semver_parse :: "gostring \<Rightarrow> 'ver res"
  semver_geq :: "'ver \<Rightarrow> 'ver \<Rightarrow> bool"
  dyn_list :: "'t rest_config \<Rightarrow> GroupVersionResource \<Rightarrow> gostring \<Rightarrow> MetaListOptions \<Rightarrow> ('x, UnstructuredList) eff"
  dyn_get :: "'t rest_config \<Rightarrow> GroupVersionResource \<Rightarrow> gostring \<Rightarrow> gostring \<Rightarrow> gostring option \<Rightarrow> ('x, jobj) eff"
  dyn_create :: "'t rest_config \<Rightarrow> GroupVersionResource \<Rightarrow> gostring \<Rightarrow> jobj \<Rightarrow> ('x, jobj) eff"
  dyn_patch :: "'t rest_config \<Rightarrow> GroupVersionResource \<Rightarrow> gostring \<Rightarrow> gostring \<Rightarrow> patch_type \<Rightarrow> bytes \<Rightarrow>
                  bool option \<Rightarrow> gostring \<Rightarrow> ('x, jobj) eff"
  dyn_delete :: "'t rest_config \<Rightarrow> GroupVersionResource \<Rightarrow> gostring \<Rightarrow> gostring \<Rightarrow> int option \<Rightarrow> ('x, unit) eff"
  dyn_update :: "'t rest_config \<Rightarrow> GroupVersionResource \<Rightarrow> gostring \<Rightarrow> jobj \<Rightarrow> gostring option \<Rightarrow> ('x, jobj) eff"
  dyn_watch :: "'t rest_config \<Rightarrow> GroupVersionResource \<Rightarrow> gostring \<Rightarrow> MetaListOptions \<Rightarrow> ('x, k8s_event list) eff"
  pod_logs :: "'t rest_config \<Rightarrow> gostring \<Rightarrow> gostring \<Rightarrow> PodLogOptions \<Rightarrow> ('x, bytes list) eff"
  spdy_executor :: "'t rest_config \<Rightarrow> unit res"
  spdy_stream :: "'t rest_config \<Rightarrow> gostring \<Rightarrow> gostring \<Rightarrow> ExecOptions \<Rightarrow> ('x, unit) eff"
  yaml_decode :: "bytes \<Rightarrow> jobj res"
  marshal_object :: "jobj \<Rightarrow> bytes res"
  nested_int64 :: "jobj \<Rightarrow> gostring list \<Rightarrow> (int64 \<times> bool) res"
  set_nested_int64 :: "jobj \<Rightarrow> int64 \<Rightarrow> gostring list \<Rightarrow> jobj res"
  marshal_status :: "jobj \<Rightarrow> bytes res"
  unmarshal_map :: "bytes \<Rightarrow> jobj res"

record 't clusterTransport =
  ct_address :: gostring
  ct_rt :: 't

record ('tun, 't, 'x) kworld =
  kw_tunnel :: 'tun
  transports :: "(gostring, 't clusterTransport) gomap"
  kw_ext :: 'x
  sent :: "('t rest_config \<times> api_request) list"

definition clientTimeout :: int where
  "clientTimeout = 30"

text \<open>A call of the client library: its effect on the external state, and its log entry.\<close>

definition ext_call :: "('x, 'a) eff \<Rightarrow> (('tun, 't, 'x) kworld, 'a) eff" where
  "ext_call f w = (case f (kw_ext w) of (r, x) \<Rightarrow> (r, w\<lparr>kw_ext := x\<rparr>))"

definition api_call :: "'t rest_config \<Rightarrow> api_request \<Rightarrow> ('x, 'a) eff \<Rightarrow> (('tun, 't, 'x) kworld, 'a) eff" where
  "api_call cfg req f w = (case f (kw_ext w) of (r, x) \<Rightarrow> (r, w\<lparr>kw_ext := x, sent := sent w @ [(cfg, req)]\<rparr>))"

section \<open>\<^verbatim>\<open>kubernetes.go\<close>\<close>

definition internal_err :: "gostring \<Rightarrow> go_error \<Rightarrow> go_error" where
  "internal_err msg e = DomainError ErrorCodeInternal msg (Some e)"

definition closeTransport :: "('tun, 't, 'x, 'sc, 'ver) k8s_api \<Rightarrow> 't \<Rightarrow> ('tun, 't, 'x) kworld \<Rightarrow> ('tun, 't, 'x) kworld" where
  "closeTransport A rt w = w\<lparr>kw_ext := close_idle A rt (kw_ext w)\<rparr>"

definition evictClients :: "('tun, 't, 'x, 'sc, 'ver) k8s_api \<Rightarrow> gostring \<Rightarrow> ('tun, 't, 'x) kworld \<Rightarrow> ('tun, 't, 'x) kworld" where
  "evictClients A cluster w =
     (case gget (transports w) cluster of
        None \<Rightarrow> w
      | Some old \<Rightarrow> (closeTransport A (ct_rt old) w)\<lparr>transports := gdel cluster (transports w)\<rparr>)"

definition roundTripper ::
  "('tun, 't, 'x, 'sc, 'ver) k8s_api \<Rightarrow> gostring \<Rightarrow> gostring \<Rightarrow> (('tun, 't, 'x) kworld, 't) eff" where
  "roundTripper A cluster address w =
     (case gget (transports w) cluster of
        Some entry \<Rightarrow>
          if ct_address entry = address then (Inr (ct_rt entry), w)
          else
            (let w1 = closeTransport A (ct_rt entry) w in
             case ext_call (transport_for A address) w1 of
               (Inl e, w2) \<Rightarrow> (Inl (internal_err ''create HTTP transport'' e), w2)
             | (Inr rt, w2) \<Rightarrow>
                 (Inr rt, w2\<lparr>transports := gput cluster \<lparr>ct_address = address, ct_rt = rt\<rparr> (transports w2)\<rparr>))
      | None \<Rightarrow>
          (case ext_call (transport_for A address) w of
             (Inl e, w2) \<Rightarrow> (Inl (internal_err ''create HTTP transport'' e), w2)
           | (Inr rt, w2) \<Rightarrow>
               (Inr rt, w2\<lparr>transports := gput cluster \<lparr>ct_address = address, ct_rt = rt\<rparr> (transports w2)\<rparr>)))"

definition no_user :: go_error where
  "no_user = DomainError ErrorCodeUnauthenticated ''user info not found in context'' None"

definition impersonationConfig ::
  "('tun, 't, 'x, 'sc, 'ver) k8s_api \<Rightarrow> go_context \<Rightarrow> gostring \<Rightarrow> (('tun, 't, 'x) kworld, 't rest_config) eff" where
  "impersonationConfig A ctx cluster w =
     (case UserInfoFromContext ctx of
        None \<Rightarrow> (Inl no_user, w)
      | Some userInfo \<Rightarrow>
          (case resolve_address A (kw_tunnel w) cluster of
             Inl e \<Rightarrow> (Inl e, evictClients A cluster w)
           | Inr address \<Rightarrow>
               (case roundTripper A cluster address w of
                  (Inl e, w1) \<Rightarrow> (Inl e, w1)
                | (Inr rt, w1) \<Rightarrow>
                    (Inr \<lparr>rc_Host = address, rc_UserName = ui_Subject userInfo, rc_Groups = ui_Groups userInfo,
                          rc_Transport = Some rt, rc_Timeout = clientTimeout\<rparr>, w1))))"

definition spdyConfig ::
  "('tun, 't, 'x, 'sc, 'ver) k8s_api \<Rightarrow> go_context \<Rightarrow> gostring \<Rightarrow> (('tun, 't, 'x) kworld, 't rest_config) eff" where
  "spdyConfig A ctx cluster w =
     (case UserInfoFromContext ctx of
        None \<Rightarrow> (Inl no_user, w)
      | Some userInfo \<Rightarrow>
          (case resolve_address A (kw_tunnel w) cluster of
             Inl e \<Rightarrow> (Inl e, evictClients A cluster w)
           | Inr address \<Rightarrow>
               (Inr \<lparr>rc_Host = address, rc_UserName = ui_Subject userInfo, rc_Groups = ui_Groups userInfo,
                     rc_Transport = None, rc_Timeout = clientTimeout\<rparr>, w)))"

section \<open>\<^verbatim>\<open>discovery_client.go\<close>\<close>

definition discovery_client ::
  "('tun, 't, 'x, 'sc, 'ver) k8s_api \<Rightarrow> go_context \<Rightarrow> gostring \<Rightarrow> (('tun, 't, 'x) kworld, 't rest_config) eff" where
  "discovery_client A ctx cluster =
     bindE (impersonationConfig A ctx cluster)
       (\<lambda>config. bindE (mapErrE wrapK8sError (liftE (new_discovery_client A config))) (\<lambda>_. retE config))"

text \<open>\<^verbatim>\<open>GroupVersion.String()\<close>: the group prefix is dropped for the core group.\<close>

definition gv_string :: "gostring \<Rightarrow> gostring \<Rightarrow> gostring" where
  "gv_string g v = (if g \<noteq> [] then g @ ''/'' @ v else v)"

definition unrecognized :: "GroupVersionResource \<Rightarrow> go_error" where
  "unrecognized gvr = wrapK8sError (StatusErr StatusReasonBadRequest
     (''unable to recognize resource '' @ gvr_Group gvr @ ''/'' @ gvr_Version gvr @ '', Resource='' @ gvr_Resource gvr))"

definition LookupResource ::
  "('tun, 't, 'x, 'sc, 'ver) k8s_api \<Rightarrow> go_context \<Rightarrow> gostring \<Rightarrow> gostring \<Rightarrow> gostring \<Rightarrow> gostring \<Rightarrow>
     (('tun, 't, 'x) kworld, GroupVersionResource) eff" where
  "LookupResource A ctx cluster grp version resource =
     bindE (discovery_client A ctx cluster) (\<lambda>client.
       (let gvr = \<lparr>gvr_Group = grp, gvr_Version = version, gvr_Resource = resource\<rparr> in
        bindE (mapErrE wrapK8sError
                 (api_call client (ReqServerResourcesForGroupVersion (gv_string grp version))
                    (server_resources_gv A client (gv_string grp version))))
          (\<lambda>resources. if \<exists>r \<in> set resources. ar_Name r = resource then retE gvr else failE (unrecognized gvr))))"

definition ServerResources ::
  "('tun, 't, 'x, 'sc, 'ver) k8s_api \<Rightarrow> go_context \<Rightarrow> gostring \<Rightarrow> (('tun, 't, 'x) kworld, APIResourceList list) eff" where
  "ServerResources A ctx cluster =
     bindE (discovery_client A ctx cluster) (\<lambda>client.
       mapErrE wrapK8sError (api_call client ReqServerGroupsAndResources (server_groups_resources A client)))"

definition ResolveSchema ::
  "('tun, 't, 'x, 'sc, 'ver) k8s_api \<Rightarrow> go_context \<Rightarrow> gostring \<Rightarrow> gostring \<Rightarrow> gostring \<Rightarrow> gostring \<Rightarrow>
     (('tun, 't, 'x) kworld, 'sc) eff" where
  "ResolveSchema A ctx cluster grp version knd =
     bindE (discovery_client A ctx cluster) (\<lambda>client.
       mapErrE wrapK8sError
         (api_call client (ReqResolveSchema grp version knd) (resolve_schema_gvk A client grp version knd)))"

definition ServerVersion ::
  "('tun, 't, 'x, 'sc, 'ver) k8s_api \<Rightarrow> go_context \<Rightarrow> gostring \<Rightarrow> (('tun, 't, 'x) kworld, gostring) eff" where
  "ServerVersion A ctx cluster =
     bindE (discovery_client A ctx cluster) (\<lambda>client.
       mapErrE wrapK8sError (api_call client ReqServerVersion (server_version_info A client)))"

text \<open>\<open>minv\<close> is the parsed \<^verbatim>\<open>minWatchListVersion\<close>, version 1.34.0.\<close>

definition SupportsWatchList ::
  "('tun, 't, 'x, 'sc, 'ver) k8s_api \<Rightarrow> 'ver \<Rightarrow> go_context \<Rightarrow> gostring \<Rightarrow> (('tun, 't, 'x) kworld, bool) eff" where
  "SupportsWatchList A minv ctx cluster =
     bindE (ServerVersion A ctx cluster) (\<lambda>info.
       bindE (liftE (semver_parse A info)) (\<lambda>kubeVersion. retE (semver_geq A kubeVersion minv)))"

section \<open>\<^verbatim>\<open>resource_repo.go\<close>\<close>

definition dynamicClient ::
  "('tun, 't, 'x, 'sc, 'ver) k8s_api \<Rightarrow> gostring \<Rightarrow> go_context \<Rightarrow> gostring \<Rightarrow> (('tun, 't, 'x) kworld, 't rest_config) eff" where
  "dynamicClient A msg ctx cluster =
     bindE (impersonationConfig A ctx cluster)
       (\<lambda>config. bindE (mapErrE (internal_err msg) (liftE (new_dynamic_client A config))) (\<lambda>_. retE config))"

abbreviation resource_client where
  "resource_client A \<equiv> dynamicClient A ''create dynamic client''"

abbreviation runtime_client where
  "runtime_client A \<equiv> dynamicClient A ''create dynamic client for runtime''"

definition fromYAML :: "('tun, 't, 'x, 'sc, 'ver) k8s_api \<Rightarrow> bytes \<Rightarrow> jobj res" where
  "fromYAML A manifest =
     (case yaml_decode A manifest of
        Inl e \<Rightarrow> Inl (ErrInvalidInput ''manifest'' (''invalid YAML: '' @ error_string e))
      | Inr obj \<Rightarrow> Inr obj)"

definition repo_List ::
  "('tun, 't, 'x, 'sc, 'ver) k8s_api \<Rightarrow> go_context \<Rightarrow> gostring \<Rightarrow> GroupVersionResource \<Rightarrow> gostring \<Rightarrow> ListOptions \<Rightarrow>
     (('tun, 't, 'x) kworld, UnstructuredList) eff" where
  "repo_List A ctx cluster gvr ns opts =
     bindE (resource_client A ctx cluster) (\<lambda>client.
       mapErrE wrapK8sError
         (api_call client (ReqList gvr ns (meta_list opts)) (dyn_list A client gvr ns (meta_list opts))))"

definition repo_Get ::
  "('tun, 't, 'x, 'sc, 'ver) k8s_api \<Rightarrow> go_context \<Rightarrow> gostring \<Rightarrow> GroupVersionResource \<Rightarrow> gostring \<Rightarrow> gostring \<Rightarrow>
     (('tun, 't, 'x) kworld, jobj) eff" where
  "repo_Get A ctx cluster gvr ns name =
     bindE (resource_client A ctx cluster) (\<lambda>client.
       mapErrE wrapK8sError (api_call client (ReqGet gvr ns name None) (dyn_get A client gvr ns name None)))"

definition repo_Create ::
  "('tun, 't, 'x, 'sc, 'ver) k8s_api \<Rightarrow> go_context \<Rightarrow> gostring \<Rightarrow> GroupVersionResource \<Rightarrow> gostring \<Rightarrow> bytes \<Rightarrow>
     (('tun, 't, 'x) kworld, jobj) eff" where
  "repo_Create A ctx cluster gvr ns manifest =
     bindE (resource_client A ctx cluster) (\<lambda>client.
       bindE (liftE (fromYAML A manifest)) (\<lambda>obj.
         mapErrE wrapK8sError (api_call client (ReqCreate gvr ns obj) (dyn_create A client gvr ns obj))))"

definition repo_Apply ::
  "('tun, 't, 'x, 'sc, 'ver) k8s_api \<Rightarrow> go_context \<Rightarrow> gostring \<Rightarrow> GroupVersionResource \<Rightarrow> gostring \<Rightarrow> gostring \<Rightarrow> bytes \<Rightarrow>
     ApplyOptions \<Rightarrow> (('tun, 't, 'x) kworld, jobj) eff" where
  "repo_Apply A ctx cluster gvr ns name manifest opts =
     bindE (resource_client A ctx cluster) (\<lambda>client.
       bindE (liftE (fromYAML A manifest)) (\<lambda>obj.
         bindE (mapErrE (internal_err ''marshal manifest to JSON'') (liftE (marshal_object A obj))) (\<lambda>data.
           mapErrE wrapK8sError
             (api_call client (ReqPatch gvr ns name ApplyPatchType data (Some (ao_Force opts)) (ao_FieldManager opts))
                (dyn_patch A client gvr ns name ApplyPatchType data (Some (ao_Force opts)) (ao_FieldManager opts))))))"

definition repo_Delete ::
  "('tun, 't, 'x, 'sc, 'ver) k8s_api \<Rightarrow> go_context \<Rightarrow> gostring \<Rightarrow> GroupVersionResource \<Rightarrow> gostring \<Rightarrow> gostring \<Rightarrow>
     DeleteOptions \<Rightarrow> (('tun, 't, 'x) kworld, unit) eff" where
  "repo_Delete A ctx cluster gvr ns name opts =
     bindE (resource_client A ctx cluster) (\<lambda>client.
       mapErrE wrapK8sError
         (api_call client (ReqDelete gvr ns name (do_GracePeriodSeconds opts))
            (dyn_delete A client gvr ns name (do_GracePeriodSeconds opts))))"

definition watch_options :: "WatchOptions \<Rightarrow> MetaListOptions" where
  "watch_options opts =
     (let base = \<lparr>ml_LabelSelector = wo_LabelSelector opts, ml_FieldSelector = wo_FieldSelector opts,
                   ml_Limit = 0, ml_Continue = [], ml_Watch = True, ml_AllowWatchBookmarks = True,
                   ml_ResourceVersion = wo_ResourceVersion opts, ml_ResourceVersionMatch = [],
                   ml_SendInitialEvents = None\<rparr>
      in if wo_SendInitialEvents opts
         then base\<lparr>ml_ResourceVersionMatch := ''NotOlderThan'', ml_SendInitialEvents := Some True\<rparr>
         else base)"

fun toCorEventType :: "gostring \<Rightarrow> WatchEventType" where
  "toCorEventType t =
     (if t = ''ADDED'' then WatchEventAdded
      else if t = ''MODIFIED'' then WatchEventModified
      else if t = ''DELETED'' then WatchEventDeleted
      else if t = ''BOOKMARK'' then WatchEventBookmark
      else if t = ''ERROR'' then WatchEventError
      else WatchEventError)"

text \<open>A JSON round trip of a status; the map is nil when either direction fails.\<close>

definition statusToGenericMap :: "('tun, 't, 'x, 'sc, 'ver) k8s_api \<Rightarrow> jobj \<Rightarrow> jobj option" where
  "statusToGenericMap A status =
     (case marshal_status A status of
        Inl _ \<Rightarrow> None
      | Inr data \<Rightarrow> (case unmarshal_map A data of Inl _ \<Rightarrow> None | Inr m \<Rightarrow> Some m))"

definition relay_event :: "('tun, 't, 'x, 'sc, 'ver) k8s_api \<Rightarrow> k8s_event \<Rightarrow> WatchEvent" where
  "relay_event A ev =
     \<lparr>we_Type = toCorEventType (ke_Type ev),
      we_Object = (case ke_Object ev of
                     KUnstructured obj \<Rightarrow> Some obj
                   | KStatus st \<Rightarrow> statusToGenericMap A st
                   | KOther \<Rightarrow> None)\<rparr>"

text \<open>The relay goroutine: the events the upstream delivers before it closes, in order; then
  the output channel is closed.\<close>

definition relay :: "('tun, 't, 'x, 'sc, 'ver) k8s_api \<Rightarrow> k8s_event list \<Rightarrow> WatchEvent list" where
  "relay A evs = map (relay_event A) evs"

definition repo_Watch ::
  "('tun, 't, 'x, 'sc, 'ver) k8s_api \<Rightarrow> go_context \<Rightarrow> gostring \<Rightarrow> GroupVersionResource \<Rightarrow> gostring \<Rightarrow> WatchOptions \<Rightarrow>
     (('tun, 't, 'x) kworld, WatchEvent list) eff" where
  "repo_Watch A ctx cluster gvr ns opts =
     bindE (resource_client A ctx cluster) (\<lambda>client.
       bindE (mapErrE wrapK8sError
                (api_call client (ReqWatch gvr ns (watch_options opts)) (dyn_watch A client gvr ns (watch_options opts))))
         (\<lambda>evs. retE (relay A evs)))"

definition eventsGVR :: GroupVersionResource where
  "eventsGVR = \<lparr>gvr_Group = [], gvr_Version = ''v1'', gvr_Resource = ''events''\<rparr>"

definition repo_ListEvents ::
  "('tun, 't, 'x, 'sc, 'ver) k8s_api \<Rightarrow> go_context \<Rightarrow> gostring \<Rightarrow> gostring \<Rightarrow> ListOptions \<Rightarrow>
     (('tun, 't, 'x) kworld, UnstructuredList) eff" where
  "repo_ListEvents A ctx cluster ns opts =
     bindE (resource_client A ctx cluster) (\<lambda>client.
       mapErrE wrapK8sError
         (api_call client (ReqList eventsGVR ns (meta_list opts)) (dyn_list A client eventsGVR ns (meta_list opts))))"

section \<open>\<^verbatim>\<open>runtime_repo.go\<close>\<close>

definition clientset ::
  "('tun, 't, 'x, 'sc, 'ver) k8s_api \<Rightarrow> go_context \<Rightarrow> gostring \<Rightarrow> (('tun, 't, 'x) kworld, 't rest_config) eff" where
  "clientset A ctx cluster =
     bindE (impersonationConfig A ctx cluster)
       (\<lambda>config. bindE (mapErrE (internal_err ''create kubernetes clientset'') (liftE (new_clientset A config))) (\<lambda>_. retE config))"

definition repo_PodLogs ::
  "('tun, 't, 'x, 'sc, 'ver) k8s_api \<Rightarrow> go_context \<Rightarrow> gostring \<Rightarrow> gostring \<Rightarrow> gostring \<Rightarrow> PodLogOptions \<Rightarrow>
     (('tun, 't, 'x) kworld, bytes list) eff" where
  "repo_PodLogs A ctx cluster ns name opts =
     bindE (clientset A ctx cluster) (\<lambda>client.
       mapErrE wrapK8sError (api_call client (ReqPodLogs ns name opts) (pod_logs A client ns name opts)))"

text \<open>The size queue is only handed to the executor of a TTY.\<close>

definition stream_options :: "ExecOptions \<Rightarrow> ExecOptions" where
  "stream_options opts = opts\<lparr>eo_SizeQueue := eo_TTY opts \<and> eo_SizeQueue opts\<rparr>"

definition repo_Exec ::
  "('tun, 't, 'x, 'sc, 'ver) k8s_api \<Rightarrow> go_context \<Rightarrow> gostring \<Rightarrow> gostring \<Rightarrow> gostring \<Rightarrow> ExecOptions \<Rightarrow>
     (('tun, 't, 'x) kworld, unit) eff" where
  "repo_Exec A ctx cluster ns name opts =
     bindE (spdyConfig A ctx cluster) (\<lambda>config.
       bindE (mapErrE (internal_err ''create clientset for exec'') (liftE (new_clientset A config))) (\<lambda>_.
         bindE (mapErrE (internal_err ''create SPDY executor'') (liftE (spdy_executor A config))) (\<lambda>_.
           mapErrE wrapK8sError
             (api_call config (ReqExec ns name (stream_options opts)) (spdy_stream A config ns name (stream_options opts))))))"

text \<open>The conversion \<^verbatim>\<open>int32(replicas)\<close> keeps the low 32 bits.\<close>

definition to_int32 :: "int64 \<Rightarrow> 32 word" where
  "to_int32 n = ucast n"

definition of_int32 :: "32 word \<Rightarrow> int64" where
  "of_int32 n = scast n"

definition replicas_path :: "gostring list" where
  "replicas_path = [''spec'', ''replicas'']"

definition repo_GetScale ::
  "('tun, 't, 'x, 'sc, 'ver) k8s_api \<Rightarrow> go_context \<Rightarrow> gostring \<Rightarrow> GroupVersionResource \<Rightarrow> gostring \<Rightarrow> gostring \<Rightarrow>
     (('tun, 't, 'x) kworld, 32 word) eff" where
  "repo_GetScale A ctx cluster gvr ns name =
     bindE (runtime_client A ctx cluster) (\<lambda>client.
       bindE (mapErrE wrapK8sError
                (api_call client (ReqGet gvr ns name (Some ''scale'')) (dyn_get A client gvr ns name (Some ''scale''))))
         (\<lambda>scaleObj.
            case nested_int64 A scaleObj replicas_path of
              Inr (replicas, True) \<Rightarrow> retE (to_int32 replicas)
            | _ \<Rightarrow> failE (DomainError ErrorCodeInternal ''failed to read spec.replicas from scale subresource'' None)))"

definition repo_UpdateScale ::
  "('tun, 't, 'x, 'sc, 'ver) k8s_api \<Rightarrow> go_context \<Rightarrow> gostring \<Rightarrow> GroupVersionResource \<Rightarrow> gostring \<Rightarrow> gostring \<Rightarrow>
     32 word \<Rightarrow> (('tun, 't, 'x) kworld, 32 word) eff" where
  "repo_UpdateScale A ctx cluster gvr ns name replicas =
     bindE (runtime_client A ctx cluster) (\<lambda>client.
       bindE (mapErrE wrapK8sError
                (api_call client (ReqGet gvr ns name (Some ''scale'')) (dyn_get A client gvr ns name (Some ''scale''))))
         (\<lambda>scaleObj.
            bindE (mapErrE (internal_err ''set spec.replicas'')
                     (liftE (set_nested_int64 A scaleObj (of_int32 replicas) replicas_path))) (\<lambda>newObj.
              bindE (mapErrE wrapK8sError
                       (api_call client (ReqUpdate gvr ns newObj (Some ''scale'')) (dyn_update A client gvr ns newObj (Some ''scale''))))
                (\<lambda>updated.
                   case nested_int64 A updated replicas_path of
                     Inl e \<Rightarrow> failE (internal_err ''read updated replicas'' e)
                   | Inr (newReplicas, found) \<Rightarrow>
                       if \<not> found
                       then failE (DomainError ErrorCodeInternal ''spec.replicas not found in updated scale subresource'' None)
                       else retE (to_int32 newReplicas)))))"

text \<open>\<open>stamp\<close> is the current time in RFC 3339 format. The patch is JSON text.\<close>

definition restart_patch :: "gostring \<Rightarrow> bytes" where
  "restart_patch stamp =
     ''{'' @ [CHR 0x22] @ ''spec'' @ [CHR 0x22] @ '':{'' @ [CHR 0x22] @ ''template'' @ [CHR 0x22] @ '':{''
     @ [CHR 0x22] @ ''metadata'' @ [CHR 0x22] @ '':{'' @ [CHR 0x22] @ ''annotations'' @ [CHR 0x22] @ '':{''
     @ [CHR 0x22] @ ''kubectl.kubernetes.io/restartedAt'' @ [CHR 0x22] @ '':'' @ [CHR 0x22] @ stamp @ [CHR 0x22] @ ''}}}}}''"

definition repo_Restart ::
  "('tun, 't, 'x, 'sc, 'ver) k8s_api \<Rightarrow> gostring \<Rightarrow> go_context \<Rightarrow> gostring \<Rightarrow> GroupVersionResource \<Rightarrow> gostring \<Rightarrow> gostring \<Rightarrow>
     (('tun, 't, 'x) kworld, unit) eff" where
  "repo_Restart A stamp ctx cluster gvr ns name =
     bindE (runtime_client A ctx cluster) (\<lambda>client.
       bindE (mapErrE wrapK8sError
                (api_call client (ReqPatch gvr ns name MergePatchType (restart_patch stamp) None [])
                   (dyn_patch A client gvr ns name MergePatchType (restart_patch stamp) None [])))
         (\<lambda>_. retE ()))"

definition sizeQueueAdapter_Next :: "TerminalSizeQueue \<Rightarrow> next_result \<times> TerminalSizeQueue" where
  "sizeQueueAdapter_Next q = Next q"

text \<open>
  The wait for the two copy directions of a port-forward: \<open>PfCtxDone\<close> is a cancelled context,
  \<open>PfCopy\<close> the end of one direction with its error, in the order the \<^verbatim>\<open>select\<close> sees them.
  The result is the returned error and how often the stream connection was closed on the way,
  or \<^const>\<open>None\<close> while the loop still waits.
\<close>

datatype pf_event = PfCtxDone go_error | PfCopy "go_error option"

fun pf_wait :: "nat \<Rightarrow> go_error option \<Rightarrow> nat \<Rightarrow> pf_event list \<Rightarrow> (go_error option \<times> nat) option" where
  "pf_wait 0 firstErr closes evs = Some (firstErr, closes)"
| "pf_wait (Suc n) firstErr closes [] = None"
| "pf_wait (Suc n) firstErr closes (PfCtxDone e # evs) = Some (Some e, Suc closes)"
| "pf_wait (Suc n) firstErr closes (PfCopy err # evs) =
     (if err \<noteq> None \<and> firstErr = None then pf_wait n err (Suc closes) evs
      else pf_wait n firstErr closes evs)"

text \<open>The calls that set the streams up, as parameters of the operation.\<close>

record ('t, 'x) spdy_lib =
  spdy_round_tripper :: "'t rest_config \<Rightarrow> unit res"
  spdy_dial :: "'t rest_config \<Rightarrow> gostring \<Rightarrow> gostring \<Rightarrow> ('x, unit) eff"
  create_stream :: "(gostring \<times> gostring) list \<Rightarrow> ('x, unit) eff"

definition stream_headers :: "gostring \<Rightarrow> int \<Rightarrow> (gostring \<times> gostring) list" where
  "stream_headers typ port =
     [(''streamType'', typ), (''port'', itoa (nat port)), (''requestID'', ''0'')]"

definition repo_PortForward ::
  "('tun, 't, 'x, 'sc, 'ver) k8s_api \<Rightarrow> ('t, 'x) spdy_lib \<Rightarrow> pf_event list \<Rightarrow> go_context \<Rightarrow> gostring \<Rightarrow> gostring \<Rightarrow> gostring \<Rightarrow>
     int \<Rightarrow> (('tun, 't, 'x) kworld, go_error option option) eff" where
  "repo_PortForward A S evs ctx cluster ns name port =
     bindE (spdyConfig A ctx cluster) (\<lambda>config.
       bindE (mapErrE (internal_err ''create clientset for port-forward'') (liftE (new_clientset A config))) (\<lambda>_.
         bindE (mapErrE (internal_err ''create SPDY round-tripper'') (liftE (spdy_round_tripper S config))) (\<lambda>_.
           bindE (mapErrE wrapK8sError (api_call config (ReqPortForward ns name port) (spdy_dial S config ns name))) (\<lambda>_.
             bindE (mapErrE (internal_err ''create error stream'') (ext_call (create_stream S (stream_headers ''error'' port)))) (\<lambda>_.
               bindE (mapErrE (internal_err ''create data stream'') (ext_call (create_stream S (stream_headers ''data'' port)))) (\<lambda>_.
                 retE (map_option fst (pf_wait 2 None 0 evs))))))))"

section \<open>What a request may look like\<close>

text \<open>The configuration a request of the given user to the given cluster must be sent under.\<close>

definition impersonates ::
  "('tun, 't, 'x, 'sc, 'ver) k8s_api \<Rightarrow> 'tun \<Rightarrow> go_context \<Rightarrow> gostring \<Rightarrow> 't rest_config \<Rightarrow> bool" where
  "impersonates A tun ctx cluster cfg \<longleftrightarrow>
     (\<exists>u. ctx_user ctx = Some u \<and> rc_UserName cfg = ui_Subject u \<and> rc_Groups cfg = ui_Groups u) \<and>
     resolve_address A tun cluster = Inr (rc_Host cfg)"

text \<open>
  The tunnel the world routes through is \<open>tun\<close>. Nothing is asked of the cached transports: with
  only the host configured, \<^verbatim>\<open>rest.TransportFor\<close> is documented to return the shared
  \<^verbatim>\<open>http.DefaultTransport\<close>, so the address a request goes to is that of its configuration.
\<close>

definition routes_via :: "'tun \<Rightarrow> ('tun, 't, 'x) kworld \<Rightarrow> bool" where
  "routes_via tun w \<longleftrightarrow> kw_tunnel w = tun"

lemma ext_call_frame:
  "ext_call f w = (r, w') \<Longrightarrow> kw_tunnel w' = kw_tunnel w \<and> transports w' = transports w \<and> sent w' = sent w \<and> (\<exists>x. f (kw_ext w) = (r, x))"
  by (auto simp: ext_call_def split: prod.splits)

lemma roundTripper_frame:
  "roundTripper A cluster address w = (res, w') \<Longrightarrow> kw_tunnel w' = kw_tunnel w \<and> sent w' = sent w"
  by (auto simp: roundTripper_def closeTransport_def ext_call_def Let_def split: option.splits if_splits prod.splits sum.splits)

lemma evictClients_ok: "routes_via tun w \<Longrightarrow> routes_via tun (evictClients A cluster w) \<and> sent (evictClients A cluster w) = sent w"
  by (auto simp: evictClients_def closeTransport_def routes_via_def split: option.splits if_splits)

text \<open>
  An operation on behalf of a user is well behaved when it leaves the tunnel alone and
  sends nothing but requests under the user's identity to the cluster's current address.
\<close>

definition as_user ::
  "('tun, 't, 'x, 'sc, 'ver) k8s_api \<Rightarrow> 'tun \<Rightarrow> go_context \<Rightarrow> gostring \<Rightarrow> (('tun, 't, 'x) kworld, 'a) eff \<Rightarrow> bool" where
  "as_user A tun ctx cluster m \<longleftrightarrow>
     logs_only sent (routes_via tun) (\<lambda>(cfg, _). impersonates A tun ctx cluster cfg) m"

text \<open>A configuration step: it sends nothing, and what it returns may be sent under.\<close>

definition gives_config ::
  "('tun, 't, 'x, 'sc, 'ver) k8s_api \<Rightarrow> 'tun \<Rightarrow> go_context \<Rightarrow> gostring \<Rightarrow>
     (('tun, 't, 'x) kworld, 't rest_config) eff \<Rightarrow> bool" where
  "gives_config A tun ctx cluster m \<longleftrightarrow>
     (\<forall>w res w'. routes_via tun w \<and> m w = (res, w') \<longrightarrow>
        routes_via tun w' \<and> sent w' = sent w \<and>
        (\<forall>cfg. res = Inr cfg \<longrightarrow> impersonates A tun ctx cluster cfg))"

lemma gives_config_impersonation:
  shows "gives_config A tun ctx cluster (impersonationConfig A ctx cluster)"
  unfolding gives_config_def
proof (intro allI impI)
  fix w res w'
  assume *: "routes_via tun w \<and> impersonationConfig A ctx cluster w = (res, w')"
  then have tun: "kw_tunnel w = tun" by (simp add: routes_via_def)
  show "routes_via tun w' \<and> sent w' = sent w \<and> (\<forall>cfg. res = Inr cfg \<longrightarrow> impersonates A tun ctx cluster cfg)"
  proof (cases "ctx_user ctx")
    case None
    then show ?thesis using * by (auto simp: impersonationConfig_def UserInfoFromContext_def)
  next
    case (Some u)
    show ?thesis
    proof (cases "resolve_address A tun cluster")
      case (Inl e)
      then show ?thesis
        using * Some tun evictClients_ok [of tun w A cluster] by (auto simp: impersonationConfig_def UserInfoFromContext_def)
    next
      case (Inr address)
      obtain rr w1 where rt: "roundTripper A cluster address w = (rr, w1)" by (metis surj_pair)
      note ok = roundTripper_frame [OF rt]
      show ?thesis
        using * Some tun Inr rt ok
        by (cases rr) (auto simp: impersonationConfig_def UserInfoFromContext_def impersonates_def routes_via_def)
    qed
  qed
qed

lemma gives_config_spdy: "gives_config A tun ctx cluster (spdyConfig A ctx cluster)"
  unfolding gives_config_def
  by (auto simp: spdyConfig_def UserInfoFromContext_def impersonates_def routes_via_def evictClients_def closeTransport_def
        split: option.splits sum.splits if_splits)

lemma gives_config_check:
  assumes "gives_config A tun ctx cluster m"
  shows "gives_config A tun ctx cluster (bindE m (\<lambda>config. bindE (mapErrE g (liftE (chk config))) (\<lambda>_. retE config)))"
  unfolding gives_config_def
proof (intro allI impI)
  fix w res w'
  assume *: "routes_via tun w \<and> bindE m (\<lambda>config. bindE (mapErrE g (liftE (chk config))) (\<lambda>_. retE config)) w = (res, w')"
  obtain r w1 where m: "m w = (r, w1)" by (metis surj_pair)
  have ok: "routes_via tun w1" "sent w1 = sent w" "\<forall>cfg. r = Inr cfg \<longrightarrow> impersonates A tun ctx cluster cfg"
    using assms * m unfolding gives_config_def by blast+
  show "routes_via tun w' \<and> sent w' = sent w \<and> (\<forall>cfg. res = Inr cfg \<longrightarrow> impersonates A tun ctx cluster cfg)"
    using * m ok by (cases r) (auto simp: bindE_def mapErrE_def split: sum.splits)
qed

lemma gives_config_clients:
  shows "gives_config A tun ctx cluster (discovery_client A ctx cluster)"
    "gives_config A tun ctx cluster (dynamicClient A msg ctx cluster)"
    "gives_config A tun ctx cluster (clientset A ctx cluster)"
  using gives_config_check [OF gives_config_impersonation]
  by (simp_all add: discovery_client_def dynamicClient_def clientset_def)

text \<open>After a configuration step, requests under the returned configuration are allowed.\<close>

lemma as_user_bind_config:
  fixes A :: "('tun, 't, 'x, 'sc, 'ver) k8s_api" and m :: "(('tun, 't, 'x) kworld, 't rest_config) eff"
  assumes "gives_config A tun ctx cluster m"
    and "\<And>cfg. impersonates A tun ctx cluster cfg \<Longrightarrow> as_user A tun ctx cluster (f cfg)"
  shows "as_user A tun ctx cluster (bindE m f)"
  unfolding as_user_def
proof (rule logs_onlyI)
  fix w :: "('tun, 't, 'x) kworld" assume I: "routes_via tun w"
  obtain r w1 where m: "m w = (r, w1)" by (metis surj_pair)
  have ok: "routes_via tun w1" "sent w1 = sent w" "\<forall>cfg. r = Inr cfg \<longrightarrow> impersonates A tun ctx cluster cfg"
    using assms(1) I m unfolding gives_config_def by blast+
  show "routes_via tun (snd (bindE m f w)) \<and>
      (\<exists>l. sent (snd (bindE m f w)) = sent w @ l \<and> (\<forall>x\<in>set l. case x of (cfg, _) \<Rightarrow> impersonates A tun ctx cluster cfg))"
  proof (cases r)
    case (Inr cfg)
    then have "as_user A tun ctx cluster (f cfg)" using assms(2) ok(3) by blast
    then obtain l where "routes_via tun (snd (f cfg w1))" "sent (snd (f cfg w1)) = sent w1 @ l"
        "\<forall>x\<in>set l. case x of (cfg, _) \<Rightarrow> impersonates A tun ctx cluster cfg"
      using ok(1) unfolding as_user_def logs_only_def by blast
    then show ?thesis using Inr m ok(1,2) by simp
  qed (use m ok in simp)
qed

lemma as_user_call:
  "impersonates A tun ctx cluster cfg \<Longrightarrow> as_user A tun ctx cluster (api_call cfg req f)"
  unfolding as_user_def by (intro logs_onlyI) (auto simp: api_call_def routes_via_def split: prod.splits)

lemma as_user_ext_call: "as_user A tun ctx cluster (ext_call f)"
  unfolding as_user_def by (intro logs_onlyI) (auto simp: ext_call_def routes_via_def split: prod.splits)

lemma as_user_intros:
  "as_user A tun ctx cluster (retE x)" "as_user A tun ctx cluster (failE e)"
  "as_user A tun ctx cluster (liftE r)"
  "as_user A tun ctx cluster m \<Longrightarrow> as_user A tun ctx cluster (mapErrE g m)"
  "as_user A tun ctx cluster m \<Longrightarrow> (\<And>x. as_user A tun ctx cluster (h x)) \<Longrightarrow> as_user A tun ctx cluster (bindE m h)"
  unfolding as_user_def by auto

lemmas as_user_rules = as_user_call as_user_ext_call as_user_intros

lemma as_user_discovery:
  shows "as_user A tun ctx cluster (LookupResource A ctx cluster g v r)"
    "as_user A tun ctx cluster (ServerResources A ctx cluster)"
    "as_user A tun ctx cluster (ResolveSchema A ctx cluster g v k)"
    "as_user A tun ctx cluster (ServerVersion A ctx cluster)"
    "as_user A tun ctx cluster (SupportsWatchList A minv ctx cluster)"
proof -
  note dc = as_user_bind_config [OF gives_config_clients(1)]
  show "as_user A tun ctx cluster (LookupResource A ctx cluster g v r)"
    unfolding LookupResource_def Let_def by (intro dc) (auto intro!: as_user_rules)
  show "as_user A tun ctx cluster (ServerResources A ctx cluster)"
    unfolding ServerResources_def by (intro dc) (auto intro!: as_user_rules)
  show "as_user A tun ctx cluster (ResolveSchema A ctx cluster g v k)"
    unfolding ResolveSchema_def by (intro dc) (auto intro!: as_user_rules)
  show sv: "as_user A tun ctx cluster (ServerVersion A ctx cluster)"
    unfolding ServerVersion_def by (intro dc) (auto intro!: as_user_rules)
  show "as_user A tun ctx cluster (SupportsWatchList A minv ctx cluster)"
    unfolding SupportsWatchList_def using sv by (auto intro!: as_user_rules)
qed

lemma as_user_repo:
  shows "as_user A tun ctx cluster (repo_List A ctx cluster gvr ns lopts)"
    "as_user A tun ctx cluster (repo_Get A ctx cluster gvr ns name)"
    "as_user A tun ctx cluster (repo_Create A ctx cluster gvr ns manifest)"
    "as_user A tun ctx cluster (repo_Apply A ctx cluster gvr ns name manifest aopts)"
    "as_user A tun ctx cluster (repo_Delete A ctx cluster gvr ns name dopts)"
    "as_user A tun ctx cluster (repo_Watch A ctx cluster gvr ns wopts)"
    "as_user A tun ctx cluster (repo_ListEvents A ctx cluster ns lopts)"
proof -
  note dc = as_user_bind_config [OF gives_config_clients(2)]
  show "as_user A tun ctx cluster (repo_List A ctx cluster gvr ns lopts)"
    unfolding repo_List_def by (intro dc) (auto intro!: as_user_rules)
  show "as_user A tun ctx cluster (repo_Get A ctx cluster gvr ns name)"
    unfolding repo_Get_def by (intro dc) (auto intro!: as_user_rules)
  show "as_user A tun ctx cluster (repo_Create A ctx cluster gvr ns manifest)"
    unfolding repo_Create_def by (intro dc) (auto intro!: as_user_rules)
  show "as_user A tun ctx cluster (repo_Apply A ctx cluster gvr ns name manifest aopts)"
    unfolding repo_Apply_def by (intro dc) (auto intro!: as_user_rules)
  show "as_user A tun ctx cluster (repo_Delete A ctx cluster gvr ns name dopts)"
    unfolding repo_Delete_def by (intro dc) (auto intro!: as_user_rules)
  show "as_user A tun ctx cluster (repo_Watch A ctx cluster gvr ns wopts)"
    unfolding repo_Watch_def by (intro dc) (auto intro!: as_user_rules)
  show "as_user A tun ctx cluster (repo_ListEvents A ctx cluster ns lopts)"
    unfolding repo_ListEvents_def by (intro dc) (auto intro!: as_user_rules)
qed

lemma as_user_runtime:
  shows "as_user A tun ctx cluster (repo_PodLogs A ctx cluster ns name plopts)"
    "as_user A tun ctx cluster (repo_Exec A ctx cluster ns name eopts)"
    "as_user A tun ctx cluster (repo_GetScale A ctx cluster gvr ns name)"
    "as_user A tun ctx cluster (repo_UpdateScale A ctx cluster gvr ns name replicas)"
    "as_user A tun ctx cluster (repo_Restart A stamp ctx cluster gvr ns name)"
    "as_user A tun ctx cluster (repo_PortForward A S evs ctx cluster ns name port)"
proof -
  note dc = as_user_bind_config [OF gives_config_clients(2)]
  note cs = as_user_bind_config [OF gives_config_clients(3)]
  note sp = as_user_bind_config [OF gives_config_spdy]
  show "as_user A tun ctx cluster (repo_PodLogs A ctx cluster ns name plopts)"
    unfolding repo_PodLogs_def by (intro cs) (auto intro!: as_user_rules)
  show "as_user A tun ctx cluster (repo_Exec A ctx cluster ns name eopts)"
    unfolding repo_Exec_def by (intro sp) (auto intro!: as_user_rules)
  show "as_user A tun ctx cluster (repo_GetScale A ctx cluster gvr ns name)"
    unfolding repo_GetScale_def by (intro dc) (auto intro!: as_user_rules split: sum.splits bool.splits prod.splits)
  show "as_user A tun ctx cluster (repo_UpdateScale A ctx cluster gvr ns name replicas)"
    unfolding repo_UpdateScale_def by (intro dc) (auto intro!: as_user_rules split: sum.splits prod.splits)
  show "as_user A tun ctx cluster (repo_Restart A stamp ctx cluster gvr ns name)"
    unfolding repo_Restart_def by (intro dc) (auto intro!: as_user_rules)
  show "as_user A tun ctx cluster (repo_PortForward A S evs ctx cluster ns name port)"
    unfolding repo_PortForward_def by (intro sp) (auto intro!: as_user_rules)
qed

section \<open>The interfaces of the use cases, implemented\<close>

definition NewDiscoveryClient ::
  "('tun, 't, 'x, 'sc, 'ver) k8s_api \<Rightarrow> 'ver \<Rightarrow> (('tun, 't, 'x) kworld, 'sc) DiscoveryClient" where
  "NewDiscoveryClient A minv =
     \<lparr>dc_LookupResource = LookupResource A, dc_ServerResources = ServerResources A,
      dc_ResolveSchema = ResolveSchema A, dc_ServerVersion = ServerVersion A,
      dc_SupportsWatchList = SupportsWatchList A minv\<rparr>"

definition NewResourceRepo :: "('tun, 't, 'x, 'sc, 'ver) k8s_api \<Rightarrow> ('tun, 't, 'x) kworld ResourceRepo" where
  "NewResourceRepo A =
     \<lparr>rr_List = repo_List A, rr_Get = repo_Get A, rr_Create = repo_Create A, rr_Apply = repo_Apply A,
      rr_Delete = repo_Delete A, rr_Watch = repo_Watch A, rr_ListEvents = repo_ListEvents A\<rparr>"

definition NewRuntimeRepo :: "('tun, 't, 'x, 'sc, 'ver) k8s_api \<Rightarrow> gostring \<Rightarrow> ('tun, 't, 'x) kworld RuntimeRepo" where
  "NewRuntimeRepo A stamp =
     \<lparr>rt_PodLogs = repo_PodLogs A, rt_GetScale = repo_GetScale A, rt_UpdateScale = repo_UpdateScale A,
      rt_Restart = repo_Restart A stamp\<rparr>"

lemma LookupResource_gvr:
  assumes "LookupResource A ctx cl g v r w = (Inr x, w')"
  shows "x = \<lparr>gvr_Group = g, gvr_Version = v, gvr_Resource = r\<rparr>"
proof -
  obtain client w1 where "bindE (mapErrE wrapK8sError
       (api_call client (ReqServerResourcesForGroupVersion (gv_string g v)) (server_resources_gv A client (gv_string g v))))
       (\<lambda>resources. if \<exists>q \<in> set resources. ar_Name q = r then retE \<lparr>gvr_Group = g, gvr_Version = v, gvr_Resource = r\<rparr>
          else failE (unrecognized \<lparr>gvr_Group = g, gvr_Version = v, gvr_Resource = r\<rparr>)) w1 = (Inr x, w')"
    using bindE_InrD [OF assms [unfolded LookupResource_def]] by (auto simp: Let_def)
  from bindE_InrD [OF this] show ?thesis by (auto split: if_splits)
qed

interpretation k8s: cluster_backend "NewDiscoveryClient A minv" "NewResourceRepo A" sent
  "routes_via tun"
  "\<lambda>ctx cl (cfg, _). impersonates A tun ctx cl cfg"
  for A :: "('tun, 't, 'x, 'sc, 'ver) k8s_api" and minv tun
  by unfold_locales
     (auto simp: NewDiscoveryClient_def NewResourceRepo_def LookupResource_gvr
        intro!: as_user_discovery [unfolded as_user_def] as_user_repo [unfolded as_user_def])

section \<open>Properties\<close>

text \<open>The operations a client can cause on a cluster's resources and workloads.\<close>

datatype resource_op =
    OpList ResourceIdentifier ListOptions
  | OpGet ResourceIdentifier
  | OpDescribe ResourceIdentifier
  | OpCreate ResourceIdentifier bytes
  | OpApply ResourceIdentifier bytes ApplyOptions
  | OpDelete ResourceIdentifier DeleteOptions
  | OpWatch ResourceIdentifier WatchOptions

fun op_cluster :: "resource_op \<Rightarrow> gostring" where
  "op_cluster (OpList i _) = id_Cluster i"
| "op_cluster (OpGet i) = id_Cluster i"
| "op_cluster (OpDescribe i) = id_Cluster i"
| "op_cluster (OpCreate i _) = id_Cluster i"
| "op_cluster (OpApply i _ _) = id_Cluster i"
| "op_cluster (OpDelete i _) = id_Cluster i"
| "op_cluster (OpWatch i _) = id_Cluster i"

fun run_op :: "('w, 'sc) ResourceUseCase \<Rightarrow> go_context \<Rightarrow> resource_op \<Rightarrow> 'w \<Rightarrow> go_error option \<times> 'w" where
  "run_op uc ctx (OpList i lo) w = (case ListResources uc ctx i lo w of (Inl e, w') \<Rightarrow> (Some e, w') | (Inr _, w') \<Rightarrow> (None, w'))"
| "run_op uc ctx (OpGet i) w = (case GetResource uc ctx i w of (Inl e, w') \<Rightarrow> (Some e, w') | (Inr _, w') \<Rightarrow> (None, w'))"
| "run_op uc ctx (OpDescribe i) w = (case DescribeResource uc ctx i w of (Inl e, w') \<Rightarrow> (Some e, w') | (Inr _, w') \<Rightarrow> (None, w'))"
| "run_op uc ctx (OpCreate i m) w = (case CreateResource uc ctx i m w of (Inl e, w') \<Rightarrow> (Some e, w') | (Inr _, w') \<Rightarrow> (None, w'))"
| "run_op uc ctx (OpApply i m ao) w = (case ApplyResource uc ctx i m ao w of (Inl e, w') \<Rightarrow> (Some e, w') | (Inr _, w') \<Rightarrow> (None, w'))"
| "run_op uc ctx (OpDelete i dopts) w = (case DeleteResource uc ctx i dopts w of (Inl e, w') \<Rightarrow> (Some e, w') | (Inr _, w') \<Rightarrow> (None, w'))"
| "run_op uc ctx (OpWatch i wopts) w = (case WatchResource uc ctx i wopts w of (Inl e, w') \<Rightarrow> (Some e, w') | (Inr _, w') \<Rightarrow> (None, w'))"

definition k8s_use_case ::
  "('tun, 't, 'x, 'sc, 'ver) k8s_api \<Rightarrow> 'ver \<Rightarrow> (('tun, 't, 'x) kworld, 'sc) ResourceUseCase" where
  "k8s_use_case A minv = NewResourceUseCase (NewDiscoveryClient A minv) (NewResourceRepo A) (ResolveSchema A)"

lemma snd_result: "snd (case p of (Inl e, w') \<Rightarrow> (Some e, w') | (Inr x, w') \<Rightarrow> (None, w')) = snd p"
  by (cases p; cases "fst p") auto

lemma run_op_logs:
  assumes "routes_via tun w"
  shows "routes_via tun (snd (run_op (k8s_use_case A minv) ctx op w)) \<and>
     (\<exists>l. sent (snd (run_op (k8s_use_case A minv) ctx op w)) = sent w @ l \<and>
          (\<forall>(cfg, req) \<in> set l. impersonates A tun ctx (op_cluster op) cfg))"
proof -
  have *: "logs_only sent (routes_via tun)
      (\<lambda>(cfg, _). impersonates A tun ctx cl cfg) m \<Longrightarrow>
      routes_via tun (snd (m w)) \<and> (\<exists>l. sent (snd (m w)) = sent w @ l \<and>
        (\<forall>(cfg, req) \<in> set l. impersonates A tun ctx cl cfg))" for m :: "(('a, 'b, 'c) kworld, 'z) eff" and cl
    using assms unfolding logs_only_def by blast
  show ?thesis
    unfolding k8s_use_case_def
    by (cases op) (simp_all add: snd_result * [OF k8s.use_case_log(1)] * [OF k8s.use_case_log(2)] * [OF k8s.use_case_log(3)]
       * [OF k8s.use_case_log(4)] * [OF k8s.use_case_log(5)] * [OF k8s.use_case_log(6)] * [OF k8s.use_case_log(7)])
qed

text \<open>
  Every request an operation sends to a cluster carries the identity of the
  authenticated user of its context (subject and groups) as impersonation and goes to the address
  the tunnel currently resolves the cluster to.
\<close>

theorem requests_are_impersonated:
  assumes "routes_via tun w"
    and "run_op (k8s_use_case A minv) ctx op w = (res, w')"
  shows "routes_via tun w' \<and>
         (\<exists>l. sent w' = sent w @ l \<and>
              (\<forall>(cfg, req) \<in> set l.
                 (\<exists>u. ctx_user ctx = Some u \<and> rc_UserName cfg = ui_Subject u \<and> rc_Groups cfg = ui_Groups u) \<and>
                 resolve_address A tun (op_cluster op) = Inr (rc_Host cfg)))"
  using run_op_logs [OF assms(1), of A minv ctx op] assms(2) by (auto simp: impersonates_def)

lemma lookup_no_user:
  "ctx_user ctx = None \<Longrightarrow> lookupGVR i ctx (NewDiscoveryClient A minv) w = (Inl no_user, w)"
  by (simp add: lookupGVR_def NewDiscoveryClient_def LookupResource_def discovery_client_def
      impersonationConfig_def UserInfoFromContext_def)

lemma lookup_unregistered:
  "ctx_user ctx = Some u \<Longrightarrow> resolve_address A (kw_tunnel w) (id_Cluster i) = Inl e \<Longrightarrow>
   lookupGVR i ctx (NewDiscoveryClient A minv) w = (Inl e, evictClients A (id_Cluster i) w)"
  by (simp add: lookupGVR_def NewDiscoveryClient_def LookupResource_def discovery_client_def
      impersonationConfig_def UserInfoFromContext_def)

lemma run_op_lookup_failure:
  assumes "\<And>i. id_Cluster i = op_cluster op \<Longrightarrow> lookupGVR i ctx (NewDiscoveryClient A minv) w = (Inl e, w')"
  shows "run_op (k8s_use_case A minv) ctx op w = (Some e, w')"
  unfolding k8s_use_case_def by (cases op) (simp_all add: k8s.lookup_failure [OF assms])

text \<open>
  Without an authenticated user nothing is sent and nothing changes: every operation
  fails, and the client sees the code for an unauthenticated request.
\<close>

theorem unauthenticated_sends_nothing:
  assumes "ctx_user ctx = None"
  shows "\<exists>e. run_op (k8s_use_case A minv) ctx op w = (Some e, w) \<and>
             connect_code_of (domainErrorToConnectError e) = Some CodeUnauthenticated"
  using run_op_lookup_failure [OF lookup_no_user [OF assms]] by (force simp: no_user_def)

text \<open>
  An operation on a cluster that is not registered fails with the tunnel's error, sends
  nothing to any cluster, and drops the transport cached for the cluster, leaving those of other
  clusters in place.
\<close>

theorem unregistered_cluster_evicts:
  assumes "ctx_user ctx = Some u" and "resolve_address A (kw_tunnel w) (op_cluster op) = Inl e"
  shows "\<exists>w'. run_op (k8s_use_case A minv) ctx op w = (Some e, w') \<and> sent w' = sent w \<and>
           gget (transports w') = (gget (transports w))(op_cluster op := None)"
proof -
  have "run_op (k8s_use_case A minv) ctx op w = (Some e, evictClients A (op_cluster op) w)"
    using run_op_lookup_failure [of op ctx A minv w e "evictClients A (op_cluster op) w"]
      lookup_unregistered [OF assms(1), of A w] assms(2) by simp
  then show ?thesis by (auto simp: evictClients_def closeTransport_def fun_eq_iff split: option.splits)
qed

text \<open>
  A port-forward returns the context's error as soon as the context is cancelled;
  otherwise it waits for both copy directions and returns the first error of either, and it
  returns no error exactly when both directions ended without one.
\<close>

theorem pf_wait_result:
  "pf_wait 2 None 0 [PfCopy a, PfCopy b] = Some (if a \<noteq> None then a else b, if a \<noteq> None \<or> b \<noteq> None then 1 else 0) \<and>
   pf_wait 2 None 0 (PfCtxDone e # evs) = Some (Some e, 1) \<and>
   map_option fst (pf_wait 2 None 0 (PfCopy a # PfCtxDone e # evs)) = Some (Some e) \<and>
   pf_wait 2 None 0 [PfCopy a] = None"
  by (cases a; cases b) (simp_all add: numeral_2_eq_2)

lemma to_of_int32: "to_int32 (of_int32 n) = n"
  unfolding to_int32_def of_int32_def by transfer (simp add: take_bit_signed_take_bit)

section \<open>Witnesses\<close>

text \<open>A client library whose cluster knows one resource and answers every request; the tunnel
  is a map from cluster to address and all clusters share the default transport.\<close>

definition demo_api :: "((gostring, gostring) gomap, gostring, nat, unit, nat) k8s_api" where
  "demo_api = \<lparr>resolve_address = (\<lambda>t c. case gget t c of None \<Rightarrow> Inl (ErrClusterNotFound c) | Some a \<Rightarrow> Inr a),
     transport_for = (\<lambda>_ x. (Inr ''http.DefaultTransport'', x)), close_idle = (\<lambda>_ x. x),
     new_discovery_client = (\<lambda>_. Inr ()), new_dynamic_client = (\<lambda>_. Inr ()), new_clientset = (\<lambda>_. Inr ()),
     server_resources_gv = (\<lambda>_ _ x. (Inr [\<lparr>ar_Name = ''pods'', ar_Kind = ''Pod'', ar_Namespaced = True, ar_Verbs = [], ar_ShortNames = []\<rparr>], Suc x)),
     server_groups_resources = (\<lambda>_ x. (Inr [], Suc x)),
     resolve_schema_gvk = (\<lambda>_ _ _ _ x. (Inr (), Suc x)),
     server_version_info = (\<lambda>_ x. (Inr ''v1.34.0'', Suc x)),
     semver_parse = (\<lambda>s. Inr (length s)), semver_geq = (\<lambda>a b. b \<le> a),
     dyn_list = (\<lambda>_ _ _ _ x. (Inr empty_list, Suc x)), dyn_get = (\<lambda>_ _ _ _ _ x. (Inr [], Suc x)),
     dyn_create = (\<lambda>_ _ _ obj x. (Inr obj, Suc x)), dyn_patch = (\<lambda>_ _ _ _ _ _ _ _ x. (Inr [], Suc x)),
     dyn_delete = (\<lambda>_ _ _ _ _ x. (Inr (), Suc x)), dyn_update = (\<lambda>_ _ _ obj _ x. (Inr obj, Suc x)),
     dyn_watch = (\<lambda>_ _ _ _ x. (Inr [], Suc x)), pod_logs = (\<lambda>_ _ _ _ x. (Inr [], Suc x)),
     spdy_executor = (\<lambda>_. Inr ()), spdy_stream = (\<lambda>_ _ _ _ x. (Inr (), Suc x)),
     yaml_decode = (\<lambda>_. Inr []), marshal_object = (\<lambda>_. Inr []),
     nested_int64 = (\<lambda>_ _. Inr (1, True)), set_nested_int64 = (\<lambda>obj _ _. Inr obj),
     marshal_status = (\<lambda>_. Inr []), unmarshal_map = (\<lambda>_. Inr [])\<rparr>"

definition demo_kworld :: "((gostring, gostring) gomap, gostring, nat) kworld" where
  "demo_kworld = \<lparr>kw_tunnel = [(''prod'', ''http://127.1.1.1:16598'')], transports = [], kw_ext = 0, sent = []\<rparr>"

definition demo_ctx :: go_context where
  "demo_ctx = \<lparr>ctx_user = Some \<lparr>ui_Subject = ''alice'', ui_Groups = [''dev'']\<rparr>\<rparr>"

definition demo_id :: "gostring \<Rightarrow> ResourceIdentifier" where
  "demo_id cl = \<lparr>id_Cluster = cl, id_Group = [], id_Version = ''v1'', id_Resource = ''pods'', id_Namespace = ''default'', id_Name = ''web''\<rparr>"

lemma demo_kworld_ok: "routes_via (kw_tunnel demo_kworld) demo_kworld"
  by (simp add: routes_via_def demo_kworld_def)

theorem requests_are_impersonated_witness:
  "map (\<lambda>(cfg, req). (rc_UserName cfg, rc_Host cfg))
     (sent (snd (run_op (k8s_use_case demo_api 0) demo_ctx (OpGet (demo_id ''prod'')) demo_kworld))) =
     [(''alice'', ''http://127.1.1.1:16598''), (''alice'', ''http://127.1.1.1:16598'')]"
proof -
  obtain res w' where run: "run_op (k8s_use_case demo_api 0) demo_ctx (OpGet (demo_id ''prod'')) demo_kworld = (res, w')"
    by (metis surj_pair)
  have len: "length (sent (snd (run_op (k8s_use_case demo_api 0) demo_ctx (OpGet (demo_id ''prod'')) demo_kworld))) = 2"
    by code_simp
  from requests_are_impersonated [OF demo_kworld_ok run] obtain l where
    l: "sent w' = l" "\<forall>(cfg, req) \<in> set l. rc_UserName cfg = ''alice'' \<and> rc_Host cfg = ''http://127.1.1.1:16598''"
    by (fastforce simp: demo_ctx_def demo_kworld_def demo_id_def demo_api_def)
  have "length l = 2" using len run l(1) by simp
  then obtain a b where "l = [a, b]" by (metis (no_types, lifting) One_nat_def Suc_1 Suc_length_conv length_0_conv)
  then show ?thesis using l run by (auto split: prod.splits)
qed

theorem unauthenticated_sends_nothing_witness:
  "snd (run_op (k8s_use_case demo_api 0) \<lparr>ctx_user = None\<rparr> (OpGet (demo_id ''prod'')) demo_kworld) = demo_kworld"
  using unauthenticated_sends_nothing [of "\<lparr>ctx_user = None\<rparr>" demo_api 0 "OpGet (demo_id ''prod'')" demo_kworld] by auto

theorem unregistered_cluster_evicts_witness:
  "sent (snd (run_op (k8s_use_case demo_api 0) demo_ctx (OpGet (demo_id ''gone'')) demo_kworld)) = []"
  using unregistered_cluster_evicts [of demo_ctx _ demo_api demo_kworld "OpGet (demo_id ''gone'')" _ 0]
  by (fastforce simp: demo_ctx_def demo_id_def demo_kworld_def demo_api_def)
end
