(* ===== verification/Resource_Handler.thy ===== *)
theory Resource_Handler
  imports Resources
begin

text \<open>
  The resource service: \<^verbatim>\<open>internal/handler/resource.go\<close> and \<^verbatim>\<open>internal/handler/sanitize.go\<close>.

  The conversions of third-party packages are the fields of \<open>proto_lib\<close>: \<^verbatim>\<open>structpb.NewStruct\<close>,
  \<^verbatim>\<open>schema.ParseGroupVersion\<close>, \<^verbatim>\<open>json.Marshal\<close> of an OpenAPI schema and \<^verbatim>\<open>protojson.Unmarshal\<close> into a struct. The
  watch loop reads the events its \<^verbatim>\<open>select\<close> receives; the end of the list is the closed channel.
\<close>

section \<open>Sanitizing\<close>

definition lastApplied :: gostring where
  "lastApplied = ''kubectl.kubernetes.io/last-applied-configuration''"

definition clean_annotations :: "jobj \<Rightarrow> jobj" where
  "clean_annotations md =
     (case gget md ''annotations'' of
        Some (JObj annotations) \<Rightarrow>
          if glen annotations = 0 then md
          else
            (let annotations' = gdel lastApplied annotations in
             if glen annotations' = 0 then gdel ''annotations'' md
             else gput ''annotations'' (JObj annotations') md)
      | _ \<Rightarrow> md)"

definition cleanObject :: "jobj \<Rightarrow> jobj" where
  "cleanObject obj =
     (case gget obj ''metadata'' of
        Some (JObj md) \<Rightarrow> gput ''metadata'' (JObj (clean_annotations (gdel ''managedFields'' md))) obj
      | _ \<Rightarrow> obj)"

section \<open>Conversions\<close>

record ('st, 'sc) proto_lib =
  new_struct :: "jobj \<Rightarrow> 'st res"
  parse_group_version :: "gostring \<Rightarrow> (gostring \<times> gostring) res"
  marshal_schema :: "'sc \<Rightarrow> bytes res"
  unmarshal_struct :: "bytes \<Rightarrow> 'st res"

record pb_APIResource =
  pa_Group :: gostring
  pa_Version :: gostring
  pa_Resource :: gostring
  pa_Kind :: gostring
  pa_Namespaced :: bool
  pa_Verbs :: "gostring list"
  pa_ShortNames :: "gostring list"

datatype pb_EventType = TYPE_UNSPECIFIED | TYPE_ADDED | TYPE_MODIFIED | TYPE_DELETED | TYPE_BOOKMARK | TYPE_ERROR

record 'st pb_WatchEvent =
  pw_Type :: pb_EventType
  pw_Resource :: "'st option"
  pw_ResourceVersion :: gostring

record 'st pb_ListResponse =
  pl_ResourceVersion :: gostring
  pl_Continue :: gostring
  pl_RemainingItemCount :: int
  pl_Items :: "'st list"

definition deref :: "'a option \<Rightarrow> 'a \<Rightarrow> 'a" where
  "deref p d = (case p of None \<Rightarrow> d | Some x \<Rightarrow> x)"

definition toProtoAPIResource :: "gostring \<times> gostring \<Rightarrow> APIResource \<Rightarrow> pb_APIResource" where
  "toProtoAPIResource gv r =
     \<lparr>pa_Group = fst gv, pa_Version = snd gv, pa_Resource = ar_Name r, pa_Kind = ar_Kind r,
      pa_Namespaced = ar_Namespaced r, pa_Verbs = ar_Verbs r, pa_ShortNames = ar_ShortNames r\<rparr>"

fun toProtoAPIResources :: "('st, 'sc) proto_lib \<Rightarrow> APIResourceList list \<Rightarrow> pb_APIResource list res" where
  "toProtoAPIResources P [] = Inr []"
| "toProtoAPIResources P (l # ls) =
     (case parse_group_version P (al_GroupVersion l) of
        Inl e \<Rightarrow> Inl e
      | Inr gv \<Rightarrow>
          (case toProtoAPIResources P ls of
             Inl e \<Rightarrow> Inl e
           | Inr rest \<Rightarrow> Inr (map (toProtoAPIResource gv) (al_APIResources l) @ rest)))"

definition toProtoResource :: "('st, 'sc) proto_lib \<Rightarrow> jobj \<Rightarrow> 'st res" where
  "toProtoResource P obj = new_struct P obj"

definition toProtoStructFromJSONSchema :: "('st, 'sc) proto_lib \<Rightarrow> 'sc \<Rightarrow> 'st res" where
  "toProtoStructFromJSONSchema P js =
     (case marshal_schema P js of
        Inl e \<Rightarrow> Inl e
      | Inr jsBytes \<Rightarrow> (case unmarshal_struct P jsBytes of Inl e \<Rightarrow> Inl e | Inr ret \<Rightarrow> Inr ret))"

fun toProtoResources :: "('st, 'sc) proto_lib \<Rightarrow> jobj list \<Rightarrow> 'st list res" where
  "toProtoResources P [] = Inr []"
| "toProtoResources P (o1 # os) =
     (case toProtoResource P o1 of
        Inl e \<Rightarrow> Inl e
      | Inr r \<Rightarrow> (case toProtoResources P os of Inl e \<Rightarrow> Inl e | Inr rs \<Rightarrow> Inr (r # rs)))"

fun toProtoWatchEventType :: "WatchEventType \<Rightarrow> pb_EventType" where
  "toProtoWatchEventType WatchEventAdded = TYPE_ADDED"
| "toProtoWatchEventType WatchEventModified = TYPE_MODIFIED"
| "toProtoWatchEventType WatchEventDeleted = TYPE_DELETED"
| "toProtoWatchEventType WatchEventBookmark = TYPE_BOOKMARK"
| "toProtoWatchEventType WatchEventError = TYPE_ERROR"
| "toProtoWatchEventType (WatchEventOther t) = TYPE_UNSPECIFIED"

fun event_name :: "WatchEventType \<Rightarrow> gostring" where
  "event_name WatchEventAdded = ''ADDED''"
| "event_name WatchEventModified = ''MODIFIED''"
| "event_name WatchEventDeleted = ''DELETED''"
| "event_name WatchEventBookmark = ''BOOKMARK''"
| "event_name WatchEventError = ''ERROR''"
| "event_name (WatchEventOther t) = t"

definition change_event :: "('st, 'sc) proto_lib \<Rightarrow> WatchEvent \<Rightarrow> 'st pb_WatchEvent res" where
  "change_event P event =
     (case we_Object event of
        None \<Rightarrow> Inl (Plain (''nil object for event type '' @ event_name (we_Type event)))
      | Some obj \<Rightarrow>
          (case toProtoResource P obj of
             Inl e \<Rightarrow> Inl (Wrap (''convert resource for event type '' @ event_name (we_Type event)) e)
           | Inr resource \<Rightarrow>
               Inr \<lparr>pw_Type = toProtoWatchEventType (we_Type event), pw_Resource = Some resource, pw_ResourceVersion = []\<rparr>))"

definition bookmark_version :: "jobj \<Rightarrow> gostring" where
  "bookmark_version obj =
     (case gget obj ''metadata'' of
        Some (JObj md) \<Rightarrow> (case gget md ''resourceVersion'' of Some (JStr rv) \<Rightarrow> rv | _ \<Rightarrow> [])
      | _ \<Rightarrow> [])"

definition processEvent :: "('st, 'sc) proto_lib \<Rightarrow> WatchEvent \<Rightarrow> 'st pb_WatchEvent res" where
  "processEvent P event =
     (case we_Type event of
        WatchEventAdded \<Rightarrow> change_event P event
      | WatchEventModified \<Rightarrow> change_event P event
      | WatchEventDeleted \<Rightarrow> change_event P event
      | WatchEventBookmark \<Rightarrow>
          Inr \<lparr>pw_Type = TYPE_BOOKMARK, pw_Resource = None,
               pw_ResourceVersion = (case we_Object event of None \<Rightarrow> [] | Some obj \<Rightarrow> bookmark_version obj)\<rparr>
      | WatchEventError \<Rightarrow>
          Inr \<lparr>pw_Type = TYPE_ERROR,
               pw_Resource = (case we_Object event of
                                None \<Rightarrow> None
                              | Some obj \<Rightarrow> (case toProtoResource P obj of Inl _ \<Rightarrow> None | Inr r \<Rightarrow> Some r)),
               pw_ResourceVersion = []\<rparr>
      | WatchEventOther t \<Rightarrow> Inl (Plain (''unknown event type: '' @ t)))"

section \<open>Operations\<close>

definition connect_internal :: "go_error \<Rightarrow> go_error" where
  "connect_internal e = ConnectErr CodeInternal e"

text \<open>A use-case call followed by a conversion, with the errors the service reports for each.\<close>

definition converted :: "('w, 'a) eff \<Rightarrow> ('a \<Rightarrow> 'b res) \<Rightarrow> ('w, 'b) eff" where
  "converted call conv =
     bindE (mapErrE domainErrorToConnectError call) (\<lambda>x. mapErrE connect_internal (liftE (conv x)))"

definition srv_Discovery ::
  "('st, 'sc) proto_lib \<Rightarrow> ('w, 'sc) ResourceUseCase \<Rightarrow> go_context \<Rightarrow> gostring \<Rightarrow> ('w, pb_APIResource list) eff" where
  "srv_Discovery P uc ctx cluster = converted (uc_ServerResources uc ctx cluster) (toProtoAPIResources P)"

definition srv_Schema ::
  "('st, 'sc) proto_lib \<Rightarrow> ('w, 'sc) ResourceUseCase \<Rightarrow> go_context \<Rightarrow> gostring \<Rightarrow> gostring \<Rightarrow> gostring \<Rightarrow> gostring \<Rightarrow> ('w, 'st) eff" where
  "srv_Schema P uc ctx cluster grp version knd = converted (uc_ResolveSchema uc ctx cluster grp version knd) (toProtoStructFromJSONSchema P)"

definition list_response :: "('st, 'sc) proto_lib \<Rightarrow> UnstructuredList \<Rightarrow> 'st pb_ListResponse res" where
  "list_response P resources =
     (case toProtoResources P (map cleanObject (ul_Items resources)) of
        Inl e \<Rightarrow> Inl e
      | Inr items \<Rightarrow>
          Inr \<lparr>pl_ResourceVersion = ul_ResourceVersion resources, pl_Continue = ul_Continue resources,
               pl_RemainingItemCount = deref (ul_RemainingItemCount resources) 0, pl_Items = items\<rparr>)"

text \<open>Requests that name no single object leave the name empty.\<close>

definition srv_List ::
  "('st, 'sc) proto_lib \<Rightarrow> ('w, 'sc) ResourceUseCase \<Rightarrow> go_context \<Rightarrow> ResourceIdentifier \<Rightarrow> ListOptions \<Rightarrow> ('w, 'st pb_ListResponse) eff" where
  "srv_List P uc ctx i opts = converted (ListResources uc ctx (i\<lparr>id_Name := []\<rparr>) opts) (list_response P)"

definition srv_Get ::
  "('st, 'sc) proto_lib \<Rightarrow> ('w, 'sc) ResourceUseCase \<Rightarrow> go_context \<Rightarrow> ResourceIdentifier \<Rightarrow> ('w, 'st) eff" where
  "srv_Get P uc ctx i = converted (GetResource uc ctx i) (toProtoResource P)"

definition srv_Create ::
  "('st, 'sc) proto_lib \<Rightarrow> ('w, 'sc) ResourceUseCase \<Rightarrow> go_context \<Rightarrow> ResourceIdentifier \<Rightarrow> bytes \<Rightarrow> ('w, 'st) eff" where
  "srv_Create P uc ctx i manifest = converted (CreateResource uc ctx (i\<lparr>id_Name := []\<rparr>) manifest) (toProtoResource P)"

definition srv_Apply ::
  "('st, 'sc) proto_lib \<Rightarrow> ('w, 'sc) ResourceUseCase \<Rightarrow> go_context \<Rightarrow> ResourceIdentifier \<Rightarrow> bytes \<Rightarrow> ApplyOptions \<Rightarrow> ('w, 'st) eff" where
  "srv_Apply P uc ctx i manifest opts = converted (ApplyResource uc ctx i manifest opts) (toProtoResource P)"

definition srv_Delete ::
  "('w, 'sc) ResourceUseCase \<Rightarrow> go_context \<Rightarrow> ResourceIdentifier \<Rightarrow> int option \<Rightarrow> ('w, unit) eff" where
  "srv_Delete uc ctx i gracePeriod =
     mapErrE domainErrorToConnectError (DeleteResource uc ctx i \<lparr>do_GracePeriodSeconds = gracePeriod\<rparr>)"

definition srv_Describe ::
  "('st, 'sc) proto_lib \<Rightarrow> ('w, 'sc) ResourceUseCase \<Rightarrow> go_context \<Rightarrow> ResourceIdentifier \<Rightarrow> ('w, 'st \<times> 'st list) eff" where
  "srv_Describe P uc ctx i =
     converted (DescribeResource uc ctx i)
       (\<lambda>(obj, events).
          case toProtoResource P obj of
            Inl e \<Rightarrow> Inl e
          | Inr r \<Rightarrow> (case toProtoResources P (ul_Items events) of Inl e \<Rightarrow> Inl e | Inr es \<Rightarrow> Inr (r, es)))"

datatype watch_input = WCtxDone | WEvent WatchEvent

definition watch_closed :: go_error where
  "watch_closed = ConnectErr CodeUnavailable (Plain ''watch closed'')"

fun watch_loop ::
  "('st, 'sc) proto_lib \<Rightarrow> ('st pb_WatchEvent list \<Rightarrow> go_error option) \<Rightarrow> watch_input list \<Rightarrow> 'st pb_WatchEvent list \<Rightarrow>
     unit res \<times> 'st pb_WatchEvent list" where
  "watch_loop P sendf [] msgs = (Inl watch_closed, msgs)"
| "watch_loop P sendf (WCtxDone # ins) msgs = (Inr (), msgs)"
| "watch_loop P sendf (WEvent ev # ins) msgs =
     (case processEvent P ev of
        Inl _ \<Rightarrow> watch_loop P sendf ins msgs
      | Inr msg \<Rightarrow>
          (case sendf msgs of
             Some e \<Rightarrow> (Inl e, msgs)
           | None \<Rightarrow> watch_loop P sendf ins (msgs @ [msg])))"

text \<open>The inputs are a function of the events the repository relays; \<open>ins\<close> interleaves the end of
  the request context.\<close>

definition srv_Watch ::
  "('st, 'sc) proto_lib \<Rightarrow> ('w, 'sc) ResourceUseCase \<Rightarrow> go_context \<Rightarrow> ('st pb_WatchEvent list \<Rightarrow> go_error option) \<Rightarrow>
     (WatchEvent list \<Rightarrow> watch_input list) \<Rightarrow> ResourceIdentifier \<Rightarrow> WatchOptions \<Rightarrow>
     ('w, unit res \<times> 'st pb_WatchEvent list) eff" where
  "srv_Watch P uc ctx sendf ins i opts =
     bindE (mapErrE domainErrorToConnectError
              (WatchResource uc ctx (i\<lparr>id_Name := []\<rparr>) (opts\<lparr>wo_SendInitialEvents := False\<rparr>)))
       (\<lambda>evs. retE (watch_loop P sendf (ins evs) []))"

section \<open>Properties\<close>

lemma gput_same: "gget m k = Some v \<Longrightarrow> gput k v m = m"
  by (induction m) (auto split: if_splits)

lemma gput_gput: "gput k v (gput k v m) = gput k v m"
  by (rule gput_same) simp

lemma gdel_none: "gget m k = None \<Longrightarrow> gdel k m = m"
  by (induction m) (auto split: if_splits)

lemma glen_zero: "glen m = 0 \<longleftrightarrow> m = []"
  by (simp add: glen_def)

lemma gget_all_None: "(\<forall>k. gget m k = None) \<longleftrightarrow> m = []"
  by (cases m) auto

lemma clean_annotations_other: "k \<noteq> ''annotations'' \<Longrightarrow> gget (clean_annotations md) k = gget md k"
  by (auto simp: clean_annotations_def Let_def split: option.splits json.splits)

text \<open>What is left of the annotations: the specification, over the entries rather than the code's lengths.\<close>

definition annotations_left :: "json option \<Rightarrow> json option" where
  "annotations_left v =
     (case v of
        Some (JObj ann) \<Rightarrow> if ann \<noteq> [] \<and> dom (gget ann) \<subseteq> {lastApplied} then None else Some (JObj (gdel lastApplied ann))
      | _ \<Rightarrow> v)"

lemma gdel_empty_iff: "gdel k m = [] \<longleftrightarrow> dom (gget m) \<subseteq> {k}"
  unfolding gget_all_None [symmetric] by (auto split: if_splits)

lemma clean_annotations_at: "gget (clean_annotations md) ''annotations'' = annotations_left (gget md ''annotations'')"
  by (auto simp: annotations_left_def clean_annotations_def glen_zero Let_def gdel_empty_iff [symmetric]
      split: option.split json.split)

lemma clean_annotations_idem: "clean_annotations (clean_annotations md) = clean_annotations md"
proof (cases "\<exists>ann. gget md ''annotations'' = Some (JObj ann) \<and> ann \<noteq> [] \<and> gdel lastApplied ann \<noteq> []")
  case True
  then obtain ann where ann: "gget md ''annotations'' = Some (JObj ann)" "ann \<noteq> []" "gdel lastApplied ann \<noteq> []" by blast
  have "gdel lastApplied (gdel lastApplied ann) = gdel lastApplied ann" by (rule gdel_none) simp
  then show ?thesis using ann by (simp add: clean_annotations_def glen_zero Let_def gput_gput)
next
  case False
  then show ?thesis by (auto simp: clean_annotations_def glen_zero Let_def split: option.splits json.splits)
qed

lemma cleanObject_idem: "cleanObject (cleanObject obj) = cleanObject obj"
proof (cases "\<exists>md. gget obj ''metadata'' = Some (JObj md)")
  case True
  then obtain md where md: "gget obj ''metadata'' = Some (JObj md)" by blast
  let ?md = "clean_annotations (gdel ''managedFields'' md)"
  have "gget ?md ''managedFields'' = None" by (simp add: clean_annotations_other)
  then have "clean_annotations (gdel ''managedFields'' ?md) = ?md" by (simp add: gdel_none clean_annotations_idem)
  then show ?thesis using md by (simp add: cleanObject_def gput_gput)
next
  case False
  then have "cleanObject obj = obj" by (auto simp: cleanObject_def split: option.splits json.splits)
  then show ?thesis by simp
qed

text \<open>
  Claim C38. What sanitizing does to any object. An object whose metadata is not a map stays as it is.
  Otherwise \<^verbatim>\<open>metadata.managedFields\<close> is gone, whatever the annotations are; the last-applied
  annotation is removed from the annotations, which are dropped altogether when they held nothing
  else (annotations that are absent, empty or not a map stay as they are); and the other metadata, the
  other annotations and the rest of the object are unchanged. Sanitizing twice is the same as once.
\<close>

theorem cleanObject_exact:
  "(case gget obj ''metadata'' of
      Some (JObj md) \<Rightarrow>
        \<exists>md'. gget (cleanObject obj) = (gget obj)(''metadata'' \<mapsto> JObj md') \<and>
          gget md' = (gget md)(''managedFields'' := None, ''annotations'' := annotations_left (gget md ''annotations''))
    | _ \<Rightarrow> cleanObject obj = obj) \<and>
   cleanObject (cleanObject obj) = cleanObject obj"
proof -
  have "gget (clean_annotations (gdel ''managedFields'' md)) =
      (gget md)(''managedFields'' := None, ''annotations'' := annotations_left (gget md ''annotations''))" for md
    by (rule ext) (simp add: clean_annotations_other clean_annotations_at)
  then show ?thesis using cleanObject_idem [of obj]
    by (cases "gget obj ''metadata''") (auto simp: cleanObject_def split: json.split)
qed

definition demo_object :: jobj where
  "demo_object = [(''kind'', JStr ''Pod''), (''metadata'', JObj [(''name'', JStr ''p''), (''managedFields'', JArr []),
     (''annotations'', JObj [(lastApplied, JStr ''x'')])])]"

text \<open>Two objects: one with the last-applied annotation only, one without annotations.\<close>

definition demo_bare_object :: jobj where
  "demo_bare_object = [(''kind'', JStr ''Pod''), (''metadata'', JObj [(''name'', JStr ''p''), (''managedFields'', JArr [])])]"

theorem cleanObject_exact_witness:
  "(\<exists>md'. gget (cleanObject demo_object) ''metadata'' = Some (JObj md') \<and> gget md' ''annotations'' = None \<and>
     gget md' ''managedFields'' = None \<and> gget md' ''name'' = Some (JStr ''p'') \<and>
     gget (cleanObject demo_object) ''kind'' = Some (JStr ''Pod'')) \<and>
   (\<exists>md'. gget (cleanObject demo_bare_object) ''metadata'' = Some (JObj md') \<and> gget md' ''managedFields'' = None \<and>
     gget md' ''name'' = Some (JStr ''p''))"
proof
  have "dom (gget [(lastApplied, JStr ''x'')]) \<subseteq> {lastApplied}" by (auto split: if_splits)
  then show "\<exists>md'. gget (cleanObject demo_object) ''metadata'' = Some (JObj md') \<and> gget md' ''annotations'' = None \<and>
     gget md' ''managedFields'' = None \<and> gget md' ''name'' = Some (JStr ''p'') \<and>
     gget (cleanObject demo_object) ''kind'' = Some (JStr ''Pod'')"
    using cleanObject_exact [of demo_object] by (auto simp: demo_object_def annotations_left_def)
  show "\<exists>md'. gget (cleanObject demo_bare_object) ''metadata'' = Some (JObj md') \<and> gget md' ''managedFields'' = None \<and>
     gget md' ''name'' = Some (JStr ''p'')"
    using cleanObject_exact [of demo_bare_object] by (auto simp: demo_bare_object_def annotations_left_def)
qed

definition converted_events :: "('st, 'sc) proto_lib \<Rightarrow> WatchEvent list \<Rightarrow> 'st pb_WatchEvent list" where
  "converted_events P evs = concat (map (\<lambda>ev. case processEvent P ev of Inl _ \<Rightarrow> [] | Inr m \<Rightarrow> [m]) evs)"

lemma watch_loop_all:
  "watch_loop P (\<lambda>_. None) (map WEvent evs @ ins) msgs = watch_loop P (\<lambda>_. None) ins (msgs @ converted_events P evs)"
  by (induction evs arbitrary: msgs) (simp_all add: converted_events_def split: sum.splits)

lemma watch_loop_fails:
  assumes "length msgs \<le> n" "n < length (msgs @ converted_events P evs)"
  shows "watch_loop P (\<lambda>ms. if length ms = n then Some e else None) (map WEvent evs @ ins) msgs =
    (Inl e, take n (msgs @ converted_events P evs))"
  using assms
proof (induction evs arbitrary: msgs)
  case (Cons ev evs)
  show ?case
  proof (cases "processEvent P ev")
    case (Inl x)
    then show ?thesis using Cons by (simp add: converted_events_def)
  next
    case (Inr m)
    then have c: "converted_events P (ev # evs) = m # converted_events P evs" by (simp add: converted_events_def)
    show ?thesis
    proof (cases "length msgs = n")
      case True
      then show ?thesis using Inr by simp
    next
      case False
      then have "length (msgs @ [m]) \<le> n" "n < length ((msgs @ [m]) @ converted_events P evs)"
        using Cons.prems c by simp_all
      from Cons.IH [OF this] show ?thesis using Inr c False by simp
    qed
  qed
qed (simp add: converted_events_def)

text \<open>
  A watch forwards exactly the events that convert, in their order, and skips the others;
  it ends without error when the request is cancelled, with an unavailable error when the upstream
  watch closes, and with the error of the send when one fails, the client then having received the
  messages sent before.
\<close>

theorem watch_forwards_in_order:
  "watch_loop P (\<lambda>_. None) (map WEvent evs) [] = (Inl watch_closed, converted_events P evs) \<and>
   watch_loop P (\<lambda>_. None) (map WEvent evs @ WCtxDone # ins) [] = (Inr (), converted_events P evs) \<and>
   (\<forall>n e. n < length (converted_events P evs) \<longrightarrow>
      watch_loop P (\<lambda>ms. if length ms = n then Some e else None) (map WEvent evs @ ins) [] =
        (Inl e, take n (converted_events P evs)))"
  using watch_loop_all [of P evs "[]" "[]"] watch_loop_all [of P evs "WCtxDone # ins" "[]"]
    watch_loop_fails [of "[]" _ P evs _ ins] by simp

theorem watch_forwards_in_order_witness:
  "\<exists>P :: (nat, unit) proto_lib.
     let evs = [\<lparr>we_Type = WatchEventAdded, we_Object = Some []\<rparr>, \<lparr>we_Type = WatchEventAdded, we_Object = None\<rparr>,
                \<lparr>we_Type = WatchEventDeleted, we_Object = Some []\<rparr>]
     in length (converted_events P evs) = 2 \<and>
        watch_loop P (\<lambda>ms. if length ms = 1 then Some watch_closed else None) (map WEvent evs) [] =
          (Inl watch_closed, take 1 (converted_events P evs))"
proof -
  let ?P = "\<lparr>new_struct = (\<lambda>_. Inr 0), parse_group_version = (\<lambda>s. Inr ([], s)),
      marshal_schema = (\<lambda>_. Inr []), unmarshal_struct = (\<lambda>_. Inr 0)\<rparr> :: (nat, unit) proto_lib"
  let ?evs = "[\<lparr>we_Type = WatchEventAdded, we_Object = Some []\<rparr>, \<lparr>we_Type = WatchEventAdded, we_Object = None\<rparr>,
                \<lparr>we_Type = WatchEventDeleted, we_Object = Some []\<rparr>]"
  have len: "length (converted_events ?P ?evs) = 2"
    by (simp add: converted_events_def processEvent_def change_event_def toProtoResource_def)
  then have "watch_loop ?P (\<lambda>ms. if length ms = 1 then Some watch_closed else None) (map WEvent ?evs @ []) [] =
      (Inl watch_closed, take 1 (converted_events ?P ?evs))"
    using watch_forwards_in_order [of ?P ?evs "[]"] by (metis one_less_numeral_iff semiring_norm(76))
  then show ?thesis using len unfolding Let_def by (intro exI [of _ ?P]) simp
qed

end
