(* ===== verification/Bridge.thy ===== *)
theory Bridge
  imports Go_Errors
begin

text \<open>
  The in-memory listener \<^verbatim>\<open>internal/transport/pipe/listener.go\<close> and the relay from TCP into it,
  \<^verbatim>\<open>internal/transport/tunnel/bridge.go\<close>.

  Calls of \<^verbatim>\<open>Dial\<close> and \<^verbatim>\<open>Accept\<close> block, so both components are step relations: every call and
  every relay goroutine is an entry of a list with its program point. The server end handed over
  by the \<open>i\<close>-th \<^verbatim>\<open>Dial\<close> is connection \<open>i\<close>. The \<^verbatim>\<open>sync.WaitGroup\<close> of the bridge is modelled with its counter, its waiters and the
  panics it documents for misuse.
\<close>

section \<open>\<^verbatim>\<open>pipe/listener.go\<close>\<close>

datatype dial_call = Dialing | DialOK | DialClosed

datatype accept_call = Accepting | Accepted nat | AcceptClosed

text \<open>\<open>pl_done\<close> is the closed state of the channel \<^verbatim>\<open>done\<close>, \<open>pl_once\<close> that of the \<^verbatim>\<open>sync.Once\<close>;
  \<open>pl_dropped\<close> are the pipes of which \<^verbatim>\<open>Dial\<close> closed both ends.\<close>

record pipe =
  pl_dials :: "dial_call list"
  pl_accepts :: "accept_call list"
  pl_once :: bool
  pl_done :: bool
  pl_panicked :: bool
  pl_dropped :: "nat set"

definition NewListener :: pipe where
  "NewListener = \<lparr>pl_dials = [], pl_accepts = [], pl_once = False, pl_done = False, pl_panicked = False, pl_dropped = {}\<rparr>"

text \<open>Closing a closed channel panics.\<close>

definition close_done :: "pipe \<Rightarrow> pipe" where
  "close_done p = (if pl_done p then p\<lparr>pl_panicked := True\<rparr> else p\<lparr>pl_done := True\<rparr>)"

definition pipe_Close :: "pipe \<Rightarrow> pipe" where
  "pipe_Close p = (if pl_once p then p else close_done (p\<lparr>pl_once := True\<rparr>))"

definition Dial_begin :: "pipe \<Rightarrow> nat \<times> pipe" where
  "Dial_begin p = (length (pl_dials p), p\<lparr>pl_dials := pl_dials p @ [Dialing]\<rparr>)"

definition Accept_begin :: "pipe \<Rightarrow> nat \<times> pipe" where
  "Accept_begin p = (length (pl_accepts p), p\<lparr>pl_accepts := pl_accepts p @ [Accepting]\<rparr>)"

definition hand_over :: "nat \<Rightarrow> nat \<Rightarrow> pipe \<Rightarrow> pipe" where
  "hand_over i j p = p\<lparr>pl_dials := (pl_dials p)[i := DialOK], pl_accepts := (pl_accepts p)[j := Accepted i]\<rparr>"

definition Dial_closed :: "nat \<Rightarrow> pipe \<Rightarrow> pipe" where
  "Dial_closed i p = p\<lparr>pl_dials := (pl_dials p)[i := DialClosed], pl_dropped := insert i (pl_dropped p)\<rparr>"

definition Accept_closed :: "nat \<Rightarrow> pipe \<Rightarrow> pipe" where
  "Accept_closed j p = p\<lparr>pl_accepts := (pl_accepts p)[j := AcceptClosed]\<rparr>"

text \<open>The steps other than a new \<^verbatim>\<open>Dial\<close>: a \<^verbatim>\<open>select\<close> takes any branch that is ready.\<close>

inductive pipe_step :: "pipe \<Rightarrow> pipe \<Rightarrow> bool" where
  accept: "pipe_step p (snd (Accept_begin p))"
| hand: "i < length (pl_dials p) \<Longrightarrow> pl_dials p ! i = Dialing \<Longrightarrow> j < length (pl_accepts p) \<Longrightarrow> pl_accepts p ! j = Accepting \<Longrightarrow>
    pipe_step p (hand_over i j p)"
| dial_fails: "pl_done p \<Longrightarrow> i < length (pl_dials p) \<Longrightarrow> pl_dials p ! i = Dialing \<Longrightarrow> pipe_step p (Dial_closed i p)"
| accept_fails: "pl_done p \<Longrightarrow> j < length (pl_accepts p) \<Longrightarrow> pl_accepts p ! j = Accepting \<Longrightarrow> pipe_step p (Accept_closed j p)"
| close: "pipe_step p (pipe_Close p)"

section \<open>\<^verbatim>\<open>tunnel/bridge.go\<close>\<close>

text \<open>A relay: spawned, in \<^verbatim>\<open>Dial\<close>, copying in both directions, waiting for the second direction
  after both connections were closed, about to run its deferred \<^verbatim>\<open>wg.Done()\<close>, inside it about to wake the waiters, finished.\<close>

datatype relay_pc = RSpawned | RDialing nat | RCopying nat | ROneLeft nat | RDone | RReleasing | RFinished

record relay_conn =
  rl_pc :: relay_pc
  rl_tcp_open :: bool
  rl_pipe_open :: bool

text \<open>\<^verbatim>\<open>Start\<close> and \<^verbatim>\<open>Stop\<close>: \<open>InWait\<close> and \<open>StopInWait\<close> are about to call \<^verbatim>\<open>wg.Wait()\<close>; inside it a call is parked until the counter is
  zero, and woken.\<close>

datatype start_pc = InAccept | GotConn | InWait | StartParked | StartWoken | StartReturned "go_error option"

datatype stop_pc = NotStopped | StopInWait | StopParked | StopWoken | StopReturned

text \<open>\<open>br_wg\<close> is the counter of the wait group; \<open>br_panicked\<close>: a call of it panicked.\<close>

record bridge =
  br_pipe :: pipe
  br_tcp_closed :: bool
  br_ctx_done :: bool
  br_relays :: "relay_conn list"
  br_wg :: nat
  br_start :: start_pc
  br_stop :: stop_pc
  br_panicked :: bool

definition bridge_init :: bridge where
  "bridge_init = \<lparr>br_pipe = NewListener, br_tcp_closed = False, br_ctx_done = False, br_relays = [], br_wg = 0, br_start = InAccept,
     br_stop = NotStopped, br_panicked = False\<rparr>"

text \<open>A relay is over once its \<^verbatim>\<open>Done\<close> took it off the counter.\<close>

definition relay_over :: "relay_conn \<Rightarrow> bool" where
  "relay_over r \<longleftrightarrow> rl_pc r = RReleasing \<or> rl_pc r = RFinished"

definition parked :: "bridge \<Rightarrow> bool" where
  "parked b \<longleftrightarrow> br_start b = StartParked \<or> br_stop b = StopParked"

datatype accept_error = DeadlineExceeded | OtherError go_error

definition accept_failed :: "accept_error \<Rightarrow> bridge \<Rightarrow> bridge" where
  "accept_failed e b =
     (if br_ctx_done b then b\<lparr>br_start := InWait\<rparr>
      else (case e of DeadlineExceeded \<Rightarrow> b | OtherError err \<Rightarrow> b\<lparr>br_start := StartReturned (Some (Wrap ''bridge accept'' err))\<rparr>))"

text \<open>\<^verbatim>\<open>wg.Add(1)\<close> panics when it finds waiters at a counter of zero.\<close>

definition spawn_relay :: "bridge \<Rightarrow> bridge" where
  "spawn_relay b =
     (if parked b \<and> br_wg b = 0 then b\<lparr>br_panicked := True\<rparr>
      else b\<lparr>br_wg := Suc (br_wg b), br_relays := br_relays b @ [\<lparr>rl_pc = RSpawned, rl_tcp_open = True, rl_pipe_open = False\<rparr>], br_start := InAccept\<rparr>)"

definition relay_set :: "nat \<Rightarrow> relay_conn \<Rightarrow> bridge \<Rightarrow> bridge" where
  "relay_set k r b = b\<lparr>br_relays := (br_relays b)[k := r]\<rparr>"

text \<open>\<^verbatim>\<open>wg.Done()\<close>: the one that brings the counter to zero wakes the waiters, if there are any; it panics when the counter has changed since.\<close>

definition relay_done :: "nat \<Rightarrow> bridge \<Rightarrow> bridge" where
  "relay_done k b = (relay_set k ((br_relays b ! k)\<lparr>rl_pc := if br_wg b = 1 \<and> parked b then RReleasing else RFinished\<rparr>) b)\<lparr>br_wg := br_wg b - 1\<rparr>"

definition relay_releases :: "nat \<Rightarrow> bridge \<Rightarrow> bridge" where
  "relay_releases k b =
     (if br_wg b \<noteq> 0 then b\<lparr>br_panicked := True\<rparr>
      else (relay_set k ((br_relays b ! k)\<lparr>rl_pc := RFinished\<rparr>) b)
        \<lparr>br_start := (if br_start b = StartParked then StartWoken else br_start b),
         br_stop := (if br_stop b = StopParked then StopWoken else br_stop b)\<rparr>)"

text \<open>\<^verbatim>\<open>wg.Wait()\<close>: it returns at a counter of zero and is parked otherwise; when woken it panics if the counter is not zero, because the group was
  reused.\<close>

definition start_waits :: "bridge \<Rightarrow> bridge" where
  "start_waits b = b\<lparr>br_start := if br_wg b = 0 then StartReturned None else StartParked\<rparr>"

definition start_wakes :: "bridge \<Rightarrow> bridge" where
  "start_wakes b = (if br_wg b = 0 then b\<lparr>br_start := StartReturned None\<rparr> else b\<lparr>br_panicked := True\<rparr>)"

definition stop_waits :: "bridge \<Rightarrow> bridge" where
  "stop_waits b = b\<lparr>br_stop := if br_wg b = 0 then StopReturned else StopParked\<rparr>"

definition stop_wakes :: "bridge \<Rightarrow> bridge" where
  "stop_wakes b = (if br_wg b = 0 then b\<lparr>br_stop := StopReturned\<rparr> else b\<lparr>br_panicked := True\<rparr>)"

text \<open>The steps of one relay against the pipe listener.\<close>

inductive relay_step :: "pipe \<Rightarrow> relay_conn \<Rightarrow> pipe \<Rightarrow> relay_conn \<Rightarrow> bool" where
  dial: "rl_pc r = RSpawned \<Longrightarrow> Dial_begin p = (i, p') \<Longrightarrow> relay_step p r p' (r\<lparr>rl_pc := RDialing i\<rparr>)"
| dial_error: "rl_pc r = RDialing i \<Longrightarrow> pl_dials p ! i = DialClosed \<Longrightarrow>
    relay_step p r p (r\<lparr>rl_pc := RDone, rl_tcp_open := False\<rparr>)"
| dialed: "rl_pc r = RDialing i \<Longrightarrow> pl_dials p ! i = DialOK \<Longrightarrow>
    relay_step p r p (r\<lparr>rl_pc := RCopying i, rl_pipe_open := True\<rparr>)"
| first_done: "rl_pc r = RCopying i \<Longrightarrow> relay_step p r p (r\<lparr>rl_pc := ROneLeft i, rl_pipe_open := False, rl_tcp_open := False\<rparr>)"
| second_done: "rl_pc r = ROneLeft i \<Longrightarrow> relay_step p r p (r\<lparr>rl_pc := RDone\<rparr>)"

inductive bridge_step :: "bridge \<Rightarrow> bridge \<Rightarrow> bool" where
  cancelled: "bridge_step b (b\<lparr>br_ctx_done := True\<rparr>)"
| close_tcp: "br_ctx_done b \<Longrightarrow> bridge_step b (b\<lparr>br_tcp_closed := True\<rparr>)"
| pipe: "pipe_step (br_pipe b) p' \<Longrightarrow> bridge_step b (b\<lparr>br_pipe := p'\<rparr>)"
| conn: "br_start b = InAccept \<Longrightarrow> \<not> br_tcp_closed b \<Longrightarrow> bridge_step b (b\<lparr>br_start := GotConn\<rparr>)"
| conn_error: "br_start b = InAccept \<Longrightarrow> bridge_step b (accept_failed e b)"
| spawn: "br_start b = GotConn \<Longrightarrow> bridge_step b (spawn_relay b)"
| start_wait: "br_start b = InWait \<Longrightarrow> bridge_step b (start_waits b)"
| start_woken: "br_start b = StartWoken \<Longrightarrow> bridge_step b (start_wakes b)"
| relay: "k < length (br_relays b) \<Longrightarrow> relay_step (br_pipe b) (br_relays b ! k) p' r' \<Longrightarrow>
    bridge_step b (relay_set k r' (b\<lparr>br_pipe := p'\<rparr>))"
| wg_Done: "k < length (br_relays b) \<Longrightarrow> rl_pc (br_relays b ! k) = RDone \<Longrightarrow> bridge_step b (relay_done k b)"
| wg_release: "k < length (br_relays b) \<Longrightarrow> rl_pc (br_relays b ! k) = RReleasing \<Longrightarrow> bridge_step b (relay_releases k b)"
| stop: "br_stop b = NotStopped \<Longrightarrow>
    bridge_step b (b\<lparr>br_tcp_closed := True, br_pipe := pipe_Close (br_pipe b), br_stop := StopInWait\<rparr>)"
| stop_wait: "br_stop b = StopInWait \<Longrightarrow> bridge_step b (stop_waits b)"
| stop_woken: "br_stop b = StopWoken \<Longrightarrow> bridge_step b (stop_wakes b)"

section \<open>Lemmas: the pipe listener\<close>

text \<open>Successful dials and accepted connections correspond one to one, failed dials are exactly the
  dropped pipes, and the \<^verbatim>\<open>Once\<close> agrees with the channel.\<close>

definition pipe_inv :: "pipe \<Rightarrow> bool" where
  "pipe_inv p \<longleftrightarrow>
     (\<forall>i. (i < length (pl_dials p) \<and> pl_dials p ! i = DialOK) \<longleftrightarrow>
          (\<exists>j<length (pl_accepts p). pl_accepts p ! j = Accepted i)) \<and>
     (\<forall>i j k. j < length (pl_accepts p) \<and> k < length (pl_accepts p) \<and> pl_accepts p ! j = Accepted i \<and> pl_accepts p ! k = Accepted i \<longrightarrow> j = k) \<and>
     pl_dropped p = {i. i < length (pl_dials p) \<and> pl_dials p ! i = DialClosed} \<and>
     pl_once p = pl_done p \<and> \<not> pl_panicked p"

lemma pipe_inv_New: "pipe_inv NewListener"
  by (simp add: pipe_inv_def NewListener_def)

lemma pipe_inv_Dial: "pipe_inv p \<Longrightarrow> pipe_inv (snd (Dial_begin p))"
  by (auto simp: pipe_inv_def Dial_begin_def nth_append less_Suc_eq)

lemma pipe_inv_Close: "pipe_inv p \<Longrightarrow> pipe_inv (pipe_Close p) \<and> pl_done (pipe_Close p)"
  by (auto simp: pipe_inv_def pipe_Close_def close_done_def)

lemma pipe_inv_accepted:
  assumes "pipe_inv p" "k < length (pl_accepts p)" "pl_accepts p ! k = Accepted i"
  shows "i < length (pl_dials p) \<and> pl_dials p ! i = DialOK"
  using assms unfolding pipe_inv_def by blast

lemma pipe_step_inv: "pipe_step p p' \<Longrightarrow> pipe_inv p \<Longrightarrow> pipe_inv p'"
proof (induction rule: pipe_step.induct)
  case (accept p)
  then show ?case by (auto simp: pipe_inv_def Accept_begin_def nth_append less_Suc_eq)
next
  case (hand i p j)
  let ?a = "pl_accepts p"
  let ?a' = "?a[j := Accepted i]"
  have old: "k < length ?a \<Longrightarrow> ?a ! k \<noteq> Accepted i" for k
    using pipe_inv_accepted [OF hand(5), of k i] hand(2) by auto
  have ex: "(\<exists>k<length ?a. ?a' ! k = Accepted m) \<longleftrightarrow> m = i \<or> (\<exists>k<length ?a. ?a ! k = Accepted m)" for m
    using hand(3,4) by (metis accept_call.distinct(1) accept_call.inject nth_list_update_eq nth_list_update_neq)
  have uniq: "k = l" if "k < length ?a" "l < length ?a" "?a' ! k = Accepted m" "?a' ! l = Accepted m" for k l m
    using that old hand(3,5) by (auto simp: nth_list_update pipe_inv_def split: if_splits)
  have "(m < length (pl_dials p) \<and> (pl_dials p)[i := DialOK] ! m = DialOK) \<longleftrightarrow>
      m = i \<or> (m < length (pl_dials p) \<and> pl_dials p ! m = DialOK)" for m
    using hand(1) by (auto simp: nth_list_update)
  moreover have "{m. m < length (pl_dials p) \<and> (pl_dials p)[i := DialOK] ! m = DialClosed} =
      {m. m < length (pl_dials p) \<and> pl_dials p ! m = DialClosed}"
    using hand(1,2) by (auto simp: nth_list_update split: if_splits)
  ultimately show ?case
    using hand(5) ex uniq unfolding pipe_inv_def hand_over_def by simp
next
  case (dial_fails p i)
  have "(m < length (pl_dials p) \<and> (pl_dials p)[i := DialClosed] ! m = DialOK) \<longleftrightarrow>
      m < length (pl_dials p) \<and> pl_dials p ! m = DialOK" for m
    using dial_fails(2,3) by (auto simp: nth_list_update)
  moreover have "{m. m < length (pl_dials p) \<and> (pl_dials p)[i := DialClosed] ! m = DialClosed} =
      insert i {m. m < length (pl_dials p) \<and> pl_dials p ! m = DialClosed}"
    using dial_fails(2) by (auto simp: nth_list_update split: if_splits)
  ultimately show ?case using dial_fails(4) unfolding pipe_inv_def Dial_closed_def by simp
next
  case (accept_fails p j)
  have "k < length (pl_accepts p) \<Longrightarrow> (pl_accepts p)[j := AcceptClosed] ! k = Accepted m \<longleftrightarrow> pl_accepts p ! k = Accepted m" for k m
    using accept_fails(2,3) by (auto simp: nth_list_update)
  then show ?case using accept_fails(4) unfolding pipe_inv_def Accept_closed_def by (simp cong: conj_cong)
qed (simp add: pipe_inv_Close)

lemma pipe_step_dials:
  assumes "pipe_step p p'"
  shows "length (pl_dials p') = length (pl_dials p)"
    and "i < length (pl_dials p) \<Longrightarrow> pl_dials p ! i = DialOK \<Longrightarrow> pl_dials p' ! i = DialOK"
    and "pl_done p \<Longrightarrow> pl_done p'"
  using assms by (cases rule: pipe_step.cases; auto simp: Accept_begin_def hand_over_def Dial_closed_def Accept_closed_def
      pipe_Close_def close_done_def nth_list_update)+

section \<open>Lemmas: the bridge\<close>

definition relay_ok :: "pipe \<Rightarrow> relay_conn \<Rightarrow> bool" where
  "relay_ok p r \<longleftrightarrow>
     (case rl_pc r of
        RSpawned \<Rightarrow> rl_tcp_open r \<and> \<not> rl_pipe_open r
      | RDialing i \<Rightarrow> rl_tcp_open r \<and> \<not> rl_pipe_open r \<and> i < length (pl_dials p)
      | RCopying i \<Rightarrow> rl_tcp_open r \<and> rl_pipe_open r \<and> i < length (pl_dials p) \<and> pl_dials p ! i = DialOK
      | ROneLeft i \<Rightarrow> \<not> rl_tcp_open r \<and> \<not> rl_pipe_open r
      | _ \<Rightarrow> \<not> rl_tcp_open r \<and> \<not> rl_pipe_open r)"

text \<open>The pipe listener only grows its list of dials and never takes back a connection.\<close>

definition pipe_grows :: "pipe \<Rightarrow> pipe \<Rightarrow> bool" where
  "pipe_grows p p' \<longleftrightarrow> length (pl_dials p) \<le> length (pl_dials p') \<and> (pl_done p \<longrightarrow> pl_done p') \<and>
     (\<forall>i<length (pl_dials p). pl_dials p ! i = DialOK \<longrightarrow> pl_dials p' ! i = DialOK)"

lemma relay_ok_ext: "relay_ok p r \<Longrightarrow> pipe_grows p p' \<Longrightarrow> relay_ok p' r"
  by (auto simp: relay_ok_def pipe_grows_def split: relay_pc.splits)

lemma pipe_grows_step: "pipe_step p p' \<Longrightarrow> pipe_grows p p'"
  using pipe_step_dials by (auto simp: pipe_grows_def)

lemma pipe_grows_Close: "pipe_grows p (pipe_Close p)"
  using pipe_grows_step pipe_step.close by blast

lemma relay_step_ok:
  assumes "relay_step p r p' r'" "pipe_inv p" "relay_ok p r"
  shows "pipe_inv p' \<and> pipe_grows p p' \<and> relay_ok p' r' \<and> \<not> relay_over r \<and> \<not> relay_over r'"
  using assms
proof (cases rule: relay_step.cases)
  case (dial i)
  have "pipe_inv p'" using pipe_inv_Dial [OF assms(2)] dial(3) by simp
  moreover have "i = length (pl_dials p)" "pl_dials p' = pl_dials p @ [Dialing]" "pl_done p' = pl_done p"
    using dial(3) by (auto simp: Dial_begin_def)
  ultimately show ?thesis using dial assms(3) by (auto simp: pipe_grows_def relay_ok_def relay_over_def nth_append)
qed (auto simp: relay_ok_def relay_over_def pipe_grows_def)

text \<open>The relays that the counter counts.\<close>

definition pending :: "relay_conn list \<Rightarrow> nat" where
  "pending rs = length (filter (\<lambda>r. \<not> relay_over r) rs)"

lemma pending_simps [simp]: "pending [] = 0" "pending (rs @ [r]) = pending rs + (if relay_over r then 0 else 1)"
  by (simp_all add: pending_def)

lemma pending_update:
  "k < length rs \<Longrightarrow> pending (rs[k := r]) + (if relay_over (rs ! k) then 0 else 1) = pending rs + (if relay_over r then 0 else 1)"
proof (induction rs arbitrary: k)
  case (Cons x rs)
  show ?case
  proof (cases k)
    case (Suc m)
    then show ?thesis using Cons.IH [of m] Cons.prems by (simp add: pending_def split: if_splits)
  qed (simp add: pending_def)
qed simp

lemma pending_zero: "pending rs = 0 \<longleftrightarrow> list_all relay_over rs"
  by (simp add: pending_def filter_empty_conv list_all_iff)

definition bridge_inv :: "bridge \<Rightarrow> bool" where
  "bridge_inv b \<longleftrightarrow> pipe_inv (br_pipe b) \<and> list_all (relay_ok (br_pipe b)) (br_relays b) \<and> br_wg b = pending (br_relays b) \<and>
     (br_stop b \<noteq> NotStopped \<longrightarrow> br_tcp_closed b \<and> pl_done (br_pipe b)) \<and>
     (br_start b = StartReturned None \<longrightarrow> br_wg b = 0) \<and>
     (parked b \<longrightarrow> br_wg b \<noteq> 0 \<or> (\<exists>r \<in> set (br_relays b). rl_pc r = RReleasing))"

lemma list_all_ext: "list_all (relay_ok p) rs \<Longrightarrow> pipe_grows p p' \<Longrightarrow> list_all (relay_ok p') rs"
  by (auto simp: list_all_iff intro: relay_ok_ext)

lemma list_all_upd: "list_all P xs \<Longrightarrow> P x \<Longrightarrow> list_all P (xs[k := x])"
  using set_update_subset_insert [of xs k x] by (auto simp: list_all_iff)

text \<open>A relay that steps is not one that wakes the waiters.\<close>

lemma releasing_stays:
  assumes "k < length rs" "rl_pc (rs ! k) \<noteq> RReleasing" "\<exists>r \<in> set rs. rl_pc r = RReleasing"
  shows "\<exists>r \<in> set (rs[k := x]). rl_pc r = RReleasing"
proof -
  obtain j where j: "j < length rs" "rl_pc (rs ! j) = RReleasing" using assms(3) by (auto simp: in_set_conv_nth)
  then have "rs[k := x] ! j = rs ! j" using assms(2) by (metis nth_list_update_neq)
  then show ?thesis using j by (metis length_list_update nth_mem)
qed

lemma relay_done_inv:
  assumes "bridge_inv b" "k < length (br_relays b)" "rl_pc (br_relays b ! k) = RDone"
  shows "bridge_inv (relay_done k b)"
proof -
  let ?r = "(br_relays b ! k)\<lparr>rl_pc := if br_wg b = 1 \<and> parked b then RReleasing else RFinished\<rparr>"
  have over: "relay_over ?r" "\<not> relay_over (br_relays b ! k)" using assms(3) by (simp_all add: relay_over_def)
  then have wg: "Suc (pending ((br_relays b)[k := ?r])) = br_wg b" using pending_update [OF assms(2), of ?r] assms(1) by (simp add: bridge_inv_def)
  have "relay_ok (br_pipe b) (br_relays b ! k)" using assms(1,2) by (simp add: bridge_inv_def list_all_length)
  then have "relay_ok (br_pipe b) ?r" using assms(3) by (simp add: relay_ok_def)
  then have ok: "list_all (relay_ok (br_pipe b)) ((br_relays b)[k := ?r])" using assms(1) by (simp add: bridge_inv_def list_all_upd)
  have "\<exists>r \<in> set ((br_relays b)[k := ?r]). rl_pc r = RReleasing" if "parked b" "br_wg b = 1"
    using that set_update_memI [OF assms(2), of ?r] by (intro bexI [of _ ?r]) simp_all
  with assms(1) ok wg show ?thesis by (auto simp: bridge_inv_def relay_done_def relay_set_def parked_def)
qed

lemma relay_releases_inv:
  assumes "bridge_inv b" "k < length (br_relays b)" "rl_pc (br_relays b ! k) = RReleasing"
  shows "bridge_inv (relay_releases k b) \<or> br_panicked (relay_releases k b)"
proof (cases "br_wg b = 0")
  case True
  let ?r = "(br_relays b ! k)\<lparr>rl_pc := RFinished\<rparr>"
  have "relay_over ?r" "relay_over (br_relays b ! k)" using assms(3) by (simp_all add: relay_over_def)
  then have wg: "pending ((br_relays b)[k := ?r]) = pending (br_relays b)" using pending_update [OF assms(2), of ?r] by simp
  have "relay_ok (br_pipe b) (br_relays b ! k)" using assms(1,2) by (simp add: bridge_inv_def list_all_length)
  then have "relay_ok (br_pipe b) ?r" using assms(3) by (simp add: relay_ok_def)
  then have "list_all (relay_ok (br_pipe b)) ((br_relays b)[k := ?r])" using assms(1) by (simp add: bridge_inv_def list_all_upd)
  with assms(1) wg True show ?thesis by (auto simp: bridge_inv_def relay_releases_def relay_set_def parked_def)
qed (simp add: relay_releases_def)

lemma relay_moves_inv:
  assumes "bridge_inv b" "k < length (br_relays b)" "relay_step (br_pipe b) (br_relays b ! k) p' r'"
  shows "bridge_inv (relay_set k r' (b\<lparr>br_pipe := p'\<rparr>))"
proof -
  have "relay_ok (br_pipe b) (br_relays b ! k)" using assms(1,2) by (simp add: bridge_inv_def list_all_length)
  then have ok: "pipe_inv p'" "pipe_grows (br_pipe b) p'" "relay_ok p' r'" "\<not> relay_over (br_relays b ! k)" "\<not> relay_over r'"
    using relay_step_ok [OF assms(3)] assms(1) by (auto simp: bridge_inv_def)
  then have "list_all (relay_ok p') ((br_relays b)[k := r'])"
    using assms(1) list_all_ext [OF _ ok(2), of "br_relays b"] by (simp add: bridge_inv_def list_all_upd)
  moreover have "pending ((br_relays b)[k := r']) = pending (br_relays b)" using pending_update [OF assms(2), of r'] ok(4,5) by simp
  moreover have "rl_pc (br_relays b ! k) \<noteq> RReleasing" using ok(4) by (simp add: relay_over_def)
  ultimately show ?thesis
    using ok(1,2) assms(1) releasing_stays [OF assms(2), of r']
    by (auto simp: bridge_inv_def relay_set_def pipe_grows_def parked_def)
qed

lemma spawn_relay_inv: "bridge_inv b \<Longrightarrow> br_start b = GotConn \<Longrightarrow> bridge_inv (spawn_relay b) \<or> br_panicked (spawn_relay b)"
  by (auto simp: bridge_inv_def spawn_relay_def relay_ok_def relay_over_def parked_def)

text \<open>The invariant holds until the wait group panics.\<close>

lemma bridge_step_inv:
  assumes "bridge_step b b'" "br_panicked b \<or> bridge_inv b"
  shows "br_panicked b' \<or> bridge_inv b'"
proof (cases "br_panicked b")
  case True
  with assms(1) show ?thesis
    by (cases rule: bridge_step.cases) (auto simp: accept_failed_def spawn_relay_def start_waits_def start_wakes_def stop_waits_def stop_wakes_def
        relay_done_def relay_releases_def relay_set_def split: accept_error.splits)
next
  case False
  with assms(2) have inv: "bridge_inv b" by simp
  from assms(1) show ?thesis
  proof (cases rule: bridge_step.cases)
    case (pipe p')
    have "pipe_inv p'" "pl_done (br_pipe b) \<longrightarrow> pl_done p'" "list_all (relay_ok p') (br_relays b)"
      using inv pipe_step_inv [OF pipe(2)] pipe_grows_step [OF pipe(2)] list_all_ext [of "br_pipe b" "br_relays b" p']
      by (simp_all add: bridge_inv_def) (simp add: pipe_grows_def)
    then have "bridge_inv (b\<lparr>br_pipe := p'\<rparr>)" using inv by (auto simp: bridge_inv_def parked_def)
    then show ?thesis using pipe(1) by simp
  next
    case (relay k p' r')
    then show ?thesis using relay_moves_inv [OF inv] by simp
  next
    case (wg_Done k)
    then show ?thesis using relay_done_inv [OF inv] by simp
  next
    case (wg_release k)
    then show ?thesis using relay_releases_inv [OF inv] by auto
  next
    case spawn
    then show ?thesis using spawn_relay_inv [OF inv] by auto
  next
    case stop
    then show ?thesis
      using inv pipe_inv_Close [of "br_pipe b"] list_all_ext [OF _ pipe_grows_Close] by (auto simp: bridge_inv_def parked_def)
  qed (use inv in \<open>auto simp: bridge_inv_def parked_def accept_failed_def start_waits_def start_wakes_def stop_waits_def stop_wakes_def
      split: accept_error.splits\<close>)
qed

lemma bridge_init_inv: "bridge_inv bridge_init"
  by (simp add: bridge_inv_def bridge_init_def pipe_inv_New parked_def)

lemma bridge_reachable_inv:
  assumes "bridge_step\<^sup>*\<^sup>* bridge_init b"
  shows "br_panicked b \<or> bridge_inv b"
  using assms by (induction rule: rtranclp_induct) (auto simp: bridge_init_inv dest: bridge_step_inv)

text \<open>Whether the relay can go on, by a step of its own, because its \<^verbatim>\<open>Dial\<close> can return, or because only its \<^verbatim>\<open>Done\<close> is left.\<close>

definition relay_can_move :: "pipe \<Rightarrow> relay_conn \<Rightarrow> bool" where
  "relay_can_move p r \<longleftrightarrow> (\<exists>p' r'. relay_step p r p' r') \<or>
     (\<exists>i. rl_pc r = RDialing i \<and> pl_dials p ! i = Dialing \<and> pipe_step p (Dial_closed i p)) \<or>
     rl_pc r = RDone \<or> rl_pc r = RReleasing"

lemma relay_progress:
  assumes "relay_ok p r" "pl_done p" "rl_pc r \<noteq> RFinished"
  shows "relay_can_move p r"
proof (cases "rl_pc r")
  case (RDialing i)
  have "i < length (pl_dials p)" using assms(1) RDialing by (simp add: relay_ok_def)
  then show ?thesis
    using RDialing assms(2) unfolding relay_can_move_def
    by (cases "pl_dials p ! i") (blast intro: dial_fails dialed dial_error)+
next
  case RSpawned
  then show ?thesis unfolding relay_can_move_def by (metis dial surj_pair)
qed (use assms(3) in \<open>auto simp: relay_can_move_def intro: first_done second_done\<close>)

text \<open>The connection of a copying relay was accepted exactly once.\<close>

definition accepted_once :: "pipe \<Rightarrow> nat \<Rightarrow> bool" where
  "accepted_once p i \<longleftrightarrow> length (filter (\<lambda>a. a = Accepted i) (pl_accepts p)) = 1"

lemma accepted_once_iff:
  assumes "pipe_inv p" "i < length (pl_dials p)" "pl_dials p ! i = DialOK"
  shows "accepted_once p i"
proof -
  obtain j where j: "j < length (pl_accepts p)" "pl_accepts p ! j = Accepted i"
    using assms unfolding pipe_inv_def by blast
  have "{k. k < length (pl_accepts p) \<and> pl_accepts p ! k = Accepted i} = {j}"
    using assms(1) j unfolding pipe_inv_def by blast
  then show ?thesis by (simp add: accepted_once_def length_filter_conv_card)
qed

text \<open>Which ends of a relay are open.\<close>

lemma relay_ends_open:
  assumes "relay_ok p r" "pipe_inv p"
  shows "case rl_pc r of
      RSpawned \<Rightarrow> rl_tcp_open r
    | RDialing i \<Rightarrow> rl_tcp_open r
    | RCopying i \<Rightarrow> rl_tcp_open r \<and> accepted_once p i
    | _ \<Rightarrow> \<not> rl_tcp_open r \<and> \<not> rl_pipe_open r"
  using assms by (cases "rl_pc r") (simp_all add: relay_ok_def accepted_once_iff)

section \<open>Properties\<close>


text \<open>Claim C24. Under every interleaving of the accept loop, the relays, the pipe listener, \<^verbatim>\<open>Stop\<close> and the wait group, as long as the wait
  group has not panicked for misuse (which \<open>waitgroup_misuse_panics\<close> shows it can): the connection of every copying relay was
  accepted exactly once by the HTTP server; both connections of a relay are closed once its first direction ended; the
  counter of the wait group is the number of relays that have not run their \<^verbatim>\<open>Done\<close>; \<^verbatim>\<open>Start\<close> returns without an error only
  after all of them have (when it returns an accept error it does not wait); a call parked in \<^verbatim>\<open>Wait\<close> is woken when the last one has; and after \<^verbatim>\<open>Stop\<close>
  was called both listeners are closed and no relay stays blocked in \<^verbatim>\<open>Dial\<close>. Closing the pipe listener twice never panics.\<close>

theorem bridge_shutdown:
  assumes "bridge_step\<^sup>*\<^sup>* bridge_init b" "\<not> br_panicked b"
  shows "list_all (\<lambda>r. case rl_pc r of
        RSpawned \<Rightarrow> rl_tcp_open r
      | RDialing i \<Rightarrow> rl_tcp_open r
      | RCopying i \<Rightarrow> rl_tcp_open r \<and> accepted_once (br_pipe b) i
      | _ \<Rightarrow> \<not> rl_tcp_open r \<and> \<not> rl_pipe_open r) (br_relays b) \<and>
    br_wg b = length (filter (\<lambda>r. \<not> relay_over r) (br_relays b)) \<and>
    (br_start b = StartReturned None \<longrightarrow> list_all relay_over (br_relays b)) \<and>
    (br_start b = StartParked \<or> br_stop b = StopParked \<longrightarrow> list_ex (\<lambda>r. \<not> relay_over r \<or> rl_pc r = RReleasing) (br_relays b)) \<and>
    (br_stop b \<noteq> NotStopped \<longrightarrow> br_tcp_closed b \<and> pl_done (br_pipe b) \<and>
      list_all (\<lambda>r. rl_pc r = RFinished \<or> relay_can_move (br_pipe b) r) (br_relays b)) \<and>
    \<not> pl_panicked (br_pipe b)"
proof (intro conjI impI)
  have inv: "bridge_inv b" using bridge_reachable_inv [OF assms(1)] assms(2) by simp
  then have ok: "relay_ok (br_pipe b) r" if "r \<in> set (br_relays b)" for r
    using that by (auto simp: bridge_inv_def list_all_iff)
  have p: "pipe_inv (br_pipe b)" and wg: "br_wg b = pending (br_relays b)" using inv by (simp_all add: bridge_inv_def)
  show "list_all (\<lambda>r. case rl_pc r of
        RSpawned \<Rightarrow> rl_tcp_open r
      | RDialing i \<Rightarrow> rl_tcp_open r
      | RCopying i \<Rightarrow> rl_tcp_open r \<and> accepted_once (br_pipe b) i
      | _ \<Rightarrow> \<not> rl_tcp_open r \<and> \<not> rl_pipe_open r) (br_relays b)"
    using ok p by (simp add: list_all_iff relay_ends_open)
  show "br_wg b = length (filter (\<lambda>r. \<not> relay_over r) (br_relays b))" using wg by (simp add: pending_def)
  show "list_all relay_over (br_relays b)" if "br_start b = StartReturned None"
    unfolding pending_zero [symmetric] using inv that by (simp add: bridge_inv_def)
  show "list_ex (\<lambda>r. \<not> relay_over r \<or> rl_pc r = RReleasing) (br_relays b)" if "br_start b = StartParked \<or> br_stop b = StopParked"
  proof -
    have "\<not> list_all relay_over (br_relays b) \<or> (\<exists>r \<in> set (br_relays b). rl_pc r = RReleasing)"
      using inv that unfolding pending_zero [symmetric] by (auto simp: bridge_inv_def parked_def)
    then show ?thesis by (auto simp: list_ex_iff list_all_iff)
  qed
  assume stopped: "br_stop b \<noteq> NotStopped"
  show "br_tcp_closed b" "pl_done (br_pipe b)" using stopped inv by (simp_all add: bridge_inv_def)
  then show "list_all (\<lambda>r. rl_pc r = RFinished \<or> relay_can_move (br_pipe b) r) (br_relays b)"
    using ok relay_progress by (auto simp: list_all_iff)
qed (use bridge_reachable_inv [OF assms(1)] assms(2) in \<open>simp add: bridge_inv_def pipe_inv_def\<close>)

text \<open>A connection is accepted and relayed, \<^verbatim>\<open>Stop\<close> closes the listeners and waits for it.\<close>

definition new_relay :: relay_conn where
  "new_relay = \<lparr>rl_pc = RSpawned, rl_tcp_open = True, rl_pipe_open = False\<rparr>"

definition ex_spawned :: bridge where
  "ex_spawned = bridge_init\<lparr>br_relays := [new_relay], br_wg := 1\<rparr>"

lemma bridge_then: "bridge_step b b1 \<Longrightarrow> bridge_step\<^sup>*\<^sup>* b1 b2 \<Longrightarrow> bridge_step\<^sup>*\<^sup>* b b2"
  by (rule converse_rtranclp_into_rtranclp)

lemma bridge_once: "bridge_step b b1 \<Longrightarrow> bridge_step\<^sup>*\<^sup>* b b1"
  by (rule r_into_rtranclp)

lemma ex_spawned_reached: "bridge_step\<^sup>*\<^sup>* bridge_init ex_spawned"
proof -
  let ?b1 = "bridge_init\<lparr>br_start := GotConn\<rparr>"
  have "bridge_step bridge_init ?b1" by (rule conn) (simp_all add: bridge_init_def)
  moreover have "bridge_step ?b1 (spawn_relay ?b1)" by (rule spawn) simp
  moreover have "spawn_relay ?b1 = ex_spawned" by (simp add: ex_spawned_def new_relay_def spawn_relay_def bridge_init_def parked_def)
  ultimately show ?thesis by (metis converse_rtranclp_into_rtranclp rtranclp.rtrancl_refl)
qed

text \<open>\<^verbatim>\<open>Stop\<close> is parked while the accept loop holds one more connection and the relay is refused by the closed pipe listener.\<close>

definition ex_pipe :: "dial_call \<Rightarrow> nat set \<Rightarrow> pipe" where
  "ex_pipe d dropped = \<lparr>pl_dials = [d], pl_accepts = [], pl_once = True, pl_done = True, pl_panicked = False, pl_dropped = dropped\<rparr>"

definition ex_bridge :: bridge where
  "ex_bridge = \<lparr>br_pipe = ex_pipe Dialing {}, br_tcp_closed = True, br_ctx_done = False,
     br_relays = [new_relay\<lparr>rl_pc := RDialing 0\<rparr>], br_wg = 1, br_start = GotConn, br_stop = StopParked, br_panicked = False\<rparr>"

lemma ex_bridge_reached: "bridge_step\<^sup>*\<^sup>* bridge_init ex_bridge"
proof -
  let ?b1 = "ex_spawned\<lparr>br_start := GotConn\<rparr>"
  let ?p2 = "snd (Dial_begin (br_pipe ?b1))"
  let ?b2 = "relay_set 0 (new_relay\<lparr>rl_pc := RDialing 0\<rparr>) (?b1\<lparr>br_pipe := ?p2\<rparr>)"
  let ?b3 = "?b2\<lparr>br_tcp_closed := True, br_pipe := pipe_Close (br_pipe ?b2), br_stop := StopInWait\<rparr>"
  note D = ex_spawned_def bridge_init_def new_relay_def relay_set_def
  have 1: "bridge_step ex_spawned ?b1" by (rule conn) (simp_all add: D)
  have "relay_step (br_pipe ?b1) (br_relays ?b1 ! 0) ?p2 (new_relay\<lparr>rl_pc := RDialing 0\<rparr>)"
    using dial [of new_relay "br_pipe ?b1" 0 ?p2] by (simp add: D Dial_begin_def NewListener_def)
  then have 2: "bridge_step ?b1 ?b2" by (intro bridge_step.relay) (simp_all add: D)
  have 3: "bridge_step ?b2 ?b3" by (rule stop) (simp add: D)
  have "bridge_step ?b3 (stop_waits ?b3)" by (rule stop_wait) simp
  moreover have "stop_waits ?b3 = ex_bridge"
    by (simp add: ex_bridge_def ex_pipe_def D Dial_begin_def NewListener_def pipe_Close_def close_done_def stop_waits_def)
  ultimately have 4: "bridge_step ?b3 ex_bridge" by simp
  have "bridge_step\<^sup>*\<^sup>* ex_spawned ex_bridge"
    by (rule bridge_then [OF 1 bridge_then [OF 2 bridge_then [OF 3 bridge_once [OF 4]]]])
  with ex_spawned_reached show ?thesis by (rule rtranclp_trans)
qed

theorem bridge_shutdown_witness:
  "bridge_step\<^sup>*\<^sup>* bridge_init ex_bridge \<and> br_stop ex_bridge = StopParked \<and> relay_can_move (br_pipe ex_bridge) (br_relays ex_bridge ! 0)"
proof -
  have "\<not> br_panicked ex_bridge" by (simp add: ex_bridge_def)
  note safe = bridge_shutdown [OF ex_bridge_reached this]
  have stop: "br_stop ex_bridge = StopParked" and relays: "br_relays ex_bridge = [new_relay\<lparr>rl_pc := RDialing 0\<rparr>]" by (simp_all add: ex_bridge_def)
  have "list_all (\<lambda>r. rl_pc r = RFinished \<or> relay_can_move (br_pipe ex_bridge) r) (br_relays ex_bridge)" using safe stop by (metis stop_pc.distinct(3))
  then show ?thesis using ex_bridge_reached stop by (simp add: relays)
qed

text \<open>The wait group is used while it is waited for: \<^verbatim>\<open>Start\<close> calls \<^verbatim>\<open>wg.Add(1)\<close> for a connection it accepted before \<^verbatim>\<open>Stop\<close> closed the
  listener, while \<^verbatim>\<open>Stop\<close> is in \<^verbatim>\<open>wg.Wait()\<close> and the last relay is in its \<^verbatim>\<open>wg.Done()\<close>. The documentation of \<^verbatim>\<open>sync.WaitGroup\<close> forbids
  that, and \<^verbatim>\<open>Add\<close> panics.\<close>

lemma waitgroup_misuse_panics:
  "\<exists>b b'. bridge_step\<^sup>*\<^sup>* bridge_init b \<and> \<not> br_panicked b \<and> br_start b = GotConn \<and> br_stop b = StopParked \<and> bridge_step b b' \<and> br_panicked b'"
proof -
  let ?b1 = "ex_bridge\<lparr>br_pipe := ex_pipe DialClosed {0}\<rparr>"
  let ?r = "(br_relays ?b1 ! 0)\<lparr>rl_pc := RDone, rl_tcp_open := False\<rparr>"
  let ?b2 = "relay_set 0 ?r (?b1\<lparr>br_pipe := br_pipe ?b1\<rparr>)"
  let ?b3 = "relay_done 0 ?b2"
  note D = ex_bridge_def ex_pipe_def new_relay_def relay_set_def relay_done_def parked_def
  have "pipe_step (br_pipe ex_bridge) (Dial_closed 0 (br_pipe ex_bridge))" by (rule dial_fails) (simp_all add: D)
  then have 1: "bridge_step ex_bridge ?b1" using bridge_step.pipe [of ex_bridge] by (simp add: D Dial_closed_def)
  have "relay_step (br_pipe ?b1) (br_relays ?b1 ! 0) (br_pipe ?b1) ?r" by (rule dial_error [of _ 0]) (simp_all add: D)
  then have 2: "bridge_step ?b1 ?b2" by (intro bridge_step.relay) (simp_all add: D)
  have 3: "bridge_step ?b2 ?b3" by (rule wg_Done) (simp_all add: D)
  have "bridge_step\<^sup>*\<^sup>* ex_bridge ?b3"
    by (rule bridge_then [OF 1 bridge_then [OF 2 bridge_once [OF 3]]])
  with ex_bridge_reached have reach: "bridge_step\<^sup>*\<^sup>* bridge_init ?b3" by (rule rtranclp_trans)
  have b3: "\<not> br_panicked ?b3" "br_start ?b3 = GotConn" "br_stop ?b3 = StopParked" "br_wg ?b3 = 0" by (simp_all add: D)
  have "bridge_step ?b3 (spawn_relay ?b3)" by (rule spawn) (rule b3(2))
  moreover have "br_panicked (spawn_relay ?b3)" using b3(3,4) by (simp add: spawn_relay_def parked_def)
  ultimately show ?thesis using reach b3 by blast
qed

text \<open>An accept error makes \<^verbatim>\<open>Start\<close> return while relays are still at work.\<close>

lemma accept_error_leaves_relays:
  "\<exists>b e. bridge_step\<^sup>*\<^sup>* bridge_init b \<and> br_start b = StartReturned (Some e) \<and> \<not> list_all relay_over (br_relays b)"
proof -
  let ?e = "OtherError (Plain ''too many open files'')"
  have "bridge_step ex_spawned (accept_failed ?e ex_spawned)" by (rule conn_error) (simp add: ex_spawned_def bridge_init_def)
  with ex_spawned_reached have reach: "bridge_step\<^sup>*\<^sup>* bridge_init (accept_failed ?e ex_spawned)" by (rule rtranclp.rtrancl_into_rtrancl)
  moreover have "br_start (accept_failed ?e ex_spawned) = StartReturned (Some (Wrap ''bridge accept'' (Plain ''too many open files'')))"
    "\<not> list_all relay_over (br_relays (accept_failed ?e ex_spawned))"
    by (simp_all add: accept_failed_def ex_spawned_def bridge_init_def new_relay_def relay_over_def)
  ultimately show ?thesis by blast
qed

text \<open>\<^verbatim>\<open>Stop\<close> does not look at its context: it stays parked until the counter of the wait group is zero, however long that takes.\<close>

lemma stop_waits_for_relays:
  assumes "bridge_step b b'" "br_stop b = StopParked" "br_wg b \<noteq> 0" "\<not> br_panicked b'"
  shows "br_stop b' = StopParked"
  using assms
  by (cases rule: bridge_step.cases) (auto simp: accept_failed_def spawn_relay_def relay_set_def relay_done_def relay_releases_def
      start_waits_def start_wakes_def split: accept_error.splits if_splits)

end
