(* ===== verification/Http_Auth.thy ===== *)
theory Http_Auth
  imports Core_Types
begin

text \<open>
  The HTTP server's middleware (\<^verbatim>\<open>internal/transport/http/server.go\<close>), the OIDC authentication
  (\<^verbatim>\<open>internal/transport/http/oidc.go\<close>) and the server's choice of public paths
  (\<^verbatim>\<open>internal/cmd/server/server.go\<close>).

  A handler acts on a world. A request context is the domain context with what the
  authentication middleware stored in it. The packages \<^verbatim>\<open>authn\<close>, \<^verbatim>\<open>oidc\<close> and \<^verbatim>\<open>cors\<close> are
  arguments; \<open>authn_laws\<close> states the documented behaviour of \<^verbatim>\<open>authn.Middleware.Wrap\<close>.
\<close>

section \<open>Requests and handlers\<close>

text \<open>\<open>rq_path\<close> is \<^verbatim>\<open>r.URL.Path\<close>, the decoded path, and \<open>rq_escaped\<close> is \<^verbatim>\<open>r.URL.EscapedPath()\<close>.\<close>

record http_request =
  rq_method :: gostring
  rq_path :: gostring
  rq_escaped :: gostring
  rq_origin :: gostring
  rq_bearer :: "gostring option"
  rq_body :: bytes

type_synonym rctx = "go_context \<times> UserInfo option"
type_synonym ('w, 'r) handler = "http_request \<Rightarrow> rctx \<Rightarrow> 'w \<Rightarrow> 'r \<times> 'w"

record ('w, 'r) authn_lib =
  authn_Wrap :: "(http_request \<Rightarrow> UserInfo res) \<Rightarrow> ('w, 'r) handler \<Rightarrow> ('w, 'r) handler"
  authn_reject :: "go_error \<Rightarrow> 'r"

definition authn_laws :: "('w, 'r) authn_lib \<Rightarrow> bool" where
  "authn_laws A \<longleftrightarrow>
     (\<forall>auth next rq c i w. authn_Wrap A auth next rq (c, i) w =
        (case auth rq of
           Inl e \<Rightarrow> (authn_reject A e, w)
         | Inr u \<Rightarrow> next rq (c, Some u) w))"

section \<open>\<^verbatim>\<open>oidc.go\<close>\<close>

text \<open>A verified ID token: its subject and the result of decoding its \<^verbatim>\<open>groups\<close> claim.\<close>

record id_token =
  it_Subject :: gostring
  it_Groups :: "gostring list res"

definition oidc_authenticate :: "(gostring \<Rightarrow> id_token res) \<Rightarrow> http_request \<Rightarrow> UserInfo res" where
  "oidc_authenticate verifier r =
     (case rq_bearer r of
        None \<Rightarrow> Inl (Plain ''missing or invalid bearer token'')
      | Some token \<Rightarrow>
          if token = [] then Inl (Plain ''missing or invalid bearer token'')
          else
            (case verifier token of
               Inl e \<Rightarrow> Inl (Plain (''invalid token: '' @ error_string e))
             | Inr idToken \<Rightarrow>
                 (case it_Groups idToken of
                    Inl e \<Rightarrow> Inl (Plain (''parse token claims: '' @ error_string e))
                  | Inr groups \<Rightarrow>
                      Inr \<lparr>ui_Subject = it_Subject idToken,
                           ui_Groups = ''system:authenticated'' # map (\<lambda>g. ''oidc:'' @ g) groups\<rparr>)))"

definition NewOIDC ::
  "(gostring \<Rightarrow> (gostring \<Rightarrow> gostring \<Rightarrow> id_token res) res) \<Rightarrow> gostring \<Rightarrow> gostring \<Rightarrow> (http_request \<Rightarrow> UserInfo res) res" where
  "NewOIDC new_provider issuer clientID =
     (case new_provider issuer of
        Inl e \<Rightarrow> Inl (Wrap ''failed to init oidc provider'' e)
      | Inr verifier_for \<Rightarrow> Inr (oidc_authenticate (verifier_for clientID)))"

section \<open>\<^verbatim>\<open>server.go\<close>\<close>

record ('w, 'r) Server =
  sv_address :: gostring
  sv_mount :: "(('w, 'r) handler) res"
  sv_auth :: "(http_request \<Rightarrow> UserInfo res) option"
  sv_publicPaths :: "gostring list"
  sv_publicPathPrefixes :: "gostring list"
  sv_allowedOrigins :: "gostring list"
  sv_listener :: bool

definition normalise_path :: "gostring \<Rightarrow> gostring" where
  "normalise_path p = (if hd p \<noteq> CHR ''/'' then CHR ''/'' # p else p)"

definition WithPublicPaths :: "gostring list \<Rightarrow> ('w, 'r) Server \<Rightarrow> ('w, 'r) Server" where
  "WithPublicPaths paths s =
     s\<lparr>sv_publicPaths := fold (\<lambda>p ps. if p = [] \<or> normalise_path p \<in> set ps then ps else ps @ [normalise_path p]) paths (sv_publicPaths s)\<rparr>"

definition WithPublicPathPrefixes :: "gostring list \<Rightarrow> ('w, 'r) Server \<Rightarrow> ('w, 'r) Server" where
  "WithPublicPathPrefixes prefixes s =
     s\<lparr>sv_publicPathPrefixes := sv_publicPathPrefixes s @ map normalise_path (filter (\<lambda>p. p \<noteq> []) prefixes)\<rparr>"

definition WithAddress :: "gostring \<Rightarrow> ('w, 'r) Server \<Rightarrow> ('w, 'r) Server" where
  "WithAddress a s = s\<lparr>sv_address := a\<rparr>"

definition WithAllowedOrigins :: "gostring list \<Rightarrow> ('w, 'r) Server \<Rightarrow> ('w, 'r) Server" where
  "WithAllowedOrigins os s = s\<lparr>sv_allowedOrigins := os\<rparr>"

definition WithAuthMiddleware :: "(http_request \<Rightarrow> UserInfo res) \<Rightarrow> ('w, 'r) Server \<Rightarrow> ('w, 'r) Server" where
  "WithAuthMiddleware m s = s\<lparr>sv_auth := Some m\<rparr>"

definition WithMount :: "('w, 'r) handler res \<Rightarrow> ('w, 'r) Server \<Rightarrow> ('w, 'r) Server" where
  "WithMount m s = s\<lparr>sv_mount := m\<rparr>"

text \<open>A listener given from outside, so that no address is bound.\<close>

definition WithListener :: "('w, 'r) Server \<Rightarrow> ('w, 'r) Server" where
  "WithListener s = s\<lparr>sv_listener := True\<rparr>"

definition isPublicPath :: "('w, 'r) Server \<Rightarrow> gostring \<Rightarrow> bool" where
  "isPublicPath s path \<longleftrightarrow> path \<in> set (sv_publicPaths s) \<or> (\<exists>p\<in>set (sv_publicPathPrefixes s). has_prefix path p)"

definition bridgeUserInfo :: "('w, 'r) handler \<Rightarrow> ('w, 'r) handler" where
  "bridgeUserInfo next rq rc =
     (case snd rc of
        Some info \<Rightarrow> next rq (WithUserInfo (fst rc) info, snd rc)
      | None \<Rightarrow> next rq rc)"

definition wrapAuth ::
  "('w, 'r) authn_lib \<Rightarrow> ('w, 'r) Server \<Rightarrow> (http_request \<Rightarrow> UserInfo res) \<Rightarrow> ('w, 'r) handler \<Rightarrow> ('w, 'r) handler" where
  "wrapAuth A s auth mux =
     (let protected = authn_Wrap A auth (bridgeUserInfo mux) in
      if sv_publicPaths s = [] \<and> sv_publicPathPrefixes s = [] then protected
      else (\<lambda>rq rc. if isPublicPath s (rq_path rq) then mux rq rc else protected rq rc))"

text \<open>\<open>cors\<close> is the middleware of the CORS package for the given origins, or for all.\<close>

definition wrapCORS :: "(gostring list option \<Rightarrow> ('w, 'r) handler \<Rightarrow> ('w, 'r) handler) \<Rightarrow> ('w, 'r) Server \<Rightarrow> ('w, 'r) handler \<Rightarrow> ('w, 'r) handler" where
  "wrapCORS cors s next = (if sv_allowedOrigins s = [] then cors None next else cors (Some (sv_allowedOrigins s)) next)"

definition buildHandler ::
  "('w, 'r) authn_lib \<Rightarrow> (gostring list option \<Rightarrow> ('w, 'r) handler \<Rightarrow> ('w, 'r) handler) \<Rightarrow> ('w, 'r) Server \<Rightarrow> ('w, 'r) handler res" where
  "buildHandler A cors s =
     (case sv_mount s of
        Inl e \<Rightarrow> Inl (Wrap ''mount routes'' e)
      | Inr mux \<Rightarrow>
          Inr (wrapCORS cors s (case sv_auth s of None \<Rightarrow> mux | Some auth \<Rightarrow> wrapAuth A s auth mux)))"

definition origins_required :: go_error where
  "origins_required = Plain ''http server: allowed origins must be configured when authentication is enabled; set --allowed-origins or OTTERSCALE_SERVER_ALLOWED_ORIGINS''"

text \<open>\<open>listen\<close> is the outcome of \<^verbatim>\<open>net.Listen\<close> on the address.\<close>

definition NewServer ::
  "('w, 'r) authn_lib \<Rightarrow> (gostring list option \<Rightarrow> ('w, 'r) handler \<Rightarrow> ('w, 'r) handler) \<Rightarrow> (gostring \<Rightarrow> go_error option) \<Rightarrow>
     ('w, 'r) handler \<Rightarrow> (('w, 'r) Server \<Rightarrow> ('w, 'r) Server) list \<Rightarrow> ('w, 'r) handler res" where
  "NewServer A cors listen empty_mux opts =
     (let s = fold (\<lambda>opt s. opt s) opts
                \<lparr>sv_address = '':8299'', sv_mount = Inr empty_mux, sv_auth = None, sv_publicPaths = [],
                 sv_publicPathPrefixes = [], sv_allowedOrigins = [], sv_listener = False\<rparr> in
      if sv_auth s \<noteq> None \<and> sv_allowedOrigins s = [] then Inl origins_required
      else
        (case (if sv_listener s then None else listen (sv_address s)) of
           Some e \<Rightarrow> Inl (Wrap (''http listen '' @ go_quote (sv_address s)) e)
         | None \<Rightarrow> buildHandler A cors s))"

text \<open>\<open>serve\<close> is the error of \<^verbatim>\<open>http.Server.Serve\<close> and whether it is \<^verbatim>\<open>ErrServerClosed\<close>; \<open>shutdown\<close> and
  \<open>close\<close> are the results of the graceful and of the forced end.\<close>

definition http_Start :: "(go_error \<times> bool) option \<Rightarrow> unit res" where
  "http_Start serve =
     (case serve of
        None \<Rightarrow> Inr ()
      | Some (e, server_closed) \<Rightarrow> if server_closed then Inr () else Inl (Wrap ''http serve'' e))"

definition http_Stop :: "unit res \<Rightarrow> unit res \<Rightarrow> unit res" where
  "http_Stop shutdown close = (case shutdown of Inl e \<Rightarrow> close | Inr _ \<Rightarrow> Inr ())"

section \<open>The server's configuration\<close>

definition FleetServiceRegisterProcedure :: gostring where
  "FleetServiceRegisterProcedure = ''/otterscale.fleet.v1.FleetService/Register''"

definition public_paths :: "gostring list" where
  "public_paths =
     [''/grpc.health.v1.Health/Check'', ''/grpc.health.v1.Health/Watch'',
      ''/grpc.reflection.v1.ServerReflection/ServerReflectionInfo'', FleetServiceRegisterProcedure]"

definition public_prefixes :: "gostring list" where
  "public_prefixes = [''/fleet/manifest/'']"

definition server_options ::
  "gostring \<Rightarrow> gostring list \<Rightarrow> (http_request \<Rightarrow> UserInfo res) \<Rightarrow> ('w, 'r) handler res \<Rightarrow> (('w, 'r) Server \<Rightarrow> ('w, 'r) Server) list" where
  "server_options address origins oidc mount =
     [WithAddress address, WithAllowedOrigins origins, WithAuthMiddleware oidc, WithPublicPaths public_paths,
      WithPublicPathPrefixes public_prefixes, WithMount mount]"

text \<open>The procedures of the three services.\<close>

definition service_procedures :: "gostring list" where
  "service_procedures =
     map (\<lambda>p. ''/otterscale.runtime.v1.RuntimeService/'' @ p)
       [''PodLog'', ''ExecuteTTY'', ''WriteTTY'', ''ResizeTTY'', ''PortForward'', ''WritePortForward'', ''Scale'', ''Restart''] @
     map (\<lambda>p. ''/otterscale.resource.v1.ResourceService/'' @ p)
       [''Discovery'', ''Schema'', ''List'', ''Get'', ''Describe'', ''Create'', ''Apply'', ''Delete'', ''Watch''] @
     map (\<lambda>p. ''/otterscale.fleet.v1.FleetService/'' @ p) [''ListClusters'', ''Register'', ''GetAgentManifest'']"

section \<open>Lemmas\<close>

definition server_config ::
  "gostring \<Rightarrow> gostring list \<Rightarrow> (http_request \<Rightarrow> UserInfo res) \<Rightarrow> ('w, 'r) handler res \<Rightarrow> ('w, 'r) Server" where
  "server_config address origins oidc mount =
     \<lparr>sv_address = address, sv_mount = mount, sv_auth = Some oidc, sv_publicPaths = public_paths,
      sv_publicPathPrefixes = public_prefixes, sv_allowedOrigins = origins, sv_listener = False\<rparr>"

lemma public_normal:
  "fold (\<lambda>p ps. if p = [] \<or> normalise_path p \<in> set ps then ps else ps @ [normalise_path p]) public_paths [] = public_paths"
  "map normalise_path (filter (\<lambda>p. p \<noteq> []) public_prefixes) = public_prefixes"
  by code_simp+

lemma server_options_config:
  "fold (\<lambda>opt s. opt s) (server_options address origins oidc mount)
     \<lparr>sv_address = '':8299'', sv_mount = m0, sv_auth = None, sv_publicPaths = [], sv_publicPathPrefixes = [], sv_allowedOrigins = [], sv_listener = False\<rparr> =
   server_config address origins oidc mount"
  unfolding server_options_def server_config_def WithAddress_def WithAllowedOrigins_def WithAuthMiddleware_def
    WithPublicPaths_def WithPublicPathPrefixes_def WithMount_def
  by (simp add: public_normal)

lemma procedures_protected:
  "list_all (\<lambda>p. p \<notin> set public_paths \<and> list_all (\<lambda>x. \<not> has_prefix p x) public_prefixes)
     (filter (\<lambda>p. p \<noteq> FleetServiceRegisterProcedure) service_procedures)"
  by code_simp

lemma protected_procedure:
  assumes "p \<in> set service_procedures" "p \<noteq> FleetServiceRegisterProcedure"
  shows "\<not> isPublicPath (server_config address origins oidc mount) p"
  using procedures_protected assms by (auto simp: isPublicPath_def server_config_def list_all_iff)

lemma wrapAuth_config:
  assumes "authn_laws A"
  shows "wrapAuth A (server_config address origins oidc mount) oidc mux rq (c, i) w =
    (if isPublicPath (server_config address origins oidc mount) (rq_path rq) then mux rq (c, i) w
     else case oidc rq of
            Inl e \<Rightarrow> (authn_reject A e, w)
          | Inr u \<Rightarrow> mux rq (WithUserInfo c u, Some u) w)"
  using assms by (simp add: wrapAuth_def authn_laws_def Let_def bridgeUserInfo_def server_config_def public_paths_def split: sum.splits)

lemma oidc_authenticate_Inr:
  "oidc_authenticate verifier rq = Inr u \<Longrightarrow>
     \<exists>token idToken groups. rq_bearer rq = Some token \<and> token \<noteq> [] \<and> verifier token = Inr idToken \<and> it_Groups idToken = Inr groups \<and>
       u = \<lparr>ui_Subject = it_Subject idToken, ui_Groups = ''system:authenticated'' # map (\<lambda>g. ''oidc:'' @ g) groups\<rparr>"
  by (auto simp: oidc_authenticate_def split: option.splits sum.splits if_splits)

text \<open>The CORS middleware passes a request on or answers it itself.\<close>

definition cors_laws :: "(gostring list option \<Rightarrow> ('w, 'r) handler \<Rightarrow> ('w, 'r) handler) \<Rightarrow> bool" where
  "cors_laws cors \<longleftrightarrow>
     (\<forall>os rq rc w. (\<forall>next. cors os next rq rc w = next rq rc w) \<or> (\<exists>r. \<forall>next. cors os next rq rc w = (r, w)))"

text \<open>What a request meets on the server as it is configured: CORS or the authentication answers it, or
  it is for a public path, or it carries a token the verifier accepts.\<close>

lemma request_cases:
  assumes "authn_laws A" and "cors_laws cors"
    and "NewServer A cors listen m0 (server_options address origins (oidc_authenticate verifier) (Inr mux)) = Inr h"
  obtains (answered) r where "h rq (c, i) w = (r, w)"
  | (public) "isPublicPath (server_config address origins (oidc_authenticate verifier) (Inr mux)) (rq_path rq)" "h rq (c, i) w = mux rq (c, i) w"
  | (verified) token idToken groups u where "rq_bearer rq = Some token" "token \<noteq> []" "verifier token = Inr idToken"
      "it_Groups idToken = Inr groups"
      "u = \<lparr>ui_Subject = it_Subject idToken, ui_Groups = ''system:authenticated'' # map (\<lambda>g. ''oidc:'' @ g) groups\<rparr>"
      "\<not> isPublicPath (server_config address origins (oidc_authenticate verifier) (Inr mux)) (rq_path rq)"
      "h rq (c, i) w = mux rq (WithUserInfo c u, Some u) w"
proof -
  let ?s = "server_config address origins (oidc_authenticate verifier) (Inr mux)"
  let ?inner = "wrapAuth A ?s (oidc_authenticate verifier) mux"
  have "buildHandler A cors ?s = Inr h"
    using assms(3) unfolding NewServer_def server_options_config Let_def by (simp split: if_splits option.splits)
  then have h: "h = wrapCORS cors ?s ?inner" by (simp add: buildHandler_def server_config_def)
  define os where "os = (if origins = [] then None else Some origins)"
  have hos: "h rq (c, i) w = cors os ?inner rq (c, i) w" by (simp add: h wrapCORS_def os_def server_config_def)
  have "(\<forall>next. cors os next rq (c, i) w = next rq (c, i) w) \<or> (\<exists>r. \<forall>next. cors os next rq (c, i) w = (r, w))"
    using assms(2) unfolding cors_laws_def by blast
  then consider (pass) "h rq (c, i) w = ?inner rq (c, i) w" | (own) r where "h rq (c, i) w = (r, w)"
    unfolding hos by blast
  then show thesis
  proof cases
    case pass
    show thesis
    proof (cases "isPublicPath ?s (rq_path rq)")
      case True
      then show thesis using public pass by (simp add: wrapAuth_config [OF assms(1)])
    next
      case False
      show thesis
      proof (cases "oidc_authenticate verifier rq")
        case (Inl e)
        then show thesis using pass False answered by (simp add: wrapAuth_config [OF assms(1)])
      next
        case (Inr u)
        then have "h rq (c, i) w = mux rq (WithUserInfo c u, Some u) w" using pass False by (simp add: wrapAuth_config [OF assms(1)])
        then show thesis using oidc_authenticate_Inr [OF Inr] verified False by blast
      qed
    qed
  qed (rule answered)
qed

text \<open>A request for a public path that CORS passes on reaches the multiplexer as it is.\<close>

lemma public_request:
  assumes "authn_laws A" "NewServer A cors listen m0 (server_options address origins oidc (Inr mux)) = Inr h"
    and "\<forall>os next rc w. cors os next rq rc w = next rq rc w" "isPublicPath (server_config address origins oidc (Inr mux)) (rq_path rq)"
  shows "h rq (c, i) w = mux rq (c, i) w"
proof -
  let ?s = "server_config address origins oidc (Inr mux)"
  have "buildHandler A cors ?s = Inr h"
    using assms(2) unfolding NewServer_def server_options_config Let_def by (simp split: if_splits option.splits)
  then have "h = wrapCORS cors ?s (wrapAuth A ?s oidc mux)" by (simp add: buildHandler_def server_config_def)
  then have "h rq (c, i) w = wrapAuth A ?s oidc mux rq (c, i) w" using assms(3) by (simp add: wrapCORS_def)
  then show ?thesis using wrapAuth_config [OF assms(1)] assms(4) by simp
qed

text \<open>What a request for a protected procedure meets.\<close>

lemma protected_request:
  assumes "authn_laws A" and "cors_laws cors"
    and "NewServer A cors listen m0 (server_options address origins (oidc_authenticate verifier) (Inr mux)) = Inr h"
    and "rq_path rq \<in> set service_procedures" and "rq_path rq \<noteq> FleetServiceRegisterProcedure"
  shows "(\<exists>r. h rq (c, i) w = (r, w)) \<or>
    (\<exists>token idToken groups u. rq_bearer rq = Some token \<and> token \<noteq> [] \<and> verifier token = Inr idToken \<and>
       it_Groups idToken = Inr groups \<and>
       u = \<lparr>ui_Subject = it_Subject idToken, ui_Groups = ''system:authenticated'' # map (\<lambda>g. ''oidc:'' @ g) groups\<rparr> \<and>
       h rq (c, i) w = mux rq (WithUserInfo c u, Some u) w)"
  by (rule request_cases [OF assms(1-3), of rq c i w]) (use protected_procedure [OF assms(4,5)] in blast)+

section \<open>Properties\<close>

text \<open>
  On the server as it is configured, a request for any procedure of the runtime, resource
  and fleet services except \<^verbatim>\<open>Register\<close> reaches the application only with a non-empty bearer token
  that the OIDC verifier accepts, and then with the token's subject as the user and the group
  system:authenticated followed by the token's groups, each prefixed with \<^verbatim>\<open>oidc:\<close> (so no token can
  claim a Kubernetes group such as system:masters). Every other such request is answered by the
  middleware and changes nothing.
\<close>

theorem procedures_require_token:
  assumes "authn_laws A" and "cors_laws cors"
    and "NewServer A cors listen m0 (server_options address origins (oidc_authenticate verifier) (Inr mux)) = Inr h"
    and "rq_path rq \<in> set service_procedures" and "rq_path rq \<noteq> FleetServiceRegisterProcedure"
  shows "(\<exists>r. h rq (c, i) w = (r, w)) \<or>
    (\<exists>token idToken groups u. rq_bearer rq = Some token \<and> token \<noteq> [] \<and> verifier token = Inr idToken \<and>
       it_Groups idToken = Inr groups \<and>
       u = \<lparr>ui_Subject = it_Subject idToken, ui_Groups = ''system:authenticated'' # map (\<lambda>g. ''oidc:'' @ g) groups\<rparr> \<and>
       h rq (c, i) w = mux rq (WithUserInfo c u, Some u) w)"
  by (rule protected_request [OF assms])

definition demo_authn :: "(nat, UserInfo option) authn_lib" where
  "demo_authn = \<lparr>authn_Wrap = (\<lambda>auth next rq rc w. case auth rq of Inl e \<Rightarrow> (None, w) | Inr u \<Rightarrow> next rq (fst rc, Some u) w),
     authn_reject = (\<lambda>_. None)\<rparr>"

definition demo_request :: "gostring option \<Rightarrow> http_request" where
  "demo_request b = \<lparr>rq_method = ''POST'', rq_path = ''/otterscale.resource.v1.ResourceService/List'',
     rq_escaped = ''/otterscale.resource.v1.ResourceService/List'', rq_origin = [], rq_bearer = b, rq_body = []\<rparr>"

definition demo_verifier :: "gostring \<Rightarrow> id_token res" where
  "demo_verifier t = (if t = ''good'' then Inr \<lparr>it_Subject = ''alice'', it_Groups = Inr [''system:masters'']\<rparr> else Inl (Plain ''bad''))"

definition demo_mux :: "(nat, UserInfo option) handler" where
  "demo_mux rq rc w = (ctx_user (fst rc), Suc w)"

definition demo_http :: "(nat, UserInfo option) handler" where
  "demo_http = wrapAuth demo_authn (server_config '':1'' [''https://ui''] (oidc_authenticate demo_verifier) (Inr demo_mux))
     (oidc_authenticate demo_verifier) demo_mux"

theorem procedures_require_token_witness:
  "(\<exists>r. demo_http (demo_request (Some ''forged'')) (\<lparr>ctx_user = None\<rparr>, None) 0 = (r, 0)) \<and>
   demo_http (demo_request (Some ''good'')) (\<lparr>ctx_user = None\<rparr>, None) 0 =
     (Some \<lparr>ui_Subject = ''alice'', ui_Groups = [''system:authenticated'', ''oidc:system:masters'']\<rparr>, 1)"
proof -
  have A: "authn_laws demo_authn" by (auto simp: authn_laws_def demo_authn_def split: sum.split)
  have C: "cors_laws (\<lambda>_ next. next)" by (simp add: cors_laws_def)
  have new: "NewServer demo_authn (\<lambda>_ next. next) (\<lambda>_. None) demo_mux
      (server_options '':1'' [''https://ui''] (oidc_authenticate demo_verifier) (Inr demo_mux)) = Inr demo_http"
    unfolding NewServer_def server_options_config Let_def
    by (simp add: demo_http_def buildHandler_def server_config_def wrapCORS_def)
  have p: "rq_path (demo_request b) \<in> set service_procedures" "rq_path (demo_request b) \<noteq> FleetServiceRegisterProcedure" for b
    by (simp_all add: demo_request_def service_procedures_def FleetServiceRegisterProcedure_def)
  have "\<exists>r. demo_http (demo_request (Some ''forged'')) (\<lparr>ctx_user = None\<rparr>, None) 0 = (r, 0)"
    using procedures_require_token [OF A C new p, of "Some ''forged''" "\<lparr>ctx_user = None\<rparr>" None 0]
    by (simp add: demo_verifier_def demo_request_def)
  moreover have "demo_http (demo_request (Some ''good'')) (\<lparr>ctx_user = None\<rparr>, None) 0 =
     (Some \<lparr>ui_Subject = ''alice'', ui_Groups = [''system:authenticated'', ''oidc:system:masters'']\<rparr>, 1)"
    unfolding demo_http_def wrapAuth_config [OF A] by (simp add: protected_procedure [OF p] )
      (simp add: oidc_authenticate_def demo_request_def demo_verifier_def demo_mux_def WithUserInfo_def)
  ultimately show ?thesis by blast
qed

text \<open>With authentication but without allowed origins the server refuses to start.\<close>

lemma origins_enforced: "NewServer A cors listen m0 (server_options address [] oidc mount) = Inl origins_required"
  unfolding NewServer_def server_options_config Let_def by (simp add: server_config_def)

end
