(* ===== verification/Tunnel_Listener.thy ===== *)
theory Tunnel_Listener
  imports Tunnel_Service
begin

text \<open>
  The server's end of the tunnel: the listener \<^verbatim>\<open>internal/transport/tunnel/server.go\<close> and its
  construction \<^verbatim>\<open>internal/providers/chisel/tunnel_factory.go\<close>.

  The constructor and the methods of the chisel server are arguments, as are the temporary
  directory and the outcomes of the file operations. The random identifiers of the sentinel user
  are an argument too.
\<close>

section \<open>\<^verbatim>\<open>net.SplitHostPort\<close>\<close>

definition addr_error :: "gostring \<Rightarrow> gostring \<Rightarrow> go_error" where
  "addr_error addr why = Plain ((if addr = [] then [] else ''address '' @ addr @ '': '') @ why)"

fun index_char :: "char \<Rightarrow> gostring \<Rightarrow> nat option" where
  "index_char c [] = None"
| "index_char c (x # xs) = (if x = c then Some 0 else map_option Suc (index_char c xs))"

fun last_index_char :: "char \<Rightarrow> gostring \<Rightarrow> nat option" where
  "last_index_char c [] = None"
| "last_index_char c (x # xs) =
     (case last_index_char c xs of
        Some i \<Rightarrow> Some (Suc i)
      | None \<Rightarrow> if x = c then Some 0 else None)"

text \<open>The checks for stray brackets behind the offsets \<open>j\<close> and \<open>k\<close>, and the result.\<close>

definition split_rest :: "gostring \<Rightarrow> gostring \<Rightarrow> nat \<Rightarrow> nat \<Rightarrow> nat \<Rightarrow> (gostring \<times> gostring) res" where
  "split_rest hostport host i j k =
     (if CHR ''['' \<in> set (drop j hostport) then Inl (addr_error hostport (''unexpected '' @ [CHR 0x27] @ ''['' @ [CHR 0x27] @ '' in address''))
      else if CHR '']'' \<in> set (drop k hostport) then Inl (addr_error hostport (''unexpected '' @ [CHR 0x27] @ '']'' @ [CHR 0x27] @ '' in address''))
      else Inr (host, drop (Suc i) hostport))"

definition SplitHostPort :: "gostring \<Rightarrow> (gostring \<times> gostring) res" where
  "SplitHostPort hostport =
     (case last_index_char (CHR '':'') hostport of
        None \<Rightarrow> Inl (addr_error hostport ''missing port in address'')
      | Some i \<Rightarrow>
          if hd hostport = CHR ''['' then
            (case index_char (CHR '']'') hostport of
               None \<Rightarrow> Inl (addr_error hostport (''missing '' @ [CHR 0x27] @ '']'' @ [CHR 0x27] @ '' in address''))
             | Some e \<Rightarrow>
                 if Suc e = length hostport then Inl (addr_error hostport ''missing port in address'')
                 else if Suc e = i then split_rest hostport (drop 1 (take e hostport)) i 1 (Suc e)
                 else if hostport ! Suc e = CHR '':'' then Inl (addr_error hostport ''too many colons in address'')
                 else Inl (addr_error hostport ''missing port in address''))
          else
            (let host = take i hostport in
             if CHR '':'' \<in> set host then Inl (addr_error hostport ''too many colons in address'')
             else split_rest hostport host i 0 0))"

lemma last_index_append: "c \<notin> set t \<Longrightarrow> last_index_char c (s @ c # t) = Some (length s)"
proof -
  assume "c \<notin> set t"
  then have "last_index_char c t = None" by (induction t) auto
  then show ?thesis by (induction s) simp_all
qed

text \<open>A host without brackets or colons and a port come back from their address.\<close>

lemma SplitHostPort_plain:
  assumes "set host \<inter> set '':[]'' = {}" "set port \<inter> set '':[]'' = {}"
  shows "SplitHostPort (host @ '':'' @ port) = Inr (host, port)"
proof -
  have "last_index_char (CHR '':'') (host @ CHR '':'' # port) = Some (length host)"
    using assms(2) by (intro last_index_append) simp
  moreover have "hd (host @ CHR '':'' # port) \<noteq> CHR ''[''" using assms(1) by (cases host) auto
  ultimately show ?thesis using assms by (auto simp: SplitHostPort_def split_rest_def Let_def)
qed

section \<open>\<^verbatim>\<open>tunnel/server.go\<close>\<close>

record tunnel_Server =
  ts_address :: gostring
  ts_tlsCert :: gostring
  ts_tlsKey :: gostring
  ts_tlsCA :: gostring

text \<open>The TLS part of the chisel configuration: certificate, key and CA files.\<close>

record chserver_config =
  ch_Reverse :: bool
  ch_TLS :: "(gostring \<times> gostring \<times> gostring) option"

record 'v chserver_lib =
  ch_users :: "'v chisel_lib"
  ch_NewServer :: "chserver_config \<Rightarrow> 'v res"
  ch_StartContext :: "'v \<Rightarrow> gostring \<Rightarrow> gostring \<Rightarrow> unit res"
  ch_Wait :: "'v \<Rightarrow> unit res"
  ch_Close :: "'v \<Rightarrow> unit res"

definition ts_WithAddress :: "gostring \<Rightarrow> tunnel_Server \<Rightarrow> tunnel_Server" where
  "ts_WithAddress address s = s\<lparr>ts_address := address\<rparr>"

definition WithTLSCert :: "gostring \<Rightarrow> tunnel_Server \<Rightarrow> tunnel_Server" where
  "WithTLSCert path s = s\<lparr>ts_tlsCert := path\<rparr>"

definition WithTLSKey :: "gostring \<Rightarrow> tunnel_Server \<Rightarrow> tunnel_Server" where
  "WithTLSKey path s = s\<lparr>ts_tlsKey := path\<rparr>"

definition WithTLSCA :: "gostring \<Rightarrow> tunnel_Server \<Rightarrow> tunnel_Server" where
  "WithTLSCA path s = s\<lparr>ts_tlsCA := path\<rparr>"

definition ch_config :: "tunnel_Server \<Rightarrow> chserver_config" where
  "ch_config s = \<lparr>ch_Reverse = True,
     ch_TLS = (if ts_tlsCert s \<noteq> [] \<and> ts_tlsKey s \<noteq> [] then Some (ts_tlsCert s, ts_tlsKey s, ts_tlsCA s) else None)\<rparr>"

text \<open>The pointer shared through \<^verbatim>\<open>WithServer\<close> is the \<open>server\<close> field of the service.\<close>

definition tunnel_init ::
  "'v chserver_lib \<Rightarrow> gostring \<times> gostring \<Rightarrow> tunnel_Server \<Rightarrow> ('v, 'k, 'c) Service \<Rightarrow> unit res \<times> ('v, 'k, 'c) Service" where
  "tunnel_init H uuids s svc =
     (case ch_NewServer H (ch_config s) of
        Inl e \<Rightarrow> (Inl e, svc)
      | Inr ch \<Rightarrow>
          (case AddUser (ch_users H) ch (fst uuids) (snd uuids) ''127.0.0.1'' of
             (Inl e, _) \<Rightarrow> (Inl e, svc)
           | (Inr _, ch') \<Rightarrow> (Inr (), ServerRef_Store ch' svc)))"

definition tunnel_NewServer ::
  "'v chserver_lib \<Rightarrow> gostring \<times> gostring \<Rightarrow> (tunnel_Server \<Rightarrow> tunnel_Server) list \<Rightarrow> ('v, 'k, 'c) Service \<Rightarrow>
     tunnel_Server res \<times> ('v, 'k, 'c) Service" where
  "tunnel_NewServer H uuids opts svc =
     (let s = fold (\<lambda>opt s. opt s) opts \<lparr>ts_address = '':8300'', ts_tlsCert = [], ts_tlsKey = [], ts_tlsCA = []\<rparr>
      in case tunnel_init H uuids s svc of
           (Inl e, svc') \<Rightarrow> (Inl (Wrap ''tunnel server init'' e), svc')
         | (Inr _, svc') \<Rightarrow> (Inr s, svc'))"

text \<open>The pointer has been set by the constructor; \<^const>\<open>None\<close> stands for the panic on a nil server.\<close>

definition tunnel_Start :: "'v chserver_lib \<Rightarrow> tunnel_Server \<Rightarrow> ('v, 'k, 'c) Service \<Rightarrow> unit res option" where
  "tunnel_Start H s svc =
     (case SplitHostPort (ts_address s) of
        Inl e \<Rightarrow> Some (Inl (Wrap (''parse address '' @ go_quote (ts_address s)) e))
      | Inr (host, port) \<Rightarrow>
          (case server svc of
             None \<Rightarrow> None
           | Some srv \<Rightarrow>
               Some (case ch_StartContext H srv host port of
                       Inl e \<Rightarrow> Inl (Wrap ''tunnel server start'' e)
                     | Inr _ \<Rightarrow> ch_Wait H srv)))"

definition tunnel_Stop :: "'v chserver_lib \<Rightarrow> ('v, 'k, 'c) Service \<Rightarrow> unit res" where
  "tunnel_Stop H svc = (case server svc of None \<Rightarrow> Inr () | Some srv \<Rightarrow> ch_Close H srv)"

section \<open>\<^verbatim>\<open>chisel/tunnel_factory.go\<close>\<close>

type_synonym disk = "(gostring, (gostring, bytes) gomap) gomap"

text \<open>The outcome of \<^verbatim>\<open>MkdirTemp\<close> and of the three writes, by file name.\<close>

record file_env =
  fe_mkdir :: "gostring res"
  fe_write :: "gostring \<Rightarrow> go_error option"

definition write_file :: "file_env \<Rightarrow> gostring \<Rightarrow> gostring \<Rightarrow> bytes \<Rightarrow> disk \<Rightarrow> go_error option \<times> disk" where
  "write_file fe dir f data d =
     (case fe_write fe f of
        Some e \<Rightarrow> (Some e, d)
      | None \<Rightarrow> (None, gput dir (gput f data (case gget d dir of None \<Rightarrow> [] | Some fs \<Rightarrow> fs)) d))"

record listener =
  li_server :: tunnel_Server
  li_certDir :: gostring

text \<open>The three files, in order, and the error text of each.\<close>

fun write_files :: "file_env \<Rightarrow> gostring \<Rightarrow> (gostring \<times> bytes \<times> gostring) list \<Rightarrow> disk \<Rightarrow> go_error option \<times> disk" where
  "write_files fe dir [] d = (None, d)"
| "write_files fe dir ((f, data, why) # rest) d =
     (case write_file fe dir f data d of
        (Some e, d') \<Rightarrow> (Some (Wrap why e), gdel dir d')
      | (None, d') \<Rightarrow> write_files fe dir rest d')"

definition BuildTunnelListener ::
  "('r, 'k, 'p, 'c, 'q) pki_lib \<Rightarrow> 'v chserver_lib \<Rightarrow> int \<Rightarrow> gostring \<times> gostring \<Rightarrow> file_env \<Rightarrow> gostring \<Rightarrow> gostring \<Rightarrow>
     ('v, 'k, 'c) Service \<Rightarrow> 'r \<Rightarrow> disk \<Rightarrow> listener res \<times> ('v, 'k, 'c) Service \<times> 'r \<times> disk" where
  "BuildTunnelListener L H now uuids fe address host svc r d =
     (case GenerateServerCert L (service_ca svc) now [host] r of
        (Inl e, r1) \<Rightarrow> (Inl (Wrap ''generate server cert'' e), svc, r1, d)
      | (Inr (serverCert, serverKey), r1) \<Rightarrow>
          (case fe_mkdir fe of
             Inl e \<Rightarrow> (Inl (Wrap ''create cert dir'' e), svc, r1, d)
           | Inr certDir \<Rightarrow>
               (case write_files fe certDir
                       [(''ca.pem'', CertPEM (service_ca svc), ''write CA cert''),
                        (''cert.pem'', serverCert, ''write server cert''),
                        (''key.pem'', serverKey, ''write server key'')] (gput certDir [] d) of
                  (Some e, d1) \<Rightarrow> (Inl e, svc, r1, d1)
                | (None, d1) \<Rightarrow>
                    (case tunnel_NewServer H uuids
                            [ts_WithAddress address, WithTLSCert (certDir @ ''/cert.pem''), WithTLSKey (certDir @ ''/key.pem''),
                             WithTLSCA (certDir @ ''/ca.pem'')] svc of
                       (Inl e, svc1) \<Rightarrow> (Inl (Wrap ''create tunnel server'' e), svc1, r1, gdel certDir d1)
                     | (Inr srv, svc1) \<Rightarrow> (Inr \<lparr>li_server = srv, li_certDir = certDir\<rparr>, svc1, r1, d1)))))"

definition listener_Stop :: "'v chserver_lib \<Rightarrow> listener \<Rightarrow> ('v, 'k, 'c) Service \<Rightarrow> disk \<Rightarrow> unit res \<times> disk" where
  "listener_Stop H l svc d = (tunnel_Stop H svc, gdel (li_certDir l) d)"

section \<open>Lemmas\<close>

lemma write_file_gget:
  assumes "write_file fe dir f data d = (r, d')"
  shows "(gget d')(dir := None) = (gget d)(dir := None)"
  using assms by (auto simp: write_file_def split: option.splits)

lemma write_files_error:
  assumes "write_files fe dir fs d = (Some e, d')"
  shows "gget d' = (gget d)(dir := None)"
  using assms
proof (induction fe dir fs d rule: write_files.induct)
  case (2 fe dir f data why rest d)
  obtain r d1 where w: "write_file fe dir f data d = (r, d1)" by force
  show ?case
    using 2 w write_file_gget [OF w] by (cases r) auto
qed simp

lemma write_files_three:
  assumes "write_files fe dir [(f1, x1, w1), (f2, x2, w2), (f3, x3, w3)] (gput dir [] d) = (None, d')"
    and "distinct [f1, f2, f3]"
  shows "gget d' = (gget d)(dir \<mapsto> [(f1, x1), (f2, x2), (f3, x3)])"
  using assms by (auto simp: write_file_def split: option.splits)

definition mtls_config :: "gostring \<Rightarrow> chserver_config" where
  "mtls_config dir = \<lparr>ch_Reverse = True, ch_TLS = Some (dir @ ''/cert.pem'', dir @ ''/key.pem'', dir @ ''/ca.pem'')\<rparr>"

text \<open>\<^verbatim>\<open>NewServer\<close> with the options of the factory: a server with mutual TLS and the sentinel user, or
  an error and no change.\<close>

lemma tunnel_NewServer_mtls:
  fixes svc svc' :: "('v, 'k, 'c) Service"
  assumes "tunnel_NewServer H uuids [ts_WithAddress address, WithTLSCert (dir @ ''/cert.pem''), WithTLSKey (dir @ ''/key.pem''),
      WithTLSCA (dir @ ''/ca.pem'')] svc = (res, svc')"
  obtains (refused) e where "res = Inl e" "svc' = svc"
  | (ready) srv ch ch' where "res = Inr srv" "ts_address srv = address" "ch_NewServer H (mtls_config dir) = Inr ch"
      "AddUser (ch_users H) ch (fst uuids) (snd uuids) ''127.0.0.1'' = (Inr (), ch')" "svc' = ServerRef_Store ch' svc"
proof -
  have "ch_config (fold (\<lambda>opt s. opt s) [ts_WithAddress address, WithTLSCert (dir @ ''/cert.pem''), WithTLSKey (dir @ ''/key.pem''),
      WithTLSCA (dir @ ''/ca.pem'')] \<lparr>ts_address = '':8300'', ts_tlsCert = [], ts_tlsKey = [], ts_tlsCA = []\<rparr>) = mtls_config dir"
    by (simp add: ch_config_def mtls_config_def ts_WithAddress_def WithTLSCert_def WithTLSKey_def WithTLSCA_def)
  then show thesis
    using assms that
    by (auto simp: tunnel_NewServer_def tunnel_init_def ts_WithAddress_def WithTLSCert_def WithTLSKey_def WithTLSCA_def Let_def
        split: sum.splits prod.splits)
qed

section \<open>The listener\<close>

text \<open>Building the tunnel listener in a new directory either fails and leaves the service and the
  disk as they were, or leaves exactly the CA certificate, the server certificate and its key in
  the directory and publishes a chisel server that was created with mutual TLS over these files
  and already has the sentinel user, so no anonymous client is ever admitted; stopping the
  listener removes the files again. Only removals are assumed to succeed.\<close>

lemma tunnel_listener_mtls:
  fixes svc svc' :: "('v, 'k, 'c) Service"
  assumes "BuildTunnelListener L H now uuids fe address host svc r d = (res, svc', r', d')"
    and "fe_mkdir fe = Inr dir" "gget d dir = None"
  shows "case res of
      Inl e \<Rightarrow> gget d' = gget d \<and> svc' = svc
    | Inr l \<Rightarrow>
        (\<exists>cert key ch ch'. fst (GenerateServerCert L (service_ca svc) now [host] r) = Inr (cert, key) \<and>
           gget d' = (gget d)(dir \<mapsto> [(''ca.pem'', CertPEM (service_ca svc)), (''cert.pem'', cert), (''key.pem'', key)]) \<and>
           ch_NewServer H (mtls_config dir) = Inr ch \<and>
           AddUser (ch_users H) ch (fst uuids) (snd uuids) ''127.0.0.1'' = (Inr (), ch') \<and>
           svc' = ServerRef_Store ch' svc \<and> ts_address (li_server l) = address \<and>
           gget (snd (listener_Stop H l svc' d')) = gget d)"
proof -
  obtain g r1 where g: "GenerateServerCert L (service_ca svc) now [host] r = (g, r1)" by force
  show ?thesis
  proof (cases g)
    case (Inl e)
    then show ?thesis using assms g by (auto simp: BuildTunnelListener_def)
  next
    case (Inr ck)
    obtain cert key where ck: "ck = (cert, key)" by force
    let ?files = "[(''ca.pem'', CertPEM (service_ca svc), ''write CA cert''), (''cert.pem'', cert, ''write server cert''),
      (''key.pem'', key, ''write server key'')]"
    obtain we d1 where w: "write_files fe dir ?files (gput dir [] d) = (we, d1)" by force
    show ?thesis
    proof (cases we)
      case (Some e)
      then show ?thesis
        using assms g Inr ck w write_files_error [of fe dir ?files "gput dir [] d" e d1]
        by (auto simp: BuildTunnelListener_def fun_upd_idem)
    next
      case None
      have d1: "gget d1 = (gget d)(dir \<mapsto> [(''ca.pem'', CertPEM (service_ca svc)), (''cert.pem'', cert), (''key.pem'', key)])"
        using write_files_three [OF w [unfolded None]] by simp
      obtain n svc1 where n: "tunnel_NewServer H uuids [ts_WithAddress address, WithTLSCert (dir @ ''/cert.pem''),
          WithTLSKey (dir @ ''/key.pem''), WithTLSCA (dir @ ''/ca.pem'')] svc = (n, svc1)" by force
      then show ?thesis
      proof (cases rule: tunnel_NewServer_mtls)
        case (refused e)
        then have "res = Inl (Wrap ''create tunnel server'' e)" "svc' = svc" "d' = gdel dir d1"
          using assms(1,2) g Inr ck w None n by (auto simp: BuildTunnelListener_def)
        then show ?thesis using d1 assms(3) by auto
      next
        case (ready srv ch ch')
        then have "res = Inr \<lparr>li_server = srv, li_certDir = dir\<rparr>" "svc' = ServerRef_Store ch' svc" "d' = d1"
          using assms(1,2) g Inr ck w None n by (auto simp: BuildTunnelListener_def)
        then show ?thesis using d1 assms(3) ready g Inr ck by (auto simp: listener_Stop_def)
      qed
    qed
  qed
qed

definition demo_chserver :: "(gostring, gostring \<times> gostring) gomap chserver_lib" where
  "demo_chserver = \<lparr>ch_users = demo_chisel, ch_NewServer = (\<lambda>c. Inr []), ch_StartContext = (\<lambda>v h p. Inr ()),
     ch_Wait = (\<lambda>v. Inr ()), ch_Close = (\<lambda>v. Inr ())\<rparr>"

definition demo_files :: file_env where
  "demo_files = \<lparr>fe_mkdir = Inr ''/tmp/s1'', fe_write = (\<lambda>f. None)\<rparr>"

lemma demo_tunnel_listener:
  "\<exists>l svc' r' d'. BuildTunnelListener demo_lib demo_chserver 0 (''u1'', ''u2'') demo_files ''127.0.0.1:8300'' ''127.0.0.1''
       demo_service 7 [] = (Inr l, svc', r', d') \<and>
     server svc' = Some [(''u1'', ''u2'', ''127.0.0.1'')] \<and> d' \<noteq> [] \<and> gget (snd (listener_Stop demo_chserver l svc' d')) = gget []"
proof -
  have "\<exists>l svc' r' d'. BuildTunnelListener demo_lib demo_chserver 0 (''u1'', ''u2'') demo_files ''127.0.0.1:8300'' ''127.0.0.1''
       demo_service 7 [] = (Inr l, svc', r', d')"
    by (simp add: BuildTunnelListener_def GenerateServerCert_def randomSerial_def demo_lib_def demo_files_def write_file_def
        tunnel_NewServer_def tunnel_init_def demo_chserver_def demo_AddUser Let_def)
  then obtain l svc' r' d' where b: "BuildTunnelListener demo_lib demo_chserver 0 (''u1'', ''u2'') demo_files ''127.0.0.1:8300'' ''127.0.0.1''
       demo_service 7 [] = (Inr l, svc', r', d')" by blast
  have "server svc' = Some [(''u1'', ''u2'', ''127.0.0.1'')] \<and> gget d' \<noteq> gget [] \<and> gget (snd (listener_Stop demo_chserver l svc' d')) = gget []"
    using tunnel_listener_mtls [OF b, of "''/tmp/s1''"]
    by (auto simp: demo_files_def demo_chserver_def demo_AddUser ServerRef_Store_def fun_upd_def fun_eq_iff split: if_splits)
  then show ?thesis using b by auto
qed

end
