(* ===== verification/Go_Json.thy ===== *)
theory Go_Json
  imports Encoding
begin

text \<open>
  The part of \<^verbatim>\<open>encoding/json\<close> that manifest tokens use: the encoding of strings with HTML
  escaping, and the decoder: a parser of JSON texts with its depth limit, the decoding of
  strings with their escapes, and integer literals. Bytes that are not valid UTF-8 are replaced
  by U+FFFD, as the library does.
\<close>

section \<open>UTF-8\<close>

definition in_range :: "nat \<Rightarrow> nat \<Rightarrow> char \<Rightarrow> bool" where
  "in_range lo hi c \<longleftrightarrow> lo \<le> ord_of c \<and> ord_of c \<le> hi"

abbreviation cont_byte :: "char \<Rightarrow> bool" where
  "cont_byte \<equiv> in_range 128 191"

definition is2 :: "char \<Rightarrow> char \<Rightarrow> bool" where
  "is2 a b \<longleftrightarrow> in_range 194 223 a \<and> cont_byte b"

definition is3 :: "char \<Rightarrow> char \<Rightarrow> char \<Rightarrow> bool" where
  "is3 a b c \<longleftrightarrow> (ord_of a = 224 \<and> in_range 160 191 b \<or> in_range 225 236 a \<and> cont_byte b \<or>
     ord_of a = 237 \<and> in_range 128 159 b \<or> in_range 238 239 a \<and> cont_byte b) \<and> cont_byte c"

definition is4 :: "char \<Rightarrow> char \<Rightarrow> char \<Rightarrow> char \<Rightarrow> bool" where
  "is4 a b c d \<longleftrightarrow> (ord_of a = 240 \<and> in_range 144 191 b \<or> in_range 241 243 a \<and> cont_byte b \<or>
     ord_of a = 244 \<and> in_range 128 143 b) \<and> cont_byte c \<and> cont_byte d"

text \<open>The number of bytes of the multi-byte character a text starts with, 0 when it is invalid.\<close>

fun utf8_size :: "bytes \<Rightarrow> nat" where
  "utf8_size (a # b # c # d # s) = (if is2 a b then 2 else if is3 a b c then 3 else if is4 a b c d then 4 else 0)"
| "utf8_size [a, b, c] = (if is2 a b then 2 else if is3 a b c then 3 else 0)"
| "utf8_size [a, b] = (if is2 a b then 2 else 0)"
| "utf8_size s = 0"

definition utf8_encode :: "nat \<Rightarrow> bytes" where
  "utf8_encode r =
     (if r < 128 then [byte_of r]
      else if r < 2048 then [byte_of (192 + r div 64), byte_of (128 + r mod 64)]
      else if r < 65536 then [byte_of (224 + r div 4096), byte_of (128 + r div 64 mod 64), byte_of (128 + r mod 64)]
      else [byte_of (240 + r div 262144), byte_of (128 + r div 4096 mod 64), byte_of (128 + r div 64 mod 64), byte_of (128 + r mod 64)])"

definition replacement :: bytes where
  "replacement = [byte_of 239, byte_of 191, byte_of 189]"

text \<open>A text with every invalid byte replaced.\<close>

function to_valid :: "bytes \<Rightarrow> bytes" where
  "to_valid [] = []"
| "to_valid (c # cs) =
     (if ord_of c < 128 then c # to_valid cs
      else if utf8_size (c # cs) = 0 then replacement @ to_valid cs
      else take (utf8_size (c # cs)) (c # cs) @ to_valid (drop (utf8_size (c # cs)) (c # cs)))"
  by pat_completeness auto
termination by (relation "measure length") auto

section \<open>Encoding of strings\<close>

definition u_escape :: "nat \<Rightarrow> bytes" where
  "u_escape n = [byte_of 92, byte_of 117, hex_digit (n div 4096), hex_digit (n div 256 mod 16), hex_digit (n div 16 mod 16), hex_digit (n mod 16)]"

definition quote_ascii :: "nat \<Rightarrow> bytes" where
  "quote_ascii n =
     (if n = 34 \<or> n = 92 then [byte_of 92, byte_of n]
      else if n = 8 then [byte_of 92, byte_of 98]
      else if n = 12 then [byte_of 92, byte_of 102]
      else if n = 10 then [byte_of 92, byte_of 110]
      else if n = 13 then [byte_of 92, byte_of 114]
      else if n = 9 then [byte_of 92, byte_of 116]
      else if n < 32 \<or> n = 38 \<or> n = 60 \<or> n = 62 then u_escape n
      else [byte_of n])"

definition line_sep :: "bytes \<Rightarrow> bool" where
  "line_sep s \<longleftrightarrow> take 2 s = [byte_of 226, byte_of 128] \<and> (s ! 2 = byte_of 168 \<or> s ! 2 = byte_of 169)"

function quote_body :: "bytes \<Rightarrow> bytes" where
  "quote_body [] = []"
| "quote_body (c # cs) =
     (if ord_of c < 128 then quote_ascii (ord_of c) @ quote_body cs
      else if utf8_size (c # cs) = 0 then u_escape 65533 @ quote_body cs
      else
        (let n = utf8_size (c # cs); ch = take n (c # cs) in
         (if n = 3 \<and> line_sep ch then u_escape (if ch ! 2 = byte_of 168 then 8232 else 8233) else ch)
         @ quote_body (drop n (c # cs))))"
  by pat_completeness auto
termination by (relation "measure length") auto

definition json_quote :: "bytes \<Rightarrow> bytes" where
  "json_quote s = byte_of 34 # quote_body s @ [byte_of 34]"

section \<open>Decoding of strings\<close>

definition hex_val :: "char \<Rightarrow> nat option" where
  "hex_val c = (let n = ord_of c in
     if 48 \<le> n \<and> n \<le> 57 then Some (n - 48)
     else if 97 \<le> n \<and> n \<le> 102 then Some (n - 87)
     else if 65 \<le> n \<and> n \<le> 70 then Some (n - 55)
     else None)"

fun hex4 :: "bytes \<Rightarrow> nat option" where
  "hex4 (a # b # c # d # s) =
     (case (hex_val a, hex_val b, hex_val c, hex_val d) of
        (Some w, Some x, Some y, Some z) \<Rightarrow> Some (w * 4096 + x * 256 + y * 16 + z)
      | _ \<Rightarrow> None)"
| "hex4 s = None"

definition simple_escape :: "nat \<Rightarrow> nat option" where
  "simple_escape n =
     (if n = 34 \<or> n = 92 \<or> n = 47 then Some n
      else if n = 98 then Some 8 else if n = 102 then Some 12 else if n = 110 then Some 10
      else if n = 114 then Some 13 else if n = 116 then Some 9 else None)"

text \<open>The character of an escape whose four digits start the text, and the number of bytes of
  the text it takes: a surrogate pair takes the following escape too.\<close>

definition u_rune :: "nat \<Rightarrow> bytes \<Rightarrow> bytes \<times> nat" where
  "u_rune u s =
     (if 55296 \<le> u \<and> u < 57344 then
        (case (if take 2 (drop 4 s) = [byte_of 92, byte_of 117] then hex4 (drop 6 s) else None) of
           Some l \<Rightarrow>
             if u < 56320 \<and> 56320 \<le> l \<and> l < 57344
             then (utf8_encode (65536 + (u - 55296) * 1024 + (l - 56320)), 10)
             else (replacement, 4)
         | None \<Rightarrow> (replacement, 4))
      else (utf8_encode u, 4))"

function unquote :: "bytes \<Rightarrow> (bytes \<times> bytes) option" where
  "unquote [] = None"
| "unquote (c # cs) =
     (if ord_of c = 34 then Some ([], cs)
      else if ord_of c = 92 then
        (case cs of
           [] \<Rightarrow> None
         | e # es \<Rightarrow>
             if ord_of e = 117 then
               (case hex4 es of
                  None \<Rightarrow> None
                | Some u \<Rightarrow> map_option (\<lambda>(t, r). (fst (u_rune u es) @ t, r)) (unquote (drop (snd (u_rune u es)) es)))
             else
               (case simple_escape (ord_of e) of
                  None \<Rightarrow> None
                | Some n \<Rightarrow> map_option (\<lambda>(t, r). (byte_of n # t, r)) (unquote es)))
      else if ord_of c < 32 then None
      else if ord_of c < 128 then map_option (\<lambda>(t, r). (c # t, r)) (unquote cs)
      else if utf8_size (c # cs) = 0 then map_option (\<lambda>(t, r). (replacement @ t, r)) (unquote cs)
      else map_option (\<lambda>(t, r). (take (utf8_size (c # cs)) (c # cs) @ t, r)) (unquote (drop (utf8_size (c # cs)) (c # cs))))"
  by pat_completeness auto
termination by (relation "measure length") auto

section \<open>Round trip of strings\<close>

lemma utf8_size_2: "is2 a b \<Longrightarrow> utf8_size (a # b # t) = 2"
  by (cases t rule: utf8_size.cases) simp_all

lemma utf8_size_3: "\<not> is2 a b \<Longrightarrow> is3 a b c \<Longrightarrow> utf8_size (a # b # c # t) = 3"
  by (cases t) simp_all

lemma utf8_size_local:
  assumes "utf8_size s \<noteq> 0"
  shows "utf8_size s \<le> length s \<and> utf8_size (take (utf8_size s) s @ t) = utf8_size s \<and> 2 \<le> utf8_size s"
  using assms by (cases s rule: utf8_size.cases) (auto simp: utf8_size_2 utf8_size_3 split: if_splits)

lemma hex_val_digit [simp]: "x < 16 \<Longrightarrow> hex_val (hex_digit x) = Some x"
  by (auto simp: hex_val_def hex_digit_def ord_of_def Let_def)

lemma u_escape_unquote:
  assumes "n < 65536" "n < 55296 \<or> 57344 \<le> n"
  shows "unquote (u_escape n @ t) = map_option (\<lambda>(u, r). (utf8_encode n @ u, r)) (unquote t)"
proof -
  have "n div 16 = n div 256 * 16 + n div 16 mod 16" "n div 256 = n div 4096 * 16 + n div 256 mod 16"
    using div_mult_mod_eq [of "n div 16" 16] div_mult_mod_eq [of "n div 256" 16] by (simp_all add: div_mult2_eq [symmetric])
  then have "n div 4096 * 4096 + n div 256 mod 16 * 256 + n div 16 mod 16 * 16 + n mod 16 = n"
    using div_mult_mod_eq [of n 16] by linarith
  then have "hex4 (hex_digit (n div 4096) # hex_digit (n div 256 mod 16) # hex_digit (n div 16 mod 16) # hex_digit (n mod 16) # t) = Some n"
    using assms(1) by (simp add: less_mult_imp_div_less)
  then show ?thesis using assms(2) by (auto simp: u_escape_def u_rune_def)
qed

abbreviation prepend :: "bytes \<Rightarrow> bytes \<times> bytes \<Rightarrow> bytes \<times> bytes" where
  "prepend p \<equiv> (\<lambda>(t, r). (p @ t, r))"

lemma u_escape_ascii: "n < 128 \<Longrightarrow> unquote (u_escape n @ t) = map_option (prepend [byte_of n]) (unquote t)"
  using u_escape_unquote [of n t] by (simp add: utf8_encode_def)

lemma quote_ascii_unquote: "n < 128 \<Longrightarrow> unquote (quote_ascii n @ t) = map_option (prepend [byte_of n]) (unquote t)"
  unfolding quote_ascii_def
  by (simp add: u_escape_ascii simple_escape_def split: if_splits)

lemma valid_unquote:
  assumes "128 \<le> ord_of c" "utf8_size (c # cs) \<noteq> 0"
  shows "unquote (take (utf8_size (c # cs)) (c # cs) @ t) =
    map_option (prepend (take (utf8_size (c # cs)) (c # cs))) (unquote t)"
proof -
  let ?n = "utf8_size (c # cs)"
  have n: "?n \<le> length (c # cs)" "utf8_size (take ?n (c # cs) @ t) = ?n" "2 \<le> ?n"
    using utf8_size_local [OF assms(2), of t] by simp_all
  then obtain k where k: "?n = Suc k" by (cases ?n) simp_all
  have "utf8_size (c # take k cs @ t) = Suc k" using n(2) k by simp
  then show ?thesis using assms(1) n(1) k by simp
qed

lemma sep_encode: "utf8_encode 8232 = [byte_of 226, byte_of 128, byte_of 168]" "utf8_encode 8233 = [byte_of 226, byte_of 128, byte_of 169]"
  "utf8_encode 65533 = replacement"
  by (simp_all add: utf8_encode_def replacement_def)

lemma line_sepD: "length ch = 3 \<Longrightarrow> line_sep ch \<Longrightarrow> utf8_encode (if ch ! 2 = byte_of 168 then 8232 else 8233) = ch"
  by (auto simp: line_sep_def sep_encode numeral_3_eq_3 length_Suc_conv)

theorem unquote_quote: "unquote (quote_body s @ byte_of 34 # rest) = Some (to_valid s, rest)"
proof (induction s rule: quote_body.induct)
  case (2 c cs)
  let ?n = "utf8_size (c # cs)" let ?ch = "take ?n (c # cs)"
  consider (ascii) "ord_of c < 128" | (bad) "128 \<le> ord_of c" "?n = 0" | (ok) "128 \<le> ord_of c" "?n \<noteq> 0" by linarith
  then show ?case
  proof cases
    case ascii
    then show ?thesis using 2(1) by (simp add: quote_ascii_unquote)
  next
    case bad
    then show ?thesis using 2(2) by (simp add: u_escape_unquote sep_encode)
  next
    case ok
    define more where "more = drop ?n (c # cs)"
    have IH: "unquote (quote_body more @ byte_of 34 # rest) = Some (to_valid more, rest)"
      using 2(3) ok by (simp add: more_def)
    define ch where "ch = ?ch"
    define esc where "esc = (if ch ! 2 = byte_of 168 then 8232 else 8233 :: nat)"
    have q: "quote_body (c # cs) = (if ?n = 3 \<and> line_sep ch then u_escape esc else ch) @ quote_body more"
      unfolding quote_body.simps(2) Let_def ch_def [symmetric] more_def [symmetric] esc_def
      using ok by (simp only: not_less [symmetric] if_False simp_thms)
    have v: "to_valid (c # cs) = ch @ to_valid more" using ok by (simp add: ch_def more_def)
    have plain: "unquote (ch @ t) = map_option (prepend ch) (unquote t)" for t
      unfolding ch_def by (rule valid_unquote [OF ok])
    have "unquote (u_escape esc @ t) = map_option (prepend ch) (unquote t)" if "?n = 3 \<and> line_sep ch" for t
    proof -
      have "length ch = 3" using utf8_size_local [OF ok(2), of "[]"] that by (simp add: ch_def)
      then have "utf8_encode esc = ch" using line_sepD that unfolding esc_def by blast
      moreover have "esc < 55296" by (simp add: esc_def)
      ultimately show ?thesis using u_escape_unquote [of esc t] by simp
    qed
    then show ?thesis using IH plain unfolding q v by (cases "?n = 3 \<and> line_sep ch") auto
  qed
qed simp

lemma to_valid_ascii: "(\<And>c. c \<in> set s \<Longrightarrow> ord_of c < 128) \<Longrightarrow> to_valid s = s"
  by (induction s) simp_all

section \<open>Values\<close>

text \<open>A number is kept as its literal.\<close>

datatype jvalue = JvNull | JvBool bool | JvNum bytes | JvStr bytes | JvArr "jvalue list" | JvObj "(bytes \<times> jvalue) list"

definition json_ws :: "char \<Rightarrow> bool" where
  "json_ws c \<longleftrightarrow> ord_of c \<in> {32, 9, 10, 13}"

definition skip_ws :: "bytes \<Rightarrow> bytes" where
  "skip_ws s = dropWhile json_ws s"

definition digits1 :: "bytes \<Rightarrow> (bytes \<times> bytes) option" where
  "digits1 s = (if takeWhile is_digit s = [] then None else Some (takeWhile is_digit s, dropWhile is_digit s))"

definition int_part :: "bytes \<Rightarrow> (bytes \<times> bytes) option" where
  "int_part s =
     (case s of
        [] \<Rightarrow> None
      | c # cs \<Rightarrow> if ord_of c = 48 then Some ([c], cs) else digits1 s)"

definition frac_part :: "bytes \<Rightarrow> (bytes \<times> bytes) option" where
  "frac_part s =
     (case s of
        [] \<Rightarrow> Some ([], [])
      | c # cs \<Rightarrow> if ord_of c = 46 then map_option (\<lambda>(d, r). (c # d, r)) (digits1 cs) else Some ([], s))"

definition exp_part :: "bytes \<Rightarrow> (bytes \<times> bytes) option" where
  "exp_part s =
     (case s of
        [] \<Rightarrow> Some ([], [])
      | c # cs \<Rightarrow>
          if ord_of c = 101 \<or> ord_of c = 69 then
            (case cs of
               [] \<Rightarrow> None
             | g # gs \<Rightarrow>
                 if ord_of g = 43 \<or> ord_of g = 45 then map_option (\<lambda>(d, r). (c # g # d, r)) (digits1 gs)
                 else map_option (\<lambda>(d, r). (c # d, r)) (digits1 cs))
          else Some ([], s))"

definition num_lit :: "bytes \<Rightarrow> (bytes \<times> bytes) option" where
  "num_lit s =
     (let (sgn, s0) = (case s of [] \<Rightarrow> ([], []) | c # cs \<Rightarrow> if ord_of c = 45 then ([c], cs) else ([], s)) in
      case int_part s0 of
        None \<Rightarrow> None
      | Some (i, s1) \<Rightarrow>
          (case frac_part s1 of
             None \<Rightarrow> None
           | Some (f, s2) \<Rightarrow>
               (case exp_part s2 of
                  None \<Rightarrow> None
                | Some (e, s3) \<Rightarrow> Some (sgn @ i @ f @ e, s3))))"

definition maxNestingDepth :: nat where
  "maxNestingDepth = 10000"

text \<open>Every call of the parser consumes at least one byte, so twice the length of the text is enough
  fuel. The second argument is the nesting depth.\<close>

fun parse_value :: "nat \<Rightarrow> nat \<Rightarrow> bytes \<Rightarrow> (jvalue \<times> bytes) option"
  and parse_members :: "nat \<Rightarrow> nat \<Rightarrow> bytes \<Rightarrow> ((bytes \<times> jvalue) list \<times> bytes) option"
  and parse_elements :: "nat \<Rightarrow> nat \<Rightarrow> bytes \<Rightarrow> (jvalue list \<times> bytes) option" where
  "parse_value 0 d s = None"
| "parse_value (Suc n) d s =
     (case skip_ws s of
        [] \<Rightarrow> None
      | c # cs \<Rightarrow>
          if ord_of c = 34 then map_option (\<lambda>(t, r). (JvStr t, r)) (unquote cs)
          else if ord_of c = 123 then
            if d \<ge> maxNestingDepth then None
            else if take 1 (skip_ws cs) = [byte_of 125] then Some (JvObj [], drop 1 (skip_ws cs))
            else map_option (\<lambda>(ms, r). (JvObj ms, r)) (parse_members n (Suc d) cs)
          else if ord_of c = 91 then
            if d \<ge> maxNestingDepth then None
            else if take 1 (skip_ws cs) = [byte_of 93] then Some (JvArr [], drop 1 (skip_ws cs))
            else map_option (\<lambda>(vs, r). (JvArr vs, r)) (parse_elements n (Suc d) cs)
          else if has_prefix (c # cs) ''null'' then Some (JvNull, drop 4 (c # cs))
          else if has_prefix (c # cs) ''true'' then Some (JvBool True, drop 4 (c # cs))
          else if has_prefix (c # cs) ''false'' then Some (JvBool False, drop 5 (c # cs))
          else map_option (\<lambda>(l, r). (JvNum l, r)) (num_lit (c # cs)))"
| "parse_members 0 d s = None"
| "parse_members (Suc n) d s =
     (case skip_ws s of
        [] \<Rightarrow> None
      | c # cs \<Rightarrow>
          if ord_of c \<noteq> 34 then None
          else
            (case unquote cs of
               None \<Rightarrow> None
             | Some (k, s1) \<Rightarrow>
                 (case skip_ws s1 of
                    [] \<Rightarrow> None
                  | c1 # s2 \<Rightarrow>
                      if ord_of c1 \<noteq> 58 then None
                      else
                        (case parse_value n d s2 of
                           None \<Rightarrow> None
                         | Some (v, s3) \<Rightarrow>
                             (case skip_ws s3 of
                                [] \<Rightarrow> None
                              | c2 # s4 \<Rightarrow>
                                  if ord_of c2 = 125 then Some ([(k, v)], s4)
                                  else if ord_of c2 = 44 then map_option (\<lambda>(ms, r). ((k, v) # ms, r)) (parse_members n d s4)
                                  else None)))))"
| "parse_elements 0 d s = None"
| "parse_elements (Suc n) d s =
     (case parse_value n d s of
        None \<Rightarrow> None
      | Some (v, s1) \<Rightarrow>
          (case skip_ws s1 of
             [] \<Rightarrow> None
           | c # s2 \<Rightarrow>
               if ord_of c = 93 then Some ([v], s2)
               else if ord_of c = 44 then map_option (\<lambda>(vs, r). (v # vs, r)) (parse_elements n d s2)
               else None))"

definition json_parse :: "bytes \<Rightarrow> jvalue option" where
  "json_parse s =
     (case parse_value (Suc (2 * length s)) 0 s of
        None \<Rightarrow> None
      | Some (v, r) \<Rightarrow> if skip_ws r = [] then Some v else None)"

section \<open>Integers\<close>

definition itoa_int :: "int \<Rightarrow> bytes" where
  "itoa_int i = (if i < 0 then byte_of 45 # itoa (nat (- i)) else itoa (nat i))"

text \<open>\<^verbatim>\<open>strconv.ParseInt(lit, 10, 64)\<close> on a JSON number literal.\<close>

definition parse_int64 :: "bytes \<Rightarrow> int option" where
  "parse_int64 s =
     (let (neg, ds) = (case s of [] \<Rightarrow> (False, []) | c # cs \<Rightarrow> if ord_of c = 45 then (True, cs) else (False, s));
          i = (if neg then - int (atoi_digits ds) else int (atoi_digits ds))
      in if ds = [] \<or> \<not> list_all is_digit ds \<or> i < - (2 ^ 63) \<or> i \<ge> 2 ^ 63 then None else Some i)"

lemma digit_ord: "is_digit c \<Longrightarrow> 48 \<le> ord_of c \<and> ord_of c \<le> 57"
  by (simp add: is_digit_def ord_of_def)

lemma itoa_hd_digit: "is_digit (hd (itoa n))"
  by (rule itoa_digits [of _ n]) simp

lemma parse_itoa_int:
  assumes "- (2 ^ 63) \<le> i" "i < 2 ^ 63"
  shows "parse_int64 (itoa_int i) = Some i"
proof (cases "i < 0")
  case True
  then show ?thesis using assms by (simp add: parse_int64_def itoa_int_def list_all_iff itoa_digits)
next
  case False
  obtain c cs where c: "itoa (nat i) = c # cs" using itoa_not_Nil by (meson neq_Nil_conv)
  then have d: "is_digit c" by (metis itoa_hd_digit list.sel(1))
  then have "ord_of c \<noteq> 45" using digit_ord by fastforce
  moreover have "list_all is_digit (c # cs)" unfolding c [symmetric] by (simp add: list_all_iff itoa_digits)
  moreover have "atoi_digits (c # cs) = nat i" unfolding c [symmetric] by simp
  ultimately show ?thesis using False assms by (simp add: parse_int64_def itoa_int_def c)
qed

section \<open>The fuel is enough\<close>

lemma u_rune_pos: "0 < snd (u_rune u s)"
  by (auto simp: u_rune_def split: option.splits)

lemma unquote_shorter: "unquote s = Some (t, r) \<Longrightarrow> length r < length s"
proof (induction s arbitrary: t r rule: unquote.induct)
  case (2 c cs)
  let ?n = "utf8_size (c # cs)"
  consider (q) "ord_of c = 34" | (esc) "ord_of c = 92" | (ctl) "ord_of c < 32"
    | (plain) "ord_of c \<noteq> 34" "ord_of c \<noteq> 92" "\<not> ord_of c < 32" "ord_of c < 128"
    | (bad) "\<not> ord_of c < 128" "?n = 0" | (ok) "\<not> ord_of c < 128" "?n \<noteq> 0"
    by linarith
  then show ?case
  proof cases
    case esc
    then obtain e es where cs: "cs = e # es" using "2.prems" by (cases cs) auto
    show ?thesis
    proof (cases "ord_of e = 117")
      case True
      then obtain u where u: "hex4 es = Some u" using "2.prems" esc cs by (auto split: option.splits)
      then obtain t' where "unquote (drop (snd (u_rune u es)) es) = Some (t', r)"
        using "2.prems" esc cs True by auto
      then have "length r < length (drop (snd (u_rune u es)) es)" using "2.IH"(1) esc cs True u by simp
      then show ?thesis using cs by simp
    next
      case False
      then obtain m where u: "simple_escape (ord_of e) = Some m" using "2.prems" esc cs by (auto split: option.splits)
      then obtain t' where "unquote es = Some (t', r)" using "2.prems" esc cs False by auto
      then show ?thesis using "2.IH"(2) esc cs False u by fastforce
    qed
  next
    case ok
    then obtain t' where "unquote (drop ?n (c # cs)) = Some (t', r)" using "2.prems" by auto
    then have "length r < length (drop ?n (c # cs))" using "2.IH"(5) ok by auto
    then show ?thesis using ok utf8_size_local [OF ok(2), of "[]"] by simp
  qed (use 2 in fastforce)+
qed simp

lemma digits1_shorter:
  assumes "digits1 s = Some (d, r)"
  shows "length r < length s"
proof -
  have "length s = length (takeWhile is_digit s) + length (dropWhile is_digit s)"
    by (metis length_append takeWhile_dropWhile_id)
  then show ?thesis using assms by (auto simp: digits1_def split: if_splits)
qed

lemma num_lit_shorter: "num_lit s = Some (l, r) \<Longrightarrow> length r < length s"
proof -
  assume lit: "num_lit s = Some (l, r)"
  define s0 where "s0 = snd (case s of [] \<Rightarrow> ([], []) | c # cs \<Rightarrow> if ord_of c = 45 then ([c], cs) else ([], s))"
  have s0: "length s0 \<le> length s" by (auto simp: s0_def split: list.splits)
  from lit obtain i s1 f s2 e where parts: "int_part s0 = Some (i, s1)" "frac_part s1 = Some (f, s2)" "exp_part s2 = Some (e, r)"
    by (auto simp: num_lit_def s0_def split: option.splits prod.splits list.splits if_splits)
  have "length s1 < length s0" using parts(1) by (auto simp: int_part_def dest: digits1_shorter split: list.splits if_splits)
  moreover have "length s2 \<le> length s1" using parts(2) by (auto simp: frac_part_def dest: digits1_shorter split: list.splits if_splits)
  moreover have "length r \<le> length s2" using parts(3) by (auto simp: exp_part_def dest!: digits1_shorter split: list.splits if_splits)
  ultimately show ?thesis using s0 by linarith
qed

lemma skip_ws_length: "length (skip_ws s) \<le> length s"
  by (simp add: skip_ws_def length_dropWhile_le)

lemma skip_ws_ConsD: "skip_ws s = c # cs \<Longrightarrow> length cs < length s"
  using skip_ws_length [of s] by simp

lemma parse_shorter:
  "parse_value n d s = Some (v, r) \<Longrightarrow> length r < length s"
  "parse_members n d s = Some (ms, r) \<Longrightarrow> length r < length s"
  "parse_elements n d s = Some (vs, r) \<Longrightarrow> length r < length s"
proof (induction n d s and n d s and n d s arbitrary: v r and ms r and vs r rule: parse_value_parse_members_parse_elements.induct)
  case (2 n d s)
  obtain c cs where c: "skip_ws s = c # cs" using "2.prems" by (auto split: list.splits)
  have ws: "length cs < length s" using skip_ws_ConsD [OF c] .
  have le: "length (skip_ws cs) \<le> length cs" by (rule skip_ws_length)
  show ?case
    using 2 c ws le
    by (auto dest!: unquote_shorter num_lit_shorter split: if_splits) (metis less_trans)+
next
  case (4 n d s)
  from "4.prems" obtain c cs where c: "skip_ws s = c # cs" "ord_of c = 34" by (auto split: list.splits if_splits)
  with "4.prems" obtain k s1 where k: "unquote cs = Some (k, s1)" by (auto split: option.splits)
  with "4.prems" c obtain c1 s2 where s2: "skip_ws s1 = c1 # s2" "ord_of c1 = 58" by (auto split: list.splits if_splits)
  with "4.prems" c k obtain v s3 where v: "parse_value n d s2 = Some (v, s3)" by (auto split: option.splits)
  with "4.prems" c k s2 obtain c2 s4 where s4: "skip_ws s3 = c2 # s4" by (auto split: list.splits)
  have "length s3 < length s2" using "4.IH"(1) [OF c(1)] c k s2 v by simp
  moreover have "length r \<le> length s4"
    using "4.prems" "4.IH"(2) [OF c(1)] c k s2 v s4 by (fastforce split: if_splits)
  ultimately show ?case
    using skip_ws_ConsD [OF c(1)] unquote_shorter [OF k] skip_ws_ConsD [OF s2(1)] skip_ws_ConsD [OF s4] by linarith
next
  case (6 n d s)
  from "6.prems" obtain v s1 where v: "parse_value n d s = Some (v, s1)" by (auto split: option.splits)
  with "6.prems" obtain c s2 where s2: "skip_ws s1 = c # s2" by (auto split: list.splits)
  have "length s1 < length s" using "6.IH"(1) v by simp
  moreover have "length r \<le> length s2"
    using "6.prems" "6.IH"(2) [OF v] v s2 by (fastforce split: if_splits)
  ultimately show ?case using skip_ws_ConsD [OF s2] by linarith
qed simp_all

lemma parse_fuel:
  "2 * length s < n \<Longrightarrow> n \<le> m \<Longrightarrow> parse_value m d s = parse_value n d s"
  "Suc (2 * length s) < n \<Longrightarrow> n \<le> m \<Longrightarrow> parse_members m d s = parse_members n d s"
  "Suc (2 * length s) < n \<Longrightarrow> n \<le> m \<Longrightarrow> parse_elements m d s = parse_elements n d s"
proof (induction n d s and n d s and n d s arbitrary: m and m and m rule: parse_value_parse_members_parse_elements.induct)
  case (2 n d s)
  from "2.prems"(2) obtain m' where m: "m = Suc m'" "n \<le> m'" by (cases m) auto
  show ?case
  proof (cases "skip_ws s")
    case (Cons c cs)
    have "length cs < length s" using skip_ws_ConsD [OF Cons] .
    then have "Suc (2 * length cs) < n" using "2.prems" by linarith
    then have "ord_of c = 123 \<Longrightarrow> \<not> maxNestingDepth \<le> d \<Longrightarrow> take 1 (skip_ws cs) \<noteq> [byte_of 125] \<Longrightarrow>
        parse_members m' (Suc d) cs = parse_members n (Suc d) cs"
      "ord_of c \<noteq> 123 \<Longrightarrow> ord_of c = 91 \<Longrightarrow> \<not> maxNestingDepth \<le> d \<Longrightarrow> take 1 (skip_ws cs) \<noteq> [byte_of 93] \<Longrightarrow>
        parse_elements m' (Suc d) cs = parse_elements n (Suc d) cs"
      using "2.IH"(1) [OF Cons, of m'] "2.IH"(2) [OF Cons, of m'] m(2) by simp_all
    then show ?thesis using Cons m(1) by simp
  qed (simp add: m)
next
  case (4 n d s)
  from "4.prems"(2) obtain m' where m: "m = Suc m'" "n \<le> m'" by (cases m) auto
  show ?case
  proof (cases "skip_ws s")
    case (Cons c cs)
    show ?thesis
    proof (cases "unquote cs")
      case (Some ks)
      obtain k s1 where ks: "ks = (k, s1)" by (cases ks)
      show ?thesis
      proof (cases "skip_ws s1")
        case s1: (Cons c1 s2)
        have len: "length s2 < length s"
          using skip_ws_ConsD [OF Cons] skip_ws_ConsD [OF s1] unquote_shorter [of cs k s1] Some ks by simp
        have v: "ord_of c = 34 \<Longrightarrow> ord_of c1 = 58 \<Longrightarrow> parse_value m' d s2 = parse_value n d s2"
          by (rule "4.IH"(1) [OF Cons _ Some ks [symmetric] s1]) (use len "4.prems" m(2) in simp_all)
        have ms: "parse_members m' d s4 = parse_members n d s4"
          if "ord_of c = 34" "ord_of c1 = 58" "parse_value n d s2 = Some (x, s3)" "skip_ws s3 = c2 # s4" "ord_of c2 = 44" for x s3 c2 s4
        proof -
          have "length s4 < length s" using len parse_shorter(1) [OF that(3)] skip_ws_ConsD [OF that(4)] by simp
          then show ?thesis
            by (intro "4.IH"(2) [OF Cons _ Some ks [symmetric] s1 _ that(3) refl that(4)]) (use that "4.prems" m(2) in simp_all)
        qed
        show ?thesis using m Cons Some ks s1 v ms by (auto split: option.splits list.splits)
      qed (simp add: m Cons Some ks)
    qed (simp add: m Cons)
  qed (simp add: m)
next
  case (6 n d s)
  from "6.prems"(2) obtain m' where m: "m = Suc m'" "n \<le> m'" by (cases m) auto
  have v: "parse_value m' d s = parse_value n d s" by (rule "6.IH"(1)) (use "6.prems" m(2) in simp_all)
  have es: "parse_elements m' d s2 = parse_elements n d s2"
    if "parse_value n d s = Some (x, s1)" "skip_ws s1 = c # s2" "ord_of c = 44" for x s1 c s2
  proof -
    have "length s2 < length s" using parse_shorter(1) [OF that(1)] skip_ws_ConsD [OF that(2)] by simp
    then show ?thesis by (intro "6.IH"(2) [OF that(1) refl that(2)]) (use that "6.prems" m(2) in simp_all)
  qed
  show ?case using m v es by (auto split: option.splits list.splits)
qed simp_all

corollary json_parse_fuel:
  "2 * length s < n \<Longrightarrow> parse_value n 0 s = parse_value (Suc (2 * length s)) 0 s"
  by (rule parse_fuel(1)) simp_all

section \<open>Parsing what the encoder prints\<close>

lemma skip_ws_Cons [simp]: "\<not> json_ws c \<Longrightarrow> skip_ws (c # s) = c # s"
  by (simp add: skip_ws_def)

lemma json_ws_byte [simp]: "n < 256 \<Longrightarrow> json_ws (byte_of n) \<longleftrightarrow> n \<in> {32, 9, 10, 13}"
  by (simp add: json_ws_def)

lemma skip_ws_Nil [simp]: "skip_ws [] = []"
  by (simp add: skip_ws_def)

lemma parse_quoted: "parse_value (Suc n) d (json_quote s @ r) = Some (JvStr (to_valid s), r)"
  by (simp add: json_quote_def unquote_quote)

lemma itoa_zero: "hd (itoa n) = digit_char 0 \<longleftrightarrow> n = 0"
proof (induction n rule: itoa.induct)
  case (1 n)
  show ?case
  proof (cases "n < 10")
    case True
    then have "digit_char n = digit_char 0 \<longleftrightarrow> n = 0" by (metis digit_val_digit_char zero_less_numeral)
    then show ?thesis using True by (subst itoa.simps) simp
  next
    case False
    then show ?thesis using 1 by (subst itoa.simps) (simp add: Let_def)
  qed
qed

lemma int_part_itoa:
  assumes "\<not> is_digit c"
  shows "int_part (itoa n @ c # r) = Some (itoa n, c # r)"
proof -
  obtain x xs where x: "itoa n = x # xs" using itoa_not_Nil by (meson neq_Nil_conv)
  have all: "list_all is_digit (itoa n)" by (simp add: list_all_iff itoa_digits)
  have "takeWhile is_digit (itoa n @ c # r) = itoa n" "dropWhile is_digit (itoa n @ c # r) = c # r"
    using all assms by (simp_all add: takeWhile_append2 dropWhile_append2 list_all_iff)
  then have "digits1 (itoa n @ c # r) = Some (itoa n, c # r)" by (simp add: digits1_def x)
  moreover have "itoa n = [x]" if "ord_of x = 48"
  proof -
    have "x = byte_of 48" using byte_of_ord_of [of x] that by simp
    then have "x = digit_char 0" by (simp add: digit_char_def byte_of_def)
    then have "n = 0" using itoa_zero [of n] x by simp
    then have "itoa n = [digit_char 0]" by (simp add: itoa.simps)
    then show ?thesis using x by simp
  qed
  ultimately show ?thesis using x by (auto simp: int_part_def)
qed

lemma num_lit_itoa:
  assumes "c = byte_of 44 \<or> c = byte_of 125"
  shows "num_lit (itoa_int i @ c # r) = Some (itoa_int i, c # r)"
proof -
  have c: "\<not> is_digit c" "ord_of c \<noteq> 46" "ord_of c \<noteq> 101" "ord_of c \<noteq> 69"
    using assms by (auto simp: is_digit_def byte_of_def ord_of_def)
  note ip = int_part_itoa [OF c(1), of _ r]
  have "ord_of (hd (itoa n)) \<noteq> 45" for n using digit_ord [OF itoa_hd_digit, of n] by linarith
  moreover obtain x xs where "itoa (nat i) = x # xs" using itoa_not_Nil by (meson neq_Nil_conv)
  ultimately show ?thesis
    using ip [of "nat i"] ip [of "nat (- i)"] c
    by (auto simp: num_lit_def itoa_int_def frac_part_def exp_part_def Let_def) (metis list.sel(1))
qed

lemma parse_number:
  assumes "c = byte_of 44 \<or> c = byte_of 125"
  shows "parse_value (Suc n) d (itoa_int i @ c # r) = Some (JvNum (itoa_int i), c # r)"
proof -
  obtain x xs where x: "itoa_int i @ c # r = x # xs" "ord_of x = 45 \<or> 48 \<le> ord_of x \<and> ord_of x \<le> 57"
  proof -
    have "48 \<le> ord_of (hd (itoa m)) \<and> ord_of (hd (itoa m)) \<le> 57" for m by (rule digit_ord) (rule itoa_hd_digit)
    then show thesis
      using that by (cases "i < 0"; cases "itoa (nat i)") (auto simp: itoa_int_def split: if_splits, metis list.sel(1))
  qed
  have "\<not> json_ws x" "ord_of x \<noteq> 34" "ord_of x \<noteq> 123" "ord_of x \<noteq> 91" using x(2) by (auto simp: json_ws_def)
  moreover have "x \<noteq> CHR ''n''" "x \<noteq> CHR ''t''" "x \<noteq> CHR ''f''" using x(2) by (auto simp: ord_of_def)
  ultimately show ?thesis using num_lit_itoa [OF assms, of i r] by (simp add: x(1) has_prefix_def)
qed

lemma parse_member:
  assumes "parse_value n d vs = Some (v, byte_of 44 # more)"
  shows "parse_members (Suc n) d (json_quote k @ byte_of 58 # vs) =
    map_option (\<lambda>(ms, r). ((to_valid k, v) # ms, r)) (parse_members n d more)"
  using assms by (simp add: json_quote_def unquote_quote)

lemma parse_last_member:
  assumes "parse_value n d vs = Some (v, byte_of 125 # more)"
  shows "parse_members (Suc n) d (json_quote k @ byte_of 58 # vs) = Some ([(to_valid k, v)], more)"
  using assms by (simp add: json_quote_def unquote_quote)

end
