(* ===== verification/Manifest_Token.thy ===== *)
theory Manifest_Token
  imports Go_Json Sha256
begin

text \<open>
  Manifest tokens: \<^verbatim>\<open>internal/core/manifest_token.go\<close>. A token is the base-64 text of a JSON
  object, a dot, and the base-64 text of its HMAC-SHA-256. Times are Unix seconds in 64 bits,
  and the clock is an argument.
\<close>

section \<open>Claims\<close>

definition manifestTokenTTL :: int where
  "manifestTokenTTL = 3600"

definition errInvalidToken :: go_error where
  "errInvalidToken = Plain ''invalid or expired token''"

record manifestTokenClaims =
  mc_Sub :: gostring
  mc_Cluster :: gostring
  mc_Iat :: int64
  mc_Exp :: int64

definition zero_claims :: manifestTokenClaims where
  "zero_claims = \<lparr>mc_Sub = [], mc_Cluster = [], mc_Iat = 0, mc_Exp = 0\<rparr>"

text \<open>\<^verbatim>\<open>json.Marshal\<close> and \<^verbatim>\<open>json.Unmarshal\<close> of the claims. A key selects a field when it is equal
  up to case folding, in which U+017F folds to s and U+212A to k.\<close>

definition marshal_claims :: "manifestTokenClaims \<Rightarrow> bytes" where
  "marshal_claims c =
     byte_of 123 # json_quote ''sub'' @ byte_of 58 # json_quote (mc_Sub c) @
     byte_of 44 # json_quote ''cluster'' @ byte_of 58 # json_quote (mc_Cluster c) @
     byte_of 44 # json_quote ''iat'' @ byte_of 58 # itoa_int (sint (mc_Iat c)) @
     byte_of 44 # json_quote ''exp'' @ byte_of 58 # itoa_int (sint (mc_Exp c)) @ [byte_of 125]"

fun fold_name :: "bytes \<Rightarrow> bytes" where
  "fold_name (a # b # c # s) =
     (if ord_of a = 197 \<and> ord_of b = 191 then CHR ''s'' # fold_name (c # s)
      else if ord_of a = 226 \<and> ord_of b = 132 \<and> ord_of c = 170 then CHR ''k'' # fold_name s
      else ascii_lower a # fold_name (b # c # s))"
| "fold_name [a, b] = (if ord_of a = 197 \<and> ord_of b = 191 then ''s'' else [ascii_lower a, ascii_lower b])"
| "fold_name [a] = [ascii_lower a]"
| "fold_name [] = []"

definition string_field :: "(gostring \<Rightarrow> manifestTokenClaims) \<Rightarrow> jvalue \<Rightarrow> manifestTokenClaims \<Rightarrow> manifestTokenClaims option" where
  "string_field upd v c = (case v of JvStr s \<Rightarrow> Some (upd s) | JvNull \<Rightarrow> Some c | _ \<Rightarrow> None)"

definition int_field :: "(int64 \<Rightarrow> manifestTokenClaims) \<Rightarrow> jvalue \<Rightarrow> manifestTokenClaims \<Rightarrow> manifestTokenClaims option" where
  "int_field upd v c =
     (case v of
        JvNum l \<Rightarrow> map_option (\<lambda>i. upd (word_of_int i)) (parse_int64 l)
      | JvNull \<Rightarrow> Some c
      | _ \<Rightarrow> None)"

definition set_claim :: "bytes \<Rightarrow> jvalue \<Rightarrow> manifestTokenClaims \<Rightarrow> manifestTokenClaims option" where
  "set_claim k v c =
     (if fold_name k = ''sub'' then string_field (\<lambda>s. c\<lparr>mc_Sub := s\<rparr>) v c
      else if fold_name k = ''cluster'' then string_field (\<lambda>s. c\<lparr>mc_Cluster := s\<rparr>) v c
      else if fold_name k = ''iat'' then int_field (\<lambda>i. c\<lparr>mc_Iat := i\<rparr>) v c
      else if fold_name k = ''exp'' then int_field (\<lambda>i. c\<lparr>mc_Exp := i\<rparr>) v c
      else Some c)"

fun set_claims :: "(bytes \<times> jvalue) list \<Rightarrow> manifestTokenClaims \<Rightarrow> manifestTokenClaims option" where
  "set_claims [] c = Some c"
| "set_claims ((k, v) # ms) c = (case set_claim k v c of None \<Rightarrow> None | Some c' \<Rightarrow> set_claims ms c')"

definition unmarshal_claims :: "bytes \<Rightarrow> manifestTokenClaims option" where
  "unmarshal_claims s =
     (case json_parse s of
        Some (JvObj ms) \<Rightarrow> set_claims ms zero_claims
      | Some JvNull \<Rightarrow> Some zero_claims
      | _ \<Rightarrow> None)"

section \<open>The issuer\<close>

record ManifestTokenIssuer =
  hmacKey :: bytes

definition NewManifestTokenIssuer :: "bytes \<Rightarrow> ManifestTokenIssuer res" where
  "NewManifestTokenIssuer key =
     (if key = [] then Inl (Plain ''manifest token issuer: HMAC key is required'') else Inr \<lparr>hmacKey = key\<rparr>)"

definition Issue :: "ManifestTokenIssuer \<Rightarrow> int64 \<Rightarrow> gostring \<Rightarrow> gostring \<Rightarrow> gostring" where
  "Issue i now cluster userName =
     (let claims = \<lparr>mc_Sub = userName, mc_Cluster = cluster, mc_Iat = now, mc_Exp = now + word_of_int manifestTokenTTL\<rparr>;
          payload = marshal_claims claims;
          sig = hmac_sha256 (hmacKey i) payload
      in b64_encode payload @ ''.'' @ b64_encode sig)"

datatype verify_error =
    MalformedToken | DecodePayload | DecodeSignature | InvalidSignature | ParseClaims
  | TokenExpired | IssuedInFuture | TokenTooOld

definition clockSkew :: int64 where
  "clockSkew = 300"

definition maxAge :: int64 where
  "maxAge = word_of_int manifestTokenTTL + clockSkew"

definition verifyDetailed :: "ManifestTokenIssuer \<Rightarrow> int64 \<Rightarrow> gostring \<Rightarrow> verify_error + (gostring \<times> gostring)" where
  "verifyDetailed i now token =
     (case split_n2 CHR ''.'' token of
        [p0, p1] \<Rightarrow>
          (case b64_decode p0 of
             None \<Rightarrow> Inl DecodePayload
           | Some payloadBytes \<Rightarrow>
               (case b64_decode p1 of
                  None \<Rightarrow> Inl DecodeSignature
                | Some sig \<Rightarrow>
                    if sig \<noteq> hmac_sha256 (hmacKey i) payloadBytes then Inl InvalidSignature
                    else
                      (case unmarshal_claims payloadBytes of
                         None \<Rightarrow> Inl ParseClaims
                       | Some claims \<Rightarrow>
                           if sint now > sint (mc_Exp claims) then Inl TokenExpired
                           else if sint (mc_Iat claims) > sint (now + clockSkew) then Inl IssuedInFuture
                           else if sint (now - mc_Iat claims) > sint maxAge then Inl TokenTooOld
                           else Inr (mc_Cluster claims, mc_Sub claims))))
      | _ \<Rightarrow> Inl MalformedToken)"

definition Verify :: "ManifestTokenIssuer \<Rightarrow> int64 \<Rightarrow> gostring \<Rightarrow> (gostring \<times> gostring) res" where
  "Verify i now token =
     (case verifyDetailed i now token of
        Inl _ \<Rightarrow> Inl errInvalidToken
      | Inr r \<Rightarrow> Inr r)"

section \<open>Lemmas\<close>

lemma to_valid_keys:
  "to_valid ''sub'' = ''sub''" "to_valid ''cluster'' = ''cluster''" "to_valid ''iat'' = ''iat''" "to_valid ''exp'' = ''exp''"
  by (rule to_valid_ascii, simp add: ord_of_def, elim disjE; simp)+

lemma fold_keys: "fold_name ''sub'' = ''sub''" "fold_name ''cluster'' = ''cluster''" "fold_name ''iat'' = ''iat''" "fold_name ''exp'' = ''exp''"
  by code_simp+

lemma set_claim_keys:
  "set_claim ''sub'' v c = string_field (\<lambda>s. c\<lparr>mc_Sub := s\<rparr>) v c"
  "set_claim ''cluster'' v c = string_field (\<lambda>s. c\<lparr>mc_Cluster := s\<rparr>) v c"
  "set_claim ''iat'' v c = int_field (\<lambda>i. c\<lparr>mc_Iat := i\<rparr>) v c"
  "set_claim ''exp'' v c = int_field (\<lambda>i. c\<lparr>mc_Exp := i\<rparr>) v c"
  unfolding set_claim_def fold_keys by simp_all

lemma parse_claims_members:
  "parse_members (Suc (Suc (Suc (Suc (Suc n))))) d
     (json_quote ''sub'' @ byte_of 58 # json_quote sub @ byte_of 44 # json_quote ''cluster'' @ byte_of 58 # json_quote cl @
      byte_of 44 # json_quote ''iat'' @ byte_of 58 # itoa_int i @
      byte_of 44 # json_quote ''exp'' @ byte_of 58 # itoa_int e @ byte_of 125 # r) =
   Some ([(''sub'', JvStr (to_valid sub)), (''cluster'', JvStr (to_valid cl)), (''iat'', JvNum (itoa_int i)),
          (''exp'', JvNum (itoa_int e))], r)"
proof -
  have 4: "parse_members (Suc (Suc n)) d (json_quote ''exp'' @ byte_of 58 # itoa_int e @ byte_of 125 # r) =
      Some ([(''exp'', JvNum (itoa_int e))], r)"
    using parse_last_member [OF parse_number, where k = "''exp''"] unfolding to_valid_keys by blast
  have 3: "parse_members (Suc (Suc (Suc n))) d (json_quote ''iat'' @ byte_of 58 # itoa_int i @ byte_of 44 # m) =
      map_option (\<lambda>(ms, r). ((''iat'', JvNum (itoa_int i)) # ms, r)) (parse_members (Suc (Suc n)) d m)" for m
    using parse_member [OF parse_number, where k = "''iat''"] unfolding to_valid_keys by blast
  have 2: "parse_members (Suc (Suc k)) d (json_quote ''cluster'' @ byte_of 58 # json_quote cl @ byte_of 44 # m) =
      map_option (\<lambda>(ms, r). ((''cluster'', JvStr (to_valid cl)) # ms, r)) (parse_members (Suc k) d m)" for k m
    using parse_member [OF parse_quoted, where k = "''cluster''"] unfolding to_valid_keys by blast
  have 1: "parse_members (Suc (Suc k)) d (json_quote ''sub'' @ byte_of 58 # json_quote sub @ byte_of 44 # m) =
      map_option (\<lambda>(ms, r). ((''sub'', JvStr (to_valid sub)) # ms, r)) (parse_members (Suc k) d m)" for k m
    using parse_member [OF parse_quoted, where k = "''sub''"] unfolding to_valid_keys by blast
  show ?thesis by (simp only: 1 2 3 4 option.map prod.case)
qed

lemma parse_claims:
  "json_parse (marshal_claims c) =
     Some (JvObj [(''sub'', JvStr (to_valid (mc_Sub c))), (''cluster'', JvStr (to_valid (mc_Cluster c))),
                  (''iat'', JvNum (itoa_int (sint (mc_Iat c)))), (''exp'', JvNum (itoa_int (sint (mc_Exp c))))])"
proof -
  define body where "body = json_quote ''sub'' @ byte_of 58 # json_quote (mc_Sub c) @
     byte_of 44 # json_quote ''cluster'' @ byte_of 58 # json_quote (mc_Cluster c) @
     byte_of 44 # json_quote ''iat'' @ byte_of 58 # itoa_int (sint (mc_Iat c)) @
     byte_of 44 # json_quote ''exp'' @ byte_of 58 # itoa_int (sint (mc_Exp c)) @ [byte_of 125]"
  have m: "marshal_claims c = byte_of 123 # body" by (simp add: marshal_claims_def body_def)
  have "4 \<le> length body" by (simp add: body_def json_quote_def)
  then obtain n where n: "2 * length (byte_of 123 # body) = Suc (Suc (Suc (Suc (Suc n))))"
    by (intro that [of "2 * length body - 3"]) simp
  have hd: "body = byte_of 34 # tl body" by (simp add: body_def json_quote_def)
  have "parse_members (Suc (Suc (Suc (Suc (Suc n))))) 1 body =
      Some ([(''sub'', JvStr (to_valid (mc_Sub c))), (''cluster'', JvStr (to_valid (mc_Cluster c))),
             (''iat'', JvNum (itoa_int (sint (mc_Iat c)))), (''exp'', JvNum (itoa_int (sint (mc_Exp c))))], [])"
    unfolding body_def by (rule parse_claims_members)
  moreover have "skip_ws body = body"
    using skip_ws_Cons [of "byte_of 34" "tl body"] hd by simp
  moreover have "take 1 body \<noteq> [byte_of 125]"
  proof -
    have "take 1 (byte_of 34 # tl body) \<noteq> [byte_of 125]" by (simp add: byte_of_def)
    then show ?thesis using hd by argo
  qed
  ultimately show ?thesis
    unfolding json_parse_def m n by (simp add: maxNestingDepth_def)
qed

lemma unmarshal_marshal:
  "unmarshal_claims (marshal_claims c) =
     Some (c\<lparr>mc_Sub := to_valid (mc_Sub c), mc_Cluster := to_valid (mc_Cluster c)\<rparr>)"
proof -
  have p: "parse_int64 (itoa_int (sint (w::int64))) = Some (sint w)" for w
    using sint_greater_eq [of w] sint_less [of w] by (intro parse_itoa_int) simp_all
  show ?thesis
    by (simp add: unmarshal_claims_def parse_claims set_claim_keys string_field_def int_field_def p zero_claims_def)
qed

lemma split_token: "split_n2 CHR ''.'' (b64_encode a @ ''.'' @ b64_encode b) = [b64_encode a, b64_encode b]"
  by (simp add: split_n2_def cut_char_append [OF b64_encode_no_dot])

lemma sint_plus_small:
  fixes t d :: int64
  assumes "- (2 ^ 63) \<le> sint t + sint d" "sint t + sint d < 2 ^ 63"
  shows "sint (t + d) = sint t + sint d"
  using assms by (simp add: sint_word_ariths(1) signed_take_bit_int_eq_self)

lemma sint_minus_small:
  fixes t d :: int64
  assumes "- (2 ^ 63) \<le> sint t - sint d" "sint t - sint d < 2 ^ 63"
  shows "sint (t - d) = sint t - sint d"
  using assms by (simp add: sint_word_ariths(2) signed_take_bit_int_eq_self)

section \<open>Properties\<close>

lemma Verify_Issue:
  assumes "\<bar>sint t\<bar> < 2 ^ 61" and "\<bar>sint t'\<bar> < 2 ^ 61"
  shows "Verify i t' (Issue i t cluster user) =
    (if sint t - 300 \<le> sint t' \<and> sint t' \<le> sint t + 3600 then Inr (to_valid cluster, to_valid user)
     else Inl errInvalidToken)"
proof -
  have e: "sint (t + 3600) = sint t + 3600" "sint (t' + 300) = sint t' + 300" "sint (t' - t) = sint t' - sint t"
    using assms sint_plus_small [of t 3600] sint_plus_small [of t' 300] sint_minus_small [of t' t] by (simp_all add: abs_less_iff)
  have age: "sint maxAge = 3900" by (simp add: maxAge_def manifestTokenTTL_def clockSkew_def)
  have "verifyDetailed i t' (Issue i t cluster user) =
      (if sint t' > sint t + 3600 then Inl TokenExpired
       else if sint t > sint t' + 300 then Inl IssuedInFuture
       else if sint t' - sint t > 3900 then Inl TokenTooOld
       else Inr (to_valid cluster, to_valid user))"
    unfolding verifyDetailed_def Issue_def Let_def split_token
    by (simp add: unmarshal_marshal e age manifestTokenTTL_def clockSkew_def)
  then show ?thesis by (auto simp: Verify_def)
qed

text \<open>
  Claim C9. A token issued at time \<open>t\<close> is accepted exactly from five minutes before \<open>t\<close> until one
  hour after it, and then yields the cluster and the user it was issued for, whatever bytes they
  hold (invalid UTF-8 is replaced by U+FFFD).
\<close>

theorem token_roundtrip:
  assumes "\<bar>sint t\<bar> < 2 ^ 61" and "\<bar>sint t'\<bar> < 2 ^ 61"
  shows "Verify i t' (Issue i t cluster user) =
    (if sint t - 300 \<le> sint t' \<and> sint t' \<le> sint t + 3600 then Inr (to_valid cluster, to_valid user)
     else Inl errInvalidToken)"
  using assms by (rule Verify_Issue)

theorem token_roundtrip_witness:
  "Verify \<lparr>hmacKey = ''key''\<rparr> 1003600 (Issue \<lparr>hmacKey = ''key''\<rparr> 1000000 ''prod'' ''alice'') = Inr (''prod'', ''alice'') \<and>
   Verify \<lparr>hmacKey = ''key''\<rparr> 1003601 (Issue \<lparr>hmacKey = ''key''\<rparr> 1000000 ''prod'' ''alice'') = Inl errInvalidToken"
proof -
  have ascii: "to_valid ''prod'' = ''prod''" "to_valid ''alice'' = ''alice''"
    by (rule to_valid_ascii, simp add: ord_of_def, elim disjE; simp)+
  show ?thesis
    using token_roundtrip [of 1000000 1003600 "\<lparr>hmacKey = ''key''\<rparr>" "''prod''" "''alice''"]
      token_roundtrip [of 1000000 1003601 "\<lparr>hmacKey = ''key''\<rparr>" "''prod''" "''alice''"]
    unfolding ascii by simp
qed

text \<open>
  Claim C10. Whatever text is presented, it is accepted only if it consists of the encodings of a
  payload and of the HMAC of exactly that payload under the issuer's key; the payload parses to
  claims that name the returned cluster and user and that are neither expired, nor issued too far
  in the future, nor older than the maximum age. Every refusal is the same error.
\<close>

theorem Verify_sound:
  "case Verify i now token of
     Inr (cluster, user) \<Rightarrow>
       (\<exists>p s payload claims. token = p @ ''.'' @ s \<and> b64_decode p = Some payload \<and>
          b64_decode s = Some (hmac_sha256 (hmacKey i) payload) \<and> unmarshal_claims payload = Some claims \<and>
          cluster = mc_Cluster claims \<and> user = mc_Sub claims \<and> sint now \<le> sint (mc_Exp claims) \<and>
          sint (mc_Iat claims) \<le> sint (now + clockSkew) \<and> sint (now - mc_Iat claims) \<le> sint maxAge)
   | Inl e \<Rightarrow> e = errInvalidToken"
proof (cases "Verify i now token")
  case (Inl e)
  then show ?thesis by (auto simp: Verify_def split: sum.splits)
next
  case (Inr r)
  obtain cluster user where r: "r = (cluster, user)" by (cases r)
  have ok: "verifyDetailed i now token = Inr (cluster, user)"
    using Inr r by (auto simp: Verify_def split: sum.splits)
  obtain p s b where cut: "cut_char CHR ''.'' token = (p, s, b)" by (metis prod_cases3)
  have b: "b" using ok cut by (auto simp: verifyDetailed_def split_n2_def split: if_splits)
  then have token: "token = p @ ''.'' @ s" using cut_char_True cut by fastforce
  from ok cut b obtain payload where p: "b64_decode p = Some payload"
    by (auto simp: verifyDetailed_def split_n2_def split: option.splits)
  from ok cut b p obtain sig where s: "b64_decode s = Some sig"
    by (auto simp: verifyDetailed_def split_n2_def split: option.splits)
  have sig: "sig = hmac_sha256 (hmacKey i) payload"
    using ok cut b p s by (auto simp: verifyDetailed_def split_n2_def split: if_splits)
  from ok cut b p s sig obtain claims where c: "unmarshal_claims payload = Some claims"
    by (auto simp: verifyDetailed_def split_n2_def split: option.splits)
  have "cluster = mc_Cluster claims \<and> user = mc_Sub claims \<and> sint now \<le> sint (mc_Exp claims) \<and>
      sint (mc_Iat claims) \<le> sint (now + clockSkew) \<and> sint (now - mc_Iat claims) \<le> sint maxAge"
    using ok cut b p s sig c by (auto simp: verifyDetailed_def split_n2_def split: if_splits)
  then show ?thesis using Inr r token p s sig c by auto
qed

end
