(* ===== verification/Cluster_Name.thy ===== *)
theory Cluster_Name
  imports Go_Errors
begin

text \<open>
  Cluster names: \<^verbatim>\<open>ValidateClusterName\<close> of \<^verbatim>\<open>internal/core/fleet.go\<close>.

  The pattern is a value of a small datatype of regular expressions and \<^verbatim>\<open>MatchString\<close> of a
  pattern between \<^verbatim>\<open>^\<close> and \<^verbatim>\<open>$\<close> is a matcher by derivatives, proved against the
  language of the expression. All classes of the pattern are ASCII, so matching bytes
  and matching runes agree.
\<close>

section \<open>Regular expressions\<close>

datatype rexp =
    REmpty
  | REps
  | RClass "char list"
  | RSeq rexp rexp
  | RAlt rexp rexp
  | RStar rexp

definition ROpt :: "rexp \<Rightarrow> rexp" where
  "ROpt r = RAlt r REps"

fun nullable :: "rexp \<Rightarrow> bool" where
  "nullable REmpty = False"
| "nullable REps = True"
| "nullable (RClass cs) = False"
| "nullable (RSeq r s) = (nullable r \<and> nullable s)"
| "nullable (RAlt r s) = (nullable r \<or> nullable s)"
| "nullable (RStar r) = True"

fun deriv :: "char \<Rightarrow> rexp \<Rightarrow> rexp" where
  "deriv c REmpty = REmpty"
| "deriv c REps = REmpty"
| "deriv c (RClass cs) = (if c \<in> set cs then REps else REmpty)"
| "deriv c (RSeq r s) = (if nullable r then RAlt (RSeq (deriv c r) s) (deriv c s) else RSeq (deriv c r) s)"
| "deriv c (RAlt r s) = RAlt (deriv c r) (deriv c s)"
| "deriv c (RStar r) = RSeq (deriv c r) (RStar r)"

definition match_full :: "rexp \<Rightarrow> gostring \<Rightarrow> bool" where
  "match_full r s = nullable (foldl (\<lambda>r c. deriv c r) r s)"

text \<open>The language of an expression, as its specification.\<close>

inductive rmatch :: "rexp \<Rightarrow> gostring \<Rightarrow> bool" where
  "rmatch REps []"
| "c \<in> set cs \<Longrightarrow> rmatch (RClass cs) [c]"
| "rmatch r u \<Longrightarrow> rmatch s v \<Longrightarrow> rmatch (RSeq r s) (u @ v)"
| "rmatch r u \<Longrightarrow> rmatch (RAlt r s) u"
| "rmatch s u \<Longrightarrow> rmatch (RAlt r s) u"
| "rmatch (RStar r) []"
| "rmatch r u \<Longrightarrow> rmatch (RStar r) v \<Longrightarrow> rmatch (RStar r) (u @ v)"

inductive_simps rmatch_simps:
  "rmatch REmpty u" "rmatch REps u" "rmatch (RClass cs) u" "rmatch (RSeq r s) u" "rmatch (RAlt r s) u"

lemma nullable_iff: "nullable r \<longleftrightarrow> rmatch r []"
  by (induction r) (auto simp: rmatch_simps intro: rmatch.intros)

lemma rmatch_star_Cons:
  assumes "rmatch (RStar r) (c # w)"
  shows "\<exists>u v. w = u @ v \<and> rmatch r (c # u) \<and> rmatch (RStar r) v"
proof -
  have "\<exists>u v. w = u @ v \<and> rmatch r (c # u) \<and> rmatch (RStar r) v"
    if "rmatch q x" "q = RStar r" "x = c # w" for q x
    using that
  proof (induction arbitrary: w rule: rmatch.induct)
    case (7 r' u v)
    then show ?case by (cases u) auto
  qed auto
  then show ?thesis using assms by blast
qed

lemma deriv_correct: "rmatch (deriv c r) w \<longleftrightarrow> rmatch r (c # w)"
proof (induction r arbitrary: w)
  case (RSeq r s)
  have "rmatch (RSeq r s) (c # w) \<longleftrightarrow>
      (\<exists>u v. w = u @ v \<and> rmatch r (c # u) \<and> rmatch s v) \<or> (rmatch r [] \<and> rmatch s (c # w))"
    by (auto simp: rmatch_simps Cons_eq_append_conv)
  then show ?case using RSeq by (auto simp: rmatch_simps nullable_iff)
next
  case (RStar r)
  have "rmatch (RStar r) (c # w) \<longleftrightarrow> (\<exists>u v. w = u @ v \<and> rmatch r (c # u) \<and> rmatch (RStar r) v)"
    using rmatch_star_Cons rmatch.intros(7) [of r "c # _"] by auto
  then show ?case using RStar by (simp add: rmatch_simps)
qed (auto simp: rmatch_simps)

lemma match_full_correct: "match_full r s \<longleftrightarrow> rmatch r s"
proof -
  have "nullable (foldl (\<lambda>r c. deriv c r) r s) \<longleftrightarrow> rmatch r s"
    by (induction s arbitrary: r) (simp_all add: nullable_iff deriv_correct)
  then show ?thesis by (simp add: match_full_def)
qed

lemma rmatch_star_class: "rmatch (RStar (RClass cs)) s \<longleftrightarrow> set s \<subseteq> set cs"
proof
  show "set s \<subseteq> set cs" if "rmatch (RStar (RClass cs)) s"
  proof -
    have "set x \<subseteq> set cs" if "rmatch q x" "q = RStar (RClass cs)" for q x
      using that by (induction rule: rmatch.induct) (auto simp: rmatch_simps)
    then show ?thesis using that by blast
  qed
  show "rmatch (RStar (RClass cs)) s" if "set s \<subseteq> set cs"
    using that
  proof (induction s)
    case (Cons c s)
    then have "rmatch (RClass cs) [c]" "rmatch (RStar (RClass cs)) s" by (auto intro: rmatch.intros)
    then show ?case using rmatch.intros(7) by fastforce
  qed (rule rmatch.intros)
qed

section \<open>Validation\<close>

definition maxClusterNameLength :: nat where
  "maxClusterNameLength = 63"

definition class_az09 :: "char list" where
  "class_az09 = ''abcdefghijklmnopqrstuvwxyz0123456789''"

definition reClusterName :: rexp where
  "reClusterName =
     RSeq (RClass class_az09) (ROpt (RSeq (RStar (RClass (CHR ''-'' # class_az09))) (RClass class_az09)))"

definition ValidateClusterName :: "gostring \<Rightarrow> unit res" where
  "ValidateClusterName cluster =
     (if cluster = [] then Inl (ErrInvalidInput ''cluster'' ''must not be empty'')
      else if length cluster > maxClusterNameLength
        then Inl (ErrInvalidInput ''cluster'' (''must not exceed '' @ itoa maxClusterNameLength @ '' characters''))
      else if \<not> match_full reClusterName cluster
        then Inl (ErrInvalidInput ''cluster'' (''must match [a-z0-9]([a-z0-9-]*[a-z0-9])?, got '' @ go_quote cluster))
      else Inr ())"

text \<open>A DNS label in lower case, as the specification.\<close>

definition dns_label :: "gostring \<Rightarrow> bool" where
  "dns_label s \<longleftrightarrow> s \<noteq> [] \<and> length s \<le> 63 \<and> (\<forall>c\<in>set s. is_alnum_lc c \<or> c = CHR ''-'') \<and>
     is_alnum_lc (hd s) \<and> is_alnum_lc (last s)"

lemma class_az09_iff: "c \<in> set class_az09 \<longleftrightarrow> is_alnum_lc c"
proof -
  have "set class_az09 = char_of ` ({97..122} \<union> {48..57::nat})" by code_simp
  also have "\<dots> = {c. is_alnum_lc c}"
  proof (rule set_eqI)
    fix c
    have "c \<in> char_of ` A \<longleftrightarrow> (of_char c :: nat) \<in> A" if "\<forall>n\<in>A. n < 256" for A :: "nat set"
      using that by (force simp: image_iff)
    moreover have "\<forall>n \<in> {97..122} \<union> {48..57}. n < (256::nat)" by auto
    ultimately have "c \<in> char_of ` ({97..122} \<union> {48..57::nat}) \<longleftrightarrow> (of_char c :: nat) \<in> {97..122} \<union> {48..57}" .
    then show "c \<in> char_of ` ({97..122} \<union> {48..57::nat}) \<longleftrightarrow> c \<in> {c. is_alnum_lc c}"
      by (auto simp: is_alnum_lc_def is_lower_def is_digit_def)
  qed
  finally show ?thesis by simp
qed

lemma match_cluster_name:
  "match_full reClusterName s \<longleftrightarrow>
     s \<noteq> [] \<and> (\<forall>c\<in>set s. is_alnum_lc c \<or> c = CHR ''-'') \<and> is_alnum_lc (hd s) \<and> is_alnum_lc (last s)"
proof -
  have cls: "set (CHR ''-'' # class_az09) = {c. is_alnum_lc c \<or> c = CHR ''-''}" by (auto simp: class_az09_iff)
  have "match_full reClusterName s \<longleftrightarrow>
      (\<exists>a w. s = a # w \<and> is_alnum_lc a \<and>
         (w = [] \<or> (\<exists>m b. w = m @ [b] \<and> (\<forall>c\<in>set m. is_alnum_lc c \<or> c = CHR ''-'') \<and> is_alnum_lc b)))"
  proof -
    have star: "rmatch (RStar (RClass (CHR ''-'' # class_az09))) m \<longleftrightarrow> (\<forall>c\<in>set m. is_alnum_lc c \<or> c = CHR ''-'')" for m
      unfolding rmatch_star_class cls by blast
    have opt: "rmatch (ROpt (RSeq (RStar (RClass (CHR ''-'' # class_az09))) (RClass class_az09))) w \<longleftrightarrow>
        (w = [] \<or> (\<exists>m b. w = m @ [b] \<and> (\<forall>c\<in>set m. is_alnum_lc c \<or> c = CHR ''-'') \<and> is_alnum_lc b))" for w
      by (auto simp: ROpt_def rmatch_simps star class_az09_iff)
    have seq: "rmatch (RSeq (RClass cs) r) s \<longleftrightarrow> (\<exists>a w. s = a # w \<and> a \<in> set cs \<and> rmatch r w)" for cs r
      by (auto simp: rmatch_simps) (metis append_Cons append_Nil)
    show ?thesis
      unfolding match_full_correct reClusterName_def seq opt class_az09_iff ..
  qed
  also have "\<dots> \<longleftrightarrow> s \<noteq> [] \<and> (\<forall>c\<in>set s. is_alnum_lc c \<or> c = CHR ''-'') \<and> is_alnum_lc (hd s) \<and> is_alnum_lc (last s)"
  proof (cases s)
    case (Cons a w)
    then show ?thesis by (cases w rule: rev_cases) auto
  qed simp
  finally show ?thesis .
qed

section \<open>Properties\<close>

lemma ValidateClusterName_ok: "ValidateClusterName s = Inr () \<longleftrightarrow> dns_label s"
  by (auto simp: ValidateClusterName_def dns_label_def match_cluster_name maxClusterNameLength_def)

lemma ValidateClusterName_error:
  "ValidateClusterName s = Inl e \<Longrightarrow> \<exists>m. e = ErrInvalidInput ''cluster'' m"
  by (auto simp: ValidateClusterName_def split: if_splits)

lemma ValidateClusterName_cases: "(\<exists>m. ValidateClusterName s = Inl (ErrInvalidInput ''cluster'' m)) \<or> ValidateClusterName s = Inr ()"
  using ValidateClusterName_error by (cases "ValidateClusterName s") auto

text \<open>
  Claim C35. A cluster name is accepted exactly when it is a DNS label: 1 to 63 characters,
  lower-case letters, digits and hyphens, beginning and ending with a letter or digit.
  Every other name is reported to the client as an invalid argument.
\<close>

theorem ValidateClusterName_iff:
  "(if dns_label s then ValidateClusterName s = Inr ()
    else \<exists>m. ValidateClusterName s = Inl (ErrInvalidInput ''cluster'' m) \<and>
             connect_code_of (domainErrorToConnectError (ErrInvalidInput ''cluster'' m)) = Some CodeInvalidArgument)"
  using ValidateClusterName_ok [of s] ValidateClusterName_cases [of s] by auto

lemma dns_label_no_special:
  "dns_label s \<Longrightarrow> c \<in> set s \<Longrightarrow> is_alnum_lc c \<or> c = CHR ''-''"
  by (simp add: dns_label_def)

end
