(* ===== verification/Manifest_Renderer.thy ===== *)
theory Manifest_Renderer
  imports Go_Json Sha256 Cluster_Name
begin

text \<open>
  The agent installation manifest: \<^verbatim>\<open>internal/providers/manifest/renderer.go\<close>. The template is
  kept line by line, and rendering writes each line followed by a newline.

  \<open>ToLower\<close> is \<^verbatim>\<open>strings.ToLower\<close> as far as the following replacement of everything that is
  not a lower-case letter or digit can see it: the two characters outside ASCII whose lower-case
  form is an ASCII letter, U+0130 (bytes C4 B0) and U+212A (bytes E2 84 AA), become that letter, and other
  bytes outside ASCII stay outside ASCII.
\<close>

section \<open>Names\<close>

fun ToLower :: "bytes \<Rightarrow> bytes" where
  "ToLower (a # b # c # s) =
     (if ord_of a = 196 \<and> ord_of b = 176 then CHR ''i'' # ToLower (c # s)
      else if ord_of a = 226 \<and> ord_of b = 132 \<and> ord_of c = 170 then CHR ''k'' # ToLower s
      else ascii_lower a # ToLower (b # c # s))"
| "ToLower [a, b] = (if ord_of a = 196 \<and> ord_of b = 176 then ''i'' else [ascii_lower a, ascii_lower b])"
| "ToLower [a] = [ascii_lower a]"
| "ToLower [] = []"

text \<open>\<^verbatim>\<open>reNonAlphaNum.ReplaceAllString(s, "-")\<close>: every run of other characters becomes one hyphen.
  The flag says that the scan is inside a run.\<close>

fun replace_runs :: "bool \<Rightarrow> bytes \<Rightarrow> bytes" where
  "replace_runs inside [] = []"
| "replace_runs inside (c # s) =
     (if is_alnum_lc c then c # replace_runs False s
      else if inside then replace_runs True s
      else CHR ''-'' # replace_runs True s)"

definition sanitizeK8sName :: "gostring \<Rightarrow> gostring" where
  "sanitizeK8sName original =
     (let s = trim_char CHR ''-'' (replace_runs False (ToLower original));
          s = (if length s > 63 then trim_right_char CHR ''-'' (take 63 s) else s)
      in if s = [] then ''u-'' @ hex_bytes (take 8 (sha256 original)) else s)"

definition yamlQuote :: "gostring \<Rightarrow> gostring" where
  "yamlQuote s = json_quote s"

section \<open>The template\<close>

record ManifestParams =
  mp_Cluster :: gostring
  mp_UserName :: gostring
  mp_Image :: gostring
  mp_ServerURL :: gostring
  mp_TunnelURL :: gostring

record agentManifestData =
  am_Cluster :: gostring
  am_UserName :: gostring
  am_SanitizedUser :: gostring
  am_Image :: gostring
  am_ServerURL :: gostring
  am_TunnelURL :: gostring

definition manifest_text1 :: "gostring list" where
  \<open>manifest_text1 =
     [''---'',
      ''apiVersion: v1'',
      ''kind: Namespace'',
      ''metadata:'',
      ''  name: otterscale-system'',
      ''---'',
      ''apiVersion: v1'',
      ''kind: ServiceAccount'',
      ''metadata:'',
      ''  name: otterscale-agent'',
      ''  namespace: otterscale-system'',
      ''---'',
      ''apiVersion: rbac.authorization.k8s.io/v1'',
      ''kind: ClusterRole'',
      ''metadata:'',
      ''  name: otterscale-agent'',
      ''rules:'',
      ''  # The agent proxies authenticated user requests to the local'',
      ''  # kube-apiserver using impersonation headers. It must be allowed'',
      ''  # to impersonate any user and group so that RBAC on the target'',
      ''  # cluster enforces the actual caller's permissions.'',
      ''  - apiGroups: [""]'',
      ''    resources: ["users", "groups"]'',
      ''    verbs: ["impersonate"]'',
      ''  # Bootstrap: core resources required by FluxCD and Module CRD.'',
      ''  - apiGroups: [""]'',
      ''    resources: ["namespaces", "serviceaccounts", "services", "configmaps", "secrets"]'',
      ''    verbs: ["get", "create", "patch"]'',
      ''  # Bootstrap: workloads (FluxCD controllers).'',
      ''  - apiGroups: ["apps"]'',
      ''    resources: ["deployments"]'',
      ''    verbs: ["get", "create", "patch"]'',
      ''  # Bootstrap: RBAC for FluxCD and operator components.'',
      ''  - apiGroups: ["rbac.authorization.k8s.io"]'',
      ''    resources: ["clusterroles", "clusterrolebindings", "roles", "rolebindings"]'',
      ''    verbs: ["get", "create", "patch", "bind", "escalate"]'',
      ''  # Bootstrap: CRDs for FluxCD and Module.'',
      ''  - apiGroups: ["apiextensions.k8s.io"]'',
      ''    resources: ["customresourcedefinitions"]'',
      ''    verbs: ["get", "create", "patch"]'',
      ''  # Bootstrap: NetworkPolicy (FluxCD hardening).'',
      ''  - apiGroups: ["networking.k8s.io"]'',
      ''    resources: ["networkpolicies"]'',
      ''    verbs: ["get", "create", "patch"]'',
      ''---'',
      ''apiVersion: rbac.authorization.k8s.io/v1'',
      ''kind: ClusterRoleBinding'',
      ''metadata:'',
      ''  name: otterscale-agent'',
      ''subjects:'',
      ''  - kind: ServiceAccount'',
      ''    name: otterscale-agent'',
      ''    namespace: otterscale-system'',
      ''roleRef:'',
      ''  kind: ClusterRole'',
      ''  name: otterscale-agent'',
      ''  apiGroup: rbac.authorization.k8s.io'',
      ''---'',
      ''apiVersion: rbac.authorization.k8s.io/v1'',
      ''kind: Role'',
      ''metadata:'',
      ''  name: otterscale-agent'',
      ''  namespace: otterscale-system'',
      ''rules:'',
      ''  # The agent self-updates by patching its own Deployment image when'',
      ''  # the server advertises a newer version.'',
      ''  - apiGroups: ["apps"]'',
      ''    resources: ["deployments"]'',
      ''    resourceNames: ["otterscale-agent"]'',
      ''    verbs: ["get", "patch"]'',
      ''---'',
      ''apiVersion: rbac.authorization.k8s.io/v1'',
      ''kind: RoleBinding'',
      ''metadata:'',
      ''  name: otterscale-agent'',
      ''  namespace: otterscale-system'',
      ''subjects:'',
      ''  - kind: ServiceAccount'',
      ''    name: otterscale-agent'',
      ''    namespace: otterscale-system'',
      ''roleRef:'',
      ''  kind: Role'',
      ''  name: otterscale-agent'',
      ''  apiGroup: rbac.authorization.k8s.io'',
      ''---'',
      ''apiVersion: rbac.authorization.k8s.io/v1'',
      ''kind: ClusterRoleBinding'',
      ''metadata:'']\<close>

definition manifest_text2 :: "gostring list" where
  \<open>manifest_text2 =
     [''subjects:'',
      ''  - kind: User'']\<close>

definition manifest_text3 :: "gostring list" where
  \<open>manifest_text3 =
     [''    apiGroup: rbac.authorization.k8s.io'',
      ''roleRef:'',
      ''  kind: ClusterRole'',
      ''  name: cluster-admin'',
      ''  apiGroup: rbac.authorization.k8s.io'',
      ''---'',
      ''apiVersion: apps/v1'',
      ''kind: Deployment'',
      ''metadata:'',
      ''  name: otterscale-agent'',
      ''  namespace: otterscale-system'',
      ''spec:'',
      ''  replicas: 1'',
      ''  selector:'',
      ''    matchLabels:'',
      ''      app: otterscale-agent'',
      ''  template:'',
      ''    metadata:'',
      ''      labels:'',
      ''        app: otterscale-agent'',
      ''    spec:'',
      ''      serviceAccountName: otterscale-agent'',
      ''      containers:'',
      ''        - name: otterscale'']\<close>

definition manifest_text4 :: "gostring list" where
  \<open>manifest_text4 =
     [''          args:'',
      ''            - agent'',
      ''          env:'',
      ''            - name: OTTERSCALE_AGENT_SERVER_URL'']\<close>

definition manifest_text5 :: "gostring list" where
  \<open>manifest_text5 =
     [''            - name: OTTERSCALE_AGENT_TUNNEL_SERVER_URL'']\<close>

definition manifest_text6 :: "gostring list" where
  \<open>manifest_text6 =
     [''            - name: OTTERSCALE_AGENT_CLUSTER'']\<close>

definition agentManifestYAML :: "agentManifestData \<Rightarrow> gostring list" where
  "agentManifestYAML d =
     manifest_text1 @
     [''  name: otterscale-'' @ am_SanitizedUser d @ ''-cluster-admin''] @
     manifest_text2 @
     [''    name: '' @ yamlQuote (am_UserName d)] @
     manifest_text3 @
     [''          image: '' @ am_Image d] @
     manifest_text4 @
     [''              value: '' @ yamlQuote (am_ServerURL d)] @
     manifest_text5 @
     [''              value: '' @ yamlQuote (am_TunnelURL d)] @
     manifest_text6 @
     [''              value: '' @ yamlQuote (am_Cluster d)]"

definition unlines :: "gostring list \<Rightarrow> gostring" where
  "unlines ls = concat (map (\<lambda>l. l @ [CHR 0x0A]) ls)"

definition manifest_data :: "ManifestParams \<Rightarrow> agentManifestData" where
  "manifest_data params =
     \<lparr>am_Cluster = mp_Cluster params, am_UserName = mp_UserName params,
      am_SanitizedUser = sanitizeK8sName (mp_UserName params), am_Image = mp_Image params,
      am_ServerURL = mp_ServerURL params, am_TunnelURL = mp_TunnelURL params\<rparr>"

definition RenderAgentManifest :: "ManifestParams \<Rightarrow> gostring res" where
  "RenderAgentManifest params = Inr (unlines (agentManifestYAML (manifest_data params)))"

section \<open>Lemmas\<close>

definition no_newline :: "gostring \<Rightarrow> bool" where
  "no_newline s \<longleftrightarrow> CHR 0x0A \<notin> set s"

text \<open>The lines of a text.\<close>

fun split_lines :: "gostring \<Rightarrow> gostring list" where
  "split_lines [] = []"
| "split_lines (c # s) =
     (if c = CHR 0x0A then [] # split_lines s
      else (case split_lines s of [] \<Rightarrow> [[c]] | l # ls \<Rightarrow> (c # l) # ls))"

lemma split_lines_line: "no_newline l \<Longrightarrow> split_lines (l @ CHR 0x0A # r) = l # split_lines r"
  by (induction l) (auto simp: no_newline_def)

lemma split_unlines: "list_all no_newline ls \<Longrightarrow> split_lines (unlines ls) = ls"
  by (induction ls) (simp_all add: unlines_def split_lines_line)

lemma set_replace_runs: "c \<in> set (replace_runs b s) \<Longrightarrow> is_alnum_lc c \<or> c = CHR ''-''"
  by (induction b s rule: replace_runs.induct) (auto split: if_splits)

lemma utf8_class_high:
  "is2 a b \<Longrightarrow> 128 \<le> ord_of a \<and> 128 \<le> ord_of b"
  "is3 a b c \<Longrightarrow> 128 \<le> ord_of a \<and> 128 \<le> ord_of b \<and> 128 \<le> ord_of c"
  "is4 a b c d \<Longrightarrow> 128 \<le> ord_of a \<and> 128 \<le> ord_of b \<and> 128 \<le> ord_of c \<and> 128 \<le> ord_of d"
  unfolding is2_def is3_def is4_def in_range_def by linarith+

lemma utf8_bytes_high: "c \<in> set (take (utf8_size s) s) \<Longrightarrow> 128 \<le> ord_of c"
  by (cases s rule: utf8_size.cases) (auto dest: utf8_class_high split: if_splits)

lemma hex_digit_printable: "n < 16 \<Longrightarrow> 32 \<le> ord_of (hex_digit n)"
  by (auto simp: hex_digit_def ord_of_def)

lemma u_escape_printable: "c \<in> set (u_escape n) \<Longrightarrow> n < 65536 \<Longrightarrow> 32 \<le> ord_of c"
  by (auto simp: u_escape_def hex_digit_printable less_mult_imp_div_less)

lemma quote_ascii_printable: "n < 128 \<Longrightarrow> c \<in> set (quote_ascii n) \<Longrightarrow> 32 \<le> ord_of c"
  by (auto simp: quote_ascii_def dest: u_escape_printable split: if_splits)

text \<open>A quoted text has no control characters.\<close>

lemma quote_body_printable: "c \<in> set (quote_body s) \<Longrightarrow> 32 \<le> ord_of c"
proof (induction s rule: quote_body.induct)
  case (2 x cs)
  let ?n = "utf8_size (x # cs)"
  consider (ascii) "ord_of x < 128" | (bad) "\<not> ord_of x < 128" "?n = 0" | (ok) "\<not> ord_of x < 128" "?n \<noteq> 0" by blast
  then show ?case
  proof cases
    case ascii
    then show ?thesis using 2 quote_ascii_printable by auto
  next
    case bad
    then show ?thesis using 2 by (auto dest: u_escape_printable)
  next
    case ok
    define ch where "ch = take ?n (x # cs)"
    define esc where "esc = (if ch ! 2 = byte_of 168 then 8232 else 8233 :: nat)"
    define more where "more = drop ?n (x # cs)"
    have q: "quote_body (x # cs) = (if ?n = 3 \<and> line_sep ch then u_escape esc else ch) @ quote_body more"
      unfolding quote_body.simps(2) Let_def ch_def [symmetric] more_def [symmetric] esc_def
      using ok by (simp only: if_False simp_thms)
    have "c \<in> set (u_escape esc) \<Longrightarrow> 32 \<le> ord_of c" by (erule u_escape_printable) (simp add: esc_def)
    moreover have "c \<in> set ch \<Longrightarrow> 32 \<le> ord_of c" using utf8_bytes_high unfolding ch_def by fastforce
    moreover have "c \<in> set (quote_body more) \<Longrightarrow> 32 \<le> ord_of c"
      using "2.IH"(3) [OF ok refl refl] unfolding more_def by blast
    ultimately show ?thesis using "2.prems" unfolding q by (auto split: if_splits)
  qed
qed simp

lemma yamlQuote_no_newline: "no_newline (yamlQuote s)"
proof -
  have "ord_of CHR 0x0A = 10" by (simp add: ord_of_def)
  then have "CHR 0x0A \<notin> set (quote_body s)" using quote_body_printable by fastforce
  moreover have "byte_of 34 \<noteq> CHR 0x0A" by code_simp
  ultimately show ?thesis by (simp add: no_newline_def yamlQuote_def json_quote_def)
qed

lemma yamlQuote_roundtrip: "unquote (tl (yamlQuote s)) = Some (to_valid s, [])"
  by (simp add: yamlQuote_def json_quote_def unquote_quote)

lemma trimmed_label:
  assumes "\<And>c. c \<in> set s \<Longrightarrow> is_alnum_lc c \<or> c = CHR ''-''" "s \<noteq> []" "hd s \<noteq> CHR ''-''" "last s \<noteq> CHR ''-''" "length s \<le> 63"
  shows "dns_label s"
  using assms unfolding dns_label_def by (metis hd_in_set last_in_set)

lemma trim_char_ends:
  assumes "trim_char c s \<noteq> []"
  shows "hd (trim_char c s) \<noteq> c" "last (trim_char c s) \<noteq> c"
proof -
  show "last (trim_char c s) \<noteq> c" using last_trim_right_char assms unfolding trim_char_def by blast
  have "trim_left_char c s \<noteq> []" using assms by (auto simp: trim_char_def trim_right_char_def)
  then show "hd (trim_char c s) \<noteq> c"
    using hd_trim_right_char [of c "trim_left_char c s"] hd_trim_left_char [of c s] assms unfolding trim_char_def by simp
qed

lemma fallback_label: "dns_label (''u-'' @ hex_bytes (take 8 (sha256 s)))"
proof -
  have len: "length (hex_bytes (take 8 (sha256 s))) = 16" by (simp add: length_hex_bytes)
  then have ne: "hex_bytes (take 8 (sha256 s)) \<noteq> []" by auto
  have "is_alnum_lc (last (hex_bytes (take 8 (sha256 s))))" using hex_bytes_alnum last_in_set [OF ne] by blast
  moreover have "is_alnum_lc CHR ''u''" by code_simp
  ultimately show ?thesis using len ne hex_bytes_alnum by (auto simp: dns_label_def)
qed

lemma sanitizeK8sName_label: "dns_label (sanitizeK8sName s)"
proof -
  define t where "t = trim_char CHR ''-'' (replace_runs False (ToLower s))"
  define u where "u = (if length t > 63 then trim_right_char CHR ''-'' (take 63 t) else t)"
  have chars: "is_alnum_lc c \<or> c = CHR ''-''" if "c \<in> set t" for c
    using that set_replace_runs set_trim_left_char set_trim_right_char unfolding t_def trim_char_def by blast
  have "dns_label u" if ne: "u \<noteq> []"
  proof (cases "length t > 63")
    case False
    then have "u = t" by (simp add: u_def)
    then show ?thesis using trimmed_label [of u] chars trim_char_ends ne False unfolding t_def by simp
  next
    case True
    then have u: "u = trim_right_char CHR ''-'' (take 63 t)" "t \<noteq> []" by (auto simp: u_def)
    then have "hd t \<noteq> CHR ''-''" using trim_char_ends(1) unfolding t_def by blast
    then have "hd u \<noteq> CHR ''-''"
      using hd_trim_right_char [of "CHR ''-''" "take 63 t"] ne u by (metis hd_take zero_less_numeral)
    moreover have "last u \<noteq> CHR ''-''" using last_trim_right_char ne u(1) by blast
    moreover have "length u \<le> 63" using length_trim_right_char [of "CHR ''-''" "take 63 t"] u(1) by simp
    moreover have "is_alnum_lc c \<or> c = CHR ''-''" if "c \<in> set u" for c
      using that chars set_trim_right_char [of "CHR ''-''" "take 63 t"] u(1) by (meson in_set_takeD subsetD)
    ultimately show ?thesis using ne by (intro trimmed_label)
  qed
  then show ?thesis
    unfolding sanitizeK8sName_def t_def [symmetric] Let_def u_def [symmetric] using fallback_label by simp
qed

lemma text_no_newline:
  "list_all no_newline manifest_text1" "list_all no_newline manifest_text2" "list_all no_newline manifest_text3"
  "list_all no_newline manifest_text4" "list_all no_newline manifest_text5" "list_all no_newline manifest_text6"
  by code_simp+

section \<open>Properties\<close>

lemma lines_no_newline:
  assumes "no_newline (am_Image d)" "dns_label (am_SanitizedUser d)"
  shows "list_all no_newline (agentManifestYAML d)"
proof -
  have "\<not> (is_alnum_lc CHR 0x0A \<or> CHR 0x0A = CHR ''-'')" by code_simp
  then have "no_newline (am_SanitizedUser d)" using dns_label_no_special assms(2) unfolding no_newline_def by blast
  then show ?thesis
    unfolding agentManifestYAML_def list_all_append using text_no_newline assms(1) yamlQuote_no_newline
    by (simp add: no_newline_def)
qed

text \<open>
  Claim C30. Whatever bytes the user name, the cluster name and the URLs hold, they cannot change
  the structure of the rendered manifest: its lines are exactly the lines of the template, the
  resource name is built from a DNS label, and each value stands on its own line as a quoted text
  without a newline, whose closing quote is its last byte and which decodes to the value.
\<close>

theorem manifest_no_injection:
  assumes "no_newline (mp_Image p)" and "RenderAgentManifest p = Inr text"
    and "d = manifest_data p"
  shows "split_lines text = agentManifestYAML d \<and> dns_label (am_SanitizedUser d) \<and>
    no_newline (yamlQuote v) \<and> unquote (tl (yamlQuote v)) = Some (to_valid v, [])"
proof -
  have label: "dns_label (am_SanitizedUser d)" using sanitizeK8sName_label assms(3) by (simp add: manifest_data_def)
  have "no_newline (am_Image d)" using assms(1,3) by (simp add: manifest_data_def)
  then have "split_lines text = agentManifestYAML d"
    using split_unlines [OF lines_no_newline [OF _ label]] assms(2,3) by (auto simp: RenderAgentManifest_def)
  then show ?thesis using label yamlQuote_no_newline yamlQuote_roundtrip by blast
qed

definition demo_manifest :: ManifestParams where
  "demo_manifest = \<lparr>mp_Cluster = ''prod'', mp_UserName = ''a'' @ [CHR 0x0A, CHR 0x22] @ ''b'', mp_Image = ''img:v1'',
     mp_ServerURL = ''https://s'', mp_TunnelURL = ''https://t''\<rparr>"

theorem manifest_no_injection_witness:
  "split_lines (unlines (agentManifestYAML (manifest_data demo_manifest))) = agentManifestYAML (manifest_data demo_manifest) \<and>
   unquote (tl (yamlQuote (mp_UserName demo_manifest))) = Some (to_valid (mp_UserName demo_manifest), [])"
proof -
  have "no_newline (mp_Image demo_manifest)" by (simp add: demo_manifest_def no_newline_def)
  from manifest_no_injection [OF this _ refl, of "unlines (agentManifestYAML (manifest_data demo_manifest))" "mp_UserName demo_manifest"]
  show ?thesis by (simp add: RenderAgentManifest_def)
qed

end
