(* ===== verification/Fleet.thy ===== *)
theory Fleet
  imports Tunnel_Service Manifest_Token Manifest_Renderer Core_Types "HOL-Library.List_Lexorder" "HOL-Library.Char_ord"
begin

text \<open>
  The fleet use case (\<^verbatim>\<open>internal/core/fleet.go\<close>), its RPC service
  (\<^verbatim>\<open>internal/handler/fleet.go\<close>), the manifest handler (\<^verbatim>\<open>internal/handler/manifest.go\<close>) and the
  raw manifest endpoint (\<^verbatim>\<open>handleRawManifest\<close> of \<^verbatim>\<open>internal/cmd/server/handler.go\<close>).

  The use case is written against the interface \<^verbatim>\<open>TunnelProvider\<close>, a record of operations on a
  state; \<open>chisel_provider\<close> fills it with the tunnel service. What the use case guarantees of any
  provider that keeps the contract \<open>tunnel_provider\<close> is proved inside that locale.
\<close>

section \<open>The interfaces\<close>

record 's TunnelProvider =
  tp_CACertPEM :: "'s \<Rightarrow> bytes"
  tp_ListClusters :: "'s \<Rightarrow> (gostring, Cluster) gomap"
  tp_RegisterCluster :: "'s \<Rightarrow> gostring \<Rightarrow> gostring \<Rightarrow> gostring \<Rightarrow> bytes \<Rightarrow> (gostring \<times> bytes) res \<times> 's"
  tp_ResolveAddress :: "'s \<Rightarrow> gostring \<Rightarrow> gostring res"

definition chisel_provider ::
  "('r, 'k, 'p, 'c, 'q) pki_lib \<Rightarrow> 'v chisel_lib \<Rightarrow> int \<Rightarrow> (('v, 'k, 'c) Service \<times> 'r) TunnelProvider" where
  "chisel_provider L C now =
     \<lparr>tp_CACertPEM = (\<lambda>st. CACertPEM (fst st)), tp_ListClusters = (\<lambda>st. ListClusters (fst st)),
      tp_RegisterCluster = RegisterCluster L C now, tp_ResolveAddress = (\<lambda>st. ResolveAddress (fst st))\<rparr>"

record Registration =
  reg_Endpoint :: gostring
  reg_Certificate :: bytes
  reg_CACertificate :: bytes
  reg_ServerVersion :: gostring

record AgentManifestConfig =
  mcfg_ServerURL :: gostring
  mcfg_TunnelURL :: gostring
  mcfg_HMACKey :: bytes

record 's FleetUseCase =
  fu_tunnel :: "'s TunnelProvider"
  fu_version :: gostring
  fu_manifestCfg :: AgentManifestConfig
  fu_renderer :: "ManifestParams \<Rightarrow> gostring res"
  fu_tokenIssuer :: ManifestTokenIssuer

section \<open>The use case\<close>

definition NewFleetUseCase ::
  "'s TunnelProvider \<Rightarrow> gostring \<Rightarrow> AgentManifestConfig \<Rightarrow> (ManifestParams \<Rightarrow> gostring res) \<Rightarrow> 's FleetUseCase res" where
  "NewFleetUseCase tunnel version cfg renderer =
     (if mcfg_ServerURL cfg = [] then Inl (Plain ''manifest config: server URL is required'')
      else if mcfg_TunnelURL cfg = [] then Inl (Plain ''manifest config: tunnel URL is required'')
      else
        (case NewManifestTokenIssuer (mcfg_HMACKey cfg) of
           Inl e \<Rightarrow> Inl e
         | Inr issuer \<Rightarrow>
             Inr \<lparr>fu_tunnel = tunnel, fu_version = version, fu_manifestCfg = cfg, fu_renderer = renderer, fu_tokenIssuer = issuer\<rparr>))"

definition uc_ListClusters :: "'s FleetUseCase \<Rightarrow> 's \<Rightarrow> (gostring, Cluster) gomap" where
  "uc_ListClusters uc s = tp_ListClusters (fu_tunnel uc) s"

definition uc_RegisterCluster ::
  "'s FleetUseCase \<Rightarrow> gostring \<Rightarrow> gostring \<Rightarrow> gostring \<Rightarrow> bytes \<Rightarrow> ('s, Registration) eff" where
  "uc_RegisterCluster uc cluster agentID agentVersion csrPEM s =
     (case ValidateClusterName cluster of
        Inl e \<Rightarrow> (Inl e, s)
      | Inr _ \<Rightarrow>
          if agentID = [] then (Inl (ErrInvalidInput ''agent_id'' ''must not be empty''), s)
          else if csrPEM = [] then (Inl (ErrInvalidInput ''csr'' ''must not be empty''), s)
          else
            (case tp_RegisterCluster (fu_tunnel uc) s cluster agentID agentVersion csrPEM of
               (Inl e, s') \<Rightarrow> (Inl e, s')
             | (Inr (endpoint, certPEM), s') \<Rightarrow>
                 (Inr \<lparr>reg_Endpoint = endpoint, reg_Certificate = certPEM,
                       reg_CACertificate = tp_CACertPEM (fu_tunnel uc) s', reg_ServerVersion = fu_version uc\<rparr>, s')))"

definition IssueManifestURL :: "'s FleetUseCase \<Rightarrow> int64 \<Rightarrow> gostring \<Rightarrow> gostring \<Rightarrow> gostring res" where
  "IssueManifestURL uc now cluster userName =
     Inr (trim_right_char CHR ''/'' (mcfg_ServerURL (fu_manifestCfg uc)) @ ''/fleet/manifest/'' @
          Issue (fu_tokenIssuer uc) now cluster userName)"

definition VerifyManifestToken :: "'s FleetUseCase \<Rightarrow> int64 \<Rightarrow> gostring \<Rightarrow> (gostring \<times> gostring) res" where
  "VerifyManifestToken uc now token = Verify (fu_tokenIssuer uc) now token"

definition GenerateAgentManifest :: "'s FleetUseCase \<Rightarrow> gostring \<Rightarrow> gostring \<Rightarrow> gostring res" where
  "GenerateAgentManifest uc cluster userName =
     (case ValidateClusterName cluster of
        Inl e \<Rightarrow> Inl e
      | Inr _ \<Rightarrow>
          if userName = [] then Inl (ErrInvalidInput ''user_name'' ''must not be empty'')
          else fu_renderer uc
                 \<lparr>mp_Cluster = cluster, mp_UserName = userName, mp_Image = ''ghcr.io/otterscale/otterscale:'' @ fu_version uc,
                  mp_ServerURL = mcfg_ServerURL (fu_manifestCfg uc), mp_TunnelURL = mcfg_TunnelURL (fu_manifestCfg uc)\<rparr>)"

section \<open>The service\<close>

record pb_Cluster =
  pbc_Name :: gostring
  pbc_AgentVersion :: gostring

definition toProtoCluster :: "gostring \<Rightarrow> Cluster \<Rightarrow> pb_Cluster" where
  "toProtoCluster name cluster = \<lparr>pbc_Name = name, pbc_AgentVersion = AgentVersion cluster\<rparr>"

text \<open>The map is read in an arbitrary order, then the messages are sorted by name, byte by byte.\<close>

definition toProtoClusters :: "(gostring, Cluster) gomap \<Rightarrow> pb_Cluster list" where
  "toProtoClusters m = sort_key pbc_Name (map (\<lambda>(name, cluster). toProtoCluster name cluster) m)"

definition srv_ListClusters :: "'s FleetUseCase \<Rightarrow> 's \<Rightarrow> pb_Cluster list" where
  "srv_ListClusters uc s = toProtoClusters (uc_ListClusters uc s)"

definition srv_Register ::
  "'s FleetUseCase \<Rightarrow> gostring \<Rightarrow> gostring \<Rightarrow> gostring \<Rightarrow> bytes \<Rightarrow> ('s, Registration) eff" where
  "srv_Register uc cluster agentID agentVersion csr =
     mapErrE domainErrorToConnectError (uc_RegisterCluster uc cluster agentID agentVersion csr)"

definition GetAgentManifest :: "'s FleetUseCase \<Rightarrow> int64 \<Rightarrow> go_context \<Rightarrow> gostring \<Rightarrow> (gostring \<times> gostring) res" where
  "GetAgentManifest uc now ctx cluster =
     (case UserInfoFromContext ctx of
        None \<Rightarrow> Inl (ConnectErr CodeUnauthenticated (Plain ''user info not found in context''))
      | Some userInfo \<Rightarrow>
          (case GenerateAgentManifest uc cluster (ui_Subject userInfo) of
             Inl e \<Rightarrow> Inl (domainErrorToConnectError e)
           | Inr manifest \<Rightarrow>
               (case IssueManifestURL uc now cluster (ui_Subject userInfo) of
                  Inl e \<Rightarrow> Inl (domainErrorToConnectError e)
                | Inr url \<Rightarrow> Inr (manifest, url))))"

section \<open>The raw manifest endpoint\<close>

record http_response =
  resp_status :: nat
  resp_content_type :: gostring
  resp_body :: gostring

text \<open>\<^verbatim>\<open>http.Error\<close> sends the text with a newline.\<close>

definition http_error :: "gostring \<Rightarrow> nat \<Rightarrow> http_response" where
  "http_error msg code = \<lparr>resp_status = code, resp_content_type = ''text/plain; charset=utf-8'', resp_body = msg @ [CHR 0x0A]\<rparr>"

definition mh_VerifyManifestToken :: "'s FleetUseCase \<Rightarrow> int64 \<Rightarrow> gostring \<Rightarrow> (gostring \<times> gostring) res" where
  "mh_VerifyManifestToken fleet now token = VerifyManifestToken fleet now token"

definition mh_RenderManifest :: "'s FleetUseCase \<Rightarrow> gostring \<Rightarrow> gostring \<Rightarrow> gostring res" where
  "mh_RenderManifest fleet cluster userName = GenerateAgentManifest fleet cluster userName"

definition handleRawManifest :: "'s FleetUseCase \<Rightarrow> int64 \<Rightarrow> gostring \<Rightarrow> http_response" where
  "handleRawManifest uc now token =
     (case mh_VerifyManifestToken uc now token of
        Inl e \<Rightarrow> http_error ''invalid or expired token'' 401
      | Inr (cluster, userName) \<Rightarrow>
          (case mh_RenderManifest uc cluster userName of
             Inl e \<Rightarrow> http_error ''failed to render manifest'' 500
           | Inr manifest \<Rightarrow> \<lparr>resp_status = 200, resp_content_type = ''text/yaml; charset=utf-8'', resp_body = manifest\<rparr>))"

text \<open>The route \<^verbatim>\<open>GET /fleet/manifest/{token}\<close>: one non-empty path segment after the prefix.\<close>

definition manifest_route :: "gostring \<Rightarrow> gostring option" where
  "manifest_route path =
     (let token = trim_prefix path ''/fleet/manifest/'' in
      if has_prefix path ''/fleet/manifest/'' \<and> token \<noteq> [] \<and> CHR ''/'' \<notin> set token then Some token else None)"

section \<open>What the use case guarantees of every provider\<close>

context tunnel_provider
begin

text \<open>A successful registration is of a valid name, and the cluster then resolves to the returned
  endpoint; the other clusters and, after a refusal, the state of the provider stay as they are.\<close>

lemma fleet_register:
  assumes "inv s" "tp_RegisterCluster (fu_tunnel uc) = register"
    and "uc_RegisterCluster uc c a v q s = (Inr reg, s')"
  shows "inv s' \<and> dns_label c \<and> resolve s' c = Inr (''http://'' @ reg_Endpoint reg) \<and> (\<forall>c'. c' \<noteq> c \<longrightarrow> resolve s' c' = resolve s c')"
proof -
  have valid: "dns_label c" using assms(3) ValidateClusterName_ok [of c] by (auto simp: uc_RegisterCluster_def split: sum.splits)
  from assms obtain ep cert where reg: "register s c a v q = (Inr (ep, cert), s')" "reg_Endpoint reg = ep"
    by (auto simp: uc_RegisterCluster_def split: sum.splits if_splits prod.splits)
  have "inv s'" using register_inv [OF assms(1), of c a v q] reg(1) by simp
  moreover have "resolve s' c' = resolve s c'" if "c' \<noteq> c" for c'
    using register_frame [OF assms(1) that, of a v q] reg(1) by simp
  ultimately show ?thesis using valid register_resolve [OF assms(1) reg(1)] reg(2) by blast
qed

end

section \<open>Properties\<close>

lemma dns_label_to_valid: "dns_label s \<Longrightarrow> to_valid s = s"
proof (rule to_valid_ascii)
  fix c assume "dns_label s" "c \<in> set s"
  then have "is_alnum_lc c \<or> c = CHR ''-''" by (rule dns_label_no_special)
  then show "ord_of c < 128" by (auto simp: is_alnum_lc_def is_lower_def is_digit_def ord_of_def)
qed

lemma token_segment: "Issue i t c u \<noteq> [] \<and> CHR ''/'' \<notin> set (Issue i t c u) \<and> CHR ''%'' \<notin> set (Issue i t c u)"
  using b64_encode_chars by (fastforce simp: Issue_def Let_def)

text \<open>The signature makes a token longer than the path elements dot and dot dot.\<close>

lemma b64_encode_nonempty: "s \<noteq> [] \<Longrightarrow> b64_encode s \<noteq> []"
  by (metis b64_decode_encode b64_encode.simps(1) option.inject)

lemma token_no_dots: "Issue i t c u \<notin> {[], ''.'', ''..''}"
proof -
  obtain p s where t: "Issue i t c u = b64_encode p @ ''.'' @ b64_encode s" "s \<noteq> []"
    unfolding Issue_def Let_def by (metis length_hmac_sha256 list.size(3) zero_neq_numeral)
  then have "last (Issue i t c u) \<in> set (b64_encode s)" using b64_encode_nonempty [OF t(2)] by simp
  then have "last (Issue i t c u) \<noteq> CHR ''.''" using b64_encode_chars by blast
  moreover have "Issue i t c u \<noteq> []" by (simp add: t(1))
  ultimately show ?thesis by (metis empty_iff insert_iff last.simps list.distinct(1))
qed

lemma route_token: "manifest_route (''/fleet/manifest/'' @ Issue i t c u) = Some (Issue i t c u)"
  using token_segment [of i t c u] by (simp add: manifest_route_def trim_prefix_def has_prefix_def Let_def)

text \<open>The URL is also served by another instance with the same token issuer and the same manifests.\<close>

lemma manifest_url_served:
  assumes "GetAgentManifest uc t ctx cluster = Inr (manifest, url)"
    and "ctx_user ctx = Some u" and "to_valid (ui_Subject u) = ui_Subject u"
    and "\<bar>sint t\<bar> < 2 ^ 61" and "\<bar>sint t'\<bar> < 2 ^ 61"
    and "fu_tokenIssuer uc' = fu_tokenIssuer uc" and "GenerateAgentManifest uc' = GenerateAgentManifest uc"
  shows "url = trim_right_char CHR ''/'' (mcfg_ServerURL (fu_manifestCfg uc)) @ ''/fleet/manifest/'' @
      Issue (fu_tokenIssuer uc) t cluster (ui_Subject u) \<and>
    handleRawManifest uc' t' (Issue (fu_tokenIssuer uc) t cluster (ui_Subject u)) =
      (if sint t - 300 \<le> sint t' \<and> sint t' \<le> sint t + 3600
       then \<lparr>resp_status = 200, resp_content_type = ''text/yaml; charset=utf-8'', resp_body = manifest\<rparr>
       else http_error ''invalid or expired token'' 401)"
proof -
  let ?token = "Issue (fu_tokenIssuer uc) t cluster (ui_Subject u)"
  have gen: "GenerateAgentManifest uc cluster (ui_Subject u) = Inr manifest"
    and url: "url = trim_right_char CHR ''/'' (mcfg_ServerURL (fu_manifestCfg uc)) @ ''/fleet/manifest/'' @ ?token"
    using assms(1,2) by (auto simp: GetAgentManifest_def UserInfoFromContext_def IssueManifestURL_def split: sum.splits)
  have "ValidateClusterName cluster = Inr ()" using gen by (auto simp: GenerateAgentManifest_def split: sum.splits)
  then have "to_valid cluster = cluster" using dns_label_to_valid ValidateClusterName_ok by blast
  then have "handleRawManifest uc' t' ?token =
      (if sint t - 300 \<le> sint t' \<and> sint t' \<le> sint t + 3600
       then \<lparr>resp_status = 200, resp_content_type = ''text/yaml; charset=utf-8'', resp_body = manifest\<rparr>
       else http_error ''invalid or expired token'' 401)"
    using Verify_Issue [OF assms(4,5), of "fu_tokenIssuer uc" cluster "ui_Subject u"] assms(3,6,7) gen
    by (simp add: handleRawManifest_def mh_VerifyManifestToken_def mh_RenderManifest_def VerifyManifestToken_def)
  then show ?thesis using url by blast
qed

text \<open>
  Claim C8. The URL returned with a manifest serves that very manifest: its path reaches the raw
  manifest endpoint, which for one hour (and from five minutes earlier, for skewed clocks) answers
  with the manifest the caller was given, without further authentication, and afterwards refuses.
  The user name is any valid UTF-8 text.
\<close>

theorem manifest_url_serves_manifest:
  assumes "GetAgentManifest uc t ctx cluster = Inr (manifest, url)"
    and "ctx_user ctx = Some u" and "to_valid (ui_Subject u) = ui_Subject u"
    and "\<bar>sint t\<bar> < 2 ^ 61" and "\<bar>sint t'\<bar> < 2 ^ 61"
  shows "\<exists>path token. url = trim_right_char CHR ''/'' (mcfg_ServerURL (fu_manifestCfg uc)) @ path \<and>
    manifest_route path = Some token \<and>
    handleRawManifest uc t' token =
      (if sint t - 300 \<le> sint t' \<and> sint t' \<le> sint t + 3600
       then \<lparr>resp_status = 200, resp_content_type = ''text/yaml; charset=utf-8'', resp_body = manifest\<rparr>
       else http_error ''invalid or expired token'' 401)"
  using manifest_url_served [OF assms refl refl] route_token by blast

definition demo_fleet :: "unit FleetUseCase" where
  "demo_fleet = \<lparr>fu_tunnel = \<lparr>tp_CACertPEM = (\<lambda>_. []), tp_ListClusters = (\<lambda>_. []),
       tp_RegisterCluster = (\<lambda>s _ _ _ _. (Inl (ErrNotReady ''chisel server''), s)), tp_ResolveAddress = (\<lambda>_ c. Inl (ErrClusterNotFound c))\<rparr>,
     fu_version = ''v1'', fu_manifestCfg = \<lparr>mcfg_ServerURL = ''https://s/'', mcfg_TunnelURL = ''https://t'', mcfg_HMACKey = ''k''\<rparr>,
     fu_renderer = RenderAgentManifest, fu_tokenIssuer = \<lparr>hmacKey = ''k''\<rparr>\<rparr>"

definition demo_user :: UserInfo where
  "demo_user = \<lparr>ui_Subject = ''alice'', ui_Groups = []\<rparr>"

theorem manifest_url_serves_manifest_witness:
  "\<exists>manifest url path token. GetAgentManifest demo_fleet 1000000 \<lparr>ctx_user = Some demo_user\<rparr> ''prod'' = Inr (manifest, url) \<and>
     url = ''https://s'' @ path \<and> manifest_route path = Some token \<and>
     resp_status (handleRawManifest demo_fleet 1003600 token) = 200 \<and> resp_body (handleRawManifest demo_fleet 1003600 token) = manifest"
proof -
  let ?ctx = "\<lparr>ctx_user = Some demo_user\<rparr>"
  have "dns_label ''prod''" by code_simp
  then have "ValidateClusterName ''prod'' = Inr ()" by (simp add: ValidateClusterName_ok)
  then obtain manifest url where get: "GetAgentManifest demo_fleet 1000000 ?ctx ''prod'' = Inr (manifest, url)"
    by (auto simp: GetAgentManifest_def UserInfoFromContext_def GenerateAgentManifest_def IssueManifestURL_def demo_fleet_def
        demo_user_def RenderAgentManifest_def)
  have user: "to_valid (ui_Subject demo_user) = ui_Subject demo_user"
    unfolding demo_user_def by (rule to_valid_ascii) (auto simp: ord_of_def)
  have srv: "trim_right_char CHR ''/'' (mcfg_ServerURL (fu_manifestCfg demo_fleet)) = ''https://s''"
    by (simp add: demo_fleet_def trim_right_char_def)
  obtain path token where "url = ''https://s'' @ path" "manifest_route path = Some token"
      "resp_status (handleRawManifest demo_fleet 1003600 token) = 200" "resp_body (handleRawManifest demo_fleet 1003600 token) = manifest"
    using manifest_url_serves_manifest [OF get _ user, of 1003600] srv by auto
  then show ?thesis using get by blast
qed

text \<open>
  A registration through the API that succeeds is of a valid cluster name; the cluster
  then resolves to the returned endpoint and no other cluster is affected. A request with an
  invalid cluster name, an empty agent ID or an empty CSR is answered with an invalid-argument
  error and changes nothing.
\<close>

theorem register_api:
  assumes "service_inv (fst st)" and "fu_tunnel uc = chisel_provider L C now"
    and "srv_Register uc cluster agentID version csr st = (res, st')"
  shows "(case res of
      Inr reg \<Rightarrow> dns_label cluster \<and> service_inv (fst st') \<and>
        ResolveAddress (fst st') cluster = Inr (''http://'' @ reg_Endpoint reg) \<and>
        (\<forall>c'. c' \<noteq> cluster \<longrightarrow> ResolveAddress (fst st') c' = ResolveAddress (fst st) c')
    | Inl e \<Rightarrow> (if dns_label cluster \<and> agentID \<noteq> [] \<and> csr \<noteq> [] then True
         else connect_code_of e = Some CodeInvalidArgument \<and> st' = st))"
proof (cases res)
  case (Inr reg)
  then have "uc_RegisterCluster uc cluster agentID version csr st = (Inr reg, st')"
    using assms(3) by (simp add: srv_Register_def)
  moreover have "tp_RegisterCluster (fu_tunnel uc) = RegisterCluster L C now" by (simp add: assms(2) chisel_provider_def)
  ultimately have "service_inv (fst st') \<and> dns_label cluster \<and> ResolveAddress (fst st') cluster = Inr (''http://'' @ reg_Endpoint reg) \<and>
      (\<forall>c'. c' \<noteq> cluster \<longrightarrow> ResolveAddress (fst st') c' = ResolveAddress (fst st) c')"
    using chisel.fleet_register [of st uc L C now cluster agentID version csr reg st'] assms(1) by blast
  then show ?thesis using Inr by simp
next
  case (Inl e)
  then obtain e' where uc: "uc_RegisterCluster uc cluster agentID version csr st = (Inl e', st')" "e = domainErrorToConnectError e'"
    using assms(3) by (auto simp: srv_Register_def mapErrE_Inl)
  have "\<exists>f m. e' = ErrInvalidInput f m \<and> st' = st" if "\<not> (dns_label cluster \<and> agentID \<noteq> [] \<and> csr \<noteq> [])"
    using uc(1) that ValidateClusterName_ok [of cluster] ValidateClusterName_error [of cluster]
    by (auto simp: uc_RegisterCluster_def split: sum.splits if_splits)
  moreover have "connect_code_of (domainErrorToConnectError (ErrInvalidInput f m)) = Some CodeInvalidArgument" for f m
    by simp
  ultimately show ?thesis using Inl uc(2) by auto
qed

definition demo_api_fleet ::
  "(((gostring, gostring \<times> gostring) gomap, nat, bool \<times> nat) Service \<times> nat) FleetUseCase" where
  "demo_api_fleet = \<lparr>fu_tunnel = chisel_provider demo_lib demo_chisel 0, fu_version = ''v1'',
     fu_manifestCfg = \<lparr>mcfg_ServerURL = ''https://s/'', mcfg_TunnelURL = ''https://t'', mcfg_HMACKey = ''k''\<rparr>,
     fu_renderer = RenderAgentManifest, fu_tokenIssuer = \<lparr>hmacKey = ''k''\<rparr>\<rparr>"

theorem register_api_witness:
  "(\<exists>reg st'. srv_Register demo_api_fleet ''prod'' ''agent'' ''v1'' demo_csr (demo_service, 0) = (Inr reg, st') \<and>
      ResolveAddress (fst st') ''prod'' = Inr (''http://'' @ reg_Endpoint reg)) \<and>
   (\<exists>e. srv_Register demo_api_fleet ''Prod'' ''agent'' ''v1'' demo_csr (demo_service, 0) = (Inl e, demo_service, 0) \<and>
      connect_code_of e = Some CodeInvalidArgument)"
proof
  have tun: "fu_tunnel demo_api_fleet = chisel_provider demo_lib demo_chisel 0" by (simp add: demo_api_fleet_def)
  have inv: "service_inv (fst (demo_service, 0 :: nat))" by (simp add: demo_service_inv)
  have "dns_label ''prod''" by code_simp
  then have valid: "ValidateClusterName ''prod'' = Inr ()" by (simp add: ValidateClusterName_ok)
  obtain ep cert s1 r1 where
    "RegisterCluster demo_lib demo_chisel 0 (demo_service, 0) ''prod'' ''agent'' ''v1'' demo_csr = (Inr (ep, cert), s1, r1)"
    by (rule demo_register_first)
  moreover have "demo_csr \<noteq> []" by (simp add: demo_csr_def demo_lib_def)
  ultimately have "\<exists>reg. srv_Register demo_api_fleet ''prod'' ''agent'' ''v1'' demo_csr (demo_service, 0) = (Inr reg, s1, r1)"
    by (simp add: srv_Register_def uc_RegisterCluster_def valid tun chisel_provider_def)
  then obtain reg where reg: "srv_Register demo_api_fleet ''prod'' ''agent'' ''v1'' demo_csr (demo_service, 0) = (Inr reg, s1, r1)" by blast
  show "\<exists>reg st'. srv_Register demo_api_fleet ''prod'' ''agent'' ''v1'' demo_csr (demo_service, 0) = (Inr reg, st') \<and>
      ResolveAddress (fst st') ''prod'' = Inr (''http://'' @ reg_Endpoint reg)"
    using register_api [OF inv tun reg] reg by auto
  have bad: "\<not> dns_label ''Prod''" by code_simp
  then obtain e where e: "ValidateClusterName ''Prod'' = Inl e"
    using ValidateClusterName_ok [of "''Prod''"] ValidateClusterName_cases [of "''Prod''"] by auto
  then obtain e' where no: "srv_Register demo_api_fleet ''Prod'' ''agent'' ''v1'' demo_csr (demo_service, 0) = (Inl e', demo_service, 0)"
    by (simp add: srv_Register_def uc_RegisterCluster_def mapErrE_def)
  show "\<exists>e. srv_Register demo_api_fleet ''Prod'' ''agent'' ''v1'' demo_csr (demo_service, 0) = (Inl e, demo_service, 0) \<and>
      connect_code_of e = Some CodeInvalidArgument"
    using register_api [OF inv tun no] bad no by simp
qed

text \<open>The listing depends on the registered clusters only, not on the order in which the map is
  read, and it is sorted by name.\<close>

lemma toProtoClusters_deterministic:
  assumes "gwf m" "gwf m'" "gget m = gget m'"
  shows "toProtoClusters m = toProtoClusters m'" "sorted (map pbc_Name (toProtoClusters m))"
    "set (toProtoClusters m) = (\<lambda>(name, c). toProtoCluster name c) ` set m"
proof -
  let ?f = "\<lambda>(name, c). toProtoCluster name c"
  have same: "set m = set m'" using assms gget_Some_iff [of m] gget_Some_iff [of m'] by (metis (no_types, lifting) subrelI subset_antisym)
  have inj: "inj_on pbc_Name (?f ` set m)" if "gwf m" for m
    using that by (force simp: inj_on_def toProtoCluster_def gwf_def dest: eq_key_imp_eq_value)
  have sets: "set (toProtoClusters x) = ?f ` set x" for x by (simp add: toProtoClusters_def)
  have names: "sorted (map pbc_Name (toProtoClusters x)) \<and> distinct (map pbc_Name (toProtoClusters x))" if "gwf x" for x
  proof -
    have "map pbc_Name (map ?f x) = map fst x" by (auto simp: toProtoCluster_def)
    then have "distinct (map pbc_Name (map ?f x))" using that unfolding gwf_def by (simp only:)
    then have "distinct (map ?f x) \<and> inj_on pbc_Name (set (map ?f x))" unfolding distinct_map [of pbc_Name] .
    then show ?thesis by (simp add: toProtoClusters_def distinct_map)
  qed
  have "map pbc_Name (toProtoClusters m) = map pbc_Name (toProtoClusters m')"
    using names [OF assms(1)] names [OF assms(2)] sets [of m] sets [of m'] same
    by (intro sorted_distinct_set_unique) simp_all
  then show "toProtoClusters m = toProtoClusters m'"
    using inj [OF assms(1)] sets [of m] sets [of m'] same by (intro map_inj_on [of pbc_Name]) simp_all
  show "sorted (map pbc_Name (toProtoClusters m))" by (simp add: toProtoClusters_def)
  show "set (toProtoClusters m) = ?f ` set m" by (simp add: toProtoClusters_def)
qed

end
