(* ===== verification/Tunnel_Client.thy ===== *)
theory Tunnel_Client
  imports Manifest_Renderer
begin

text \<open>
  The agent's side of the tunnel: \<^verbatim>\<open>internal/transport/tunnel/backoff.go\<close> and
  \<^verbatim>\<open>internal/transport/tunnel/client.go\<close>.

  Durations are signed 64-bit nanoseconds. The random number of a jittered delay, the results of
  registration, of the chisel client and of the file operations, and whether the context is done,
  are the inputs of one iteration of the loop; the loop is a function of the list of iterations.
\<close>

section \<open>\<^verbatim>\<open>backoff.go\<close>\<close>

definition auth_texts :: "gostring list" where
  "auth_texts = [''unable to authenticate'', ''authentication failed'', ''auth failed'', ''unauthorized'', ''invalid auth'']"

definition isAuthErr :: "go_error \<Rightarrow> bool" where
  "isAuthErr e \<longleftrightarrow> list_ex (contains_sub (ToLower (error_string e))) auth_texts"

record backoff =
  bo_base :: int64
  bo_max :: int64
  bo_current :: int64

definition newBackoff :: "int64 \<Rightarrow> int64 \<Rightarrow> backoff" where
  "newBackoff base mx = \<lparr>bo_base = base, bo_max = mx, bo_current = base\<rparr>"

text \<open>\<open>j\<close> is the random draw; the result is \<^const>\<open>None\<close> when \<^verbatim>\<open>rand.Int64N\<close> panics because its
  argument is not positive.\<close>

definition bo_Next :: "int64 \<Rightarrow> backoff \<Rightarrow> (int64 \<times> backoff) option" where
  "bo_Next j b =
     (let d = bo_current b; bound = d + 1 in
      if sint bound \<le> 0 then None
      else
        (let jittered = word_of_int (sint j mod sint bound);
             next = bo_current b * 2
         in Some (jittered, b\<lparr>bo_current := (if sint next > sint (bo_max b) then bo_max b else next)\<rparr>)))"

definition bo_Reset :: "backoff \<Rightarrow> backoff" where
  "bo_Reset b = b\<lparr>bo_current := bo_base b\<rparr>"

section \<open>\<^verbatim>\<open>client.go\<close>: options\<close>

record RegisterResult =
  rr_Endpoint :: gostring
  rr_Auth :: gostring
  rr_CACertPEM :: bytes
  rr_CertPEM :: bytes
  rr_KeyPEM :: bytes

text \<open>\<open>cl_disk\<close> is the part of the file system with the client's temporary directories and
  \<open>cl_inner\<close> says that an inner client has been stored.\<close>

record Client =
  cl_inner :: bool
  cl_certDir :: gostring
  cl_cluster :: gostring
  cl_serverURL :: gostring
  cl_tunnelServerURL :: gostring
  cl_localPort :: int
  cl_keepAlive :: int64
  cl_maxRetryCount :: int
  cl_maxRetryInterval :: int64
  cl_baseRetryDelay :: int64
  cl_maxRetryDelay :: int64
  cl_register :: bool
  cl_disk :: "(gostring, (gostring, bytes) gomap) gomap"

definition seconds :: "nat \<Rightarrow> int64" where
  "seconds n = of_nat (n * 1000000000)"

definition ErrLocalPortRequired :: go_error where
  "ErrLocalPortRequired = Plain ''tunnel: local port is required''"

definition ErrRegisterRequired :: go_error where
  "ErrRegisterRequired = Plain ''tunnel: register function is required''"

type_synonym ClientOption = "Client \<Rightarrow> Client"

definition WithCluster :: "gostring \<Rightarrow> ClientOption" where
  "WithCluster cluster c = c\<lparr>cl_cluster := cluster\<rparr>"

definition WithServerURL :: "gostring \<Rightarrow> ClientOption" where
  "WithServerURL serverURL c = c\<lparr>cl_serverURL := serverURL\<rparr>"

definition WithTunnelServerURL :: "gostring \<Rightarrow> ClientOption" where
  "WithTunnelServerURL tunnelServerURL c = c\<lparr>cl_tunnelServerURL := tunnelServerURL\<rparr>"

definition WithLocalPort :: "int \<Rightarrow> ClientOption" where
  "WithLocalPort localPort c = c\<lparr>cl_localPort := localPort\<rparr>"

definition WithKeepAlive :: "int64 \<Rightarrow> ClientOption" where
  "WithKeepAlive keepAlive c = c\<lparr>cl_keepAlive := keepAlive\<rparr>"

definition WithMaxRetryCount :: "int \<Rightarrow> ClientOption" where
  "WithMaxRetryCount maxRetryCount c = c\<lparr>cl_maxRetryCount := maxRetryCount\<rparr>"

definition WithMaxRetryInterval :: "int64 \<Rightarrow> ClientOption" where
  "WithMaxRetryInterval maxRetryInterval c = c\<lparr>cl_maxRetryInterval := maxRetryInterval\<rparr>"

definition WithBaseRetryDelay :: "int64 \<Rightarrow> ClientOption" where
  "WithBaseRetryDelay baseRetryDelay c = c\<lparr>cl_baseRetryDelay := baseRetryDelay\<rparr>"

definition WithMaxRetryDelay :: "int64 \<Rightarrow> ClientOption" where
  "WithMaxRetryDelay maxRetryDelay c = c\<lparr>cl_maxRetryDelay := maxRetryDelay\<rparr>"

text \<open>The argument says whether the function is not nil.\<close>

definition WithRegister :: "bool \<Rightarrow> ClientOption" where
  "WithRegister register c = c\<lparr>cl_register := register\<rparr>"

definition NewClient :: "ClientOption list \<Rightarrow> Client res" where
  "NewClient opts =
     (let c = fold (\<lambda>opt c. opt c) opts
                \<lparr>cl_inner = False, cl_certDir = [], cl_cluster = ''default'', cl_serverURL = ''http://127.0.0.1:8299'',
                 cl_tunnelServerURL = ''https://127.0.0.1:8300'', cl_localPort = 0, cl_keepAlive = seconds 30,
                 cl_maxRetryCount = 3, cl_maxRetryInterval = seconds 10, cl_baseRetryDelay = seconds 1,
                 cl_maxRetryDelay = seconds 30, cl_register = False, cl_disk = []\<rparr>
      in if cl_localPort c = 0 then Inl ErrLocalPortRequired
         else if \<not> cl_register c then Inl ErrRegisterRequired
         else Inr c)"

section \<open>\<^verbatim>\<open>client.go\<close>: \<^verbatim>\<open>dial\<close> and \<^verbatim>\<open>Stop\<close>\<close>

record chisel_config =
  cc_Server :: gostring
  cc_Auth :: gostring
  cc_CA :: gostring
  cc_Cert :: gostring
  cc_Key :: gostring
  cc_Remotes :: "gostring list"
  cc_KeepAlive :: int64
  cc_MaxRetryCount :: int
  cc_MaxRetryInterval :: int64

text \<open>What the environment does during one \<^verbatim>\<open>dial\<close>: the result of the registration, the new
  directory or the error, whether the old directory could be removed, the error of each write,
  and the outcome of the chisel constructor.\<close>

record dial_env =
  de_register :: "RegisterResult res"
  de_mkdir :: "gostring res"
  de_removed :: bool
  de_write_ca :: "go_error option"
  de_write_cert :: "go_error option"
  de_write_key :: "go_error option"
  de_new_client :: "unit res"

text \<open>\<^verbatim>\<open>os.WriteFile\<close> fails when the directory does not exist.\<close>

definition write_in :: "go_error option \<Rightarrow> gostring \<Rightarrow> gostring \<Rightarrow> bytes \<Rightarrow> Client \<Rightarrow> go_error option \<times> Client" where
  "write_in failure dir f data c =
     (case failure of
        Some e \<Rightarrow> (Some e, c)
      | None \<Rightarrow>
          (case gget (cl_disk c) dir of
             None \<Rightarrow> (Some (Plain ''no such file or directory''), c)
           | Some fs \<Rightarrow> (None, c\<lparr>cl_disk := gput dir (gput f data fs) (cl_disk c)\<rparr>)))"

definition remove_dir :: "bool \<Rightarrow> gostring \<Rightarrow> Client \<Rightarrow> Client" where
  "remove_dir ok dir c = (if ok then c\<lparr>cl_disk := gdel dir (cl_disk c)\<rparr> else c)"

definition chisel_client_config :: "Client \<Rightarrow> RegisterResult \<Rightarrow> gostring \<Rightarrow> chisel_config" where
  "chisel_client_config c result dir =
     \<lparr>cc_Server = cl_tunnelServerURL c, cc_Auth = rr_Auth result,
      cc_CA = dir @ ''/ca.pem'', cc_Cert = dir @ ''/cert.pem'', cc_Key = dir @ ''/key.pem'',
      cc_Remotes = [''R:'' @ rr_Endpoint result @ '':127.0.0.1:'' @ itoa_int (cl_localPort c)],
      cc_KeepAlive = cl_keepAlive c, cc_MaxRetryCount = cl_maxRetryCount c,
      cc_MaxRetryInterval = cl_maxRetryInterval c\<rparr>"

text \<open>\<^verbatim>\<open>dial\<close> runs in the goroutine of \<^verbatim>\<open>Start\<close> while \<^verbatim>\<open>Stop\<close> runs in another one; the two
  synchronise only on the mutex around the directory name. The program points of \<^verbatim>\<open>dial\<close> are
  therefore explicit, one step is what happens between two of them, and \<^verbatim>\<open>Stop\<close> can run at
  each of them.\<close>

datatype dial_pc =
    AtRegister
  | AtMkdir RegisterResult
  | AtSwap gostring RegisterResult
  | AtRemoveOld gostring gostring RegisterResult
  | AtWriteCA gostring RegisterResult
  | AtWriteCert gostring RegisterResult
  | AtWriteKey gostring RegisterResult
  | AtNewClient gostring RegisterResult
  | is_Dialed: Dialed (dialed: "chisel_config res")

fun dial_step :: "dial_env \<Rightarrow> dial_pc \<Rightarrow> Client \<Rightarrow> dial_pc \<times> Client" where
  "dial_step en AtRegister c =
     (case de_register en of
        Inl e \<Rightarrow> (Dialed (Inl (Wrap ''register'' e)), c)
      | Inr result \<Rightarrow> (AtMkdir result, c))"
| "dial_step en (AtMkdir result) c =
     (case de_mkdir en of
        Inl e \<Rightarrow> (Dialed (Inl (Wrap ''create cert dir'' e)), c)
      | Inr dir \<Rightarrow> (AtSwap dir result, c\<lparr>cl_disk := gput dir [] (cl_disk c)\<rparr>))"
| "dial_step en (AtSwap dir result) c =
     (AtRemoveOld (cl_certDir c) dir result, c\<lparr>cl_certDir := dir\<rparr>)"
| "dial_step en (AtRemoveOld oldDir dir result) c =
     (AtWriteCA dir result, if oldDir \<noteq> [] then remove_dir (de_removed en) oldDir c else c)"
| "dial_step en (AtWriteCA dir result) c =
     (case write_in (de_write_ca en) dir ''ca.pem'' (rr_CACertPEM result) c of
        (Some e, c') \<Rightarrow> (Dialed (Inl (Wrap ''write CA cert'' e)), c')
      | (None, c') \<Rightarrow> (AtWriteCert dir result, c'))"
| "dial_step en (AtWriteCert dir result) c =
     (case write_in (de_write_cert en) dir ''cert.pem'' (rr_CertPEM result) c of
        (Some e, c') \<Rightarrow> (Dialed (Inl (Wrap ''write client cert'' e)), c')
      | (None, c') \<Rightarrow> (AtWriteKey dir result, c'))"
| "dial_step en (AtWriteKey dir result) c =
     (case write_in (de_write_key en) dir ''key.pem'' (rr_KeyPEM result) c of
        (Some e, c') \<Rightarrow> (Dialed (Inl (Wrap ''write client key'' e)), c')
      | (None, c') \<Rightarrow> (AtNewClient dir result, c'))"
| "dial_step en (AtNewClient dir result) c =
     (Dialed (case de_new_client en of Inl e \<Rightarrow> Inl e | Inr _ \<Rightarrow> Inr (chisel_client_config c result dir)), c)"
| "dial_step en (Dialed r) c = (Dialed r, c)"

fun steps_left :: "dial_pc \<Rightarrow> nat" where
  "steps_left AtRegister = 8"
| "steps_left (AtMkdir _) = 7"
| "steps_left (AtSwap _ _) = 6"
| "steps_left (AtRemoveOld _ _ _) = 5"
| "steps_left (AtWriteCA _ _) = 4"
| "steps_left (AtWriteCert _ _) = 3"
| "steps_left (AtWriteKey _ _) = 2"
| "steps_left (AtNewClient _ _) = 1"
| "steps_left (Dialed _) = 0"

lemma dial_step_progress: "\<not> is_Dialed pc \<Longrightarrow> steps_left (fst (dial_step en pc c)) < steps_left pc"
  by (cases pc) (auto split: sum.splits prod.splits option.splits)

text \<open>The rest of a \<^verbatim>\<open>dial\<close> from a program point.\<close>

function dial_from :: "dial_env \<Rightarrow> dial_pc \<Rightarrow> Client \<Rightarrow> chisel_config res \<times> Client" where
  "dial_from en pc c =
     (if is_Dialed pc then (dialed pc, c)
      else dial_from en (fst (dial_step en pc c)) (snd (dial_step en pc c)))"
  by pat_completeness auto
termination
  by (relation "measure (\<lambda>(en, pc, c). steps_left pc)") (auto simp: case_prod_beta dial_step_progress)

declare dial_from.simps [simp del]

definition dial :: "dial_env \<Rightarrow> Client \<Rightarrow> chisel_config res \<times> Client" where
  "dial en c = dial_from en AtRegister c"

text \<open>\<open>removed\<close> says whether the directory could be removed, \<open>close\<close> is the result of closing the
  inner client.\<close>

definition Stop :: "bool \<Rightarrow> unit res \<Rightarrow> Client \<Rightarrow> unit res \<times> Client" where
  "Stop removed close c =
     (let c1 = (if cl_certDir c \<noteq> [] then (remove_dir removed (cl_certDir c) c)\<lparr>cl_certDir := []\<rparr> else c)
      in (if \<not> cl_inner c1 then Inr () else close, c1))"

text \<open>A session: the error of \<^verbatim>\<open>Start\<close>, or what \<^verbatim>\<open>Wait\<close> returns.\<close>

datatype session_end = StartError go_error | WaitReturned "go_error option"

fun runSession :: "session_end \<Rightarrow> go_error option" where
  "runSession (StartError e) = Some (Wrap ''start'' e)"
| "runSession (WaitReturned r) = r"

section \<open>\<^verbatim>\<open>client.go\<close>: the loop\<close>

record iteration =
  it_done_before :: bool
  it_dial :: dial_env
  it_jitter :: int64
  it_slept :: bool
  it_session :: session_end
  it_done_after :: bool

datatype action = Connected chisel_config | Slept int64 | Panicked

text \<open>One iteration: what it did, the client, and the backoff to go on with unless the loop ends.\<close>

type_synonym loop_result = "action list \<times> Client \<times> backoff option"

definition sleep_step :: "iteration \<Rightarrow> backoff \<Rightarrow> action list \<Rightarrow> Client \<Rightarrow> loop_result" where
  "sleep_step it b acts c =
     (case bo_Next (it_jitter it) b of
        None \<Rightarrow> (acts @ [Panicked], c, None)
      | Some (d, b') \<Rightarrow> (acts @ [Slept d], c, if it_slept it then Some b' else None))"

text \<open>A session that ended without an error or with an authentication error is followed by a
  registration without a delay.\<close>

definition reregister_now :: "go_error option \<Rightarrow> bool" where
  "reregister_now err \<longleftrightarrow> (case err of None \<Rightarrow> True | Some e \<Rightarrow> isAuthErr e)"

definition loop_step :: "iteration \<Rightarrow> backoff \<Rightarrow> Client \<Rightarrow> loop_result" where
  "loop_step it b c =
     (if it_done_before it then ([], c, None)
      else
        (case dial (it_dial it) c of
           (Inl e, c1) \<Rightarrow> sleep_step it b [] c1
         | (Inr cfg, c1) \<Rightarrow>
             (let b1 = bo_Reset b; c2 = c1\<lparr>cl_inner := True\<rparr>; err = runSession (it_session it) in
              if it_done_after it then ([Connected cfg], c2, None)
              else if reregister_now err then ([Connected cfg], c2, Some (bo_Reset b1))
              else sleep_step it b1 [Connected cfg] c2)))"

fun client_loop :: "backoff \<Rightarrow> Client \<Rightarrow> iteration list \<Rightarrow> action list \<times> Client" where
  "client_loop b c [] = ([], c)"
| "client_loop b c (it # its) =
     (case loop_step it b c of
        (acts, c', None) \<Rightarrow> (acts, c')
      | (acts, c', Some b') \<Rightarrow> (case client_loop b' c' its of (acts', c'') \<Rightarrow> (acts @ acts', c'')))"

definition Start :: "Client \<Rightarrow> iteration list \<Rightarrow> action list \<times> Client" where
  "Start c its = client_loop (newBackoff (cl_baseRetryDelay c) (cl_maxRetryDelay c)) c its"

section \<open>Lemmas: delays\<close>

definition backoff_inv :: "backoff \<Rightarrow> bool" where
  "backoff_inv b \<longleftrightarrow> 0 \<le> sint (bo_base b) \<and> sint (bo_base b) \<le> sint (bo_current b) \<and>
     sint (bo_current b) \<le> sint (bo_max b) \<and> sint (bo_max b) < 2 ^ 62"

lemma backoff_Next:
  assumes "backoff_inv b"
  shows "\<exists>d. bo_Next j b = Some (d, b\<lparr>bo_current := word_of_int (min (2 * sint (bo_current b)) (sint (bo_max b)))\<rparr>) \<and>
    0 \<le> sint d \<and> sint d \<le> sint (bo_current b)"
proof -
  let ?c = "sint (bo_current b)"
  have c: "0 \<le> ?c" "?c < 2 ^ 62" using assms by (auto simp: backoff_inv_def)
  have bound: "sint (bo_current b + 1) = ?c + 1"
    using c by (simp add: sint_word_ariths(1) signed_take_bit_int_eq_self)
  have dbl: "sint (bo_current b * 2) = 2 * ?c"
    using c by (simp add: sint_word_ariths(3) signed_take_bit_int_eq_self mult.commute)
  let ?j = "sint j mod (?c + 1)"
  have pos: "0 < ?c + 1" using c(1) by linarith
  have j: "0 \<le> ?j" "?j \<le> ?c" using pos_mod_sign [OF pos, of "sint j"] pos_mod_bound [OF pos, of "sint j"] by linarith+
  have sj: "sint (word_of_int ?j :: int64) = ?j"
  proof -
    have "?j < 4611686018427387904" using j(2) c(2) by simp
    then have "signed_take_bit 63 ?j = ?j" using j(1) by (intro signed_take_bit_int_eq_self) (linarith | simp)+
    then show ?thesis by (simp add: sint_sbintrunc')
  qed
  have "bo_current b * 2 = word_of_int (2 * ?c)" unfolding dbl [symmetric] by simp
  then have "(if sint (bo_current b * 2) > sint (bo_max b) then bo_max b else bo_current b * 2) =
      word_of_int (min (2 * ?c) (sint (bo_max b)))"
    using dbl by (simp add: min_def)
  then show ?thesis using bound c(1) j sj by (simp add: bo_Next_def Let_def)
qed

lemma backoff_inv_Next:
  assumes "backoff_inv b" "bo_Next j b = Some (d, b')"
  shows "backoff_inv b'" "0 \<le> sint d" "sint d \<le> sint (bo_current b)" "sint d \<le> sint (bo_max b)"
    "bo_base b' = bo_base b" "bo_max b' = bo_max b"
proof -
  let ?n = "min (2 * sint (bo_current b)) (sint (bo_max b))"
  have d: "b' = b\<lparr>bo_current := word_of_int ?n\<rparr>" "0 \<le> sint d" "sint d \<le> sint (bo_current b)"
    using backoff_Next [OF assms(1), of j] assms(2) by auto
  have n: "0 \<le> ?n" "?n < 4611686018427387904" "sint (bo_base b) \<le> ?n" "?n \<le> sint (bo_max b)"
    using assms(1) by (auto simp: backoff_inv_def)
  then have "signed_take_bit 63 ?n = ?n" by (intro signed_take_bit_int_eq_self) (linarith | simp)+
  then have "sint (word_of_int ?n :: int64) = ?n" by (simp add: sint_sbintrunc')
  then show "backoff_inv b'" using d(1) n assms(1) by (simp add: backoff_inv_def)
  show "0 \<le> sint d" "sint d \<le> sint (bo_current b)" using d by simp_all
  show "sint d \<le> sint (bo_max b)" using d(3) assms(1) by (simp add: backoff_inv_def)
  show "bo_base b' = bo_base b" "bo_max b' = bo_max b" by (simp_all add: d(1))
qed

lemma backoff_inv_Reset: "backoff_inv b \<Longrightarrow> backoff_inv (bo_Reset b) \<and> bo_base (bo_Reset b) = bo_base b \<and> bo_max (bo_Reset b) = bo_max b \<and> bo_current (bo_Reset b) = bo_base b"
  by (simp add: backoff_inv_def bo_Reset_def)

text \<open>Delays of a run: at most the maximum, and at most the base delay right after a connection.
  The flag says that the previous action was a connection.\<close>

fun delays_ok :: "int \<Rightarrow> int \<Rightarrow> bool \<Rightarrow> action list \<Rightarrow> bool" where
  "delays_ok base mx connected [] \<longleftrightarrow> True"
| "delays_ok base mx connected (Connected cfg # acts) \<longleftrightarrow> delays_ok base mx True acts"
| "delays_ok base mx connected (Slept d # acts) \<longleftrightarrow>
     0 \<le> sint d \<and> sint d \<le> (if connected then base else mx) \<and> delays_ok base mx False acts"
| "delays_ok base mx connected (Panicked # acts) \<longleftrightarrow> False"

definition same_limits :: "backoff \<Rightarrow> backoff \<Rightarrow> bool" where
  "same_limits b b' \<longleftrightarrow> backoff_inv b' \<and> bo_base b' = bo_base b \<and> bo_max b' = bo_max b"

lemma sleep_step_shape:
  assumes "backoff_inv b"
  obtains d b' where "sleep_step it b pre c = (pre @ [Slept d], c, if it_slept it then Some b' else None)"
    "0 \<le> sint d" "sint d \<le> sint (bo_current b)" "same_limits b b'"
proof -
  obtain d b' where n: "bo_Next (it_jitter it) b = Some (d, b')" using backoff_Next [OF assms] by blast
  note N = backoff_inv_Next [OF assms n]
  show thesis by (rule that [of d b']) (use N n in \<open>simp_all add: sleep_step_def same_limits_def\<close>)
qed

text \<open>What one iteration can do.\<close>

lemma loop_step_shape:
  assumes "backoff_inv b"
  obtains (stopped) c' where "loop_step it b c = ([], c', None)"
  | (wait) d b' c' where "loop_step it b c = ([Slept d], c', if it_slept it then Some b' else None)"
      "0 \<le> sint d" "sint d \<le> sint (bo_current b)" "same_limits b b'"
  | (ended) cfg c' where "loop_step it b c = ([Connected cfg], c', None)"
  | (again) cfg c' where "loop_step it b c = ([Connected cfg], c', Some (bo_Reset b))"
  | (lost) cfg d b' c' where "loop_step it b c = ([Connected cfg, Slept d], c', if it_slept it then Some b' else None)"
      "0 \<le> sint d" "sint d \<le> sint (bo_base b)" "same_limits b b'"
proof -
  note R = backoff_inv_Reset [OF assms]
  obtain r c1 where dial: "dial (it_dial it) c = (r, c1)" by (metis surj_pair)
  show thesis
  proof (cases "it_done_before it")
    case True
    then show thesis using stopped by (simp add: loop_step_def)
  next
    case False
    show thesis
    proof (cases r)
      case (Inl e)
      then have "loop_step it b c = sleep_step it b [] c1" using False dial by (simp add: loop_step_def)
      then show thesis using sleep_step_shape [OF assms, of it "[]" c1] wait by auto
    next
      case (Inr cfg)
      let ?c2 = "c1\<lparr>cl_inner := True\<rparr>"
      have "bo_Reset (bo_Reset b) = bo_Reset b" by (simp add: bo_Reset_def)
      then have step: "loop_step it b c = (if it_done_after it then ([Connected cfg], ?c2, None)
          else if reregister_now (runSession (it_session it)) then ([Connected cfg], ?c2, Some (bo_Reset b))
          else sleep_step it (bo_Reset b) [Connected cfg] ?c2)"
        using False Inr dial by (simp add: loop_step_def Let_def)
      obtain d b' where "sleep_step it (bo_Reset b) [Connected cfg] ?c2 = ([Connected cfg, Slept d], ?c2, if it_slept it then Some b' else None)"
          "0 \<le> sint d" "sint d \<le> sint (bo_base b)" "same_limits b b'"
        using sleep_step_shape [of "bo_Reset b" it "[Connected cfg]" ?c2] R by (auto simp: same_limits_def)
      then show thesis using step ended again lost by (auto split: if_splits)
    qed
  qed
qed

lemma client_loop_delays:
  assumes "backoff_inv b" "flag \<Longrightarrow> bo_current b = bo_base b"
  shows "delays_ok (sint (bo_base b)) (sint (bo_max b)) flag (fst (client_loop b c its))"
  using assms
proof (induction its arbitrary: b c flag)
  case (Cons it its)
  have R: "backoff_inv (bo_Reset b)" "bo_base (bo_Reset b) = bo_base b" "bo_max (bo_Reset b) = bo_max b" "bo_current (bo_Reset b) = bo_base b"
    using backoff_inv_Reset [OF Cons.prems(1)] by simp_all
  have cur: "sint (bo_current b) \<le> sint (bo_max b)" using Cons.prems(1) by (simp add: backoff_inv_def)
  have next_ok: "delays_ok (sint (bo_base b)) (sint (bo_max b)) False (fst (client_loop b' c' its))" if "same_limits b b'" for b' c'
    using Cons.IH [of b' False c'] that by (simp add: same_limits_def)
  have again_ok: "delays_ok (sint (bo_base b)) (sint (bo_max b)) True (fst (client_loop (bo_Reset b) c' its))" for c'
    using Cons.IH [of "bo_Reset b" True c'] R by simp
  show ?case
    using Cons.prems(1)
  proof (cases rule: loop_step_shape [of b it c])
    case (wait d b' c')
    then show ?thesis using cur Cons.prems(2) next_ok [of b' c'] by (auto split: prod.splits)
  next
    case (lost cfg d b' c')
    then show ?thesis using next_ok [of b' c'] by (auto split: prod.splits)
  next
    case (again cfg c')
    then show ?thesis using again_ok [of c'] by (auto split: prod.splits)
  qed auto
qed simp

section \<open>Lemmas: temporary directories\<close>

text \<open>Between two iterations at most the current directory is on disk. Inside a \<^verbatim>\<open>dial\<close> the
  old and the new one are; after \<^verbatim>\<open>Stop\<close> has run past the swap, only an old one that \<^verbatim>\<open>dial\<close>
  still has to remove.\<close>

definition dirs :: "Client \<Rightarrow> gostring set" where
  "dirs c = gkeys (cl_disk c)"

definition disk_inv :: "Client \<Rightarrow> bool" where
  "disk_inv c \<longleftrightarrow> dirs c \<subseteq> {cl_certDir c} - {[]}"

fun pc_inv :: "dial_pc \<Rightarrow> Client \<Rightarrow> bool" where
  "pc_inv (AtSwap dir _) c \<longleftrightarrow> dir \<noteq> [] \<and> dirs c \<subseteq> {cl_certDir c, dir} - {[]}"
| "pc_inv (AtRemoveOld old dir _) c \<longleftrightarrow> dir \<noteq> [] \<and> cl_certDir c = dir \<and> dirs c \<subseteq> {old, dir} - {[]}"
| "pc_inv (AtWriteCA dir _) c \<longleftrightarrow> cl_certDir c = dir \<and> disk_inv c"
| "pc_inv (AtWriteCert dir _) c \<longleftrightarrow> cl_certDir c = dir \<and> disk_inv c"
| "pc_inv (AtWriteKey dir _) c \<longleftrightarrow> cl_certDir c = dir \<and> disk_inv c"
| "pc_inv (AtNewClient dir _) c \<longleftrightarrow> cl_certDir c = dir \<and> disk_inv c"
| "pc_inv _ c \<longleftrightarrow> disk_inv c"

fun swapped :: "dial_pc \<Rightarrow> bool" where
  "swapped AtRegister \<longleftrightarrow> False"
| "swapped (AtMkdir _) \<longleftrightarrow> False"
| "swapped (AtSwap _ _) \<longleftrightarrow> False"
| "swapped _ \<longleftrightarrow> True"

fun stopped_inv :: "dial_pc \<Rightarrow> Client \<Rightarrow> bool" where
  "stopped_inv (AtRemoveOld old _ _) c \<longleftrightarrow> dirs c \<subseteq> {old} - {[]}"
| "stopped_inv _ c \<longleftrightarrow> dirs c = {}"

lemma write_in_keeps:
  assumes "write_in failure dir f data c = (r, c')"
  shows "dirs c' = dirs c \<and> cl_certDir c' = cl_certDir c"
  using assms by (auto simp: write_in_def dirs_def gkeys_dom split: option.splits if_splits)

definition dial_env_ok :: "dial_env \<Rightarrow> bool" where
  "dial_env_ok en \<longleftrightarrow> de_removed en \<and> (case de_mkdir en of Inl _ \<Rightarrow> True | Inr dir \<Rightarrow> dir \<noteq> [])"

lemma dial_step_inv:
  assumes "dial_env_ok en" "pc_inv pc c" "dial_step en pc c = (pc', c')"
  shows "pc_inv pc' c'"
proof (cases pc)
  case (AtWriteCA dir result)
  then show ?thesis using assms write_in_keeps by (auto simp: disk_inv_def split: prod.splits option.splits)
next
  case (AtWriteCert dir result)
  then show ?thesis using assms write_in_keeps by (auto simp: disk_inv_def split: prod.splits option.splits)
next
  case (AtWriteKey dir result)
  then show ?thesis using assms write_in_keeps by (auto simp: disk_inv_def split: prod.splits option.splits)
qed (use assms in \<open>auto simp: disk_inv_def dirs_def dial_env_ok_def remove_dir_def split: sum.splits if_splits\<close>)

lemma dial_step_stopped:
  assumes "dial_env_ok en" "stopped_inv pc c" "swapped pc" "dial_step en pc c = (pc', c')"
  shows "stopped_inv pc' c' \<and> swapped pc'"
proof (cases pc)
  case (AtWriteCA dir result)
  then show ?thesis using assms write_in_keeps by (auto split: prod.splits option.splits)
next
  case (AtWriteCert dir result)
  then show ?thesis using assms write_in_keeps by (auto split: prod.splits option.splits)
next
  case (AtWriteKey dir result)
  then show ?thesis using assms write_in_keeps by (auto split: prod.splits option.splits)
qed (use assms in \<open>auto simp: dirs_def dial_env_ok_def remove_dir_def split: sum.splits if_splits\<close>)

text \<open>What every step keeps holds where the rest of a \<^verbatim>\<open>dial\<close> ends.\<close>

lemma dial_from_keeps:
  assumes step: "\<And>pc c pc' c'. P pc c \<Longrightarrow> dial_step en pc c = (pc', c') \<Longrightarrow> P pc' c'"
  shows "P pc c \<Longrightarrow> \<exists>r. P (Dialed r) (snd (dial_from en pc c))"
proof (induction "steps_left pc" arbitrary: pc c rule: less_induct)
  case less
  show ?case
  proof (cases "is_Dialed pc")
    case True
    then show ?thesis using less.prems by (auto simp: dial_from.simps [of en pc c] is_Dialed_def)
  next
    case False
    obtain pc' c' where s: "dial_step en pc c = (pc', c')" by force
    have "steps_left pc' < steps_left pc" using dial_step_progress [OF False, of en c] s by simp
    then show ?thesis
      using less.hyps [of pc' c'] step [OF less.prems s] False s by (simp add: dial_from.simps [of en pc c])
  qed
qed

inductive dial_reaches :: "dial_env \<Rightarrow> dial_pc \<times> Client \<Rightarrow> dial_pc \<times> Client \<Rightarrow> bool" for en where
  here: "dial_reaches en s s"
| further: "dial_reaches en s (pc, c) \<Longrightarrow> dial_reaches en s (dial_step en pc c)"

lemma dial_reaches_inv:
  assumes "dial_reaches en s t" "dial_env_ok en" "pc_inv (fst s) (snd s)"
  shows "pc_inv (fst t) (snd t)"
  using assms
proof (induction rule: dial_reaches.induct)
  case (further s pc c)
  then show ?case using dial_step_inv [of en pc c] by (metis fst_conv prod.collapse snd_conv)
qed

lemma Stop_inv:
  assumes "pc_inv pc c" "swapped pc"
  shows "stopped_inv pc (snd (Stop True close c))"
  using assms by (cases pc) (auto simp: Stop_def disk_inv_def dirs_def remove_dir_def Let_def split: if_splits)

lemma dial_disk:
  assumes "disk_inv c" "dial_env_ok en"
  shows "disk_inv (snd (dial en c))"
  using dial_from_keeps [of pc_inv en AtRegister c] dial_step_inv [OF assms(2)] assms(1)
  by (auto simp: dial_def)

lemma sleep_step_client [simp]: "fst (snd (sleep_step it b acts c)) = c"
  by (simp add: sleep_step_def split: option.splits)

lemma disk_inv_inner [simp]: "disk_inv (c\<lparr>cl_inner := x\<rparr>) = disk_inv c"
  by (simp add: disk_inv_def dirs_def)

lemma loop_step_disk:
  assumes "disk_inv c" "dial_env_ok (it_dial it)"
  shows "disk_inv (fst (snd (loop_step it b c)))"
  using dial_disk [OF assms] assms(1) by (auto simp: loop_step_def Let_def split: prod.splits sum.splits)

lemma client_loop_disk:
  assumes "disk_inv c" "list_all (\<lambda>it. dial_env_ok (it_dial it)) its"
  shows "disk_inv (snd (client_loop b c its))"
  using assms
proof (induction its arbitrary: b c)
  case (Cons it its)
  have "disk_inv (fst (snd (loop_step it b c)))" using Cons.prems by (intro loop_step_disk) simp_all
  then show ?case using Cons.IH Cons.prems(2) by (auto simp: case_prod_beta split: option.splits)
qed simp

lemma dial_after_stop:
  assumes "dial_env_ok en" "pc_inv pc c" "swapped pc"
  shows "dirs (snd (dial_from en pc (snd (Stop True close c)))) = {}"
  using dial_from_keeps [of "\<lambda>pc c. stopped_inv pc c \<and> swapped pc" en pc "snd (Stop True close c)"]
    dial_step_stopped [OF assms(1)] Stop_inv [OF assms(2,3)] assms(3) by auto

section \<open>Properties\<close>

text \<open>For delays below \<^verbatim>\<open>2^62\<close> ns the tunnel client's loop never panics, every wait is between
  zero and the maximal delay, and the wait after a connection, however many registrations failed
  before it, is at most the base delay.\<close>

lemma reconnect_delays:
  assumes "0 \<le> sint (cl_baseRetryDelay c)" "sint (cl_baseRetryDelay c) \<le> sint (cl_maxRetryDelay c)"
    "sint (cl_maxRetryDelay c) < 2 ^ 62"
  shows "delays_ok (sint (cl_baseRetryDelay c)) (sint (cl_maxRetryDelay c)) False (fst (Start c its))"
  using client_loop_delays [of "newBackoff (cl_baseRetryDelay c) (cl_maxRetryDelay c)" False c its] assms
  by (simp add: Start_def newBackoff_def backoff_inv_def)

definition ex_env :: dial_env where
  "ex_env = \<lparr>de_register = Inr \<lparr>rr_Endpoint = ''127.1.2.3:16598'', rr_Auth = ''c1:pw'', rr_CACertPEM = ''CA'', rr_CertPEM = ''CERT'', rr_KeyPEM = ''KEY''\<rparr>,
     de_mkdir = Inr ''/tmp/t1'', de_removed = True, de_write_ca = None, de_write_cert = None, de_write_key = None,
     de_new_client = Inr ()\<rparr>"

definition ex_iteration :: iteration where
  "ex_iteration = \<lparr>it_done_before = False, it_dial = ex_env, it_jitter = 5, it_slept = True,
     it_session = WaitReturned (Some (Plain ''EOF'')), it_done_after = False\<rparr>"

definition ex_client :: Client where
  "ex_client = \<lparr>cl_inner = False, cl_certDir = [], cl_cluster = ''c1'', cl_serverURL = ''http://s'', cl_tunnelServerURL = ''https://t'',
     cl_localPort = 8080, cl_keepAlive = 30, cl_maxRetryCount = 3, cl_maxRetryInterval = 10, cl_baseRetryDelay = 10,
     cl_maxRetryDelay = 300, cl_register = True, cl_disk = []\<rparr>"

lemma demo_reconnect_delays:
  "NewClient [WithCluster ''c1'', WithServerURL ''http://s'', WithTunnelServerURL ''https://t'', WithLocalPort 8080,
     WithKeepAlive 30, WithMaxRetryInterval 10, WithBaseRetryDelay 10, WithMaxRetryDelay 300, WithRegister True] = Inr ex_client \<and>
   delays_ok 10 300 False (fst (Start ex_client [ex_iteration, ex_iteration]))"
proof -
  have "sint (cl_baseRetryDelay ex_client) = 10" "sint (cl_maxRetryDelay ex_client) = 300" by (simp_all add: ex_client_def)
  then have "delays_ok 10 300 False (fst (Start ex_client [ex_iteration, ex_iteration]))"
    using reconnect_delays [of ex_client "[ex_iteration, ex_iteration]"] by simp
  then show ?thesis
    by (simp add: NewClient_def ex_client_def WithCluster_def WithServerURL_def WithTunnelServerURL_def WithLocalPort_def
        WithKeepAlive_def WithMaxRetryInterval_def WithBaseRetryDelay_def WithMaxRetryDelay_def WithRegister_def)
qed

text \<open>Claim C27. The key material of the tunnel client does not survive its shutdown: whatever
  iterations the loop has been through since the client was created without directories, if
  \<^verbatim>\<open>Stop\<close> runs at any point of the next \<^verbatim>\<open>dial\<close> after the new directory was swapped in, then once
  that \<^verbatim>\<open>dial\<close> has ended no directory of the client is left on disk. Removals are assumed to
  succeed and new directories to have a name.\<close>

theorem stop_during_dial_leaves_no_keys:
  assumes "cl_disk c = []" "list_all (\<lambda>it. dial_env_ok (it_dial it)) its" "dial_env_ok en"
    and "dial_reaches en (AtRegister, snd (Start c its)) (pc, c1)" "swapped pc"
  shows "dirs (snd (dial_from en pc (snd (Stop True close c1)))) = {}"
proof -
  have "disk_inv (snd (Start c its))"
    unfolding Start_def using assms(1,2) by (intro client_loop_disk) (simp_all add: disk_inv_def dirs_def)
  then have "pc_inv pc c1" using dial_reaches_inv [OF assms(4,3)] by simp
  then show ?thesis using dial_after_stop assms(3,5) by blast
qed

definition ex_before_write :: Client where
  "ex_before_write = ex_client\<lparr>cl_certDir := ''/tmp/t1'', cl_disk := [(''/tmp/t1'', [])]\<rparr>"

theorem stop_during_dial_leaves_no_keys_witness:
  "dial_reaches ex_env (AtRegister, snd (Start ex_client []))
     (AtWriteCA ''/tmp/t1'' \<lparr>rr_Endpoint = ''127.1.2.3:16598'', rr_Auth = ''c1:pw'', rr_CACertPEM = ''CA'', rr_CertPEM = ''CERT'', rr_KeyPEM = ''KEY''\<rparr>, ex_before_write) \<and>
   dirs ex_before_write = {''/tmp/t1''} \<and>
   dirs (snd (dial_from ex_env (AtWriteCA ''/tmp/t1'' \<lparr>rr_Endpoint = ''127.1.2.3:16598'', rr_Auth = ''c1:pw'', rr_CACertPEM = ''CA'', rr_CertPEM = ''CERT'', rr_KeyPEM = ''KEY''\<rparr>)
     (snd (Stop True (Inr ()) ex_before_write)))) = {}"
proof -
  have start: "snd (Start ex_client []) = ex_client" by (simp add: Start_def)
  let ?r = "\<lparr>rr_Endpoint = ''127.1.2.3:16598'', rr_Auth = ''c1:pw'', rr_CACertPEM = ''CA'', rr_CertPEM = ''CERT'', rr_KeyPEM = ''KEY''\<rparr> :: RegisterResult"
  have s1: "dial_step ex_env AtRegister ex_client = (AtMkdir ?r, ex_client)" by (simp add: ex_env_def)
  let ?c2 = "ex_client\<lparr>cl_disk := [(''/tmp/t1'', [])]\<rparr>"
  have s2: "dial_step ex_env (AtMkdir ?r) ex_client = (AtSwap ''/tmp/t1'' ?r, ?c2)" by (simp add: ex_env_def ex_client_def)
  have s3: "dial_step ex_env (AtSwap ''/tmp/t1'' ?r) ?c2 = (AtRemoveOld [] ''/tmp/t1'' ?r, ex_before_write)"
    by (simp add: ex_client_def ex_before_write_def)
  have s4: "dial_step ex_env (AtRemoveOld [] ''/tmp/t1'' ?r) ex_before_write = (AtWriteCA ''/tmp/t1'' ?r, ex_before_write)" by simp
  have reach: "dial_reaches ex_env (AtRegister, snd (Start ex_client [])) (AtWriteCA ''/tmp/t1'' ?r, ex_before_write)"
    unfolding start using dial_reaches.further dial_reaches.here s1 s2 s3 s4 by metis
  have "dial_env_ok ex_env" by (simp add: dial_env_ok_def ex_env_def)
  then show ?thesis
    using stop_during_dial_leaves_no_keys [OF _ _ _ reach, of "Inr ()"] reach
    by (simp add: ex_client_def ex_before_write_def dirs_def)
qed

text \<open>Before the swap \<^verbatim>\<open>Stop\<close> does not know the new directory: a \<^verbatim>\<open>dial\<close> that is between
  \<^verbatim>\<open>MkdirTemp\<close> and the lock when \<^verbatim>\<open>Stop\<close> runs writes the private key into a directory that nothing
  removes.\<close>

lemma stop_before_swap_leaves_key:
  assumes "gget (cl_disk c) dir = Some []" "cl_certDir c \<noteq> dir"
    and "de_write_ca en = None" "de_write_cert en = None" "de_write_key en = None"
  shows "\<exists>files. gget (cl_disk (snd (dial_from en (AtSwap dir result) (snd (Stop True close c))))) dir = Some files \<and>
    gget files ''key.pem'' = Some (rr_KeyPEM result)"
  using assms by (simp add: dial_from.simps Stop_def remove_dir_def write_in_def Let_def)

end
