(* ===== verification/Json_Roundtrip.thy ===== *)
theory Json_Roundtrip
  imports Go_Json
begin

text \<open>
  \<^verbatim>\<open>encoding/json\<close> on whole values: the encoder for objects, arrays, strings, integers, booleans
  and null (members in the order of the list, as for a struct), and the theorem that the parser
  reads back what the encoder wrote, with strings made valid UTF-8.
\<close>

section \<open>The encoder\<close>

fun json_encode :: "jvalue \<Rightarrow> bytes" where
  "json_encode JvNull = ''null''"
| "json_encode (JvBool b) = (if b then ''true'' else ''false'')"
| "json_encode (JvNum l) = l"
| "json_encode (JvStr s) = json_quote s"
| "json_encode (JvArr vs) = byte_of 91 # join_strings (map json_encode vs) [byte_of 44] @ [byte_of 93]"
| "json_encode (JvObj ms) =
     byte_of 123 # join_strings (map (\<lambda>(k, v). json_quote k @ byte_of 58 # json_encode v) ms) [byte_of 44] @ [byte_of 125]"

text \<open>The value the parser returns, the numbers it covers and the nesting depth.\<close>

fun json_valid :: "jvalue \<Rightarrow> jvalue" where
  "json_valid JvNull = JvNull"
| "json_valid (JvBool b) = JvBool b"
| "json_valid (JvNum l) = JvNum l"
| "json_valid (JvStr s) = JvStr (to_valid s)"
| "json_valid (JvArr vs) = JvArr (map json_valid vs)"
| "json_valid (JvObj ms) = JvObj (map (\<lambda>(k, v). (to_valid k, json_valid v)) ms)"

fun json_ints :: "jvalue \<Rightarrow> bool" where
  "json_ints (JvNum l) \<longleftrightarrow> l = itoa_int (the (parse_int64 l)) \<and> parse_int64 l \<noteq> None"
| "json_ints (JvArr vs) \<longleftrightarrow> (\<forall>v\<in>set vs. json_ints v)"
| "json_ints (JvObj ms) \<longleftrightarrow> (\<forall>(k, v)\<in>set ms. json_ints v)"
| "json_ints _ \<longleftrightarrow> True"

fun json_depth :: "jvalue \<Rightarrow> nat" where
  "json_depth (JvArr vs) = Suc (fold max (map json_depth vs) 0)"
| "json_depth (JvObj ms) = Suc (fold max (map (\<lambda>(k, v). json_depth v) ms) 0)"
| "json_depth _ = 0"

section \<open>Lemmas\<close>

lemma fold_max_ge:
  fixes xs :: "nat list"
  shows "x \<in> set xs \<Longrightarrow> x \<le> fold max xs a" "a \<le> fold max xs a"
proof -
  have *: "a \<le> fold max xs a" for xs :: "nat list" and a by (induction xs arbitrary: a) (auto intro: order.trans [OF max.cobounded2])
  then show "a \<le> fold max xs a" .
  show "x \<in> set xs \<Longrightarrow> x \<le> fold max xs a"
    by (induction xs arbitrary: a) (auto intro: order.trans [OF max.cobounded1 *])
qed

text \<open>What may follow a value.\<close>

definition delim :: "bytes \<Rightarrow> bool" where
  "delim r \<longleftrightarrow> r = [] \<or> hd r = byte_of 44 \<or> hd r = byte_of 93 \<or> hd r = byte_of 125"

lemma delim_Cons [simp]: "delim (byte_of 44 # r)" "delim (byte_of 93 # r)" "delim (byte_of 125 # r)" "delim []"
  by (simp_all add: delim_def)

lemma delim_not_digit: "delim (c # r) \<Longrightarrow> \<not> is_digit c \<and> ord_of c \<noteq> 46 \<and> ord_of c \<noteq> 101 \<and> ord_of c \<noteq> 69"
  by (auto simp: delim_def is_digit_def byte_of_def ord_of_def)

lemma int_part_delim:
  assumes "delim r"
  shows "int_part (itoa n @ r) = Some (itoa n, r)"
proof (cases r)
  case Nil
  obtain x xs where x: "itoa n = x # xs" using itoa_not_Nil by (meson neq_Nil_conv)
  have all: "list_all is_digit (itoa n)" by (simp add: list_all_iff itoa_digits)
  have d: "digits1 (itoa n) = Some (itoa n, [])"
    using all x by (simp add: digits1_def list_all_iff takeWhile_eq_all_conv [THEN iffD2] dropWhile_eq_Nil_conv [THEN iffD2])
  have "itoa n = [x]" if "ord_of x = 48"
  proof -
    have "x = byte_of 48" using byte_of_ord_of [of x] that by simp
    then have "x = digit_char 0" by (simp add: digit_char_def byte_of_def)
    then have "n = 0" using itoa_zero [of n] x by simp
    then have "itoa n = [digit_char 0]" by (simp add: itoa.simps)
    then show ?thesis using x by simp
  qed
  then show ?thesis using Nil x d by (auto simp: int_part_def)
next
  case (Cons c r')
  then show ?thesis using int_part_itoa delim_not_digit assms by blast
qed

lemma num_lit_delim:
  assumes "delim r"
  shows "num_lit (itoa_int i @ r) = Some (itoa_int i, r)"
proof -
  have fe: "frac_part r = Some ([], r)" "exp_part r = Some ([], r)"
    using assms delim_not_digit by (cases r; simp add: frac_part_def exp_part_def)+
  have "ord_of (hd (itoa n)) \<noteq> 45" for n using digit_ord [OF itoa_hd_digit, of n] by linarith
  moreover obtain x xs where "itoa (nat i) = x # xs" using itoa_not_Nil by (meson neq_Nil_conv)
  ultimately show ?thesis
    using int_part_delim [OF assms, of "nat i"] int_part_delim [OF assms, of "nat (- i)"] fe
    by (auto simp: num_lit_def itoa_int_def Let_def) (metis list.sel(1))
qed

lemma parse_int_delim:
  assumes "delim r"
  shows "parse_value (Suc n) d (itoa_int i @ r) = Some (JvNum (itoa_int i), r)"
proof -
  obtain x xs where x: "itoa_int i @ r = x # xs" "ord_of x = 45 \<or> 48 \<le> ord_of x \<and> ord_of x \<le> 57"
  proof -
    have "48 \<le> ord_of (hd (itoa m)) \<and> ord_of (hd (itoa m)) \<le> 57" for m by (rule digit_ord) (rule itoa_hd_digit)
    then show thesis
      using that by (cases "i < 0"; cases "itoa (nat i)") (auto simp: itoa_int_def split: if_splits, metis list.sel(1))
  qed
  have "\<not> json_ws x" "ord_of x \<noteq> 34" "ord_of x \<noteq> 123" "ord_of x \<noteq> 91" using x(2) by (auto simp: json_ws_def)
  moreover have "x \<noteq> CHR ''n''" "x \<noteq> CHR ''t''" "x \<noteq> CHR ''f''" using x(2) by (auto simp: ord_of_def)
  ultimately show ?thesis using num_lit_delim [OF assms, of i] by (simp add: x(1) has_prefix_def)
qed

definition reads :: "jvalue \<Rightarrow> bool" where
  "reads v \<longleftrightarrow> (\<forall>n d r. delim r \<longrightarrow> d + json_depth v \<le> maxNestingDepth \<longrightarrow> 2 * length (json_encode v @ r) < n \<longrightarrow>
     parse_value n d (json_encode v @ r) = Some (json_valid v, r))"

lemma readsD:
  "reads v \<Longrightarrow> delim r \<Longrightarrow> d + json_depth v \<le> maxNestingDepth \<Longrightarrow> 2 * length (json_encode v @ r) < n \<Longrightarrow>
    parse_value n d (json_encode v @ r) = Some (json_valid v, r)"
  unfolding reads_def by blast

lemma readsI:
  assumes "\<And>n d r. delim r \<Longrightarrow> parse_value (Suc n) d (json_encode v @ r) = Some (json_valid v, r)"
  shows "reads v"
  unfolding reads_def
proof (intro allI impI)
  fix n d :: nat and r
  assume "delim r" "2 * length (json_encode v @ r) < n"
  then show "parse_value n d (json_encode v @ r) = Some (json_valid v, r)" using assms [of r] by (cases n) simp_all
qed

lemma skip_ws_delim: "delim r \<Longrightarrow> skip_ws r = r"
  by (cases r) (auto simp: delim_def)

lemma parse_elements_encode:
  assumes "vs \<noteq> []" "\<And>v. v \<in> set vs \<Longrightarrow> reads v \<and> d + json_depth v \<le> maxNestingDepth"
    and "Suc (2 * length (join_strings (map json_encode vs) [byte_of 44] @ byte_of 93 # r)) < n"
  shows "parse_elements n d (join_strings (map json_encode vs) [byte_of 44] @ byte_of 93 # r) = Some (map json_valid vs, r)"
  using assms
proof (induction vs arbitrary: n)
  case (Cons v vs)
  then obtain n' where n: "n = Suc n'" by (cases n) auto
  have v: "reads v" "d + json_depth v \<le> maxNestingDepth" using Cons.prems(2) by simp_all
  show ?case
  proof (cases vs)
    case Nil
    have "parse_value n' d (json_encode v @ byte_of 93 # r) = Some (json_valid v, byte_of 93 # r)"
      using v Cons.prems(3) Nil n by (intro readsD) simp_all
    then show ?thesis by (simp add: Nil n)
  next
    case (Cons w ws)
    let ?tail = "join_strings (map json_encode vs) [byte_of 44] @ byte_of 93 # r"
    have split: "join_strings (map json_encode (v # vs)) [byte_of 44] @ byte_of 93 # r = json_encode v @ byte_of 44 # ?tail"
      by (simp add: Cons)
    have len: "Suc (2 * length (json_encode v @ byte_of 44 # ?tail)) < n" using Cons.prems(3) unfolding split .
    have "parse_value n' d (json_encode v @ byte_of 44 # ?tail) = Some (json_valid v, byte_of 44 # ?tail)"
      using v len n by (intro readsD) simp_all
    moreover have "parse_elements n' d ?tail = Some (map json_valid vs, r)"
      using Cons.prems(2) len n Cons by (intro Cons.IH) simp_all
    ultimately show ?thesis unfolding split n by simp
  qed
qed simp

lemma parse_members_encode:
  assumes "ms \<noteq> []" "\<And>k v. (k, v) \<in> set ms \<Longrightarrow> reads v \<and> d + json_depth v \<le> maxNestingDepth"
    and "Suc (2 * length (join_strings (map (\<lambda>(k, v). json_quote k @ byte_of 58 # json_encode v) ms) [byte_of 44] @ byte_of 125 # r)) < n"
  shows "parse_members n d (join_strings (map (\<lambda>(k, v). json_quote k @ byte_of 58 # json_encode v) ms) [byte_of 44] @ byte_of 125 # r) =
    Some (map (\<lambda>(k, v). (to_valid k, json_valid v)) ms, r)"
  using assms
proof (induction ms arbitrary: n)
  case (Cons m ms)
  then obtain n' where n: "n = Suc n'" by (cases n) auto
  obtain k v where m: "m = (k, v)" by force
  have v: "reads v" "d + json_depth v \<le> maxNestingDepth" using Cons.prems(2) [of k v] m by simp_all
  show ?case
  proof (cases ms)
    case Nil
    have "parse_value n' d (json_encode v @ byte_of 125 # r) = Some (json_valid v, byte_of 125 # r)"
      using v Cons.prems(3) Nil n m by (intro readsD) simp_all
    then show ?thesis using parse_last_member [of n' d "json_encode v @ byte_of 125 # r" "json_valid v" r k] by (simp add: Nil n m)
  next
    case (Cons w ws)
    let ?tail = "join_strings (map (\<lambda>(k, v). json_quote k @ byte_of 58 # json_encode v) ms) [byte_of 44] @ byte_of 125 # r"
    have split: "join_strings (map (\<lambda>(k, v). json_quote k @ byte_of 58 # json_encode v) (m # ms)) [byte_of 44] @ byte_of 125 # r =
        json_quote k @ byte_of 58 # json_encode v @ byte_of 44 # ?tail"
      by (simp add: Cons m)
    have len: "Suc (2 * length (json_quote k @ byte_of 58 # json_encode v @ byte_of 44 # ?tail)) < n" using Cons.prems(3) unfolding split .
    have "parse_value n' d (json_encode v @ byte_of 44 # ?tail) = Some (json_valid v, byte_of 44 # ?tail)"
      using v len n by (intro readsD) simp_all
    then have "parse_members n d (json_quote k @ byte_of 58 # json_encode v @ byte_of 44 # ?tail) =
        map_option (\<lambda>(ms, r). ((to_valid k, json_valid v) # ms, r)) (parse_members n' d ?tail)"
      using parse_member [of n' d "json_encode v @ byte_of 44 # ?tail" "json_valid v" ?tail k] n by simp
    moreover have "parse_members n' d ?tail = Some (map (\<lambda>(k, v). (to_valid k, json_valid v)) ms, r)"
      using Cons.prems(2) len n Cons by (intro Cons.IH) auto
    ultimately show ?thesis unfolding split by (simp add: m)
  qed
qed simp

lemma encode_hd:
  assumes "json_ints v"
  obtains c cs where "json_encode v = c # cs" "\<not> json_ws c" "c \<noteq> byte_of 93"
proof (cases v)
  case (JvNum l)
  then have "48 \<le> ord_of (hd (itoa m)) \<and> ord_of (hd (itoa m)) \<le> 57" for m by (intro digit_ord itoa_hd_digit)
  moreover obtain i where l: "l = itoa_int i" using assms JvNum by auto
  moreover have "l \<noteq> []" by (simp add: l itoa_int_def)
  then obtain c cs where c: "l = c # cs" by (meson neq_Nil_conv)
  ultimately have "ord_of c = 45 \<or> 48 \<le> ord_of c \<and> ord_of c \<le> 57"
    by (auto simp: itoa_int_def split: if_splits) (metis list.sel(1))+
  then have "\<not> json_ws c" "c \<noteq> byte_of 93" by (auto simp: json_ws_def)
  then show thesis using that c JvNum by simp
next
  case JvNull
  have "CHR ''n'' \<noteq> byte_of 93" by code_simp
  then show thesis using that [of "CHR ''n''" "''ull''"] JvNull by (simp add: json_ws_def ord_of_def)
next
  case (JvBool b)
  have "CHR ''t'' \<noteq> byte_of 93" "CHR ''f'' \<noteq> byte_of 93" by code_simp+
  then show thesis
    using that [of "CHR ''t''" "''rue''"] that [of "CHR ''f''" "''alse''"] JvBool by (cases b) (simp_all add: json_ws_def ord_of_def)
next
  case (JvStr s)
  have "byte_of 34 \<noteq> byte_of 93" by code_simp
  then show thesis using that [of "byte_of 34"] JvStr by (simp add: json_quote_def)
next
  case (JvArr vs)
  have "byte_of 91 \<noteq> byte_of 93" by code_simp
  then show thesis using that [of "byte_of 91"] JvArr by simp
next
  case (JvObj ms)
  have "byte_of 123 \<noteq> byte_of 93" by code_simp
  then show thesis using that [of "byte_of 123"] JvObj by simp
qed

lemma skip_ws_encode: "json_ints v \<Longrightarrow> skip_ws (json_encode v @ r) = json_encode v @ r"
  by (rule encode_hd [of v]) simp_all

lemma reads_Arr:
  assumes "\<And>v. v \<in> set vs \<Longrightarrow> json_ints v \<and> reads v"
  shows "reads (JvArr vs)"
  unfolding reads_def
proof (intro allI impI)
  fix n d :: nat and r
  let ?body = "join_strings (map json_encode vs) [byte_of 44]"
  assume r: "delim r" "d + json_depth (JvArr vs) \<le> maxNestingDepth" "2 * length (json_encode (JvArr vs) @ r) < n"
  then obtain n' where n: "n = Suc n'" by (cases n) auto
  have d: "\<not> maxNestingDepth \<le> d" using r(2) by simp
  show "parse_value n d (json_encode (JvArr vs) @ r) = Some (json_valid (JvArr vs), r)"
  proof (cases vs)
    case Nil
    then show ?thesis using d n by simp
  next
    case (Cons w ws)
    have "d + Suc (json_depth v) \<le> maxNestingDepth" if "v \<in> set vs" for v
      using r(2) fold_max_ge(1) [of "json_depth v" "map json_depth vs" 0] that by simp
    then have "parse_elements n' (Suc d) (?body @ byte_of 93 # r) = Some (map json_valid vs, r)"
      using assms r(3) n Cons by (intro parse_elements_encode) auto
    moreover obtain c cs where c: "json_encode w = c # cs" "\<not> json_ws c" "c \<noteq> byte_of 93" using encode_hd assms Cons by (metis list.set_intros(1))
    then obtain cs' where "?body @ byte_of 93 # r = c # cs'" using Cons by (cases ws) auto
    ultimately show ?thesis using d n c(2,3) by simp
  qed
qed

lemma reads_Obj:
  assumes "\<And>k v. (k, v) \<in> set ms \<Longrightarrow> reads v"
  shows "reads (JvObj ms)"
  unfolding reads_def
proof (intro allI impI)
  fix n d :: nat and r
  let ?enc = "\<lambda>(k, v). json_quote k @ byte_of 58 # json_encode v"
  let ?body = "join_strings (map ?enc ms) [byte_of 44]"
  assume r: "delim r" "d + json_depth (JvObj ms) \<le> maxNestingDepth" "2 * length (json_encode (JvObj ms) @ r) < n"
  then obtain n' where n: "n = Suc n'" by (cases n) auto
  have d: "\<not> maxNestingDepth \<le> d" using r(2) by simp
  show "parse_value n d (json_encode (JvObj ms) @ r) = Some (json_valid (JvObj ms), r)"
  proof (cases ms)
    case Nil
    then show ?thesis using d n by simp
  next
    case (Cons m ms')
    have "d + Suc (json_depth v) \<le> maxNestingDepth" if "(k, v) \<in> set ms" for k v
      using r(2) fold_max_ge(1) [of "json_depth v" "map (\<lambda>(k, v). json_depth v) ms" 0] that by (force simp: image_iff)
    then have "parse_members n' (Suc d) (?body @ byte_of 125 # r) = Some (map (\<lambda>(k, v). (to_valid k, json_valid v)) ms, r)"
      using assms r(3) n Cons by (intro parse_members_encode) auto
    moreover obtain cs where "?body @ byte_of 125 # r = byte_of 34 # cs"
      using Cons by (cases m; cases ms') (auto simp: json_quote_def)
    moreover have "byte_of 34 \<noteq> byte_of 125" by code_simp
    ultimately show ?thesis using d n by simp
  qed
qed

lemma reads_encode: "json_ints v \<Longrightarrow> reads v"
proof (induction v)
  case (JvNum l)
  then obtain i where "l = itoa_int i" by auto
  then show ?case using parse_int_delim by (intro readsI) (simp del: parse_value.simps)
next
  case (JvStr s)
  show ?case using parse_quoted by (intro readsI) (simp del: parse_value.simps)
next
  case (JvArr vs)
  then show ?case by (intro reads_Arr) auto
next
  case (JvObj ms)
  then show ?case by (intro reads_Obj) fastforce
qed (rule readsI, simp add: has_prefix_def json_ws_def ord_of_def)+

text \<open>What the encoder writes, the parser reads back.\<close>

lemma json_parse_encode:
  assumes "json_ints v" "json_depth v \<le> maxNestingDepth"
  shows "json_parse (json_encode v) = Some (json_valid v)"
  using readsD [OF reads_encode [OF assms(1)], of "[]" 0 "Suc (2 * length (json_encode v))"] assms(2)
  by (simp add: json_parse_def)

end
