(* ===== verification/Agent.thy ===== *)
theory Agent
  imports Fleet Tunnel_Client Json_Roundtrip
begin

text \<open>
  The agent: enrolment with the fleet service (\<^verbatim>\<open>internal/providers/otterscale/fleet_registrar.go\<close>),
  the registration callback and the version check (\<^verbatim>\<open>internal/cmd/agent/agent.go\<close>), and the
  self-update (\<^verbatim>\<open>internal/cmd/agent/updater.go\<close>).

  The RPC to the server, the semantic-version parser, the Kubernetes client and the namespace file
  are arguments. The registration \<open>reg\<close> is \<^verbatim>\<open>core.Registration\<close> with the two fields the agent fills in.
\<close>

section \<open>\<^verbatim>\<open>fleet_registrar.go\<close>\<close>

record fleetRegistrar =
  fr_agentID :: gostring
  fr_agentVersion :: gostring

definition NewFleetRegistrar :: "gostring res \<Rightarrow> gostring \<Rightarrow> fleetRegistrar res" where
  "NewFleetRegistrar hostname version =
     (case hostname of
        Inl e \<Rightarrow> Inl (Wrap ''failed to get hostname'' e)
      | Inr agentID \<Rightarrow> Inr \<lparr>fr_agentID = agentID, fr_agentVersion = version\<rparr>)"

record RegisterRequest =
  rrq_cluster :: gostring
  rrq_agentID :: gostring
  rrq_csr :: bytes
  rrq_agentVersion :: gostring

record agent_Registration = Registration +
  reg_PrivateKeyPEM :: bytes
  reg_AgentID :: gostring

text \<open>\<open>rpc\<close> is the call of \<^verbatim>\<open>FleetService.Register\<close> at a server URL; it acts on the server's state.\<close>

type_synonym 's register_rpc = "gostring \<Rightarrow> RegisterRequest \<Rightarrow> ('s, Registration) eff"

definition Register ::
  "('r, 'k, 'p, 'c, 'q) pki_lib \<Rightarrow> 's register_rpc \<Rightarrow> fleetRegistrar \<Rightarrow> gostring \<Rightarrow> gostring \<Rightarrow>
     ('r \<times> 's, agent_Registration) eff" where
  "Register L rpc f serverURL cluster st =
     (case GenerateKey L (fst st) of
        (Inl e, r1) \<Rightarrow> (Inl (Wrap ''generate key pair'' e), r1, snd st)
      | (Inr (key, keyPEM), r1) \<Rightarrow>
          (case GenerateCSR L key (fr_agentID f) r1 of
             (Inl e, r2) \<Rightarrow> (Inl (Wrap ''generate CSR'' e), r2, snd st)
           | (Inr csrPEM, r2) \<Rightarrow>
               (case rpc serverURL \<lparr>rrq_cluster = cluster, rrq_agentID = fr_agentID f, rrq_csr = csrPEM,
                        rrq_agentVersion = fr_agentVersion f\<rparr> (snd st) of
                  (Inl e, s') \<Rightarrow> (Inl e, r2, s')
                | (Inr resp, s') \<Rightarrow>
                    (Inr \<lparr>reg_Endpoint = reg_Endpoint resp, reg_Certificate = reg_Certificate resp,
                          reg_CACertificate = reg_CACertificate resp, reg_ServerVersion = reg_ServerVersion resp,
                          reg_PrivateKeyPEM = keyPEM, reg_AgentID = fr_agentID f\<rparr>, r2, s'))))"

section \<open>\<^verbatim>\<open>updater.go\<close>\<close>

definition imageRepo :: gostring where
  "imageRepo = ''ghcr.io/otterscale/otterscale''"

definition containerName :: gostring where
  "containerName = ''otterscale''"

definition deploymentName :: gostring where
  "deploymentName = ''otterscale-agent''"

definition inClusterNamespacePath :: gostring where
  "inClusterNamespacePath = ''/var/run/secrets/kubernetes.io/serviceaccount/namespace''"

definition imageRef :: "gostring \<Rightarrow> gostring" where
  "imageRef version = imageRepo @ '':'' @ version"

record containerImagePatch =
  cip_Name :: gostring
  cip_Image :: gostring

record podSpecPatch =
  Containers :: "containerImagePatch list"

record templatePatch =
  template_Spec :: podSpecPatch

record specPatch =
  Template :: templatePatch

record containerPatch =
  patch_Spec :: specPatch

definition containerPatch_json :: "containerPatch \<Rightarrow> jvalue" where
  "containerPatch_json p =
     JvObj [(''spec'', JvObj [(''template'', JvObj [(''spec'', JvObj [(''containers'',
       JvArr (map (\<lambda>c. JvObj [(''name'', JvStr (cip_Name c)), (''image'', JvStr (cip_Image c))])
         (Containers (template_Spec (Template (patch_Spec p))))))])])])]"

text \<open>\<^verbatim>\<open>strings.TrimSpace\<close>: the encodings of the white space characters of Unicode.\<close>

definition space_encodings :: "bytes list" where
  "space_encodings =
     [[CHR 0x09], [CHR 0x0A], [CHR 0x0B], [CHR 0x0C],
      [CHR 0x0D], [CHR 0x20], [CHR 0xC2, CHR 0x85], [CHR 0xC2, CHR 0xA0],
      [CHR 0xE1, CHR 0x9A, CHR 0x80], [CHR 0xE2, CHR 0x80, CHR 0x80], [CHR 0xE2, CHR 0x80, CHR 0x81], [CHR 0xE2, CHR 0x80, CHR 0x82],
      [CHR 0xE2, CHR 0x80, CHR 0x83], [CHR 0xE2, CHR 0x80, CHR 0x84], [CHR 0xE2, CHR 0x80, CHR 0x85], [CHR 0xE2, CHR 0x80, CHR 0x86],
      [CHR 0xE2, CHR 0x80, CHR 0x87], [CHR 0xE2, CHR 0x80, CHR 0x88], [CHR 0xE2, CHR 0x80, CHR 0x89], [CHR 0xE2, CHR 0x80, CHR 0x8A],
      [CHR 0xE2, CHR 0x80, CHR 0xA8], [CHR 0xE2, CHR 0x80, CHR 0xA9], [CHR 0xE2, CHR 0x80, CHR 0xAF], [CHR 0xE2, CHR 0x81, CHR 0x9F],
      [CHR 0xE3, CHR 0x80, CHR 0x80]]"

lemma space_encodings_nonempty: "e \<in> set space_encodings \<Longrightarrow> e \<noteq> []"
  by (auto simp: space_encodings_def)

function trim_left_space :: "bytes \<Rightarrow> bytes" where
  "trim_left_space s =
     (case find (\<lambda>e. has_prefix s e) space_encodings of
        None \<Rightarrow> s
      | Some e \<Rightarrow> trim_left_space (drop (length e) s))"
  by pat_completeness auto
termination
proof (relation "measure length")
  fix s e
  assume "find (\<lambda>e. has_prefix s e) space_encodings = Some e"
  then have "has_prefix s e" "e \<noteq> []" using space_encodings_nonempty by (auto simp: find_Some_iff)
  then show "(drop (length e) s, s) \<in> measure length" by (auto simp: has_prefix_iff)
qed simp

function trim_right_space :: "bytes \<Rightarrow> bytes" where
  "trim_right_space s =
     (case find (\<lambda>e. has_prefix (rev s) (rev e)) space_encodings of
        None \<Rightarrow> s
      | Some e \<Rightarrow> trim_right_space (take (length s - length e) s))"
  by pat_completeness auto
termination
proof (relation "measure length")
  fix s e
  assume "find (\<lambda>e. has_prefix (rev s) (rev e)) space_encodings = Some e"
  then have "has_prefix (rev s) (rev e)" "e \<noteq> []" using space_encodings_nonempty by (auto simp: find_Some_iff)
  then have "length e \<le> length s" "0 < length e"
    by (auto simp: has_prefix_iff) (metis le_add1 length_append length_rev)
  then have "length s - length e < length s" by linarith
  then show "(take (length s - length e) s, s) \<in> measure length" by simp
qed simp

declare trim_left_space.simps [simp del] trim_right_space.simps [simp del]

definition TrimSpace :: "bytes \<Rightarrow> bytes" where
  "TrimSpace s = trim_right_space (trim_left_space s)"

text \<open>The arguments: the version parser's error, the construction of the client, the namespace file
  and the API server's answer to a patch.\<close>

record patch_request =
  pr_namespace :: gostring
  pr_deployment :: gostring
  pr_type :: gostring
  pr_data :: bytes

record update_env =
  ue_semver :: "gostring \<Rightarrow> go_error option"
  ue_new_client :: "unit res"
  ue_namespace :: "bytes res"
  ue_patch :: "patch_request \<Rightarrow> unit res"

text \<open>Whether the client is cached, and the requests sent.\<close>

record updater =
  up_client :: bool
  up_requests :: "patch_request list"

definition detectNamespace :: "update_env \<Rightarrow> gostring res" where
  "detectNamespace en =
     (case ue_namespace en of
        Inl e \<Rightarrow> Inl (Plain (''detect namespace: '' @ error_string e @ '' (not running in-cluster?)''))
      | Inr data \<Rightarrow>
          (let ns = TrimSpace data in
           if ns = [] then Inl (Plain (''detect namespace: file '' @ inClusterNamespacePath @ '' is empty'')) else Inr ns))"

definition getOrCreateClient :: "update_env \<Rightarrow> (updater, unit) eff" where
  "getOrCreateClient en u =
     (if up_client u then (Inr (), u)
      else (case ue_new_client en of Inl e \<Rightarrow> (Inl e, u) | Inr _ \<Rightarrow> (Inr (), u\<lparr>up_client := True\<rparr>)))"

definition image_patch :: "gostring \<Rightarrow> containerPatch" where
  "image_patch img =
     \<lparr>patch_Spec = \<lparr>Template = \<lparr>template_Spec = \<lparr>Containers = [\<lparr>cip_Name = containerName, cip_Image = img\<rparr>]\<rparr>\<rparr>\<rparr>\<rparr>"

definition Patch :: "update_env \<Rightarrow> gostring \<Rightarrow> (updater, unit) eff" where
  "Patch en version u =
     (case ue_semver en (trim_prefix version ''v'') of
        Some e \<Rightarrow> (Inl (Wrap (''invalid server version '' @ go_quote version) e), u)
      | None \<Rightarrow>
          (case getOrCreateClient en u of
             (Inl e, u1) \<Rightarrow> (Inl (Wrap ''create kube client'' e), u1)
           | (Inr _, u1) \<Rightarrow>
               (let data = json_encode (containerPatch_json (image_patch (imageRef version))) in
                case detectNamespace en of
                  Inl e \<Rightarrow> (Inl (Wrap ''self-update'' e), u1)
                | Inr namespace \<Rightarrow>
                    (let rq = \<lparr>pr_namespace = namespace, pr_deployment = deploymentName,
                               pr_type = ''application/strategic-merge-patch+json'', pr_data = data\<rparr>;
                         u2 = u1\<lparr>up_requests := up_requests u1 @ [rq]\<rparr>
                     in case ue_patch en rq of
                          Inl e \<Rightarrow> (Inl (Wrap ''patch deployment'' e), u2)
                        | Inr _ \<Rightarrow> (Inr (), u2)))))"

section \<open>\<^verbatim>\<open>agent.go\<close>\<close>

definition checkVersion :: "update_env \<Rightarrow> gostring \<Rightarrow> gostring \<Rightarrow> updater \<Rightarrow> updater" where
  "checkVersion en agentVersion serverVersion u =
     (if serverVersion = [] then u
      else if serverVersion = agentVersion then u
      else snd (Patch en serverVersion u))"

definition register ::
  "('r, 'k, 'p, 'c, 'q) pki_lib \<Rightarrow> 's register_rpc \<Rightarrow> fleetRegistrar \<Rightarrow> update_env \<Rightarrow> gostring \<Rightarrow> gostring \<Rightarrow> gostring \<Rightarrow>
     ('r \<times> 's \<times> updater, RegisterResult) eff" where
  "register L rpc f en version serverURL cluster st =
     (case st of (r, s, u) \<Rightarrow>
        (case Register L rpc f serverURL cluster (r, s) of
           (Inl e, r1, s1) \<Rightarrow> (Inl e, r1, s1, u)
         | (Inr reg, r1, s1) \<Rightarrow>
             (let u1 = checkVersion en version (reg_ServerVersion reg) u in
              case DeriveAuth L (reg_AgentID reg) (reg_Certificate reg) of
                Inl e \<Rightarrow> (Inl (Wrap ''derive auth'' e), r1, s1, u1)
              | Inr auth \<Rightarrow>
                  (Inr \<lparr>rr_Endpoint = reg_Endpoint reg, rr_Auth = auth, rr_CACertPEM = reg_CACertificate reg,
                        rr_CertPEM = reg_Certificate reg, rr_KeyPEM = reg_PrivateKeyPEM reg\<rparr>, r1, s1, u1))))"

section \<open>Lemmas\<close>

text \<open>Documented behaviour of \<^verbatim>\<open>semver.StrictNewVersion\<close>: what it accepts is a version of the
  Semantic Versioning grammar, so it consists of letters, digits, dots, hyphens and plus signs.\<close>

definition semver_char :: "char \<Rightarrow> bool" where
  "semver_char c \<longleftrightarrow> is_digit c \<or> (CHR ''a'' \<le> c \<and> c \<le> CHR ''z'') \<or> (CHR ''A'' \<le> c \<and> c \<le> CHR ''Z'') \<or> c \<in> set ''.-+''"

definition semver_law :: "(gostring \<Rightarrow> go_error option) \<Rightarrow> bool" where
  "semver_law semver \<longleftrightarrow> (\<forall>s. semver s = None \<longrightarrow> s \<noteq> [] \<and> list_all semver_char s)"

lemma semver_char_ascii: "semver_char c \<Longrightarrow> ord_of c < 128 \<and> c \<noteq> CHR ''@'' \<and> c \<noteq> CHR ''/'' \<and> c \<noteq> CHR '':''"
  by (auto simp: semver_char_def is_digit_def less_eq_char_def ord_of_def)

lemma accepted_version:
  assumes "semver_law semver" "semver (trim_prefix version ''v'') = None"
  shows "version \<noteq> [] \<and> list_all semver_char version"
proof -
  have "semver_char (CHR ''v'')" by (simp add: semver_char_def less_eq_char_def)
  moreover have "version = trim_prefix version ''v'' \<or> version = CHR ''v'' # trim_prefix version ''v''"
    by (auto simp: trim_prefix_def has_prefix_iff)
  moreover have "trim_prefix version ''v'' \<noteq> [] \<and> list_all semver_char (trim_prefix version ''v'')"
    using assms by (simp add: semver_law_def)
  ultimately show ?thesis by (metis list.discI list.pred_inject(2))
qed

text \<open>The JSON value of the patch that replaces the image of the agent's container.\<close>

definition image_only :: "gostring \<Rightarrow> jvalue" where
  "image_only img = JvObj [(''spec'', JvObj [(''template'', JvObj [(''spec'', JvObj [(''containers'',
     JvArr [JvObj [(''name'', JvStr ''otterscale''), (''image'', JvStr img)]])])])])]"

lemma to_valid_simple: "list_all (\<lambda>c. ord_of c < 128) s \<Longrightarrow> to_valid s = s"
  by (intro to_valid_ascii) (simp add: list_all_iff)

lemma image_only_json:
  "containerPatch_json (image_patch (imageRef version)) = image_only (''ghcr.io/otterscale/otterscale:'' @ version)"
  by (simp add: containerPatch_json_def image_patch_def imageRef_def imageRepo_def containerName_def image_only_def)

lemma image_only_valid: "to_valid img = img \<Longrightarrow> json_valid (image_only img) = image_only img"
proof -
  have keys: "to_valid ''spec'' = ''spec''" "to_valid ''template'' = ''template''" "to_valid ''containers'' = ''containers''"
    "to_valid ''name'' = ''name''" "to_valid ''image'' = ''image''" "to_valid ''otterscale'' = ''otterscale''"
    by (rule to_valid_simple, simp add: ord_of_def)+
  assume "to_valid img = img"
  then show ?thesis by (simp only: image_only_def json_valid.simps list.map prod.case keys)
qed

lemma patch_body:
  assumes "list_all semver_char version"
  shows "json_parse (json_encode (containerPatch_json (image_patch (imageRef version)))) = Some (image_only (''ghcr.io/otterscale/otterscale:'' @ version))"
proof -
  let ?img = "''ghcr.io/otterscale/otterscale:'' @ version"
  have "list_all (\<lambda>c. ord_of c < 128) ''ghcr.io/otterscale/otterscale:''" by code_simp
  moreover have "list_all (\<lambda>c. ord_of c < 128) version" using assms semver_char_ascii by (simp add: list_all_iff)
  ultimately have "list_all (\<lambda>c. ord_of c < 128) ?img" by (simp only: list_all_append)
  then have valid: "json_valid (image_only ?img) = image_only ?img" by (intro image_only_valid to_valid_simple)
  have "json_ints (image_only img)" "json_depth (image_only img) \<le> maxNestingDepth" for img
    by (simp_all add: image_only_def maxNestingDepth_def)
  then show ?thesis unfolding image_only_json using json_parse_encode [of "image_only ?img"] valid by metis
qed

lemma Patch_requests:
  "up_requests (snd (Patch en version u)) = up_requests u \<or>
   (\<exists>ns. ue_semver en (trim_prefix version ''v'') = None \<and> detectNamespace en = Inr ns \<and>
      up_requests (snd (Patch en version u)) = up_requests u @ [\<lparr>pr_namespace = ns, pr_deployment = deploymentName,
        pr_type = ''application/strategic-merge-patch+json'', pr_data = json_encode (containerPatch_json (image_patch (imageRef version)))\<rparr>])"
proof -
  have "up_requests (snd (getOrCreateClient en u)) = up_requests u"
    by (simp add: getOrCreateClient_def split: sum.splits)
  then show ?thesis
    by (auto simp: Patch_def Let_def split: option.splits sum.splits prod.splits)
qed

lemma detectNamespace_Inr: "detectNamespace en = Inr ns \<Longrightarrow> ns \<noteq> [] \<and> (\<exists>data. ue_namespace en = Inr data \<and> ns = TrimSpace data)"
  by (auto simp: detectNamespace_def Let_def split: sum.splits if_splits)

section \<open>Properties\<close>

text \<open>Claim C28. Whatever version string the server reports, the agent's version check either sends nothing or sends
  one strategic merge patch: the versions differ, the target is the agent's own deployment in
  the pod's non-empty namespace, and the body decodes to exactly one field, the image of the agent's
  container, in the fixed repository with a tag without slash, colon or at sign.\<close>

theorem self_update_confined:
  assumes "semver_law (ue_semver en)"
  shows "up_requests (checkVersion en agentVersion serverVersion u) = up_requests u \<or>
    (\<exists>rq. up_requests (checkVersion en agentVersion serverVersion u) = up_requests u @ [rq] \<and>
       serverVersion \<noteq> agentVersion \<and> pr_deployment rq = ''otterscale-agent'' \<and> pr_namespace rq \<noteq> [] \<and>
       pr_type rq = ''application/strategic-merge-patch+json'' \<and>
       map_sum id TrimSpace (ue_namespace en) = Inr (pr_namespace rq) \<and>
       json_parse (pr_data rq) = Some (image_only (''ghcr.io/otterscale/otterscale:'' @ serverVersion)) \<and>
       serverVersion \<noteq> [] \<and> list_all (\<lambda>c. c \<notin> set ''/:@'') serverVersion)"
proof (cases "up_requests (checkVersion en agentVersion serverVersion u) = up_requests u")
  case False
  then have ne: "serverVersion \<noteq> agentVersion" and p: "checkVersion en agentVersion serverVersion u = snd (Patch en serverVersion u)"
    by (auto simp: checkVersion_def split: if_splits)
  then obtain ns where ns: "ue_semver en (trim_prefix serverVersion ''v'') = None" "detectNamespace en = Inr ns"
      "up_requests (snd (Patch en serverVersion u)) = up_requests u @ [\<lparr>pr_namespace = ns, pr_deployment = deploymentName,
        pr_type = ''application/strategic-merge-patch+json'', pr_data = json_encode (containerPatch_json (image_patch (imageRef serverVersion)))\<rparr>]"
    using Patch_requests [of en serverVersion u] False by auto
  have v: "serverVersion \<noteq> [] \<and> list_all semver_char serverVersion" using accepted_version assms ns(1) by blast
  then have "list_all (\<lambda>c. c \<notin> set ''/:@'') serverVersion"
    using semver_char_ascii by (auto simp: list_all_iff)
  then show ?thesis
    using ne p ns(3) v patch_body detectNamespace_Inr [OF ns(2)] by (auto simp: deploymentName_def)
qed simp

definition demo_update :: update_env where
  "demo_update = \<lparr>ue_semver = (\<lambda>s. if s \<noteq> [] \<and> list_all semver_char s then None else Some (Plain ''invalid'')),
     ue_new_client = Inr (), ue_namespace = Inr ''otters '', ue_patch = (\<lambda>rq. Inr ())\<rparr>"

lemma demo_semver_law: "semver_law (ue_semver demo_update)"
  by (simp add: semver_law_def demo_update_def)

lemma demo_update_sends:
  "up_requests (checkVersion demo_update ''v1.0.0'' ''v1.0.1'' \<lparr>up_client = False, up_requests = []\<rparr>) \<noteq> []"
proof -
  have ok: "trim_prefix ''v1.0.1'' ''v'' = ''1.0.1''" "semver_char (CHR ''1'')" "semver_char (CHR ''0'')" "semver_char (CHR ''.'')" "TrimSpace ''otters '' = ''otters''" by code_simp+
  show ?thesis by (simp add: checkVersion_def Patch_def getOrCreateClient_def detectNamespace_def Let_def demo_update_def ok)
qed

theorem self_update_confined_witness:
  "(\<exists>rq. up_requests (checkVersion demo_update ''v1.0.0'' ''v1.0.1'' \<lparr>up_client = False, up_requests = []\<rparr>) = [rq] \<and>
      pr_deployment rq = ''otterscale-agent'' \<and>
      json_parse (pr_data rq) = Some (image_only (''ghcr.io/otterscale/otterscale:'' @ ''v1.0.1''))) \<and>
   up_requests (checkVersion demo_update ''v1.0.0'' ''latest@sha256:00'' \<lparr>up_client = False, up_requests = []\<rparr>) = []"
proof
  define u :: updater where "u = \<lparr>up_client = False, up_requests = []\<rparr>"
  have u: "up_requests u = []" by (simp add: u_def)
  note C = self_update_confined [OF demo_semver_law, of "''v1.0.0''" _ u, unfolded u append_Nil]
  have "up_requests (checkVersion demo_update ''v1.0.0'' ''v1.0.1'' u) \<noteq> []" unfolding u_def by (rule demo_update_sends)
  with C [of "''v1.0.1''"] show "\<exists>rq. up_requests (checkVersion demo_update ''v1.0.0'' ''v1.0.1'' \<lparr>up_client = False, up_requests = []\<rparr>) = [rq] \<and>
      pr_deployment rq = ''otterscale-agent'' \<and>
      json_parse (pr_data rq) = Some (image_only (''ghcr.io/otterscale/otterscale:'' @ ''v1.0.1''))"
    unfolding u_def [symmetric] by blast
  have "\<not> list_all (\<lambda>c. c \<notin> set ''/:@'') ''latest@sha256:00''" by simp
  with C [of "''latest@sha256:00''"] show "up_requests (checkVersion demo_update ''v1.0.0'' ''latest@sha256:00'' \<lparr>up_client = False, up_requests = []\<rparr>) = []"
    unfolding u_def [symmetric] by blast
qed

end
