(* ===== verification/Bootstrap.thy ===== *)
theory Bootstrap
  imports Core_Types Effects "HOL-Library.List_Lexorder" "HOL-Library.Char_ord" "HOL-Library.Sublist" "HOL-Library.Multiset"
begin

text \<open>
  The bootstrap of a cluster: \<^verbatim>\<open>internal/bootstrap/bootstrap.go\<close> and \<^verbatim>\<open>internal/bootstrap/apply.go\<close>.

  The Kubernetes libraries (YAML decoder, REST mapper, dynamic client, \<^verbatim>\<open>wait.Poll\<close>) and the embedded
  files are the fields of \<open>boot_lib\<close>. The world keeps their state and a log of the patches sent
  and of the CRD states seen, which the statements about the order of the patches range over.
\<close>

section \<open>Data\<close>

definition fieldManager :: gostring where
  "fieldManager = ''otterscale-agent''"

definition crdGVR :: GroupVersionResource where
  "crdGVR = \<lparr>gvr_Group = ''apiextensions.k8s.io'', gvr_Version = ''v1'', gvr_Resource = ''customresourcedefinitions''\<rparr>"

text \<open>String fields of an object; empty when they are missing or of another type.\<close>

definition string_at :: "gostring \<Rightarrow> jobj \<Rightarrow> gostring" where
  "string_at k obj = (case gget obj k of Some (JStr s) \<Rightarrow> s | _ \<Rightarrow> [])"

definition GetKind :: "jobj \<Rightarrow> gostring" where
  "GetKind obj = string_at ''kind'' obj"

definition meta_string :: "gostring \<Rightarrow> jobj \<Rightarrow> gostring" where
  "meta_string k obj = (case gget obj ''metadata'' of Some (JObj md) \<Rightarrow> string_at k md | _ \<Rightarrow> [])"

definition GetName :: "jobj \<Rightarrow> gostring" where
  "GetName obj = meta_string ''name'' obj"

definition GetNamespace :: "jobj \<Rightarrow> gostring" where
  "GetNamespace obj = meta_string ''namespace'' obj"

text \<open>A server-side apply: the object, the resource and namespace it is sent to (no namespace for a
  cluster-scoped resource), the body and the options; and the object read for a CRD while waiting.\<close>

datatype boot_event =
    Applied jobj GroupVersionResource "gostring option" bytes bool gostring
  | Seen gostring jobj

record 'x bworld =
  bw_ext :: 'x
  bw_log :: "boot_event list"

text \<open>\<open>bl_decode\<close> is what successive calls of the decoder return until the end of the data.\<close>

record ('x, 'm) boot_lib =
  bl_entries :: "(gostring \<times> bool) list res"
  bl_read_file :: "gostring \<Rightarrow> bytes res"
  bl_decode :: "bytes \<Rightarrow> jobj res list"
  bl_new_mapper :: "'x \<Rightarrow> 'm \<times> 'x"
  bl_gvk :: "jobj \<Rightarrow> gostring \<times> gostring \<times> gostring"
  bl_rest_mapping :: "'m \<Rightarrow> gostring \<times> gostring \<times> gostring \<Rightarrow> ('x, GroupVersionResource \<times> bool) eff"
  bl_marshal :: "jobj \<Rightarrow> bytes res"
  bl_patch :: "GroupVersionResource \<Rightarrow> gostring option \<Rightarrow> gostring \<Rightarrow> bytes \<Rightarrow> bool \<Rightarrow> gostring \<Rightarrow> ('x, unit) eff"
  bl_get :: "GroupVersionResource \<Rightarrow> gostring \<Rightarrow> ('x, jobj) eff"
  bl_poll :: "nat \<Rightarrow> nat \<Rightarrow> ('x bworld, bool) eff \<Rightarrow> ('x bworld, unit) eff"

definition ext_eff :: "('x, 'a) eff \<Rightarrow> ('x bworld, 'a) eff" where
  "ext_eff m w = (case m (bw_ext w) of (r, x) \<Rightarrow> (r, w\<lparr>bw_ext := x\<rparr>))"

definition logged :: "boot_event \<Rightarrow> 'x bworld \<Rightarrow> 'x bworld" where
  "logged ev w = w\<lparr>bw_log := bw_log w @ [ev]\<rparr>"

section \<open>\<^verbatim>\<open>apply.go\<close>\<close>

fun collect_docs :: "jobj res list \<Rightarrow> jobj list res" where
  "collect_docs [] = Inr []"
| "collect_docs (Inl e # docs) = Inl e"
| "collect_docs (Inr obj # docs) =
     (case collect_docs docs of
        Inl e \<Rightarrow> Inl e
      | Inr objs \<Rightarrow> Inr (if GetKind obj = [] then objs else obj # objs))"

definition parseMultiDoc :: "('x, 'm) boot_lib \<Rightarrow> bytes \<Rightarrow> jobj list res" where
  "parseMultiDoc L data = collect_docs (bl_decode L data)"

definition established_condition :: "json \<Rightarrow> bool" where
  "established_condition c =
     (case c of
        JObj m \<Rightarrow> gget m ''type'' = Some (JStr ''Established'') \<and> gget m ''status'' = Some (JStr ''True'')
      | _ \<Rightarrow> False)"

definition isCRDEstablished :: "jobj \<Rightarrow> bool" where
  "isCRDEstablished obj =
     (case gget obj ''status'' of
        Some (JObj st) \<Rightarrow>
          (case gget st ''conditions'' of
             Some (JArr conditions) \<Rightarrow> list_ex established_condition conditions
           | _ \<Rightarrow> False)
      | _ \<Rightarrow> False)"

definition newMapper :: "('x, 'm) boot_lib \<Rightarrow> ('x bworld, 'm) eff" where
  "newMapper L = ext_eff (\<lambda>x. case bl_new_mapper L x of (m, x') \<Rightarrow> (Inr m, x'))"

definition gvk_string :: "gostring \<times> gostring \<times> gostring \<Rightarrow> gostring" where
  "gvk_string gvk = (case gvk of (g, v, k) \<Rightarrow> g @ ''/'' @ v @ '', Kind='' @ k)"

definition applyObject :: "('x, 'm) boot_lib \<Rightarrow> 'm \<Rightarrow> jobj \<Rightarrow> ('x bworld, unit) eff" where
  "applyObject L mapper obj w =
     (case ext_eff (bl_rest_mapping L mapper (bl_gvk L obj)) w of
        (Inl e, w1) \<Rightarrow> (Inl (Wrap (''map GVK '' @ gvk_string (bl_gvk L obj)) e), w1)
      | (Inr (resource, namespaced), w1) \<Rightarrow>
          (case bl_marshal L obj of
             Inl e \<Rightarrow> (Inl (Wrap ''marshal object'' e), w1)
           | Inr data \<Rightarrow>
               (let ns = (if namespaced then Some (GetNamespace obj) else None)
                in ext_eff (bl_patch L resource ns (GetName obj) data True fieldManager)
                     (logged (Applied obj resource ns data True fieldManager) w1))))"

text \<open>The loops of \<open>applyManifest\<close>; the text names the object in an error.\<close>

fun applyAll :: "('x, 'm) boot_lib \<Rightarrow> 'm \<Rightarrow> (jobj \<Rightarrow> gostring) \<Rightarrow> jobj list \<Rightarrow> ('x bworld, unit) eff" where
  "applyAll L mapper why [] w = (Inr (), w)"
| "applyAll L mapper why (obj # objs) w =
     (case applyObject L mapper obj w of
        (Inl e, w') \<Rightarrow> (Inl (Wrap (why obj) e), w')
      | (Inr _, w') \<Rightarrow> applyAll L mapper why objs w')"

definition crd_condition :: "('x, 'm) boot_lib \<Rightarrow> gostring \<Rightarrow> ('x bworld, bool) eff" where
  "crd_condition L name w =
     (case ext_eff (bl_get L crdGVR name) w of
        (Inl e, w') \<Rightarrow> (Inr False, w')
      | (Inr obj, w') \<Rightarrow> (Inr (isCRDEstablished obj), logged (Seen name obj) w'))"

fun waitForCRDs :: "('x, 'm) boot_lib \<Rightarrow> jobj list \<Rightarrow> ('x bworld, unit) eff" where
  "waitForCRDs L [] w = (Inr (), w)"
| "waitForCRDs L (crd # crds) w =
     (case bl_poll L 2 60 (crd_condition L (GetName crd)) w of
        (Inl e, w') \<Rightarrow> (Inl (Wrap (''CRD '' @ GetName crd @ '' did not become established'') e), w')
      | (Inr _, w') \<Rightarrow> waitForCRDs L crds w')"

definition is_crd :: "jobj \<Rightarrow> bool" where
  "is_crd obj \<longleftrightarrow> GetKind obj = ''CustomResourceDefinition''"

definition apply_crds :: "('x, 'm) boot_lib \<Rightarrow> jobj list \<Rightarrow> ('x bworld, unit) eff" where
  "apply_crds L crds =
     (if crds = [] then retE ()
      else bindE (newMapper L) (\<lambda>mapper.
             bindE (applyAll L mapper (\<lambda>crd. ''apply CRD '' @ GetName crd) crds) (\<lambda>_. waitForCRDs L crds)))"

definition apply_rest :: "('x, 'm) boot_lib \<Rightarrow> jobj list \<Rightarrow> ('x bworld, unit) eff" where
  "apply_rest L objs =
     (if objs = [] then retE ()
      else bindE (newMapper L) (\<lambda>mapper.
             applyAll L mapper (\<lambda>obj. ''apply '' @ GetKind obj @ '' '' @ GetNamespace obj @ ''/'' @ GetName obj) objs))"

definition applyManifest :: "('x, 'm) boot_lib \<Rightarrow> bytes \<Rightarrow> ('x bworld, unit) eff" where
  "applyManifest L data =
     (case parseMultiDoc L data of
        Inl e \<Rightarrow> failE (Wrap ''parse multi-doc YAML'' e)
      | Inr objects \<Rightarrow>
          bindE (apply_crds L (filter is_crd objects)) (\<lambda>_. apply_rest L (filter (\<lambda>obj. \<not> is_crd obj) objects)))"

section \<open>\<^verbatim>\<open>bootstrap.go\<close>\<close>

fun apply_files :: "('x, 'm) boot_lib \<Rightarrow> (gostring \<times> bool) list \<Rightarrow> ('x bworld, unit) eff" where
  "apply_files L [] w = (Inr (), w)"
| "apply_files L ((name, isDir) # entries) w =
     (if isDir then apply_files L entries w
      else
        (case bl_read_file L (''bootstrap/'' @ name) of
           Inl e \<Rightarrow> (Inl (Wrap (''read manifest '' @ name) e), w)
         | Inr data \<Rightarrow>
             (case applyManifest L data w of
                (Inl e, w') \<Rightarrow> (Inl (Wrap (''apply manifest '' @ name) e), w')
              | (Inr _, w') \<Rightarrow> apply_files L entries w')))"

definition boot_Run :: "('x, 'm) boot_lib \<Rightarrow> ('x bworld, unit) eff" where
  "boot_Run L w =
     (case bl_entries L of
        Inl e \<Rightarrow> (Inl (Wrap ''read embedded manifests directory'' e), w)
      | Inr entries \<Rightarrow> apply_files L (sort_key fst entries) w)"

section \<open>Lemmas\<close>

text \<open>
  Documented behaviour of \<^verbatim>\<open>wait.PollUntilContextTimeout\<close>: it calls the condition again and again
  while the rest of the world moves on, and returns nil only when the last call said true.
\<close>

inductive polling :: "('x bworld, bool) eff \<Rightarrow> 'x bworld \<Rightarrow> 'x bworld \<Rightarrow> bool" for cond where
  begin_poll: "polling cond w w"
| again: "polling cond w w' \<Longrightarrow> cond w' = (r, w'') \<Longrightarrow> polling cond w w''"
| meanwhile: "polling cond w w' \<Longrightarrow> polling cond w (w'\<lparr>bw_ext := x\<rparr>)"

definition poll_law :: "('x, 'm) boot_lib \<Rightarrow> bool" where
  "poll_law L \<longleftrightarrow>
     (\<forall>i t cond w r w'. bl_poll L i t cond w = (r, w') \<longrightarrow>
        (case r of
           Inl e \<Rightarrow> polling cond w w'
         | Inr _ \<Rightarrow> (\<exists>w0. polling cond w w0 \<and> cond w0 = (Inr True, w'))))"

text \<open>The objects applied in a log, and the events it appends.\<close>

fun applied_objects :: "boot_event list \<Rightarrow> jobj list" where
  "applied_objects [] = []"
| "applied_objects (Applied obj _ _ _ _ _ # evs) = obj # applied_objects evs"
| "applied_objects (Seen _ _ # evs) = applied_objects evs"

lemma applied_objects_append [simp]: "applied_objects (a @ b) = applied_objects a @ applied_objects b"
  by (induction a rule: applied_objects.induct) auto

text \<open>What it means for an object to report the condition Established, and for a log to hold such an object of a CRD.\<close>

definition shows_established :: "jobj \<Rightarrow> bool" where
  "shows_established obj \<longleftrightarrow>
     (\<exists>status conditions c. gget obj ''status'' = Some (JObj status) \<and> gget status ''conditions'' = Some (JArr conditions) \<and>
        JObj c \<in> set conditions \<and> gget c ''type'' = Some (JStr ''Established'') \<and> gget c ''status'' = Some (JStr ''True''))"

lemma established_condition_iff:
  "established_condition c \<longleftrightarrow> (\<exists>m. c = JObj m \<and> gget m ''type'' = Some (JStr ''Established'') \<and> gget m ''status'' = Some (JStr ''True''))"
  by (cases c) (simp_all add: established_condition_def)

lemma object_case: "(case x of Some (JObj m) \<Rightarrow> f m | _ \<Rightarrow> False) \<longleftrightarrow> (\<exists>m. x = Some (JObj m) \<and> f m)"
  by (auto split: option.splits json.splits)

lemma array_case: "(case x of Some (JArr l) \<Rightarrow> f l | _ \<Rightarrow> False) \<longleftrightarrow> (\<exists>l. x = Some (JArr l) \<and> f l)"
  by (auto split: option.splits json.splits)

lemma isCRDEstablished_iff: "isCRDEstablished obj \<longleftrightarrow> shows_established obj"
proof -
  have "isCRDEstablished obj \<longleftrightarrow> (\<exists>st conds. gget obj ''status'' = Some (JObj st) \<and> gget st ''conditions'' = Some (JArr conds) \<and> list_ex established_condition conds)"
    unfolding isCRDEstablished_def object_case array_case by blast
  then show ?thesis unfolding shows_established_def list_ex_iff established_condition_iff by blast
qed

definition seen_established :: "gostring \<Rightarrow> boot_event list \<Rightarrow> bool" where
  "seen_established name evs \<longleftrightarrow> (\<exists>obj. Seen name obj \<in> set evs \<and> shows_established obj)"

lemma seen_established_append [simp]: "seen_established name (a @ b) \<longleftrightarrow> seen_established name a \<or> seen_established name b"
  by (auto simp: seen_established_def)

definition extends :: "'x bworld \<Rightarrow> 'x bworld \<Rightarrow> boot_event list \<Rightarrow> bool" where
  "extends w w' evs \<longleftrightarrow> bw_log w' = bw_log w @ evs"

lemma extends_refl [simp, intro]: "extends w w []"
  by (simp add: extends_def)

lemma extends_trans: "extends w w1 a \<Longrightarrow> extends w1 w2 b \<Longrightarrow> extends w w2 (a @ b)"
  by (simp add: extends_def)

lemma ext_eff_log: "ext_eff m w = (r, w') \<Longrightarrow> bw_log w' = bw_log w"
  by (auto simp: ext_eff_def split: prod.splits)

lemma applyObject_log:
  assumes "applyObject L mapper obj w = (r, w')"
  shows "\<exists>evs. extends w w' evs \<and> applied_objects evs = (if evs = [] then [] else [obj]) \<and> (r = Inr () \<longrightarrow> evs \<noteq> []) \<and>
    list_all (\<lambda>ev. \<exists>g ns d. ev = Applied obj g ns d True fieldManager) evs"
proof -
  obtain m w1 where m: "ext_eff (bl_rest_mapping L mapper (bl_gvk L obj)) w = (m, w1)" by force
  have log1: "bw_log w1 = bw_log w" using ext_eff_log m by blast
  show ?thesis
  proof (cases "\<exists>res nsd data. m = Inr (res, nsd) \<and> bl_marshal L obj = Inr data")
    case True
    then obtain res nsd data where ok: "m = Inr (res, nsd)" "bl_marshal L obj = Inr data" by blast
    let ?ns = "if nsd then Some (GetNamespace obj) else None"
    let ?ev = "Applied obj res ?ns data True fieldManager"
    have "bw_log w' = bw_log (logged ?ev w1)"
      using assms m ok ext_eff_log by (fastforce simp: applyObject_def Let_def)
    then show ?thesis using log1 by (intro exI [of _ "[?ev]"]) (simp add: extends_def logged_def)
  next
    case False
    then have "w' = w1 \<and> r \<noteq> Inr ()"
      using assms m by (auto simp: applyObject_def split: sum.splits prod.splits)
    then show ?thesis using log1 by (intro exI [of _ "[]"]) (simp add: extends_def)
  qed
qed

lemma applyAll_log:
  assumes "applyAll L mapper why objs w = (r, w')"
  shows "\<exists>evs. extends w w' evs \<and> prefix (applied_objects evs) objs \<and> (r = Inr () \<longrightarrow> applied_objects evs = objs)"
  using assms
proof (induction objs arbitrary: w)
  case (Cons obj objs)
  obtain r1 w1 where a: "applyObject L mapper obj w = (r1, w1)" by force
  obtain e1 where e1: "extends w w1 e1" "applied_objects e1 = (if e1 = [] then [] else [obj])" "r1 = Inr () \<longrightarrow> e1 \<noteq> []"
    using applyObject_log [OF a] by blast
  show ?case
  proof (cases r1)
    case (Inl e)
    then show ?thesis using Cons.prems a e1 by auto
  next
    case (Inr u)
    then have "applyAll L mapper why objs w1 = (r, w')" using Cons.prems a by simp
    then obtain e2 where e2: "extends w1 w' e2" "prefix (applied_objects e2) objs" "r = Inr () \<longrightarrow> applied_objects e2 = objs"
      using Cons.IH by blast
    have "e1 \<noteq> []" using e1(3) Inr by simp
    then show ?thesis using extends_trans [OF e1(1) e2(1)] e1(2) e2(2,3) by (intro exI [of _ "e1 @ e2"]) simp
  qed
qed auto

lemma crd_condition_log:
  assumes "crd_condition L name w = (r, w')"
  shows "\<exists>evs. extends w w' evs \<and> list_all (\<lambda>ev. \<exists>b. ev = Seen name b) evs \<and> (r = Inr True \<longrightarrow> seen_established name evs)"
proof -
  obtain g w1 where g: "ext_eff (bl_get L crdGVR name) w = (g, w1)" by force
  have log: "bw_log w1 = bw_log w" using ext_eff_log [OF g] .
  show ?thesis
  proof (cases g)
    case (Inl e)
    then have "r = Inr False" "w' = w1" using assms g by (simp_all add: crd_condition_def)
    then show ?thesis using log by (intro exI [of _ "[]"]) (simp add: extends_def)
  next
    case (Inr obj)
    have "r = Inr (shows_established obj)" "w' = logged (Seen name obj) w1"
      using assms g Inr by (simp_all add: crd_condition_def isCRDEstablished_iff)
    then show ?thesis using log by (intro exI [of _ "[Seen name obj]"]) (auto simp: extends_def logged_def seen_established_def)
  qed
qed

lemma polling_log:
  assumes "polling (crd_condition L name) w w'"
  shows "\<exists>evs. extends w w' evs \<and> list_all (\<lambda>ev. \<exists>b. ev = Seen name b) evs"
  using assms
proof (induction rule: polling.induct)
  case (again w w' r w'')
  obtain e1 where e1: "extends w w' e1" "list_all (\<lambda>ev. \<exists>b. ev = Seen name b) e1" using again.IH by blast
  obtain e2 where e2: "extends w' w'' e2" "list_all (\<lambda>ev. \<exists>b. ev = Seen name b) e2" using crd_condition_log [OF again(2)] by blast
  show ?case using extends_trans [OF e1(1) e2(1)] e1(2) e2(2) by (intro exI [of _ "e1 @ e2"]) simp
qed (auto simp: extends_def)

lemma seen_named: "list_all (\<lambda>ev. \<exists>b. ev = Seen name b) evs \<Longrightarrow> applied_objects evs = []"
  by (induction evs) auto

lemma poll_log:
  assumes "poll_law L" "bl_poll L i t (crd_condition L name) w = (r, w')"
  shows "\<exists>evs. extends w w' evs \<and> applied_objects evs = [] \<and> (r = Inr () \<longrightarrow> seen_established name evs)"
proof (cases r)
  case (Inl e)
  have "case r of Inl e \<Rightarrow> polling (crd_condition L name) w w' | Inr _ \<Rightarrow> (\<exists>w0. polling (crd_condition L name) w w0 \<and> crd_condition L name w0 = (Inr True, w'))"
    using assms unfolding poll_law_def by blast
  then obtain evs where "extends w w' evs" "list_all (\<lambda>ev. \<exists>b. ev = Seen name b) evs"
    using polling_log [of L name w w'] Inl by auto
  then show ?thesis using seen_named Inl by blast
next
  case (Inr u)
  have "case r of Inl e \<Rightarrow> polling (crd_condition L name) w w' | Inr _ \<Rightarrow> (\<exists>w0. polling (crd_condition L name) w w0 \<and> crd_condition L name w0 = (Inr True, w'))"
    using assms unfolding poll_law_def by blast
  then obtain w0 where w0: "polling (crd_condition L name) w w0" "crd_condition L name w0 = (Inr True, w')"
    using Inr by auto
  obtain evs where evs: "extends w w0 evs" "list_all (\<lambda>ev. \<exists>b. ev = Seen name b) evs" using polling_log w0(1) by blast
  obtain e2 where "extends w0 w' e2" "list_all (\<lambda>ev. \<exists>b. ev = Seen name b) e2" "seen_established name e2"
    using crd_condition_log [OF w0(2)] by blast
  then show ?thesis
    using extends_trans [OF evs(1)] seen_named [OF evs(2)] seen_named [of name e2] by (intro exI [of _ "evs @ e2"]) simp
qed

lemma waitForCRDs_log:
  assumes "poll_law L" "waitForCRDs L crds w = (r, w')"
  shows "\<exists>evs. extends w w' evs \<and> applied_objects evs = [] \<and> (r = Inr () \<longrightarrow> list_all (\<lambda>c. seen_established (GetName c) evs) crds)"
  using assms(2)
proof (induction crds arbitrary: w)
  case (Cons crd crds)
  obtain r1 w1 where p: "bl_poll L 2 60 (crd_condition L (GetName crd)) w = (r1, w1)" by force
  obtain e1 where e1: "extends w w1 e1" "applied_objects e1 = []" "r1 = Inr () \<longrightarrow> seen_established (GetName crd) e1"
    using poll_log [OF assms(1) p] by blast
  show ?case
  proof (cases r1)
    case (Inl e)
    then show ?thesis using Cons.prems p e1 by auto
  next
    case (Inr u)
    then have "waitForCRDs L crds w1 = (r, w')" using Cons.prems p by simp
    then obtain e2 where "extends w1 w' e2" "applied_objects e2 = []"
        "r = Inr () \<longrightarrow> list_all (\<lambda>c. seen_established (GetName c) e2) crds" using Cons.IH by blast
    then show ?thesis
      using extends_trans [OF e1(1)] e1(2,3) Inr by (intro exI [of _ "e1 @ e2"]) (auto simp: list_all_iff)
  qed
qed auto

lemma newMapper_log:
  assumes "newMapper L w = (r, w')"
  shows "extends w w' [] \<and> (\<exists>m. r = Inr m)"
  using assms ext_eff_log [of _ w r w'] by (auto simp: newMapper_def extends_def ext_eff_def split: prod.splits)

lemma apply_crds_log:
  assumes "poll_law L" "apply_crds L crds w = (r, w')"
  shows "\<exists>a seen. extends w w' (a @ seen) \<and> prefix (applied_objects a) crds \<and> applied_objects seen = [] \<and>
    (seen \<noteq> [] \<longrightarrow> applied_objects a = crds) \<and>
    (r = Inr () \<longrightarrow> applied_objects a = crds \<and> list_all (\<lambda>c. seen_established (GetName c) seen) crds)"
proof (cases "crds = []")
  case True
  then show ?thesis using assms(2) by (intro exI [of _ "[]"]) (simp add: apply_crds_def)
next
  case False
  obtain mapper w1 where m: "newMapper L w = (Inr mapper, w1)" "extends w w1 []"
    using newMapper_log by (metis surj_pair)
  obtain r2 w2 where a: "applyAll L mapper (\<lambda>crd. ''apply CRD '' @ GetName crd) crds w1 = (r2, w2)" by force
  obtain e2 where e2: "extends w1 w2 e2" "prefix (applied_objects e2) crds" "r2 = Inr () \<longrightarrow> applied_objects e2 = crds"
    using applyAll_log [OF a] by blast
  have w2: "extends w w2 e2" using extends_trans [OF m(2) e2(1)] by simp
  show ?thesis
  proof (cases r2)
    case (Inl e)
    then show ?thesis using assms(2) False m(1) a w2 e2 by - (rule exI [of _ e2], rule exI [of _ "[]"], force simp: apply_crds_def)
  next
    case (Inr u)
    then have "waitForCRDs L crds w2 = (r, w')" using assms(2) False m(1) a by (simp add: apply_crds_def)
    then obtain e3 where "extends w2 w' e3" "applied_objects e3 = []" "r = Inr () \<longrightarrow> list_all (\<lambda>c. seen_established (GetName c) e3) crds"
      using waitForCRDs_log [OF assms(1)] by blast
    then show ?thesis
      using extends_trans [OF w2] e2(2,3) Inr by - (rule exI [of _ e2], rule exI [of _ e3], simp)
  qed
qed

lemma apply_rest_log:
  assumes "apply_rest L objs w = (r, w')"
  shows "\<exists>evs. extends w w' evs \<and> prefix (applied_objects evs) objs \<and> (r = Inr () \<longrightarrow> applied_objects evs = objs)"
proof (cases "objs = []")
  case True
  then show ?thesis using assms by (intro exI [of _ "[]"]) (simp add: apply_rest_def)
next
  case False
  obtain mapper w1 where m: "newMapper L w = (Inr mapper, w1)" "extends w w1 []"
    using newMapper_log by (metis surj_pair)
  have a: "applyAll L mapper (\<lambda>obj. ''apply '' @ GetKind obj @ '' '' @ GetNamespace obj @ ''/'' @ GetName obj) objs w1 = (r, w')"
    using assms False m(1) by (simp add: apply_rest_def)
  obtain evs where evs: "extends w1 w' evs" "prefix (applied_objects evs) objs" "r = Inr () \<longrightarrow> applied_objects evs = objs"
    using applyAll_log [OF a] by blast
  then show ?thesis using extends_trans [OF m(2) evs(1)] by (intro exI [of _ evs]) simp
qed

text \<open>The order in which the objects of a manifest are applied.\<close>

definition apply_order :: "jobj list \<Rightarrow> jobj list" where
  "apply_order objs = filter is_crd objs @ filter (\<lambda>obj. \<not> is_crd obj) objs"

lemma applyManifest_log:
  assumes "poll_law L" "parseMultiDoc L data = Inr objs" "applyManifest L data w = (r, w')"
  shows "\<exists>a seen b. extends w w' (a @ seen @ b) \<and> prefix (applied_objects a) (filter is_crd objs) \<and> applied_objects seen = [] \<and>
    prefix (applied_objects b) (filter (\<lambda>obj. \<not> is_crd obj) objs) \<and> (seen \<noteq> [] \<longrightarrow> applied_objects a = filter is_crd objs) \<and>
    (b \<noteq> [] \<or> r = Inr () \<longrightarrow> applied_objects a = filter is_crd objs \<and> list_all (\<lambda>c. seen_established (GetName c) seen) (filter is_crd objs)) \<and>
    (r = Inr () \<longrightarrow> applied_objects b = filter (\<lambda>obj. \<not> is_crd obj) objs)"
proof -
  obtain r1 w1 where c: "apply_crds L (filter is_crd objs) w = (r1, w1)" by force
  obtain a seen where a: "extends w w1 (a @ seen)" "prefix (applied_objects a) (filter is_crd objs)" "applied_objects seen = []"
      "seen \<noteq> [] \<longrightarrow> applied_objects a = filter is_crd objs"
      "r1 = Inr () \<longrightarrow> applied_objects a = filter is_crd objs \<and> list_all (\<lambda>c. seen_established (GetName c) seen) (filter is_crd objs)"
    using apply_crds_log [OF assms(1) c] by blast
  show ?thesis
  proof (cases r1)
    case (Inl e)
    then have "r = Inl e" "w' = w1" using assms(2,3) c by (simp_all add: applyManifest_def)
    then show ?thesis using a by - (rule exI [of _ a], rule exI [of _ seen], rule exI [of _ "[]"], simp)
  next
    case (Inr u)
    then have "apply_rest L (filter (\<lambda>obj. \<not> is_crd obj) objs) w1 = (r, w')" using assms(2,3) c by (simp add: applyManifest_def)
    then obtain b where "extends w1 w' b" "prefix (applied_objects b) (filter (\<lambda>obj. \<not> is_crd obj) objs)"
        "r = Inr () \<longrightarrow> applied_objects b = filter (\<lambda>obj. \<not> is_crd obj) objs" using apply_rest_log by blast
    then show ?thesis
      using extends_trans [OF a(1)] a(2-5) Inr by - (rule exI [of _ a], rule exI [of _ seen], rule exI [of _ b], simp)
  qed
qed

text \<open>The objects of a file, in the order in which they are applied.\<close>

definition file_objects :: "('x, 'm) boot_lib \<Rightarrow> gostring \<Rightarrow> jobj list" where
  "file_objects L name =
     (case bl_read_file L (''bootstrap/'' @ name) of
        Inl _ \<Rightarrow> []
      | Inr data \<Rightarrow> (case parseMultiDoc L data of Inl _ \<Rightarrow> [] | Inr objs \<Rightarrow> apply_order objs))"

lemma apply_files_log:
  assumes "poll_law L" "apply_files L entries w = (Inr (), w')"
  shows "\<exists>evs. extends w w' evs \<and> applied_objects evs = concat (map (file_objects L) (map fst (filter (\<lambda>e. \<not> snd e) entries)))"
  using assms(2)
proof (induction entries arbitrary: w)
  case (Cons entry entries)
  obtain name isDir where e: "entry = (name, isDir)" by force
  show ?case
  proof (cases isDir)
    case True
    then show ?thesis using Cons e by auto
  next
    case False
    then obtain data w1 where d: "bl_read_file L (''bootstrap/'' @ name) = Inr data" "applyManifest L data w = (Inr (), w1)"
        "apply_files L entries w1 = (Inr (), w')"
      using Cons.prems e by (auto split: sum.splits prod.splits)
    then obtain objs where objs: "parseMultiDoc L data = Inr objs" by (cases "parseMultiDoc L data") (auto simp: applyManifest_def)
    obtain a seen b where "extends w w1 (a @ seen @ b)" "applied_objects seen = []" "applied_objects a = filter is_crd objs"
        "applied_objects b = filter (\<lambda>obj. \<not> is_crd obj) objs"
      using applyManifest_log [OF assms(1) objs d(2)] by blast
    then obtain e1 where e1: "extends w w1 e1" "applied_objects e1 = apply_order objs" by (fastforce simp: apply_order_def)
    obtain e2 where "extends w1 w' e2" "applied_objects e2 = concat (map (file_objects L) (map fst (filter (\<lambda>e. \<not> snd e) entries)))"
      using Cons.IH [OF d(3)] by blast
    moreover have "file_objects L name = apply_order objs" using d(1) objs by (simp add: file_objects_def)
    ultimately show ?thesis
      using extends_trans [OF e1(1)] e1(2) e False by (intro exI [of _ "e1 @ e2"]) simp
  qed
qed auto

section \<open>Properties\<close>

text \<open>Claim C21. Whatever the API server answers, the bootstrap of a manifest goes through three phases. It patches CRDs of the
  manifest, in document order and each once; only when all of them are patched does it read CRDs and patch nothing meanwhile; and only
  when it has since read, for every CRD of the manifest, an object whose status conditions have one of type Established
  with status True does it patch the other objects, in document order and each once. A bootstrap that reports success
  has patched every object and has seen every CRD established.\<close>

theorem crds_established_first:
  assumes "poll_law L" "parseMultiDoc L data = Inr objs" "applyManifest L data w = (r, w')"
  shows "\<exists>a seen b. bw_log w' = bw_log w @ a @ seen @ b \<and>
    prefix (applied_objects a) (filter is_crd objs) \<and> applied_objects seen = [] \<and> prefix (applied_objects b) (filter (\<lambda>obj. \<not> is_crd obj) objs) \<and>
    (seen \<noteq> [] \<longrightarrow> applied_objects a = filter is_crd objs) \<and>
    (b \<noteq> [] \<or> r = Inr () \<longrightarrow> applied_objects a = filter is_crd objs \<and>
       (\<forall>crd \<in> set (filter is_crd objs). \<exists>obj. Seen (GetName crd) obj \<in> set seen \<and> shows_established obj)) \<and>
    (r = Inr () \<longrightarrow> applied_objects b = filter (\<lambda>obj. \<not> is_crd obj) objs)"
  using applyManifest_log [OF assms] unfolding extends_def list_all_iff seen_established_def .

text \<open>A bootstrap run that reports success has applied the objects of every embedded file that is not
  a directory, file by file in the lexicographic order of their names.\<close>

lemma bootstrap_in_file_order:
  assumes "poll_law L" "bl_entries L = Inr entries" "boot_Run L w = (Inr (), w')"
  shows "\<exists>names evs. sorted names \<and> mset names = mset (map fst (filter (\<lambda>e. \<not> snd e) entries)) \<and>
    bw_log w' = bw_log w @ evs \<and> applied_objects evs = concat (map (file_objects L) names)"
proof -
  let ?names = "map fst (filter (\<lambda>e. \<not> snd e) (sort_key fst entries))"
  have "apply_files L (sort_key fst entries) w = (Inr (), w')" using assms(2,3) by (simp add: boot_Run_def)
  then obtain evs where "extends w w' evs" "applied_objects evs = concat (map (file_objects L) ?names)"
    using apply_files_log [OF assms(1)] by blast
  moreover have "sorted ?names" using sorted_filter [of fst "sort_key fst entries" "\<lambda>e. \<not> snd e"] by simp
  moreover have "mset ?names = mset (map fst (filter (\<lambda>e. \<not> snd e) entries))" by (simp add: mset_filter)
  ultimately show ?thesis unfolding extends_def by blast
qed

section \<open>Witnesses\<close>

text \<open>An API server that accepts everything and reports every CRD as established; one file with a
  resource in front of a CRD.\<close>

definition demo_crd :: jobj where
  "demo_crd = [(''kind'', JStr ''CustomResourceDefinition''), (''metadata'', JObj [(''name'', JStr ''modules'')])]"

definition demo_module :: jobj where
  "demo_module = [(''kind'', JStr ''Module''), (''metadata'', JObj [(''name'', JStr ''m1''), (''namespace'', JStr ''ns'')])]"

definition demo_established :: jobj where
  "demo_established = [(''status'', JObj [(''conditions'', JArr [JNull, JObj [(''type'', JStr ''Established''), (''status'', JStr ''True'')]])])]"

definition demo_poll :: "nat \<Rightarrow> nat \<Rightarrow> ('x bworld, bool) eff \<Rightarrow> ('x bworld, unit) eff" where
  "demo_poll i t cond w =
     (case cond w of
        (Inl e, w') \<Rightarrow> (Inl e, w')
      | (Inr b, w') \<Rightarrow> (if b then Inr () else Inl CtxDeadlineExceeded, w'))"

definition demo_boot :: "(unit, unit) boot_lib" where
  "demo_boot = \<lparr>bl_entries = Inr [(''b.yaml'', False), (''sub'', True), (''a.yaml'', False)], bl_read_file = (\<lambda>f. Inr f),
     bl_decode = (\<lambda>d. [Inr demo_module, Inr [], Inr demo_crd]),
     bl_new_mapper = (\<lambda>x. ((), x)), bl_gvk = (\<lambda>obj. ([], [], [])), bl_rest_mapping = (\<lambda>m g x. (Inr (crdGVR, False), x)),
     bl_marshal = (\<lambda>obj. Inr []), bl_patch = (\<lambda>g ns n d f fm x. (Inr (), x)), bl_get = (\<lambda>g n x. (Inr demo_established, x)),
     bl_poll = demo_poll\<rparr>"

lemma demo_poll_law: "poll_law demo_boot"
proof -
  have "case r of Inl e \<Rightarrow> polling cond w w' | Inr _ \<Rightarrow> (\<exists>w0. polling cond w w0 \<and> cond w0 = (Inr True, w'))"
    if "demo_poll i t cond w = (r, w')" for i t w r w' and cond :: "(unit bworld, bool) eff"
  proof -
    obtain c w1 where c: "cond w = (c, w1)" by force
    show ?thesis
      using that c begin_poll [of cond w] again [OF begin_poll [of cond w] c] by (auto simp: demo_poll_def split: sum.splits if_splits)
  qed
  then show ?thesis by (simp add: poll_law_def demo_boot_def)
qed

definition empty_bworld :: "unit bworld" where
  "empty_bworld = \<lparr>bw_ext = (), bw_log = []\<rparr>"

lemma demo_docs: "parseMultiDoc demo_boot d = Inr [demo_module, demo_crd]"
  by (simp add: parseMultiDoc_def demo_boot_def GetKind_def string_at_def demo_module_def demo_crd_def)

lemma demo_crds: "is_crd demo_crd" "\<not> is_crd demo_module"
  by (simp_all add: is_crd_def GetKind_def string_at_def demo_crd_def demo_module_def)

lemma demo_applyObject: "\<exists>w'. applyObject demo_boot m obj w = (Inr (), w')"
  by (simp add: applyObject_def ext_eff_def Let_def demo_boot_def)

lemma demo_wait: "\<exists>w'. waitForCRDs demo_boot [crd] w = (Inr (), w')"
proof -
  have e: "isCRDEstablished demo_established" by code_simp
  obtain w' where "crd_condition demo_boot (GetName crd) w = (Inr True, w')"
    by (simp add: crd_condition_def ext_eff_def e demo_boot_def)
  moreover have "bl_poll demo_boot = demo_poll" by (simp add: demo_boot_def)
  ultimately show ?thesis by (simp add: demo_poll_def)
qed

lemma demo_apply: "\<exists>w'. applyManifest demo_boot d w = (Inr (), w')"
proof -
  have map: "newMapper demo_boot w = (Inr (), w)" for w
    by (cases w) (simp add: newMapper_def ext_eff_def demo_boot_def)
  have one: "\<exists>w'. applyAll demo_boot m why [obj] w = (Inr (), w')" for m why obj w
    using demo_applyObject [of m obj w] by auto
  obtain w1 where w1: "applyAll demo_boot () (\<lambda>crd. ''apply CRD '' @ GetName crd) [demo_crd] w = (Inr (), w1)" using one by blast
  obtain w2 where w2: "waitForCRDs demo_boot [demo_crd] w1 = (Inr (), w2)" using demo_wait by blast
  have "apply_crds demo_boot [demo_crd] w = (Inr (), w2)"
    using w1 w2 by (simp add: apply_crds_def bindE_def map del: applyAll.simps waitForCRDs.simps)
  moreover have "\<exists>w'. apply_rest demo_boot [demo_module] w2 = (Inr (), w')"
    using one by (simp add: apply_rest_def bindE_def map del: applyAll.simps)
  ultimately show ?thesis by (simp add: applyManifest_def demo_docs demo_crds)
qed

theorem crds_established_first_witness:
  "\<exists>w' a seen b obj. applyManifest demo_boot [] empty_bworld = (Inr (), w') \<and> bw_log w' = a @ seen @ b \<and> applied_objects a = [demo_crd] \<and>
     Seen (GetName demo_crd) obj \<in> set seen \<and> shows_established obj \<and> applied_objects b = [demo_module]"
proof -
  obtain w' where w': "applyManifest demo_boot [] empty_bworld = (Inr (), w')" using demo_apply by blast
  from crds_established_first [OF demo_poll_law demo_docs w'] obtain a seen b where "bw_log w' = bw_log empty_bworld @ a @ seen @ b"
      "applied_objects a = filter is_crd [demo_module, demo_crd]" "applied_objects b = filter (\<lambda>obj. \<not> is_crd obj) [demo_module, demo_crd]"
      "\<forall>crd \<in> set (filter is_crd [demo_module, demo_crd]). \<exists>obj. Seen (GetName crd) obj \<in> set seen \<and> shows_established obj"
    by blast
  then show ?thesis using w' demo_crds by (auto simp: empty_bworld_def)
qed

lemma demo_file_order:
  "\<exists>w'. boot_Run demo_boot empty_bworld = (Inr (), w') \<and>
     applied_objects (bw_log w') = [demo_crd, demo_module, demo_crd, demo_module]"
proof -
  have entries: "bl_entries demo_boot = Inr [(''b.yaml'', False), (''sub'', True), (''a.yaml'', False)]" by (simp add: demo_boot_def)
  have read: "bl_read_file demo_boot f = Inr f" for f by (simp add: demo_boot_def)
  have files: "\<exists>w'. apply_files demo_boot es w = (Inr (), w')" for es w
  proof (induction es arbitrary: w)
    case (Cons entry es)
    obtain w1 where "applyManifest demo_boot (''bootstrap/'' @ fst entry) w = (Inr (), w1)" using demo_apply by blast
    then show ?case using Cons.IH by (cases entry) (auto simp: read)
  qed simp
  obtain w' where w': "boot_Run demo_boot empty_bworld = (Inr (), w')"
    using files [of "sort_key fst [(''b.yaml'', False), (''sub'', True), (''a.yaml'', False)]" empty_bworld] by (auto simp: boot_Run_def entries)
  have objs: "file_objects demo_boot n = [demo_crd, demo_module]" for n
    by (simp add: file_objects_def read demo_docs apply_order_def demo_crds)
  obtain names evs where n: "mset names = {#''b.yaml'', ''a.yaml''#}" "bw_log w' = bw_log empty_bworld @ evs"
      "applied_objects evs = concat (map (file_objects demo_boot) names)"
    using bootstrap_in_file_order [OF demo_poll_law entries w'] by auto
  have "length names = 2" using n(1) by (metis size_add_mset size_empty size_mset numeral_2_eq_2)
  then obtain x y where "names = [x, y]" by (auto simp: length_Suc_conv numeral_2_eq_2)
  then show ?thesis using w' n(2,3) by (simp add: objs empty_bworld_def)
qed

end
