(* ===== verification/Config.thy ===== *)
theory Config
  imports Manifest_Renderer
begin

text \<open>
  Configuration: \<^verbatim>\<open>internal/config/key.go\<close>, \<^verbatim>\<open>options.go\<close> and \<^verbatim>\<open>config.go\<close>.

  The packages \<^verbatim>\<open>viper\<close> and \<^verbatim>\<open>pflag\<close> are third-party code. \<open>viper_lib\<close> holds the calls that are
  made of \<^verbatim>\<open>viper\<close> on an abstract instance and \<open>viper_laws\<close> what its documentation says of them; a flag
  set is the list of the flags defined in it, and defining a flag twice panics.
\<close>

section \<open>\<^verbatim>\<open>key.go\<close> and \<^verbatim>\<open>options.go\<close>\<close>

definition keyServerAddress :: gostring where "keyServerAddress = ''server.address''"
definition keyServerAllowedOrigins :: gostring where "keyServerAllowedOrigins = ''server.allowed_origins''"
definition keyServerTunnelAddress :: gostring where "keyServerTunnelAddress = ''server.tunnel.address''"
definition keyServerTunnelCADir :: gostring where "keyServerTunnelCADir = ''server.tunnel.ca_dir''"
definition keyServerKeycloakRealmURL :: gostring where "keyServerKeycloakRealmURL = ''server.keycloak.realm_url''"
definition keyServerKeycloakClientID :: gostring where "keyServerKeycloakClientID = ''server.keycloak.client_id''"
definition keyServerExternalURL :: gostring where "keyServerExternalURL = ''server.external_url''"
definition keyServerExternalTunnelURL :: gostring where "keyServerExternalTunnelURL = ''server.external_tunnel_url''"
definition keyAgentCluster :: gostring where "keyAgentCluster = ''agent.cluster''"
definition keyAgentServerURL :: gostring where "keyAgentServerURL = ''agent.server_url''"
definition keyAgentTunnelServerURL :: gostring where "keyAgentTunnelServerURL = ''agent.tunnel.server_url''"
definition keyAgentBootstrap :: gostring where "keyAgentBootstrap = ''agent.bootstrap''"

lemmas key_defs = keyServerAddress_def keyServerAllowedOrigins_def keyServerTunnelAddress_def keyServerTunnelCADir_def
  keyServerKeycloakRealmURL_def keyServerKeycloakClientID_def keyServerExternalURL_def keyServerExternalTunnelURL_def
  keyAgentCluster_def keyAgentServerURL_def keyAgentTunnelServerURL_def keyAgentBootstrap_def

datatype cfg_value = CStr gostring | CInt int | CBool bool | CStrs "gostring list" | CDuration int64 | COther

record Option =
  op_Key :: gostring
  op_Flag :: gostring
  op_Default :: cfg_value
  op_Description :: gostring

definition toFlag :: "gostring \<Rightarrow> gostring" where
  "toFlag key =
     trim_prefix
       (trim_prefix (replace_char (CHR ''_'') (CHR ''-'') (replace_char (CHR ''.'') (CHR ''-'') (ToLower key))) ''server-'')
       ''agent-''"

definition an_option :: "gostring \<Rightarrow> cfg_value \<Rightarrow> gostring \<Rightarrow> Option" where
  "an_option key def desc = \<lparr>op_Key = key, op_Flag = toFlag key, op_Default = def, op_Description = desc\<rparr>"

definition ServerOptions :: "Option list" where
  "ServerOptions =
     [an_option keyServerAddress (CStr '':8299'') ''Server listen address'',
      an_option keyServerAllowedOrigins (CStrs []) ''Server allowed origins'',
      an_option keyServerTunnelAddress (CStr ''127.0.0.1:8300'') ''Server tunnel address'',
      an_option keyServerTunnelCADir (CStr ''/var/lib/otterscale/ca'') ''Directory for persistent CA certificate and key'',
      an_option keyServerKeycloakRealmURL (CStr []) ''Server keycloak realm url (required)'',
      an_option keyServerKeycloakClientID (CStr ''otterscale-server'') ''Server keycloak client id'',
      an_option keyServerExternalURL (CStr []) ''Externally reachable server URL for agent connections (required for manifest generation)'',
      an_option keyServerExternalTunnelURL (CStr [])
        ''Externally reachable tunnel URL for agent tunnel connections (required for manifest generation)'']"

definition AgentOptions :: "Option list" where
  "AgentOptions =
     [an_option keyAgentCluster (CStr ''default'') ''Agent cluster'',
      an_option keyAgentServerURL (CStr ''http://127.0.0.1:8299'') ''Agent control-plane server url'',
      an_option keyAgentTunnelServerURL (CStr ''https://127.0.0.1:8300'') ''Agent tunnel server url'',
      an_option keyAgentBootstrap (CBool True) ''Run Layer 0 bootstrap on startup (install FluxCD + Module CRD)'']"

section \<open>\<^verbatim>\<open>config.go\<close>\<close>

text \<open>\<open>v_ReadInConfig\<close> returns the error and whether it says that there is no such file; \<open>v_env\<close> is the
  set-up of the environment with a prefix and a replaced separator.\<close>

record 'v viper_lib =
  v_new :: 'v
  v_SetDefault :: "gostring \<Rightarrow> cfg_value \<Rightarrow> 'v \<Rightarrow> 'v"
  v_ReadInConfig :: "'v \<Rightarrow> (go_error \<times> bool) option \<times> 'v"
  v_env :: "gostring \<Rightarrow> char \<Rightarrow> char \<Rightarrow> 'v \<Rightarrow> 'v"
  v_BindPFlag :: "gostring \<Rightarrow> gostring \<Rightarrow> 'v \<Rightarrow> unit res \<times> 'v"
  v_Get :: "'v \<Rightarrow> gostring \<Rightarrow> cfg_value option"
  v_to_string :: "cfg_value option \<Rightarrow> gostring"
  v_to_strings :: "cfg_value option \<Rightarrow> gostring list"
  v_to_bool :: "cfg_value option \<Rightarrow> bool"

definition set_defaults :: "'v viper_lib \<Rightarrow> Option list \<Rightarrow> 'v \<Rightarrow> 'v" where
  "set_defaults L opts v = fold (\<lambda>opt v. v_SetDefault L (op_Key opt) (op_Default opt) v) opts v"

definition config_New :: "'v viper_lib \<Rightarrow> 'v res" where
  "config_New L =
     (case v_ReadInConfig L (set_defaults L AgentOptions (set_defaults L ServerOptions (v_new L))) of
        (Some (e, notFound), v) \<Rightarrow>
          if \<not> notFound then Inl (Wrap ''failed to read config file'' e)
          else Inr (v_env L ''OTTERSCALE'' (CHR ''.'') (CHR ''_'') v)
      | (None, v) \<Rightarrow> Inr (v_env L ''OTTERSCALE'' (CHR ''.'') (CHR ''_'') v))"

text \<open>The result is \<^const>\<open>None\<close> when a flag is defined twice.\<close>

type_synonym flag_set = "(gostring \<times> cfg_value \<times> gostring) list"

fun BindFlags :: "'v viper_lib \<Rightarrow> Option list \<Rightarrow> flag_set \<times> 'v \<Rightarrow> (unit res \<times> flag_set \<times> 'v) option" where
  "BindFlags L [] st = Some (Inr (), st)"
| "BindFlags L (opt # opts) (fs, v) =
     (if op_Default opt = COther then Some (Inl (Plain (''unsupported flag type for key: '' @ op_Key opt)), fs, v)
      else if op_Flag opt \<in> fst ` set fs then None
      else
        (let fs' = fs @ [(op_Flag opt, op_Default opt, op_Description opt)] in
         case v_BindPFlag L (op_Key opt) (op_Flag opt) v of
           (Inl e, v') \<Rightarrow> Some (Inl (Wrap (''failed to bind flag '' @ op_Flag opt) e), fs', v')
         | (Inr _, v') \<Rightarrow> BindFlags L opts (fs', v')))"

text \<open>The typed accessors convert what they find.\<close>

definition GetString :: "'v viper_lib \<Rightarrow> 'v \<Rightarrow> gostring \<Rightarrow> gostring" where
  "GetString L v key = v_to_string L (v_Get L v key)"

definition GetStringSlice :: "'v viper_lib \<Rightarrow> 'v \<Rightarrow> gostring \<Rightarrow> gostring list" where
  "GetStringSlice L v key = v_to_strings L (v_Get L v key)"

definition GetBool :: "'v viper_lib \<Rightarrow> 'v \<Rightarrow> gostring \<Rightarrow> bool" where
  "GetBool L v key = v_to_bool L (v_Get L v key)"

definition ServerAddress :: "'v viper_lib \<Rightarrow> 'v \<Rightarrow> gostring" where "ServerAddress L v = GetString L v keyServerAddress"
definition ServerAllowedOrigins :: "'v viper_lib \<Rightarrow> 'v \<Rightarrow> gostring list" where "ServerAllowedOrigins L v = GetStringSlice L v keyServerAllowedOrigins"
definition ServerTunnelAddress :: "'v viper_lib \<Rightarrow> 'v \<Rightarrow> gostring" where "ServerTunnelAddress L v = GetString L v keyServerTunnelAddress"
definition ServerTunnelCADir :: "'v viper_lib \<Rightarrow> 'v \<Rightarrow> gostring" where "ServerTunnelCADir L v = GetString L v keyServerTunnelCADir"
definition ServerKeycloakRealmURL :: "'v viper_lib \<Rightarrow> 'v \<Rightarrow> gostring" where "ServerKeycloakRealmURL L v = GetString L v keyServerKeycloakRealmURL"
definition ServerKeycloakClientID :: "'v viper_lib \<Rightarrow> 'v \<Rightarrow> gostring" where "ServerKeycloakClientID L v = GetString L v keyServerKeycloakClientID"
definition ServerExternalURL :: "'v viper_lib \<Rightarrow> 'v \<Rightarrow> gostring" where "ServerExternalURL L v = GetString L v keyServerExternalURL"
definition ServerExternalTunnelURL :: "'v viper_lib \<Rightarrow> 'v \<Rightarrow> gostring" where "ServerExternalTunnelURL L v = GetString L v keyServerExternalTunnelURL"
definition AgentCluster :: "'v viper_lib \<Rightarrow> 'v \<Rightarrow> gostring" where "AgentCluster L v = GetString L v keyAgentCluster"
definition AgentServerURL :: "'v viper_lib \<Rightarrow> 'v \<Rightarrow> gostring" where "AgentServerURL L v = GetString L v keyAgentServerURL"
definition AgentTunnelServerURL :: "'v viper_lib \<Rightarrow> 'v \<Rightarrow> gostring" where "AgentTunnelServerURL L v = GetString L v keyAgentTunnelServerURL"
definition AgentBootstrap :: "'v viper_lib \<Rightarrow> 'v \<Rightarrow> bool" where "AgentBootstrap L v = GetBool L v keyAgentBootstrap"

section \<open>Lemmas\<close>

text \<open>What an instance of \<^verbatim>\<open>viper\<close> has been given. \<open>viper_source_laws\<close>: what the set-up calls do to it; \<open>fl\<close> is what the
  configuration file that \<^verbatim>\<open>ReadInConfig\<close> looks for says, nothing when there is none. \<open>viper_laws\<close> adds the order in
  which \<^verbatim>\<open>viper\<close> documents to consult the sources: a flag that was set on the command line, the environment, the file, the
  defaults. It is the order the package comment of \<^verbatim>\<open>key.go\<close> gives; the comment of \<^verbatim>\<open>New\<close> puts the file before the environment.\<close>

record sources =
  sr_default :: "gostring \<Rightarrow> cfg_value option"
  sr_file :: "gostring \<Rightarrow> cfg_value option"
  sr_env :: "gostring \<Rightarrow> cfg_value option"
  sr_flag :: "gostring \<Rightarrow> gostring option"

definition env_key :: "gostring \<Rightarrow> char \<Rightarrow> char \<Rightarrow> gostring \<Rightarrow> gostring" where
  "env_key prefix old new key = prefix @ ''_'' @ replace_char old new (map (\<lambda>c. if is_lower c then char_of ((of_char c :: nat) - 32) else c) key)"

definition or_else :: "'a option \<Rightarrow> 'a option \<Rightarrow> 'a option" where
  "or_else a b = (case a of None \<Rightarrow> b | Some x \<Rightarrow> Some x)"

definition viper_source_laws ::
  "'v viper_lib \<Rightarrow> ('v \<Rightarrow> sources) \<Rightarrow> (gostring \<Rightarrow> cfg_value option) \<Rightarrow> (gostring \<Rightarrow> cfg_value option) \<Rightarrow> bool" where
  "viper_source_laws L src fl getenv \<longleftrightarrow>
     src (v_new L) = \<lparr>sr_default = (\<lambda>_. None), sr_file = (\<lambda>_. None), sr_env = (\<lambda>_. None), sr_flag = (\<lambda>_. None)\<rparr> \<and>
     (\<forall>k d v. src (v_SetDefault L k d v) = (src v)\<lparr>sr_default := (sr_default (src v))(k \<mapsto> d)\<rparr>) \<and>
     (\<forall>v. src (snd (v_ReadInConfig L v)) = (src v)\<lparr>sr_file := fl\<rparr>) \<and>
     (\<forall>v e. fst (v_ReadInConfig L v) = Some (e, True) \<longrightarrow> fl = (\<lambda>_. None)) \<and>
     (\<forall>p a b v. src (v_env L p a b v) = (src v)\<lparr>sr_env := (\<lambda>k. getenv (env_key p a b k))\<rparr>) \<and>
     (\<forall>k f v. v_BindPFlag L k f v = (Inr (), snd (v_BindPFlag L k f v)) \<and>
        src (snd (v_BindPFlag L k f v)) = (src v)\<lparr>sr_flag := (sr_flag (src v))(k \<mapsto> f)\<rparr>)"

definition viper_laws ::
  "'v viper_lib \<Rightarrow> ('v \<Rightarrow> sources) \<Rightarrow> (gostring \<Rightarrow> cfg_value option) \<Rightarrow> (gostring \<Rightarrow> cfg_value option) \<Rightarrow>
     (gostring \<Rightarrow> cfg_value option) \<Rightarrow> bool" where
  "viper_laws L src fl getenv changed \<longleftrightarrow>
     viper_source_laws L src fl getenv \<and>
     (\<forall>v k. v_Get L v k =
        or_else (Option.bind (sr_flag (src v) k) changed)
          (or_else (sr_env (src v) k) (or_else (sr_file (src v) k) (sr_default (src v) k)))) \<and>
     (\<forall>x. v_to_string L (Some (CStr x)) = x) \<and> (\<forall>x. v_to_strings L (Some (CStrs x)) = x) \<and> (\<forall>x. v_to_bool L (Some (CBool x)) = x)"

text \<open>The flags of one mode are distinct and every default has a supported type, so binding them
  neither panics nor fails.\<close>

lemma ToLower_id: "list_all (\<lambda>c. ord_of c < 128 \<and> \<not> is_upper c) s \<Longrightarrow> ToLower s = s"
  by (induction s rule: ToLower.induct) (auto simp: ascii_lower_def)

lemma keys_lower:
  "list_all (\<lambda>key. list_all (\<lambda>c. ord_of c < 128 \<and> \<not> is_upper c) key) (map op_Key (ServerOptions @ AgentOptions))"
  by (simp add: ServerOptions_def AgentOptions_def an_option_def key_defs ord_of_def is_upper_def)

lemma toFlag_key:
  assumes "key \<in> set (map op_Key (ServerOptions @ AgentOptions))"
  shows "toFlag key = trim_prefix (trim_prefix (map (\<lambda>c. if c = CHR ''_'' \<or> c = CHR ''.'' then CHR ''-'' else c) key) ''server-'') ''agent-''"
proof -
  have "ToLower key = key" using keys_lower assms unfolding list_all_iff by (intro ToLower_id) (auto simp only: list_all_iff)
  then show ?thesis by (simp add: toFlag_def replace_char_def comp_def) (intro arg_cong2 [where f = trim_prefix], auto)
qed

lemma toFlag_table:
  "map toFlag (map op_Key ServerOptions) = [''address'', ''allowed-origins'', ''tunnel-address'', ''tunnel-ca-dir'', ''keycloak-realm-url'',
     ''keycloak-client-id'', ''external-url'', ''external-tunnel-url'']"
  "map toFlag (map op_Key AgentOptions) = [''cluster'', ''server-url'', ''tunnel-server-url'', ''bootstrap'']"
proof -
  have "map toFlag (map op_Key opts) = map (\<lambda>key. trim_prefix (trim_prefix (map (\<lambda>c. if c = CHR ''_'' \<or> c = CHR ''.'' then CHR ''-'' else c) key) ''server-'') ''agent-'') (map op_Key opts)"
    if "set opts \<subseteq> set (ServerOptions @ AgentOptions)" for opts
    using that by (intro map_cong [OF refl] toFlag_key) auto
  note t = this
  show "map toFlag (map op_Key ServerOptions) = [''address'', ''allowed-origins'', ''tunnel-address'', ''tunnel-ca-dir'', ''keycloak-realm-url'',
     ''keycloak-client-id'', ''external-url'', ''external-tunnel-url'']"
    by (subst t, simp, simp add: ServerOptions_def an_option_def key_defs trim_prefix_def has_prefix_def)
  show "map toFlag (map op_Key AgentOptions) = [''cluster'', ''server-url'', ''tunnel-server-url'', ''bootstrap'']"
    by (subst t, simp, simp add: AgentOptions_def an_option_def key_defs trim_prefix_def has_prefix_def)
qed

lemma op_Flag_map: "map op_Flag ServerOptions = map toFlag (map op_Key ServerOptions)" "map op_Flag AgentOptions = map toFlag (map op_Key AgentOptions)"
  by (simp_all add: ServerOptions_def AgentOptions_def an_option_def)

lemma options_distinct:
  "distinct (map op_Flag ServerOptions)" "distinct (map op_Flag AgentOptions)"
  "distinct (map op_Key (ServerOptions @ AgentOptions))"
  "list_all (\<lambda>opt. op_Default opt \<noteq> COther) (ServerOptions @ AgentOptions)"
  unfolding op_Flag_map toFlag_table by (simp_all add: ServerOptions_def AgentOptions_def an_option_def key_defs)

lemma BindFlags_ok:
  assumes "viper_source_laws L src fl getenv" "distinct (map op_Flag opts)" "list_all (\<lambda>opt. op_Default opt \<noteq> COther) opts"
    and "fst ` set fs \<inter> op_Flag ` set opts = {}" "distinct (map op_Key opts)"
  shows "\<exists>v'. BindFlags L opts (fs, v) = Some (Inr (), fs @ map (\<lambda>opt. (op_Flag opt, op_Default opt, op_Description opt)) opts, v') \<and>
    src v' = (src v)\<lparr>sr_flag := \<lambda>k. or_else (map_of (map (\<lambda>opt. (op_Key opt, op_Flag opt)) opts) k) (sr_flag (src v) k)\<rparr>"
  using assms(2-5)
proof (induction opts arbitrary: fs v)
  case (Cons opt opts)
  let ?fs = "fs @ [(op_Flag opt, op_Default opt, op_Description opt)]"
  obtain v1 where v1: "v_BindPFlag L (op_Key opt) (op_Flag opt) v = (Inr (), v1)"
      "src v1 = (src v)\<lparr>sr_flag := (sr_flag (src v))(op_Key opt \<mapsto> op_Flag opt)\<rparr>"
    using assms(1) unfolding viper_source_laws_def by metis
  obtain v' where IH: "BindFlags L opts (?fs, v1) = Some (Inr (), ?fs @ map (\<lambda>opt. (op_Flag opt, op_Default opt, op_Description opt)) opts, v')"
      "src v' = (src v1)\<lparr>sr_flag := \<lambda>k. or_else (map_of (map (\<lambda>opt. (op_Key opt, op_Flag opt)) opts) k) (sr_flag (src v1) k)\<rparr>"
    using Cons.IH [of ?fs v1] Cons.prems by (force simp: disjoint_iff)
  have "map_of (map (\<lambda>opt. (op_Key opt, op_Flag opt)) opts) (op_Key opt) = None"
    using Cons.prems(4) by (auto simp: map_of_eq_None_iff)
  then have "(\<lambda>k. or_else (map_of (map (\<lambda>opt. (op_Key opt, op_Flag opt)) opts) k) (sr_flag (src v1) k)) =
      (\<lambda>k. or_else (map_of (map (\<lambda>opt. (op_Key opt, op_Flag opt)) (opt # opts)) k) (sr_flag (src v) k))"
    by (auto simp: v1(2) fun_eq_iff or_else_def split: option.splits)
  moreover have "op_Default opt \<noteq> COther" "op_Flag opt \<notin> fst ` set fs" using Cons.prems(2,3) by auto
  ultimately show ?case using IH v1 by (simp add: Let_def)
qed (simp add: or_else_def)

lemma set_defaults_src:
  assumes "viper_source_laws L src fl getenv" "distinct (map op_Key opts)"
  shows "src (set_defaults L opts v) =
    (src v)\<lparr>sr_default := \<lambda>k. or_else (map_of (map (\<lambda>opt. (op_Key opt, op_Default opt)) opts) k) (sr_default (src v) k)\<rparr>"
  using assms(2)
proof (induction opts arbitrary: v)
  case (Cons opt opts)
  let ?v = "v_SetDefault L (op_Key opt) (op_Default opt) v"
  have s: "src ?v = (src v)\<lparr>sr_default := (sr_default (src v))(op_Key opt \<mapsto> op_Default opt)\<rparr>"
    using assms(1) by (simp add: viper_source_laws_def)
  have "map_of (map (\<lambda>opt. (op_Key opt, op_Default opt)) opts) (op_Key opt) = None"
    using Cons.prems by (auto simp: map_of_eq_None_iff)
  then have "(\<lambda>k. or_else (map_of (map (\<lambda>opt. (op_Key opt, op_Default opt)) opts) k) (sr_default (src ?v) k)) =
      (\<lambda>k. or_else (map_of (map (\<lambda>opt. (op_Key opt, op_Default opt)) (opt # opts)) k) (sr_default (src v) k))"
    by (auto simp: s fun_eq_iff or_else_def split: option.splits)
  moreover have "set_defaults L (opt # opts) v = set_defaults L opts ?v" by (simp add: set_defaults_def)
  ultimately show ?case using Cons s by simp
qed (simp add: set_defaults_def or_else_def)

lemma first_some_None [simp]: "or_else x None = x"
  by (simp add: or_else_def split: option.splits)

lemma config_New_src:
  assumes "viper_source_laws L src fl getenv" "config_New L = Inr v"
  shows "src v = \<lparr>sr_default = map_of (map (\<lambda>opt. (op_Key opt, op_Default opt)) (ServerOptions @ AgentOptions)),
     sr_file = fl, sr_env = (\<lambda>k. getenv (env_key ''OTTERSCALE'' (CHR ''.'') (CHR ''_'') k)), sr_flag = (\<lambda>_. None)\<rparr>"
proof -
  let ?v0 = "set_defaults L AgentOptions (set_defaults L ServerOptions (v_new L))"
  have d: "distinct (map op_Key ServerOptions)" "distinct (map op_Key AgentOptions)"
      "\<And>k. k \<in> op_Key ` set AgentOptions \<Longrightarrow> k \<notin> op_Key ` set ServerOptions"
    using options_distinct(3) by auto
  have new: "src (v_new L) = \<lparr>sr_default = (\<lambda>_. None), sr_file = (\<lambda>_. None), sr_env = (\<lambda>_. None), sr_flag = (\<lambda>_. None)\<rparr>"
    using assms(1) by (simp add: viper_source_laws_def)
  have "or_else (map_of (map (\<lambda>opt. (op_Key opt, op_Default opt)) AgentOptions) k)
        (map_of (map (\<lambda>opt. (op_Key opt, op_Default opt)) ServerOptions) k) =
      map_of (map (\<lambda>opt. (op_Key opt, op_Default opt)) (ServerOptions @ AgentOptions)) k" for k
  proof (cases "k \<in> op_Key ` set AgentOptions")
    case True
    then have "map_of (map (\<lambda>opt. (op_Key opt, op_Default opt)) ServerOptions) k = None"
      using d(3) by (force simp: map_of_eq_None_iff)
    then show ?thesis by (simp add: or_else_def map_add_def split: option.splits)
  next
    case False
    then have "map_of (map (\<lambda>opt. (op_Key opt, op_Default opt)) AgentOptions) k = None"
      by (force simp: map_of_eq_None_iff)
    then show ?thesis by (simp add: or_else_def map_add_def split: option.splits)
  qed
  then have eq: "(\<lambda>k. or_else (map_of (map (\<lambda>opt. (op_Key opt, op_Default opt)) AgentOptions) k)
        (or_else (map_of (map (\<lambda>opt. (op_Key opt, op_Default opt)) ServerOptions) k) None)) =
      map_of (map (\<lambda>opt. (op_Key opt, op_Default opt)) (ServerOptions @ AgentOptions))"
    by (intro ext) (simp only: first_some_None)
  have s0: "src ?v0 = \<lparr>sr_default = map_of (map (\<lambda>opt. (op_Key opt, op_Default opt)) (ServerOptions @ AgentOptions)),
     sr_file = (\<lambda>_. None), sr_env = (\<lambda>_. None), sr_flag = (\<lambda>_. None)\<rparr>"
    by (simp only: set_defaults_src [OF assms(1) d(1)] set_defaults_src [OF assms(1) d(2)] new sources.simps eq)
  obtain r v1 where r: "v_ReadInConfig L ?v0 = (r, v1)" by force
  have "src v1 = (src ?v0)\<lparr>sr_file := fl\<rparr>" using assms(1) r unfolding viper_source_laws_def by (metis snd_conv)
  moreover have "v = v_env L ''OTTERSCALE'' (CHR ''.'') (CHR ''_'') v1"
    using assms(2) r by (auto simp: config_New_def split: option.splits if_splits)
  moreover have "src (v_env L ''OTTERSCALE'' (CHR ''.'') (CHR ''_'') v1) =
      (src v1)\<lparr>sr_env := (\<lambda>k. getenv (env_key ''OTTERSCALE'' (CHR ''.'') (CHR ''_'') k))\<rparr>"
    using assms(1) unfolding viper_source_laws_def by blast
  ultimately show ?thesis using s0 by simp
qed

section \<open>Properties\<close>

text \<open>The environment variable of an option, as the prefix and the separator that \<^verbatim>\<open>New\<close> sets up make it.\<close>

definition env_name :: "Option \<Rightarrow> gostring" where
  "env_name opt = env_key ''OTTERSCALE'' (CHR ''.'') (CHR ''_'') (op_Key opt)"

lemma env_name_table:
  "map env_name (ServerOptions @ AgentOptions) =
     [''OTTERSCALE_SERVER_ADDRESS'', ''OTTERSCALE_SERVER_ALLOWED_ORIGINS'', ''OTTERSCALE_SERVER_TUNNEL_ADDRESS'', ''OTTERSCALE_SERVER_TUNNEL_CA_DIR'',
      ''OTTERSCALE_SERVER_KEYCLOAK_REALM_URL'', ''OTTERSCALE_SERVER_KEYCLOAK_CLIENT_ID'', ''OTTERSCALE_SERVER_EXTERNAL_URL'',
      ''OTTERSCALE_SERVER_EXTERNAL_TUNNEL_URL'', ''OTTERSCALE_AGENT_CLUSTER'', ''OTTERSCALE_AGENT_SERVER_URL'',
      ''OTTERSCALE_AGENT_TUNNEL_SERVER_URL'', ''OTTERSCALE_AGENT_BOOTSTRAP'']"
  by code_simp

text \<open>What the set-up leaves in \<^verbatim>\<open>viper\<close>, for each option.\<close>

lemma options_sources:
  assumes "viper_source_laws L src fl getenv" "config_New L = Inr v" "opts = ServerOptions \<or> opts = AgentOptions"
  shows "\<exists>v'. BindFlags L opts ([], v) = Some (Inr (), map (\<lambda>opt. (op_Flag opt, op_Default opt, op_Description opt)) opts, v') \<and>
    (\<forall>opt \<in> set opts. sr_flag (src v') (op_Key opt) = Some (op_Flag opt) \<and> sr_env (src v') (op_Key opt) = getenv (env_name opt) \<and>
       sr_file (src v') (op_Key opt) = fl (op_Key opt) \<and> sr_default (src v') (op_Key opt) = Some (op_Default opt))"
proof -
  note src = config_New_src [OF assms(1,2)]
  have o: "distinct (map op_Flag opts)" "list_all (\<lambda>opt. op_Default opt \<noteq> COther) opts" "distinct (map op_Key opts)"
    using assms(3) options_distinct by auto
  obtain v' where b: "BindFlags L opts ([], v) = Some (Inr (), map (\<lambda>opt. (op_Flag opt, op_Default opt, op_Description opt)) opts, v')"
      "src v' = (src v)\<lparr>sr_flag := \<lambda>k. or_else (map_of (map (\<lambda>opt. (op_Key opt, op_Flag opt)) opts) k) (sr_flag (src v) k)\<rparr>"
    using BindFlags_ok [OF assms(1) o(1,2) _ o(3), of "[]" v] by auto
  have flag: "map_of (map (\<lambda>opt. (op_Key opt, op_Flag opt)) opts) (op_Key opt) = Some (op_Flag opt)" if "opt \<in> set opts" for opt
    using that o(3) by (intro map_of_is_SomeI) (auto simp: comp_def)
  have def: "map_of (map (\<lambda>opt. (op_Key opt, op_Default opt)) (ServerOptions @ AgentOptions)) (op_Key opt) = Some (op_Default opt)"
    if "opt \<in> set opts" for opt
    using that assms(3) options_distinct(3) by (intro map_of_is_SomeI) (auto simp: comp_def)
  show ?thesis
  proof (intro exI [of _ v'] conjI b(1) ballI)
    fix opt assume opt: "opt \<in> set opts"
    show "sr_flag (src v') (op_Key opt) = Some (op_Flag opt)" by (simp only: b(2) src sources.simps flag [OF opt] or_else_def option.case)
    show "sr_env (src v') (op_Key opt) = getenv (env_name opt)" "sr_file (src v') (op_Key opt) = fl (op_Key opt)"
      "sr_default (src v') (op_Key opt) = Some (op_Default opt)"
      by (simp_all only: b(2) src sources.simps def [OF opt] env_name_def)
  qed
qed

text \<open>Claim C29. The options are wired up: in either mode, binding the flags neither panics nor fails and defines exactly the flags of that mode's options,
  with their defaults and descriptions; afterwards \<^verbatim>\<open>viper\<close> has, for the key of every option, the flag, the environment variable, the entry of the
  configuration file and the compiled default of that option and of no other: within a mode no two options share a flag, and no two of all
  options share an environment variable. The names are the key without its mode prefix and with dashes, and the key in upper case with
  underscores after \<^verbatim>\<open>OTTERSCALE_\<close>. Which of the four sources wins is left to \<^verbatim>\<open>viper\<close>.\<close>

theorem options_wired:
  assumes "viper_source_laws L src fl getenv" "config_New L = Inr v" "opts = ServerOptions \<or> opts = AgentOptions"
  shows "(\<exists>v'. BindFlags L opts ([], v) = Some (Inr (), map (\<lambda>opt. (op_Flag opt, op_Default opt, op_Description opt)) opts, v') \<and>
    (\<forall>opt \<in> set opts. sr_flag (src v') (op_Key opt) = Some (op_Flag opt) \<and> sr_env (src v') (op_Key opt) = getenv (env_name opt) \<and>
       sr_file (src v') (op_Key opt) = fl (op_Key opt) \<and> sr_default (src v') (op_Key opt) = Some (op_Default opt))) \<and>
    map op_Flag ServerOptions = [''address'', ''allowed-origins'', ''tunnel-address'', ''tunnel-ca-dir'', ''keycloak-realm-url'',
       ''keycloak-client-id'', ''external-url'', ''external-tunnel-url''] \<and>
    map op_Flag AgentOptions = [''cluster'', ''server-url'', ''tunnel-server-url'', ''bootstrap''] \<and>
    map env_name (ServerOptions @ AgentOptions) =
      [''OTTERSCALE_SERVER_ADDRESS'', ''OTTERSCALE_SERVER_ALLOWED_ORIGINS'', ''OTTERSCALE_SERVER_TUNNEL_ADDRESS'', ''OTTERSCALE_SERVER_TUNNEL_CA_DIR'',
       ''OTTERSCALE_SERVER_KEYCLOAK_REALM_URL'', ''OTTERSCALE_SERVER_KEYCLOAK_CLIENT_ID'', ''OTTERSCALE_SERVER_EXTERNAL_URL'',
       ''OTTERSCALE_SERVER_EXTERNAL_TUNNEL_URL'', ''OTTERSCALE_AGENT_CLUSTER'', ''OTTERSCALE_AGENT_SERVER_URL'',
       ''OTTERSCALE_AGENT_TUNNEL_SERVER_URL'', ''OTTERSCALE_AGENT_BOOTSTRAP'']"
  by (intro conjI options_sources [OF assms] env_name_table, (simp only: op_Flag_map toFlag_table)+)

text \<open>The value of an option, in the order in which \<^verbatim>\<open>viper\<close> consults the sources.\<close>

lemma config_precedence:
  assumes "viper_laws L src fl getenv changed" "config_New L = Inr v"
    and "opts = ServerOptions \<or> opts = AgentOptions" "opt \<in> set opts"
  shows "\<exists>fs v'. BindFlags L opts ([], v) = Some (Inr (), fs, v') \<and>
    v_Get L v' (op_Key opt) =
      or_else (changed (op_Flag opt)) (or_else (getenv (env_name opt)) (or_else (fl (op_Key opt)) (Some (op_Default opt))))"
proof -
  have laws: "viper_source_laws L src fl getenv"
    and get: "v_Get L v k = or_else (Option.bind (sr_flag (src v) k) changed)
      (or_else (sr_env (src v) k) (or_else (sr_file (src v) k) (sr_default (src v) k)))" for v k
    using assms(1) by (simp_all add: viper_laws_def)
  from options_sources [OF laws assms(2,3)] assms(4) show ?thesis by (auto simp: get)
qed

text \<open>A concrete instance: the sources themselves, with one flag and one variable set.\<close>

definition demo_changed :: "gostring \<Rightarrow> cfg_value option" where
  "demo_changed f = (if f = ''address'' then Some (CStr '':80'') else None)"

definition demo_file :: "gostring \<Rightarrow> cfg_value option" where
  "demo_file k = (if k = ''server.tunnel.ca_dir'' then Some (CStr ''/ca'') else None)"

definition demo_viper :: "sources viper_lib" where
  "demo_viper = \<lparr>v_new = \<lparr>sr_default = (\<lambda>_. None), sr_file = (\<lambda>_. None), sr_env = (\<lambda>_. None), sr_flag = (\<lambda>_. None)\<rparr>,
     v_SetDefault = (\<lambda>k d v. v\<lparr>sr_default := (sr_default v)(k \<mapsto> d)\<rparr>),
     v_ReadInConfig = (\<lambda>v. (None, v\<lparr>sr_file := demo_file\<rparr>)),
     v_env = (\<lambda>p a b v. v\<lparr>sr_env := (\<lambda>k. None)\<rparr>),
     v_BindPFlag = (\<lambda>k f v. (Inr (), v\<lparr>sr_flag := (sr_flag v)(k \<mapsto> f)\<rparr>)),
     v_Get = (\<lambda>v k. or_else (Option.bind (sr_flag v k) demo_changed) (or_else (sr_env v k) (or_else (sr_file v k) (sr_default v k)))),
     v_to_string = (\<lambda>x. case x of Some (CStr s) \<Rightarrow> s | _ \<Rightarrow> []), v_to_strings = (\<lambda>x. case x of Some (CStrs s) \<Rightarrow> s | _ \<Rightarrow> []),
     v_to_bool = (\<lambda>x. x = Some (CBool True))\<rparr>"

lemma demo_viper_laws: "viper_laws demo_viper (\<lambda>v. v) demo_file (\<lambda>_. None) demo_changed"
  by (simp add: viper_laws_def viper_source_laws_def demo_viper_def)

lemma demo_viper_reads:
  "\<exists>v fs v'. config_New demo_viper = Inr v \<and> BindFlags demo_viper ServerOptions ([], v) = Some (Inr (), fs, v') \<and>
     ServerAddress demo_viper v' = '':80'' \<and> ServerTunnelCADir demo_viper v' = ''/ca'' \<and> ServerTunnelAddress demo_viper v' = ''127.0.0.1:8300''"
proof -
  obtain v where v: "config_New demo_viper = Inr v" by (simp add: config_New_def demo_viper_def)
  let ?a = "an_option keyServerAddress (CStr '':8299'') ''Server listen address''"
  let ?b = "an_option keyServerTunnelCADir (CStr ''/var/lib/otterscale/ca'') ''Directory for persistent CA certificate and key''"
  let ?c = "an_option keyServerTunnelAddress (CStr ''127.0.0.1:8300'') ''Server tunnel address''"
  have mem: "?a \<in> set ServerOptions" "?b \<in> set ServerOptions" "?c \<in> set ServerOptions" by (simp_all add: ServerOptions_def)
  have keys: "op_Key ?a = keyServerAddress" "op_Key ?b = keyServerTunnelCADir" "op_Key ?c = keyServerTunnelAddress"
    by (simp_all add: an_option_def)
  have flags: "op_Flag ?a = ''address''" "op_Flag ?b = ''tunnel-ca-dir''" "op_Flag ?c = ''tunnel-address''"
    using toFlag_table(1) by (simp_all add: an_option_def ServerOptions_def)
  have get: "\<exists>fs v'. BindFlags demo_viper ServerOptions ([], v) = Some (Inr (), fs, v') \<and>
      v_Get demo_viper v' (op_Key opt) = or_else (demo_changed (op_Flag opt)) (or_else (demo_file (op_Key opt)) (Some (op_Default opt)))"
    if "opt \<in> set ServerOptions" for opt
    using config_precedence [OF demo_viper_laws v _ that] by (simp add: or_else_def)
  have str: "v_to_string demo_viper (Some (CStr x)) = x" for x by (simp add: demo_viper_def)
  show ?thesis
    using get [OF mem(1)] get [OF mem(2)] get [OF mem(3)] v str unfolding keys flags
    by (auto simp: ServerAddress_def ServerTunnelCADir_def ServerTunnelAddress_def GetString_def or_else_def demo_changed_def demo_file_def
        key_defs an_option_def)
qed

theorem options_wired_witness:
  "\<exists>v fs v'. config_New demo_viper = Inr v \<and> BindFlags demo_viper AgentOptions ([], v) = Some (Inr (), fs, v') \<and>
     map fst fs = [''cluster'', ''server-url'', ''tunnel-server-url'', ''bootstrap''] \<and>
     sr_flag v' ''agent.cluster'' = Some ''cluster'' \<and> sr_default v' ''agent.cluster'' = Some (CStr ''default'')"
proof -
  obtain v where v: "config_New demo_viper = Inr v" by (simp add: config_New_def demo_viper_def)
  have laws: "viper_source_laws demo_viper (\<lambda>v. v) demo_file (\<lambda>_. None)" using demo_viper_laws by (simp add: viper_laws_def)
  let ?opt = "an_option keyAgentCluster (CStr ''default'') ''Agent cluster''"
  have opt: "?opt \<in> set AgentOptions" "op_Key ?opt = ''agent.cluster''" "op_Default ?opt = CStr ''default''"
    by (simp_all add: AgentOptions_def an_option_def keyAgentCluster_def)
  from options_wired [OF laws v, of AgentOptions] obtain v' where
    w: "BindFlags demo_viper AgentOptions ([], v) = Some (Inr (), map (\<lambda>opt. (op_Flag opt, op_Default opt, op_Description opt)) AgentOptions, v')"
      "\<forall>opt \<in> set AgentOptions. sr_flag v' (op_Key opt) = Some (op_Flag opt) \<and> sr_env v' (op_Key opt) = None \<and>
         sr_file v' (op_Key opt) = demo_file (op_Key opt) \<and> sr_default v' (op_Key opt) = Some (op_Default opt)"
      "map op_Flag AgentOptions = [''cluster'', ''server-url'', ''tunnel-server-url'', ''bootstrap'']"
    by auto
  have "op_Flag ?opt = ''cluster''" using w(3) by (simp add: AgentOptions_def)
  then have "sr_flag v' ''agent.cluster'' = Some ''cluster''" "sr_default v' ''agent.cluster'' = Some (CStr ''default'')"
    using w(2) opt by (metis, metis)
  moreover have "map fst (map (\<lambda>opt. (op_Flag opt, op_Default opt, op_Description opt)) AgentOptions) = [''cluster'', ''server-url'', ''tunnel-server-url'', ''bootstrap'']"
    using w(3) by (simp add: comp_def)
  ultimately show ?thesis using v w(1)
    by (intro exI [of _ v] exI [of _ "map (\<lambda>opt. (op_Flag opt, op_Default opt, op_Description opt)) AgentOptions"] exI [of _ v'])
      (simp only: simp_thms)
qed

end
