(* ===== verification/Transport.thy ===== *)
theory Transport
  imports Go_Errors Step_Systems
begin

text \<open>
  The lifecycle coordinator \<^verbatim>\<open>internal/transport/transport.go\<close>.

  The listeners, the goroutine that stops them and the parent context are interleaved by a step
  relation, labelled with what comes from outside: the parent context is cancelled, or a listener ends on its
  own. Of a listener the steps take over what its interface asks for: once its context is done and
  its \<^verbatim>\<open>Stop\<close> was called, \<^verbatim>\<open>Start\<close> returns, and \<^verbatim>\<open>Stop\<close> returns. The error group is a library of its own: its operations are a parameter, and
  \<open>errgroup_spec\<close> states what its documentation promises of them.
\<close>

section \<open>The error group\<close>

text \<open>\<open>eg_return\<close> is what the group does when one of its functions returns, \<open>eg_cancelled\<close> says
  that it has cancelled the derived context, and \<open>eg_error\<close> is what \<^verbatim>\<open>Wait\<close> returns once every
  function has returned.\<close>

record 'g errgroup =
  eg_new :: 'g
  eg_return :: "go_error option \<Rightarrow> 'g \<Rightarrow> 'g"
  eg_cancelled :: "'g \<Rightarrow> bool"
  eg_error :: "'g \<Rightarrow> go_error option"

definition errgroup_spec :: "'g errgroup \<Rightarrow> bool" where
  "errgroup_spec eg \<longleftrightarrow>
     \<not> eg_cancelled eg (eg_new eg) \<and> eg_error eg (eg_new eg) = None \<and>
     (\<forall>g r. eg_cancelled eg (eg_return eg r g) = (eg_cancelled eg g \<or> r \<noteq> None)) \<and>
     (\<forall>g r. eg_error eg (eg_return eg r g) = (case eg_error eg g of None \<Rightarrow> r | Some e \<Rightarrow> Some e))"

section \<open>\<^verbatim>\<open>Serve\<close>\<close>

datatype lis_status = Spawned | Running | Returned "go_error option"

datatype stopper = AwaitDone | Stopping nat "go_error list" | InStop nat "go_error list" | Stopped

text \<open>\<open>sv_stops\<close> and \<open>sv_returns\<close> record the calls of \<^verbatim>\<open>Stop\<close> and what the functions of the group
  returned, in order.\<close>

record 'g serve =
  sv_parent_done :: bool
  sv_group :: 'g
  sv_lis :: "lis_status list"
  sv_stopper :: stopper
  sv_stops :: "nat list"
  sv_returns :: "go_error option list"

definition serve_init :: "'g errgroup \<Rightarrow> nat \<Rightarrow> 'g serve" where
  "serve_init eg n = \<lparr>sv_parent_done = False, sv_group = eg_new eg, sv_lis = replicate n Spawned,
     sv_stopper = AwaitDone, sv_stops = [], sv_returns = []\<rparr>"

definition ctx_done :: "'g errgroup \<Rightarrow> 'g serve \<Rightarrow> bool" where
  "ctx_done eg s \<longleftrightarrow> sv_parent_done s \<or> eg_cancelled eg (sv_group s)"

definition errors_join :: "go_error list \<Rightarrow> go_error option" where
  "errors_join errs = (if errs = [] then None else Some (Joined errs))"

definition group_return :: "'g errgroup \<Rightarrow> go_error option \<Rightarrow> 'g serve \<Rightarrow> 'g serve" where
  "group_return eg r s = s\<lparr>sv_group := eg_return eg r (sv_group s), sv_returns := sv_returns s @ [r]\<rparr>"

datatype serve_label = ParentCancelled | ListenerEnds | Proceeds

inductive serve_step :: "'g errgroup \<Rightarrow> serve_label \<Rightarrow> 'g serve \<Rightarrow> 'g serve \<Rightarrow> bool" for eg where
  cancel: "\<not> sv_parent_done s \<Longrightarrow> serve_step eg ParentCancelled s (s\<lparr>sv_parent_done := True\<rparr>)"
| start: "i < length (sv_lis s) \<Longrightarrow> sv_lis s ! i = Spawned \<Longrightarrow>
    serve_step eg Proceeds s (s\<lparr>sv_lis := (sv_lis s)[i := Running]\<rparr>)"
| ends: "i < length (sv_lis s) \<Longrightarrow> sv_lis s ! i = Running \<Longrightarrow>
    serve_step eg ListenerEnds s (group_return eg r (s\<lparr>sv_lis := (sv_lis s)[i := Returned r]\<rparr>))"
| returns: "i < length (sv_lis s) \<Longrightarrow> sv_lis s ! i = Running \<Longrightarrow> ctx_done eg s \<Longrightarrow> i \<in> set (sv_stops s) \<Longrightarrow>
    serve_step eg Proceeds s (group_return eg r (s\<lparr>sv_lis := (sv_lis s)[i := Returned r]\<rparr>))"
| begin_stop: "sv_stopper s = AwaitDone \<Longrightarrow> ctx_done eg s \<Longrightarrow>
    serve_step eg Proceeds s (s\<lparr>sv_stopper := Stopping 0 []\<rparr>)"
| stop_call: "sv_stopper s = Stopping k errs \<Longrightarrow> k < length (sv_lis s) \<Longrightarrow>
    serve_step eg Proceeds s (s\<lparr>sv_stopper := InStop k errs, sv_stops := sv_stops s @ [k]\<rparr>)"
| stop_return: "sv_stopper s = InStop k errs \<Longrightarrow> k < length (sv_lis s) \<Longrightarrow>
    serve_step eg Proceeds s (s\<lparr>sv_stopper := Stopping (Suc k) (case r of None \<Rightarrow> errs | Some e \<Rightarrow> errs @ [e])\<rparr>)"
| end_stop: "sv_stopper s = Stopping k errs \<Longrightarrow> k = length (sv_lis s) \<Longrightarrow>
    serve_step eg Proceeds s (group_return eg (errors_join errs) (s\<lparr>sv_stopper := Stopped\<rparr>))"

abbreviation serve_reached :: "'g errgroup \<Rightarrow> nat \<Rightarrow> serve_label list \<Rightarrow> 'g serve \<Rightarrow> bool" where
  "serve_reached eg n \<equiv> run (serve_step eg) (serve_init eg n)"

text \<open>\<^verbatim>\<open>eg.Wait\<close>: the result, once every function of the group has returned.\<close>

definition Serve_result :: "'g errgroup \<Rightarrow> 'g serve \<Rightarrow> go_error option option" where
  "Serve_result eg s =
     (if sv_stopper s = Stopped \<and> list_all (\<lambda>l. \<exists>r. l = Returned r) (sv_lis s) then Some (eg_error eg (sv_group s)) else None)"

section \<open>Lemmas\<close>

text \<open>The first error among results.\<close>

fun first_error :: "go_error option list \<Rightarrow> go_error option" where
  "first_error [] = None"
| "first_error (None # rs) = first_error rs"
| "first_error (Some e # rs) = Some e"

lemma first_error_append: "first_error (rs @ [r]) = (case first_error rs of None \<Rightarrow> r | Some e \<Rightarrow> Some e)"
  by (induction rs rule: first_error.induct) (cases r; auto split: option.splits)+

definition stops_called :: "nat \<Rightarrow> stopper \<Rightarrow> nat" where
  "stops_called n st = (case st of AwaitDone \<Rightarrow> 0 | Stopping k _ \<Rightarrow> k | InStop k _ \<Rightarrow> Suc k | Stopped \<Rightarrow> n)"

text \<open>What makes \<^verbatim>\<open>Serve\<close> shut down: the parent context, or a listener that returned an error.\<close>

definition triggered :: "'g serve \<Rightarrow> bool" where
  "triggered s \<longleftrightarrow> sv_parent_done s \<or> (\<exists>e. Returned (Some e) \<in> set (sv_lis s))"

definition serve_inv :: "'g errgroup \<Rightarrow> nat \<Rightarrow> 'g serve \<Rightarrow> bool" where
  "serve_inv eg n s \<longleftrightarrow>
     length (sv_lis s) = n \<and> stops_called n (sv_stopper s) \<le> n \<and>
     sv_stops s = [0..<stops_called n (sv_stopper s)] \<and>
     (sv_stopper s = AwaitDone \<or> triggered s) \<and>
     (ctx_done eg s \<longleftrightarrow> sv_parent_done s \<or> (\<exists>e. Some e \<in> set (sv_returns s))) \<and>
     eg_error eg (sv_group s) = first_error (sv_returns s) \<and>
     (\<forall>r. Returned r \<in> set (sv_lis s) \<longrightarrow> r \<in> set (sv_returns s)) \<and>
     (sv_stopper s \<noteq> Stopped \<longrightarrow> (\<forall>r \<in> set (sv_returns s). Returned r \<in> set (sv_lis s)))"

lemma group_return_facts:
  assumes "errgroup_spec eg"
  shows "sv_lis (group_return eg r s) = sv_lis s" "sv_stopper (group_return eg r s) = sv_stopper s"
    "sv_stops (group_return eg r s) = sv_stops s" "ctx_done eg (group_return eg r s) = (ctx_done eg s \<or> r \<noteq> None)"
    "sv_returns (group_return eg r s) = sv_returns s @ [r]" "sv_parent_done (group_return eg r s) = sv_parent_done s"
    "eg_error eg (sv_group (group_return eg r s)) = (case eg_error eg (sv_group s) of None \<Rightarrow> r | Some e \<Rightarrow> Some e)"
  using assms by (auto simp: group_return_def ctx_done_def errgroup_spec_def)

text \<open>What a listener returned stays.\<close>

lemma update_Running:
  assumes "i < length ls" "\<forall>r. ls ! i \<noteq> Returned r"
  shows "Returned r \<in> set (ls[i := l]) \<longleftrightarrow> Returned r \<in> set ls \<or> l = Returned r"
proof -
  have "Returned r \<in> set (ls[i := l])" if "Returned r \<in> set ls"
  proof -
    obtain j where "j < length ls" "ls ! j = Returned r" using \<open>Returned r \<in> set ls\<close> by (auto simp: in_set_conv_nth)
    then have "ls[i := l] ! j = Returned r" using assms(2) by (cases "i = j") simp_all
    with \<open>j < length ls\<close> show ?thesis by (metis length_list_update nth_mem)
  qed
  then show ?thesis using assms(1) set_update_subset_insert [of ls i l] set_update_memI [of i ls l] by auto
qed

lemma listener_returns_inv:
  assumes "errgroup_spec eg" "serve_inv eg n s" "i < length (sv_lis s)" "sv_lis s ! i = Running"
  shows "serve_inv eg n (group_return eg r (s\<lparr>sv_lis := (sv_lis s)[i := Returned r]\<rparr>))"
proof -
  have "ctx_done eg (s\<lparr>sv_lis := (sv_lis s)[i := Returned r]\<rparr>) = ctx_done eg s" by (simp add: ctx_done_def)
  then show ?thesis
    using assms(2) update_Running [OF assms(3), of _ "Returned r"] assms(4)
    by (auto simp: serve_inv_def triggered_def group_return_facts [OF assms(1)] first_error_append)
qed

lemma serve_step_inv:
  assumes "errgroup_spec eg" "serve_step eg l s s'" "serve_inv eg n s"
  shows "serve_inv eg n s'"
  using assms(2)
proof (cases rule: serve_step.cases)
  case (ends i r)
  then show ?thesis using listener_returns_inv [OF assms(1,3)] by simp
next
  case (returns i r)
  then show ?thesis using listener_returns_inv [OF assms(1,3)] by simp
next
  case (start i)
  then show ?thesis using assms(3) update_Running [OF start(3), of _ Running] by (simp add: serve_inv_def ctx_done_def triggered_def)
next
  case begin_stop
  then show ?thesis using assms(3) by (auto simp: serve_inv_def ctx_done_def triggered_def stops_called_def)
next
  case (end_stop k errs)
  have "ctx_done eg (s\<lparr>sv_stopper := Stopped\<rparr>) = ctx_done eg s" by (simp add: ctx_done_def)
  then show ?thesis
    using assms(3) end_stop(3,4) unfolding end_stop(2)
    by (auto simp: serve_inv_def group_return_facts [OF assms(1)] first_error_append stops_called_def triggered_def)
qed (use assms(3) in \<open>auto simp: serve_inv_def ctx_done_def triggered_def stops_called_def\<close>)

interpretation serving: closed_set "serve_step eg" "\<lambda>_. True" "\<lambda>s. errgroup_spec eg \<and> serve_inv eg n s" for eg n
  by unfold_locales (auto intro: serve_step_inv)

lemma serve_init_inv: "errgroup_spec eg \<Longrightarrow> serve_inv eg n (serve_init eg n)"
  by (auto simp: serve_inv_def serve_init_def stops_called_def errgroup_spec_def ctx_done_def)

lemma serve_reachable_inv: "errgroup_spec eg \<Longrightarrow> serve_reached eg n ls s \<Longrightarrow> serve_inv eg n s"
  using serving.run_stays [of eg "serve_init eg n" ls s n] serve_init_inv by (auto simp: list_all_iff)

lemma triggered_step: "triggered s \<Longrightarrow> serve_step eg l s s' \<Longrightarrow> triggered s'"
  by (erule serve_step.cases) (auto simp: triggered_def group_return_def update_Running)

interpretation shutdown: closed_set "serve_step eg" "\<lambda>_. True" triggered for eg
  by unfold_locales (rule triggered_step)

text \<open>The steps that are left to \<^verbatim>\<open>Serve\<close>.\<close>

fun status_left :: "lis_status \<Rightarrow> nat" where
  "status_left Spawned = 2"
| "status_left Running = 1"
| "status_left (Returned _) = 0"

fun stopper_left :: "nat \<Rightarrow> stopper \<Rightarrow> nat" where
  "stopper_left n AwaitDone = 2 * n + 2"
| "stopper_left n (Stopping k _) = 2 * (n - k) + 1"
| "stopper_left n (InStop k _) = 2 * (n - k)"
| "stopper_left n Stopped = 0"

definition serve_left :: "'g serve \<Rightarrow> nat" where
  "serve_left s = sum_list (map status_left (sv_lis s)) + stopper_left (length (sv_lis s)) (sv_stopper s)"

lemma status_left_update:
  assumes "i < length ls" "status_left (ls ! i) = Suc (status_left l)"
  shows "Suc (sum_list (map status_left (ls[i := l]))) = sum_list (map status_left ls)"
proof -
  have "status_left (ls ! i) \<le> sum_list (map status_left ls)"
    using assms(1) by (intro member_le_sum_list) simp_all
  then show ?thesis using assms by (simp add: map_update sum_list_update)
qed

interpretation serving: counted_steps "serve_step eg" "\<lambda>l. l = Proceeds" serve_left for eg
proof unfold_locales
  fix eg :: "'g errgroup" and l s s'
  assume "serve_step eg l s s'" "l = Proceeds"
  then show "serve_left s' < serve_left s"
  proof (cases rule: serve_step.cases)
    case (start i)
    then show ?thesis using status_left_update [of i "sv_lis s" Running] by (simp add: serve_left_def)
  next
    case (returns i r)
    then show ?thesis using status_left_update [of i "sv_lis s" "Returned r"] by (simp add: serve_left_def group_return_def)
  qed (auto simp: serve_left_def group_return_def)
qed

lemma serve_left_bound: "serve_left s \<le> 4 * length (sv_lis s) + 2"
proof -
  have status: "status_left l \<le> 2" for l by (cases l) simp_all
  have "sum_list (map status_left ls) \<le> 2 * length ls" for ls
  proof (induction ls)
    case (Cons l ls)
    then show ?case using status [of l] by simp
  qed simp
  from this [of "sv_lis s"] have "sum_list (map status_left (sv_lis s)) \<le> 2 * length (sv_lis s)" .
  moreover have "stopper_left (length (sv_lis s)) (sv_stopper s) \<le> 2 * length (sv_lis s) + 2" by (cases "sv_stopper s") simp_all
  ultimately show ?thesis by (simp add: serve_left_def)
qed

lemma serve_stuck_result:
  assumes "serve_inv eg n s" "triggered s" and stuck: "\<forall>s'. \<not> serve_step eg Proceeds s s'"
  shows "Serve_result eg s \<noteq> None"
proof -
  have over: "ctx_done eg s" using assms(1,2) by (auto simp: serve_inv_def triggered_def)
  have "k < length (sv_lis s) \<or> k = length (sv_lis s)" if "sv_stopper s = Stopping k errs" for k errs
    using assms(1) that by (auto simp: serve_inv_def stops_called_def)
  moreover have "k < length (sv_lis s)" if "sv_stopper s = InStop k errs" for k errs
    using assms(1) that by (auto simp: serve_inv_def stops_called_def)
  ultimately have stopped: "sv_stopper s = Stopped"
    using stuck by (cases "sv_stopper s") (blast intro: begin_stop over stop_call stop_return end_stop)+
  have "\<exists>r. sv_lis s ! i = Returned r" if i: "i < length (sv_lis s)" for i
  proof (cases "sv_lis s ! i")
    case Running
    have "i \<in> set (sv_stops s)" using i assms(1) stopped by (auto simp: serve_inv_def stops_called_def)
    then show ?thesis using returns [OF i Running over] stuck by blast
  qed (use start [OF i] stuck in blast)+
  then show ?thesis using stopped by (simp add: Serve_result_def list_all_length)
qed

section \<open>Properties\<close>

text \<open>Claim C22. When \<^verbatim>\<open>Serve\<close> returns, whatever the interleaving, its context was done, every listener's
  \<^verbatim>\<open>Stop\<close> was called exactly once, in the order of the arguments, every listener has returned, and
  the result is the first error that a listener, or the joined errors of the stops, gave the
  group.\<close>

theorem serve_stops_every_listener:
  assumes "errgroup_spec eg" "serve_reached eg n ls s" "Serve_result eg s = Some r"
  shows "ctx_done eg s \<and> sv_stops s = [0..<n] \<and> length (sv_lis s) = n \<and>
    list_all (\<lambda>l. list_ex (\<lambda>r. l = Returned r) (sv_returns s)) (sv_lis s) \<and> r = first_error (sv_returns s)"
proof -
  have inv: "serve_inv eg n s" using serve_reachable_inv assms(1,2) by blast
  have fin: "sv_stopper s = Stopped" "list_all (\<lambda>l. \<exists>r. l = Returned r) (sv_lis s)" "r = eg_error eg (sv_group s)"
    using assms(3) by (auto simp: Serve_result_def split: if_splits)
  have "ctx_done eg s" using inv fin(1) by (auto simp: serve_inv_def triggered_def)
  with inv fin show ?thesis by (fastforce simp: serve_inv_def stops_called_def list_all_iff list_ex_iff)
qed

definition plain_errgroup :: "(bool \<times> go_error option) errgroup" where
  "plain_errgroup = \<lparr>eg_new = (False, None),
     eg_return = (\<lambda>r (c, e). (c \<or> r \<noteq> None, case e of None \<Rightarrow> r | Some e \<Rightarrow> Some e)),
     eg_cancelled = fst, eg_error = snd\<rparr>"

lemma plain_errgroup_spec: "errgroup_spec plain_errgroup"
  by (auto simp: errgroup_spec_def plain_errgroup_def)

definition ex_failed :: "(bool \<times> go_error option) serve" where
  "ex_failed = \<lparr>sv_parent_done = False, sv_group = (True, Some (Plain ''bind'')), sv_lis = [Returned (Some (Plain ''bind''))],
     sv_stopper = Stopped, sv_stops = [0], sv_returns = [Some (Plain ''bind''), None]\<rparr>"

lemma ex_failed_reached:
  "serve_reached plain_errgroup 1 [Proceeds, ListenerEnds, Proceeds, Proceeds, Proceeds, Proceeds] ex_failed"
proof -
  let ?s0 = "serve_init plain_errgroup 1"
  let ?s1 = "?s0\<lparr>sv_lis := (sv_lis ?s0)[0 := Running]\<rparr>"
  let ?s2 = "group_return plain_errgroup (Some (Plain ''bind'')) (?s1\<lparr>sv_lis := (sv_lis ?s1)[0 := Returned (Some (Plain ''bind''))]\<rparr>)"
  let ?s3 = "?s2\<lparr>sv_stopper := Stopping 0 []\<rparr>"
  let ?s4 = "?s3\<lparr>sv_stopper := InStop 0 [], sv_stops := sv_stops ?s3 @ [0]\<rparr>"
  let ?s5 = "?s4\<lparr>sv_stopper := Stopping (Suc 0) (case None of None \<Rightarrow> [] | Some e \<Rightarrow> [] @ [e])\<rparr>"
  let ?s6 = "group_return plain_errgroup (errors_join []) (?s5\<lparr>sv_stopper := Stopped\<rparr>)"
  note D = serve_init_def plain_errgroup_def group_return_def ctx_done_def
  have "serve_step plain_errgroup Proceeds ?s0 ?s1" by (rule start) (simp_all add: D)
  moreover have "serve_step plain_errgroup ListenerEnds ?s1 ?s2" by (rule ends) (simp_all add: D)
  moreover have "serve_step plain_errgroup Proceeds ?s2 ?s3" by (rule begin_stop) (simp_all add: D)
  moreover have "serve_step plain_errgroup Proceeds ?s3 ?s4" by (rule stop_call) (simp_all add: D)
  moreover have "serve_step plain_errgroup Proceeds ?s4 ?s5" by (rule stop_return) (simp_all add: D)
  moreover have "serve_step plain_errgroup Proceeds ?s5 ?s6" by (rule end_stop) (simp_all add: D)
  ultimately have "serve_reached plain_errgroup 1 [Proceeds, ListenerEnds, Proceeds, Proceeds, Proceeds, Proceeds] ?s6"
    by (rule run.cons [OF _ run.cons [OF _ run.cons [OF _ run.cons [OF _ run.cons [OF _ run_one]]]]])
  also have "?s6 = ex_failed" by (simp add: D ex_failed_def errors_join_def)
  finally show ?thesis .
qed

theorem serve_stops_every_listener_witness:
  "\<exists>ls s. serve_reached plain_errgroup 1 ls s \<and> Serve_result plain_errgroup s = Some (Some (Plain ''bind'')) \<and> ctx_done plain_errgroup s \<and>
   sv_stops s = [0] \<and> first_error (sv_returns s) = Some (Plain ''bind'')"
proof -
  have res: "Serve_result plain_errgroup ex_failed = Some (Some (Plain ''bind''))"
    by (simp add: Serve_result_def ex_failed_def plain_errgroup_def)
  show ?thesis
    using serve_stops_every_listener [OF plain_errgroup_spec ex_failed_reached res] res ex_failed_reached by auto
qed

text \<open>Claim C23. \<^verbatim>\<open>Serve\<close> shuts down when it must and only then. As soon as the parent context is done or a listener has returned an
  error, the steps of \<^verbatim>\<open>Serve\<close> itself, of at most \<open>4n + 2\<close> for \<open>n\<close> listeners, lead to its return, and wherever they come to a stop, whatever
  the listeners and the parent do meanwhile, \<^verbatim>\<open>Serve\<close> has returned; no step of it waits for a listener to end on its
  own. Before that no \<^verbatim>\<open>Stop\<close> is called and \<^verbatim>\<open>Serve\<close> does not return.\<close>

theorem serve_terminates:
  assumes "errgroup_spec eg" "serve_reached eg n ls s"
  shows "(\<forall>ls' s'. run (serve_step eg) s ls' s' \<and> list_all (\<lambda>l. l = Proceeds) ls' \<longrightarrow> length ls' \<le> 4 * n + 2) \<and>
    (sv_parent_done s \<or> (\<exists>e. Returned (Some e) \<in> set (sv_lis s)) \<longrightarrow>
       (\<exists>ls' s'. run (serve_step eg) s ls' s' \<and> list_all (\<lambda>l. l = Proceeds) ls' \<and> Serve_result eg s' \<noteq> None) \<and>
       (\<forall>ls' s'. run (serve_step eg) s ls' s' \<and> (\<forall>s''. \<not> serve_step eg Proceeds s' s'') \<longrightarrow> Serve_result eg s' \<noteq> None)) \<and>
    (\<not> sv_parent_done s \<and> (\<forall>e. Returned (Some e) \<notin> set (sv_lis s)) \<longrightarrow> sv_stops s = [] \<and> Serve_result eg s = None)"
proof (intro conjI allI impI)
  note inv = serve_reachable_inv [OF assms]
  fix ls' s' assume "run (serve_step eg) s ls' s' \<and> list_all (\<lambda>l. l = Proceeds) ls'"
  then have "length ls' \<le> serve_left s" using serving.run_bounded by fastforce
  then show "length ls' \<le> 4 * n + 2" using serve_left_bound [of s] inv by (simp add: serve_inv_def)
next
  assume trig: "sv_parent_done s \<or> (\<exists>e. Returned (Some e) \<in> set (sv_lis s))"
  have result: "Serve_result eg s' \<noteq> None" if "run (serve_step eg) s ls' s'" "\<forall>s''. \<not> serve_step eg Proceeds s' s''" for ls' s'
    using serve_stuck_result [OF serve_reachable_inv [OF assms(1) run_append [OF assms(2) that(1)]]] that
      shutdown.run_stays [OF that(1)] trig by (simp add: triggered_def list_all_iff)
  obtain ls' s' where "run (serve_step eg) s ls' s'" "list_all (\<lambda>l. l = Proceeds) ls'" "\<forall>s''. \<not> serve_step eg Proceeds s' s''"
    using serving.comes_to_rest [of eg s] unfolding serving.at_rest_def by auto
  with result show "\<exists>ls' s'. run (serve_step eg) s ls' s' \<and> list_all (\<lambda>l. l = Proceeds) ls' \<and> Serve_result eg s' \<noteq> None" by blast
  fix ls' s' assume "run (serve_step eg) s ls' s' \<and> (\<forall>s''. \<not> serve_step eg Proceeds s' s'')"
  with result show "Serve_result eg s' \<noteq> None" by blast
next
  assume "\<not> sv_parent_done s \<and> (\<forall>e. Returned (Some e) \<notin> set (sv_lis s))"
  then have "sv_stopper s = AwaitDone" using serve_reachable_inv [OF assms] by (auto simp: serve_inv_def triggered_def)
  then show "sv_stops s = []" "Serve_result eg s = None"
    using serve_reachable_inv [OF assms] by (simp_all add: serve_inv_def stops_called_def Serve_result_def)
qed

text \<open>One of two listeners fails; \<^verbatim>\<open>Serve\<close> returns although the other one and the parent context do nothing.\<close>

theorem serve_terminates_witness:
  "\<exists>s ls' s'. serve_reached plain_errgroup 2 [Proceeds, Proceeds, ListenerEnds] s \<and> \<not> sv_parent_done s \<and>
     sv_lis s = [Returned (Some (Plain ''bind'')), Running] \<and> sv_stops s = [] \<and>
     run (serve_step plain_errgroup) s ls' s' \<and> list_all (\<lambda>l. l = Proceeds) ls' \<and> Serve_result plain_errgroup s' \<noteq> None"
proof -
  let ?s0 = "serve_init plain_errgroup 2"
  let ?s1 = "?s0\<lparr>sv_lis := (sv_lis ?s0)[0 := Running]\<rparr>"
  let ?s2 = "?s1\<lparr>sv_lis := (sv_lis ?s1)[1 := Running]\<rparr>"
  let ?s3 = "group_return plain_errgroup (Some (Plain ''bind'')) (?s2\<lparr>sv_lis := (sv_lis ?s2)[0 := Returned (Some (Plain ''bind''))]\<rparr>)"
  note D = serve_init_def group_return_def numeral_2_eq_2
  have "serve_step plain_errgroup Proceeds ?s0 ?s1" by (rule start) (simp_all add: D)
  moreover have "serve_step plain_errgroup Proceeds ?s1 ?s2" by (rule start) (simp_all add: D)
  moreover have "serve_step plain_errgroup ListenerEnds ?s2 ?s3" by (rule ends) (simp_all add: D)
  ultimately have run: "serve_reached plain_errgroup 2 [Proceeds, Proceeds, ListenerEnds] ?s3"
    by (rule run.cons [OF _ run.cons [OF _ run_one]])
  have s3: "\<not> sv_parent_done ?s3" "sv_lis ?s3 = [Returned (Some (Plain ''bind'')), Running]" "sv_stops ?s3 = []" by (simp_all add: D)
  from s3(2) have "\<exists>e. Returned (Some e) \<in> set (sv_lis ?s3)" by (metis list.set_intros(1))
  then obtain ls' s' where "run (serve_step plain_errgroup) ?s3 ls' s'" "list_all (\<lambda>l. l = Proceeds) ls'" "Serve_result plain_errgroup s' \<noteq> None"
    using serve_terminates [OF plain_errgroup_spec run] by blast
  with run s3 show ?thesis by blast
qed

text \<open>The goroutines are only spawned before the stopping one: a listener can be stopped before its
  \<^verbatim>\<open>Start\<close> has run.\<close>

lemma stop_before_start:
  "\<exists>ls s. serve_reached eg 1 ls s \<and> sv_stops s = [0] \<and> sv_lis s = [Spawned]"
proof -
  let ?s0 = "serve_init eg 1"
  let ?s1 = "?s0\<lparr>sv_parent_done := True\<rparr>"
  let ?s2 = "?s1\<lparr>sv_stopper := Stopping 0 []\<rparr>"
  let ?s3 = "?s2\<lparr>sv_stopper := InStop 0 [], sv_stops := sv_stops ?s2 @ [0]\<rparr>"
  have "serve_step eg ParentCancelled ?s0 ?s1" by (rule cancel) (simp add: serve_init_def)
  moreover have "serve_step eg Proceeds ?s1 ?s2" by (rule begin_stop) (simp_all add: serve_init_def ctx_done_def)
  moreover have "serve_step eg Proceeds ?s2 ?s3" by (rule stop_call) (simp_all add: serve_init_def)
  ultimately have "serve_reached eg 1 [ParentCancelled, Proceeds, Proceeds] ?s3" by (rule run.cons [OF _ run.cons [OF _ run_one]])
  then show ?thesis by (intro exI [of _ "[ParentCancelled, Proceeds, Proceeds]"] exI [of _ ?s3]) (simp add: serve_init_def)
qed

end
