(* ===== verification/Programs.thy ===== *)
theory Programs
  imports Http_Auth Tunnel_Listener Agent Bootstrap Config Transport
begin

text \<open>
  The two programs: \<^verbatim>\<open>Server.Run\<close> (\<^verbatim>\<open>internal/cmd/server/server.go\<close>) with its background listeners
  (\<^verbatim>\<open>background.go\<close>), \<^verbatim>\<open>Agent.Run\<close> (\<^verbatim>\<open>internal/cmd/agent/agent.go\<close>) with its proxy (\<^verbatim>\<open>handler.go\<close>),
  and the configuration the commands \<^verbatim>\<open>internal/cmd/server.go\<close> and \<^verbatim>\<open>internal/cmd/agent.go\<close> give them.

  Both build their listeners and hand them to \<^verbatim>\<open>transport.Serve\<close>; a run that gets this far is
  modelled by the list of listeners, in the order in which they are passed on.
\<close>

section \<open>Listeners\<close>

definition sessionReapInterval :: int64 where
  "sessionReapInterval = seconds 30"

definition cacheEvictionInterval :: int64 where
  "cacheEvictionInterval = seconds 300"

datatype background_listener = SessionReaper int64 | CacheEvictor int64

definition ProvideBackgroundListeners :: "background_listener list" where
  "ProvideBackgroundListeners = [SessionReaper sessionReapInterval, CacheEvictor cacheEvictionInterval]"

datatype ('w, 'r) program_listener =
    HttpServer "('w, 'r) handler"
  | TunnelServer listener
  | HealthChecker
  | Background background_listener
  | BridgeListener int
  | TunnelClient Client

section \<open>The server\<close>

record server_Config =
  sc_Address :: gostring
  sc_AllowedOrigins :: "gostring list"
  sc_TunnelAddress :: gostring
  sc_KeycloakRealmURL :: gostring
  sc_KeycloakClientID :: gostring

definition server_command_config :: "'v viper_lib \<Rightarrow> 'v \<Rightarrow> server_Config" where
  "server_command_config V conf =
     \<lparr>sc_Address = ServerAddress V conf, sc_AllowedOrigins = ServerAllowedOrigins V conf,
      sc_TunnelAddress = ServerTunnelAddress V conf, sc_KeycloakRealmURL = ServerKeycloakRealmURL V conf,
      sc_KeycloakClientID = ServerKeycloakClientID V conf\<rparr>"

text \<open>The packages the HTTP server uses: authentication, CORS, the listener, an empty mux and the OIDC provider.\<close>

record ('w, 'r) web_lib =
  wl_authn :: "('w, 'r) authn_lib"
  wl_cors :: "gostring list option \<Rightarrow> ('w, 'r) handler \<Rightarrow> ('w, 'r) handler"
  wl_listen :: "gostring \<Rightarrow> go_error option"
  wl_empty_mux :: "('w, 'r) handler"
  wl_provider :: "gostring \<Rightarrow> (gostring \<Rightarrow> gostring \<Rightarrow> id_token res) res"

definition server_Run ::
  "('w, 'r) web_lib \<Rightarrow> ('rnd, 'k, 'p, 'c, 'q) pki_lib \<Rightarrow> 'v chserver_lib \<Rightarrow> int \<Rightarrow> gostring \<times> gostring \<Rightarrow> file_env \<Rightarrow>
     ('w, 'r) handler res \<Rightarrow> server_Config \<Rightarrow> ('v, 'k, 'c) Service \<Rightarrow> 'rnd \<Rightarrow> disk \<Rightarrow>
     ('w, 'r) program_listener list res \<times> ('v, 'k, 'c) Service \<times> 'rnd \<times> disk" where
  "server_Run W L H now uuids fe mount cfg svc r d =
     (if sc_KeycloakRealmURL cfg = [] then (Inl (Plain ''keycloak realm URL is required but not configured''), svc, r, d)
      else
        (case SplitHostPort (sc_TunnelAddress cfg) of
           Inl e \<Rightarrow> (Inl (Wrap (''parse tunnel address '' @ go_quote (sc_TunnelAddress cfg)) e), svc, r, d)
         | Inr (tunnelHost, _) \<Rightarrow>
             (case NewOIDC (wl_provider W) (sc_KeycloakRealmURL cfg) (sc_KeycloakClientID cfg) of
                Inl e \<Rightarrow> (Inl (Wrap ''failed to create OIDC middleware'' e), svc, r, d)
              | Inr oidc \<Rightarrow>
                  (case NewServer (wl_authn W) (wl_cors W) (wl_listen W) (wl_empty_mux W)
                          (server_options (sc_Address cfg) (sc_AllowedOrigins cfg) oidc mount) of
                     Inl e \<Rightarrow> (Inl (Wrap ''failed to create HTTP server'' e), svc, r, d)
                   | Inr httpSrv \<Rightarrow>
                       (case BuildTunnelListener L H now uuids fe (sc_TunnelAddress cfg) tunnelHost svc r d of
                          (Inl e, st) \<Rightarrow> (Inl (Wrap ''failed to create tunnel server'' e), st)
                        | (Inr tunnelSrv, st) \<Rightarrow>
                            (Inr ([HttpServer httpSrv, TunnelServer tunnelSrv, HealthChecker] @
                                  map Background ProvideBackgroundListeners), st))))))"

section \<open>The agent\<close>

record agent_Config =
  ac_Cluster :: gostring
  ac_ServerURL :: gostring
  ac_TunnelServerURL :: gostring
  ac_Bootstrap :: bool

definition agent_command_config :: "'v viper_lib \<Rightarrow> 'v \<Rightarrow> agent_Config" where
  "agent_command_config V conf =
     \<lparr>ac_Cluster = AgentCluster V conf, ac_ServerURL = AgentServerURL V conf,
      ac_TunnelServerURL = AgentTunnelServerURL V conf, ac_Bootstrap = AgentBootstrap V conf\<rparr>"

text \<open>The reverse proxy: parsing of the API server's URL, the transport, and the proxy for both.\<close>

record ('u, 't, 'w, 'r) proxy_lib =
  px_parse :: "gostring \<Rightarrow> 'u res"
  px_transport :: "'t res"
  px_proxy :: "'u \<Rightarrow> 't \<Rightarrow> (go_error \<Rightarrow> nat \<times> gostring) \<Rightarrow> ('w, 'r) handler"

definition errorResponder_Error :: "go_error \<Rightarrow> nat \<times> gostring" where
  "errorResponder_Error e = (502, ''bad gateway'')"

definition agent_Mount :: "('u, 't, 'w, 'r) proxy_lib \<Rightarrow> gostring \<Rightarrow> ('w, 'r) handler res" where
  "agent_Mount P host =
     (case px_parse P host of
        Inl e \<Rightarrow> Inl (Wrap ''failed to parse k8s host URL'' e)
      | Inr target \<Rightarrow>
          (case px_transport P of
             Inl e \<Rightarrow> Inl (Wrap ''failed to create rest transport'' e)
           | Inr transport \<Rightarrow> Inr (px_proxy P target transport errorResponder_Error)))"

definition agent_client_options :: "agent_Config \<Rightarrow> int \<Rightarrow> ClientOption list" where
  "agent_client_options cfg port =
     [Tunnel_Client.WithServerURL (ac_ServerURL cfg), WithTunnelServerURL (ac_TunnelServerURL cfg), WithCluster (ac_Cluster cfg),
      WithLocalPort port, WithKeepAlive (seconds 30), WithMaxRetryCount 6, WithMaxRetryInterval (seconds 10), WithRegister True]"

text \<open>\<open>bridge\<close> is the port \<^verbatim>\<open>NewBridge\<close> bound, or its error.\<close>

definition agent_Run ::
  "('w, 'r) web_lib \<Rightarrow> ('u, 't, 'w, 'r) proxy_lib \<Rightarrow> ('x, 'm) boot_lib \<Rightarrow> int res \<Rightarrow> gostring \<Rightarrow> agent_Config \<Rightarrow> 'x bworld \<Rightarrow>
     ('w, 'r) program_listener list res \<times> 'x bworld" where
  "agent_Run W P B bridge host cfg w =
     (case (if ac_Bootstrap cfg then boot_Run B w else (Inr (), w)) of
        (Inl e, w1) \<Rightarrow> (Inl (Wrap ''bootstrap'' e), w1)
      | (Inr _, w1) \<Rightarrow>
          (case bridge of
             Inl e \<Rightarrow> (Inl (Wrap ''failed to create tunnel bridge'' (Wrap ''bridge listen'' e)), w1)
           | Inr port \<Rightarrow>
               (case NewServer (wl_authn W) (wl_cors W) (wl_listen W) (wl_empty_mux W) [WithListener, WithMount (agent_Mount P host)] of
                  Inl e \<Rightarrow> (Inl (Wrap ''failed to create HTTP server'' e), w1)
                | Inr httpSrv \<Rightarrow>
                    (case NewClient (agent_client_options cfg port) of
                       Inl e \<Rightarrow> (Inl (Wrap ''failed to create tunnel client'' e), w1)
                     | Inr tunnelClt \<Rightarrow> (Inr [HttpServer httpSrv, BridgeListener port, TunnelClient tunnelClt], w1)))))"

section \<open>Lemmas\<close>

text \<open>The stages a run that reaches \<^verbatim>\<open>Serve\<close> has been through.\<close>

lemma server_Run_started:
  assumes "server_Run W L H now uuids fe mount cfg svc r d = (Inr ls, svc', r', d')"
  obtains host port verifier h l where "sc_KeycloakRealmURL cfg \<noteq> []" "SplitHostPort (sc_TunnelAddress cfg) = Inr (host, port)"
    "wl_provider W (sc_KeycloakRealmURL cfg) = Inr verifier"
    "NewServer (wl_authn W) (wl_cors W) (wl_listen W) (wl_empty_mux W)
       (server_options (sc_Address cfg) (sc_AllowedOrigins cfg) (oidc_authenticate (verifier (sc_KeycloakClientID cfg))) mount) = Inr h"
    "BuildTunnelListener L H now uuids fe (sc_TunnelAddress cfg) host svc r d = (Inr l, svc', r', d')"
    "ls = [HttpServer h, TunnelServer l, HealthChecker] @ map Background ProvideBackgroundListeners"
  using assms unfolding server_Run_def NewOIDC_def
  by (auto split: if_splits sum.splits prod.splits)

lemma agent_Run_started:
  assumes "agent_Run W P B bridge host cfg w = (Inr ls, w')"
  obtains port h c where "bridge = Inr port" "NewClient (agent_client_options cfg port) = Inr c"
    "(if ac_Bootstrap cfg then boot_Run B w else (Inr (), w)) = (Inr (), w')"
    "ls = [HttpServer h, BridgeListener port, TunnelClient c]"
  using assms unfolding agent_Run_def
  by (auto simp del: if_split_asm split: sum.splits prod.splits)

lemma agent_client:
  assumes "NewClient (agent_client_options cfg port) = Inr c"
  shows "port \<noteq> 0 \<and> cl_localPort c = port \<and> cl_cluster c = ac_Cluster cfg \<and> cl_serverURL c = ac_ServerURL cfg \<and>
    cl_tunnelServerURL c = ac_TunnelServerURL cfg \<and> cl_baseRetryDelay c = seconds 1 \<and> cl_maxRetryDelay c = seconds 30 \<and>
    cl_disk c = [] \<and> cl_maxRetryCount c = 6"
  using assms
  by (auto simp: NewClient_def agent_client_options_def WithCluster_def Tunnel_Client.WithServerURL_def WithTunnelServerURL_def
      WithLocalPort_def WithKeepAlive_def WithMaxRetryCount_def WithMaxRetryInterval_def WithRegister_def Let_def split: if_splits)

lemma sint_seconds: "sint (seconds 1) = 1000000000" "sint (seconds 30) = 30000000000"
  by (simp_all add: seconds_def)

section \<open>Properties\<close>

text \<open>Claim C25. A server that gets as far as serving is secured: a realm and allowed origins are configured,
  no procedure except \<^verbatim>\<open>Register\<close> is served without a bearer token, and the chisel server that was
  published to the service requires client certificates of the service's authority and has a user.
  The listeners are passed on in the order HTTP server, tunnel server, health check, background
  tasks.\<close>

theorem server_starts_secured:
  fixes svc svc' :: "('v, 'k, 'c) Service"
  assumes "authn_laws (wl_authn W)" "cors_laws (wl_cors W)"
    and "server_Run W L H now uuids fe (Inr mux) cfg svc r d = (Inr ls, svc', r', d')"
    and "fe_mkdir fe = Inr dir" "gget d dir = None"
  shows "\<exists>h l ch ch'.
    ls = [HttpServer h, TunnelServer l, HealthChecker, Background (SessionReaper (seconds 30)), Background (CacheEvictor (seconds 300))] \<and>
    sc_KeycloakRealmURL cfg \<noteq> [] \<and> sc_AllowedOrigins cfg \<noteq> [] \<and>
    (\<forall>rq c i w. rq_path rq \<in> set service_procedures \<and> rq_path rq \<noteq> FleetServiceRegisterProcedure \<and> rq_bearer rq = None \<longrightarrow>
       (\<exists>resp. h rq (c, i) w = (resp, w))) \<and>
    ch_NewServer H (mtls_config dir) = Inr ch \<and>
    AddUser (ch_users H) ch (fst uuids) (snd uuids) ''127.0.0.1'' = (Inr (), ch') \<and> svc' = ServerRef_Store ch' svc \<and>
    map_option (\<lambda>fs. gget fs ''ca.pem'') (gget d' dir) = Some (Some (CertPEM (service_ca svc)))"
  using assms(3)
proof (cases rule: server_Run_started)
  case (1 host port verifier h l)
  have origins: "sc_AllowedOrigins cfg \<noteq> []" using 1(4) by (auto simp: origins_enforced)
  have "\<exists>resp. h rq (c, i) w = (resp, w)"
    if "rq_path rq \<in> set service_procedures" "rq_path rq \<noteq> FleetServiceRegisterProcedure" "rq_bearer rq = None" for rq c i w
    using protected_request [OF assms(1,2) 1(4) that(1,2), of c i w] that(3) by auto
  then show ?thesis
    using tunnel_listener_mtls [OF 1(5) assms(4,5)] 1(1,6) origins
    by (auto simp: ProvideBackgroundListeners_def sessionReapInterval_def cacheEvictionInterval_def)
qed

text \<open>Claim C26. An agent that gets as far as serving has finished its bootstrap when one was asked for, forwards the
  tunnel to the bridge it bound, and whatever registrations, sessions and sleeps its tunnel client goes
  through, it never panics, never waits longer than 30 seconds, and waits at most one second
  after a connection.\<close>

theorem agent_reconnects_in_time:
  assumes "agent_Run W P B bridge host cfg w = (Inr ls, w')"
  shows "\<exists>h c. ls = [HttpServer h, BridgeListener (cl_localPort c), TunnelClient c] \<and>
    bridge = Inr (cl_localPort c) \<and> cl_localPort c \<noteq> 0 \<and> cl_cluster c = ac_Cluster cfg \<and>
    (if ac_Bootstrap cfg then boot_Run B w = (Inr (), w') else w' = w) \<and>
    (\<forall>its. delays_ok 1000000000 30000000000 False (fst (Start c its)))"
  using assms
proof (cases rule: agent_Run_started)
  case (1 port h c)
  have c: "cl_localPort c = port" "port \<noteq> 0" "cl_cluster c = ac_Cluster cfg" "cl_baseRetryDelay c = seconds 1" "cl_maxRetryDelay c = seconds 30"
    using agent_client [OF 1(2)] by auto
  have "delays_ok 1000000000 30000000000 False (fst (Start c its))" for its
    using reconnect_delays [of c its] unfolding c(4,5) sint_seconds by simp
  then show ?thesis using 1 c by (auto split: if_splits)
qed

section \<open>Witnesses\<close>

definition demo_web :: "(nat, UserInfo option) web_lib" where
  "demo_web = \<lparr>wl_authn = demo_authn, wl_cors = (\<lambda>_ next. next), wl_listen = (\<lambda>_. None), wl_empty_mux = demo_mux,
     wl_provider = (\<lambda>issuer. Inr (\<lambda>clientID. demo_verifier))\<rparr>"

definition demo_server_config :: server_Config where
  "demo_server_config = \<lparr>sc_Address = '':1'', sc_AllowedOrigins = [''https://ui''], sc_TunnelAddress = ''127.0.0.1:8300'',
     sc_KeycloakRealmURL = ''https://kc'', sc_KeycloakClientID = ''otterscale-server''\<rparr>"

lemma demo_web_laws: "authn_laws (wl_authn demo_web)" "cors_laws (wl_cors demo_web)"
  by (auto simp: demo_web_def authn_laws_def demo_authn_def cors_laws_def split: sum.split)

lemma demo_server_Run:
  "\<exists>ls svc' r' d'. server_Run demo_web demo_lib demo_chserver 0 (''u1'', ''u2'') demo_files (Inr demo_mux) demo_server_config demo_service 7 [] =
     (Inr ls, svc', r', d')"
proof -
  have addr: "SplitHostPort ''127.0.0.1:8300'' = Inr (''127.0.0.1'', ''8300'')"
    using SplitHostPort_plain [of "''127.0.0.1''" "''8300''"] by simp
  obtain h where "NewServer (wl_authn demo_web) (wl_cors demo_web) (wl_listen demo_web) (wl_empty_mux demo_web)
      (server_options '':1'' [''https://ui''] (oidc_authenticate demo_verifier) (Inr demo_mux)) = Inr h"
    unfolding NewServer_def server_options_config Let_def by (simp add: demo_web_def buildHandler_def server_config_def)
  moreover obtain l svc' r' d' where "BuildTunnelListener demo_lib demo_chserver 0 (''u1'', ''u2'') demo_files ''127.0.0.1:8300'' ''127.0.0.1''
       demo_service 7 [] = (Inr l, svc', r', d')" using demo_tunnel_listener by blast
  moreover have "NewOIDC (wl_provider demo_web) x y = Inr (oidc_authenticate demo_verifier)" for x y
    by (simp add: NewOIDC_def demo_web_def)
  ultimately show ?thesis
    unfolding server_Run_def demo_server_config_def
    by (simp only: server_Config.simps addr sum.case prod.case list.distinct if_False) simp
qed

theorem server_starts_secured_witness:
  "\<exists>ls svc' r' d'. server_Run demo_web demo_lib demo_chserver 0 (''u1'', ''u2'') demo_files (Inr demo_mux) demo_server_config demo_service 7 [] =
       (Inr ls, svc', r', d') \<and> length ls = 5 \<and> server svc' = Some [(''u1'', ''u2'', ''127.0.0.1'')]"
proof -
  obtain ls svc' r' d' where run: "server_Run demo_web demo_lib demo_chserver 0 (''u1'', ''u2'') demo_files (Inr demo_mux) demo_server_config
      demo_service 7 [] = (Inr ls, svc', r', d')" using demo_server_Run by blast
  have dir: "fe_mkdir demo_files = Inr ''/tmp/s1''" by (simp add: demo_files_def)
  have "length ls = 5 \<and> server svc' = Some [(''u1'', ''u2'', ''127.0.0.1'')]"
    using server_starts_secured [OF demo_web_laws run dir]
    by (auto simp: demo_chserver_def demo_AddUser ServerRef_Store_def)
  then show ?thesis using run by blast
qed

definition demo_agent_config :: agent_Config where
  "demo_agent_config = \<lparr>ac_Cluster = ''c1'', ac_ServerURL = ''http://s'', ac_TunnelServerURL = ''https://t'', ac_Bootstrap = True\<rparr>"

definition demo_proxy :: "(unit, unit, nat, UserInfo option) proxy_lib" where
  "demo_proxy = \<lparr>px_parse = (\<lambda>h. Inr ()), px_transport = Inr (), px_proxy = (\<lambda>u t e. demo_mux)\<rparr>"

theorem agent_reconnects_in_time_witness:
  "\<exists>ls w' c. agent_Run demo_web demo_proxy demo_boot (Inr 4711) ''https://k8s'' demo_agent_config empty_bworld = (Inr ls, w') \<and>
     ls ! 2 = TunnelClient c \<and> delays_ok 1000000000 30000000000 False (fst (Start c [ex_iteration, ex_iteration]))"
proof -
  obtain w' where boot: "boot_Run demo_boot empty_bworld = (Inr (), w')" using demo_file_order by blast
  obtain h where "NewServer (wl_authn demo_web) (wl_cors demo_web) (wl_listen demo_web) (wl_empty_mux demo_web)
      [WithListener, WithMount (agent_Mount demo_proxy ''https://k8s'')] = Inr h"
    by (simp add: NewServer_def WithListener_def WithMount_def agent_Mount_def demo_proxy_def buildHandler_def demo_web_def Let_def)
  moreover obtain c where "NewClient (agent_client_options demo_agent_config 4711) = Inr c"
    by (simp add: NewClient_def agent_client_options_def WithCluster_def Tunnel_Client.WithServerURL_def WithTunnelServerURL_def
      WithLocalPort_def WithKeepAlive_def WithMaxRetryCount_def WithMaxRetryInterval_def WithRegister_def Let_def)
  ultimately obtain ls where run: "agent_Run demo_web demo_proxy demo_boot (Inr 4711) ''https://k8s'' demo_agent_config empty_bworld = (Inr ls, w')"
    using boot by (simp add: agent_Run_def demo_agent_config_def)
  then show ?thesis using agent_reconnects_in_time [OF run] by auto
qed

end
