(* ===== verification/Server_Mux.thy ===== *)
theory Server_Mux
  imports Http_Auth Go_Json
begin

text \<open>
  The routes of the server: the request multiplexer of \<^verbatim>\<open>net/http\<close> as far as the server uses it, the
  dispatch of the generated service handlers (\<^verbatim>\<open>api/*/v1/pbconnect\<close>) and their registration by
  \<^verbatim>\<open>Handler.Mount\<close> (\<^verbatim>\<open>internal/cmd/server/handler.go\<close>).

  A procedure of a service is the handler \<^verbatim>\<open>connect\<close> makes of its method. The packages for reflection,
  health, metrics and telemetry are arguments, with the patterns they document as \<open>ops_laws\<close>.
  The server's patterns have different first segments, so at most one of them matches and the
  first match is the most specific one.
\<close>

section \<open>Paths\<close>

text \<open>\<^verbatim>\<open>url.PathUnescape\<close>, \<^const>\<open>None\<close> for an invalid escape.\<close>

fun path_unescape :: "gostring \<Rightarrow> gostring option" where
  "path_unescape [] = Some []"
| "path_unescape [c] = (if c = CHR ''%'' then None else Some [c])"
| "path_unescape [c, a] = (if c = CHR ''%'' then None else map_option (Cons c) (path_unescape [a]))"
| "path_unescape (c # a # b # cs) =
     (if c = CHR ''%'' then
        (case (hex_val a, hex_val b) of
           (Some x, Some y) \<Rightarrow> map_option (Cons (char_of (16 * x + y))) (path_unescape cs)
         | _ \<Rightarrow> None)
      else map_option (Cons c) (path_unescape (a # b # cs)))"

fun split_on :: "char \<Rightarrow> gostring \<Rightarrow> gostring list" where
  "split_on c [] = [[]]"
| "split_on c (x # xs) =
     (if x = c then [] # split_on c xs
      else (case split_on c xs of [] \<Rightarrow> [[x]] | s # ss \<Rightarrow> (x # s) # ss))"

text \<open>\<^verbatim>\<open>path.Clean\<close> of a rooted path, on its elements.\<close>

fun clean_elements :: "gostring list \<Rightarrow> gostring list \<Rightarrow> gostring list" where
  "clean_elements acc [] = rev acc"
| "clean_elements acc (s # ss) =
     (if s = [] \<or> s = ''.'' then clean_elements acc ss
      else if s = ''..'' then clean_elements (tl acc) ss
      else clean_elements (s # acc) ss)"

definition path_Clean :: "gostring \<Rightarrow> gostring" where
  "path_Clean p = ''/'' @ join_strings (clean_elements [] (split_on CHR ''/'' p)) ''/''"

definition cleanPath :: "gostring \<Rightarrow> gostring" where
  "cleanPath p =
     (if p = [] then ''/''
      else
        (let p1 = (if hd p = CHR ''/'' then p else ''/'' @ p); np = path_Clean p1 in
         if last p1 = CHR ''/'' \<and> np \<noteq> ''/'' then np @ ''/'' else np))"

section \<open>The multiplexer\<close>

datatype segment = Lit gostring | Wild | Multi

record pattern =
  pt_method :: "gostring option"
  pt_segs :: "segment list"

definition to_segment :: "gostring \<Rightarrow> segment" where
  "to_segment s = (if s \<noteq> [] \<and> hd s = CHR ''{'' then Wild else Lit s)"

text \<open>A pattern is an optional method, a space, and a path; a trailing slash matches every rest.\<close>

definition parsePattern :: "gostring \<Rightarrow> pattern" where
  "parsePattern s =
     (case cut_char (CHR '' '') s of
        (a, b, found) \<Rightarrow>
          (let segs = tl (split_on CHR ''/'' (if found then b else a)) in
           \<lparr>pt_method = (if found then Some a else None),
            pt_segs = (if last segs = [] then map to_segment (butlast segs) @ [Multi] else map to_segment segs)\<rparr>))"

definition seg_unescape :: "gostring \<Rightarrow> gostring" where
  "seg_unescape s = (case path_unescape s of None \<Rightarrow> s | Some u \<Rightarrow> u)"

definition firstSegment :: "gostring \<Rightarrow> gostring \<times> gostring" where
  "firstSegment path =
     (if path = ''/'' then (''/'', [])
      else (let p = tl path in (seg_unescape (takeWhile (\<lambda>c. c \<noteq> CHR ''/'') p), dropWhile (\<lambda>c. c \<noteq> CHR ''/'') p)))"

text \<open>The values of the wildcards when the path matches.\<close>

fun match_segs :: "segment list \<Rightarrow> gostring \<Rightarrow> gostring list option" where
  "match_segs [] path = (if path = [] then Some [] else None)"
| "match_segs (Multi # segs) path = (if path = [] then None else Some [])"
| "match_segs (Lit l # segs) path =
     (if path = [] then None
      else (case firstSegment path of (seg, rest) \<Rightarrow> if seg = l then match_segs segs rest else None))"
| "match_segs (Wild # segs) path =
     (if path = [] then None
      else (case firstSegment path of (seg, rest) \<Rightarrow>
              if seg = ''/'' then None else map_option (Cons seg) (match_segs segs rest)))"

definition method_ok :: "gostring option \<Rightarrow> gostring \<Rightarrow> bool" where
  "method_ok pm m \<longleftrightarrow> (case pm of None \<Rightarrow> True | Some p \<Rightarrow> p = m \<or> p = ''GET'' \<and> m = ''HEAD'')"

type_synonym ('w, 'r) route = "pattern \<times> (gostring list \<Rightarrow> ('w, 'r) handler)"

fun find_route :: "('w, 'r) route list \<Rightarrow> gostring \<Rightarrow> gostring \<Rightarrow> (pattern \<times> ('w, 'r) handler) option" where
  "find_route [] m path = None"
| "find_route ((p, k) # rs) m path =
     (if method_ok (pt_method p) m
      then (case match_segs (pt_segs p) path of Some vs \<Rightarrow> Some (p, k vs) | None \<Rightarrow> find_route rs m path)
      else find_route rs m path)"

definition exactMatch :: "pattern \<Rightarrow> gostring \<Rightarrow> bool" where
  "exactMatch p path \<longleftrightarrow>
     last (pt_segs p) \<noteq> Multi \<or>
     (path = [] \<or> last path = CHR ''/'') \<and> length (pt_segs p) = length (filter (\<lambda>c. c = CHR ''/'') path)"

text \<open>Whether the multiplexer redirects to the path with a trailing slash.\<close>

definition slash_redirect :: "('w, 'r) route list \<Rightarrow> gostring \<Rightarrow> gostring \<Rightarrow> bool" where
  "slash_redirect rs m path \<longleftrightarrow>
     \<not> (case find_route rs m path of None \<Rightarrow> False | Some (p, _) \<Rightarrow> exactMatch p path) \<and>
     \<not> (path \<noteq> [] \<and> last path = CHR ''/'') \<and>
     (case find_route rs m (path @ ''/'') of None \<Rightarrow> False | Some (p, _) \<Rightarrow> exactMatch p (path @ ''/''))"

definition other_method :: "('w, 'r) route list \<Rightarrow> gostring \<Rightarrow> bool" where
  "other_method rs path \<longleftrightarrow>
     list_ex (\<lambda>(p, _). pt_method p \<noteq> None \<and> (match_segs (pt_segs p) path \<noteq> None \<or>
        \<not> (path \<noteq> [] \<and> last path = CHR ''/'') \<and> match_segs (pt_segs p) (path @ ''/'') \<noteq> None)) rs"

record 'r http_lib =
  hl_bad_request :: "http_request \<Rightarrow> 'r"
  hl_redirect :: "gostring \<Rightarrow> http_request \<Rightarrow> 'r"
  hl_not_allowed :: "http_request \<Rightarrow> 'r"
  hl_not_found :: "http_request \<Rightarrow> 'r"

definition ServeMux :: "'r http_lib \<Rightarrow> ('w, 'r) route list \<Rightarrow> ('w, 'r) handler" where
  "ServeMux H rs rq rc w =
     (if rq_escaped rq = ''*'' then (hl_bad_request H rq, w)
      else
        (let path = (if rq_method rq = ''CONNECT'' then rq_escaped rq else cleanPath (rq_escaped rq)) in
         if slash_redirect rs (rq_method rq) path then (hl_redirect H (cleanPath (rq_path rq) @ ''/'') rq, w)
         else if path \<noteq> rq_escaped rq then (hl_redirect H path rq, w)
         else
           (case find_route rs (rq_method rq) path of
              Some (p, k) \<Rightarrow> k rq rc w
            | None \<Rightarrow> if other_method rs path then (hl_not_allowed H rq, w) else (hl_not_found H rq, w))))"

section \<open>The generated service handlers\<close>

definition FleetServiceName :: gostring where "FleetServiceName = ''otterscale.fleet.v1.FleetService''"
definition ResourceServiceName :: gostring where "ResourceServiceName = ''otterscale.resource.v1.ResourceService''"
definition RuntimeServiceName :: gostring where "RuntimeServiceName = ''otterscale.runtime.v1.RuntimeService''"

definition FleetServiceListClustersProcedure :: gostring where "FleetServiceListClustersProcedure = ''/otterscale.fleet.v1.FleetService/ListClusters''"
definition FleetServiceGetAgentManifestProcedure :: gostring where "FleetServiceGetAgentManifestProcedure = ''/otterscale.fleet.v1.FleetService/GetAgentManifest''"
definition ResourceServiceDiscoveryProcedure :: gostring where "ResourceServiceDiscoveryProcedure = ''/otterscale.resource.v1.ResourceService/Discovery''"
definition ResourceServiceSchemaProcedure :: gostring where "ResourceServiceSchemaProcedure = ''/otterscale.resource.v1.ResourceService/Schema''"
definition ResourceServiceListProcedure :: gostring where "ResourceServiceListProcedure = ''/otterscale.resource.v1.ResourceService/List''"
definition ResourceServiceGetProcedure :: gostring where "ResourceServiceGetProcedure = ''/otterscale.resource.v1.ResourceService/Get''"
definition ResourceServiceDescribeProcedure :: gostring where "ResourceServiceDescribeProcedure = ''/otterscale.resource.v1.ResourceService/Describe''"
definition ResourceServiceCreateProcedure :: gostring where "ResourceServiceCreateProcedure = ''/otterscale.resource.v1.ResourceService/Create''"
definition ResourceServiceApplyProcedure :: gostring where "ResourceServiceApplyProcedure = ''/otterscale.resource.v1.ResourceService/Apply''"
definition ResourceServiceDeleteProcedure :: gostring where "ResourceServiceDeleteProcedure = ''/otterscale.resource.v1.ResourceService/Delete''"
definition ResourceServiceWatchProcedure :: gostring where "ResourceServiceWatchProcedure = ''/otterscale.resource.v1.ResourceService/Watch''"
definition RuntimeServicePodLogProcedure :: gostring where "RuntimeServicePodLogProcedure = ''/otterscale.runtime.v1.RuntimeService/PodLog''"
definition RuntimeServiceExecuteTTYProcedure :: gostring where "RuntimeServiceExecuteTTYProcedure = ''/otterscale.runtime.v1.RuntimeService/ExecuteTTY''"
definition RuntimeServiceWriteTTYProcedure :: gostring where "RuntimeServiceWriteTTYProcedure = ''/otterscale.runtime.v1.RuntimeService/WriteTTY''"
definition RuntimeServiceResizeTTYProcedure :: gostring where "RuntimeServiceResizeTTYProcedure = ''/otterscale.runtime.v1.RuntimeService/ResizeTTY''"
definition RuntimeServicePortForwardProcedure :: gostring where "RuntimeServicePortForwardProcedure = ''/otterscale.runtime.v1.RuntimeService/PortForward''"
definition RuntimeServiceWritePortForwardProcedure :: gostring where "RuntimeServiceWritePortForwardProcedure = ''/otterscale.runtime.v1.RuntimeService/WritePortForward''"
definition RuntimeServiceScaleProcedure :: gostring where "RuntimeServiceScaleProcedure = ''/otterscale.runtime.v1.RuntimeService/Scale''"
definition RuntimeServiceRestartProcedure :: gostring where "RuntimeServiceRestartProcedure = ''/otterscale.runtime.v1.RuntimeService/Restart''"

lemmas procedure_defs = FleetServiceRegisterProcedure_def FleetServiceListClustersProcedure_def 
  FleetServiceGetAgentManifestProcedure_def ResourceServiceDiscoveryProcedure_def ResourceServiceSchemaProcedure_def 
  ResourceServiceListProcedure_def ResourceServiceGetProcedure_def ResourceServiceDescribeProcedure_def 
  ResourceServiceCreateProcedure_def ResourceServiceApplyProcedure_def ResourceServiceDeleteProcedure_def 
  ResourceServiceWatchProcedure_def RuntimeServicePodLogProcedure_def RuntimeServiceExecuteTTYProcedure_def 
  RuntimeServiceWriteTTYProcedure_def RuntimeServiceResizeTTYProcedure_def RuntimeServicePortForwardProcedure_def 
  RuntimeServiceWritePortForwardProcedure_def RuntimeServiceScaleProcedure_def RuntimeServiceRestartProcedure_def

text \<open>The handlers \<^verbatim>\<open>connect\<close> makes of the methods of a service, one for each procedure.\<close>

record ('w, 'r) fleet_http_handlers =
  fh_ListClusters :: "('w, 'r) handler"
  fh_Register :: "('w, 'r) handler"
  fh_GetAgentManifest :: "('w, 'r) handler"

record ('w, 'r) resource_http_handlers =
  rh_Discovery :: "('w, 'r) handler"
  rh_Schema :: "('w, 'r) handler"
  rh_List :: "('w, 'r) handler"
  rh_Get :: "('w, 'r) handler"
  rh_Describe :: "('w, 'r) handler"
  rh_Create :: "('w, 'r) handler"
  rh_Apply :: "('w, 'r) handler"
  rh_Delete :: "('w, 'r) handler"
  rh_Watch :: "('w, 'r) handler"

record ('w, 'r) runtime_http_handlers =
  th_PodLog :: "('w, 'r) handler"
  th_ExecuteTTY :: "('w, 'r) handler"
  th_WriteTTY :: "('w, 'r) handler"
  th_ResizeTTY :: "('w, 'r) handler"
  th_PortForward :: "('w, 'r) handler"
  th_WritePortForward :: "('w, 'r) handler"
  th_Scale :: "('w, 'r) handler"
  th_Restart :: "('w, 'r) handler"

text \<open>The switch over the path; every other path is not found.\<close>

fun path_switch :: "'r http_lib \<Rightarrow> (gostring \<times> ('w, 'r) handler) list \<Rightarrow> ('w, 'r) handler" where
  "path_switch H [] rq rc w = (hl_not_found H rq, w)"
| "path_switch H ((procedure, k) # ks) rq rc w = (if rq_path rq = procedure then k rq rc w else path_switch H ks rq rc w)"

definition NewFleetServiceHandler :: "'r http_lib \<Rightarrow> ('w, 'r) fleet_http_handlers \<Rightarrow> gostring \<times> ('w, 'r) handler" where
  "NewFleetServiceHandler H svc =
     (''/otterscale.fleet.v1.FleetService/'',
      path_switch H
        [(FleetServiceListClustersProcedure, fh_ListClusters svc),
         (FleetServiceRegisterProcedure, fh_Register svc),
         (FleetServiceGetAgentManifestProcedure, fh_GetAgentManifest svc)])"

definition NewResourceServiceHandler :: "'r http_lib \<Rightarrow> ('w, 'r) resource_http_handlers \<Rightarrow> gostring \<times> ('w, 'r) handler" where
  "NewResourceServiceHandler H svc =
     (''/otterscale.resource.v1.ResourceService/'',
      path_switch H
        [(ResourceServiceDiscoveryProcedure, rh_Discovery svc),
         (ResourceServiceSchemaProcedure, rh_Schema svc),
         (ResourceServiceListProcedure, rh_List svc),
         (ResourceServiceGetProcedure, rh_Get svc),
         (ResourceServiceDescribeProcedure, rh_Describe svc),
         (ResourceServiceCreateProcedure, rh_Create svc),
         (ResourceServiceApplyProcedure, rh_Apply svc),
         (ResourceServiceDeleteProcedure, rh_Delete svc),
         (ResourceServiceWatchProcedure, rh_Watch svc)])"

definition NewRuntimeServiceHandler :: "'r http_lib \<Rightarrow> ('w, 'r) runtime_http_handlers \<Rightarrow> gostring \<times> ('w, 'r) handler" where
  "NewRuntimeServiceHandler H svc =
     (''/otterscale.runtime.v1.RuntimeService/'',
      path_switch H
        [(RuntimeServicePodLogProcedure, th_PodLog svc),
         (RuntimeServiceExecuteTTYProcedure, th_ExecuteTTY svc),
         (RuntimeServiceWriteTTYProcedure, th_WriteTTY svc),
         (RuntimeServiceResizeTTYProcedure, th_ResizeTTY svc),
         (RuntimeServicePortForwardProcedure, th_PortForward svc),
         (RuntimeServiceWritePortForwardProcedure, th_WritePortForward svc),
         (RuntimeServiceScaleProcedure, th_Scale svc),
         (RuntimeServiceRestartProcedure, th_Restart svc)])"

section \<open>\<^verbatim>\<open>handler.go\<close>\<close>

record ('w, 'r) Handler =
  hd_fleet :: "('w, 'r) fleet_http_handlers"
  hd_resource :: "('w, 'r) resource_http_handlers"
  hd_runtime :: "('w, 'r) runtime_http_handlers"
  hd_manifest :: "gostring \<Rightarrow> ('w, 'r) handler"

record ('w, 'r) ops_lib =
  ol_interceptor :: "go_error option"
  ol_exporter :: "go_error option"
  ol_reflectV1 :: "gostring list \<Rightarrow> gostring \<times> ('w, 'r) handler"
  ol_reflectV1Alpha :: "gostring list \<Rightarrow> gostring \<times> ('w, 'r) handler"
  ol_health :: "gostring list \<Rightarrow> gostring \<times> ('w, 'r) handler"
  ol_metrics :: "('w, 'r) handler"

text \<open>\<^verbatim>\<open>mux.Handle\<close>: the wildcards are not used.\<close>

definition mux_Handle :: "gostring \<times> ('w, 'r) handler \<Rightarrow> ('w, 'r) route" where
  "mux_Handle ph = (parsePattern (fst ph), \<lambda>_. snd ph)"

definition registerOpsHandlers :: "('w, 'r) ops_lib \<Rightarrow> gostring list \<Rightarrow> ('w, 'r) route list res" where
  "registerOpsHandlers Ops names =
     (case ol_exporter Ops of
        Some e \<Rightarrow> Inl e
      | None \<Rightarrow>
          Inr [mux_Handle (ol_reflectV1 Ops names), mux_Handle (ol_reflectV1Alpha Ops names),
               mux_Handle (ol_health Ops names), mux_Handle (''/metrics'', ol_metrics Ops)])"

definition service_names :: "gostring list" where
  "service_names = [FleetServiceName, ResourceServiceName, RuntimeServiceName]"

definition server_routes :: "('w, 'r) ops_lib \<Rightarrow> 'r http_lib \<Rightarrow> ('w, 'r) Handler \<Rightarrow> ('w, 'r) route list res" where
  "server_routes Ops H hs =
     (case ol_interceptor Ops of
        Some e \<Rightarrow> Inl e
      | None \<Rightarrow>
          (case registerOpsHandlers Ops service_names of
             Inl e \<Rightarrow> Inl e
           | Inr ops \<Rightarrow>
               Inr (ops @
                 [mux_Handle (NewFleetServiceHandler H (hd_fleet hs)),
                  mux_Handle (NewResourceServiceHandler H (hd_resource hs)),
                  mux_Handle (NewRuntimeServiceHandler H (hd_runtime hs)),
                  (parsePattern ''GET /fleet/manifest/{token}'', \<lambda>vs. hd_manifest hs (vs ! 0))])))"

definition server_Mount :: "('w, 'r) ops_lib \<Rightarrow> 'r http_lib \<Rightarrow> ('w, 'r) Handler \<Rightarrow> ('w, 'r) handler res" where
  "server_Mount Ops H hs = (case server_routes Ops H hs of Inl e \<Rightarrow> Inl e | Inr rs \<Rightarrow> Inr (ServeMux H rs))"

text \<open>The documented patterns of the reflection and health packages.\<close>

definition ops_laws :: "('w, 'r) ops_lib \<Rightarrow> bool" where
  "ops_laws Ops \<longleftrightarrow>
     (\<forall>names. fst (ol_reflectV1 Ops names) = ''/grpc.reflection.v1.ServerReflection/'' \<and>
        fst (ol_reflectV1Alpha Ops names) = ''/grpc.reflection.v1alpha.ServerReflection/'' \<and>
        fst (ol_health Ops names) = ''/grpc.health.v1.Health/'')"

text \<open>What \<^verbatim>\<open>net/http\<close> parses: the escaped path is a form of the path, and is empty, a star, or rooted.\<close>

definition url_ok :: "http_request \<Rightarrow> bool" where
  "url_ok rq \<longleftrightarrow> path_unescape (rq_escaped rq) = Some (rq_path rq) \<and>
     (rq_escaped rq = [] \<or> rq_escaped rq = ''*'' \<or> hd (rq_escaped rq) = CHR ''/'')"

section \<open>Lemmas\<close>

lemma path_unescape_Cons: "c \<noteq> CHR ''%'' \<Longrightarrow> path_unescape (c # cs) = map_option (Cons c) (path_unescape cs)"
proof (cases cs)
  case (Cons a as)
  assume "c \<noteq> CHR ''%''"
  then show ?thesis using Cons by (cases as) simp_all
qed simp

text \<open>A slash is never part of an escape.\<close>

lemma path_unescape_slash:
  "path_unescape (a @ CHR ''/'' # b) = Some x \<Longrightarrow>
     \<exists>ua ub. path_unescape a = Some ua \<and> path_unescape b = Some ub \<and> x = ua @ CHR ''/'' # ub"
proof (induction a arbitrary: x rule: path_unescape.induct)
  case 1
  then show ?case by (auto simp: path_unescape_Cons)
next
  case (2 c)
  have "hex_val CHR ''/'' = None" by (simp add: hex_val_def ord_of_def)
  then show ?case using 2 by (cases b) (auto simp: path_unescape_Cons split: if_splits)
next
  case (3 c a)
  have "hex_val CHR ''/'' = None" by (simp add: hex_val_def ord_of_def)
  then show ?case using 3 by (auto simp: path_unescape_Cons split: if_splits option.splits)
next
  case (4 c a b' cs)
  show ?case
  proof (cases "c = CHR ''%''")
    case True
    then obtain h l z where h: "hex_val a = Some h" "hex_val b' = Some l" "path_unescape (cs @ CHR ''/'' # b) = Some z"
        "x = char_of (16 * h + l) # z"
      using 4(3) by (auto split: option.splits)
    then show ?thesis using 4(1) [OF True refl h(1,2,3)] True h by auto
  next
    case False
    then show ?thesis using 4(2) [OF False] 4(3) by (auto simp: path_unescape_Cons)
  qed
qed

lemma firstSegment_path:
  assumes "path_unescape path = Some x" "path \<noteq> []" "hd path = CHR ''/''" "firstSegment path = (seg, rest)" "seg \<noteq> ''/''"
  obtains y where "x = CHR ''/'' # seg @ y" "path_unescape rest = Some y" "rest = [] \<and> y = [] \<or> rest \<noteq> [] \<and> hd rest = CHR ''/''"
proof -
  obtain q where q: "path = CHR ''/'' # q" using assms(2,3) by (cases path) auto
  then obtain u where u: "path_unescape q = Some u" "x = CHR ''/'' # u" using assms(1) by (auto simp: path_unescape_Cons)
  let ?s = "takeWhile (\<lambda>c. c \<noteq> CHR ''/'') q"
  have seg: "seg = seg_unescape ?s" and rest: "rest = dropWhile (\<lambda>c. c \<noteq> CHR ''/'') q"
    using assms(4,5) q by (auto simp: firstSegment_def Let_def split: if_splits)
  have split: "q = ?s @ rest" by (simp add: rest)
  show thesis
  proof (cases rest)
    case Nil
    then have s: "?s = q" using split by simp
    have "seg = u" unfolding seg s seg_unescape_def u(1) by simp
    then show thesis using that [of "[]"] u(2) Nil by simp
  next
    case (Cons c r)
    have "c = CHR ''/''" using dropWhile_eq_Cons_conv [of "\<lambda>c. c \<noteq> CHR ''/''" q c r] rest Cons by metis
    then have "path_unescape (?s @ CHR ''/'' # r) = Some u" using u(1) split Cons by metis
    then obtain ua ub where "path_unescape ?s = Some ua" "path_unescape r = Some ub" "u = ua @ CHR ''/'' # ub"
      using path_unescape_slash by blast
    then show thesis using that [of "CHR ''/'' # ub"] u(2) seg Cons \<open>c = CHR ''/''\<close> by (simp add: seg_unescape_def path_unescape_Cons)
  qed
qed

lemma match_Lit:
  assumes "match_segs (Lit l # segs) path = Some vs" "path_unescape path = Some x" "hd path = CHR ''/''" "l \<noteq> ''/''"
  obtains rest y where "x = CHR ''/'' # l @ y" "match_segs segs rest = Some vs" "path_unescape rest = Some y"
    "rest = [] \<and> y = [] \<or> rest \<noteq> [] \<and> hd rest = CHR ''/''"
proof -
  obtain seg rest where *: "firstSegment path = (seg, rest)" by force
  then have s: "path \<noteq> []" "seg = l" "match_segs segs rest = Some vs" using assms(1) by (auto split: if_splits)
  have ne: "seg \<noteq> ''/''" using s(2) assms(4) by simp
  show thesis
    by (rule firstSegment_path [OF assms(2) s(1) assms(3) * ne]) (rule that, use s in \<open>simp_all only:\<close>)
qed

lemma match_subtree:
  assumes "match_segs [Lit l, Multi] path = Some vs" "path_unescape path = Some x" "hd path = CHR ''/''" "l \<noteq> ''/''"
  shows "\<exists>y. x = CHR ''/'' # l @ CHR ''/'' # y"
proof (rule match_Lit [OF assms])
  fix rest y assume *: "x = CHR ''/'' # l @ y" "match_segs [Multi] rest = Some vs" "path_unescape rest = Some y"
    "rest = [] \<and> y = [] \<or> rest \<noteq> [] \<and> hd rest = CHR ''/''"
  then obtain r where "rest = CHR ''/'' # r" by (cases rest) auto
  then show ?thesis using * by (auto simp: path_unescape_Cons)
qed

lemma match_exact:
  assumes "match_segs [Lit l] path = Some vs" "path_unescape path = Some x" "hd path = CHR ''/''" "l \<noteq> ''/''"
  shows "x = CHR ''/'' # l"
  by (rule match_Lit [OF assms]) (auto split: if_splits)

lemma match_wild:
  assumes "match_segs [Lit a, Lit b, Wild] path = Some vs" "path_unescape path = Some x" "hd path = CHR ''/''" "a \<noteq> ''/''" "b \<noteq> ''/''"
  shows "\<exists>v. vs = [v] \<and> x = CHR ''/'' # a @ CHR ''/'' # b @ CHR ''/'' # v"
proof (rule match_Lit [OF assms(1-4)])
  fix r1 y1 assume 1: "x = CHR ''/'' # a @ y1" "match_segs [Lit b, Wild] r1 = Some vs" "path_unescape r1 = Some y1"
    "r1 = [] \<and> y1 = [] \<or> r1 \<noteq> [] \<and> hd r1 = CHR ''/''"
  then have r1: "hd r1 = CHR ''/''" by (auto split: if_splits)
  show ?thesis
  proof (rule match_Lit [OF 1(2,3) r1 assms(5)])
    fix r2 y2 assume 2: "y1 = CHR ''/'' # b @ y2" "match_segs [Wild] r2 = Some vs" "path_unescape r2 = Some y2"
      "r2 = [] \<and> y2 = [] \<or> r2 \<noteq> [] \<and> hd r2 = CHR ''/''"
    obtain v r3 where v: "firstSegment r2 = (v, r3)" by force
    then have "v \<noteq> ''/''" "vs = [v]" "r3 = []" "r2 \<noteq> []" using 2(2) by (auto split: if_splits)
    then show ?thesis using firstSegment_path [OF 2(3) _ _ v] 1(1) 2(1,4) by fastforce
  qed
qed

lemma find_routeD:
  "find_route rs m path = Some (p, k) \<Longrightarrow>
     \<exists>f vs. (p, f) \<in> set rs \<and> method_ok (pt_method p) m \<and> match_segs (pt_segs p) path = Some vs \<and> k = f vs"
  by (induction rs m path rule: find_route.induct) (auto split: if_splits option.splits)

text \<open>The patterns of the server, parsed.\<close>

lemma patterns [simp]:
  "parsePattern ''/grpc.reflection.v1.ServerReflection/'' = \<lparr>pt_method = None, pt_segs = [Lit ''grpc.reflection.v1.ServerReflection'', Multi]\<rparr>"
  "parsePattern ''/grpc.reflection.v1alpha.ServerReflection/'' = \<lparr>pt_method = None, pt_segs = [Lit ''grpc.reflection.v1alpha.ServerReflection'', Multi]\<rparr>"
  "parsePattern ''/grpc.health.v1.Health/'' = \<lparr>pt_method = None, pt_segs = [Lit ''grpc.health.v1.Health'', Multi]\<rparr>"
  "parsePattern ''/metrics'' = \<lparr>pt_method = None, pt_segs = [Lit ''metrics'']\<rparr>"
  "parsePattern ''/otterscale.fleet.v1.FleetService/'' = \<lparr>pt_method = None, pt_segs = [Lit ''otterscale.fleet.v1.FleetService'', Multi]\<rparr>"
  "parsePattern ''/otterscale.resource.v1.ResourceService/'' = \<lparr>pt_method = None, pt_segs = [Lit ''otterscale.resource.v1.ResourceService'', Multi]\<rparr>"
  "parsePattern ''/otterscale.runtime.v1.RuntimeService/'' = \<lparr>pt_method = None, pt_segs = [Lit ''otterscale.runtime.v1.RuntimeService'', Multi]\<rparr>"
  "parsePattern ''GET /fleet/manifest/{token}'' = \<lparr>pt_method = Some ''GET'', pt_segs = [Lit ''fleet'', Lit ''manifest'', Wild]\<rparr>"
  by code_simp+

text \<open>The services below a path of their own, by its first segment.\<close>

definition subtrees :: "('w, 'r) ops_lib \<Rightarrow> 'r http_lib \<Rightarrow> ('w, 'r) Handler \<Rightarrow> (gostring \<times> ('w, 'r) handler) list" where
  "subtrees Ops H hs =
     [(''grpc.reflection.v1.ServerReflection'', snd (ol_reflectV1 Ops service_names)),
      (''grpc.reflection.v1alpha.ServerReflection'', snd (ol_reflectV1Alpha Ops service_names)),
      (''grpc.health.v1.Health'', snd (ol_health Ops service_names)),
      (''otterscale.fleet.v1.FleetService'', snd (NewFleetServiceHandler H (hd_fleet hs))),
      (''otterscale.resource.v1.ResourceService'', snd (NewResourceServiceHandler H (hd_resource hs))),
      (''otterscale.runtime.v1.RuntimeService'', snd (NewRuntimeServiceHandler H (hd_runtime hs)))]"

text \<open>A path without escapes, dots and double slashes is left as it is.\<close>

lemma path_unescape_plain: "CHR ''%'' \<notin> set s \<Longrightarrow> path_unescape s = Some s"
  by (induction s) (auto simp: path_unescape_Cons)

lemma split_on_plain: "c \<notin> set s \<Longrightarrow> split_on c s = [s]"
  by (induction s) auto

lemma split_on_append: "c \<notin> set s \<Longrightarrow> split_on c (s @ c # t) = s # split_on c t"
  by (induction s) auto

lemma server_routes_Inr:
  assumes "ops_laws Ops" "server_routes Ops H hs = Inr rs"
  shows "rs = map (\<lambda>(l, k). (\<lparr>pt_method = None, pt_segs = [Lit l, Multi]\<rparr>, \<lambda>_. k)) (take 3 (subtrees Ops H hs)) @
      (\<lparr>pt_method = None, pt_segs = [Lit ''metrics'']\<rparr>, \<lambda>_. ol_metrics Ops) #
      map (\<lambda>(l, k). (\<lparr>pt_method = None, pt_segs = [Lit l, Multi]\<rparr>, \<lambda>_. k)) (drop 3 (subtrees Ops H hs)) @
      [(\<lparr>pt_method = Some ''GET'', pt_segs = [Lit ''fleet'', Lit ''manifest'', Wild]\<rparr>, \<lambda>vs. hd_manifest hs (vs ! 0))]"
  using assms
  by (simp add: server_routes_def registerOpsHandlers_def mux_Handle_def ops_laws_def subtrees_def NewFleetServiceHandler_def
      NewResourceServiceHandler_def NewRuntimeServiceHandler_def split: option.splits)

lemma server_routes_cases:
  assumes "ops_laws Ops" "server_routes Ops H hs = Inr rs" "(p, f) \<in> set rs"
  obtains (subtree) l k where "(l, k) \<in> set (subtrees Ops H hs)" "p = \<lparr>pt_method = None, pt_segs = [Lit l, Multi]\<rparr>" "f = (\<lambda>_. k)"
  | (metrics) "p = \<lparr>pt_method = None, pt_segs = [Lit ''metrics'']\<rparr>" "f = (\<lambda>_. ol_metrics Ops)"
  | (manifest) "p = \<lparr>pt_method = Some ''GET'', pt_segs = [Lit ''fleet'', Lit ''manifest'', Wild]\<rparr>" "f = (\<lambda>vs. hd_manifest hs (vs ! 0))"
proof -
  note rs = server_routes_Inr [OF assms(1,2)]
  have "(p, f) \<in> (\<lambda>(l, k). (\<lparr>pt_method = None, pt_segs = [Lit l, Multi]\<rparr>, \<lambda>_. k)) ` set (subtrees Ops H hs) \<or>
      (p, f) = (\<lparr>pt_method = None, pt_segs = [Lit ''metrics'']\<rparr>, \<lambda>_. ol_metrics Ops) \<or>
      (p, f) = (\<lparr>pt_method = Some ''GET'', pt_segs = [Lit ''fleet'', Lit ''manifest'', Wild]\<rparr>, \<lambda>vs. hd_manifest hs (vs ! 0))"
    using assms(3) set_take_subset [of 3 "subtrees Ops H hs"] set_drop_subset [of 3 "subtrees Ops H hs"] unfolding rs by auto
  then show thesis using that by auto
qed

lemma ServeMux_called:
  "(\<exists>r. ServeMux H rs rq rc w = (r, w)) \<or>
   (\<exists>p k. find_route rs (rq_method rq) (rq_escaped rq) = Some (p, k) \<and> rq_escaped rq \<noteq> ''*'' \<and> ServeMux H rs rq rc w = k rq rc w)"
proof -
  define path where "path = (if rq_method rq = ''CONNECT'' then rq_escaped rq else cleanPath (rq_escaped rq))"
  have *: "ServeMux H rs rq rc w =
     (if rq_escaped rq = ''*'' then (hl_bad_request H rq, w)
      else if slash_redirect rs (rq_method rq) path then (hl_redirect H (cleanPath (rq_path rq) @ ''/'') rq, w)
      else if path \<noteq> rq_escaped rq then (hl_redirect H path rq, w)
      else (case find_route rs (rq_method rq) path of
              Some (p, k) \<Rightarrow> k rq rc w
            | None \<Rightarrow> if other_method rs path then (hl_not_allowed H rq, w) else (hl_not_found H rq, w)))"
    by (simp only: ServeMux_def Let_def path_def)
  show ?thesis
  proof (cases "rq_escaped rq = ''*'' \<or> slash_redirect rs (rq_method rq) path \<or> path \<noteq> rq_escaped rq")
    case False
    then show ?thesis unfolding * by (cases "find_route rs (rq_method rq) path") auto
  qed (auto simp: *)
qed

text \<open>Where the multiplexer sends a request, in terms of the decoded path.\<close>

lemma mux_cases:
  assumes "ops_laws Ops" "server_Mount Ops H hs = Inr mux" "url_ok rq"
  obtains (answered) r where "mux rq rc w = (r, w)"
  | (subtree) l k y where "(l, k) \<in> set (subtrees Ops H hs)" "rq_path rq = CHR ''/'' # l @ CHR ''/'' # y" "mux rq rc w = k rq rc w"
  | (metrics) "rq_path rq = ''/metrics''" "mux rq rc w = ol_metrics Ops rq rc w"
  | (manifest) token where "rq_method rq \<in> {''GET'', ''HEAD''}" "rq_path rq = ''/fleet/manifest/'' @ token" "mux rq rc w = hd_manifest hs token rq rc w"
proof -
  obtain rs where rs: "server_routes Ops H hs = Inr rs" "mux = ServeMux H rs"
    using assms(2) by (auto simp: server_Mount_def split: sum.splits)
  consider (quiet) r where "mux rq rc w = (r, w)"
    | (called) p k where "find_route rs (rq_method rq) (rq_escaped rq) = Some (p, k)" "rq_escaped rq \<noteq> ''*''" "mux rq rc w = k rq rc w"
    using ServeMux_called [of H rs rq rc w] unfolding rs(2) by blast
  then show thesis
  proof cases
    case quiet
    then show thesis by (rule answered)
  next
    case called
    then obtain f vs where f: "(p, f) \<in> set rs" "method_ok (pt_method p) (rq_method rq)" "match_segs (pt_segs p) (rq_escaped rq) = Some vs" "k = f vs"
      using find_routeD by blast
    have un: "path_unescape (rq_escaped rq) = Some (rq_path rq)" using assms(3) by (simp add: url_ok_def)
    have "match_segs (pt_segs p) [] = None" by (rule server_routes_cases [OF assms(1) rs(1) f(1)]) simp_all
    then have "rq_escaped rq \<noteq> []" using f(3) by auto
    then have hd: "hd (rq_escaped rq) = CHR ''/''" using assms(3) called(2) by (simp add: url_ok_def)
    from assms(1) rs(1) f(1) show thesis
    proof (cases rule: server_routes_cases)
      case (subtree l k')
      then have "l \<noteq> ''/''" by (auto simp: subtrees_def)
      then obtain y where "rq_path rq = CHR ''/'' # l @ CHR ''/'' # y"
        using match_subtree [OF _ un hd] f(3) subtree(2) by (metis pattern.select_convs(2))
      then show thesis using that(2) subtree(1,3) f(4) called(3) by blast
    next
      case metrics
      then show thesis using match_exact [OF _ un hd, of "''metrics''"] that(3) f(3,4) called(3) by simp
    next
      case manifest
      then obtain v where v: "vs = [v]" "rq_path rq = CHR ''/'' # ''fleet'' @ CHR ''/'' # ''manifest'' @ CHR ''/'' # v"
        using match_wild [OF _ un hd, of "''fleet''" "''manifest''" vs] f(3) by auto
      have "rq_method rq \<in> {''GET'', ''HEAD''}" using f(2) manifest(1) by (auto simp: method_ok_def)
      then show thesis using that(4) [of v] v manifest(2) f(4) called(3) by simp
    qed
  qed
qed

text \<open>The handler of a path below a service's own path is the one of that service.\<close>

lemma subtree_path:
  assumes "(l, k) \<in> set (subtrees Ops H hs)" "CHR ''/'' # l @ CHR ''/'' # y = CHR ''/'' # l' @ CHR ''/'' # y'" "CHR ''/'' \<notin> set l'"
  shows "l = l'" "y = y'"
proof -
  have "CHR ''/'' \<notin> set l" using assms(1) by (auto simp: subtrees_def)
  then have "takeWhile (\<lambda>c. c \<noteq> CHR ''/'') (l @ CHR ''/'' # y) = l" by (subst takeWhile_append2) auto
  moreover have "takeWhile (\<lambda>c. c \<noteq> CHR ''/'') (l' @ CHR ''/'' # y') = l'" using assms(3) by (subst takeWhile_append2) auto
  ultimately show "l = l'" using assms(2) by simp
  then show "y = y'" using assms(2) by simp
qed

text \<open>A path below a service reaches that service or nothing.\<close>

lemma service_route:
  assumes "ops_laws Ops" "server_Mount Ops H hs = Inr mux" "url_ok rq"
    and "(l, k) \<in> set (subtrees Ops H hs)" "rq_path rq = CHR ''/'' # l @ CHR ''/'' # y"
  shows "(\<exists>r. mux rq rc w = (r, w)) \<or> mux rq rc w = k rq rc w"
proof -
  have l: "CHR ''/'' \<notin> set l" "l \<noteq> ''fleet''" "l \<noteq> ''metrics''" using assms(4) by (auto simp: subtrees_def)
  have path: "CHR ''/'' # l @ CHR ''/'' # y = CHR ''/'' # l' @ CHR ''/'' # y' \<Longrightarrow> CHR ''/'' \<notin> set l' \<Longrightarrow> l = l'" for l' y'
    by (rule subtree_path(1) [OF assms(4)])
  from assms(1-3) show ?thesis
  proof (cases rule: mux_cases [where rc = rc and w = w])
    case (subtree l' k' y')
    have "l' = l" using subtree_path(1) [OF subtree(1) trans [OF subtree(2) [symmetric] assms(5)] l(1)] .
    moreover have "distinct (map fst (subtrees Ops H hs))" by (simp add: subtrees_def)
    ultimately show ?thesis using subtree(1,3) assms(4) by (metis eq_key_imp_eq_value)
  next
    case metrics
    then have "CHR ''/'' \<in> set ''metrics''" using assms(5) by (metis in_set_conv_decomp list.inject)
    then show ?thesis by simp
  next
    case (manifest token)
    then have "l = ''fleet''" using path [of "''fleet''" "''manifest/'' @ token"] assms(5) by simp
    then show ?thesis using l(2) by simp
  qed blast
qed

definition publicly_served ::
  "('w, 'r) ops_lib \<Rightarrow> ('w, 'r) Handler \<Rightarrow> http_request \<Rightarrow> ('w, 'r) handler \<Rightarrow> bool" where
  "publicly_served Ops hs rq k \<longleftrightarrow>
     rq_path rq = FleetServiceRegisterProcedure \<and> k = fh_Register (hd_fleet hs) \<or>
     rq_path rq \<in> {''/grpc.health.v1.Health/Check'', ''/grpc.health.v1.Health/Watch''} \<and> k = snd (ol_health Ops service_names) \<or>
     rq_path rq = ''/grpc.reflection.v1.ServerReflection/ServerReflectionInfo'' \<and> k = snd (ol_reflectV1 Ops service_names) \<or>
     (\<exists>token. rq_method rq \<in> {''GET'', ''HEAD''} \<and> rq_path rq = ''/fleet/manifest/'' @ token \<and> k = hd_manifest hs token)"

lemma register_switch:
  "rq_path rq = FleetServiceRegisterProcedure \<Longrightarrow> snd (NewFleetServiceHandler H svc) rq rc w = fh_Register svc rq rc w"
  by (simp add: NewFleetServiceHandler_def procedure_defs)

lemma public_path_service:
  assumes "(l, k) \<in> set (subtrees Ops H hs)" "rq_path rq = CHR ''/'' # l @ CHR ''/'' # y"
    and "isPublicPath (server_config address origins oidc mount) (rq_path rq)"
  shows "\<exists>k'. k rq rc w = k' rq rc w \<and> publicly_served Ops hs rq k'"
proof -
  consider (reg) "rq_path rq = CHR ''/'' # ''otterscale.fleet.v1.FleetService'' @ CHR ''/'' # ''Register''"
    | (check) m where "rq_path rq = CHR ''/'' # ''grpc.health.v1.Health'' @ CHR ''/'' # m" "m \<in> {''Check'', ''Watch''}"
    | (refl) "rq_path rq = CHR ''/'' # ''grpc.reflection.v1.ServerReflection'' @ CHR ''/'' # ''ServerReflectionInfo''"
    | (man) t where "rq_path rq = CHR ''/'' # ''fleet'' @ CHR ''/'' # ''manifest/'' @ t"
    using assms(3)
    by (auto simp: isPublicPath_def server_config_def public_paths_def public_prefixes_def FleetServiceRegisterProcedure_def has_prefix_iff)
  then show ?thesis
  proof cases
    case reg
    then have "l = ''otterscale.fleet.v1.FleetService''" using subtree_path(1) [OF assms(1) trans [OF assms(2) [symmetric] reg]] by simp
    then have "k = snd (NewFleetServiceHandler H (hd_fleet hs))" using assms(1) by (simp add: subtrees_def)
    moreover have "rq_path rq = FleetServiceRegisterProcedure" using reg by (simp add: FleetServiceRegisterProcedure_def)
    ultimately show ?thesis using register_switch unfolding publicly_served_def by metis
  next
    case (check m)
    then have "l = ''grpc.health.v1.Health''" using subtree_path(1) [OF assms(1) trans [OF assms(2) [symmetric] check(1)]] by simp
    then have "k = snd (ol_health Ops service_names)" using assms(1) by (simp add: subtrees_def)
    then show ?thesis using check unfolding publicly_served_def by auto
  next
    case refl
    then have "l = ''grpc.reflection.v1.ServerReflection''" using subtree_path(1) [OF assms(1) trans [OF assms(2) [symmetric] refl]] by simp
    then have "k = snd (ol_reflectV1 Ops service_names)" using assms(1) by (simp add: subtrees_def)
    then show ?thesis using refl unfolding publicly_served_def by auto
  next
    case (man t)
    then have "l = ''fleet''" using subtree_path(1) [OF assms(1) trans [OF assms(2) [symmetric] man]] by simp
    then show ?thesis using assms(1) by (simp add: subtrees_def)
  qed
qed

text \<open>A token of one plain segment reaches the manifest endpoint.\<close>

lemma manifest_routed:
  assumes "ops_laws Ops" "server_Mount Ops H hs = Inr mux" "rq_method rq = ''GET''" "rq_escaped rq = ''/fleet/manifest/'' @ token"
    and "CHR ''/'' \<notin> set token" "CHR ''%'' \<notin> set token" "token \<notin> {[], ''.'', ''..''}"
  shows "mux rq rc w = hd_manifest hs token rq rc w"
proof -
  obtain rs where rs: "server_routes Ops H hs = Inr rs" "mux = ServeMux H rs"
    using assms(2) by (auto simp: server_Mount_def split: sum.splits)
  let ?path = "''/fleet/manifest/'' @ token"
  have "last token \<noteq> CHR ''/''" using assms(5,7) by (metis insertI1 last_in_set)
  then have clean: "cleanPath ?path = ?path"
    using assms(5,7) by (simp add: cleanPath_def path_Clean_def split_on_plain)
  have tw: "takeWhile (\<lambda>c. c \<noteq> CHR ''/'') token = token" "dropWhile (\<lambda>c. c \<noteq> CHR ''/'') token = []"
    using assms(5) by (auto simp: takeWhile_eq_all_conv dropWhile_eq_Nil_conv)
  have "path_unescape ''fleet'' = Some ''fleet''" "path_unescape ''manifest'' = Some ''manifest''" "path_unescape token = Some token"
    using assms(6) by (simp_all add: path_unescape_plain)
  then have first: "firstSegment ?path = (''fleet'', ''/manifest/'' @ token)" "firstSegment (''/manifest/'' @ token) = (''manifest'', CHR ''/'' # token)"
      "firstSegment (CHR ''/'' # token) = (token, [])"
    using assms(7) by (simp_all add: tw firstSegment_def seg_unescape_def)
  have "token \<noteq> ''/''" using assms(5) by auto
  then have find: "find_route rs ''GET'' ?path = Some (\<lparr>pt_method = Some ''GET'', pt_segs = [Lit ''fleet'', Lit ''manifest'', Wild]\<rparr>, hd_manifest hs token)"
    using first unfolding server_routes_Inr [OF assms(1) rs(1)] by (simp add: subtrees_def method_ok_def)
  then have "\<not> slash_redirect rs ''GET'' ?path" by (simp add: slash_redirect_def exactMatch_def)
  then show ?thesis using clean find assms(3,4) unfolding rs(2) ServeMux_def Let_def by simp
qed

lemma find_route_subtree:
  assumes "firstSegment q = (l, r)" "q \<noteq> []" "r \<noteq> []"
  shows "(l, k) \<in> set ps \<Longrightarrow> distinct (map fst ps) \<Longrightarrow>
      find_route (map (\<lambda>(l, k). (\<lparr>pt_method = None, pt_segs = [Lit l, Multi]\<rparr>, \<lambda>_. k)) ps @ rest) mt q =
        Some (\<lparr>pt_method = None, pt_segs = [Lit l, Multi]\<rparr>, k)"
    and "l \<notin> fst ` set ps \<Longrightarrow>
      find_route (map (\<lambda>(l, k). (\<lparr>pt_method = None, pt_segs = [Lit l, Multi]\<rparr>, \<lambda>_. k)) ps @ rest) mt q = find_route rest mt q"
  by (induction ps) (use assms in \<open>force simp: method_ok_def\<close>)+

lemma find_server_route:
  assumes "ops_laws Ops" "server_routes Ops H hs = Inr rs" "(l, k) \<in> set (subtrees Ops H hs)"
    and "firstSegment q = (l, r)" "q \<noteq> []" "r \<noteq> []"
  shows "find_route rs mt q = Some (\<lparr>pt_method = None, pt_segs = [Lit l, Multi]\<rparr>, k)"
proof -
  let ?ps = "subtrees Ops H hs"
  have d: "distinct (map fst ?ps)" "l \<noteq> ''metrics''" using assms(3) by (auto simp: subtrees_def)
  have dd: "distinct (map fst (take 3 ?ps))" "distinct (map fst (drop 3 ?ps))"
    using d(1) by (simp_all only: take_map [symmetric] drop_map [symmetric] distinct_take distinct_drop)
  show ?thesis
  proof (cases "(l, k) \<in> set (take 3 ?ps)")
    case True
    show ?thesis
      unfolding server_routes_Inr [OF assms(1,2)] by (rule find_route_subtree(1) [OF assms(4-6) True dd(1)])
  next
    case False
    then have drop: "(l, k) \<in> set (drop 3 ?ps)" using assms(3) append_take_drop_id [of 3 ?ps] by (metis Un_iff set_append)
    have out: "l \<notin> fst ` set (take 3 ?ps)"
    proof
      assume "l \<in> fst ` set (take 3 ?ps)"
      moreover have "l \<in> fst ` set (drop 3 ?ps)" using drop by force
      moreover have "distinct (map fst (take 3 ?ps @ drop 3 ?ps))" using d(1) by simp
      ultimately show False by (simp only: map_append distinct_append set_map) blast
    qed
    show ?thesis
      unfolding server_routes_Inr [OF assms(1,2)] find_route_subtree(2) [OF assms(4-6) out]
      using find_route_subtree(1) [OF assms(4-6) drop dd(2)] d(2) assms(4,5) by (simp add: method_ok_def)
  qed
qed

text \<open>A plain procedure path below a service reaches that service.\<close>

lemma procedure_routed:
  assumes "ops_laws Ops" "server_Mount Ops H hs = Inr mux" "rq_escaped rq = CHR ''/'' # l @ CHR ''/'' # m"
    and "(l, k) \<in> set (subtrees Ops H hs)" "CHR ''/'' \<notin> set m" "m \<notin> {[], ''.'', ''..''}"
  shows "mux rq rc w = k rq rc w"
proof -
  obtain rs where rs: "server_routes Ops H hs = Inr rs" "mux = ServeMux H rs"
    using assms(2) by (auto simp: server_Mount_def split: sum.splits)
  let ?path = "CHR ''/'' # l @ CHR ''/'' # m"
  have l: "CHR ''/'' \<notin> set l" "CHR ''%'' \<notin> set l" "l \<notin> {[], ''.'', ''..''}" using assms(4) by (auto simp: subtrees_def)
  have "last m \<noteq> CHR ''/''" using assms(5,6) by (metis insertI1 last_in_set)
  moreover have "split_on CHR ''/'' ?path = [[], l, m]"
    using l(1) assms(5) by (simp add: split_on_append split_on_plain)
  ultimately have clean: "cleanPath ?path = ?path" using l(3) assms(6) by (simp add: cleanPath_def path_Clean_def)
  have tw: "takeWhile (\<lambda>c. c \<noteq> CHR ''/'') (l @ CHR ''/'' # z) = l" "dropWhile (\<lambda>c. c \<noteq> CHR ''/'') (l @ CHR ''/'' # z) = CHR ''/'' # z" for z
    using l(1) by (subst takeWhile_append2 dropWhile_append2; auto)+
  have first: "firstSegment (CHR ''/'' # l @ CHR ''/'' # z) = (l, CHR ''/'' # z)" for z
    using l(2) by (simp add: firstSegment_def tw seg_unescape_def path_unescape_plain)
  have find: "find_route rs mt (CHR ''/'' # l @ CHR ''/'' # z) = Some (\<lparr>pt_method = None, pt_segs = [Lit l, Multi]\<rparr>, k)" for mt z
    using find_server_route [OF assms(1) rs(1) assms(4) first] by simp
  have "\<not> slash_redirect rs mt ?path" for mt
    using find [of mt m] find [of mt "m @ ''/''"] l(1) assms(5) by (simp add: slash_redirect_def exactMatch_def filter_empty_conv)
  then show ?thesis using clean find assms(3) unfolding rs(2) ServeMux_def Let_def by simp
qed

section \<open>Properties\<close>

text \<open>Claim C6. The whole surface of the server: whatever path, method or encoding a request uses, it is
  answered by CORS, the authentication or the multiplexer without any effect; or it is one of the
  public endpoints, \<^verbatim>\<open>Register\<close>, the health check and its watch, reflection, and the manifest of a token in
  the path; or it carries a non-empty bearer token the OIDC verifier accepts and is served in the
  name of that token's subject, with the group system:authenticated and the token's groups, each
  prefixed with \<^verbatim>\<open>oidc:\<close>, so that no token can claim a Kubernetes group such as system:masters.\<close>

theorem only_public_without_token:
  assumes "authn_laws A" "cors_laws cors" "ops_laws Ops" "server_Mount Ops H hs = Inr mux" "url_ok rq"
    and "NewServer A cors listen m0 (server_options address origins (oidc_authenticate verifier) (Inr mux)) = Inr h"
  shows "(\<exists>r. h rq (c, i) w = (r, w)) \<or>
    (\<exists>k. h rq (c, i) w = k rq (c, i) w \<and> publicly_served Ops hs rq k) \<or>
    (\<exists>token idToken groups u. rq_bearer rq = Some token \<and> token \<noteq> [] \<and> verifier token = Inr idToken \<and> it_Groups idToken = Inr groups \<and>
       u = \<lparr>ui_Subject = it_Subject idToken, ui_Groups = ''system:authenticated'' # map (\<lambda>g. ''oidc:'' @ g) groups\<rparr> \<and>
       h rq (c, i) w = mux rq (WithUserInfo c u, Some u) w)"
proof (rule request_cases [OF assms(1,2,6), of rq c i w])
  assume pub: "isPublicPath (server_config address origins (oidc_authenticate verifier) (Inr mux)) (rq_path rq)"
    and h: "h rq (c, i) w = mux rq (c, i) w"
  from assms(3-5) have "(\<exists>r. h rq (c, i) w = (r, w)) \<or> (\<exists>k. h rq (c, i) w = k rq (c, i) w \<and> publicly_served Ops hs rq k)"
  proof (cases rule: mux_cases [where rc = "(c, i)" and w = w])
    case (subtree l k y)
    then show ?thesis using public_path_service [OF subtree(1,2) pub, of "(c, i)" w] h by metis
  next
    case metrics
    then show ?thesis
      using pub by (simp add: isPublicPath_def server_config_def public_paths_def public_prefixes_def FleetServiceRegisterProcedure_def has_prefix_iff)
  next
    case (manifest token)
    then have "publicly_served Ops hs rq (hd_manifest hs token)" unfolding publicly_served_def by blast
    then show ?thesis using h manifest(3) by auto
  qed (use h in auto)
  then show ?thesis by blast
qed blast+

text \<open>Reflection in its older version and the metrics are mounted but not public.\<close>

lemma operational_paths_protected:
  "\<not> isPublicPath (server_config address origins oidc mount) ''/grpc.reflection.v1alpha.ServerReflection/ServerReflectionInfo''"
  "\<not> isPublicPath (server_config address origins oidc mount) ''/metrics''"
  by (simp_all add: isPublicPath_def server_config_def public_paths_def public_prefixes_def FleetServiceRegisterProcedure_def has_prefix_iff)

section \<open>Witnesses\<close>

text \<open>Handlers that answer with their name and count the requests.\<close>

definition says :: "gostring \<Rightarrow> (nat, gostring) handler" where
  "says name rq rc w = (name, Suc w)"

definition demo_ops :: "(nat, gostring) ops_lib" where
  "demo_ops = \<lparr>ol_interceptor = None, ol_exporter = None,
     ol_reflectV1 = (\<lambda>_. (''/grpc.reflection.v1.ServerReflection/'', says ''reflection'')),
     ol_reflectV1Alpha = (\<lambda>_. (''/grpc.reflection.v1alpha.ServerReflection/'', says ''alpha'')),
     ol_health = (\<lambda>_. (''/grpc.health.v1.Health/'', says ''health'')), ol_metrics = says ''metrics''\<rparr>"

definition demo_http_lib :: "gostring http_lib" where
  "demo_http_lib = \<lparr>hl_bad_request = (\<lambda>_. ''400''), hl_redirect = (\<lambda>to _. ''301 '' @ to), hl_not_allowed = (\<lambda>_. ''405''), hl_not_found = (\<lambda>_. ''404'')\<rparr>"

definition demo_handler :: "(nat, gostring) Handler" where
  "demo_handler = \<lparr>hd_fleet = \<lparr>fh_ListClusters = says ''clusters'', fh_Register = says ''register'', fh_GetAgentManifest = says ''agent manifest''\<rparr>,
     hd_resource = \<lparr>rh_Discovery = says ''discovery'', rh_Schema = says ''schema'', rh_List = says ''list'', rh_Get = says ''get'',
       rh_Describe = says ''describe'', rh_Create = says ''create'', rh_Apply = says ''apply'', rh_Delete = says ''delete'', rh_Watch = says ''watch''\<rparr>,
     hd_runtime = \<lparr>th_PodLog = says ''log'', th_ExecuteTTY = says ''exec'', th_WriteTTY = says ''write'', th_ResizeTTY = says ''resize'',
       th_PortForward = says ''forward'', th_WritePortForward = says ''write forward'', th_Scale = says ''scale'', th_Restart = says ''restart''\<rparr>,
     hd_manifest = (\<lambda>token. says (''manifest '' @ token))\<rparr>"

definition demo_routes :: "(nat, gostring) handler" where
  "demo_routes = (case server_Mount demo_ops demo_http_lib demo_handler of Inr mux \<Rightarrow> mux | Inl _ \<Rightarrow> says [])"

definition get_request :: "gostring \<Rightarrow> gostring \<Rightarrow> http_request" where
  "get_request escaped path = \<lparr>rq_method = ''GET'', rq_path = path, rq_escaped = escaped, rq_origin = [], rq_bearer = None, rq_body = []\<rparr>"

lemma demo_routes_run:
  "demo_routes (get_request ''/fleet/manifest/a%2Eb'' ''/fleet/manifest/a.b'') (\<lparr>ctx_user = None\<rparr>, None) 0 = (''manifest a.b'', 1)"
  "demo_routes (get_request ''/fleet/manifest/../../metrics'' ''/fleet/manifest/../../metrics'') (\<lparr>ctx_user = None\<rparr>, None) 0 = (''301 /metrics'', 0)"
  "demo_routes (get_request ''/otterscale.fleet.v1.FleetService'' ''/otterscale.fleet.v1.FleetService'') (\<lparr>ctx_user = None\<rparr>, None) 0 =
     (''301 /otterscale.fleet.v1.FleetService/'', 0)"
  by code_simp+

definition text_authn :: "(nat, gostring) authn_lib" where
  "text_authn = \<lparr>authn_Wrap = (\<lambda>auth next rq rc w. case auth rq of Inl e \<Rightarrow> (''401'', w) | Inr u \<Rightarrow> next rq (fst rc, Some u) w),
     authn_reject = (\<lambda>_. ''401'')\<rparr>"

theorem only_public_without_token_witness:
  "\<exists>h r. NewServer text_authn (\<lambda>_ next. next) (\<lambda>_. None) demo_routes
       (server_options '':1'' [''https://ui''] (oidc_authenticate demo_verifier) (Inr demo_routes)) = Inr h \<and>
     h (get_request ''/metrics'' ''/metrics'') (\<lparr>ctx_user = None\<rparr>, None) 0 = (r, 0)"
proof -
  let ?rq = "get_request ''/metrics'' ''/metrics''"
  have A: "authn_laws text_authn" by (auto simp: authn_laws_def text_authn_def split: sum.split)
  have C: "cors_laws (\<lambda>_ next. next)" by (simp add: cors_laws_def)
  have Ops: "ops_laws demo_ops" by (simp add: ops_laws_def demo_ops_def)
  have M: "server_Mount demo_ops demo_http_lib demo_handler = Inr demo_routes"
    by (simp add: demo_routes_def server_Mount_def server_routes_def registerOpsHandlers_def demo_ops_def)
  have U: "url_ok ?rq" by code_simp
  obtain h where h: "NewServer text_authn (\<lambda>_ next. next) (\<lambda>_. None) demo_routes
      (server_options '':1'' [''https://ui''] (oidc_authenticate demo_verifier) (Inr demo_routes)) = Inr h"
    unfolding NewServer_def server_options_config Let_def by (simp add: buildHandler_def server_config_def)
  have "\<not> publicly_served demo_ops demo_handler ?rq k" for k
    by (simp add: publicly_served_def get_request_def FleetServiceRegisterProcedure_def)
  moreover have "rq_bearer ?rq = None" by (simp add: get_request_def)
  ultimately show ?thesis
    using only_public_without_token [OF A C Ops M U h, of "\<lparr>ctx_user = None\<rparr>" None 0] h by auto
qed

end
