(* ===== verification/Wiring.thy ===== *)
theory Wiring
  imports Fleet Programs Server_Mux Discovery_Cache
begin

text \<open>
  The composition of the two programs: the provider functions (\<^verbatim>\<open>providers/wire.go\<close>,
  \<^verbatim>\<open>providers/manifest/provider.go\<close>, \<^verbatim>\<open>providers/kubernetes/provider.go\<close>), the injectors
  (\<^verbatim>\<open>cmd/otterscale/wire_gen.go\<close>), the commands (\<^verbatim>\<open>internal/cmd\<close>) and \<^verbatim>\<open>cmd/otterscale/main.go\<close>.

  An injector returns the parts that have state of their own or are made with arguments that can
  fail: the authority, the tunnel service, the fleet use case, the schema cache and the session
  store. The other constructors only put their arguments into a struct. The file system, the source of
  randomness and the clock are those of \<open>Pki\<close>.
\<close>

section \<open>Providers\<close>

definition main_version :: gostring where
  "main_version = ''devel''"

definition provideCA ::
  "'v viper_lib \<Rightarrow> ('r, 'k, 'p, 'c, 'q) pki_lib \<Rightarrow> (fs_call \<Rightarrow> go_error option) \<Rightarrow> gostring \<times> gostring \<Rightarrow> nat \<Rightarrow> int \<Rightarrow>
     'v \<Rightarrow> fs \<Rightarrow> 'r \<Rightarrow> ('k, 'c) CA res \<times> fs list \<times> 'r" where
  "provideCA V L fault rnds part now conf f r = ProvideCA L fault rnds part now (ServerTunnelCADir V conf) f r"

definition ProvideAgentManifestConfig ::
  "'v viper_lib \<Rightarrow> ('r, 'k, 'p, 'c, 'q) pki_lib \<Rightarrow> 'v \<Rightarrow> ('k, 'c) CA \<Rightarrow> AgentManifestConfig res" where
  "ProvideAgentManifestConfig V L conf ca =
     (case DeriveHMACKey L ca ''manifest-token'' of
        Inl e \<Rightarrow> Inl (Wrap ''derive HMAC key'' e)
      | Inr hmac \<Rightarrow>
          Inr \<lparr>mcfg_ServerURL = ServerExternalURL V conf, mcfg_TunnelURL = ServerExternalTunnelURL V conf, mcfg_HMACKey = hmac\<rparr>)"

definition ProvideDiscoveryCache :: "'sc DiscoveryCache" where
  "ProvideDiscoveryCache = NewDiscoveryCache DefaultTTL []"

text \<open>The configuration inside the cluster, else the one of the user's kubeconfig.\<close>

definition ProvideInClusterConfig :: "'rc res \<Rightarrow> 'rc res \<Rightarrow> 'rc res" where
  "ProvideInClusterConfig in_cluster kubeconfig = (case in_cluster of Inl _ \<Rightarrow> kubeconfig | Inr cfg \<Rightarrow> Inr cfg)"

section \<open>Injectors\<close>

record ('v, 'k, 'c, 'r, 'sc) wired_server =
  ws_service :: "('v, 'k, 'c) Service"
  ws_fleet :: "(('v, 'k, 'c) Service \<times> 'r) FleetUseCase"
  ws_cache :: "'sc DiscoveryCache"
  ws_sessions :: SessionStore
  ws_background :: "background_listener list"

definition wireServer ::
  "'cf viper_lib \<Rightarrow> ('r, 'k, 'p, 'c, 'q) pki_lib \<Rightarrow> 'v chisel_lib \<Rightarrow> (fs_call \<Rightarrow> go_error option) \<Rightarrow> gostring \<times> gostring \<Rightarrow> nat \<Rightarrow> int \<Rightarrow>
     gostring \<Rightarrow> 'cf \<Rightarrow> fs \<Rightarrow> 'r \<Rightarrow> ('v, 'k, 'c, 'r, 'sc) wired_server res \<times> fs list \<times> 'r" where
  "wireServer V L C fault rnds part now version conf f r =
     (case provideCA V L fault rnds part now conf f r of
        (Inl e, gs, r1) \<Rightarrow> (Inl e, gs, r1)
      | (Inr ca, gs, r1) \<Rightarrow>
          (let service = NewService ca in
           case ProvideAgentManifestConfig V L conf ca of
             Inl e \<Rightarrow> (Inl e, gs, r1)
           | Inr cfg \<Rightarrow>
               (case NewFleetUseCase (chisel_provider L C now) version cfg RenderAgentManifest of
                  Inl e \<Rightarrow> (Inl e, gs, r1)
                | Inr uc \<Rightarrow>
                    (Inr \<lparr>ws_service = service, ws_fleet = uc, ws_cache = ProvideDiscoveryCache, ws_sessions = NewSessionStore,
                          ws_background = ProvideBackgroundListeners\<rparr>, gs, r1))))"

text \<open>\<^verbatim>\<open>bootstrap.New\<close>: the results of creating the two clients.\<close>

definition bootstrap_New :: "('rc \<Rightarrow> unit res) \<Rightarrow> ('rc \<Rightarrow> unit res) \<Rightarrow> 'rc \<Rightarrow> unit res" where
  "bootstrap_New new_dynamic new_discovery cfg =
     (case new_dynamic cfg of
        Inl e \<Rightarrow> Inl (Wrap ''create dynamic client'' e)
      | Inr _ \<Rightarrow> (case new_discovery cfg of Inl e \<Rightarrow> Inl (Wrap ''create discovery client'' e) | Inr _ \<Rightarrow> Inr ()))"

record 'rc wired_agent =
  wa_cfg :: 'rc
  wa_tunnel :: fleetRegistrar
  wa_version :: gostring
  wa_updater :: updater

definition wireAgent ::
  "'rc res \<Rightarrow> 'rc res \<Rightarrow> gostring res \<Rightarrow> ('rc \<Rightarrow> unit res) \<Rightarrow> ('rc \<Rightarrow> unit res) \<Rightarrow> gostring \<Rightarrow> 'rc wired_agent res" where
  "wireAgent in_cluster kubeconfig hostname new_dynamic new_discovery version =
     (case ProvideInClusterConfig in_cluster kubeconfig of
        Inl e \<Rightarrow> Inl e
      | Inr restConfig \<Rightarrow>
          (case NewFleetRegistrar hostname version of
             Inl e \<Rightarrow> Inl e
           | Inr tunnel \<Rightarrow>
               (case bootstrap_New new_dynamic new_discovery restConfig of
                  Inl e \<Rightarrow> Inl e
                | Inr _ \<Rightarrow>
                    Inr \<lparr>wa_cfg = restConfig, wa_tunnel = tunnel, wa_version = version,
                         wa_updater = \<lparr>up_client = False, up_requests = []\<rparr>\<rparr>)))"

section \<open>Commands\<close>

text \<open>Each command has a flag set of its own and shares the configuration; \<^const>\<open>None\<close> when a flag is
  defined twice.\<close>

definition newCmd :: "'v viper_lib \<Rightarrow> 'v \<Rightarrow> (flag_set \<times> flag_set \<times> 'v) res option" where
  "newCmd V conf =
     (case BindFlags V ServerOptions ([], conf) of
        None \<Rightarrow> None
      | Some (Inl e, _) \<Rightarrow> Some (Inl e)
      | Some (Inr _, server_flags, conf1) \<Rightarrow>
          (case BindFlags V AgentOptions ([], conf1) of
             None \<Rightarrow> None
           | Some (Inl e, _) \<Rightarrow> Some (Inl e)
           | Some (Inr _, agent_flags, conf2) \<Rightarrow> Some (Inr (server_flags, agent_flags, conf2))))"

definition wireCmd :: "'v viper_lib \<Rightarrow> (flag_set \<times> flag_set \<times> 'v) res option" where
  "wireCmd V = (case config_New V of Inl e \<Rightarrow> Some (Inl e) | Inr conf \<Rightarrow> newCmd V conf)"

text \<open>\<open>execute\<close> is the execution of the root command.\<close>

definition main_run :: "'v viper_lib \<Rightarrow> (flag_set \<times> flag_set \<times> 'v \<Rightarrow> unit res) \<Rightarrow> unit res option" where
  "main_run V execute =
     (case wireCmd V of
        None \<Rightarrow> None
      | Some (Inl e) \<Rightarrow> Some (Inl (Wrap ''failed to initialize application'' e))
      | Some (Inr root) \<Rightarrow> Some (execute root))"

text \<open>The body of the server command: \<open>srv_run\<close> is \<^verbatim>\<open>srv.Run\<close>.\<close>

definition server_command_run :: "'v viper_lib \<Rightarrow> 'v \<Rightarrow> 'srv res \<Rightarrow> ('srv \<Rightarrow> server_Config \<Rightarrow> unit res) \<Rightarrow> unit res" where
  "server_command_run V conf newServer srv_run =
     (case newServer of
        Inl e \<Rightarrow> Inl (Wrap ''failed to initialize server'' e)
      | Inr srv \<Rightarrow> srv_run srv (server_command_config V conf))"

definition agent_command_run :: "'v viper_lib \<Rightarrow> 'v \<Rightarrow> 'agt res \<Rightarrow> ('agt \<Rightarrow> agent_Config \<Rightarrow> unit res) \<Rightarrow> unit res" where
  "agent_command_run V conf newAgent agt_run =
     (case newAgent of
        Inl e \<Rightarrow> Inl (Wrap ''failed to initialize agent'' e)
      | Inr agt \<Rightarrow> agt_run agt (agent_command_config V conf))"

section \<open>Lemmas\<close>

lemma wireServer_Inr:
  assumes "wireServer V L C fault rnds part now version conf f r = (Inr s, gs, r1)"
  obtains ca cfg where "ProvideCA L fault rnds part now (ServerTunnelCADir V conf) f r = (Inr ca, gs, r1)"
    "ProvideAgentManifestConfig V L conf ca = Inr cfg" "ws_service s = NewService ca"
    "NewFleetUseCase (chisel_provider L C now) version cfg RenderAgentManifest = Inr (ws_fleet s)"
  using assms by (auto simp: wireServer_def provideCA_def Let_def split: prod.splits sum.splits)

text \<open>A fleet use case depends on its tunnel provider only through the tunnel.\<close>

lemma NewFleetUseCase_provider:
  assumes "NewFleetUseCase tp version cfg renderer = Inr uc"
  obtains uc' where "NewFleetUseCase tp' version cfg renderer = Inr uc'" "fu_tokenIssuer uc' = fu_tokenIssuer uc"
    "GenerateAgentManifest uc' = GenerateAgentManifest uc" "fu_manifestCfg uc = cfg"
proof -
  obtain issuer where u: "mcfg_ServerURL cfg \<noteq> []" "mcfg_TunnelURL cfg \<noteq> []" "NewManifestTokenIssuer (mcfg_HMACKey cfg) = Inr issuer"
      "uc = \<lparr>fu_tunnel = tp, fu_version = version, fu_manifestCfg = cfg, fu_renderer = renderer, fu_tokenIssuer = issuer\<rparr>"
    using assms by (auto simp: NewFleetUseCase_def split: if_splits sum.splits)
  define uc' where "uc' = \<lparr>fu_tunnel = tp', fu_version = version, fu_manifestCfg = cfg, fu_renderer = renderer, fu_tokenIssuer = issuer\<rparr>"
  have "GenerateAgentManifest uc' = GenerateAgentManifest uc"
    by (intro ext) (simp add: GenerateAgentManifest_def u(4) uc'_def split: sum.splits)
  moreover have "NewFleetUseCase tp' version cfg renderer = Inr uc'" using u(1-3) by (simp add: NewFleetUseCase_def uc'_def)
  ultimately show thesis using that u(4) by (simp add: uc'_def)
qed

lemma wireServer_restart:
  fixes s1 :: "('v, 'k, 'c, 'r, 'sc) wired_server"
  assumes "pki_laws L" "gget f (ServerTunnelCADir V conf, ''ca-key.pem'') = None"
    and "\<forall>p. fault (ReadFile p) = None" "\<forall>p. fault' (ReadFile p) = None"
    and "wireServer V L C fault rnds part now version conf f r = (Inr s1, gs, r1)"
  obtains s2 :: "('v, 'k, 'c, 'r, 'sc) wired_server" where "wireServer V L C fault' rnds' part' now' version conf (last_fs f gs) r' = (Inr s2, [], r')"
    "ws_service s2 = ws_service s1" "fu_tokenIssuer (ws_fleet s2) = fu_tokenIssuer (ws_fleet s1)"
    "GenerateAgentManifest (ws_fleet s2) = GenerateAgentManifest (ws_fleet s1)"
    "mcfg_ServerURL (fu_manifestCfg (ws_fleet s1)) = ServerExternalURL V conf"
proof (rule wireServer_Inr [OF assms(5)])
  fix ca cfg
  assume ca: "ProvideCA L fault rnds part now (ServerTunnelCADir V conf) f r = (Inr ca, gs, r1)"
    and cfg: "ProvideAgentManifestConfig V L conf ca = Inr cfg" and svc: "ws_service s1 = NewService ca"
    and uc: "NewFleetUseCase (chisel_provider L C now) version cfg RenderAgentManifest = Inr (ws_fleet s1)"
  have again: "ProvideCA L fault' rnds' part' now' (ServerTunnelCADir V conf) (last_fs f gs) r' = (Inr ca, [], r')"
    by (rule ProvideCA_restart [OF assms(1-4) ca])
  obtain uc' where uc': "NewFleetUseCase (chisel_provider L C now') version cfg RenderAgentManifest = Inr uc'"
      "fu_tokenIssuer uc' = fu_tokenIssuer (ws_fleet s1)" "GenerateAgentManifest uc' = GenerateAgentManifest (ws_fleet s1)"
      "fu_manifestCfg (ws_fleet s1) = cfg"
    by (rule NewFleetUseCase_provider [OF uc])
  have "mcfg_ServerURL cfg = ServerExternalURL V conf" using cfg by (auto simp: ProvideAgentManifestConfig_def split: sum.splits)
  then show thesis using that again cfg svc uc' by (simp add: wireServer_def provideCA_def Let_def)
qed

text \<open>Both commands bind their flags without an error.\<close>

lemma newCmd_binds:
  assumes "viper_source_laws V src fl getenv"
  shows "\<exists>server_flags agent_flags conf'. newCmd V conf = Some (Inr (server_flags, agent_flags, conf'))"
proof -
  have d: "distinct (map op_Key ServerOptions)" "distinct (map op_Key AgentOptions)"
      "list_all (\<lambda>opt. op_Default opt \<noteq> COther) ServerOptions" "list_all (\<lambda>opt. op_Default opt \<noteq> COther) AgentOptions"
    using options_distinct(3,4) by auto
  obtain fs1 v1 where 1: "BindFlags V ServerOptions ([], conf) = Some (Inr (), fs1, v1)"
    using BindFlags_ok [OF assms options_distinct(1) d(3) _ d(1), of "[]" conf] by auto
  obtain fs2 v2 where "BindFlags V AgentOptions ([], v1) = Some (Inr (), fs2, v2)"
    using BindFlags_ok [OF assms options_distinct(2) d(4) _ d(2), of "[]" v1] by auto
  then show ?thesis using 1 by (simp add: newCmd_def)
qed

section \<open>Properties\<close>

text \<open>Claim C7. Manifest URLs survive a restart: when a server that generated its authority is started again on the same
  directory with the same configuration, the start succeeds and writes nothing, the authority is the same, and a plain
  GET of a manifest URL issued before the restart, without any credentials, is answered by the new server
  with the manifest the user was given, for one hour after it was issued (and from five minutes
  earlier, for skewed clocks), and with 401 at any other time.\<close>

theorem manifest_url_survives_restart:
  fixes s1 :: "('v, 'k, 'c, 'r, 'sc) wired_server"
  assumes "pki_laws L" "gget f (ServerTunnelCADir V conf, ''ca-key.pem'') = None"
    and "\<forall>p. fault (ReadFile p) = None" "\<forall>p. fault' (ReadFile p) = None"
    and "wireServer V L C fault rnds part now version conf f r = (Inr s1, gs, r1)"
    and "GetAgentManifest (ws_fleet s1) t ctx cluster = Inr (manifest, url)" "ctx_user ctx = Some u" "to_valid (ui_Subject u) = ui_Subject u"
    and "\<bar>sint t\<bar> < 2 ^ 61" "\<bar>sint t'\<bar> < 2 ^ 61"
    and "authn_laws A" "ops_laws Ops" "rq_method rq = ''GET''" "rq_path rq = rq_escaped rq"
    and "url = trim_right_char CHR ''/'' (ServerExternalURL V conf) @ rq_escaped rq"
    and "\<forall>os next rc w. cors os next rq rc w = next rq rc w"
  shows "\<exists>s2 :: ('v, 'k, 'c, 'r, 'sc) wired_server. wireServer V L C fault' rnds' part' now' version conf (last_fs f gs) r' = (Inr s2, [], r') \<and> ws_service s2 = ws_service s1 \<and>
    (\<forall>hs mux h. hd_manifest hs = (\<lambda>token rq rc w. (raw (handleRawManifest (ws_fleet s2) t' token), w)) \<and>
       server_Mount Ops H hs = Inr mux \<and> NewServer A cors listen m0 (server_options address origins oidc (Inr mux)) = Inr h \<longrightarrow>
       h rq (c, i) w =
         (raw (if sint t - 300 \<le> sint t' \<and> sint t' \<le> sint t + 3600
               then \<lparr>resp_status = 200, resp_content_type = ''text/yaml; charset=utf-8'', resp_body = manifest\<rparr>
               else http_error ''invalid or expired token'' 401), w))"
proof (rule wireServer_restart [OF assms(1-5)])
  fix s2 :: "('v, 'k, 'c, 'r, 'sc) wired_server"
  assume s2: "wireServer V L C fault' rnds' part' now' version conf (last_fs f gs) r' = (Inr s2, [], r')"
    "ws_service s2 = ws_service s1" "fu_tokenIssuer (ws_fleet s2) = fu_tokenIssuer (ws_fleet s1)"
    "GenerateAgentManifest (ws_fleet s2) = GenerateAgentManifest (ws_fleet s1)"
    "mcfg_ServerURL (fu_manifestCfg (ws_fleet s1)) = ServerExternalURL V conf"
  let ?token = "Issue (fu_tokenIssuer (ws_fleet s1)) t cluster (ui_Subject u)"
  note served = manifest_url_served [OF assms(6-10) s2(3,4), unfolded s2(5)]
  have path: "rq_escaped rq = ''/fleet/manifest/'' @ ?token" using served assms(15) by simp
  have "h rq (c, i) w = (raw (handleRawManifest (ws_fleet s2) t' ?token), w)"
    if hs: "hd_manifest hs = (\<lambda>token rq rc w. (raw (handleRawManifest (ws_fleet s2) t' token), w))"
      and m: "server_Mount Ops H hs = Inr mux" and n: "NewServer A cors listen m0 (server_options address origins oidc (Inr mux)) = Inr h"
    for hs mux h
  proof -
    have "isPublicPath (server_config address origins oidc (Inr mux)) (rq_path rq)"
      using path assms(14) by (simp add: isPublicPath_def server_config_def public_prefixes_def has_prefix_iff)
    then have "h rq (c, i) w = mux rq (c, i) w"
      using public_request [OF assms(11) n] assms(16) by blast
    also have "\<dots> = hd_manifest hs ?token rq (c, i) w"
      using manifest_routed [OF assms(12) m assms(13) path] token_segment token_no_dots by blast
    finally show ?thesis by (simp add: hs)
  qed
  then show ?thesis using s2(1,2) served by (intro exI [of _ s2]) auto
qed

section \<open>Witnesses\<close>

definition wired_conf :: sources where
  "wired_conf = \<lparr>sr_default = (\<lambda>_. None),
     sr_file = (\<lambda>k. if k = keyServerTunnelCADir then Some (CStr ''d'') else Some (CStr ''https://s'')),
     sr_env = (\<lambda>_. None), sr_flag = (\<lambda>_. None)\<rparr>"

lemma wired_conf_values:
  "ServerTunnelCADir demo_viper wired_conf = ''d''" "ServerExternalURL demo_viper wired_conf = ''https://s''"
  "ServerExternalTunnelURL demo_viper wired_conf = ''https://s''"
  by (simp_all add: ServerTunnelCADir_def ServerExternalURL_def ServerExternalTunnelURL_def GetString_def demo_viper_def wired_conf_def
      or_else_def key_defs)

lemma wired_demo:
  "\<exists>s gs r1. wireServer demo_viper demo_lib demo_chisel no_fault (''1'', ''2'') 0 0 ''v1'' wired_conf [] 7 =
     (Inr (s :: ((gostring, gostring \<times> gostring) gomap, nat, bool \<times> nat, nat, unit) wired_server), gs, r1) \<and> fu_renderer (ws_fleet s) = RenderAgentManifest"
proof -
  obtain ca gs r1 where "ProvideCA demo_lib no_fault (''1'', ''2'') 0 0 ''d'' [] 7 = (Inr ca, gs, r1)" using demo_ProvideCA by blast
  moreover obtain hmac where "DeriveHMACKey demo_lib ca ''manifest-token'' = Inr hmac" "length hmac = 32"
    by (simp add: DeriveHMACKey_def demo_lib_def)
  moreover from this(2) have "hmac \<noteq> []" by auto
  ultimately show ?thesis
    by (simp add: wireServer_def provideCA_def wired_conf_values ProvideAgentManifestConfig_def NewFleetUseCase_def NewManifestTokenIssuer_def Let_def)
qed

theorem manifest_url_survives_restart_witness:
  "\<exists>s1 gs r1 manifest url s2 hs mux h path.
     wireServer demo_viper demo_lib demo_chisel no_fault (''1'', ''2'') 0 0 ''v1'' wired_conf [] 7 =
       (Inr (s1 :: ((gostring, gostring \<times> gostring) gomap, nat, bool \<times> nat, nat, unit) wired_server), gs, r1) \<and>
     GetAgentManifest (ws_fleet s1) 1000000 \<lparr>ctx_user = Some demo_user\<rparr> ''prod'' = Inr (manifest, url) \<and> url = ''https://s'' @ path \<and>
     wireServer demo_viper demo_lib demo_chisel no_fault (''3'', ''4'') 0 50 ''v1'' wired_conf (last_fs [] gs) 9 =
       (Inr (s2 :: ((gostring, gostring \<times> gostring) gomap, nat, bool \<times> nat, nat, unit) wired_server), [], 9) \<and>
     hd_manifest hs = (\<lambda>token rq rc w. (resp_body (handleRawManifest (ws_fleet s2) 1003600 token), w)) \<and>
     server_Mount demo_ops demo_http_lib hs = Inr mux \<and>
     NewServer text_authn (\<lambda>_ next. next) (\<lambda>_. None) demo_routes (server_options '':1'' [''https://ui''] (oidc_authenticate demo_verifier) (Inr mux)) = Inr h \<and>
     h (get_request path path) (\<lparr>ctx_user = None\<rparr>, None) 0 = (manifest, 0)"
proof -
  let ?ctx = "\<lparr>ctx_user = Some demo_user\<rparr>"
  obtain s1 :: "((gostring, gostring \<times> gostring) gomap, nat, bool \<times> nat, nat, unit) wired_server" and gs r1 where
    s1: "wireServer demo_viper demo_lib demo_chisel no_fault (''1'', ''2'') 0 0 ''v1'' wired_conf [] 7 = (Inr s1, gs, r1)"
      "fu_renderer (ws_fleet s1) = RenderAgentManifest"
    using wired_demo by blast
  have "dns_label ''prod''" by code_simp
  then have "ValidateClusterName ''prod'' = Inr ()" by (simp add: ValidateClusterName_ok)
  then obtain manifest url where get: "GetAgentManifest (ws_fleet s1) 1000000 ?ctx ''prod'' = Inr (manifest, url)"
    by (auto simp: GetAgentManifest_def UserInfoFromContext_def GenerateAgentManifest_def IssueManifestURL_def s1(2) demo_user_def RenderAgentManifest_def)
  have user: "to_valid (ui_Subject demo_user) = ui_Subject demo_user"
    unfolding demo_user_def by (rule to_valid_ascii) (auto simp: ord_of_def)
  have key: "gget [] (ServerTunnelCADir demo_viper wired_conf, ''ca-key.pem'') = None" by simp
  have faults: "\<forall>p. no_fault (ReadFile p) = None" by (simp add: no_fault_def)
  have A: "authn_laws text_authn" by (auto simp: authn_laws_def text_authn_def split: sum.split)
  have Ops: "ops_laws demo_ops" by (simp add: ops_laws_def demo_ops_def)
  obtain s' :: "((gostring, gostring \<times> gostring) gomap, nat, bool \<times> nat, nat, unit) wired_server" where
    "mcfg_ServerURL (fu_manifestCfg (ws_fleet s1)) = ServerExternalURL demo_viper wired_conf"
    using wireServer_restart [OF demo_lib_laws key faults faults s1(1)] by metis
  then have "trim_right_char CHR ''/'' (mcfg_ServerURL (fu_manifestCfg (ws_fleet s1))) = ''https://s''"
    by (simp add: wired_conf_values trim_right_char_def)
  then obtain path where path: "url = ''https://s'' @ path"
    using get by (auto simp: GetAgentManifest_def UserInfoFromContext_def IssueManifestURL_def split: sum.splits)
  have rq: "rq_method (get_request path path) = ''GET''" "rq_path (get_request path path) = rq_escaped (get_request path path)"
    "url = trim_right_char CHR ''/'' (ServerExternalURL demo_viper wired_conf) @ rq_escaped (get_request path path)"
    by (simp_all add: get_request_def wired_conf_values trim_right_char_def path)
  have time: "\<bar>sint (1000000 :: int64)\<bar> < 2 ^ 61" "\<bar>sint (1003600 :: int64)\<bar> < 2 ^ 61"
    "sint (1000000 :: int64) - 300 \<le> sint (1003600 :: int64)" "sint (1003600 :: int64) \<le> sint (1000000 :: int64) + 3600"
    by simp_all
  have cu: "ctx_user ?ctx = Some demo_user" by simp
  note again = manifest_url_survives_restart [OF demo_lib_laws key faults faults s1(1) get cu user time(1,2) A Ops rq,
      where cors = "\<lambda>_ next. next" and raw = resp_body and c = "\<lparr>ctx_user = None\<rparr>" and i = None and w = 0 and H = demo_http_lib and
        rnds' = "(''3'', ''4'')" and part' = 0 and now' = 50 and r' = 9 and listen = "\<lambda>_. None" and address = "'':1''" and
        origins = "[''https://ui'']" and oidc = "oidc_authenticate demo_verifier" and ?m0.0 = demo_routes, simplified]
  obtain s2 :: "((gostring, gostring \<times> gostring) gomap, nat, bool \<times> nat, nat, unit) wired_server" where
    s2: "wireServer demo_viper demo_lib demo_chisel no_fault (''3'', ''4'') 0 50 ''v1'' wired_conf (last_fs [] gs) 9 = (Inr s2, [], 9)"
      "\<forall>hs mux h. hd_manifest hs = (\<lambda>token rq rc w. (resp_body (handleRawManifest (ws_fleet s2) 1003600 token), w)) \<and>
        server_Mount demo_ops demo_http_lib hs = Inr mux \<and>
        NewServer text_authn (\<lambda>_ next. next) (\<lambda>_. None) demo_routes (server_options '':1'' [''https://ui''] (oidc_authenticate demo_verifier) (Inr mux)) = Inr h \<longrightarrow>
        h (get_request path path) (\<lparr>ctx_user = None\<rparr>, None) 0 = (manifest, 0)"
    using again time by (auto simp del: split_paired_All)
  define hs where "hs = demo_handler\<lparr>hd_manifest := \<lambda>token rq rc w. (resp_body (handleRawManifest (ws_fleet s2) 1003600 token), w)\<rparr>"
  obtain mux where mux: "server_Mount demo_ops demo_http_lib hs = Inr mux"
    by (simp add: server_Mount_def server_routes_def registerOpsHandlers_def demo_ops_def)
  obtain h where h: "NewServer text_authn (\<lambda>_ next. next) (\<lambda>_. None) demo_routes
      (server_options '':1'' [''https://ui''] (oidc_authenticate demo_verifier) (Inr mux)) = Inr h"
    unfolding NewServer_def server_options_config Let_def by (simp add: buildHandler_def server_config_def)
  have hsm: "hd_manifest hs = (\<lambda>token rq rc w. (resp_body (handleRawManifest (ws_fleet s2) 1003600 token), w))" by (simp add: hs_def)
  have "h (get_request path path) (\<lparr>ctx_user = None\<rparr>, None) 0 = (manifest, 0)" using s2(2) hsm mux h by blast
  then show ?thesis using s1(1) get path s2(1) hsm mux h by - ((rule exI)+, (rule conjI, assumption)+, assumption)
qed

end
