(* ===== verification/Forwarding.thy ===== *)
theory Forwarding
  imports Runtime Resource_Handler
begin

text \<open>
  The loops of the streaming methods: \<^verbatim>\<open>ExecuteTTY\<close>, \<^verbatim>\<open>PodLog\<close> and \<^verbatim>\<open>PortForward\<close> (\<^verbatim>\<open>handler/runtime.go\<close>) and \<^verbatim>\<open>Watch\<close>
  (\<^verbatim>\<open>handler/resource.go\<close>). Each receives events one by one, sends a message for some of them, ignores others, and returns on a
  failed send, on an event that ends it or at the end of its input. The locale states this once; it is
  interpreted on the three loops, and the runs of the goroutines that feed them are traced back to them.
\<close>

datatype 'm event_kind = Sends 'm | Skips | Stops | Other

text \<open>The messages of a list of events.\<close>

fun messages :: "('e \<Rightarrow> 'm event_kind) \<Rightarrow> 'e list \<Rightarrow> 'm list" where
  "messages kind [] = []"
| "messages kind (e # es) = (case kind e of Sends m \<Rightarrow> m # messages kind es | _ \<Rightarrow> messages kind es)"

definition goes_on :: "('e \<Rightarrow> 'm event_kind) \<Rightarrow> 'e \<Rightarrow> bool" where
  "goes_on kind e \<longleftrightarrow> (case kind e of Sends _ \<Rightarrow> True | Skips \<Rightarrow> True | _ \<Rightarrow> False)"

text \<open>A client that takes so many messages and refuses the next.\<close>

definition refuses_after :: "nat \<Rightarrow> go_error \<Rightarrow> 'm list \<Rightarrow> go_error option" where
  "refuses_after n e ms = (if length ms < n then None else Some e)"

lemma messages_append [simp]: "messages kind (es @ es') = messages kind es @ messages kind es'"
  by (induction es) (auto split: event_kind.splits)

locale forwarding_loop =
  fixes loop :: "('m list \<Rightarrow> go_error option) \<Rightarrow> 'e list \<Rightarrow> 'm list \<Rightarrow> 'r"
    and kind :: "'e \<Rightarrow> 'm event_kind"
    and stopped :: "'e \<Rightarrow> 'm list \<Rightarrow> 'r" and failed :: "go_error \<Rightarrow> 'm list \<Rightarrow> 'r" and closed :: "'m list \<Rightarrow> 'r"
  assumes skips: "kind e = Skips \<Longrightarrow> loop sendf (e # es) ms = loop sendf es ms"
    and sends: "kind e = Sends m \<Longrightarrow> sendf ms = None \<Longrightarrow> loop sendf (e # es) ms = loop sendf es (ms @ [m])"
    and fails: "kind e = Sends m \<Longrightarrow> sendf ms = Some err \<Longrightarrow> loop sendf (e # es) ms = failed err ms"
    and stops: "kind e = Stops \<Longrightarrow> loop sendf (e # es) ms = stopped e ms"
    and closes: "loop sendf [] ms = closed ms"
begin

lemma goes_through:
  assumes "list_all (goes_on kind) es" "\<And>ls. length ls < length ms + length (messages kind es) \<Longrightarrow> sendf ls = None"
  shows "loop sendf (es @ es') ms = loop sendf es' (ms @ messages kind es)"
  using assms
proof (induction es arbitrary: ms)
  case (Cons e es)
  show ?case
  proof (cases "kind e")
    case (Sends m)
    then have "sendf ms = None" using Cons.prems(2) by simp
    moreover have "loop sendf (es @ es') (ms @ [m]) = loop sendf es' ((ms @ [m]) @ messages kind es)"
      by (rule Cons.IH) (use Cons.prems Sends in auto)
    ultimately show ?thesis using Sends by (simp add: sends)
  qed (use Cons in \<open>auto simp: skips goes_on_def\<close>)
qed simp

lemma ends_by_event:
  assumes "list_all (goes_on kind) es" "kind e = Stops"
  shows "loop (\<lambda>_. None) (es @ [e]) ms = stopped e (ms @ messages kind es)"
  using goes_through [OF assms(1), of ms "\<lambda>_. None" "[e]"] assms(2) by (simp add: stops)

lemma ends_closed:
  assumes "list_all (goes_on kind) es"
  shows "loop (\<lambda>_. None) es ms = closed (ms @ messages kind es)"
  using goes_through [OF assms, of ms "\<lambda>_. None" "[]"] by (simp add: closes)

lemma ends_by_send:
  assumes "list_all (goes_on kind) es" "kind e = Sends m"
  shows "loop (refuses_after (length ms + length (messages kind es)) err) (es @ [e]) ms = failed err (ms @ messages kind es)"
  using goes_through [OF assms(1), of ms "refuses_after (length ms + length (messages kind es)) err" "[e]"] assms(2)
  by (simp add: refuses_after_def fails)

end

section \<open>The loops\<close>

fun chunk_kind :: "exec_event \<Rightarrow> exec_msg event_kind" where
  "chunk_kind (ExChunk out err) = Sends (MsgOutput out err)"
| "chunk_kind ExCtxDone = Stops"

interpretation terminal_loop: forwarding_loop forward_chunks chunk_kind "\<lambda>_ ms. (Inr (), ms)" "\<lambda>e ms. (Inl e, ms)" "\<lambda>ms. (Inr (), ms)"
proof unfold_locales
  fix e m sendf and ms :: "exec_msg list" and es err
  show "chunk_kind e = Sends m \<Longrightarrow> sendf ms = None \<Longrightarrow> forward_chunks sendf (e # es) ms = forward_chunks sendf es (ms @ [m])" by (cases e) auto
  show "chunk_kind e = Sends m \<Longrightarrow> sendf ms = Some err \<Longrightarrow> forward_chunks sendf (e # es) ms = (Inl err, ms)" by (cases e) auto
  show "chunk_kind e = Skips \<Longrightarrow> forward_chunks sendf (e # es) ms = forward_chunks sendf es ms" by (cases e) auto
  show "chunk_kind e = Stops \<Longrightarrow> forward_chunks sendf (e # es) ms = (Inr (), ms)" by (cases e) auto
qed simp

definition read_kind :: "bytes \<times> go_error option \<Rightarrow> bytes event_kind" where
  "read_kind r = (case r of (data, None) \<Rightarrow> if data = [] then Skips else Sends data | (data, Some _) \<Rightarrow> if data = [] then Stops else Other)"

definition read_result :: "bytes \<times> go_error option \<Rightarrow> unit res" where
  "read_result r = (case snd r of Some e \<Rightarrow> if errors_Is e io_EOF then Inr () else Inl (domainErrorToConnectError e) | None \<Rightarrow> Inr ())"

interpretation copy_loop: forwarding_loop copy_stream read_kind "\<lambda>r ms. Some (read_result r, ms)" "\<lambda>e ms. Some (Inl e, ms)" "\<lambda>_. None"
  by unfold_locales (auto simp: read_kind_def read_result_def Let_def split: prod.splits option.splits if_splits)

definition input_kind :: "('st, 'sc) proto_lib \<Rightarrow> watch_input \<Rightarrow> 'st pb_WatchEvent event_kind" where
  "input_kind P i = (case i of WCtxDone \<Rightarrow> Stops | WEvent ev \<Rightarrow> (case processEvent P ev of Inl _ \<Rightarrow> Skips | Inr m \<Rightarrow> Sends m))"

interpretation watch_loop: forwarding_loop "watch_loop P" "input_kind P" "\<lambda>_ ms. (Inr (), ms)" "\<lambda>e ms. (Inl e, ms)" "\<lambda>ms. (Inl watch_closed, ms)" for P
  by unfold_locales (auto simp: input_kind_def split: watch_input.splits sum.splits)

end
