(* ===== verification/Port_Forward.thy ===== *)
theory Port_Forward
  imports Step_Systems Kubernetes_Client Forwarding
begin

text \<open>
  A port-forward session as it runs: the goroutines of \<^verbatim>\<open>runtimeRepo.PortForward\<close>
  (\<^verbatim>\<open>kubernetes/runtime_repo.go\<close>), the goroutine of \<^verbatim>\<open>StartPortForward\<close> that waits for it, \<^verbatim>\<open>CleanupPortForward\<close> and the
  reaper (\<^verbatim>\<open>core/runtime.go\<close>, \<^verbatim>\<open>core/session.go\<close>), and the loop of the handler (\<^verbatim>\<open>handler/runtime.go\<close>), joined by
  the two pipes and the channel of results. It starts when the streams are set up and the client
  has got its session identifier. The relation is labelled with what the client and the pod do.
\<close>

section \<open>State\<close>

text \<open>A direction of the copy: in \<^verbatim>\<open>Read\<close> of its source, in \<^verbatim>\<open>Write\<close> of its target, about to report, ended.\<close>

datatype copier = CReading | CWriting bytes | CReporting "go_error option" | CEnded

datatype err_reader = ErReading | ErClosing | ErEnded

text \<open>The function itself: in the \<^verbatim>\<open>select\<close> with so many results to come and the first error so far, in
  \<^verbatim>\<open>wg.Wait\<close>, returned; then the goroutine around it: result sent, output pipe closed, input pipe closed.\<close>

datatype forward_pc = PcSelect nat "go_error option" | PcWait "go_error option" | PcReturned "go_error option"
  | PcSentDone | PcClosedOut | PcFinished

datatype pf_handler = HReading | HSending bytes | HCleanup "go_error option" | HReturned "go_error option"

text \<open>\<open>px_conn\<close> and \<open>px_data\<close>: the stream connection and the data stream are open; \<open>px_arrived\<close>: data of the pod not
  yet read; \<open>px_inW\<close>, \<open>px_inR\<close>, \<open>px_outW\<close>: the ends of the pipes are open; \<open>px_stored\<close>: the session is in the
  store. The last six fields record what happened: the events the \<^verbatim>\<open>select\<close> saw, the data at both
  ends of both directions, and what the handler's reads of the output pipe gave.\<close>

record port_forward =
  px_ctx :: "go_error option"
  px_conn :: bool
  px_data :: bool
  px_arrived :: "bytes list"
  px_eof :: bool
  px_kubelet :: bool
  px_in :: copier
  px_out :: copier
  px_err :: err_reader
  px_errCh :: "go_error option list"
  px_main :: forward_pc
  px_handler :: pf_handler
  px_inW :: bool
  px_inR :: bool
  px_outW :: bool
  px_stored :: bool
  px_Done :: "go_error option list"
  px_seen :: "pf_event list"
  px_from_pod :: "bytes list"
  px_to_client :: "bytes list"
  px_from_client :: "bytes list"
  px_to_pod :: "bytes list"
  px_reads :: "(bytes \<times> go_error option) list"

definition pf_begin :: port_forward where
  "pf_begin = \<lparr>px_ctx = None, px_conn = True, px_data = True, px_arrived = [], px_eof = False, px_kubelet = False,
     px_in = CReading, px_out = CReading, px_err = ErReading, px_errCh = [], px_main = PcSelect 2 None, px_handler = HReading,
     px_inW = True, px_inR = True, px_outW = True, px_stored = True, px_Done = [], px_seen = [],
     px_from_pod = [], px_to_client = [], px_from_client = [], px_to_pod = [], px_reads = []\<rparr>"

section \<open>Steps\<close>

datatype pf_label = ClientWrites bytes | ClientLeaves | PodSends bytes | PodCloses | KubeletErrs | Inside

definition context_canceled :: go_error where
  "context_canceled = Plain ''context canceled''"

text \<open>\<^verbatim>\<open>sess.Cancel()\<close> and \<^verbatim>\<open>sess.Writer.Close()\<close> by whoever removed the session from the store.\<close>

definition end_session :: "port_forward \<Rightarrow> port_forward" where
  "end_session s = s\<lparr>px_stored := False, px_ctx := (case px_ctx s of None \<Rightarrow> Some context_canceled | Some e \<Rightarrow> Some e), px_inW := False\<rparr>"

definition select_result :: "nat \<Rightarrow> go_error option \<Rightarrow> go_error option \<Rightarrow> port_forward \<Rightarrow> port_forward" where
  "select_result n firstErr err s =
     (if err \<noteq> None \<and> firstErr = None then s\<lparr>px_main := PcSelect n err, px_conn := False\<rparr>
      else s\<lparr>px_main := PcSelect n firstErr\<rparr>)"

inductive pf_step :: "pf_label \<Rightarrow> port_forward \<Rightarrow> port_forward \<Rightarrow> bool" where
  pod_sends: "px_conn s \<Longrightarrow> \<not> px_eof s \<Longrightarrow> b \<noteq> [] \<Longrightarrow>
    pf_step (PodSends b) s (s\<lparr>px_arrived := px_arrived s @ [b], px_from_pod := px_from_pod s @ [b]\<rparr>)"
| pod_closes: "px_conn s \<Longrightarrow> pf_step PodCloses s (s\<lparr>px_eof := True\<rparr>)"
| kubelet_errs: "px_conn s \<Longrightarrow> pf_step KubeletErrs s (s\<lparr>px_kubelet := True\<rparr>)"
| client_leaves: "px_ctx s = None \<Longrightarrow> pf_step ClientLeaves s (s\<lparr>px_ctx := Some context_canceled\<rparr>)"
| in_read: "px_in s = CReading \<Longrightarrow> px_inW s \<Longrightarrow> px_inR s \<Longrightarrow> b \<noteq> [] \<Longrightarrow>
    pf_step (ClientWrites b) s (s\<lparr>px_in := CWriting b, px_from_client := px_from_client s @ [b]\<rparr>)"
| in_eof: "px_in s = CReading \<Longrightarrow> \<not> px_inW s \<Longrightarrow> pf_step Inside s (s\<lparr>px_in := CReporting None\<rparr>)"
| in_closed: "px_in s = CReading \<Longrightarrow> \<not> px_inR s \<Longrightarrow> pf_step Inside s (s\<lparr>px_in := CReporting (Some e)\<rparr>)"
| in_write: "px_in s = CWriting b \<Longrightarrow> px_conn s \<Longrightarrow> px_data s \<Longrightarrow>
    pf_step Inside s (s\<lparr>px_in := CReading, px_to_pod := px_to_pod s @ [b]\<rparr>)"
| in_write_fails: "px_in s = CWriting b \<Longrightarrow> pf_step Inside s (s\<lparr>px_in := CReporting (Some e)\<rparr>)"
| in_report: "px_in s = CReporting r \<Longrightarrow> pf_step Inside s (s\<lparr>px_in := CEnded, px_errCh := px_errCh s @ [r]\<rparr>)"
| out_read: "px_out s = CReading \<Longrightarrow> px_arrived s = b # bs \<Longrightarrow> pf_step Inside s (s\<lparr>px_out := CWriting b, px_arrived := bs\<rparr>)"
| out_eof: "px_out s = CReading \<Longrightarrow> px_arrived s = [] \<Longrightarrow> px_eof s \<Longrightarrow> pf_step Inside s (s\<lparr>px_out := CReporting None\<rparr>)"
| out_closed: "px_out s = CReading \<Longrightarrow> px_arrived s = [] \<Longrightarrow> \<not> px_conn s \<or> \<not> px_data s \<Longrightarrow> pf_step Inside s (s\<lparr>px_out := CReporting r\<rparr>)"
| out_write: "px_out s = CWriting b \<Longrightarrow> px_handler s = HReading \<Longrightarrow> px_outW s \<Longrightarrow>
    pf_step Inside s (s\<lparr>px_out := CReading, px_handler := HSending b, px_reads := px_reads s @ [(b, None)]\<rparr>)"
| out_report: "px_out s = CReporting r \<Longrightarrow> pf_step Inside s (s\<lparr>px_out := CEnded, px_errCh := px_errCh s @ [r]\<rparr>)"
| err_message: "px_err s = ErReading \<Longrightarrow> px_kubelet s \<Longrightarrow> pf_step Inside s (s\<lparr>px_err := ErClosing\<rparr>)"
| err_end: "px_err s = ErReading \<Longrightarrow> px_eof s \<or> \<not> px_conn s \<Longrightarrow> pf_step Inside s (s\<lparr>px_err := ErEnded\<rparr>)"
| err_close: "px_err s = ErClosing \<Longrightarrow> pf_step Inside s (s\<lparr>px_err := ErEnded, px_data := False\<rparr>)"
| select_ctx: "px_main s = PcSelect (Suc n) firstErr \<Longrightarrow> px_ctx s = Some e \<Longrightarrow>
    pf_step Inside s (s\<lparr>px_main := PcWait (Some e), px_conn := False, px_seen := px_seen s @ [PfCtxDone e]\<rparr>)"
| select_err: "px_main s = PcSelect (Suc n) firstErr \<Longrightarrow> px_errCh s = r # rs \<Longrightarrow>
    pf_step Inside s (select_result n firstErr r (s\<lparr>px_errCh := rs, px_seen := px_seen s @ [PfCopy r]\<rparr>))"
| select_end: "px_main s = PcSelect 0 firstErr \<Longrightarrow> pf_step Inside s (s\<lparr>px_main := PcWait firstErr\<rparr>)"
| wait_end: "px_main s = PcWait r \<Longrightarrow> px_in s = CEnded \<Longrightarrow> px_out s = CEnded \<Longrightarrow> px_err s = ErEnded \<Longrightarrow>
    pf_step Inside s (s\<lparr>px_main := PcReturned r, px_conn := False, px_data := False\<rparr>)"
| send_done: "px_main s = PcReturned r \<Longrightarrow> pf_step Inside s (s\<lparr>px_main := PcSentDone, px_Done := px_Done s @ [r]\<rparr>)"
| close_out: "px_main s = PcSentDone \<Longrightarrow> pf_step Inside s (s\<lparr>px_main := PcClosedOut, px_outW := False\<rparr>)"
| close_in: "px_main s = PcClosedOut \<Longrightarrow> pf_step Inside s (s\<lparr>px_main := PcFinished, px_inR := False\<rparr>)"
| h_sent: "px_handler s = HSending b \<Longrightarrow> pf_step Inside s (s\<lparr>px_handler := HReading, px_to_client := px_to_client s @ [b]\<rparr>)"
| h_send_fails: "px_handler s = HSending b \<Longrightarrow> pf_step Inside s (s\<lparr>px_handler := HCleanup (Some e)\<rparr>)"
| h_eof: "px_handler s = HReading \<Longrightarrow> \<not> px_outW s \<Longrightarrow> pf_step Inside s 
    (s\<lparr>px_handler := HCleanup None, px_reads := px_reads s @ [([], Some io_EOF)]\<rparr>)"
| h_cleanup: "px_handler s = HCleanup r \<Longrightarrow>
    pf_step Inside s ((if px_stored s then end_session s else s)\<lparr>px_handler := HReturned r\<rparr>)"
| reap: "px_stored s \<Longrightarrow> px_Done s = r # rs \<Longrightarrow> pf_step Inside s ((end_session s)\<lparr>px_Done := rs\<rparr>)"

abbreviation pf_reached :: "pf_label list \<Rightarrow> port_forward \<Rightarrow> bool" where
  "pf_reached \<equiv> run pf_step pf_begin"

section \<open>Invariant\<close>

text \<open>What the \<^verbatim>\<open>select\<close> has seen determines its state, as \<^const>\<open>pf_wait\<close> computes it.\<close>

definition loop_ok :: "port_forward \<Rightarrow> bool" where
  "loop_ok s =
     (case px_main s of
        PcSelect n firstErr \<Rightarrow> (\<exists>k. \<forall>evs. pf_wait 2 None 0 (px_seen s @ evs) = pf_wait n firstErr k evs)
      | PcWait r \<Rightarrow> (\<exists>k. pf_wait 2 None 0 (px_seen s) = Some (r, k))
      | PcReturned r \<Rightarrow> (\<exists>k. pf_wait 2 None 0 (px_seen s) = Some (r, k))
      | _ \<Rightarrow> True)"

definition ended :: "port_forward \<Rightarrow> bool" where
  "ended s \<longleftrightarrow> px_in s = CEnded \<and> px_out s = CEnded \<and> px_err s = ErEnded"

definition over :: "port_forward \<Rightarrow> bool" where
  "over s \<longleftrightarrow> (case px_main s of PcSelect _ _ \<Rightarrow> False | PcWait _ \<Rightarrow> False | _ \<Rightarrow> True)"

primrec in_flight :: "copier \<Rightarrow> bytes list" where
  "in_flight CReading = []"
| "in_flight (CWriting b) = [b]"
| "in_flight (CReporting r) = []"
| "in_flight CEnded = []"

primrec in_hand :: "pf_handler \<Rightarrow> bytes list" where
  "in_hand HReading = []"
| "in_hand (HSending b) = [b]"
| "in_hand (HCleanup r) = []"
| "in_hand (HReturned r) = []"

text \<open>Data of the pod is nowhere lost while the handler forwards it, and never reordered or repeated.\<close>

definition out_ok :: "port_forward \<Rightarrow> bool" where
  "out_ok s \<longleftrightarrow>
     (if px_handler s = HReading \<or> in_hand (px_handler s) \<noteq> []
      then px_from_pod s = px_to_client s @ in_hand (px_handler s) @ in_flight (px_out s) @ px_arrived s
      else \<exists>lost. px_from_pod s = px_to_client s @ lost)"

definition in_ok :: "port_forward \<Rightarrow> bool" where
  "in_ok s \<longleftrightarrow>
     (if px_in s = CReading \<or> in_flight (px_in s) \<noteq> [] then px_from_client s = px_to_pod s @ in_flight (px_in s)
      else \<exists>lost. px_from_client s = px_to_pod s @ lost)"

text \<open>A result was computed by the loop, after all goroutines ended.\<close>

definition done_ok :: "port_forward \<Rightarrow> bool" where
  "done_ok s \<longleftrightarrow> (over s \<longrightarrow> ended s) \<and> (px_Done s \<noteq> [] \<longrightarrow> over s) \<and> (\<forall>r \<in> set (px_Done s). \<exists>k. pf_wait 2 None 0 (px_seen s) = Some (r, k))"

definition ends_ok :: "port_forward \<Rightarrow> bool" where
  "ends_ok s \<longleftrightarrow> (px_stored s \<longrightarrow> px_inW s) \<and> (\<not> px_inR s \<longrightarrow> px_main s = PcFinished) \<and>
     (\<not> px_outW s \<longrightarrow> px_main s = PcClosedOut \<or> px_main s = PcFinished)"

definition pf_inv :: "port_forward \<Rightarrow> bool" where
  "pf_inv s \<longleftrightarrow> loop_ok s \<and> done_ok s \<and> ends_ok s \<and> out_ok s \<and> in_ok s"

lemma pf_wait_ctx: "\<exists>k. pf_wait (Suc n) firstErr k0 [PfCtxDone e] = Some (Some e, k)"
  by simp

lemma loop_ok_step:
  assumes "pf_step l s s'" "loop_ok s"
  shows "loop_ok s'"
  using assms
proof (cases rule: pf_step.cases)
  case (select_ctx n firstErr e)
  then obtain k where "\<forall>evs. pf_wait 2 None 0 (px_seen s @ evs) = pf_wait (Suc n) firstErr k evs"
    using assms(2) by (auto simp: loop_ok_def)
  from spec [OF this, of "[PfCtxDone e]"] show ?thesis using select_ctx by (simp add: loop_ok_def)
next
  case (select_err n firstErr r rs)
  then obtain k where k: "\<forall>evs. pf_wait 2 None 0 (px_seen s @ evs) = pf_wait (Suc n) firstErr k evs"
    using assms(2) by (auto simp: loop_ok_def)
  have "pf_wait 2 None 0 ((px_seen s @ [PfCopy r]) @ evs) = pf_wait (Suc n) firstErr k (PfCopy r # evs)" for evs
    using spec [OF k, of "PfCopy r # evs"] by simp
  then show ?thesis using select_err by (cases r) (auto simp: loop_ok_def select_result_def)
next
  case (select_end firstErr)
  then obtain k where "\<forall>evs. pf_wait 2 None 0 (px_seen s @ evs) = pf_wait 0 firstErr k evs"
    using assms(2) by (auto simp: loop_ok_def)
  from spec [OF this, of "[]"] show ?thesis using select_end by (simp add: loop_ok_def)
qed (auto simp: loop_ok_def end_session_def split: forward_pc.splits)

lemma done_ok_step:
  assumes "pf_step l s s'" "loop_ok s" "done_ok s"
  shows "done_ok s'"
  using assms
  by (cases rule: pf_step.cases)
    (auto simp: done_ok_def over_def ended_def loop_ok_def select_result_def end_session_def split: forward_pc.splits)

lemma ends_ok_step: "pf_step l s s' \<Longrightarrow> ends_ok s \<Longrightarrow> ends_ok s'"
  by (erule pf_step.cases) (auto simp: ends_ok_def select_result_def end_session_def)

lemma out_ok_step: "pf_step l s s' \<Longrightarrow> out_ok s \<Longrightarrow> out_ok s'"
  by (erule pf_step.cases) (auto simp: out_ok_def select_result_def end_session_def split: if_splits)

lemma in_ok_step: "pf_step l s s' \<Longrightarrow> in_ok s \<Longrightarrow> in_ok s'"
  by (erule pf_step.cases) (auto simp: in_ok_def select_result_def end_session_def split: if_splits)

interpretation forward: closed_set pf_step "\<lambda>_. True" pf_inv
  by unfold_locales (auto simp: pf_inv_def dest: loop_ok_step done_ok_step ends_ok_step out_ok_step in_ok_step)

lemma pf_inv_begin: "pf_inv pf_begin"
proof -
  have "\<forall>evs. pf_wait 2 None 0 ([] @ evs) = pf_wait 2 None 0 evs" by simp
  then show ?thesis by (auto simp: pf_inv_def pf_begin_def loop_ok_def done_ok_def ends_ok_def over_def out_ok_def in_ok_def)
qed

lemma pf_reached_inv: "pf_reached ls s \<Longrightarrow> pf_inv s"
  using forward.run_stays [OF _ pf_inv_begin] by (simp add: list_all_iff)

section \<open>Properties\<close>

text \<open>Claim C18. Whatever the client, the pod and the kubelet do and in whatever order the goroutines of a
  port-forward run: a result is delivered only after the copies of both directions and the reader of the error stream
  have ended, and it is the one the loop over the events computes; the client gets the pod's data and the pod the client's data in
  order, without gaps or repetition; and while the handler forwards, nothing of the pod's data is lost.\<close>

theorem port_forward_sound:
  assumes "pf_reached ls s"
  shows "(\<forall>r \<in> set (px_Done s). ended s \<and> (\<exists>k. pf_wait 2 None 0 (px_seen s) = Some (r, k))) \<and>
    (\<exists>rest. px_from_pod s = px_to_client s @ rest) \<and> (\<exists>rest. px_from_client s = px_to_pod s @ rest) \<and>
    (px_handler s = HReading \<longrightarrow> px_from_pod s = px_to_client s @ in_flight (px_out s) @ px_arrived s)"
proof -
  have inv: "done_ok s" "out_ok s" "in_ok s" using pf_reached_inv [OF assms] by (simp_all add: pf_inv_def)
  have "\<forall>r \<in> set (px_Done s). ended s \<and> (\<exists>k. pf_wait 2 None 0 (px_seen s) = Some (r, k))"
    using inv(1) by (auto simp: done_ok_def)
  moreover have "\<exists>rest. px_from_pod s = px_to_client s @ rest" using inv(2) by (auto simp: out_ok_def split: if_splits)
  moreover have "\<exists>rest. px_from_client s = px_to_pod s @ rest" using inv(3) by (auto simp: in_ok_def split: if_splits)
  moreover have "px_from_pod s = px_to_client s @ in_flight (px_out s) @ px_arrived s" if "px_handler s = HReading"
    using inv(2) that by (simp add: out_ok_def)
  ultimately show ?thesis by blast
qed

text \<open>A session on which nothing is under way.\<close>

definition idle :: "port_forward \<Rightarrow> bool" where
  "idle s \<longleftrightarrow> (\<exists>n firstErr. px_main s = PcSelect (Suc n) firstErr) \<and> px_in s = CReading \<and> px_out s = CReading \<and> px_arrived s = [] \<and>
     px_handler s = HReading \<and> px_stored s \<and> px_ctx s = None"

text \<open>The circle of waits: the handler reads the output pipe, which the session's goroutine closes when the
  function returns, which waits for the copy that reads the input pipe, which is closed when the handler returns.\<close>

definition waits_in_circle :: "port_forward \<Rightarrow> bool" where
  "waits_in_circle s \<longleftrightarrow> (\<exists>r. px_main s = PcWait r) \<and> px_in s = CReading \<and> px_inW s \<and> px_inR s \<and> px_outW s \<and> \<not> px_conn s \<and>
     px_arrived s = [] \<and> (\<forall>b. px_out s \<noteq> CWriting b) \<and> px_handler s = HReading \<and> px_stored s \<and> px_Done s = []"

definition no_write :: "pf_label \<Rightarrow> bool" where
  "no_write l \<longleftrightarrow> (\<forall>b. l \<noteq> ClientWrites b)"

interpretation circle: closed_set pf_step no_write waits_in_circle
proof unfold_locales
  fix s l s' assume w: "waits_in_circle s" and st: "pf_step l s s'" and nw: "no_write l"
  from st w nw show "waits_in_circle s'"
    by (cases rule: pf_step.cases) (auto simp: waits_in_circle_def no_write_def)
qed

text \<open>Claim C39. When the client of an idle port-forward goes away, the function that forwards sees it, closes the
  connection and then waits forever, unless someone writes to the session: the handler does not return, the session
  stays in the store with no result, so that the reaper does not remove it either, and keeps one of the places of the
  store. The comment expects that closing the connection unblocks all goroutines.\<close>

theorem abandoned_port_forward_leaks:
  assumes "pf_reached ls s" "idle s"
  shows "\<exists>s1. run pf_step s [ClientLeaves, Inside] s1 \<and>
    (\<forall>ls' s2. run pf_step s1 ls' s2 \<and> list_all no_write ls' \<longrightarrow>
       px_stored s2 \<and> px_handler s2 = HReading \<and> px_Done s2 = [] \<and> px_in s2 = CReading \<and> \<not> over s2)"
proof -
  obtain n firstErr where i: "px_main s = PcSelect (Suc n) firstErr" "px_in s = CReading" "px_out s = CReading" "px_arrived s = []"
      "px_handler s = HReading" "px_stored s" "px_ctx s = None"
    using assms(2) unfolding idle_def by blast
  let ?s0 = "s\<lparr>px_ctx := Some context_canceled\<rparr>"
  let ?s1 = "?s0\<lparr>px_main := PcWait (Some context_canceled), px_conn := False, px_seen := px_seen ?s0 @ [PfCtxDone context_canceled]\<rparr>"
  have "pf_step ClientLeaves s ?s0" by (rule client_leaves [OF i(7)])
  moreover have "pf_step Inside ?s0 ?s1" by (rule select_ctx [where n = n and firstErr = firstErr]) (simp_all add: i)
  ultimately have run: "run pf_step s [ClientLeaves, Inside] ?s1" by (rule run.cons [OF _ run_one])
  have "done_ok s" "ends_ok s" using pf_reached_inv [OF assms(1)] by (simp_all add: pf_inv_def)
  then have "px_Done s = []" "px_inW s" "px_inR s" "px_outW s" using i(1,6) by (auto simp: done_ok_def ends_ok_def over_def)
  then have "waits_in_circle ?s1" using i by (simp add: waits_in_circle_def)
  then have "px_stored s2 \<and> px_handler s2 = HReading \<and> px_Done s2 = [] \<and> px_in s2 = CReading \<and> \<not> over s2"
    if "run pf_step ?s1 ls' s2" "list_all no_write ls'" for ls' s2
    using circle.run_stays [OF that(1) _ that(2)] by (auto simp: waits_in_circle_def over_def)
  then show ?thesis using run by blast
qed

text \<open>Nothing closes the reading end of the output pipe: a handler that returns because its client cannot be reached
  leaves a copy that is writing to the pipe blocked forever.\<close>

definition blocked_copy :: "port_forward \<Rightarrow> bool" where
  "blocked_copy s \<longleftrightarrow> (\<exists>b. px_out s = CWriting b) \<and> (\<exists>r. px_handler s = HCleanup r \<or> px_handler s = HReturned r) \<and> \<not> over s"

interpretation blocked: closed_set pf_step "\<lambda>_. True" blocked_copy
proof unfold_locales
  fix s l s' assume "blocked_copy s" and st: "pf_step l s s'"
  from st this show "blocked_copy s'"
    by (cases rule: pf_step.cases) (auto simp: blocked_copy_def over_def select_result_def end_session_def)
qed

lemma handler_error_leaks_copy:
  assumes "pf_reached ls s" "px_handler s = HReturned r" "px_out s = CWriting b" "run pf_step s ls' s'"
  shows "\<not> over s' \<and> px_Done s' = [] \<and> px_out s' \<noteq> CEnded"
proof -
  have inv: "done_ok s" using pf_reached_inv [OF assms(1)] by (simp add: pf_inv_def)
  then have "blocked_copy s" using assms(2,3) by (auto simp: blocked_copy_def done_ok_def ended_def)
  then have "blocked_copy s'" using blocked.run_stays [OF assms(4)] by (simp add: list_all_iff)
  moreover have "done_ok s'" using pf_reached_inv [OF run_append [OF assms(1,4)]] by (simp add: pf_inv_def)
  ultimately show ?thesis by (auto simp: blocked_copy_def done_ok_def)
qed

section \<open>The service computes what a run does\<close>

text \<open>What the handler has read and sent, at each of its program points.\<close>

definition all_sent :: "(bytes \<times> go_error option) list \<Rightarrow> bytes list \<Rightarrow> bool" where
  "all_sent rs msgs \<longleftrightarrow> list_all (goes_on read_kind) rs \<and> msgs = messages read_kind rs"

fun left_ok :: "go_error option \<Rightarrow> (bytes \<times> go_error option) list \<Rightarrow> bytes list \<Rightarrow> bool" where
  "left_ok None reads msgs \<longleftrightarrow> (\<exists>rs. reads = rs @ [([], Some io_EOF)] \<and> all_sent rs msgs)"
| "left_ok (Some e) reads msgs \<longleftrightarrow> (\<exists>rs b. reads = rs @ [(b, None)] \<and> b \<noteq> [] \<and> all_sent rs msgs)"

fun reads_ok :: "pf_handler \<Rightarrow> (bytes \<times> go_error option) list \<Rightarrow> bytes list \<Rightarrow> bool" where
  "reads_ok HReading reads msgs \<longleftrightarrow> all_sent reads msgs"
| "reads_ok (HSending b) reads msgs \<longleftrightarrow> (\<exists>rs. reads = rs @ [(b, None)] \<and> b \<noteq> [] \<and> all_sent rs msgs)"
| "reads_ok (HCleanup r) reads msgs \<longleftrightarrow> left_ok r reads msgs"
| "reads_ok (HReturned r) reads msgs \<longleftrightarrow> left_ok r reads msgs"

definition copied_ok :: "port_forward \<Rightarrow> bool" where
  "copied_ok s \<longleftrightarrow> (\<forall>b \<in> set (in_flight (px_out s) @ px_arrived s). b \<noteq> []) \<and> reads_ok (px_handler s) (px_reads s) (px_to_client s)"

lemma all_sent_snoc: "b \<noteq> [] \<Longrightarrow> all_sent rs msgs \<Longrightarrow> all_sent (rs @ [(b, None)]) (msgs @ [b])"
  by (simp add: all_sent_def goes_on_def read_kind_def)

interpretation copied: closed_set pf_step "\<lambda>_. True" copied_ok
proof unfold_locales
  fix s l s' assume "copied_ok s" and st: "pf_step l s s'"
  from st this show "copied_ok s'"
    by (cases rule: pf_step.cases) (auto simp: copied_ok_def select_result_def end_session_def all_sent_snoc)
qed

lemma copied_ok_begin: "copied_ok pf_begin"
  by (simp add: copied_ok_def pf_begin_def all_sent_def)

fun handler_result :: "go_error option \<Rightarrow> unit res" where
  "handler_result None = Inr ()"
| "handler_result (Some e) = Inl e"

lemma left_computed:
  assumes "left_ok r reads msgs"
  shows "\<exists>sendf. copy_stream sendf reads [] = Some (handler_result r, msgs)"
proof (cases r)
  case None
  then obtain rs where rs: "reads = rs @ [([], Some io_EOF)]" "list_all (goes_on read_kind) rs" "msgs = messages read_kind rs"
    using assms by (auto simp: all_sent_def)
  have "read_kind ([], Some io_EOF) = Stops" "read_result ([], Some io_EOF) = Inr ()"
    by (simp_all add: read_kind_def read_result_def io_EOF_def errors_Is_def)
  then have "copy_stream (\<lambda>_. None) reads [] = Some (handler_result r, msgs)"
    using copy_loop.ends_by_event [OF rs(2), of "([], Some io_EOF)" "[]"] by (simp add: rs None)
  then show ?thesis by blast
next
  case (Some e)
  then obtain rs b where rs: "reads = rs @ [(b, None)]" "b \<noteq> []" "list_all (goes_on read_kind) rs" "msgs = messages read_kind rs"
    using assms by (auto simp: all_sent_def)
  then have "read_kind (b, None) = Sends b" by (simp add: read_kind_def)
  then have "copy_stream (refuses_after (length msgs) e) reads [] = Some (handler_result r, msgs)"
    using copy_loop.ends_by_send [OF rs(3), of "(b, None)" b "[]" e] by (simp add: rs Some)
  then show ?thesis by blast
qed

text \<open>The running goroutines of a port-forward implement the method of the service: whenever the handler has
  returned, there is a client for which \<^verbatim>\<open>PortForward\<close>, as a function, given what the handler read, returns the same result, sends the
  same data and cleans up; and that data is the beginning of what the pod sent.\<close>

lemma port_forward_refines_service:
  assumes "StartPortForward w ref uuid cluster ns name port = (Inr (sess, call), w1)"
    and "pf_reached ls s" "px_handler s = HReturned r"
  shows "(\<exists>sendf. \<forall>env. srv_PortForward w ref uuid sendf (px_reads s) env None cluster ns name port =
      (Some (handler_result r, px_to_client s), CleanupPortForward (env w1) uuid)) \<and>
    (\<exists>rest. px_from_pod s = px_to_client s @ rest)"
proof -
  have "copied_ok s" using copied.run_stays [OF assms(2) copied_ok_begin] by (simp add: list_all_iff)
  then have "left_ok r (px_reads s) (px_to_client s)" using assms(3) by (simp add: copied_ok_def)
  then obtain sendf where "copy_stream sendf (px_reads s) [] = Some (handler_result r, px_to_client s)"
    using left_computed by blast
  then have "srv_PortForward w ref uuid sendf (px_reads s) env None cluster ns name port =
      (Some (handler_result r, px_to_client s), CleanupPortForward (env w1) uuid)" for env
    using assms(1) by (simp add: srv_PortForward_def)
  moreover have "out_ok s" using pf_reached_inv [OF assms(2)] by (simp add: pf_inv_def)
  then have "\<exists>rest. px_from_pod s = px_to_client s @ rest" using assms(3) by (simp add: out_ok_def)
  ultimately show ?thesis by blast
qed

section \<open>Witnesses\<close>

lemma idle_begin: "idle pf_begin"
  by (simp add: idle_def pf_begin_def numeral_2_eq_2)

theorem abandoned_port_forward_leaks_witness:
  "\<exists>s1. run pf_step pf_begin [ClientLeaves, Inside] s1 \<and>
     (\<forall>ls' s2. run pf_step s1 ls' s2 \<and> list_all no_write ls' \<longrightarrow> px_stored s2 \<and> px_handler s2 = HReading)"
  using abandoned_port_forward_leaks [OF run.nil idle_begin] by blast

text \<open>A chunk of the pod on its way to the client.\<close>

definition pf_chunk :: port_forward where
  "pf_chunk = pf_begin\<lparr>px_from_pod := [''hi''], px_to_client := [''hi''], px_reads := [(''hi'', None)]\<rparr>"

lemma pf_chunk_reached: "pf_reached [PodSends ''hi'', Inside, Inside, Inside] pf_chunk"
proof -
  let ?s1 = "pf_begin\<lparr>px_arrived := [''hi''], px_from_pod := [''hi'']\<rparr>"
  let ?s2 = "?s1\<lparr>px_out := CWriting ''hi'', px_arrived := []\<rparr>"
  let ?s3 = "?s2\<lparr>px_out := CReading, px_handler := HSending ''hi'', px_reads := px_reads ?s2 @ [(''hi'', None)]\<rparr>"
  let ?s4 = "?s3\<lparr>px_handler := HReading, px_to_client := px_to_client ?s3 @ [''hi'']\<rparr>"
  have "pf_step (PodSends ''hi'') pf_begin ?s1" using pod_sends [of pf_begin "''hi''"] by (simp add: pf_begin_def)
  moreover have "pf_step Inside ?s1 ?s2" by (rule out_read) (simp_all add: pf_begin_def)
  moreover have "pf_step Inside ?s2 ?s3" by (rule out_write) (simp_all add: pf_begin_def)
  moreover have "pf_step Inside ?s3 ?s4" by (rule h_sent) simp
  ultimately have "pf_reached [PodSends ''hi'', Inside, Inside, Inside] ?s4" by (rule run.cons [OF _ run.cons [OF _ run.cons [OF _ run_one]]])
  also have "?s4 = pf_chunk" by (simp add: pf_chunk_def pf_begin_def)
  finally show ?thesis .
qed

theorem port_forward_sound_witness:
  "px_to_client pf_chunk = [''hi''] \<and> px_from_pod pf_chunk = px_to_client pf_chunk @ in_flight (px_out pf_chunk) @ px_arrived pf_chunk"
proof -
  have "px_handler pf_chunk = HReading" "px_to_client pf_chunk = [''hi'']" by (simp_all add: pf_chunk_def pf_begin_def)
  then show ?thesis using port_forward_sound [OF pf_chunk_reached] by simp
qed

end
