(* ===== verification/Watch_Relay.thy ===== *)
theory Watch_Relay
  imports Step_Systems Kubernetes_Client Forwarding
begin

text \<open>
  A watch as it runs: the goroutine of \<^verbatim>\<open>watcherAdapter\<close> (\<^verbatim>\<open>kubernetes/resource_repo.go\<close>) between the
  watch of the client library and the loop of the handler (\<^verbatim>\<open>handler/resource.go\<close>), joined by the unbuffered channel
  \<^verbatim>\<open>ch\<close>. The relation is labelled with what the API server and the client do.
\<close>

section \<open>State\<close>

text \<open>The relay: receiving from the library, sending on \<^verbatim>\<open>ch\<close>, or ended with \<^verbatim>\<open>ch\<close> closed. The consumer: in its
  \<^verbatim>\<open>select\<close>, handling an event, or returned after \<^verbatim>\<open>watcher.Stop()\<close>, because the context was done, the channel was closed, or the client could not be
  reached.\<close>

datatype watch_pc = RlReceiving | RlSending WatchEvent | RlEnded

datatype watch_exit = WxCancelled | WxClosed | WxSend go_error

fun watch_result :: "watch_exit \<Rightarrow> unit res" where
  "watch_result WxCancelled = Inr ()"
| "watch_result WxClosed = Inl watch_closed"
| "watch_result (WxSend e) = Inl e"

datatype consumer_pc = CoSelecting | CoHandling WatchEvent | CoStopped watch_exit

text \<open>\<open>wr_upstream\<close>: events the library has decoded and not yet handed over; \<open>wr_open\<close>: it receives more; \<open>wr_stopped\<close>: its watch was
  stopped; \<open>wr_panicked\<close>: the relay recovered from a panic. The last four fields record what the API server sent, what the consumer received, what its
  \<^verbatim>\<open>select\<close> saw, and the messages it sent to the client.\<close>

record 'st watcherAdapter =
  wr_upstream :: "k8s_event list"
  wr_open :: bool
  wr_stopped :: bool
  wr_relay :: watch_pc
  wr_panicked :: bool
  wr_consumer :: consumer_pc
  wr_ctx :: bool
  wr_sent :: "k8s_event list"
  wr_got :: "WatchEvent list"
  wr_ins :: "watch_input list"
  wr_msgs :: "'st pb_WatchEvent list"

definition newWatcherAdapter :: "'st watcherAdapter" where
  "newWatcherAdapter = \<lparr>wr_upstream = [], wr_open = True, wr_stopped = False, wr_relay = RlReceiving, wr_panicked = False, wr_consumer = CoSelecting,
     wr_ctx = False, wr_sent = [], wr_got = [], wr_ins = [], wr_msgs = []\<rparr>"

text \<open>\<^verbatim>\<open>Stop\<close> stops the library's watch: it receives nothing more, and it may drop what it has not handed over and close its channel
  at any time (\<open>relay_ends\<close>), as the library's \<^verbatim>\<open>StreamWatcher\<close> does.\<close>

definition watcher_Stop :: "'st watcherAdapter \<Rightarrow> 'st watcherAdapter" where
  "watcher_Stop w = w\<lparr>wr_open := False, wr_stopped := True\<rparr>"

section \<open>Steps\<close>

datatype watch_label = ApiSends k8s_event | ApiCloses | ClientCancels | WatchInside

inductive watch_step ::
  "('tun, 't, 'x, 'sc, 'ver) k8s_api \<Rightarrow> ('st, 'sc) proto_lib \<Rightarrow> watch_label \<Rightarrow> 'st watcherAdapter \<Rightarrow> 'st watcherAdapter \<Rightarrow> bool"
  for A P where
  api_sends: "wr_open w \<Longrightarrow> watch_step A P (ApiSends ev) w (w\<lparr>wr_upstream := wr_upstream w @ [ev], wr_sent := wr_sent w @ [ev]\<rparr>)"
| api_closes: "watch_step A P ApiCloses w (w\<lparr>wr_open := False\<rparr>)"
| client_cancels: "watch_step A P ClientCancels w (w\<lparr>wr_ctx := True\<rparr>)"
| relay_receives: "wr_relay w = RlReceiving \<Longrightarrow> wr_upstream w = ev # evs \<Longrightarrow>
    watch_step A P WatchInside w (w\<lparr>wr_relay := RlSending (relay_event A ev), wr_upstream := evs\<rparr>)"
| relay_panics: "wr_relay w = RlReceiving \<Longrightarrow> wr_upstream w = ev # evs \<Longrightarrow>
    watch_step A P WatchInside w (w\<lparr>wr_relay := RlEnded, wr_panicked := True, wr_upstream := evs\<rparr>)"
| relay_ends: "wr_relay w = RlReceiving \<Longrightarrow> wr_upstream w = [] \<and> \<not> wr_open w \<or> wr_stopped w \<Longrightarrow> watch_step A P WatchInside w (w\<lparr>wr_relay := RlEnded\<rparr>)"
| hand_over: "wr_relay w = RlSending e \<Longrightarrow> wr_consumer w = CoSelecting \<Longrightarrow>
    watch_step A P WatchInside w
      (w\<lparr>wr_relay := RlReceiving, wr_consumer := CoHandling e, wr_got := wr_got w @ [e], wr_ins := wr_ins w @ [WEvent e]\<rparr>)"
| consumer_skips: "wr_consumer w = CoHandling e \<Longrightarrow> processEvent P e = Inl x \<Longrightarrow>
    watch_step A P WatchInside w (w\<lparr>wr_consumer := CoSelecting\<rparr>)"
| consumer_sends: "wr_consumer w = CoHandling e \<Longrightarrow> processEvent P e = Inr m \<Longrightarrow>
    watch_step A P WatchInside w (w\<lparr>wr_consumer := CoSelecting, wr_msgs := wr_msgs w @ [m]\<rparr>)"
| consumer_fails: "wr_consumer w = CoHandling e \<Longrightarrow> processEvent P e = Inr m \<Longrightarrow>
    watch_step A P WatchInside w (watcher_Stop (w\<lparr>wr_consumer := CoStopped (WxSend err)\<rparr>))"
| consumer_cancelled: "wr_consumer w = CoSelecting \<Longrightarrow> wr_ctx w \<Longrightarrow>
    watch_step A P WatchInside w (watcher_Stop (w\<lparr>wr_consumer := CoStopped WxCancelled, wr_ins := wr_ins w @ [WCtxDone]\<rparr>))"
| consumer_closed: "wr_consumer w = CoSelecting \<Longrightarrow> wr_relay w = RlEnded \<Longrightarrow>
    watch_step A P WatchInside w (watcher_Stop (w\<lparr>wr_consumer := CoStopped WxClosed\<rparr>))"

section \<open>Invariant\<close>

primrec relay_hand :: "watch_pc \<Rightarrow> WatchEvent list" where
  "relay_hand RlReceiving = []"
| "relay_hand (RlSending e) = [e]"
| "relay_hand RlEnded = []"

definition watch_inv :: "('tun, 't, 'x, 'sc, 'ver) k8s_api \<Rightarrow> 'st watcherAdapter \<Rightarrow> bool" where
  "watch_inv A w \<longleftrightarrow>
     (\<exists>lost. map (relay_event A) (wr_sent w) = wr_got w @ relay_hand (wr_relay w) @ lost @ map (relay_event A) (wr_upstream w) \<and>
        (\<not> wr_panicked w \<longrightarrow> lost = [])) \<and>
     (wr_panicked w \<longrightarrow> wr_relay w = RlEnded) \<and>
     (wr_stopped w \<longleftrightarrow> (\<exists>r. wr_consumer w = CoStopped r)) \<and>
     (wr_relay w = RlEnded \<and> \<not> wr_panicked w \<and> \<not> wr_stopped w \<longrightarrow> wr_upstream w = [] \<and> \<not> wr_open w) \<and>
     (wr_consumer w = CoStopped WxClosed \<longrightarrow> wr_relay w = RlEnded \<and> (\<not> wr_panicked w \<longrightarrow> wr_upstream w = [] \<and> \<not> wr_open w))"

lemma watch_inv_step:
  assumes "watch_inv A w" "watch_step A P l w w'"
  shows "watch_inv A w'"
  using assms(2,1)
proof (cases rule: watch_step.cases)
  case (relay_panics ev evs)
  then have "\<not> wr_panicked w" using assms(1) by (auto simp: watch_inv_def)
  then have "map (relay_event A) (wr_sent w) = wr_got w @ [] @ [relay_event A ev] @ map (relay_event A) evs"
    using assms(1) relay_panics by (auto simp: watch_inv_def)
  then show ?thesis using relay_panics assms(1) by (auto simp: watch_inv_def)
qed (auto simp: watch_inv_def watcher_Stop_def)

interpretation watch: closed_set "watch_step A P" "\<lambda>_. True" "watch_inv A" for A P
  by unfold_locales (rule watch_inv_step)

lemma watch_inv_new: "watch_inv A newWatcherAdapter"
  by (simp add: watch_inv_def newWatcherAdapter_def)

lemma watch_reached_inv: "run (watch_step A P) newWatcherAdapter ls w \<Longrightarrow> watch_inv A w"
  using watch.run_stays [OF _ watch_inv_new] by (simp add: list_all_iff)

section \<open>Properties\<close>

text \<open>A relay that sends to a consumer which is gone.\<close>

definition relay_stranded :: "'st watcherAdapter \<Rightarrow> bool" where
  "relay_stranded w \<longleftrightarrow> (\<exists>e. wr_relay w = RlSending e) \<and> (\<exists>r. wr_consumer w = CoStopped r)"

interpretation stranded: closed_set "watch_step A P" "\<lambda>_. True" relay_stranded for A P
proof unfold_locales
  fix w l w' assume "relay_stranded w" and st: "watch_step A P l w w'"
  from st this show "relay_stranded w'"
    by (cases rule: watch_step.cases) (auto simp: relay_stranded_def)
qed

text \<open>When a client cancels a watch while the relay holds an event, the relay goroutine never ends and the channel
  is never closed, whatever happens afterwards, although \<^verbatim>\<open>Stop\<close> is documented to close it.\<close>

theorem cancelled_watch_leaks_relay:
  assumes "run (watch_step A P) newWatcherAdapter ls w" "wr_relay w = RlSending e" "wr_consumer w = CoSelecting" "\<not> wr_ctx w"
  shows "\<exists>w1. run (watch_step A P) w [ClientCancels, WatchInside] w1 \<and> \<not> wr_open w1 \<and>
    (\<forall>ls' w2. run (watch_step A P) w1 ls' w2 \<longrightarrow> wr_relay w2 \<noteq> RlEnded \<and> (\<exists>r. wr_consumer w2 = CoStopped r))"
proof -
  let ?w0 = "w\<lparr>wr_ctx := True\<rparr>"
  let ?w1 = "watcher_Stop (?w0\<lparr>wr_consumer := CoStopped WxCancelled, wr_ins := wr_ins ?w0 @ [WCtxDone]\<rparr>)"
  have "watch_step A P ClientCancels w ?w0" by (rule client_cancels)
  moreover have "watch_step A P WatchInside ?w0 ?w1" by (rule consumer_cancelled) (simp_all add: assms(3))
  ultimately have run: "run (watch_step A P) w [ClientCancels, WatchInside] ?w1" by (rule run.cons [OF _ run_one])
  have "relay_stranded ?w1" using assms(2) by (simp add: relay_stranded_def watcher_Stop_def)
  then have "wr_relay w2 \<noteq> RlEnded \<and> (\<exists>r. wr_consumer w2 = CoStopped r)" if "run (watch_step A P) ?w1 ls' w2" for ls' w2
    using stranded.run_stays [OF that] by (auto simp: relay_stranded_def list_all_iff)
  then show ?thesis using run by (auto simp: watcher_Stop_def)
qed

section \<open>The service computes what a run does\<close>

definition all_relayed :: "('st, 'sc) proto_lib \<Rightarrow> watch_input list \<Rightarrow> 'st pb_WatchEvent list \<Rightarrow> bool" where
  "all_relayed P es msgs \<longleftrightarrow> list_all (goes_on (input_kind P)) es \<and> msgs = messages (input_kind P) es"

fun consumed :: "('st, 'sc) proto_lib \<Rightarrow> consumer_pc \<Rightarrow> watch_input list \<Rightarrow> 'st pb_WatchEvent list \<Rightarrow> bool" where
  "consumed P CoSelecting ins msgs \<longleftrightarrow> all_relayed P ins msgs"
| "consumed P (CoHandling e) ins msgs \<longleftrightarrow> (\<exists>es. ins = es @ [WEvent e] \<and> all_relayed P es msgs)"
| "consumed P (CoStopped WxCancelled) ins msgs \<longleftrightarrow> (\<exists>es. ins = es @ [WCtxDone] \<and> all_relayed P es msgs)"
| "consumed P (CoStopped WxClosed) ins msgs \<longleftrightarrow> all_relayed P ins msgs"
| "consumed P (CoStopped (WxSend err)) ins msgs \<longleftrightarrow> (\<exists>es e m. ins = es @ [WEvent e] \<and> processEvent P e = Inr m \<and> all_relayed P es msgs)"

primrec event_of :: "watch_input \<Rightarrow> WatchEvent list" where
  "event_of WCtxDone = []"
| "event_of (WEvent e) = [e]"

definition consumer_ok :: "('st, 'sc) proto_lib \<Rightarrow> 'st watcherAdapter \<Rightarrow> bool" where
  "consumer_ok P w \<longleftrightarrow> consumed P (wr_consumer w) (wr_ins w) (wr_msgs w) \<and> concat (map event_of (wr_ins w)) = wr_got w"

lemma all_relayed_snoc:
  "processEvent P e = Inl x \<Longrightarrow> all_relayed P es msgs \<Longrightarrow> all_relayed P (es @ [WEvent e]) msgs"
  "processEvent P e = Inr m \<Longrightarrow> all_relayed P es msgs \<Longrightarrow> all_relayed P (es @ [WEvent e]) (msgs @ [m])"
  by (simp_all add: all_relayed_def goes_on_def input_kind_def)

interpretation consumer: closed_set "watch_step A P" "\<lambda>_. True" "consumer_ok P" for A P
proof unfold_locales
  fix w l w' assume "consumer_ok P w" and st: "watch_step A P l w w'"
  from st this show "consumer_ok P w'"
    by (cases rule: watch_step.cases) (auto simp: consumer_ok_def watcher_Stop_def all_relayed_snoc)
qed

lemma consumer_ok_new: "consumer_ok P newWatcherAdapter"
  by (simp add: consumer_ok_def newWatcherAdapter_def all_relayed_def)

lemma messages_converted: "messages (input_kind P) es = converted_events P (concat (map event_of es))"
  by (induction es) (auto simp: converted_events_def input_kind_def split: watch_input.splits sum.splits)

lemma converted_append: "converted_events P (evs @ evs') = converted_events P evs @ converted_events P evs'"
  by (simp add: converted_events_def)

lemma consumed_prefix: "consumed P c ins msgs \<Longrightarrow> \<exists>rest. converted_events P (concat (map event_of ins)) = msgs @ rest"
  by (cases "(P, c, ins, msgs)" rule: consumed.cases) (auto simp: all_relayed_def messages_converted converted_append)

lemma consumed_computed:
  assumes "consumed P (CoStopped r) ins msgs"
  shows "\<exists>sendf. watch_loop P sendf ins [] = (watch_result r, msgs)"
proof (cases r)
  case WxCancelled
  then obtain es where "ins = es @ [WCtxDone]" "all_relayed P es msgs" using assms by auto
  then have "watch_loop P (\<lambda>_. None) ins [] = (watch_result r, msgs)"
    using watch_loop.ends_by_event [of P es WCtxDone "[]"] WxCancelled by (simp add: all_relayed_def input_kind_def)
  then show ?thesis by blast
next
  case WxClosed
  then have "watch_loop P (\<lambda>_. None) ins [] = (watch_result r, msgs)"
    using watch_loop.ends_closed [of P ins "[]"] assms by (simp add: all_relayed_def)
  then show ?thesis by blast
next
  case (WxSend err)
  then obtain es e m where "ins = es @ [WEvent e]" "processEvent P e = Inr m" "all_relayed P es msgs" using assms by auto
  then have "watch_loop P (refuses_after (length msgs) err) ins [] = (watch_result r, msgs)"
    using watch_loop.ends_by_send [of P es "WEvent e" m "[]" err] WxSend by (simp add: all_relayed_def input_kind_def)
  then show ?thesis by blast
qed

lemma watch_reached_consumer: "run (watch_step A P) newWatcherAdapter ls w \<Longrightarrow> consumer_ok P w"
  using consumer.run_stays [OF _ consumer_ok_new] by (simp add: list_all_iff)

text \<open>The function of the service computes what the loop does, on the inputs the loop saw.\<close>

lemma watch_refines_service:
  assumes "run (watch_step A P) newWatcherAdapter ls w" "wr_consumer w = CoStopped r"
    and "WatchResource uc ctx (i\<lparr>id_Name := []\<rparr>) (opts\<lparr>wo_SendInitialEvents := False\<rparr>) st = (Inr evs, st')"
  shows "\<exists>sendf. srv_Watch P uc ctx sendf (\<lambda>_. wr_ins w) i opts st = (Inr (watch_result r, wr_msgs w), st')"
proof -
  have "consumed P (CoStopped r) (wr_ins w) (wr_msgs w)" using watch_reached_consumer [OF assms(1)] assms(2) by (simp add: consumer_ok_def)
  then obtain sendf where "watch_loop P sendf (wr_ins w) [] = (watch_result r, wr_msgs w)" using consumed_computed by blast
  then show ?thesis using assms(3) by (auto simp: srv_Watch_def)
qed

section \<open>What the client gets\<close>

definition not_cancelled :: "'st watcherAdapter \<Rightarrow> bool" where
  "not_cancelled w \<longleftrightarrow> \<not> wr_ctx w \<and> wr_consumer w \<noteq> CoStopped WxCancelled"

lemma not_cancelled_step:
  "not_cancelled w \<Longrightarrow> watch_step A P l w w' \<Longrightarrow> l \<noteq> ClientCancels \<Longrightarrow> not_cancelled w'"
  by (erule watch_step.cases) (auto simp: not_cancelled_def watcher_Stop_def)

interpretation uncancelled: closed_set "watch_step A P" "\<lambda>l. l \<noteq> ClientCancels" not_cancelled for A P
  by unfold_locales (rule not_cancelled_step)

text \<open>Claim C19. Whatever the API server and the client do and in whatever order the goroutines of a watch run: the handler receives the
  events of the API server in order, without gaps or repetition, and the messages to the client are a beginning of their conversions, those left out that
  do not convert. A handler in its \<^verbatim>\<open>select\<close> has sent the conversion of everything it received. When the handler returned because the channel was closed and the
  relay did not panic, the client has got all events of the API server; the other two ways to return are a failed
  send and a context that was cancelled, and only then, or after a panic of the relay, may events be missing.\<close>

theorem watch_delivers:
  assumes "run (watch_step A P) newWatcherAdapter ls w"
  shows "(\<exists>rest. map (relay_event A) (wr_sent w) = wr_got w @ rest) \<and>
    (\<exists>rest. converted_events P (map (relay_event A) (wr_sent w)) = wr_msgs w @ rest) \<and>
    (wr_consumer w = CoSelecting \<longrightarrow> wr_msgs w = converted_events P (wr_got w)) \<and>
    (wr_consumer w = CoStopped WxClosed \<and> \<not> wr_panicked w \<longrightarrow> wr_msgs w = converted_events P (map (relay_event A) (wr_sent w))) \<and>
    (wr_consumer w = CoStopped WxCancelled \<longrightarrow> ClientCancels \<in> set ls)"
proof -
  note inv = watch_reached_inv [OF assms]
  have c: "consumed P (wr_consumer w) (wr_ins w) (wr_msgs w)" and got: "concat (map event_of (wr_ins w)) = wr_got w"
    using watch_reached_consumer [OF assms] by (simp_all add: consumer_ok_def)
  have all: "wr_msgs w = converted_events P (wr_got w)" if "all_relayed P (wr_ins w) (wr_msgs w)"
    using that got by (simp add: all_relayed_def messages_converted)
  obtain rest where rest: "map (relay_event A) (wr_sent w) = wr_got w @ rest" using inv by (auto simp: watch_inv_def)
  then have "\<exists>rest. converted_events P (map (relay_event A) (wr_sent w)) = wr_msgs w @ rest"
    using consumed_prefix [OF c] by (auto simp: got converted_append)
  moreover have "wr_msgs w = converted_events P (map (relay_event A) (wr_sent w))" if "wr_consumer w = CoStopped WxClosed" "\<not> wr_panicked w"
    using all c inv that by (simp add: watch_inv_def)
  moreover have "ClientCancels \<in> set ls" if "wr_consumer w = CoStopped WxCancelled"
    using uncancelled.must_leave [OF assms] that by (auto simp: newWatcherAdapter_def not_cancelled_def)
  moreover have "wr_msgs w = converted_events P (wr_got w)" if "wr_consumer w = CoSelecting" using all c that by simp
  ultimately show ?thesis using rest by blast
qed

section \<open>Witnesses\<close>

definition demo_proto :: "(nat, unit) proto_lib" where
  "demo_proto = \<lparr>new_struct = (\<lambda>_. Inr 0), parse_group_version = (\<lambda>s. Inr ([], s)),
     marshal_schema = (\<lambda>_. Inr []), unmarshal_struct = (\<lambda>_. Inr 0)\<rparr>"

definition demo_event :: k8s_event where
  "demo_event = \<lparr>ke_Type = ''ADDED'', ke_Object = KUnstructured []\<rparr>"

definition demo_sending :: "nat watcherAdapter" where
  "demo_sending = newWatcherAdapter\<lparr>wr_relay := RlSending (relay_event demo_api demo_event), wr_sent := [demo_event]\<rparr>"

lemma demo_sending_reached: "run (watch_step demo_api demo_proto) newWatcherAdapter [ApiSends demo_event, WatchInside] demo_sending"
proof -
  let ?w1 = "newWatcherAdapter\<lparr>wr_upstream := [demo_event], wr_sent := [demo_event]\<rparr>"
  have "watch_step demo_api demo_proto (ApiSends demo_event) newWatcherAdapter ?w1"
    using api_sends [of newWatcherAdapter demo_api demo_proto demo_event] by (simp add: newWatcherAdapter_def)
  moreover have "watch_step demo_api demo_proto WatchInside ?w1 (?w1\<lparr>wr_relay := RlSending (relay_event demo_api demo_event), wr_upstream := []\<rparr>)"
    by (rule relay_receives) (simp_all add: newWatcherAdapter_def)
  moreover have "?w1\<lparr>wr_relay := RlSending (relay_event demo_api demo_event), wr_upstream := []\<rparr> = demo_sending"
    by (simp add: demo_sending_def newWatcherAdapter_def)
  ultimately show ?thesis by (metis run.cons run_one)
qed

theorem cancelled_watch_leaks_relay_witness:
  "\<exists>w1. run (watch_step demo_api demo_proto) demo_sending [ClientCancels, WatchInside] w1 \<and>
     (\<forall>ls' w2. run (watch_step demo_api demo_proto) w1 ls' w2 \<longrightarrow> wr_relay w2 \<noteq> RlEnded)"
proof -
  have "wr_relay demo_sending = RlSending (relay_event demo_api demo_event)" "wr_consumer demo_sending = CoSelecting" "\<not> wr_ctx demo_sending"
    by (simp_all add: demo_sending_def newWatcherAdapter_def)
  from cancelled_watch_leaks_relay [OF demo_sending_reached this] show ?thesis by blast
qed

definition demo_msg :: "nat pb_WatchEvent" where
  "demo_msg = \<lparr>pw_Type = TYPE_ADDED, pw_Resource = Some 0, pw_ResourceVersion = []\<rparr>"

definition demo_delivered :: "nat watcherAdapter" where
  "demo_delivered = newWatcherAdapter\<lparr>wr_open := False, wr_stopped := True, wr_relay := RlEnded, wr_consumer := CoStopped WxClosed,
     wr_sent := [demo_event], wr_got := [relay_event demo_api demo_event], wr_ins := [WEvent (relay_event demo_api demo_event)], wr_msgs := [demo_msg]\<rparr>"

text \<open>One event, then the API server closes the watch.\<close>

lemma demo_delivered_reached:
  "run (watch_step demo_api demo_proto) newWatcherAdapter
     [ApiSends demo_event, WatchInside, WatchInside, WatchInside, ApiCloses, WatchInside, WatchInside] demo_delivered"
proof -
  let ?e = "relay_event demo_api demo_event"
  let ?w1 = "demo_sending\<lparr>wr_relay := RlReceiving, wr_consumer := CoHandling ?e, wr_got := wr_got demo_sending @ [?e],
    wr_ins := wr_ins demo_sending @ [WEvent ?e]\<rparr>"
  let ?w2 = "?w1\<lparr>wr_consumer := CoSelecting, wr_msgs := wr_msgs ?w1 @ [demo_msg]\<rparr>"
  let ?w3 = "?w2\<lparr>wr_open := False\<rparr>"
  let ?w4 = "?w3\<lparr>wr_relay := RlEnded\<rparr>"
  let ?w5 = "watcher_Stop (?w4\<lparr>wr_consumer := CoStopped WxClosed\<rparr>)"
  have m: "processEvent demo_proto ?e = Inr demo_msg"
    by (simp add: processEvent_def change_event_def toProtoResource_def relay_event_def demo_event_def demo_proto_def demo_msg_def)
  have "watch_step demo_api demo_proto WatchInside demo_sending ?w1" by (rule hand_over) (simp_all add: demo_sending_def newWatcherAdapter_def)
  moreover have "watch_step demo_api demo_proto WatchInside ?w1 ?w2" by (rule consumer_sends [OF _ m]) simp
  moreover have "watch_step demo_api demo_proto ApiCloses ?w2 ?w3" by (rule api_closes)
  moreover have "watch_step demo_api demo_proto WatchInside ?w3 ?w4" by (rule relay_ends) (simp_all add: demo_sending_def newWatcherAdapter_def)
  moreover have "watch_step demo_api demo_proto WatchInside ?w4 ?w5" by (rule consumer_closed) simp_all
  ultimately have "run (watch_step demo_api demo_proto) demo_sending [WatchInside, WatchInside, ApiCloses, WatchInside, WatchInside] ?w5"
    by (rule run.cons [OF _ run.cons [OF _ run.cons [OF _ run.cons [OF _ run_one]]]])
  also have "?w5 = demo_delivered" by (simp add: demo_delivered_def demo_sending_def newWatcherAdapter_def watcher_Stop_def)
  finally show ?thesis using run_append [OF demo_sending_reached] by fastforce
qed

theorem watch_delivers_witness:
  "\<exists>ls w. run (watch_step demo_api demo_proto) newWatcherAdapter ls w \<and> wr_consumer w = CoStopped WxClosed \<and> wr_sent w = [demo_event] \<and>
     wr_msgs w = [demo_msg] \<and> wr_msgs w = converted_events demo_proto (map (relay_event demo_api) (wr_sent w))"
proof -
  have w: "wr_consumer demo_delivered = CoStopped WxClosed" "\<not> wr_panicked demo_delivered" "wr_sent demo_delivered = [demo_event]"
      "wr_msgs demo_delivered = [demo_msg]"
    by (simp_all add: demo_delivered_def newWatcherAdapter_def)
  have "wr_msgs demo_delivered = converted_events demo_proto (map (relay_event demo_api) (wr_sent demo_delivered))"
    using watch_delivers [OF demo_delivered_reached] w(1,2) by blast
  with w demo_delivered_reached show ?thesis by blast
qed

end
