(* ===== verification/Terminal_Stream.thy ===== *)
theory Terminal_Stream
  imports Step_Systems Forwarding
begin

text \<open>
  A terminal session as it runs: the goroutines of \<^verbatim>\<open>ExecuteTTY\<close> (\<^verbatim>\<open>handler/runtime.go\<close>) that read the two pipes, merge
  them in a channel and close it, its loop that sends the chunks to the client, the goroutine of \<^verbatim>\<open>StartExec\<close> around the
  library's \<^verbatim>\<open>StreamWithContext\<close>, \<^verbatim>\<open>CleanupExec\<close> and the reaper (\<^verbatim>\<open>core/runtime.go\<close>, \<^verbatim>\<open>core/session.go\<close>). It starts when the
  client has got its session identifier. The relation is labelled with what the client and the command do. The queue of terminal
  sizes is the one of \<open>Sessions\<close> with its mutex: resizes put sizes into it, the library's goroutine for a session with a
  terminal takes them out, and the goroutine of \<^verbatim>\<open>StartExec\<close> needs the mutex to close it. The size
  \<^verbatim>\<open>StartExec\<close> itself sets counts as the first resize.
\<close>

section \<open>State\<close>

datatype fd = Stdout | Stderr

record execChunk =
  ck_stdout :: bytes
  ck_stderr :: bytes

definition chunk :: "fd \<Rightarrow> bytes \<Rightarrow> execChunk" where
  "chunk f b = (case f of Stdout \<Rightarrow> \<lparr>ck_stdout = b, ck_stderr = []\<rparr> | Stderr \<Rightarrow> \<lparr>ck_stdout = [], ck_stderr = b\<rparr>)"

definition part :: "fd \<Rightarrow> execChunk \<Rightarrow> bytes" where
  "part f c = (case f of Stdout \<Rightarrow> ck_stdout c | Stderr \<Rightarrow> ck_stderr c)"

text \<open>A pipe: the rest of the write under way, and which ends are open.\<close>

record exec_pipe =
  pi_pending :: bytes
  pi_w :: bool
  pi_r :: bool

datatype tty_reader = TrReading | TrSending bytes | TrEnded

text \<open>The goroutine of \<^verbatim>\<open>StartExec\<close>: in \<^verbatim>\<open>Exec\<close>, returned from it, and then after the send of the result and after each of its
  deferred calls.\<close>

datatype exec_pc = EpRunning | EpReturned "go_error option" | EpSentDone | EpClosedSizes | EpClosedErr | EpClosedOut | EpFinished

datatype tty_exit = ExitCtx | ExitSend go_error | ExitEnd

datatype tty_handler = ThSelect | ThSending execChunk | ThCleanup tty_exit | ThReturned tty_exit

text \<open>\<open>tt_ctx\<close>: the context of the request is done; \<open>tt_left\<close>: because the client left; \<open>tt_cancelled\<close>: \<^verbatim>\<open>sess.Cancel\<close> was
  called; \<open>tt_aborted\<close>: \<^verbatim>\<open>Exec\<close> returned because its context was done, its copies may still write; \<open>tt_queue\<close>: the size
  queue and the \<^verbatim>\<open>Set\<close> that holds its mutex; \<open>tt_resizes\<close> counts the calls of \<^verbatim>\<open>Set\<close>. \<open>tt_written\<close> and
  \<open>tt_got\<close> record the output of the command and what the client received, \<open>tt_cut\<close> that a write was cut off or a chunk dropped; \<open>tt_seen\<close> and \<open>tt_msgs\<close>
  the events the loop of the handler saw and the messages it sent after the session identifier.\<close>

record tty_stream =
  tt_tty :: bool
  tt_ctx :: bool
  tt_left :: bool
  tt_cancelled :: bool
  tt_stored :: bool
  tt_Done :: "go_error option list"
  tt_exec :: exec_pc
  tt_aborted :: bool
  tt_inW :: bool
  tt_inR :: bool
  tt_queue :: "TerminalSizeQueue \<times> set_pc"
  tt_resizes :: nat
  tt_pipe :: "fd \<Rightarrow> exec_pipe"
  tt_reader :: "fd \<Rightarrow> tty_reader"
  tt_ch :: "execChunk list"
  tt_closed :: bool
  tt_handler :: tty_handler
  tt_written :: "fd \<Rightarrow> bytes"
  tt_got :: "fd \<Rightarrow> bytes"
  tt_cut :: "fd \<Rightarrow> bool"
  tt_seen :: "exec_event list"
  tt_msgs :: "exec_msg list"

definition chunk_cap :: nat where
  "chunk_cap = 8"

definition tty_begin :: "bool \<Rightarrow> tty_stream" where
  "tty_begin tty = \<lparr>tt_tty = tty, tt_ctx = False, tt_left = False, tt_cancelled = False, tt_stored = True, tt_Done = [], tt_exec = EpRunning,
     tt_aborted = False, tt_inW = True, tt_inR = True, tt_queue = (NewTerminalSizeQueue, Unlocked), tt_resizes = 0,
     tt_pipe = (\<lambda>_. \<lparr>pi_pending = [], pi_w = True, pi_r = True\<rparr>), tt_reader = (\<lambda>_. TrReading), tt_ch = [], tt_closed = False,
     tt_handler = ThSelect, tt_written = (\<lambda>_. []), tt_got = (\<lambda>_. []), tt_cut = (\<lambda>_. False), tt_seen = [], tt_msgs = []\<rparr>"

section \<open>Steps\<close>

datatype tty_label = CommandWrites fd bytes | CommandExits "go_error option" | ClientGoes | Resizes TerminalSize | SizeTaken | Within

text \<open>Of the libraries the steps take over what they document: \<^verbatim>\<open>StreamWithContext\<close> returns the result of the command after its
  output was copied, or at once when its context is done, and then its copies may go on writing until the pipe is closed; a
  pipe hands over the bytes of a write in one or more reads; \<^verbatim>\<open>net/http\<close> cancels the context of a request when its handler
  has returned (\<open>request_over\<close>); with a terminal, the library reads the size queue until it is closed.\<close>

text \<open>\<^verbatim>\<open>Close\<close> of either end cuts off a write that is under way.\<close>

definition close_w :: "fd \<Rightarrow> tty_stream \<Rightarrow> tty_stream" where
  "close_w f s = s\<lparr>tt_pipe := (tt_pipe s)(f := (tt_pipe s f)\<lparr>pi_w := False, pi_pending := []\<rparr>),
     tt_cut := (tt_cut s)(f := tt_cut s f \<or> pi_pending (tt_pipe s f) \<noteq> [])\<rparr>"

definition end_reader :: "fd \<Rightarrow> tty_stream \<Rightarrow> tty_stream" where
  "end_reader f s = s\<lparr>tt_reader := (tt_reader s)(f := TrEnded), tt_pipe := (tt_pipe s)(f := (tt_pipe s f)\<lparr>pi_r := False, pi_pending := []\<rparr>),
     tt_cut := (tt_cut s)(f := tt_cut s f \<or> pi_pending (tt_pipe s f) \<noteq> [] \<or> tt_reader s f \<noteq> TrReading)\<rparr>"

text \<open>\<^verbatim>\<open>sess.Cancel()\<close> and \<^verbatim>\<open>sess.Stdin.Close()\<close> by whoever removed the session from the store.\<close>

definition end_exec :: "tty_stream \<Rightarrow> tty_stream" where
  "end_exec s = s\<lparr>tt_stored := False, tt_cancelled := True, tt_inW := False\<rparr>"

inductive tty_step :: "tty_label \<Rightarrow> tty_stream \<Rightarrow> tty_stream \<Rightarrow> bool" where
  command_writes: "tt_exec s = EpRunning \<or> tt_aborted s \<Longrightarrow> f = Stderr \<longrightarrow> \<not> tt_tty s \<Longrightarrow> pi_w (tt_pipe s f) \<Longrightarrow> pi_r (tt_pipe s f) \<Longrightarrow>
    pi_pending (tt_pipe s f) = [] \<Longrightarrow> b \<noteq> [] \<Longrightarrow>
    tty_step (CommandWrites f b) s (s\<lparr>tt_pipe := (tt_pipe s)(f := (tt_pipe s f)\<lparr>pi_pending := b\<rparr>),
      tt_written := (tt_written s)(f := tt_written s f @ b)\<rparr>)"
| command_exits: "tt_exec s = EpRunning \<Longrightarrow> \<forall>f. pi_pending (tt_pipe s f) = [] \<Longrightarrow>
    tty_step (CommandExits r) s (s\<lparr>tt_exec := EpReturned r\<rparr>)"
| client_goes: "\<not> tt_ctx s \<Longrightarrow> tty_step ClientGoes s (s\<lparr>tt_ctx := True, tt_left := True\<rparr>)"
| resize: "tt_queue s = (q, Unlocked) \<Longrightarrow> \<not> closed q \<Longrightarrow>
    tty_step (Resizes x) s (s\<lparr>tt_queue := (q, SendOrFull x), tt_resizes := Suc (tt_resizes s)\<rparr>)"
| set_goes_on: "set_next (tt_queue s) = Some st \<Longrightarrow> tty_step Within s (s\<lparr>tt_queue := st\<rparr>)"
| size_taken: "tt_tty s \<Longrightarrow> tt_queue s = (q, pc) \<Longrightarrow> ch q = y # ys \<Longrightarrow> tty_step SizeTaken s (s\<lparr>tt_queue := (q\<lparr>ch := ys\<rparr>, pc)\<rparr>)"
| exec_aborts: "tt_exec s = EpRunning \<Longrightarrow> tt_ctx s \<or> tt_cancelled s \<Longrightarrow>
    tty_step Within s (s\<lparr>tt_exec := EpReturned (Some e), tt_aborted := True\<rparr>)"
| send_done: "tt_exec s = EpReturned r \<Longrightarrow> tty_step Within s (s\<lparr>tt_exec := EpSentDone, tt_Done := tt_Done s @ [r]\<rparr>)"
| close_sizes: "tt_exec s = EpSentDone \<Longrightarrow> tt_queue s = (q, Unlocked) \<Longrightarrow>
    tty_step Within s (s\<lparr>tt_exec := EpClosedSizes, tt_queue := (CloseQueue q, Unlocked)\<rparr>)"
| close_err: "tt_exec s = EpClosedSizes \<Longrightarrow> tty_step Within s ((close_w Stderr s)\<lparr>tt_exec := EpClosedErr\<rparr>)"
| close_out: "tt_exec s = EpClosedErr \<Longrightarrow> tty_step Within s ((close_w Stdout s)\<lparr>tt_exec := EpClosedOut\<rparr>)"
| close_in: "tt_exec s = EpClosedOut \<Longrightarrow> tty_step Within s (s\<lparr>tt_exec := EpFinished, tt_inR := False\<rparr>)"
| pipe_read: "tt_reader s f = TrReading \<Longrightarrow> pi_pending (tt_pipe s f) = x @ y \<Longrightarrow> x \<noteq> [] \<Longrightarrow> length x \<le> streamChunkSize \<Longrightarrow>
    tty_step Within s (s\<lparr>tt_reader := (tt_reader s)(f := TrSending x), tt_pipe := (tt_pipe s)(f := (tt_pipe s f)\<lparr>pi_pending := y\<rparr>)\<rparr>)"
| pipe_eof: "tt_reader s f = TrReading \<Longrightarrow> \<not> pi_w (tt_pipe s f) \<Longrightarrow> tty_step Within s (end_reader f s)"
| put_chunk: "tt_reader s f = TrSending x \<Longrightarrow> length (tt_ch s) < chunk_cap \<Longrightarrow>
    tty_step Within s (s\<lparr>tt_reader := (tt_reader s)(f := TrReading), tt_ch := tt_ch s @ [chunk f x]\<rparr>)"
| put_quits: "tt_reader s f = TrSending x \<Longrightarrow> tt_ctx s \<Longrightarrow> tty_step Within s (end_reader f s)"
| close_ch: "\<forall>f. tt_reader s f = TrEnded \<Longrightarrow> \<not> tt_closed s \<Longrightarrow> tty_step Within s (s\<lparr>tt_closed := True\<rparr>)"
| take_chunk: "tt_handler s = ThSelect \<Longrightarrow> tt_ch s = c # cs \<Longrightarrow> tty_step Within s (s\<lparr>tt_handler := ThSending c, tt_ch := cs, tt_seen := tt_seen s @ [ExChunk (ck_stdout c) (ck_stderr c)]\<rparr>)"
| select_ctx: "tt_handler s = ThSelect \<Longrightarrow> tt_ctx s \<Longrightarrow> tty_step Within s (s\<lparr>tt_handler := ThCleanup ExitCtx, tt_seen := tt_seen s @ [ExCtxDone]\<rparr>)"
| select_closed: "tt_handler s = ThSelect \<Longrightarrow> tt_ch s = [] \<Longrightarrow> tt_closed s \<Longrightarrow> tty_step Within s (s\<lparr>tt_handler := ThCleanup ExitEnd\<rparr>)"
| chunk_sent: "tt_handler s = ThSending c \<Longrightarrow>
    tty_step Within s (s\<lparr>tt_handler := ThSelect, tt_got := (\<lambda>f. tt_got s f @ part f c),
      tt_msgs := tt_msgs s @ [MsgOutput (ck_stdout c) (ck_stderr c)]\<rparr>)"
| send_fails: "tt_handler s = ThSending c \<Longrightarrow> tty_step Within s (s\<lparr>tt_handler := ThCleanup (ExitSend e)\<rparr>)"
| cleanup: "tt_handler s = ThCleanup r \<Longrightarrow>
    tty_step Within s ((if tt_stored s then end_exec s else s)\<lparr>tt_handler := ThReturned r\<rparr>)"
| request_over: "tt_handler s = ThReturned r \<Longrightarrow> \<not> tt_ctx s \<Longrightarrow> tty_step Within s (s\<lparr>tt_ctx := True\<rparr>)"
| reap: "tt_stored s \<Longrightarrow> tt_Done s = r # rs \<Longrightarrow> tty_step Within s ((end_exec s)\<lparr>tt_Done := rs\<rparr>)"

abbreviation tty_reached :: "bool \<Rightarrow> tty_label list \<Rightarrow> tty_stream \<Rightarrow> bool" where
  "tty_reached tty \<equiv> run tty_step (tty_begin tty)"

lemmas tty_updates = close_w_def end_reader_def end_exec_def

section \<open>Invariant\<close>

text \<open>The ends of the pipes follow the goroutines.\<close>

definition pending_ok :: "tty_stream \<Rightarrow> bool" where
  "pending_ok s \<longleftrightarrow> (\<forall>f. pi_pending (tt_pipe s f) \<noteq> [] \<longrightarrow> pi_w (tt_pipe s f) \<and> pi_r (tt_pipe s f) \<and> (tt_exec s = EpRunning \<or> tt_aborted s))"

definition writers_ok :: "tty_stream \<Rightarrow> bool" where
  "writers_ok s \<longleftrightarrow>
     (pi_w (tt_pipe s Stderr) \<longleftrightarrow> tt_exec s \<notin> {EpClosedErr, EpClosedOut, EpFinished}) \<and>
     (pi_w (tt_pipe s Stdout) \<longleftrightarrow> tt_exec s \<notin> {EpClosedOut, EpFinished}) \<and> (tt_inR s \<longleftrightarrow> tt_exec s \<noteq> EpFinished)"

definition readers_ok :: "tty_stream \<Rightarrow> bool" where
  "readers_ok s \<longleftrightarrow>
     (\<forall>f. pi_r (tt_pipe s f) \<longleftrightarrow> tt_reader s f \<noteq> TrEnded) \<and> (\<forall>f. tt_reader s f = TrEnded \<and> \<not> tt_ctx s \<longrightarrow> \<not> pi_w (tt_pipe s f)) \<and>
     (tt_closed s \<longrightarrow> (\<forall>f. tt_reader s f = TrEnded)) \<and> length (tt_ch s) \<le> chunk_cap"

definition store_ok :: "tty_stream \<Rightarrow> bool" where
  "store_ok s \<longleftrightarrow>
     (tt_stored s \<longleftrightarrow> \<not> tt_cancelled s) \<and> (tt_inW s \<longleftrightarrow> tt_stored s) \<and> (\<forall>r. tt_handler s = ThReturned r \<longrightarrow> \<not> tt_stored s) \<and>
     (tt_Done s \<noteq> [] \<longrightarrow> tt_exec s \<noteq> EpRunning) \<and> (\<forall>r. tt_exec s = EpReturned r \<longrightarrow> tt_Done s = []) \<and>
     (tt_exec s = EpRunning \<and> tt_cancelled s \<longrightarrow> (\<exists>r. tt_handler s = ThReturned r)) \<and>
     (tt_left s \<longrightarrow> tt_ctx s) \<and> (tt_ctx s \<and> \<not> tt_left s \<longrightarrow> (\<exists>r. tt_handler s = ThReturned r))"

lemma pending_ok_step: "tty_step l s s' \<Longrightarrow> pending_ok s \<Longrightarrow> pending_ok s'"
  by (cases rule: tty_step.cases, assumption) (auto simp: pending_ok_def tty_updates, metis append_is_Nil_conv)

lemma writers_ok_step: "tty_step l s s' \<Longrightarrow> writers_ok s \<Longrightarrow> writers_ok s'"
  by (cases rule: tty_step.cases, assumption) (auto simp: writers_ok_def tty_updates)

lemma readers_ok_step: "tty_step l s s' \<Longrightarrow> readers_ok s \<Longrightarrow> readers_ok s'"
  by (cases rule: tty_step.cases, assumption) (auto simp: readers_ok_def tty_updates chunk_cap_def)

lemma store_ok_step: "tty_step l s s' \<Longrightarrow> store_ok s \<Longrightarrow> store_ok s'"
  by (cases rule: tty_step.cases, assumption) (auto simp: store_ok_def tty_updates)

text \<open>The size queue keeps its own invariant, is closed by the deferred call only, and a \<^verbatim>\<open>Set\<close> drains it only when it was full.\<close>

definition sizes_ok :: "tty_stream \<Rightarrow> bool" where
  "sizes_ok s \<longleftrightarrow> queue_inv (tt_queue s) \<and> (closed (fst (tt_queue s)) \<longleftrightarrow> tt_exec s \<in> {EpClosedSizes, EpClosedErr, EpClosedOut, EpFinished}) \<and>
     (case snd (tt_queue s) of
        Unlocked \<Rightarrow> length (ch (fst (tt_queue s))) \<le> tt_resizes s
      | Draining x \<Rightarrow> queue_cap < tt_resizes s \<and> (tt_tty s \<or> ch (fst (tt_queue s)) \<noteq> [])
      | _ \<Rightarrow> length (ch (fst (tt_queue s))) < tt_resizes s)"

lemma set_next_sizes:
  assumes "set_next (tt_queue s) = Some st" "sizes_ok s"
  shows "sizes_ok (s\<lparr>tt_queue := st\<rparr>)"
proof -
  obtain q pc where q: "tt_queue s = (q, pc)" by fastforce
  have "queue_inv st" using queue_inv_step [OF set_next_step [OF assms(1)]] assms(2) by (simp add: sizes_ok_def)
  with assms q show ?thesis
    by (cases pc) (auto simp: sizes_ok_def queue_inv_def queue_cap_def split: if_splits list.splits)
qed

lemma sizes_ok_frame:
  assumes "sizes_ok s" "tt_queue s' = tt_queue s" "tt_tty s' = tt_tty s" "tt_resizes s' = tt_resizes s"
    and "tt_exec s' \<in> {EpClosedSizes, EpClosedErr, EpClosedOut, EpFinished} \<longleftrightarrow> tt_exec s \<in> {EpClosedSizes, EpClosedErr, EpClosedOut, EpFinished}"
  shows "sizes_ok s'"
  using assms(1) unfolding sizes_ok_def assms(2-5) .

lemma sizes_ok_step:
  assumes "tty_step l s s'" "sizes_ok s"
  shows "sizes_ok s'"
  using assms(1)
proof cases
  case (size_taken q pc y ys)
  then show ?thesis using assms(2) by (cases pc) (auto simp: sizes_ok_def queue_inv_def)
next
  case (set_goes_on st)
  then show ?thesis using set_next_sizes assms(2) by simp
next
  case (close_sizes q)
  then show ?thesis using assms(2) by (auto simp: sizes_ok_def queue_inv_def CloseQueue_def)
next
  case (resize q x)
  then show ?thesis using assms(2) by (auto simp: sizes_ok_def queue_inv_def)
qed (rule sizes_ok_frame [OF assms(2)]; simp add: tty_updates)+

text \<open>Where the output of the command is: received, in the hands of the handler, in the channel, in the hands of its
  reader, in the pipe, or lost.\<close>

primrec in_hand :: "tty_handler \<Rightarrow> fd \<Rightarrow> bytes" where
  "in_hand ThSelect f = []"
| "in_hand (ThSending c) f = part f c"
| "in_hand (ThCleanup r) f = []"
| "in_hand (ThReturned r) f = []"

primrec held :: "tty_reader \<Rightarrow> bytes" where
  "held TrReading = []"
| "held (TrSending x) = x"
| "held TrEnded = []"

definition under_way :: "tty_stream \<Rightarrow> fd \<Rightarrow> bytes" where
  "under_way s f = in_hand (tt_handler s) f @ concat (map (part f) (tt_ch s)) @ held (tt_reader s f) @ pi_pending (tt_pipe s f)"

definition live :: "tty_handler \<Rightarrow> bool" where
  "live h \<longleftrightarrow> (case h of ThSelect \<Rightarrow> True | ThSending _ \<Rightarrow> True | _ \<Rightarrow> False)"

definition gone :: "tty_handler \<Rightarrow> tty_exit \<Rightarrow> bool" where
  "gone h r \<longleftrightarrow> h = ThCleanup r \<or> h = ThReturned r"

lemma live_simps [simp]: "live ThSelect" "live (ThSending c)" "\<not> live (ThCleanup r)" "\<not> live (ThReturned r)"
  by (simp_all add: live_def)

lemma gone_simps [simp]: "\<not> gone ThSelect r" "\<not> gone (ThSending c) r" "gone (ThCleanup r') r \<longleftrightarrow> r' = r" "gone (ThReturned r') r \<longleftrightarrow> r' = r"
  by (auto simp: gone_def)

lemma part_chunk [simp]: "part f (chunk g x) = (if f = g then x else [])"
  by (simp add: part_def chunk_def split: fd.splits)

definition prefix_ok :: "tty_stream \<Rightarrow> fd \<Rightarrow> bool" where
  "prefix_ok s f \<longleftrightarrow> (\<exists>rest. tt_written s f = tt_got s f @ rest)"

definition data_ok :: "tty_stream \<Rightarrow> fd \<Rightarrow> bool" where
  "data_ok s f \<longleftrightarrow>
     (live (tt_handler s) \<longrightarrow>
        (\<exists>lost. tt_written s f = tt_got s f @ under_way s f @ lost \<and> (tt_cut s f \<or> lost = []) \<and>
           (lost \<noteq> [] \<longrightarrow> \<not> pi_w (tt_pipe s f) \<or> \<not> pi_r (tt_pipe s f))))"

definition end_ok :: "tty_stream \<Rightarrow> bool" where
  "end_ok s \<longleftrightarrow>
     (gone (tt_handler s) ExitEnd \<longrightarrow>
        tt_closed s \<and> (\<forall>f. tt_cut s f \<or> tt_written s f = tt_got s f) \<and> (\<not> tt_left s \<longrightarrow> (\<forall>f. \<not> pi_w (tt_pipe s f))))"

definition whole_ok :: "tty_stream \<Rightarrow> bool" where
  "whole_ok s \<longleftrightarrow>
     (\<not> tt_left s \<and> (live (tt_handler s) \<or> gone (tt_handler s) ExitEnd) \<longrightarrow> \<not> tt_aborted s \<and> (\<forall>f. \<not> tt_cut s f))"

lemma data_ok_step:
  assumes "tty_step l s s'" "data_ok s f"
  shows "data_ok s' f"
  using assms
  by (cases rule: tty_step.cases) (auto simp: data_ok_def under_way_def tty_updates split: if_splits)

lemma prefix_ok_step:
  assumes "tty_step l s s'" "data_ok s f" "prefix_ok s f"
  shows "prefix_ok s' f"
  using assms
  by (cases rule: tty_step.cases) (auto simp: prefix_ok_def data_ok_def under_way_def tty_updates)

lemma end_ok_step:
  assumes "tty_step l s s'" "end_ok s" "\<And>f. data_ok s f" "pending_ok s" "readers_ok s" "store_ok s"
  shows "end_ok s'"
  using assms(1)
proof cases
  case select_closed
  have ended: "tt_reader s f = TrEnded" "pi_pending (tt_pipe s f) = []" for f
    using select_closed assms(4,5) by (auto simp: pending_ok_def readers_ok_def)
  have "tt_cut s f \<or> tt_written s f = tt_got s f" for f
    using assms(3) [of f] select_closed ended by (auto simp: data_ok_def under_way_def)
  then show ?thesis using select_closed ended assms(5,6) by (auto simp: end_ok_def readers_ok_def store_ok_def)
next
  case command_writes
  then show ?thesis using assms(2,5) by (auto simp: end_ok_def readers_ok_def)
qed (use assms(2) in \<open>auto simp: end_ok_def tty_updates\<close>)

lemma whole_ok_step:
  assumes "tty_step l s s'" "whole_ok s" "end_ok s" "pending_ok s" "writers_ok s" "readers_ok s" "store_ok s"
  shows "whole_ok s'"
  using assms(1)
proof cases
  case exec_aborts
  then show ?thesis using assms(2,3,5,7) by (auto simp: whole_ok_def end_ok_def writers_ok_def store_ok_def)
next
  case (put_quits f x)
  then show ?thesis using assms(3,6,7) by (auto simp: whole_ok_def end_ok_def readers_ok_def store_ok_def end_reader_def)
next
  case (pipe_eof f)
  then show ?thesis using assms(2,4) by (auto simp: whole_ok_def pending_ok_def end_reader_def)
next
  case close_err
  then show ?thesis using assms(2,4) by (auto simp: whole_ok_def pending_ok_def close_w_def)
next
  case close_out
  then show ?thesis using assms(2,4) by (auto simp: whole_ok_def pending_ok_def close_w_def)
qed (use assms(2) in \<open>auto simp: whole_ok_def end_exec_def\<close>)

definition tty_inv :: "tty_stream \<Rightarrow> bool" where
  "tty_inv s \<longleftrightarrow> pending_ok s \<and> writers_ok s \<and> readers_ok s \<and> store_ok s \<and> sizes_ok s \<and> end_ok s \<and> whole_ok s \<and> (\<forall>f. prefix_ok s f \<and> data_ok s f)"

interpretation terminal: closed_set tty_step "\<lambda>_. True" tty_inv
proof unfold_locales
  fix s l s' assume "tty_inv s" and st: "tty_step l s s'"
  then have inv: "pending_ok s" "writers_ok s" "readers_ok s" "store_ok s" "end_ok s" "prefix_ok s f" "data_ok s f" "whole_ok s" "sizes_ok s" for f by (simp_all add: tty_inv_def)
  show "tty_inv s'"
    unfolding tty_inv_def
    using pending_ok_step [OF st inv(1)] writers_ok_step [OF st inv(2)] readers_ok_step [OF st inv(3)] store_ok_step [OF st inv(4)]
      end_ok_step [OF st inv(5,7,1,3,4)] whole_ok_step [OF st inv(8,5,1-4)] prefix_ok_step [OF st inv(7,6)] data_ok_step [OF st inv(7)] sizes_ok_step [OF st inv(9)] by blast
qed

lemma tty_inv_begin: "tty_inv (tty_begin tty)"
  by (simp add: tty_inv_def tty_begin_def pending_ok_def writers_ok_def readers_ok_def store_ok_def sizes_ok_def queue_inv_def
      NewTerminalSizeQueue_def end_ok_def whole_ok_def prefix_ok_def data_ok_def under_way_def)

lemma tty_reached_inv: "tty_reached tty ls s \<Longrightarrow> tty_inv s"
  using terminal.run_stays [OF _ tty_inv_begin] by (simp add: list_all_iff)

section \<open>The goroutines end\<close>

primrec exec_work :: "exec_pc \<Rightarrow> nat" where
  "exec_work EpRunning = 6"
| "exec_work (EpReturned r) = 5"
| "exec_work EpSentDone = 4"
| "exec_work EpClosedSizes = 3"
| "exec_work EpClosedErr = 2"
| "exec_work EpClosedOut = 1"
| "exec_work EpFinished = 0"

primrec handler_work :: "tty_handler \<Rightarrow> nat" where
  "handler_work ThSelect = 2"
| "handler_work (ThSending c) = 3"
| "handler_work (ThCleanup r) = 1"
| "handler_work (ThReturned r) = 0"

primrec set_work :: "set_pc \<Rightarrow> nat" where
  "set_work Unlocked = 0"
| "set_work (SendOrFull x) = 3"
| "set_work (Draining x) = 2"
| "set_work (Pushing x) = 1"

lemma set_next_work: "set_next st = Some st' \<Longrightarrow> set_work (snd st') < set_work (snd st)"
  by (induction st rule: set_next.induct) (auto split: if_splits list.splits)

definition reader_work :: "tty_stream \<Rightarrow> fd \<Rightarrow> nat" where
  "reader_work s f = 4 * length (pi_pending (tt_pipe s f)) + (case tt_reader s f of TrReading \<Rightarrow> 1 | TrSending _ \<Rightarrow> 4 | TrEnded \<Rightarrow> 0)"

definition tty_work :: "tty_stream \<Rightarrow> nat" where
  "tty_work s = exec_work (tt_exec s) + handler_work (tt_handler s) + reader_work s Stdout + reader_work s Stderr + 2 * length (tt_ch s) +
     set_work (snd (tt_queue s)) + (if tt_closed s then 0 else 1) + (if tt_ctx s then 0 else 1) + (if tt_stored s then 1 else 0)"

interpretation terminal: counted_steps tty_step "\<lambda>l. l = Within" tty_work
proof unfold_locales
  fix s l s' assume "tty_step l s s'" "l = Within"
  then show "tty_work s' < tty_work s"
  proof (cases rule: tty_step.cases)
    case (pipe_read f x y)
    then have "3 < 4 * length x" by (cases x) simp_all
    then show ?thesis using pipe_read by (cases f) (auto simp: tty_work_def reader_work_def)
  next
    case (pipe_eof f)
    then show ?thesis by (cases f) (auto simp: tty_work_def reader_work_def end_reader_def)
  next
    case (put_chunk f x)
    then show ?thesis by (cases f) (auto simp: tty_work_def reader_work_def)
  next
    case (put_quits f x)
    then show ?thesis by (cases f) (auto simp: tty_work_def reader_work_def end_reader_def)
  next
    case (set_goes_on st)
    then show ?thesis using set_next_work by (simp add: tty_work_def reader_work_def)
  qed (auto simp: tty_work_def reader_work_def close_w_def end_exec_def)
qed

definition all_ended :: "tty_stream \<Rightarrow> bool" where
  "all_ended s \<longleftrightarrow> (\<exists>r. tt_handler s = ThReturned r) \<and> (\<forall>f. tt_reader s f = TrEnded) \<and> tt_closed s \<and> tt_exec s = EpFinished \<and>
     \<not> tt_stored s \<and> \<not> tt_inW s \<and> \<not> tt_inR s \<and> closed (fst (tt_queue s))"

text \<open>The session waits for its command.\<close>

definition waiting :: "tty_stream \<Rightarrow> bool" where
  "waiting s \<longleftrightarrow> tt_exec s = EpRunning \<and> \<not> tt_ctx s \<and> tt_handler s = ThSelect \<and> tt_ch s = [] \<and> tt_stored s \<and> (\<forall>f. tt_reader s f = TrReading)"

text \<open>The session hangs: its goroutine waits for the mutex of the size queue, which a \<^verbatim>\<open>Set\<close> holds that waits for a size to
  drop, and there is none.\<close>

definition jammed :: "tty_stream \<Rightarrow> bool" where
  "jammed s \<longleftrightarrow> tt_exec s = EpSentDone \<and> (\<exists>x. snd (tt_queue s) = Draining x) \<and> ch (fst (tt_queue s)) = []"

text \<open>What holds when no goroutine can do a step.\<close>

lemma stuck_set:
  assumes "\<forall>s'. \<not> tty_step Within s s'" "queue_inv (tt_queue s)"
  shows "snd (tt_queue s) = Unlocked \<or> (\<exists>x. snd (tt_queue s) = Draining x) \<and> ch (fst (tt_queue s)) = []"
proof -
  obtain q pc where q: "tt_queue s = (q, pc)" by fastforce
  have none: "set_next (q, pc) = None" using assms(1) set_goes_on [of s] q by (metis option.exhaust)
  show ?thesis
    using none assms(2) q by (cases pc) (auto simp: queue_inv_def split: if_splits list.splits)
qed

lemma stuck_exec:
  assumes "\<forall>s'. \<not> tty_step Within s s'" "queue_inv (tt_queue s)"
  shows "tt_exec s = EpFinished \<or> tt_exec s = EpRunning \<and> \<not> tt_ctx s \<and> \<not> tt_cancelled s \<or> jammed s"
proof (cases "tt_exec s = EpSentDone")
  case True
  have "snd (tt_queue s) \<noteq> Unlocked" using close_sizes [OF True, of "fst (tt_queue s)"] assms(1) by (metis prod.collapse)
  then show ?thesis using stuck_set [OF assms] True by (auto simp: jammed_def)
next
  case False
  then show ?thesis using assms(1) by (cases "tt_exec s") (blast intro: exec_aborts send_done close_err close_out close_in)+
qed

lemma stuck_reader:
  assumes "\<forall>s'. \<not> tty_step Within s s'" "tt_reader s f = TrReading"
  shows "pi_w (tt_pipe s f)" "pi_pending (tt_pipe s f) = []"
proof -
  show "pi_w (tt_pipe s f)" using assms by (blast intro: pipe_eof)
  show "pi_pending (tt_pipe s f) = []"
  proof (rule ccontr)
    assume "pi_pending (tt_pipe s f) \<noteq> []"
    then obtain b bs where b: "pi_pending (tt_pipe s f) = [b] @ bs" by (metis append_Cons append_Nil neq_Nil_conv)
    have "length [b] \<le> streamChunkSize" by (simp add: streamChunkSize_def)
    from pipe_read [OF assms(2) b _ this] assms(1) show False by blast
  qed
qed

lemma stuck_handler:
  assumes "\<forall>s'. \<not> tty_step Within s s'"
  shows "tt_handler s = ThSelect \<and> tt_ch s = [] \<and> \<not> tt_ctx s \<and> \<not> tt_closed s \<or> (\<exists>r. tt_handler s = ThReturned r) \<and> tt_ctx s"
  using assms
  by (cases "tt_handler s"; cases "tt_ch s") (blast intro: take_chunk select_ctx select_closed chunk_sent cleanup request_over)+

lemma stuck_cases:
  assumes "tty_inv s" and stuck: "\<forall>s'. \<not> tty_step Within s s'"
  shows "all_ended s \<or> waiting s \<or> jammed s"
proof -
  have inv: "writers_ok s" "readers_ok s" "store_ok s" "sizes_ok s" using assms(1) by (simp_all add: tty_inv_def)
  have sending: "\<not> tt_ctx s \<and> chunk_cap \<le> length (tt_ch s)" if "tt_reader s f = TrSending x" for f x
    using stuck put_chunk [OF that] put_quits [OF that] by (meson not_le)
  show ?thesis
  proof (cases "tt_exec s = EpFinished")
    case True
    then have closed: "\<not> pi_w (tt_pipe s f)" for f using inv(1) by (cases f) (simp_all add: writers_ok_def)
    have "tt_reader s f = TrEnded" for f
    proof (cases "tt_reader s f")
      case TrReading
      then show ?thesis using stuck_reader(1) [OF stuck] closed by blast
    next
      case (TrSending x)
      then show ?thesis using sending [OF TrSending] stuck_handler [OF stuck] by (auto simp: chunk_cap_def)
    qed
    moreover from this have "tt_closed s" using stuck close_ch by blast
    moreover from this obtain r where "tt_handler s = ThReturned r" using stuck_handler [OF stuck] by blast
    ultimately show ?thesis using True inv(1,3,4) by (auto simp: all_ended_def writers_ok_def store_ok_def sizes_ok_def)
  next
    case False
    show ?thesis
    proof (cases "jammed s")
      case False
      then have run: "tt_exec s = EpRunning" "\<not> tt_ctx s" "\<not> tt_cancelled s"
        using stuck_exec [OF stuck] inv(4) \<open>tt_exec s \<noteq> EpFinished\<close> by (auto simp: sizes_ok_def)
      then have h: "tt_handler s = ThSelect" "tt_ch s = []" using stuck_handler [OF stuck] by blast+
      have "tt_reader s f = TrReading" for f
        using sending [of f] h(2) inv(1,2) run by (cases "tt_reader s f"; cases f) (auto simp: chunk_cap_def writers_ok_def readers_ok_def)
      then show ?thesis using run h inv(3) by (simp add: waiting_def store_ok_def)
    qed simp
  qed
qed

definition is_resize :: "tty_label \<Rightarrow> bool" where
  "is_resize l \<longleftrightarrow> (case l of Resizes _ \<Rightarrow> True | _ \<Rightarrow> False)"

lemma is_resize_simps [simp]:
  "is_resize (Resizes x)" "\<not> is_resize (CommandWrites f b)" "\<not> is_resize (CommandExits e)" "\<not> is_resize ClientGoes"
  "\<not> is_resize SizeTaken" "\<not> is_resize Within"
  by (simp_all add: is_resize_def)

lemma tty_kept: "run tty_step s ls s' \<Longrightarrow> tt_tty s' = tt_tty s"
proof (induction rule: run.induct)
  case (cons l s s1 ls s2)
  from cons(1) have "tt_tty s1 = tt_tty s" by (cases rule: tty_step.cases) (simp_all add: tty_updates)
  with cons.IH show ?case by simp
qed simp

text \<open>The client left only if it says so, and a command with a terminal writes nothing on the error stream.\<close>

interpretation staying: closed_set tty_step "\<lambda>l. l \<noteq> ClientGoes" "\<lambda>s. \<not> tt_left s"
proof unfold_locales
  fix s l s' assume "\<not> tt_left s" and st: "tty_step l s s'" and "l \<noteq> ClientGoes"
  from st this(1,3) show "\<not> tt_left s'" by (cases rule: tty_step.cases) (auto simp: tty_updates)
qed

interpretation merged: closed_set tty_step "\<lambda>_. True" "\<lambda>s. tt_tty s \<and> tt_written s Stderr = []"
proof unfold_locales
  fix s l s' assume "tt_tty s \<and> tt_written s Stderr = []" and st: "tty_step l s s'"
  from st this show "tt_tty s' \<and> tt_written s' Stderr = []" by (cases rule: tty_step.cases) (auto simp: tty_updates)
qed

definition ending :: "tty_stream \<Rightarrow> bool" where
  "ending s \<longleftrightarrow> tt_ctx s \<or> tt_exec s \<noteq> EpRunning \<or> \<not> live (tt_handler s)"

interpretation ending: closed_set tty_step "\<lambda>_. True" ending
proof unfold_locales
  fix s l s' assume "ending s" and st: "tty_step l s s'"
  from st this show "ending s'" by (cases rule: tty_step.cases) (auto simp: ending_def tty_updates)
qed

section \<open>Properties\<close>

text \<open>Claim C16. Whatever the command, the client and the goroutines of a terminal session do and in whatever order: the client gets
  the output of the command in order, without gaps or repetition, on each of the two streams; nothing is sent on the closed
  channel and at most eight chunks wait in it; with a terminal nothing appears on the error stream; and when the
  handler returns because the output ended, although the client was there, it has got all of the output.\<close>

theorem terminal_output_complete:
  assumes "tty_reached tty ls s"
  shows "(\<exists>rest. tt_written s f = tt_got s f @ rest) \<and> length (tt_ch s) \<le> 8 \<and>
    (tt_closed s \<longrightarrow> (\<forall>f x. tt_reader s f \<noteq> TrSending x)) \<and> (tty \<longrightarrow> tt_got s Stderr = []) \<and>
    (tt_handler s = ThReturned ExitEnd \<and> ClientGoes \<notin> set ls \<longrightarrow> tt_got s f = tt_written s f)"
proof -
  note inv = tty_reached_inv [OF assms, unfolded tty_inv_def]
  have "\<not> tt_left s" if "ClientGoes \<notin> set ls"
    using staying.run_stays [OF assms] that by (auto simp: tty_begin_def list_all_iff)
  then have "tt_got s f = tt_written s f" if "tt_handler s = ThReturned ExitEnd" "ClientGoes \<notin> set ls"
    using inv that by (auto simp: end_ok_def whole_ok_def)
  moreover have "tt_written s Stderr = []" if tty using merged.run_stays [OF assms] that by (simp add: tty_begin_def list_all_iff)
  then have "tty \<longrightarrow> tt_got s Stderr = []" using inv by (auto simp: prefix_ok_def dest: spec [of _ Stderr])
  moreover have "(\<exists>rest. tt_written s f = tt_got s f @ rest)" "length (tt_ch s) \<le> 8" "tt_closed s \<longrightarrow> (\<forall>f x. tt_reader s f \<noteq> TrSending x)"
    using inv by (auto simp: prefix_ok_def readers_ok_def chunk_cap_def)
  ultimately show ?thesis by blast
qed

lemma resizes_counted:
  "run tty_step s ls s' \<Longrightarrow> tt_resizes s' = tt_resizes s + length (filter is_resize ls)"
proof (induction rule: run.induct)
  case (cons l s s1 ls s2)
  from cons(1) have "tt_resizes s1 = tt_resizes s + length (filter is_resize [l])"
    by (cases rule: tty_step.cases) (simp_all add: tty_updates)
  with cons.IH show ?case by simp
qed simp

text \<open>Claim C15. A terminal session ends unless its size queue jams: once its client has gone, its command has exited or its handler has left
  the loop, its goroutines can do only finitely many steps of their own, at most \<open>tty_work\<close> of them, and wherever they stop, either every
  one has ended, the pipes and the size queue are closed and the session is out of the store, or the session is jammed: a \<^verbatim>\<open>Set\<close> that found the
  size queue full holds its mutex and waits for a size to drop after the library has taken them all. That takes a terminal and more than four
  resizes (the size set at the start among them), so every other session ends. While none of the three has happened, the goroutines stop only
  to wait for the command.\<close>

theorem terminal_session_ends:
  assumes "tty_reached tty ls s"
  shows "(\<forall>ls' s'. run tty_step s ls' s' \<and> list_all (\<lambda>l. l = Within) ls' \<longrightarrow> length ls' \<le> tty_work s) \<and>
    (\<exists>ls' s'. run tty_step s ls' s' \<and> list_all (\<lambda>l. l = Within) ls' \<and> (\<forall>s''. \<not> tty_step Within s' s'')) \<and>
    (\<forall>ls' s'. run tty_step s ls' s' \<and> (\<forall>s''. \<not> tty_step Within s' s'') \<longrightarrow>
       all_ended s' \<or> waiting s' \<and> \<not> ending s \<or> jammed s' \<and> tty \<and> 4 < length (filter is_resize (ls @ ls')))"
proof -
  have stop: "all_ended s' \<or> waiting s' \<and> \<not> ending s \<or> jammed s' \<and> tty \<and> 4 < length (filter is_resize (ls @ ls'))"
    if "run tty_step s ls' s'" "\<forall>s''. \<not> tty_step Within s' s''" for ls' s'
  proof -
    note run = run_append [OF assms that(1)]
    have inv: "tty_inv s'" by (rule tty_reached_inv [OF run])
    have "ending s \<Longrightarrow> \<not> waiting s'" using ending.run_stays [OF that(1)] by (auto simp: ending_def waiting_def list_all_iff)
    moreover have "tt_tty s' = tty" using tty_kept [OF run] by (simp add: tty_begin_def)
    moreover have "tt_resizes s' = length (filter is_resize (ls @ ls'))" using resizes_counted [OF run] by (simp add: tty_begin_def)
    moreover have "jammed s' \<Longrightarrow> tt_tty s' \<and> 4 < tt_resizes s'" using inv by (auto simp: tty_inv_def jammed_def sizes_ok_def queue_cap_def)
    ultimately show ?thesis using stuck_cases [OF inv that(2)] by auto
  qed
  have bound: "length ls' \<le> tty_work s" if "run tty_step s ls' s'" "list_all (\<lambda>l. l = Within) ls'" for ls' s'
    using terminal.run_bounded [OF that] by simp
  have rest: "\<exists>ls' s'. run tty_step s ls' s' \<and> list_all (\<lambda>l. l = Within) ls' \<and> (\<forall>s''. \<not> tty_step Within s' s'')"
    using terminal.comes_to_rest [of s] unfolding terminal.at_rest_def by simp
  show ?thesis using stop bound by (intro conjI rest allI impI) (elim conjE, simp)+
qed

text \<open>Nothing gets a jammed session going again, and its handler waits as long as the client does.\<close>

lemma jammed_set: "jammed s \<Longrightarrow> set_next (tt_queue s) = None"
  by (cases "tt_queue s") (auto simp: jammed_def)

interpretation jam: closed_set tty_step "\<lambda>_. True" jammed
proof unfold_locales
  fix s l s' assume "jammed s" and st: "tty_step l s s'"
  from st this show "jammed s'" by (cases rule: tty_step.cases) (auto simp: jammed_set, auto simp: jammed_def tty_updates)
qed

definition hanging :: "tty_stream \<Rightarrow> bool" where
  "hanging s \<longleftrightarrow> jammed s \<and> \<not> tt_ctx s \<and> \<not> tt_aborted s \<and> tt_handler s = ThSelect \<and> tt_ch s = [] \<and> \<not> tt_closed s \<and>
     (\<forall>f. tt_reader s f = TrReading \<and> pi_pending (tt_pipe s f) = [] \<and> pi_w (tt_pipe s f))"

interpretation hanging: closed_set tty_step "\<lambda>l. l \<noteq> ClientGoes" hanging
proof unfold_locales
  fix s l s' assume h: "hanging s" and st: "tty_step l s s'" and "l \<noteq> ClientGoes"
  from h have "jammed s'" using jam.kept [OF _ st] by (simp add: hanging_def)
  with st h \<open>l \<noteq> ClientGoes\<close> show "hanging s'" by (cases rule: tty_step.cases) (auto simp: hanging_def jammed_def tty_updates)
qed

text \<open>Five resizes that the library reads too late, then the command exits.\<close>

abbreviation sized :: "TerminalSize \<Rightarrow> nat \<Rightarrow> set_pc \<Rightarrow> nat \<Rightarrow> tty_stream" where
  "sized x n pc k \<equiv> (tty_begin True)\<lparr>tt_queue := (\<lparr>ch = replicate n x, closed = False\<rparr>, pc), tt_resizes := k\<rparr>"

lemma sizes_fill: "n \<le> 4 \<Longrightarrow> tty_reached True (concat (replicate n [Resizes x, Within])) (sized x n Unlocked n)"
proof (induction n)
  case 0
  then show ?case by (simp add: tty_begin_def NewTerminalSizeQueue_def)
next
  case (Suc n)
  have "run tty_step (sized x n Unlocked n) [Resizes x, Within] (sized x (Suc n) Unlocked (Suc n))"
    using resize [of "sized x n Unlocked n" "\<lparr>ch = replicate n x, closed = False\<rparr>" x] Suc.prems
      set_goes_on [of "sized x n (SendOrFull x) (Suc n)" "(\<lparr>ch = replicate (Suc n) x, closed = False\<rparr>, Unlocked)"]
    by (intro run.cons [OF _ run_one]) (simp_all add: tty_begin_def queue_cap_def replicate_append_same)
  with Suc have "tty_reached True (concat (replicate n [Resizes x, Within]) @ [Resizes x, Within]) (sized x (Suc n) Unlocked (Suc n))"
    by (intro run_append) simp_all
  moreover have "concat (replicate n [Resizes x, Within]) @ [Resizes x, Within] = concat (replicate (Suc n) [Resizes x, Within])"
    by (induction n) simp_all
  ultimately show ?case by simp
qed

lemma sizes_drop: "run tty_step (sized x n pc k) (replicate n SizeTaken) (sized x 0 pc k)"
proof (induction n)
  case (Suc n)
  have "tty_step SizeTaken (sized x (Suc n) pc k) (sized x n pc k)"
    using size_taken [of "sized x (Suc n) pc k" "\<lparr>ch = replicate (Suc n) x, closed = False\<rparr>" pc x "replicate n x"]
    by (simp add: tty_begin_def)
  from run.cons [OF this Suc] show ?case by simp
qed simp

lemma sizes_jam:
  "tty_reached True (concat (replicate 4 [Resizes x, Within]) @ [Resizes x, Within] @ replicate 4 SizeTaken @ [CommandExits None, Within])
     ((sized x 0 (Draining x) 5)\<lparr>tt_exec := EpSentDone, tt_Done := [None]\<rparr>)"
proof -
  have "tty_reached True (concat (replicate 4 [Resizes x, Within])) (sized x 4 Unlocked 4)" by (rule sizes_fill) simp
  moreover have "run tty_step (sized x 4 Unlocked 4) [Resizes x, Within] (sized x 4 (Draining x) 5)"
    using resize [of "sized x 4 Unlocked 4" "\<lparr>ch = replicate 4 x, closed = False\<rparr>" x]
      set_goes_on [of "sized x 4 (SendOrFull x) 5" "(\<lparr>ch = replicate 4 x, closed = False\<rparr>, Draining x)"]
    by (intro run.cons [OF _ run_one]) (simp_all add: tty_begin_def queue_cap_def)
  moreover have "run tty_step (sized x 4 (Draining x) 5) (replicate 4 SizeTaken) (sized x 0 (Draining x) 5)" by (rule sizes_drop)
  moreover have "run tty_step (sized x 0 (Draining x) 5) [CommandExits None, Within]
      ((sized x 0 (Draining x) 5)\<lparr>tt_exec := EpSentDone, tt_Done := [None]\<rparr>)"
    using command_exits [of "sized x 0 (Draining x) 5" None] send_done [of "(sized x 0 (Draining x) 5)\<lparr>tt_exec := EpReturned None\<rparr>" None]
    by (intro run.cons [OF _ run_one]) (simp_all add: tty_begin_def)
  ultimately show ?thesis by (intro run_append)
qed

text \<open>Claim C17. A size queue can hang a terminal session for good: there is a run in which a client only resizes, five times, and the command
  exits, after which, whatever else happens, the goroutine of \<^verbatim>\<open>StartExec\<close> never gets past the close of the size
  queue, the output pipes are never closed, and the call of a client that stays never returns, although its command has exited and its
  result was sent.\<close>

theorem resizes_hang_session:
  "\<exists>ls s. tty_reached True ls s \<and> (\<forall>l \<in> set ls. (\<exists>x. l = Resizes x) \<or> l \<in> {SizeTaken, Within, CommandExits None}) \<and>
     length (filter is_resize ls) = 5 \<and> tt_Done s = [None] \<and>
     (\<forall>ls' s'. run tty_step s ls' s' \<longrightarrow> tt_exec s' = EpSentDone \<and> (\<forall>f. pi_w (tt_pipe s' f)) \<and> (ClientGoes \<notin> set ls' \<longrightarrow> tt_handler s' = ThSelect))"
proof -
  let ?x = "\<lparr>Width = 80, Height = 24\<rparr>"
  let ?s = "(sized ?x 0 (Draining ?x) 5)\<lparr>tt_exec := EpSentDone, tt_Done := [None]\<rparr>"
  note reached = sizes_jam [of ?x]
  have h: "hanging ?s" by (simp add: hanging_def jammed_def tty_begin_def)
  have "tt_exec s' = EpSentDone \<and> (\<forall>f. pi_w (tt_pipe s' f)) \<and> (ClientGoes \<notin> set ls' \<longrightarrow> tt_handler s' = ThSelect)"
    if "run tty_step ?s ls' s'" for ls' s'
  proof -
    have "jammed s'" using jam.run_stays [OF that] h by (simp add: hanging_def list_all_iff)
    moreover have "writers_ok s'" using tty_reached_inv [OF run_append [OF reached that]] by (simp add: tty_inv_def)
    moreover have "hanging s'" if "ClientGoes \<notin> set ls'" using hanging.run_stays [OF \<open>run tty_step ?s ls' s'\<close> h] that by (auto simp: list_all_iff)
    ultimately show ?thesis by (simp add: jammed_def writers_ok_def hanging_def) (metis fd.exhaust)
  qed
  then show ?thesis
    by (intro exI [of _ "concat (replicate 4 [Resizes ?x, Within]) @ [Resizes ?x, Within] @ replicate 4 SizeTaken @ [CommandExits None, Within]"] exI [of _ ?s])
       (use reached in \<open>simp add: numeral_eq_Suc\<close>)
qed

section \<open>The service computes what a run does\<close>

fun exit_ok :: "tty_exit \<Rightarrow> exec_event list \<Rightarrow> exec_msg list \<Rightarrow> bool" where
  "exit_ok ExitEnd seen msgs \<longleftrightarrow> list_all (goes_on chunk_kind) seen \<and> msgs = messages chunk_kind seen"
| "exit_ok ExitCtx seen msgs \<longleftrightarrow> (\<exists>es. seen = es @ [ExCtxDone] \<and> list_all (goes_on chunk_kind) es \<and> msgs = messages chunk_kind es)"
| "exit_ok (ExitSend e) seen msgs \<longleftrightarrow>
     (\<exists>es b1 b2. seen = es @ [ExChunk b1 b2] \<and> list_all (goes_on chunk_kind) es \<and> msgs = messages chunk_kind es)"

fun loop_ok :: "tty_handler \<Rightarrow> exec_event list \<Rightarrow> exec_msg list \<Rightarrow> bool" where
  "loop_ok ThSelect seen msgs \<longleftrightarrow> list_all (goes_on chunk_kind) seen \<and> msgs = messages chunk_kind seen"
| "loop_ok (ThSending c) seen msgs \<longleftrightarrow>
     (\<exists>es. seen = es @ [ExChunk (ck_stdout c) (ck_stderr c)] \<and> list_all (goes_on chunk_kind) es \<and> msgs = messages chunk_kind es)"
| "loop_ok (ThCleanup r) seen msgs \<longleftrightarrow> exit_ok r seen msgs"
| "loop_ok (ThReturned r) seen msgs \<longleftrightarrow> exit_ok r seen msgs"

primrec msg_part :: "fd \<Rightarrow> exec_msg \<Rightarrow> bytes" where
  "msg_part f (MsgSession i) = []"
| "msg_part f (MsgOutput out err) = (case f of Stdout \<Rightarrow> out | Stderr \<Rightarrow> err)"

definition handler_ok :: "tty_stream \<Rightarrow> bool" where
  "handler_ok s \<longleftrightarrow> loop_ok (tt_handler s) (tt_seen s) (tt_msgs s) \<and> (\<forall>f. tt_got s f = concat (map (msg_part f) (tt_msgs s)))"

interpretation handled: closed_set tty_step "\<lambda>_. True" handler_ok
proof unfold_locales
  fix s l s' assume "handler_ok s" and st: "tty_step l s s'"
  from st this show "handler_ok s'"
    by (cases rule: tty_step.cases) (auto simp: handler_ok_def tty_updates goes_on_def part_def split: fd.splits)
qed

lemma handler_ok_begin: "handler_ok (tty_begin tty)"
  by (simp add: handler_ok_def tty_begin_def)

fun exit_result :: "tty_exit \<Rightarrow> unit res" where
  "exit_result (ExitSend e) = Inl e"
| "exit_result ExitCtx = Inr ()"
| "exit_result ExitEnd = Inr ()"

lemma exit_computed:
  assumes "exit_ok r seen msgs"
  shows "\<exists>sendf. sendf [] = None \<and> forward_chunks sendf seen [m0] = (exit_result r, m0 # msgs)"
proof (cases r)
  case (ExitSend e)
  then obtain es b1 b2 where es: "seen = es @ [ExChunk b1 b2]" "list_all (goes_on chunk_kind) es" "msgs = messages chunk_kind es"
    using assms by auto
  show ?thesis
    using terminal_loop.ends_by_send [OF es(2), of "ExChunk b1 b2" _ "[m0]" e]
    by (intro exI [of _ "refuses_after (length [m0] + length msgs) e"]) (simp add: es ExitSend refuses_after_def)
next
  case ExitCtx
  then show ?thesis using assms terminal_loop.ends_by_event [of _ ExCtxDone "[m0]"] by (auto intro: exI [of _ "\<lambda>_. None"])
next
  case ExitEnd
  then show ?thesis using assms terminal_loop.ends_closed [of seen "[m0]"] by (auto intro: exI [of _ "\<lambda>_. None"])
qed

text \<open>The running goroutines of a terminal session implement the method of the service: whenever the handler has returned,
  there is a client for which \<^verbatim>\<open>ExecuteTTY\<close>, as a function, given the events its loop saw, returns the same
  result and sends the same messages, whose parts are what the client got on the two streams. So what is shown of the method holds of its runs.\<close>

lemma terminal_refines_service:
  assumes "dims_ok (et_Rows req) (et_Cols req)" "StartExec w ref uuid (exec_params req) = (Inr (ref, call), w1)"
    and "tty_reached (et_Tty req) ls s" "tt_handler s = ThReturned r"
  shows "(\<exists>sendf. \<forall>env. ExecuteTTY w ref uuid sendf (tt_seen s) env req = ((exit_result r, MsgSession uuid # tt_msgs s), CleanupExec (env w1) uuid)) \<and>
    (\<forall>f. tt_got s f = concat (map (msg_part f) (tt_msgs s)))"
proof -
  have ok: "handler_ok s" using handled.run_stays [OF assms(3) handler_ok_begin] by (simp add: list_all_iff)
  then have "exit_ok r (tt_seen s) (tt_msgs s)" using assms(4) by (simp add: handler_ok_def)
  then obtain sendf where "sendf [] = None" "forward_chunks sendf (tt_seen s) [MsgSession uuid] = (exit_result r, MsgSession uuid # tt_msgs s)"
    using exit_computed [where ?m0.0 = "MsgSession uuid"] by blast
  then show ?thesis
    using ok assms(1,2) by (intro conjI exI [of _ sendf]) (simp_all add: ExecuteTTY_def handler_ok_def)
qed

section \<open>Witnesses\<close>

text \<open>A command that says something and exits.\<close>

definition demo_said :: tty_stream where
  "demo_said = (tty_begin False)\<lparr>tt_written := (\<lambda>_. [])(Stdout := ''hi''), tt_got := (\<lambda>_. [])(Stdout := ''hi''),
     tt_seen := [ExChunk ''hi'' []], tt_msgs := [MsgOutput ''hi'' []]\<rparr>"

definition demo_exited :: tty_stream where
  "demo_exited = demo_said\<lparr>tt_exec := EpFinished, tt_Done := [None], tt_queue := (\<lparr>ch = [], closed = True\<rparr>, Unlocked), tt_inR := False,
     tt_pipe := (\<lambda>_. \<lparr>pi_pending = [], pi_w = False, pi_r = True\<rparr>)\<rparr>"

definition demo_over :: tty_stream where
  "demo_over = demo_exited\<lparr>tt_pipe := (\<lambda>_. \<lparr>pi_pending = [], pi_w = False, pi_r = False\<rparr>), tt_reader := (\<lambda>_. TrEnded), tt_closed := True,
     tt_stored := False, tt_cancelled := True, tt_inW := False, tt_handler := ThReturned ExitEnd\<rparr>"

lemma fd_funs: "g = h \<longleftrightarrow> g Stdout = h Stdout \<and> g Stderr = h Stderr"
  by (metis ext fd.exhaust)

lemma demo_says: "tty_reached False [CommandWrites Stdout ''hi'', Within, Within, Within, Within] demo_said"
proof -
  let ?s0 = "tty_begin False"
  let ?s1 = "?s0\<lparr>tt_pipe := (tt_pipe ?s0)(Stdout := (tt_pipe ?s0 Stdout)\<lparr>pi_pending := ''hi''\<rparr>), tt_written := (tt_written ?s0)(Stdout := tt_written ?s0 Stdout @ ''hi'')\<rparr>"
  let ?s2 = "?s1\<lparr>tt_reader := (tt_reader ?s1)(Stdout := TrSending ''hi''), tt_pipe := (tt_pipe ?s1)(Stdout := (tt_pipe ?s1 Stdout)\<lparr>pi_pending := []\<rparr>)\<rparr>"
  let ?s3 = "?s2\<lparr>tt_reader := (tt_reader ?s2)(Stdout := TrReading), tt_ch := tt_ch ?s2 @ [chunk Stdout ''hi'']\<rparr>"
  let ?c = "chunk Stdout ''hi''"
  let ?s4 = "?s3\<lparr>tt_handler := ThSending ?c, tt_ch := [], tt_seen := tt_seen ?s3 @ [ExChunk (ck_stdout ?c) (ck_stderr ?c)]\<rparr>"
  let ?s5 = "?s4\<lparr>tt_handler := ThSelect, tt_got := (\<lambda>f. tt_got ?s4 f @ part f ?c), tt_msgs := tt_msgs ?s4 @ [MsgOutput (ck_stdout ?c) (ck_stderr ?c)]\<rparr>"
  have "tty_step (CommandWrites Stdout ''hi'') ?s0 ?s1" by (rule command_writes) (simp_all add: tty_begin_def)
  moreover have "tty_step Within ?s1 ?s2" by (rule pipe_read) (simp_all add: tty_begin_def streamChunkSize_def)
  moreover have "tty_step Within ?s2 ?s3" by (rule put_chunk) (simp_all add: tty_begin_def chunk_cap_def)
  moreover have "tty_step Within ?s3 ?s4" by (rule take_chunk) (simp_all add: tty_begin_def)
  moreover have "tty_step Within ?s4 ?s5" by (rule chunk_sent) simp
  ultimately have "tty_reached False [CommandWrites Stdout ''hi'', Within, Within, Within, Within] ?s5"
    by (rule run.cons [OF _ run.cons [OF _ run.cons [OF _ run.cons [OF _ run_one]]]])
  also have "?s5 = demo_said" by (simp add: demo_said_def tty_begin_def fd_funs chunk_def part_def)
  finally show ?thesis .
qed

lemma demo_exits: "run tty_step demo_said (CommandExits None # replicate 5 Within) demo_exited"
proof -
  let ?s1 = "demo_said\<lparr>tt_exec := EpReturned None\<rparr>"
  let ?s2 = "?s1\<lparr>tt_exec := EpSentDone, tt_Done := tt_Done ?s1 @ [None]\<rparr>"
  let ?s3 = "?s2\<lparr>tt_exec := EpClosedSizes, tt_queue := (CloseQueue NewTerminalSizeQueue, Unlocked)\<rparr>"
  let ?s4 = "(close_w Stderr ?s3)\<lparr>tt_exec := EpClosedErr\<rparr>"
  let ?s5 = "(close_w Stdout ?s4)\<lparr>tt_exec := EpClosedOut\<rparr>"
  let ?s6 = "?s5\<lparr>tt_exec := EpFinished, tt_inR := False\<rparr>"
  have "tty_step (CommandExits None) demo_said ?s1" by (rule command_exits) (simp_all add: demo_said_def tty_begin_def)
  moreover have "tty_step Within ?s1 ?s2" by (rule send_done) simp
  moreover have "tty_step Within ?s2 ?s3" by (rule close_sizes) (simp_all add: demo_said_def tty_begin_def)
  moreover have "tty_step Within ?s3 ?s4" by (rule close_err) simp
  moreover have "tty_step Within ?s4 ?s5" by (rule close_out) simp
  moreover have "tty_step Within ?s5 ?s6" by (rule close_in) simp
  ultimately have "run tty_step demo_said [CommandExits None, Within, Within, Within, Within, Within] ?s6"
    by (rule run.cons [OF _ run.cons [OF _ run.cons [OF _ run.cons [OF _ run.cons [OF _ run_one]]]]])
  also have "?s6 = demo_exited" by (simp add: demo_exited_def demo_said_def tty_begin_def close_w_def CloseQueue_def NewTerminalSizeQueue_def fd_funs)
  finally show ?thesis by (simp add: numeral_eq_Suc)
qed

lemma demo_ends: "run tty_step demo_exited (replicate 5 Within) demo_over"
proof -
  let ?s1 = "end_reader Stdout demo_exited"
  let ?s2 = "end_reader Stderr ?s1"
  let ?s3 = "?s2\<lparr>tt_closed := True\<rparr>"
  let ?s4 = "?s3\<lparr>tt_handler := ThCleanup ExitEnd\<rparr>"
  let ?s5 = "(if tt_stored ?s4 then end_exec ?s4 else ?s4)\<lparr>tt_handler := ThReturned ExitEnd\<rparr>"
  note defs = demo_exited_def demo_said_def tty_begin_def end_reader_def
  have "tty_step Within demo_exited ?s1" by (rule pipe_eof) (simp_all add: defs)
  moreover have "tty_step Within ?s1 ?s2" by (rule pipe_eof) (simp_all add: defs)
  moreover have "tt_reader ?s2 f = TrEnded" for f by (cases f) (simp_all add: defs)
  then have "tty_step Within ?s2 ?s3" by (intro close_ch) (simp_all add: defs)
  moreover have "tty_step Within ?s3 ?s4" by (rule select_closed) (simp_all add: defs)
  moreover have "tty_step Within ?s4 ?s5" by (rule cleanup) simp
  ultimately have "run tty_step demo_exited [Within, Within, Within, Within, Within] ?s5"
    by (rule run.cons [OF _ run.cons [OF _ run.cons [OF _ run.cons [OF _ run_one]]]])
  also have "?s5 = demo_over" by (simp add: demo_over_def defs end_exec_def fd_funs)
  finally show ?thesis by (simp add: numeral_eq_Suc)
qed

theorem terminal_output_complete_witness:
  "\<exists>ls. tty_reached False ls demo_over \<and> ClientGoes \<notin> set ls \<and> tt_handler demo_over = ThReturned ExitEnd \<and>
     tt_written demo_over Stdout = ''hi'' \<and> tt_got demo_over Stdout = tt_written demo_over Stdout"
proof -
  note run = run_append [OF demo_says run_append [OF demo_exits demo_ends]]
  have "tt_handler demo_over = ThReturned ExitEnd" "tt_written demo_over Stdout = ''hi''"
    by (simp_all add: demo_over_def demo_exited_def demo_said_def)
  moreover have "ClientGoes \<notin> set ([CommandWrites Stdout ''hi'', Within, Within, Within, Within] @ (CommandExits None # replicate 5 Within) @ replicate 5 Within)"
    by simp
  ultimately show ?thesis using terminal_output_complete [OF run, of Stdout] run by blast
qed

theorem terminal_session_ends_witness:
  "\<exists>s ls s'. tty_reached True [ClientGoes] s \<and> run tty_step s ls s' \<and> list_all (\<lambda>l. l = Within) ls \<and> all_ended s'"
proof -
  let ?s = "(tty_begin True)\<lparr>tt_ctx := True, tt_left := True\<rparr>"
  have run: "tty_reached True [ClientGoes] ?s" by (rule run_one, rule client_goes) (simp add: tty_begin_def)
  have ending: "ending ?s" by (simp add: ending_def)
  note ends = terminal_session_ends [OF run]
  obtain ls s' where own: "run tty_step ?s ls s'" "list_all (\<lambda>l. l = Within) ls" "\<forall>s''. \<not> tty_step Within s' s''"
    using conjunct1 [OF conjunct2 [OF ends]] by blast
  have "filter is_resize ([ClientGoes] @ ls) = []" using own(2) by (induction ls) auto
  then have "all_ended s'" using conjunct2 [OF conjunct2 [OF ends]] own(1,3) ending by fastforce
  then show ?thesis using run own by blast
qed

theorem resizes_hang_session_witness:
  "\<exists>ls s. tty_reached True ls s \<and> tt_Done s = [None] \<and> tt_exec s = EpSentDone \<and> tt_handler s = ThSelect \<and>
     (\<forall>s' l. tty_step l s s' \<and> l \<noteq> ClientGoes \<longrightarrow> tt_exec s' = EpSentDone \<and> tt_handler s' = ThSelect)"
proof -
  obtain ls s where s: "tty_reached True ls s" "tt_Done s = [None]"
      "\<forall>ls' s'. run tty_step s ls' s' \<longrightarrow> tt_exec s' = EpSentDone \<and> (\<forall>f. pi_w (tt_pipe s' f)) \<and> (ClientGoes \<notin> set ls' \<longrightarrow> tt_handler s' = ThSelect)"
    using resizes_hang_session by blast
  have "tt_exec s = EpSentDone" "tt_handler s = ThSelect" using s(3) [rule_format, OF run.nil] by simp_all
  moreover have "tt_exec s' = EpSentDone \<and> tt_handler s' = ThSelect" if "tty_step l s s'" "l \<noteq> ClientGoes" for s' l
    using s(3) [rule_format, OF run_one [of tty_step, OF that(1)]] that(2) by simp
  ultimately show ?thesis using s(1,2) by blast
qed

end
