(* ===== verification/Rpc.thy ===== *)
theory Rpc
  imports Agent Resource_Handler Runtime Server_Mux
begin

text \<open>
  The generated RPC code of the three services (\<^verbatim>\<open>api/*/v1/pbconnect\<close>): the interfaces of their
  implementations, the handlers \<^verbatim>\<open>connect\<close> makes of the methods, the clients, and the stubs that answer
  \<^verbatim>\<open>CodeUnimplemented\<close>; and the agent's use of the fleet client (\<^verbatim>\<open>fleet_registrar.go\<close>).

  The library \<^verbatim>\<open>connect\<close> with the coding of messages is an argument, one instance for each pair of message types, as the
  source instantiates its generic functions: a record \<open>connect_unary\<close> or \<open>connect_stream\<close>. What the code relies on is
  \<open>unary_serves\<close> and \<open>stream_serves\<close> (a handler calls its method with the decoded message, at most once) and \<open>unary_calls\<close>: when the HTTP
  client of a call hands the request to the handler of that procedure, the call returns what the method returned. Messages are given by the fields the services read. A stream is
  the list of its messages and the error that ends it. Cancellation on the side of a client is not represented.
\<close>

section \<open>Messages and methods\<close>

type_synonym ListClustersRequest = unit
type_synonym GetAgentManifestRequest = gostring
type_synonym DiscoveryRequest = gostring
type_synonym SchemaRequest = "gostring \<times> gostring \<times> gostring \<times> gostring"
type_synonym ListRequest = "ResourceIdentifier \<times> ListOptions"
type_synonym CreateRequest = "ResourceIdentifier \<times> bytes"
type_synonym ApplyRequest = "ResourceIdentifier \<times> bytes \<times> ApplyOptions"
type_synonym DeleteRequest = "ResourceIdentifier \<times> int option"
type_synonym WatchRequest = "ResourceIdentifier \<times> WatchOptions"
type_synonym WriteRequest = "gostring \<times> bytes"
type_synonym ResizeTTYRequest = "gostring \<times> uint32 \<times> uint32"
type_synonym PortForwardRequest = "gostring \<times> gostring \<times> gostring \<times> 32 word"
type_synonym ScaleRequest = "ResourceIdentifier \<times> 32 word"

text \<open>The first message of a port-forward carries the session, the others data.\<close>

datatype pf_msg = PfSession gostring | PfData bytes

text \<open>A method that streams has no result while its stream is open.\<close>

type_synonym ('q, 'p, 'w) unary_method = "go_context \<Rightarrow> 'q \<Rightarrow> ('w, 'p) eff"
type_synonym ('q, 'p, 'w) stream_method = "go_context \<Rightarrow> 'q \<Rightarrow> 'w \<Rightarrow> ('p list \<times> go_error option) option \<times> 'w"

section \<open>The library\<close>

type_synonym ('w, 'r) HTTPClient = "http_request \<Rightarrow> ('w, 'r) eff"

record 'p connect_Response =
  Msg :: 'p

type_synonym ('q, 'p, 'w) unary_client = "'q \<Rightarrow> 'w \<Rightarrow> ('p connect_Response option \<times> go_error option) \<times> 'w"
type_synonym ('q, 'p, 'w) stream_client = "'q \<Rightarrow> 'w \<Rightarrow> ('p list \<times> go_error option) res \<times> 'w"

text \<open>\<^verbatim>\<open>connect.NewClient\<close> with its call, and \<^verbatim>\<open>connect.NewUnaryHandlerSimple\<close>, at a pair of message types.\<close>

text \<open>The first field is how a handler decodes its message.\<close>

record ('q, 'p, 'w, 'r) connect_unary =
  cu_Unmarshal :: "http_request \<Rightarrow> 'q res"
  cu_NewClient :: "('w, 'r) HTTPClient \<Rightarrow> gostring \<Rightarrow> ('q, 'p, 'w) unary_client"
  cu_NewHandler :: "gostring \<Rightarrow> ('q, 'p, 'w) unary_method \<Rightarrow> ('w, 'r) handler"

record ('q, 'p, 'w, 'r) connect_stream =
  cs_Unmarshal :: "http_request \<Rightarrow> 'q res"
  cs_NewClient :: "('w, 'r) HTTPClient \<Rightarrow> gostring \<Rightarrow> ('q, 'p, 'w) stream_client"
  cs_NewHandler :: "gostring \<Rightarrow> ('q, 'p, 'w) stream_method \<Rightarrow> ('w, 'r) handler"

record ('w, 'r) fleet_connect =
  fcn_ListClusters :: "(ListClustersRequest, pb_Cluster list, 'w, 'r) connect_unary"
  fcn_Register :: "(RegisterRequest, Registration, 'w, 'r) connect_unary"
  fcn_GetAgentManifest :: "(GetAgentManifestRequest, gostring \<times> gostring, 'w, 'r) connect_unary"

record ('st, 'w, 'r) resource_connect =
  rcn_Discovery :: "(DiscoveryRequest, pb_APIResource list, 'w, 'r) connect_unary"
  rcn_Schema :: "(SchemaRequest, 'st, 'w, 'r) connect_unary"
  rcn_List :: "(ListRequest, 'st pb_ListResponse, 'w, 'r) connect_unary"
  rcn_Get :: "(ResourceIdentifier, 'st, 'w, 'r) connect_unary"
  rcn_Describe :: "(ResourceIdentifier, 'st \<times> 'st list, 'w, 'r) connect_unary"
  rcn_Create :: "(CreateRequest, 'st, 'w, 'r) connect_unary"
  rcn_Apply :: "(ApplyRequest, 'st, 'w, 'r) connect_unary"
  rcn_Delete :: "(DeleteRequest, unit, 'w, 'r) connect_unary"
  rcn_Watch :: "(WatchRequest, 'st pb_WatchEvent, 'w, 'r) connect_stream"

record ('w, 'r) runtime_connect =
  tcn_PodLog :: "(PodLogRequest, bytes, 'w, 'r) connect_stream"
  tcn_ExecuteTTY :: "(ExecuteTTYRequest, exec_msg, 'w, 'r) connect_stream"
  tcn_WriteTTY :: "(WriteRequest, unit, 'w, 'r) connect_unary"
  tcn_ResizeTTY :: "(ResizeTTYRequest, unit, 'w, 'r) connect_unary"
  tcn_PortForward :: "(PortForwardRequest, pf_msg, 'w, 'r) connect_stream"
  tcn_WritePortForward :: "(WriteRequest, unit, 'w, 'r) connect_unary"
  tcn_Scale :: "(ScaleRequest, 32 word, 'w, 'r) connect_unary"
  tcn_Restart :: "(ResourceIdentifier, unit, 'w, 'r) connect_unary"

section \<open>The interfaces of the services\<close>

record 'w FleetServiceHandler =
  fsh_ListClusters :: "(ListClustersRequest, pb_Cluster list, 'w) unary_method"
  fsh_Register :: "(RegisterRequest, Registration, 'w) unary_method"
  fsh_GetAgentManifest :: "(GetAgentManifestRequest, gostring \<times> gostring, 'w) unary_method"

record ('st, 'w) ResourceServiceHandler =
  rsh_Discovery :: "(DiscoveryRequest, pb_APIResource list, 'w) unary_method"
  rsh_Schema :: "(SchemaRequest, 'st, 'w) unary_method"
  rsh_List :: "(ListRequest, 'st pb_ListResponse, 'w) unary_method"
  rsh_Get :: "(ResourceIdentifier, 'st, 'w) unary_method"
  rsh_Describe :: "(ResourceIdentifier, 'st \<times> 'st list, 'w) unary_method"
  rsh_Create :: "(CreateRequest, 'st, 'w) unary_method"
  rsh_Apply :: "(ApplyRequest, 'st, 'w) unary_method"
  rsh_Delete :: "(DeleteRequest, unit, 'w) unary_method"
  rsh_Watch :: "(WatchRequest, 'st pb_WatchEvent, 'w) stream_method"

record 'w RuntimeServiceHandler =
  tsh_PodLog :: "(PodLogRequest, bytes, 'w) stream_method"
  tsh_ExecuteTTY :: "(ExecuteTTYRequest, exec_msg, 'w) stream_method"
  tsh_WriteTTY :: "(WriteRequest, unit, 'w) unary_method"
  tsh_ResizeTTY :: "(ResizeTTYRequest, unit, 'w) unary_method"
  tsh_PortForward :: "(PortForwardRequest, pf_msg, 'w) stream_method"
  tsh_WritePortForward :: "(WriteRequest, unit, 'w) unary_method"
  tsh_Scale :: "(ScaleRequest, 32 word, 'w) unary_method"
  tsh_Restart :: "(ResourceIdentifier, unit, 'w) unary_method"

section \<open>The handlers of the procedures\<close>

definition fleet_handlers :: "('w, 'r) fleet_connect \<Rightarrow> 'w FleetServiceHandler \<Rightarrow> ('w, 'r) fleet_http_handlers" where
  "fleet_handlers X svc =
     \<lparr>fh_ListClusters = cu_NewHandler (fcn_ListClusters X) FleetServiceListClustersProcedure (fsh_ListClusters svc),
      fh_Register = cu_NewHandler (fcn_Register X) FleetServiceRegisterProcedure (fsh_Register svc),
      fh_GetAgentManifest = cu_NewHandler (fcn_GetAgentManifest X) FleetServiceGetAgentManifestProcedure (fsh_GetAgentManifest svc)\<rparr>"

definition resource_handlers :: "('st, 'w, 'r) resource_connect \<Rightarrow> ('st, 'w) ResourceServiceHandler \<Rightarrow> ('w, 'r) resource_http_handlers" where
  "resource_handlers X svc =
     \<lparr>rh_Discovery = cu_NewHandler (rcn_Discovery X) ResourceServiceDiscoveryProcedure (rsh_Discovery svc),
      rh_Schema = cu_NewHandler (rcn_Schema X) ResourceServiceSchemaProcedure (rsh_Schema svc),
      rh_List = cu_NewHandler (rcn_List X) ResourceServiceListProcedure (rsh_List svc),
      rh_Get = cu_NewHandler (rcn_Get X) ResourceServiceGetProcedure (rsh_Get svc),
      rh_Describe = cu_NewHandler (rcn_Describe X) ResourceServiceDescribeProcedure (rsh_Describe svc),
      rh_Create = cu_NewHandler (rcn_Create X) ResourceServiceCreateProcedure (rsh_Create svc),
      rh_Apply = cu_NewHandler (rcn_Apply X) ResourceServiceApplyProcedure (rsh_Apply svc),
      rh_Delete = cu_NewHandler (rcn_Delete X) ResourceServiceDeleteProcedure (rsh_Delete svc),
      rh_Watch = cs_NewHandler (rcn_Watch X) ResourceServiceWatchProcedure (rsh_Watch svc)\<rparr>"

definition runtime_handlers :: "('w, 'r) runtime_connect \<Rightarrow> 'w RuntimeServiceHandler \<Rightarrow> ('w, 'r) runtime_http_handlers" where
  "runtime_handlers X svc =
     \<lparr>th_PodLog = cs_NewHandler (tcn_PodLog X) RuntimeServicePodLogProcedure (tsh_PodLog svc),
      th_ExecuteTTY = cs_NewHandler (tcn_ExecuteTTY X) RuntimeServiceExecuteTTYProcedure (tsh_ExecuteTTY svc),
      th_WriteTTY = cu_NewHandler (tcn_WriteTTY X) RuntimeServiceWriteTTYProcedure (tsh_WriteTTY svc),
      th_ResizeTTY = cu_NewHandler (tcn_ResizeTTY X) RuntimeServiceResizeTTYProcedure (tsh_ResizeTTY svc),
      th_PortForward = cs_NewHandler (tcn_PortForward X) RuntimeServicePortForwardProcedure (tsh_PortForward svc),
      th_WritePortForward = cu_NewHandler (tcn_WritePortForward X) RuntimeServiceWritePortForwardProcedure (tsh_WritePortForward svc),
      th_Scale = cu_NewHandler (tcn_Scale X) RuntimeServiceScaleProcedure (tsh_Scale svc),
      th_Restart = cu_NewHandler (tcn_Restart X) RuntimeServiceRestartProcedure (tsh_Restart svc)\<rparr>"

section \<open>The clients\<close>

text \<open>\<^verbatim>\<open>if response != nil { return response.Msg, err }; return nil, err\<close>.\<close>

definition response_msg :: "'p connect_Response option \<times> go_error option \<Rightarrow> 'p option \<times> go_error option" where
  "response_msg r = (case fst r of Some response \<Rightarrow> (Some (Msg response), snd r) | None \<Rightarrow> (None, snd r))"

record 'w fleetServiceClient =
  cl_listClusters :: "(ListClustersRequest, pb_Cluster list, 'w) unary_client"
  cl_register :: "(RegisterRequest, Registration, 'w) unary_client"
  cl_getAgentManifest :: "(GetAgentManifestRequest, gostring \<times> gostring, 'w) unary_client"

definition NewFleetServiceClient :: "('w, 'r) fleet_connect \<Rightarrow> ('w, 'r) HTTPClient \<Rightarrow> gostring \<Rightarrow> 'w fleetServiceClient" where
  "NewFleetServiceClient X httpClient baseURL =
     (let baseURL = trim_right_char CHR ''/'' baseURL in
      \<lparr>cl_listClusters = cu_NewClient (fcn_ListClusters X) httpClient (baseURL @ FleetServiceListClustersProcedure),
       cl_register = cu_NewClient (fcn_Register X) httpClient (baseURL @ FleetServiceRegisterProcedure),
       cl_getAgentManifest = cu_NewClient (fcn_GetAgentManifest X) httpClient (baseURL @ FleetServiceGetAgentManifestProcedure)\<rparr>)"

definition fleetServiceClient_ListClusters :: "'w fleetServiceClient \<Rightarrow> ListClustersRequest \<Rightarrow> 'w \<Rightarrow> ((pb_Cluster list) option \<times> go_error option) \<times> 'w" where
  "fleetServiceClient_ListClusters c req w = (case cl_listClusters c req w of (r, w') \<Rightarrow> (response_msg r, w'))"

definition fleetServiceClient_Register :: "'w fleetServiceClient \<Rightarrow> RegisterRequest \<Rightarrow> 'w \<Rightarrow> ((Registration) option \<times> go_error option) \<times> 'w" where
  "fleetServiceClient_Register c req w = (case cl_register c req w of (r, w') \<Rightarrow> (response_msg r, w'))"

definition fleetServiceClient_GetAgentManifest :: "'w fleetServiceClient \<Rightarrow> GetAgentManifestRequest \<Rightarrow> 'w \<Rightarrow> ((gostring \<times> gostring) option \<times> go_error option) \<times> 'w" where
  "fleetServiceClient_GetAgentManifest c req w = (case cl_getAgentManifest c req w of (r, w') \<Rightarrow> (response_msg r, w'))"

record ('st, 'w) resourceServiceClient =
  cl_discovery :: "(DiscoveryRequest, pb_APIResource list, 'w) unary_client"
  cl_schema :: "(SchemaRequest, 'st, 'w) unary_client"
  cl_list :: "(ListRequest, 'st pb_ListResponse, 'w) unary_client"
  cl_get :: "(ResourceIdentifier, 'st, 'w) unary_client"
  cl_describe :: "(ResourceIdentifier, 'st \<times> 'st list, 'w) unary_client"
  cl_create :: "(CreateRequest, 'st, 'w) unary_client"
  cl_apply :: "(ApplyRequest, 'st, 'w) unary_client"
  cl_delete :: "(DeleteRequest, unit, 'w) unary_client"
  cl_watch :: "(WatchRequest, 'st pb_WatchEvent, 'w) stream_client"

definition NewResourceServiceClient :: "('st, 'w, 'r) resource_connect \<Rightarrow> ('w, 'r) HTTPClient \<Rightarrow> gostring \<Rightarrow> ('st, 'w) resourceServiceClient" where
  "NewResourceServiceClient X httpClient baseURL =
     (let baseURL = trim_right_char CHR ''/'' baseURL in
      \<lparr>cl_discovery = cu_NewClient (rcn_Discovery X) httpClient (baseURL @ ResourceServiceDiscoveryProcedure),
       cl_schema = cu_NewClient (rcn_Schema X) httpClient (baseURL @ ResourceServiceSchemaProcedure),
       cl_list = cu_NewClient (rcn_List X) httpClient (baseURL @ ResourceServiceListProcedure),
       cl_get = cu_NewClient (rcn_Get X) httpClient (baseURL @ ResourceServiceGetProcedure),
       cl_describe = cu_NewClient (rcn_Describe X) httpClient (baseURL @ ResourceServiceDescribeProcedure),
       cl_create = cu_NewClient (rcn_Create X) httpClient (baseURL @ ResourceServiceCreateProcedure),
       cl_apply = cu_NewClient (rcn_Apply X) httpClient (baseURL @ ResourceServiceApplyProcedure),
       cl_delete = cu_NewClient (rcn_Delete X) httpClient (baseURL @ ResourceServiceDeleteProcedure),
       cl_watch = cs_NewClient (rcn_Watch X) httpClient (baseURL @ ResourceServiceWatchProcedure)\<rparr>)"

definition resourceServiceClient_Discovery :: "('st, 'w) resourceServiceClient \<Rightarrow> DiscoveryRequest \<Rightarrow> 'w \<Rightarrow> ((pb_APIResource list) option \<times> go_error option) \<times> 'w" where
  "resourceServiceClient_Discovery c req w = (case cl_discovery c req w of (r, w') \<Rightarrow> (response_msg r, w'))"

definition resourceServiceClient_Schema :: "('st, 'w) resourceServiceClient \<Rightarrow> SchemaRequest \<Rightarrow> 'w \<Rightarrow> (('st) option \<times> go_error option) \<times> 'w" where
  "resourceServiceClient_Schema c req w = (case cl_schema c req w of (r, w') \<Rightarrow> (response_msg r, w'))"

definition resourceServiceClient_List :: "('st, 'w) resourceServiceClient \<Rightarrow> ListRequest \<Rightarrow> 'w \<Rightarrow> (('st pb_ListResponse) option \<times> go_error option) \<times> 'w" where
  "resourceServiceClient_List c req w = (case cl_list c req w of (r, w') \<Rightarrow> (response_msg r, w'))"

definition resourceServiceClient_Get :: "('st, 'w) resourceServiceClient \<Rightarrow> ResourceIdentifier \<Rightarrow> 'w \<Rightarrow> (('st) option \<times> go_error option) \<times> 'w" where
  "resourceServiceClient_Get c req w = (case cl_get c req w of (r, w') \<Rightarrow> (response_msg r, w'))"

definition resourceServiceClient_Describe :: "('st, 'w) resourceServiceClient \<Rightarrow> ResourceIdentifier \<Rightarrow> 'w \<Rightarrow> (('st \<times> 'st list) option \<times> go_error option) \<times> 'w" where
  "resourceServiceClient_Describe c req w = (case cl_describe c req w of (r, w') \<Rightarrow> (response_msg r, w'))"

definition resourceServiceClient_Create :: "('st, 'w) resourceServiceClient \<Rightarrow> CreateRequest \<Rightarrow> 'w \<Rightarrow> (('st) option \<times> go_error option) \<times> 'w" where
  "resourceServiceClient_Create c req w = (case cl_create c req w of (r, w') \<Rightarrow> (response_msg r, w'))"

definition resourceServiceClient_Apply :: "('st, 'w) resourceServiceClient \<Rightarrow> ApplyRequest \<Rightarrow> 'w \<Rightarrow> (('st) option \<times> go_error option) \<times> 'w" where
  "resourceServiceClient_Apply c req w = (case cl_apply c req w of (r, w') \<Rightarrow> (response_msg r, w'))"

definition resourceServiceClient_Delete :: "('st, 'w) resourceServiceClient \<Rightarrow> DeleteRequest \<Rightarrow> 'w \<Rightarrow> ((unit) option \<times> go_error option) \<times> 'w" where
  "resourceServiceClient_Delete c req w = (case cl_delete c req w of (r, w') \<Rightarrow> (response_msg r, w'))"

definition resourceServiceClient_Watch :: "('st, 'w) resourceServiceClient \<Rightarrow> (WatchRequest, 'st pb_WatchEvent, 'w) stream_client" where
  "resourceServiceClient_Watch c req = cl_watch c req"

record 'w runtimeServiceClient =
  cl_podLog :: "(PodLogRequest, bytes, 'w) stream_client"
  cl_executeTTY :: "(ExecuteTTYRequest, exec_msg, 'w) stream_client"
  cl_writeTTY :: "(WriteRequest, unit, 'w) unary_client"
  cl_resizeTTY :: "(ResizeTTYRequest, unit, 'w) unary_client"
  cl_portForward :: "(PortForwardRequest, pf_msg, 'w) stream_client"
  cl_writePortForward :: "(WriteRequest, unit, 'w) unary_client"
  cl_scale :: "(ScaleRequest, 32 word, 'w) unary_client"
  cl_restart :: "(ResourceIdentifier, unit, 'w) unary_client"

definition NewRuntimeServiceClient :: "('w, 'r) runtime_connect \<Rightarrow> ('w, 'r) HTTPClient \<Rightarrow> gostring \<Rightarrow> 'w runtimeServiceClient" where
  "NewRuntimeServiceClient X httpClient baseURL =
     (let baseURL = trim_right_char CHR ''/'' baseURL in
      \<lparr>cl_podLog = cs_NewClient (tcn_PodLog X) httpClient (baseURL @ RuntimeServicePodLogProcedure),
       cl_executeTTY = cs_NewClient (tcn_ExecuteTTY X) httpClient (baseURL @ RuntimeServiceExecuteTTYProcedure),
       cl_writeTTY = cu_NewClient (tcn_WriteTTY X) httpClient (baseURL @ RuntimeServiceWriteTTYProcedure),
       cl_resizeTTY = cu_NewClient (tcn_ResizeTTY X) httpClient (baseURL @ RuntimeServiceResizeTTYProcedure),
       cl_portForward = cs_NewClient (tcn_PortForward X) httpClient (baseURL @ RuntimeServicePortForwardProcedure),
       cl_writePortForward = cu_NewClient (tcn_WritePortForward X) httpClient (baseURL @ RuntimeServiceWritePortForwardProcedure),
       cl_scale = cu_NewClient (tcn_Scale X) httpClient (baseURL @ RuntimeServiceScaleProcedure),
       cl_restart = cu_NewClient (tcn_Restart X) httpClient (baseURL @ RuntimeServiceRestartProcedure)\<rparr>)"

definition runtimeServiceClient_PodLog :: "'w runtimeServiceClient \<Rightarrow> (PodLogRequest, bytes, 'w) stream_client" where
  "runtimeServiceClient_PodLog c req = cl_podLog c req"

definition runtimeServiceClient_ExecuteTTY :: "'w runtimeServiceClient \<Rightarrow> (ExecuteTTYRequest, exec_msg, 'w) stream_client" where
  "runtimeServiceClient_ExecuteTTY c req = cl_executeTTY c req"

definition runtimeServiceClient_WriteTTY :: "'w runtimeServiceClient \<Rightarrow> WriteRequest \<Rightarrow> 'w \<Rightarrow> ((unit) option \<times> go_error option) \<times> 'w" where
  "runtimeServiceClient_WriteTTY c req w = (case cl_writeTTY c req w of (r, w') \<Rightarrow> (response_msg r, w'))"

definition runtimeServiceClient_ResizeTTY :: "'w runtimeServiceClient \<Rightarrow> ResizeTTYRequest \<Rightarrow> 'w \<Rightarrow> ((unit) option \<times> go_error option) \<times> 'w" where
  "runtimeServiceClient_ResizeTTY c req w = (case cl_resizeTTY c req w of (r, w') \<Rightarrow> (response_msg r, w'))"

definition runtimeServiceClient_PortForward :: "'w runtimeServiceClient \<Rightarrow> (PortForwardRequest, pf_msg, 'w) stream_client" where
  "runtimeServiceClient_PortForward c req = cl_portForward c req"

definition runtimeServiceClient_WritePortForward :: "'w runtimeServiceClient \<Rightarrow> WriteRequest \<Rightarrow> 'w \<Rightarrow> ((unit) option \<times> go_error option) \<times> 'w" where
  "runtimeServiceClient_WritePortForward c req w = (case cl_writePortForward c req w of (r, w') \<Rightarrow> (response_msg r, w'))"

definition runtimeServiceClient_Scale :: "'w runtimeServiceClient \<Rightarrow> ScaleRequest \<Rightarrow> 'w \<Rightarrow> ((32 word) option \<times> go_error option) \<times> 'w" where
  "runtimeServiceClient_Scale c req w = (case cl_scale c req w of (r, w') \<Rightarrow> (response_msg r, w'))"

definition runtimeServiceClient_Restart :: "'w runtimeServiceClient \<Rightarrow> ResourceIdentifier \<Rightarrow> 'w \<Rightarrow> ((unit) option \<times> go_error option) \<times> 'w" where
  "runtimeServiceClient_Restart c req w = (case cl_restart c req w of (r, w') \<Rightarrow> (response_msg r, w'))"

section \<open>The stubs\<close>

definition unimplemented :: "gostring \<Rightarrow> go_error" where
  "unimplemented method = ConnectErr CodeUnimplemented (Plain (method @ '' is not implemented''))"

definition UnimplementedFleetServiceHandler :: "'w FleetServiceHandler" where
  "UnimplementedFleetServiceHandler =
     \<lparr>fsh_ListClusters = (\<lambda>_ _. failE (unimplemented ''otterscale.fleet.v1.FleetService.ListClusters'')),
      fsh_Register = (\<lambda>_ _. failE (unimplemented ''otterscale.fleet.v1.FleetService.Register'')),
      fsh_GetAgentManifest = (\<lambda>_ _. failE (unimplemented ''otterscale.fleet.v1.FleetService.GetAgentManifest''))\<rparr>"

definition UnimplementedResourceServiceHandler :: "('st, 'w) ResourceServiceHandler" where
  "UnimplementedResourceServiceHandler =
     \<lparr>rsh_Discovery = (\<lambda>_ _. failE (unimplemented ''otterscale.resource.v1.ResourceService.Discovery'')),
      rsh_Schema = (\<lambda>_ _. failE (unimplemented ''otterscale.resource.v1.ResourceService.Schema'')),
      rsh_List = (\<lambda>_ _. failE (unimplemented ''otterscale.resource.v1.ResourceService.List'')),
      rsh_Get = (\<lambda>_ _. failE (unimplemented ''otterscale.resource.v1.ResourceService.Get'')),
      rsh_Describe = (\<lambda>_ _. failE (unimplemented ''otterscale.resource.v1.ResourceService.Describe'')),
      rsh_Create = (\<lambda>_ _. failE (unimplemented ''otterscale.resource.v1.ResourceService.Create'')),
      rsh_Apply = (\<lambda>_ _. failE (unimplemented ''otterscale.resource.v1.ResourceService.Apply'')),
      rsh_Delete = (\<lambda>_ _. failE (unimplemented ''otterscale.resource.v1.ResourceService.Delete'')),
      rsh_Watch = (\<lambda>_ _ w. (Some ([], Some (unimplemented ''otterscale.resource.v1.ResourceService.Watch'')), w))\<rparr>"

definition UnimplementedRuntimeServiceHandler :: "'w RuntimeServiceHandler" where
  "UnimplementedRuntimeServiceHandler =
     \<lparr>tsh_PodLog = (\<lambda>_ _ w. (Some ([], Some (unimplemented ''otterscale.runtime.v1.RuntimeService.PodLog'')), w)),
      tsh_ExecuteTTY = (\<lambda>_ _ w. (Some ([], Some (unimplemented ''otterscale.runtime.v1.RuntimeService.ExecuteTTY'')), w)),
      tsh_WriteTTY = (\<lambda>_ _. failE (unimplemented ''otterscale.runtime.v1.RuntimeService.WriteTTY'')),
      tsh_ResizeTTY = (\<lambda>_ _. failE (unimplemented ''otterscale.runtime.v1.RuntimeService.ResizeTTY'')),
      tsh_PortForward = (\<lambda>_ _ w. (Some ([], Some (unimplemented ''otterscale.runtime.v1.RuntimeService.PortForward'')), w)),
      tsh_WritePortForward = (\<lambda>_ _. failE (unimplemented ''otterscale.runtime.v1.RuntimeService.WritePortForward'')),
      tsh_Scale = (\<lambda>_ _. failE (unimplemented ''otterscale.runtime.v1.RuntimeService.Scale'')),
      tsh_Restart = (\<lambda>_ _. failE (unimplemented ''otterscale.runtime.v1.RuntimeService.Restart''))\<rparr>"

section \<open>The agent's call\<close>

text \<open>The getters of a nil message return zero values.\<close>

definition nil_response :: Registration where
  "nil_response = \<lparr>reg_Endpoint = [], reg_Certificate = [], reg_CACertificate = [], reg_ServerVersion = []\<rparr>"

definition registrar_rpc :: "('w, 'r) fleet_connect \<Rightarrow> ('w, 'r) HTTPClient \<Rightarrow> 'w register_rpc" where
  "registrar_rpc X httpClient serverURL req w =
     (case fleetServiceClient_Register (NewFleetServiceClient X httpClient serverURL) req w of
        ((_, Some err), w') \<Rightarrow> (Inl err, w')
      | ((Some resp, None), w') \<Rightarrow> (Inr resp, w')
      | ((None, None), w') \<Rightarrow> (Inr nil_response, w'))"

section \<open>What the code relies on\<close>

text \<open>A handler decodes its message, calls the method with it once, in the context of the request, or answers without calling it.\<close>

definition unary_serves :: "('q, 'p, 'w, 'r) connect_unary \<Rightarrow> bool" where
  "unary_serves U \<longleftrightarrow>
     (\<forall>procedure f rq rc w. snd (cu_NewHandler U procedure f rq rc w) = w \<or>
        (\<exists>q. cu_Unmarshal U rq = Inr q \<and> snd (cu_NewHandler U procedure f rq rc w) = snd (f (fst rc) q w)))"

definition stream_serves :: "('q, 'p, 'w, 'r) connect_stream \<Rightarrow> bool" where
  "stream_serves S \<longleftrightarrow>
     (\<forall>procedure f rq rc w. snd (cs_NewHandler S procedure f rq rc w) = w \<or>
        (\<exists>q. cs_Unmarshal S rq = Inr q \<and> snd (cs_NewHandler S procedure f rq rc w) = snd (f (fst rc) q w)))"

text \<open>The request of a call: a POST of the procedure's path, without credentials of its own.\<close>

definition rpc_post :: "gostring \<Rightarrow> http_request \<Rightarrow> bool" where
  "rpc_post procedure rq \<longleftrightarrow>
     rq_method rq = ''POST'' \<and> rq_path rq = procedure \<and> rq_escaped rq = procedure \<and> rq_origin rq = [] \<and> rq_bearer rq = None"

text \<open>An HTTP client that brings such requests to a handler, maybe with a bearer token added.\<close>

definition delivers :: "('w, 'r) HTTPClient \<Rightarrow> gostring \<Rightarrow> ('w, 'r) handler \<Rightarrow> rctx \<Rightarrow> bool" where
  "delivers httpClient procedure k rc \<longleftrightarrow>
     (\<exists>bearer. \<forall>rq w. rpc_post procedure rq \<longrightarrow>
        httpClient rq w = (case k (rq\<lparr>rq_bearer := bearer\<rparr>) rc w of (r, w') \<Rightarrow> (Inr r, w')))"

text \<open>A base URL without a path of its own.\<close>

definition origin_url :: "gostring \<Rightarrow> bool" where
  "origin_url base \<longleftrightarrow>
     (\<exists>scheme host. base = scheme @ ''://'' @ host \<and> host \<noteq> [] \<and> set host \<inter> set ''/?#%'' = {})"

text \<open>A call returns the response of the method, or an error with the code of the method's error.\<close>

definition unary_calls :: "('q, 'p, 'w, 'r) connect_unary \<Rightarrow> bool" where
  "unary_calls U \<longleftrightarrow>
     (\<forall>base procedure f httpClient rc q w.
        origin_url base \<and> procedure \<in> set service_procedures \<and> delivers httpClient procedure (cu_NewHandler U procedure f) rc \<longrightarrow>
        (\<forall>p w'. f (fst rc) q w = (Inr p, w') \<longrightarrow> cu_NewClient U httpClient (base @ procedure) q w = ((Some \<lparr>Msg = p\<rparr>, None), w')) \<and>
        (\<forall>e w'. f (fst rc) q w = (Inl e, w') \<longrightarrow>
           (\<exists>e'. cu_NewClient U httpClient (base @ procedure) q w = ((None, Some e'), w') \<and>
              (\<forall>c. connect_code_of e = Some c \<longrightarrow> connect_code_of e' = Some c))))"

section \<open>Lemmas\<close>

lemma path_switch_cases:
  obtains (none) "path_switch H ks rq rc w = (hl_not_found H rq, w)"
  | (procedure) k where "(rq_path rq, k) \<in> set ks" "path_switch H ks rq rc w = k rq rc w"
proof (induction ks)
  case (Cons pk ks)
  show thesis
  proof (cases "rq_path rq = fst pk")
    case True
    then show thesis using Cons.prems(2) [of "snd pk"] by (cases pk) auto
  next
    case False
    show thesis using Cons.IH Cons.prems False by (cases pk) auto
  qed
qed simp

lemma trim_origin: "origin_url base \<Longrightarrow> trim_right_char CHR ''/'' base = base"
proof -
  assume "origin_url base"
  then obtain scheme host where b: "base = scheme @ ''://'' @ host" "host \<noteq> []" "set host \<inter> set ''/?#%'' = {}"
    unfolding origin_url_def by blast
  then have "last host \<noteq> CHR ''/''" using last_in_set [OF b(2)] by (metis IntI b(3) empty_iff list.set_intros(1))
  then have "last base \<noteq> CHR ''/''" "base \<noteq> []" using b by simp_all
  then show ?thesis by (cases base rule: rev_cases) (simp_all add: trim_right_char_def)
qed

text \<open>The agent's call of a server that serves \<^verbatim>\<open>Register\<close> is a call of the method.\<close>

lemma registrar_rpc_served:
  assumes "unary_calls (fcn_Register X)" "origin_url url"
    and "delivers httpClient FleetServiceRegisterProcedure (cu_NewHandler (fcn_Register X) FleetServiceRegisterProcedure f) rc"
  shows "f (fst rc) req w = (Inr resp, w') \<Longrightarrow> registrar_rpc X httpClient url req w = (Inr resp, w')"
    and "f (fst rc) req w = (Inl e, w') \<Longrightarrow> \<exists>e'. registrar_rpc X httpClient url req w = (Inl e', w') \<and>
        (\<forall>c. connect_code_of e = Some c \<longrightarrow> connect_code_of e' = Some c)"
proof -
  have p: "FleetServiceRegisterProcedure \<in> set service_procedures"
    by (simp add: service_procedures_def FleetServiceRegisterProcedure_def)
  note call = assms(1) [unfolded unary_calls_def, rule_format, OF conjI [OF assms(2) conjI [OF p assms(3)]]]
  note unfold = registrar_rpc_def fleetServiceClient_Register_def NewFleetServiceClient_def response_msg_def Let_def trim_origin [OF assms(2)]
  show "registrar_rpc X httpClient url req w = (Inr resp, w')" if "f (fst rc) req w = (Inr resp, w')"
    using conjunct1 [OF call, rule_format, OF that] by (simp add: unfold)
  show "\<exists>e'. registrar_rpc X httpClient url req w = (Inl e', w') \<and> (\<forall>c. connect_code_of e = Some c \<longrightarrow> connect_code_of e' = Some c)"
    if "f (fst rc) req w = (Inl e, w')"
    using conjunct2 [OF call, rule_format, OF that] by (auto simp: unfold)
qed

end
