(* ===== verification/Services.thy ===== *)
theory Services
  imports Rpc Kubernetes_Client Discovery_Cache
begin

text \<open>
  The server in one piece: the state of all its parts, the use cases on that state, and the three
  services (\<^verbatim>\<open>internal/handler\<close>) and the manifest endpoint as the handlers that \<^verbatim>\<open>Handler.Mount\<close> registers
  (\<^verbatim>\<open>internal/cmd/server/handler.go\<close>), put together as \<^verbatim>\<open>wireServer\<close> does (\<^verbatim>\<open>cmd/otterscale/wire_gen.go\<close>).

  The libraries the parts are built on are the fields of \<open>server_deps\<close>. What a request finds when it runs is
  \<open>server_env\<close>: the clock, fresh identifiers, what its streams deliver, and what other requests
  do to the sessions while a stream is open. A request is one step of the model.
\<close>

section \<open>State\<close>

text \<open>The Kubernetes adapter refers to the tunnel service, whose state is \<^const>\<open>kw_tunnel\<close> of its world.\<close>

record ('tun, 't, 'x, 'sc, 'rs) server_world =
  sw_k8s :: "('tun, 't, 'x) kworld"
  sw_cache :: "'sc DiscoveryCache"
  sw_rand :: 'rs
  sw_sessions :: sessions_world

definition on_k8s :: "(('tun, 't, 'x) kworld, 'a) eff \<Rightarrow> (('tun, 't, 'x, 'sc, 'rs) server_world, 'a) eff" where
  "on_k8s m w = (case m (sw_k8s w) of (r, k) \<Rightarrow> (r, w\<lparr>sw_k8s := k\<rparr>))"

definition on_cache ::
  "((('tun, 't, 'x) kworld, 'sc) cache_world, 'a) eff \<Rightarrow> (('tun, 't, 'x, 'sc, 'rs) server_world, 'a) eff" where
  "on_cache m w =
     (case m \<lparr>cw_cache = sw_cache w, cw_ext = sw_k8s w\<rparr> of (r, c) \<Rightarrow> (r, w\<lparr>sw_k8s := cw_ext c, sw_cache := cw_cache c\<rparr>))"

definition on_tunnel :: "('tun \<times> 'rs, 'a) eff \<Rightarrow> (('tun, 't, 'x, 'sc, 'rs) server_world, 'a) eff" where
  "on_tunnel m w =
     (case m (kw_tunnel (sw_k8s w), sw_rand w) of (r, t, rs) \<Rightarrow> (r, w\<lparr>sw_k8s := (sw_k8s w)\<lparr>kw_tunnel := t\<rparr>, sw_rand := rs\<rparr>))"

definition on_sessions ::
  "(sessions_world \<Rightarrow> 'a \<times> sessions_world) \<Rightarrow> ('tun, 't, 'x, 'sc, 'rs) server_world \<Rightarrow> 'a \<times> ('tun, 't, 'x, 'sc, 'rs) server_world" where
  "on_sessions m w = (case m (sw_sessions w) of (r, s) \<Rightarrow> (r, w\<lparr>sw_sessions := s\<rparr>))"

section \<open>The adapters and use cases on the state of the server\<close>

definition server_discovery ::
  "('tun, 't, 'x, 'sc, 'ver) k8s_api \<Rightarrow> 'ver \<Rightarrow> (('tun, 't, 'x, 'sc, 'rs) server_world, 'sc) DiscoveryClient" where
  "server_discovery A minv =
     (let d = NewDiscoveryClient A minv in
      \<lparr>dc_LookupResource = (\<lambda>ctx c g v r. on_k8s (dc_LookupResource d ctx c g v r)),
       dc_ServerResources = (\<lambda>ctx c. on_k8s (dc_ServerResources d ctx c)),
       dc_ResolveSchema = (\<lambda>ctx c g v k. on_k8s (dc_ResolveSchema d ctx c g v k)),
       dc_ServerVersion = (\<lambda>ctx c. on_k8s (dc_ServerVersion d ctx c)),
       dc_SupportsWatchList = (\<lambda>ctx c. on_k8s (dc_SupportsWatchList d ctx c))\<rparr>)"

definition server_resource_repo :: "('tun, 't, 'x, 'sc, 'ver) k8s_api \<Rightarrow> ('tun, 't, 'x, 'sc, 'rs) server_world ResourceRepo" where
  "server_resource_repo A =
     (let R = NewResourceRepo A in
      \<lparr>rr_List = (\<lambda>ctx c gvr ns opts. on_k8s (rr_List R ctx c gvr ns opts)),
       rr_Get = (\<lambda>ctx c gvr ns name. on_k8s (rr_Get R ctx c gvr ns name)),
       rr_Create = (\<lambda>ctx c gvr ns manifest. on_k8s (rr_Create R ctx c gvr ns manifest)),
       rr_Apply = (\<lambda>ctx c gvr ns name manifest opts. on_k8s (rr_Apply R ctx c gvr ns name manifest opts)),
       rr_Delete = (\<lambda>ctx c gvr ns name opts. on_k8s (rr_Delete R ctx c gvr ns name opts)),
       rr_Watch = (\<lambda>ctx c gvr ns opts. on_k8s (rr_Watch R ctx c gvr ns opts)),
       rr_ListEvents = (\<lambda>ctx c ns opts. on_k8s (rr_ListEvents R ctx c ns opts))\<rparr>)"

definition server_runtime_repo ::
  "('tun, 't, 'x, 'sc, 'ver) k8s_api \<Rightarrow> gostring \<Rightarrow> ('tun, 't, 'x, 'sc, 'rs) server_world RuntimeRepo" where
  "server_runtime_repo A stamp =
     (let R = NewRuntimeRepo A stamp in
      \<lparr>rt_PodLogs = (\<lambda>ctx c ns name opts. on_k8s (rt_PodLogs R ctx c ns name opts)),
       rt_GetScale = (\<lambda>ctx c gvr ns name. on_k8s (rt_GetScale R ctx c gvr ns name)),
       rt_UpdateScale = (\<lambda>ctx c gvr ns name n. on_k8s (rt_UpdateScale R ctx c gvr ns name n)),
       rt_Restart = (\<lambda>ctx c gvr ns name. on_k8s (rt_Restart R ctx c gvr ns name))\<rparr>)"

text \<open>The schema resolver of the use case is the cache.\<close>

definition server_resource_use_case ::
  "('tun, 't, 'x, 'sc, 'ver) k8s_api \<Rightarrow> 'ver \<Rightarrow> (('tun, 't, 'x) kworld \<Rightarrow> int) \<Rightarrow>
     (gostring \<Rightarrow> ((('tun, 't, 'x) kworld, 'sc) cache_world, 'sc) eff \<Rightarrow> ((('tun, 't, 'x) kworld, 'sc) cache_world, 'sc) eff) \<Rightarrow>
     (('tun, 't, 'x, 'sc, 'rs) server_world, 'sc) ResourceUseCase" where
  "server_resource_use_case A minv clock flight_Do =
     NewResourceUseCase (server_discovery A minv) (server_resource_repo A)
       (\<lambda>ctx c g v k. on_cache (cached_ResolveSchema clock (NewDiscoveryClient A minv) flight_Do ctx c g v k))"

section \<open>The services\<close>

record ('v, 'k, 'c, 'p, 'q, 't, 'x, 'sc, 'ver, 'rs, 'st, 'r) server_deps =
  sd_pki :: "('rs, 'k, 'p, 'c, 'q) pki_lib"
  sd_chisel :: "'v chisel_lib"
  sd_k8s :: "(('v, 'k, 'c) Service, 't, 'x, 'sc, 'ver) k8s_api"
  sd_spdy :: "('t, 'x) spdy_lib"
  sd_minVersion :: 'ver
  sd_proto :: "('st, 'sc) proto_lib"
  sd_clock :: "(('v, 'k, 'c) Service, 't, 'x) kworld \<Rightarrow> int"
  sd_flight :: "gostring \<Rightarrow> (((('v, 'k, 'c) Service, 't, 'x) kworld, 'sc) cache_world, 'sc) eff \<Rightarrow>
                  (((('v, 'k, 'c) Service, 't, 'x) kworld, 'sc) cache_world, 'sc) eff"
  sd_fleet :: "(('v, 'k, 'c) Service \<times> 'rs) FleetUseCase"
  sd_fleetRPC :: "((('v, 'k, 'c) Service, 't, 'x, 'sc, 'rs) server_world, 'r) fleet_connect"
  sd_resourceRPC :: "('st, (('v, 'k, 'c) Service, 't, 'x, 'sc, 'rs) server_world, 'r) resource_connect"
  sd_runtimeRPC :: "((('v, 'k, 'c) Service, 't, 'x, 'sc, 'rs) server_world, 'r) runtime_connect"
  sd_raw :: "http_response \<Rightarrow> 'r"

record 'st server_env =
  ev_now :: int
  ev_unix :: int64
  ev_stamp :: gostring
  ev_ref :: nat
  ev_uuid :: gostring
  ev_between :: "sessions_world \<Rightarrow> sessions_world"
  ev_write :: write_outcome
  ev_watch_send :: "'st pb_WatchEvent list \<Rightarrow> go_error option"
  ev_watch_inputs :: "WatchEvent list \<Rightarrow> watch_input list"
  ev_log_reads :: "bytes list \<Rightarrow> (bytes \<times> go_error option) list"
  ev_log_send :: "bytes list \<Rightarrow> go_error option"
  ev_exec_send :: "exec_msg list \<Rightarrow> go_error option"
  ev_exec_events :: "exec_event list"
  ev_pf_first :: "go_error option"
  ev_pf_send :: "bytes list \<Rightarrow> go_error option"
  ev_pf_reads :: "(bytes \<times> go_error option) list"
  ev_pf_events :: "pf_event list"

text \<open>The fleet use case with the clock of the request; its tunnel provider is the tunnel service.\<close>

definition env_fleet ::
  "('v, 'k, 'c, 'p, 'q, 't, 'x, 'sc, 'ver, 'rs, 'st, 'r) server_deps \<Rightarrow> 'st server_env \<Rightarrow> (('v, 'k, 'c) Service \<times> 'rs) FleetUseCase" where
  "env_fleet D env = (sd_fleet D)\<lparr>fu_tunnel := chisel_provider (sd_pki D) (sd_chisel D) (ev_now env)\<rparr>"

definition fleet_service ::
  "('v, 'k, 'c, 'p, 'q, 't, 'x, 'sc, 'ver, 'rs, 'st, 'r) server_deps \<Rightarrow> 'st server_env \<Rightarrow>
     (('v, 'k, 'c) Service, 't, 'x, 'sc, 'rs) server_world FleetServiceHandler" where
  "fleet_service D env =
     \<lparr>fsh_ListClusters = (\<lambda>ctx _ w. (Inr (srv_ListClusters (env_fleet D env) (kw_tunnel (sw_k8s w), sw_rand w)), w)),
      fsh_Register = (\<lambda>ctx req.
        on_tunnel (srv_Register (env_fleet D env) (rrq_cluster req) (rrq_agentID req) (rrq_agentVersion req) (rrq_csr req))),
      fsh_GetAgentManifest = (\<lambda>ctx cluster. liftE (GetAgentManifest (env_fleet D env) (ev_unix env) ctx cluster))\<rparr>"

text \<open>The messages of a stream and the error that ends it.\<close>

definition stream_end :: "unit res \<times> 'm list \<Rightarrow> 'm list \<times> go_error option" where
  "stream_end out = (snd out, case fst out of Inl e \<Rightarrow> Some e | Inr _ \<Rightarrow> None)"

definition deps_use_case ::
  "('v, 'k, 'c, 'p, 'q, 't, 'x, 'sc, 'ver, 'rs, 'st, 'r) server_deps \<Rightarrow>
     ((('v, 'k, 'c) Service, 't, 'x, 'sc, 'rs) server_world, 'sc) ResourceUseCase" where
  "deps_use_case D = server_resource_use_case (sd_k8s D) (sd_minVersion D) (sd_clock D) (sd_flight D)"

definition resource_Watch ::
  "('v, 'k, 'c, 'p, 'q, 't, 'x, 'sc, 'ver, 'rs, 'st, 'r) server_deps \<Rightarrow> 'st server_env \<Rightarrow>
     (WatchRequest, 'st pb_WatchEvent, (('v, 'k, 'c) Service, 't, 'x, 'sc, 'rs) server_world) stream_method" where
  "resource_Watch D env ctx req w =
     (case srv_Watch (sd_proto D) (deps_use_case D) ctx (ev_watch_send env) (ev_watch_inputs env) (fst req) (snd req) w of
        (Inl e, w') \<Rightarrow> (Some ([], Some e), w')
      | (Inr out, w') \<Rightarrow> (Some (stream_end out), w'))"

definition resource_service ::
  "('v, 'k, 'c, 'p, 'q, 't, 'x, 'sc, 'ver, 'rs, 'st, 'r) server_deps \<Rightarrow> 'st server_env \<Rightarrow>
     ('st, (('v, 'k, 'c) Service, 't, 'x, 'sc, 'rs) server_world) ResourceServiceHandler" where
  "resource_service D env =
     (let uc = deps_use_case D; P = sd_proto D in
      \<lparr>rsh_Discovery = srv_Discovery P uc,
       rsh_Schema = (\<lambda>ctx (cluster, grp, version, knd). srv_Schema P uc ctx cluster grp version knd),
       rsh_List = (\<lambda>ctx (i, opts). srv_List P uc ctx i opts),
       rsh_Get = srv_Get P uc,
       rsh_Describe = srv_Describe P uc,
       rsh_Create = (\<lambda>ctx (i, manifest). srv_Create P uc ctx i manifest),
       rsh_Apply = (\<lambda>ctx (i, manifest, opts). srv_Apply P uc ctx i manifest opts),
       rsh_Delete = (\<lambda>ctx (i, gracePeriod). srv_Delete uc ctx i gracePeriod),
       rsh_Watch = resource_Watch D env\<rparr>)"

definition runtime_PodLog ::
  "('v, 'k, 'c, 'p, 'q, 't, 'x, 'sc, 'ver, 'rs, 'st, 'r) server_deps \<Rightarrow> 'st server_env \<Rightarrow>
     (PodLogRequest, bytes, (('v, 'k, 'c) Service, 't, 'x, 'sc, 'rs) server_world) stream_method" where
  "runtime_PodLog D env ctx req w =
     (case PodLog (server_runtime_repo (sd_k8s D) (ev_stamp env)) ctx (ev_log_reads env) (ev_log_send env) req w of
        (Inl e, w') \<Rightarrow> (Some ([], Some e), w')
      | (Inr out, w') \<Rightarrow> (map_option stream_end out, w'))"

text \<open>The goroutine of a session runs the command in the cluster with the context of the request.\<close>

definition run_exec ::
  "(('v, 'k, 'c) Service, 't, 'x, 'sc, 'ver) k8s_api \<Rightarrow> go_context \<Rightarrow> (nat \<times> exec_call) res \<Rightarrow>
     (('v, 'k, 'c) Service, 't, 'x, 'sc, 'rs) server_world \<Rightarrow> (('v, 'k, 'c) Service, 't, 'x, 'sc, 'rs) server_world" where
  "run_exec A ctx started w =
     (case started of
        Inl _ \<Rightarrow> w
      | Inr (_, call) \<Rightarrow> snd (on_k8s (repo_Exec A ctx (ec_Cluster call) (ec_Namespace call) (ec_Name call) (ec_Opts call)) w))"

definition runtime_ExecuteTTY ::
  "('v, 'k, 'c, 'p, 'q, 't, 'x, 'sc, 'ver, 'rs, 'st, 'r) server_deps \<Rightarrow> 'st server_env \<Rightarrow>
     (ExecuteTTYRequest, exec_msg, (('v, 'k, 'c) Service, 't, 'x, 'sc, 'rs) server_world) stream_method" where
  "runtime_ExecuteTTY D env ctx req w =
     (case ExecuteTTY (sw_sessions w) (ev_ref env) (ev_uuid env) (ev_exec_send env) (ev_exec_events env) (ev_between env) req of
        (out, s) \<Rightarrow>
          (Some (stream_end out),
           (if dims_ok (et_Rows req) (et_Cols req)
            then run_exec (sd_k8s D) ctx (fst (StartExec (sw_sessions w) (ev_ref env) (ev_uuid env) (exec_params req)))
            else id) (w\<lparr>sw_sessions := s\<rparr>)))"

definition run_port_forward ::
  "(('v, 'k, 'c) Service, 't, 'x, 'sc, 'ver) k8s_api \<Rightarrow> ('t, 'x) spdy_lib \<Rightarrow> pf_event list \<Rightarrow> go_context \<Rightarrow> (nat \<times> pf_call) res \<Rightarrow>
     (('v, 'k, 'c) Service, 't, 'x, 'sc, 'rs) server_world \<Rightarrow> (('v, 'k, 'c) Service, 't, 'x, 'sc, 'rs) server_world" where
  "run_port_forward A S evs ctx started w =
     (case started of
        Inl _ \<Rightarrow> w
      | Inr (_, call) \<Rightarrow>
          snd (on_k8s (repo_PortForward A S evs ctx (fc_Cluster call) (fc_Namespace call) (fc_Name call) (sint (fc_Port call))) w))"

definition runtime_PortForward ::
  "('v, 'k, 'c, 'p, 'q, 't, 'x, 'sc, 'ver, 'rs, 'st, 'r) server_deps \<Rightarrow> 'st server_env \<Rightarrow>
     (PortForwardRequest, pf_msg, (('v, 'k, 'c) Service, 't, 'x, 'sc, 'rs) server_world) stream_method" where
  "runtime_PortForward D env ctx req w =
     (case req of (cluster, ns, name, port) \<Rightarrow>
        let started = fst (StartPortForward (sw_sessions w) (ev_ref env) (ev_uuid env) cluster ns name port) in
        case srv_PortForward (sw_sessions w) (ev_ref env) (ev_uuid env) (ev_pf_send env) (ev_pf_reads env) (ev_between env) (ev_pf_first env)
               cluster ns name port of
          (out, s) \<Rightarrow>
            (map_option (\<lambda>o1. ((if isl started \<or> ev_pf_first env \<noteq> None then [] else PfSession (ev_uuid env) # map PfData (snd o1)),
                               snd (stream_end o1))) out,
             run_port_forward (sd_k8s D) (sd_spdy D) (ev_pf_events env) ctx started (w\<lparr>sw_sessions := s\<rparr>)))"

definition runtime_service ::
  "('v, 'k, 'c, 'p, 'q, 't, 'x, 'sc, 'ver, 'rs, 'st, 'r) server_deps \<Rightarrow> 'st server_env \<Rightarrow>
     (('v, 'k, 'c) Service, 't, 'x, 'sc, 'rs) server_world RuntimeServiceHandler" where
  "runtime_service D env =
     (let dc = server_discovery (sd_k8s D) (sd_minVersion D); rt = server_runtime_repo (sd_k8s D) (ev_stamp env) in
      \<lparr>tsh_PodLog = runtime_PodLog D env,
       tsh_ExecuteTTY = runtime_ExecuteTTY D env,
       tsh_WriteTTY = (\<lambda>ctx (sessionID, stdin). on_sessions (\<lambda>s. WriteTTY s sessionID stdin (ev_write env))),
       tsh_ResizeTTY = (\<lambda>ctx (sessionID, rows, cols). on_sessions (\<lambda>s. ResizeTTY s sessionID rows cols)),
       tsh_PortForward = runtime_PortForward D env,
       tsh_WritePortForward = (\<lambda>ctx (sessionID, data). on_sessions (\<lambda>s. srv_WritePortForward s sessionID data (ev_write env))),
       tsh_Scale = (\<lambda>ctx (i, replicas). srv_Scale dc rt ctx i replicas),
       tsh_Restart = (\<lambda>ctx i. srv_Restart dc rt ctx i)\<rparr>)"

section \<open>The handlers of the server\<close>

definition server_handlers ::
  "('v, 'k, 'c, 'p, 'q, 't, 'x, 'sc, 'ver, 'rs, 'st, 'r) server_deps \<Rightarrow> 'st server_env \<Rightarrow>
     ((('v, 'k, 'c) Service, 't, 'x, 'sc, 'rs) server_world, 'r) Handler" where
  "server_handlers D env =
     \<lparr>hd_fleet = fleet_handlers (sd_fleetRPC D) (fleet_service D env),
      hd_resource = resource_handlers (sd_resourceRPC D) (resource_service D env),
      hd_runtime = runtime_handlers (sd_runtimeRPC D) (runtime_service D env),
      hd_manifest = (\<lambda>token rq rc w. (sd_raw D (handleRawManifest (env_fleet D env) (ev_unix env) token), w))\<rparr>"

section \<open>What the handlers may do\<close>

text \<open>The documented contract of \<^verbatim>\<open>singleflight.Group.Do\<close>: the function runs, or the result of another call is shared.\<close>

definition flight_law :: "(gostring \<Rightarrow> ('w, 'a) eff \<Rightarrow> ('w, 'a) eff) \<Rightarrow> bool" where
  "flight_law flight_Do \<longleftrightarrow> (\<forall>key m w. flight_Do key m w = m w \<or> (\<exists>r. flight_Do key m w = (r, w)))"

text \<open>A step of the server on behalf of a user sends requests only to the cluster it was asked for, in the
  user's name.\<close>

definition acts_for ::
  "('tun, 't, 'x, 'sc, 'ver) k8s_api \<Rightarrow> go_context \<Rightarrow> gostring option \<Rightarrow>
     (('tun, 't, 'x, 'sc, 'rs) server_world \<Rightarrow> 'a \<times> ('tun, 't, 'x, 'sc, 'rs) server_world) \<Rightarrow> bool" where
  "acts_for A ctx cluster m \<longleftrightarrow>
     (\<forall>w. \<exists>l. sent (sw_k8s (snd (m w))) = sent (sw_k8s w) @ l \<and>
        (\<forall>(cfg, req) \<in> set l. \<exists>c. cluster = Some c \<and> impersonates A (kw_tunnel (sw_k8s w)) ctx c cfg))"

lemma acts_forI:
  assumes "\<And>tun. logs_only (\<lambda>w. sent (sw_k8s w)) (\<lambda>w. routes_via tun (sw_k8s w))
      (\<lambda>(cfg, _). impersonates A tun ctx c cfg) m"
  shows "acts_for A ctx (Some c) m"
  using assms unfolding acts_for_def logs_only_def by (fastforce simp: routes_via_def)

lemma logs_only_on_k8s:
  "logs_only sent I P m \<Longrightarrow> logs_only (\<lambda>w. sent (sw_k8s w)) (\<lambda>w. I (sw_k8s w)) P (on_k8s m)"
  unfolding logs_only_def on_k8s_def by (auto split: prod.splits)

lemma logs_only_on_cache:
  assumes "logs_only sent I P (dc_ResolveSchema disc ctx c g v k)" "flight_law flight_Do"
  shows "logs_only (\<lambda>w. sent (sw_k8s w)) (\<lambda>w. I (sw_k8s w)) P (on_cache (cached_ResolveSchema clock disc flight_Do ctx c g v k))"
proof -
  have fetch: "logs_only (\<lambda>w. sent (cw_ext w)) (\<lambda>w. I (cw_ext w)) P (fetch_schema clock disc ctx c g v k)"
    using assms(1) unfolding logs_only_def fetch_schema_def by (auto split: prod.splits sum.splits)
  have "logs_only (\<lambda>w. sent (cw_ext w)) (\<lambda>w. I (cw_ext w)) P (cached_ResolveSchema clock disc flight_Do ctx c g v k)"
  proof (rule logs_onlyI)
    fix w :: "(('a, 'b, 'c) kworld, 'd) cache_world"
    assume I: "I (cw_ext w)"
    consider "snd (cached_ResolveSchema clock disc flight_Do ctx c g v k w) = w"
      | "snd (cached_ResolveSchema clock disc flight_Do ctx c g v k w) = snd (fetch_schema clock disc ctx c g v k w)"
      using assms(2) unfolding flight_law_def cached_ResolveSchema_def Let_def
      by (cases "cache_lookup (clock (cw_ext w)) (schemaCacheKey c g v k) (cw_cache w)") (auto, metis snd_conv)
    then show "I (cw_ext (snd (cached_ResolveSchema clock disc flight_Do ctx c g v k w))) \<and>
        (\<exists>l. sent (cw_ext (snd (cached_ResolveSchema clock disc flight_Do ctx c g v k w))) = sent (cw_ext w) @ l \<and> (\<forall>x\<in>set l. P x))"
      by cases (use I fetch in \<open>auto simp: logs_only_def\<close>)
  qed
  then show ?thesis unfolding logs_only_def on_cache_def by (auto split: prod.splits) (metis cache_world.select_convs(2) snd_conv)+
qed

text \<open>The laws of the adapters carry over to the state of the server.\<close>

interpretation server: cluster_backend "server_discovery A minv" "server_resource_repo A" "\<lambda>w. sent (sw_k8s w)"
  "\<lambda>w. routes_via tun (sw_k8s w)"
  "\<lambda>ctx cl (cfg, _). impersonates A tun ctx cl cfg"
  for A :: "('tun, 't, 'x, 'sc, 'ver) k8s_api" and minv tun
proof unfold_locales
  show "dc_LookupResource (server_discovery A minv) ctx cl g v r w = (Inr x, w') \<Longrightarrow> x = \<lparr>gvr_Group = g, gvr_Version = v, gvr_Resource = r\<rparr>"
    for ctx cl g v r w w' x and A :: "('tun, 't, 'x, 'sc, 'ver) k8s_api" and minv
    by (auto simp: server_discovery_def on_k8s_def NewDiscoveryClient_def Let_def split: prod.splits dest: LookupResource_gvr)
qed (auto simp: server_discovery_def server_resource_repo_def NewDiscoveryClient_def NewResourceRepo_def Let_def
     intro!: logs_only_on_k8s as_user_discovery [unfolded as_user_def] as_user_repo [unfolded as_user_def])

lemma acts_for_cong: "(\<And>w. snd (m w) = snd (m' w)) \<Longrightarrow> acts_for A ctx c m' \<Longrightarrow> acts_for A ctx c m"
  by (simp add: acts_for_def)

lemma acts_for_quiet:
  assumes "\<And>w. sent (sw_k8s (snd (m w))) = sent (sw_k8s w)"
  shows "acts_for A ctx c m"
  using assms unfolding acts_for_def by simp

lemma logs_only_converted: "logs_only logf I P m \<Longrightarrow> logs_only logf I P (converted m conv)"
  unfolding converted_def by (auto intro!: logs_only_bindE)

text \<open>The methods of the resource service.\<close>

lemma resource_service_acts:
  assumes "flight_law (sd_flight D)"
  shows "acts_for (sd_k8s D) ctx (Some cl) (rsh_Discovery (resource_service D env) ctx cl)"
    "acts_for (sd_k8s D) ctx (Some cl) (rsh_Schema (resource_service D env) ctx (cl, g, v, k))"
    "acts_for (sd_k8s D) ctx (Some (id_Cluster i)) (rsh_List (resource_service D env) ctx (i, lo))"
    "acts_for (sd_k8s D) ctx (Some (id_Cluster i)) (rsh_Get (resource_service D env) ctx i)"
    "acts_for (sd_k8s D) ctx (Some (id_Cluster i)) (rsh_Describe (resource_service D env) ctx i)"
    "acts_for (sd_k8s D) ctx (Some (id_Cluster i)) (rsh_Create (resource_service D env) ctx (i, mf))"
    "acts_for (sd_k8s D) ctx (Some (id_Cluster i)) (rsh_Apply (resource_service D env) ctx (i, mf, ao))"
    "acts_for (sd_k8s D) ctx (Some (id_Cluster i)) (rsh_Delete (resource_service D env) ctx (i, gp))"
    "acts_for (sd_k8s D) ctx (Some (id_Cluster i)) (rsh_Watch (resource_service D env) ctx (i, wo))"
proof -
  note defs = resource_service_def deps_use_case_def server_resource_use_case_def Let_def srv_List_def srv_Get_def srv_Describe_def
    srv_Create_def srv_Apply_def srv_Delete_def
  note use_case = server.use_case_log [where i = "i\<lparr>id_Name := []\<rparr>", simplified] server.use_case_log [where i = i]
  show "acts_for (sd_k8s D) ctx (Some cl) (rsh_Discovery (resource_service D env) ctx cl)"
    by (intro acts_forI)
      (auto simp: defs srv_Discovery_def uc_ServerResources_def NewResourceUseCase_def server_discovery_def NewDiscoveryClient_def
        intro!: logs_only_converted logs_only_on_k8s as_user_discovery [unfolded as_user_def])
  show "acts_for (sd_k8s D) ctx (Some cl) (rsh_Schema (resource_service D env) ctx (cl, g, v, k))"
    by (intro acts_forI)
      (auto simp: defs srv_Schema_def uc_ResolveSchema_def NewResourceUseCase_def NewDiscoveryClient_def assms
        intro!: logs_only_converted logs_only_on_cache as_user_discovery [unfolded as_user_def])
  show "acts_for (sd_k8s D) ctx (Some (id_Cluster i)) (rsh_List (resource_service D env) ctx (i, lo))"
    "acts_for (sd_k8s D) ctx (Some (id_Cluster i)) (rsh_Get (resource_service D env) ctx i)"
    "acts_for (sd_k8s D) ctx (Some (id_Cluster i)) (rsh_Describe (resource_service D env) ctx i)"
    "acts_for (sd_k8s D) ctx (Some (id_Cluster i)) (rsh_Create (resource_service D env) ctx (i, mf))"
    "acts_for (sd_k8s D) ctx (Some (id_Cluster i)) (rsh_Apply (resource_service D env) ctx (i, mf, ao))"
    "acts_for (sd_k8s D) ctx (Some (id_Cluster i)) (rsh_Delete (resource_service D env) ctx (i, gp))"
    by (intro acts_forI; auto simp: defs intro!: logs_only_converted use_case)+
  have "acts_for (sd_k8s D) ctx (Some (id_Cluster i))
      (srv_Watch (sd_proto D) (deps_use_case D) ctx (ev_watch_send env) (ev_watch_inputs env) i wo)"
    by (intro acts_forI) (auto simp: srv_Watch_def defs intro!: logs_only_bindE use_case)
  then show "acts_for (sd_k8s D) ctx (Some (id_Cluster i)) (rsh_Watch (resource_service D env) ctx (i, wo))"
    by (rule acts_for_cong [rotated]) (auto simp: defs resource_Watch_def split: prod.splits sum.splits)
qed

text \<open>The methods of the runtime service.\<close>

lemma logs_only_runtime:
  shows "logs_only (\<lambda>w. sent (sw_k8s w)) (\<lambda>w. routes_via tun (sw_k8s w)) (\<lambda>(cfg, _). impersonates A tun ctx c cfg)
      (rt_PodLogs (server_runtime_repo A stamp) ctx c ns name po)"
    "logs_only (\<lambda>w. sent (sw_k8s w)) (\<lambda>w. routes_via tun (sw_k8s w)) (\<lambda>(cfg, _). impersonates A tun ctx c cfg)
      (rt_UpdateScale (server_runtime_repo A stamp) ctx c gvr ns name n)"
    "logs_only (\<lambda>w. sent (sw_k8s w)) (\<lambda>w. routes_via tun (sw_k8s w)) (\<lambda>(cfg, _). impersonates A tun ctx c cfg)
      (rt_Restart (server_runtime_repo A stamp) ctx c gvr ns name)"
  by (simp_all add: server_runtime_repo_def NewRuntimeRepo_def Let_def logs_only_on_k8s as_user_runtime [unfolded as_user_def])

lemma StartExec_cluster: "fst (StartExec w r uuid params) = Inr (sess, call) \<Longrightarrow> ec_Cluster call = sp_Cluster params"
  by (auto simp: StartExec_def Let_def split: if_splits prod.splits sum.splits)

lemma StartPortForward_cluster: "fst (StartPortForward w r uuid cl ns name port) = Inr (sess, call) \<Longrightarrow> fc_Cluster call = cl"
  by (auto simp: StartPortForward_def Let_def split: if_splits prod.splits sum.splits)

lemma run_exec_acts:
  assumes "\<And>sess call. started = Inr (sess, call) \<Longrightarrow> ec_Cluster call = c"
  shows "acts_for A ctx (Some c) (\<lambda>w. (x w, run_exec A ctx started w))"
proof (cases started)
  case (Inl e)
  then show ?thesis by (intro acts_for_quiet) (simp_all add: run_exec_def)
next
  case (Inr sc)
  obtain sess call where sc: "sc = (sess, call)" by fastforce
  have "acts_for A ctx (Some c) (on_k8s (repo_Exec A ctx c (ec_Namespace call) (ec_Name call) (ec_Opts call)))"
    by (intro acts_forI logs_only_on_k8s as_user_runtime(2) [unfolded as_user_def])
  then show ?thesis by (rule acts_for_cong [rotated]) (use assms Inr sc in \<open>simp add: run_exec_def\<close>)
qed

lemma run_port_forward_acts:
  assumes "\<And>sess call. started = Inr (sess, call) \<Longrightarrow> fc_Cluster call = c"
  shows "acts_for A ctx (Some c) (\<lambda>w. (x w, run_port_forward A S evs ctx started w))"
proof (cases started)
  case (Inl e)
  then show ?thesis by (intro acts_for_quiet) (simp_all add: run_port_forward_def)
next
  case (Inr sc)
  obtain sess call where sc: "sc = (sess, call)" by fastforce
  have "acts_for A ctx (Some c) (on_k8s (repo_PortForward A S evs ctx c (fc_Namespace call) (fc_Name call) (sint (fc_Port call))))"
    by (intro acts_forI logs_only_on_k8s as_user_runtime(6) [unfolded as_user_def])
  then show ?thesis by (rule acts_for_cong [rotated]) (use assms Inr sc in \<open>simp add: run_port_forward_def\<close>)
qed

text \<open>Nothing the adapter does depends on the sessions, so a change of them may come first.\<close>

lemma acts_for_sessions:
  fixes m :: "sessions_world \<Rightarrow> ('tun, 't, 'x, 'sc, 'rs) server_world \<Rightarrow> 'a \<times> ('tun, 't, 'x, 'sc, 'rs) server_world"
  assumes "\<And>s. acts_for A ctx c (m s)"
  shows "acts_for A ctx c (\<lambda>w. m (sw_sessions w) (w\<lparr>sw_sessions := g (sw_sessions w)\<rparr>))"
proof (unfold acts_for_def, rule allI)
  fix w :: "('tun, 't, 'x, 'sc, 'rs) server_world"
  show "\<exists>l. sent (sw_k8s (snd (m (sw_sessions w) (w\<lparr>sw_sessions := g (sw_sessions w)\<rparr>)))) = sent (sw_k8s w) @ l \<and>
         (\<forall>(cfg, req)\<in>set l. \<exists>ca. c = Some ca \<and> impersonates A (kw_tunnel (sw_k8s w)) ctx ca cfg)"
    using assms [of "sw_sessions w", unfolded acts_for_def, rule_format, of "w\<lparr>sw_sessions := g (sw_sessions w)\<rparr>"] by simp
qed

lemma runtime_service_acts:
  shows "acts_for (sd_k8s D) ctx (Some (lr_Cluster lr)) (tsh_PodLog (runtime_service D env) ctx lr)"
    "acts_for (sd_k8s D) ctx (Some (et_Cluster et)) (tsh_ExecuteTTY (runtime_service D env) ctx et)"
    "acts_for (sd_k8s D) ctx c (tsh_WriteTTY (runtime_service D env) ctx wr)"
    "acts_for (sd_k8s D) ctx c (tsh_ResizeTTY (runtime_service D env) ctx rz)"
    "acts_for (sd_k8s D) ctx (Some cl) (tsh_PortForward (runtime_service D env) ctx (cl, ns, name, port))"
    "acts_for (sd_k8s D) ctx c (tsh_WritePortForward (runtime_service D env) ctx wr)"
    "acts_for (sd_k8s D) ctx (Some (id_Cluster i)) (tsh_Scale (runtime_service D env) ctx (i, n))"
    "acts_for (sd_k8s D) ctx (Some (id_Cluster i)) (tsh_Restart (runtime_service D env) ctx i)"
proof -
  note logs = logs_only_runtime server.lookupGVR_log
  have "acts_for (sd_k8s D) ctx (Some (lr_Cluster lr))
      (PodLog (server_runtime_repo (sd_k8s D) (ev_stamp env)) ctx (ev_log_reads env) (ev_log_send env) lr)"
    by (intro acts_forI) (auto simp: PodLog_def StartPodLogs_def intro!: logs_only_bindE logs)
  then show "acts_for (sd_k8s D) ctx (Some (lr_Cluster lr)) (tsh_PodLog (runtime_service D env) ctx lr)"
    by (rule acts_for_cong [rotated]) (auto simp: runtime_service_def runtime_PodLog_def Let_def split: prod.splits sum.splits)
  show "acts_for (sd_k8s D) ctx (Some (id_Cluster i)) (tsh_Scale (runtime_service D env) ctx (i, n))"
    "acts_for (sd_k8s D) ctx (Some (id_Cluster i)) (tsh_Restart (runtime_service D env) ctx i)"
    by (intro acts_forI;
        auto simp: runtime_service_def Let_def srv_Scale_def uc_Scale_def srv_Restart_def uc_Restart_def intro!: logs_only_bindE logs)+
  show "acts_for (sd_k8s D) ctx c (tsh_WriteTTY (runtime_service D env) ctx wr)"
    "acts_for (sd_k8s D) ctx c (tsh_ResizeTTY (runtime_service D env) ctx rz)"
    "acts_for (sd_k8s D) ctx c (tsh_WritePortForward (runtime_service D env) ctx wr)"
    by (intro acts_for_quiet; simp add: runtime_service_def Let_def on_sessions_def split: prod.splits)+
  let ?started = "\<lambda>s. fst (StartExec s (ev_ref env) (ev_uuid env) (exec_params et))"
  let ?exec = "\<lambda>s w. ((), (if dims_ok (et_Rows et) (et_Cols et) then run_exec (sd_k8s D) ctx (?started s) else id) w)"
  have exec: "acts_for (sd_k8s D) ctx (Some (et_Cluster et)) (?exec s)" for s
  proof (cases "dims_ok (et_Rows et) (et_Cols et)")
    case True
    have "ec_Cluster call = et_Cluster et" if "?started s = Inr (sess, call)" for sess call
      using StartExec_cluster [OF that] by (simp add: exec_params_def)
    from run_exec_acts [OF this] show ?thesis using True by simp
  qed (simp add: acts_for_quiet)
  show "acts_for (sd_k8s D) ctx (Some (et_Cluster et)) (tsh_ExecuteTTY (runtime_service D env) ctx et)"
    by (rule acts_for_cong [OF _ acts_for_sessions [where m = ?exec, OF exec, where g = "\<lambda>s. snd (ExecuteTTY s (ev_ref env) (ev_uuid env)
        (ev_exec_send env) (ev_exec_events env) (ev_between env) et)"]])
      (simp add: runtime_service_def runtime_ExecuteTTY_def Let_def split: prod.splits)
  let ?pf = "\<lambda>s w. ((), run_port_forward (sd_k8s D) (sd_spdy D) (ev_pf_events env) ctx
      (fst (StartPortForward s (ev_ref env) (ev_uuid env) cl ns name port)) w)"
  have pf: "acts_for (sd_k8s D) ctx (Some cl) (?pf s)" for s
    by (intro run_port_forward_acts StartPortForward_cluster)
  show "acts_for (sd_k8s D) ctx (Some cl) (tsh_PortForward (runtime_service D env) ctx (cl, ns, name, port))"
    by (rule acts_for_cong [OF _ acts_for_sessions [where m = ?pf, OF pf, where g = "\<lambda>s. snd (srv_PortForward s (ev_ref env) (ev_uuid env)
        (ev_pf_send env) (ev_pf_reads env) (ev_between env) (ev_pf_first env) cl ns name port)"]])
      (simp add: runtime_service_def runtime_PortForward_def Let_def split: prod.splits)
qed

text \<open>The methods of the fleet service send nothing to any cluster.\<close>

lemma fleet_service_acts:
  "acts_for A ctx c (fsh_ListClusters (fleet_service D env) ctx q1)"
  "acts_for A ctx c (fsh_Register (fleet_service D env) ctx q2)"
  "acts_for A ctx c (fsh_GetAgentManifest (fleet_service D env) ctx q3)"
  by (intro acts_for_quiet; simp add: fleet_service_def on_tunnel_def split: prod.splits)+

section \<open>From requests to methods\<close>

text \<open>The cluster a message names, as the handler of its procedure decodes it.\<close>

definition names :: "('q \<Rightarrow> gostring) \<Rightarrow> 'q res \<Rightarrow> gostring option" where
  "names f r = (case r of Inl _ \<Rightarrow> None | Inr q \<Rightarrow> Some (f q))"

definition resource_clusters :: "('st, 'w, 'r) resource_connect \<Rightarrow> (gostring \<times> (http_request \<Rightarrow> gostring option)) list" where
  "resource_clusters X =
     [(ResourceServiceDiscoveryProcedure, \<lambda>rq. names id (cu_Unmarshal (rcn_Discovery X) rq)),
      (ResourceServiceSchemaProcedure, \<lambda>rq. names fst (cu_Unmarshal (rcn_Schema X) rq)),
      (ResourceServiceListProcedure, \<lambda>rq. names (id_Cluster \<circ> fst) (cu_Unmarshal (rcn_List X) rq)),
      (ResourceServiceGetProcedure, \<lambda>rq. names id_Cluster (cu_Unmarshal (rcn_Get X) rq)),
      (ResourceServiceDescribeProcedure, \<lambda>rq. names id_Cluster (cu_Unmarshal (rcn_Describe X) rq)),
      (ResourceServiceCreateProcedure, \<lambda>rq. names (id_Cluster \<circ> fst) (cu_Unmarshal (rcn_Create X) rq)),
      (ResourceServiceApplyProcedure, \<lambda>rq. names (id_Cluster \<circ> fst) (cu_Unmarshal (rcn_Apply X) rq)),
      (ResourceServiceDeleteProcedure, \<lambda>rq. names (id_Cluster \<circ> fst) (cu_Unmarshal (rcn_Delete X) rq)),
      (ResourceServiceWatchProcedure, \<lambda>rq. names (id_Cluster \<circ> fst) (cs_Unmarshal (rcn_Watch X) rq))]"

definition runtime_clusters :: "('w, 'r) runtime_connect \<Rightarrow> (gostring \<times> (http_request \<Rightarrow> gostring option)) list" where
  "runtime_clusters X =
     [(RuntimeServicePodLogProcedure, \<lambda>rq. names lr_Cluster (cs_Unmarshal (tcn_PodLog X) rq)),
      (RuntimeServiceExecuteTTYProcedure, \<lambda>rq. names et_Cluster (cs_Unmarshal (tcn_ExecuteTTY X) rq)),
      (RuntimeServicePortForwardProcedure, \<lambda>rq. names fst (cs_Unmarshal (tcn_PortForward X) rq)),
      (RuntimeServiceScaleProcedure, \<lambda>rq. names (id_Cluster \<circ> fst) (cu_Unmarshal (tcn_Scale X) rq)),
      (RuntimeServiceRestartProcedure, \<lambda>rq. names id_Cluster (cu_Unmarshal (tcn_Restart X) rq))]"

definition called_cluster ::
  "('v, 'k, 'c, 'p, 'q, 't, 'x, 'sc, 'ver, 'rs, 'st, 'r) server_deps \<Rightarrow> http_request \<Rightarrow> gostring option" where
  "called_cluster D rq =
     (case map_of (resource_clusters (sd_resourceRPC D) @ runtime_clusters (sd_runtimeRPC D)) (rq_path rq) of
        None \<Rightarrow> None
      | Some f \<Rightarrow> f rq)"

section \<open>Errors have codes\<close>

definition coded :: "('w, 'a) eff \<Rightarrow> bool" where
  "coded m \<longleftrightarrow> (\<forall>w e w'. m w = (Inl e, w') \<longrightarrow> (\<exists>c. connect_code_of e = Some c))"

named_theorems coded_intros

lemma connect_error_coded [simp]: "\<exists>c. connect_code_of (domainErrorToConnectError e) = Some c" "\<exists>c. connect_code_of (connect_internal e) = Some c"
  by (simp_all add: domainErrorToConnectError_def connect_internal_def split: option.splits)

lemma coded_mapErrE [coded_intros]: "coded (mapErrE domainErrorToConnectError m)" "coded (mapErrE connect_internal m)"
  by (auto simp: coded_def mapErrE_def split: prod.splits sum.splits)

lemma coded_bindE [coded_intros]: "coded m \<Longrightarrow> (\<And>x. coded (f x)) \<Longrightarrow> coded (bindE m f)"
  unfolding coded_def by (meson bindE_InlD)

lemma coded_converted [coded_intros]: "coded (converted m conv)"
  unfolding converted_def by (intro coded_intros)

lemma coded_on_tunnel [coded_intros]: "coded m \<Longrightarrow> coded (on_tunnel m)"
  by (force simp: coded_def on_tunnel_def split: prod.splits)

lemma coded_on_sessions [coded_intros]: "(\<And>s e s'. m s = (Inl e, s') \<Longrightarrow> (\<exists>c. connect_code_of e = Some c)) \<Longrightarrow> coded (on_sessions m)"
  by (force simp: coded_def on_sessions_def split: prod.splits)

lemma to_connect_coded [simp]: "to_connect r = Inl e \<Longrightarrow> (\<exists>c. connect_code_of e = Some c)"
  by (cases r) (auto simp: to_connect_def)

lemma GetAgentManifest_coded: "GetAgentManifest uc now ctx cl = Inl e \<Longrightarrow> (\<exists>c. connect_code_of e = Some c)"
  by (auto simp: GetAgentManifest_def split: option.splits sum.splits)

text \<open>Claim C20. Whatever happens behind it, a unary method of the three services fails only with a Connect error, so a
  client always gets a code: no error of the domain, of the Kubernetes API or of a library reaches the RPC library bare, where it
  would be reported as unknown.\<close>

theorem service_errors_coded:
  "coded (fsh_ListClusters (fleet_service D env) ctx u) \<and> coded (fsh_Register (fleet_service D env) ctx rr) \<and>
   coded (fsh_GetAgentManifest (fleet_service D env) ctx cl) \<and>
   coded (rsh_Discovery (resource_service D env) ctx cl) \<and> coded (rsh_Schema (resource_service D env) ctx sq) \<and>
   coded (rsh_List (resource_service D env) ctx lq) \<and> coded (rsh_Get (resource_service D env) ctx i) \<and>
   coded (rsh_Describe (resource_service D env) ctx i) \<and> coded (rsh_Create (resource_service D env) ctx cq) \<and>
   coded (rsh_Apply (resource_service D env) ctx aq) \<and> coded (rsh_Delete (resource_service D env) ctx dq) \<and>
   coded (tsh_WriteTTY (runtime_service D env) ctx wq) \<and> coded (tsh_ResizeTTY (runtime_service D env) ctx zq) \<and>
   coded (tsh_WritePortForward (runtime_service D env) ctx wq) \<and> coded (tsh_Scale (runtime_service D env) ctx xq) \<and>
   coded (tsh_Restart (runtime_service D env) ctx i)"
proof -
  have "coded (fsh_ListClusters (fleet_service D env) ctx u)" by (simp add: fleet_service_def coded_def)
  moreover have "coded (fsh_GetAgentManifest (fleet_service D env) ctx cl)"
    by (auto simp: fleet_service_def coded_def liftE_def dest: GetAgentManifest_coded)
  moreover have "coded (fsh_Register (fleet_service D env) ctx rr)"
    by (auto simp: fleet_service_def srv_Register_def intro!: coded_intros)
  moreover have "coded (rsh_Discovery (resource_service D env) ctx cl)" "coded (rsh_Schema (resource_service D env) ctx sq)"
    "coded (rsh_List (resource_service D env) ctx lq)" "coded (rsh_Get (resource_service D env) ctx i)"
    "coded (rsh_Describe (resource_service D env) ctx i)" "coded (rsh_Create (resource_service D env) ctx cq)"
    "coded (rsh_Apply (resource_service D env) ctx aq)" "coded (rsh_Delete (resource_service D env) ctx dq)"
    by (auto simp: resource_service_def Let_def srv_Discovery_def srv_Schema_def srv_List_def srv_Get_def srv_Describe_def srv_Create_def
        srv_Apply_def srv_Delete_def intro!: coded_intros split: prod.splits)
  moreover have "coded (tsh_WriteTTY (runtime_service D env) ctx wq)" "coded (tsh_ResizeTTY (runtime_service D env) ctx zq)"
    "coded (tsh_WritePortForward (runtime_service D env) ctx wq)" "coded (tsh_Scale (runtime_service D env) ctx xq)"
    "coded (tsh_Restart (runtime_service D env) ctx i)"
    by (auto simp: runtime_service_def Let_def WriteTTY_def ResizeTTY_def dims_error_def srv_WritePortForward_def srv_Scale_def srv_Restart_def
        intro!: coded_intros split: prod.splits if_splits dest!: to_connect_coded)
  ultimately show ?thesis by blast
qed

end
