(* ===== verification/Dispatch.thy ===== *)
theory Dispatch
  imports Services
begin

text \<open>
  From an HTTP request to the method that serves it: whatever property of state changes holds of the
  methods for the messages decoded from a request holds of the multiplexer for that request. The locale \<open>step_property\<close>
  states what is needed of the property; it is interpreted for sending requests on behalf of a user and for
  keeping an invariant.
\<close>

section \<open>What the code relies on\<close>

definition rpc_serves ::
  "('v, 'k, 'c, 'p, 'q, 't, 'x, 'sc, 'ver, 'rs, 'st, 'r) server_deps \<Rightarrow> bool" where
  "rpc_serves D \<longleftrightarrow>
     (let F = sd_fleetRPC D; R = sd_resourceRPC D; T = sd_runtimeRPC D in
      unary_serves (fcn_ListClusters F) \<and> unary_serves (fcn_Register F) \<and> unary_serves (fcn_GetAgentManifest F) \<and>
      unary_serves (rcn_Discovery R) \<and> unary_serves (rcn_Schema R) \<and> unary_serves (rcn_List R) \<and> unary_serves (rcn_Get R) \<and>
      unary_serves (rcn_Describe R) \<and> unary_serves (rcn_Create R) \<and> unary_serves (rcn_Apply R) \<and> unary_serves (rcn_Delete R) \<and>
      stream_serves (rcn_Watch R) \<and> stream_serves (tcn_PodLog T) \<and> stream_serves (tcn_ExecuteTTY T) \<and> unary_serves (tcn_WriteTTY T) \<and>
      unary_serves (tcn_ResizeTTY T) \<and> stream_serves (tcn_PortForward T) \<and> unary_serves (tcn_WritePortForward T) \<and>
      unary_serves (tcn_Scale T) \<and> unary_serves (tcn_Restart T))"

text \<open>Reflection, health and metrics leave the state of the server alone.\<close>

definition ops_quiet :: "('w, 'r) ops_lib \<Rightarrow> bool" where
  "ops_quiet Ops \<longleftrightarrow>
     (\<forall>names rq rc w. snd (snd (ol_reflectV1 Ops names) rq rc w) = w \<and> snd (snd (ol_reflectV1Alpha Ops names) rq rc w) = w \<and>
        snd (snd (ol_health Ops names) rq rc w) = w \<and> snd (ol_metrics Ops rq rc w) = w)"

section \<open>The methods a request may reach\<close>

definition fleet_methods ::
  "('v, 'k, 'c, 'p, 'q, 't, 'x, 'sc, 'ver, 'rs, 'st, 'r) server_deps \<Rightarrow> 'st server_env \<Rightarrow> go_context \<Rightarrow> http_request \<Rightarrow>
     (((('v, 'k, 'c) Service, 't, 'x, 'sc, 'rs) server_world \<Rightarrow> (('v, 'k, 'c) Service, 't, 'x, 'sc, 'rs) server_world) \<Rightarrow> bool) \<Rightarrow> bool" where
  "fleet_methods D env ctx rq P \<longleftrightarrow>
     (let X = sd_fleetRPC D; svc = fleet_service D env in
      (\<forall>q. rq_path rq = FleetServiceListClustersProcedure \<and> cu_Unmarshal (fcn_ListClusters X) rq = Inr q \<longrightarrow> P (\<lambda>w. snd (fsh_ListClusters svc ctx q w))) \<and>
      (\<forall>q. rq_path rq = FleetServiceRegisterProcedure \<and> cu_Unmarshal (fcn_Register X) rq = Inr q \<longrightarrow> P (\<lambda>w. snd (fsh_Register svc ctx q w))) \<and>
      (\<forall>q. rq_path rq = FleetServiceGetAgentManifestProcedure \<and> cu_Unmarshal (fcn_GetAgentManifest X) rq = Inr q \<longrightarrow> P (\<lambda>w. snd (fsh_GetAgentManifest svc ctx q w))))"

definition resource_methods ::
  "('v, 'k, 'c, 'p, 'q, 't, 'x, 'sc, 'ver, 'rs, 'st, 'r) server_deps \<Rightarrow> 'st server_env \<Rightarrow> go_context \<Rightarrow> http_request \<Rightarrow>
     (((('v, 'k, 'c) Service, 't, 'x, 'sc, 'rs) server_world \<Rightarrow> (('v, 'k, 'c) Service, 't, 'x, 'sc, 'rs) server_world) \<Rightarrow> bool) \<Rightarrow> bool" where
  "resource_methods D env ctx rq P \<longleftrightarrow>
     (let X = sd_resourceRPC D; svc = resource_service D env in
      (\<forall>q. rq_path rq = ResourceServiceDiscoveryProcedure \<and> cu_Unmarshal (rcn_Discovery X) rq = Inr q \<longrightarrow> P (\<lambda>w. snd (rsh_Discovery svc ctx q w))) \<and>
      (\<forall>q. rq_path rq = ResourceServiceSchemaProcedure \<and> cu_Unmarshal (rcn_Schema X) rq = Inr q \<longrightarrow> P (\<lambda>w. snd (rsh_Schema svc ctx q w))) \<and>
      (\<forall>q. rq_path rq = ResourceServiceListProcedure \<and> cu_Unmarshal (rcn_List X) rq = Inr q \<longrightarrow> P (\<lambda>w. snd (rsh_List svc ctx q w))) \<and>
      (\<forall>q. rq_path rq = ResourceServiceGetProcedure \<and> cu_Unmarshal (rcn_Get X) rq = Inr q \<longrightarrow> P (\<lambda>w. snd (rsh_Get svc ctx q w))) \<and>
      (\<forall>q. rq_path rq = ResourceServiceDescribeProcedure \<and> cu_Unmarshal (rcn_Describe X) rq = Inr q \<longrightarrow> P (\<lambda>w. snd (rsh_Describe svc ctx q w))) \<and>
      (\<forall>q. rq_path rq = ResourceServiceCreateProcedure \<and> cu_Unmarshal (rcn_Create X) rq = Inr q \<longrightarrow> P (\<lambda>w. snd (rsh_Create svc ctx q w))) \<and>
      (\<forall>q. rq_path rq = ResourceServiceApplyProcedure \<and> cu_Unmarshal (rcn_Apply X) rq = Inr q \<longrightarrow> P (\<lambda>w. snd (rsh_Apply svc ctx q w))) \<and>
      (\<forall>q. rq_path rq = ResourceServiceDeleteProcedure \<and> cu_Unmarshal (rcn_Delete X) rq = Inr q \<longrightarrow> P (\<lambda>w. snd (rsh_Delete svc ctx q w))) \<and>
      (\<forall>q. rq_path rq = ResourceServiceWatchProcedure \<and> cs_Unmarshal (rcn_Watch X) rq = Inr q \<longrightarrow> P (\<lambda>w. snd (rsh_Watch svc ctx q w))))"

definition runtime_methods ::
  "('v, 'k, 'c, 'p, 'q, 't, 'x, 'sc, 'ver, 'rs, 'st, 'r) server_deps \<Rightarrow> 'st server_env \<Rightarrow> go_context \<Rightarrow> http_request \<Rightarrow>
     (((('v, 'k, 'c) Service, 't, 'x, 'sc, 'rs) server_world \<Rightarrow> (('v, 'k, 'c) Service, 't, 'x, 'sc, 'rs) server_world) \<Rightarrow> bool) \<Rightarrow> bool" where
  "runtime_methods D env ctx rq P \<longleftrightarrow>
     (let X = sd_runtimeRPC D; svc = runtime_service D env in
      (\<forall>q. rq_path rq = RuntimeServicePodLogProcedure \<and> cs_Unmarshal (tcn_PodLog X) rq = Inr q \<longrightarrow> P (\<lambda>w. snd (tsh_PodLog svc ctx q w))) \<and>
      (\<forall>q. rq_path rq = RuntimeServiceExecuteTTYProcedure \<and> cs_Unmarshal (tcn_ExecuteTTY X) rq = Inr q \<longrightarrow> P (\<lambda>w. snd (tsh_ExecuteTTY svc ctx q w))) \<and>
      (\<forall>q. rq_path rq = RuntimeServiceWriteTTYProcedure \<and> cu_Unmarshal (tcn_WriteTTY X) rq = Inr q \<longrightarrow> P (\<lambda>w. snd (tsh_WriteTTY svc ctx q w))) \<and>
      (\<forall>q. rq_path rq = RuntimeServiceResizeTTYProcedure \<and> cu_Unmarshal (tcn_ResizeTTY X) rq = Inr q \<longrightarrow> P (\<lambda>w. snd (tsh_ResizeTTY svc ctx q w))) \<and>
      (\<forall>q. rq_path rq = RuntimeServicePortForwardProcedure \<and> cs_Unmarshal (tcn_PortForward X) rq = Inr q \<longrightarrow> P (\<lambda>w. snd (tsh_PortForward svc ctx q w))) \<and>
      (\<forall>q. rq_path rq = RuntimeServiceWritePortForwardProcedure \<and> cu_Unmarshal (tcn_WritePortForward X) rq = Inr q \<longrightarrow> P (\<lambda>w. snd (tsh_WritePortForward svc ctx q w))) \<and>
      (\<forall>q. rq_path rq = RuntimeServiceScaleProcedure \<and> cu_Unmarshal (tcn_Scale X) rq = Inr q \<longrightarrow> P (\<lambda>w. snd (tsh_Scale svc ctx q w))) \<and>
      (\<forall>q. rq_path rq = RuntimeServiceRestartProcedure \<and> cu_Unmarshal (tcn_Restart X) rq = Inr q \<longrightarrow> P (\<lambda>w. snd (tsh_Restart svc ctx q w))))"

section \<open>Properties of state changes\<close>

locale step_property =
  fixes P :: "('w \<Rightarrow> 'w) \<Rightarrow> bool"
  assumes same: "P (\<lambda>w. w)"
    and pointwise: "(\<And>w. \<exists>g. P g \<and> f w = g w) \<Longrightarrow> P f"
begin

lemma quiet: "(\<And>w. f w = w) \<Longrightarrow> P f"
  by (rule pointwise) (use same in auto)

lemma unary_handler:
  assumes "unary_serves U" "\<And>q. cu_Unmarshal U rq = Inr q \<Longrightarrow> P (\<lambda>w. snd (f (fst rc) q w))"
  shows "P (\<lambda>w. snd (cu_NewHandler U procedure f rq rc w))"
proof (rule pointwise)
  fix w
  from assms(1) consider "snd (cu_NewHandler U procedure f rq rc w) = w"
    | q where "cu_Unmarshal U rq = Inr q" "snd (cu_NewHandler U procedure f rq rc w) = snd (f (fst rc) q w)"
    unfolding unary_serves_def by blast
  then show "\<exists>g. P g \<and> snd (cu_NewHandler U procedure f rq rc w) = g w"
    by cases (use same assms(2) in \<open>blast+\<close>)
qed

lemma stream_handler:
  assumes "stream_serves U" "\<And>q. cs_Unmarshal U rq = Inr q \<Longrightarrow> P (\<lambda>w. snd (f (fst rc) q w))"
  shows "P (\<lambda>w. snd (cs_NewHandler U procedure f rq rc w))"
proof (rule pointwise)
  fix w
  from assms(1) consider "snd (cs_NewHandler U procedure f rq rc w) = w"
    | q where "cs_Unmarshal U rq = Inr q" "snd (cs_NewHandler U procedure f rq rc w) = snd (f (fst rc) q w)"
    unfolding stream_serves_def by blast
  then show "\<exists>g. P g \<and> snd (cs_NewHandler U procedure f rq rc w) = g w"
    by cases (use same assms(2) in \<open>blast+\<close>)
qed

lemma dispatch:
  assumes "\<And>k. (rq_path rq, k) \<in> set ks \<Longrightarrow> P (\<lambda>w. snd (k rq rc w))"
  shows "P (\<lambda>w. snd (path_switch H ks rq rc w))"
proof (rule pointwise)
  fix w
  show "\<exists>g. P g \<and> snd (path_switch H ks rq rc w) = g w"
    by (cases rule: path_switch_cases [of H ks rq rc w]) (use same assms in \<open>auto intro: exI [of _ "\<lambda>w. w"]\<close>)
qed

end

text \<open>The same for the state of the server.\<close>

locale server_property = step_property P
  for P :: "((('v, 'k, 'c) Service, 't, 'x, 'sc, 'rs) server_world \<Rightarrow> (('v, 'k, 'c) Service, 't, 'x, 'sc, 'rs) server_world) \<Rightarrow> bool"
begin

lemma fleet_dispatch:
  assumes "rpc_serves D" "fleet_methods D env (fst rc) rq P"
  shows "P (\<lambda>w. snd (snd (NewFleetServiceHandler H (fleet_handlers (sd_fleetRPC D) (fleet_service D env))) rq rc w))"
proof -
  have serves: "unary_serves (fcn_ListClusters (sd_fleetRPC D))" "unary_serves (fcn_Register (sd_fleetRPC D))"
    "unary_serves (fcn_GetAgentManifest (sd_fleetRPC D))"
    using assms(1) unfolding rpc_serves_def Let_def by blast+
  show ?thesis
    unfolding NewFleetServiceHandler_def snd_conv fleet_handlers_def fleet_http_handlers.simps
    by (rule dispatch) (use assms(2) in \<open>auto simp: fleet_methods_def Let_def intro!: unary_handler serves\<close>)
qed

lemma resource_dispatch:
  assumes "rpc_serves D" "resource_methods D env (fst rc) rq P"
  shows "P (\<lambda>w. snd (snd (NewResourceServiceHandler H (resource_handlers (sd_resourceRPC D) (resource_service D env))) rq rc w))"
proof -
  have serves: "unary_serves (rcn_Discovery (sd_resourceRPC D))" "unary_serves (rcn_Schema (sd_resourceRPC D))"
    "unary_serves (rcn_List (sd_resourceRPC D))" "unary_serves (rcn_Get (sd_resourceRPC D))" "unary_serves (rcn_Describe (sd_resourceRPC D))"
    "unary_serves (rcn_Create (sd_resourceRPC D))" "unary_serves (rcn_Apply (sd_resourceRPC D))" "unary_serves (rcn_Delete (sd_resourceRPC D))"
    "stream_serves (rcn_Watch (sd_resourceRPC D))"
    using assms(1) unfolding rpc_serves_def Let_def by blast+
  show ?thesis
    unfolding NewResourceServiceHandler_def snd_conv resource_handlers_def resource_http_handlers.simps
    by (rule dispatch) (use assms(2) in \<open>auto simp: resource_methods_def Let_def intro!: unary_handler stream_handler serves\<close>)
qed

lemma runtime_dispatch:
  assumes "rpc_serves D" "runtime_methods D env (fst rc) rq P"
  shows "P (\<lambda>w. snd (snd (NewRuntimeServiceHandler H (runtime_handlers (sd_runtimeRPC D) (runtime_service D env))) rq rc w))"
proof -
  have serves: "stream_serves (tcn_PodLog (sd_runtimeRPC D))" "stream_serves (tcn_ExecuteTTY (sd_runtimeRPC D))"
    "unary_serves (tcn_WriteTTY (sd_runtimeRPC D))" "unary_serves (tcn_ResizeTTY (sd_runtimeRPC D))"
    "stream_serves (tcn_PortForward (sd_runtimeRPC D))" "unary_serves (tcn_WritePortForward (sd_runtimeRPC D))"
    "unary_serves (tcn_Scale (sd_runtimeRPC D))" "unary_serves (tcn_Restart (sd_runtimeRPC D))"
    using assms(1) unfolding rpc_serves_def Let_def by blast+
  show ?thesis
    unfolding NewRuntimeServiceHandler_def snd_conv runtime_handlers_def runtime_http_handlers.simps
    by (rule dispatch) (use assms(2) in \<open>auto simp: runtime_methods_def Let_def intro!: unary_handler stream_handler serves\<close>)
qed

lemma mux_property:
  assumes "rpc_serves D" "ops_laws Ops" "ops_quiet Ops" "server_Mount Ops H (server_handlers D env) = Inr mux" "url_ok rq"
    and "fleet_methods D env (fst rc) rq P" "resource_methods D env (fst rc) rq P" "runtime_methods D env (fst rc) rq P"
  shows "P (\<lambda>w. snd (mux rq rc w))"
proof (rule pointwise)
  fix w
  have services: "P (\<lambda>w. snd (k rq rc w))" if "(l, k) \<in> set (subtrees Ops H (server_handlers D env))" for l k
  proof -
    have ops: "P (\<lambda>w. snd (snd (ol_reflectV1 Ops service_names) rq rc w))" "P (\<lambda>w. snd (snd (ol_reflectV1Alpha Ops service_names) rq rc w))"
      "P (\<lambda>w. snd (snd (ol_health Ops service_names) rq rc w))"
      by (rule quiet, simp add: assms(3) [unfolded ops_quiet_def, rule_format])+
    show ?thesis
      using that ops fleet_dispatch [OF assms(1,6)] resource_dispatch [OF assms(1,7)] runtime_dispatch [OF assms(1,8)]
      by (auto simp: subtrees_def server_handlers_def)
  qed
  from assms(2,4,5) show "\<exists>g. P g \<and> snd (mux rq rc w) = g w"
  proof (cases rule: mux_cases [where rc = rc and w = w])
    case (subtree l k y)
    show ?thesis by (rule exI [of _ "\<lambda>w. snd (k rq rc w)"]) (simp add: services [OF subtree(1)] subtree(3))
  next
    case metrics
    then show ?thesis using same by (intro exI [of _ "\<lambda>w. w"]) (simp add: assms(3) [unfolded ops_quiet_def, rule_format])
  next
    case (manifest token)
    then show ?thesis using same by (intro exI [of _ "\<lambda>w. w"]) (simp add: server_handlers_def)
  qed (use same in \<open>auto intro: exI [of _ "\<lambda>w. w"]\<close>)
qed

end

section \<open>Requests on behalf of a user\<close>

lemma acts_for_pointwise:
  assumes "\<And>w. \<exists>g. acts_for A ctx c (\<lambda>w. ((), g w)) \<and> f w = g w"
  shows "acts_for A ctx c (\<lambda>w. ((), f w))"
proof (unfold acts_for_def, rule allI)
  fix w :: "('a, 'b, 'c, 'd, 'e) server_world"
  obtain g where g: "acts_for A ctx c (\<lambda>w. ((), g w))" "f w = g w" using assms by blast
  from g(1) [unfolded acts_for_def, rule_format, of w]
  show "\<exists>l. sent (sw_k8s (snd ((), f w))) = sent (sw_k8s w) @ l \<and>
      (\<forall>(cfg, req)\<in>set l. \<exists>ca. c = Some ca \<and> impersonates A (kw_tunnel (sw_k8s w)) ctx ca cfg)"
    using g(2) by simp
qed

interpretation acting: server_property "\<lambda>f. acts_for A ctx c (\<lambda>w. ((), f w))" for A ctx c
  by unfold_locales (auto intro: acts_for_quiet acts_for_pointwise)

lemma acts_for_snd: "acts_for A ctx c (\<lambda>w. ((), snd (m w))) \<longleftrightarrow> acts_for A ctx c m"
  by (simp add: acts_for_def)

text \<open>Whatever request the multiplexer serves, the requests it causes go to the cluster named in the
  message, in the name of the user of its context.\<close>

lemma mux_acts:
  assumes "flight_law (sd_flight D)" "rpc_serves D" "ops_laws Ops" "ops_quiet Ops"
    and "server_Mount Ops H (server_handlers D env) = Inr mux" "url_ok rq"
  shows "acts_for (sd_k8s D) (fst rc) (called_cluster D rq) (mux rq rc)"
proof -
  note act = resource_service_acts [OF assms(1)] runtime_service_acts fleet_service_acts
  note called = called_cluster_def resource_clusters_def runtime_clusters_def names_def procedure_defs
  let ?P = "\<lambda>f. acts_for (sd_k8s D) (fst rc) (called_cluster D rq) (\<lambda>w. ((), f w))"
  have "fleet_methods D env (fst rc) rq ?P" by (simp add: fleet_methods_def Let_def acts_for_snd act)
  moreover have "resource_methods D env (fst rc) rq ?P"
    unfolding resource_methods_def Let_def acts_for_snd by (intro conjI allI impI; elim conjE; auto simp: called intro: act)
  moreover have "runtime_methods D env (fst rc) rq ?P"
    unfolding runtime_methods_def Let_def acts_for_snd by (intro conjI allI impI; elim conjE; auto simp: called intro: act)
  ultimately have "?P (\<lambda>w. snd (mux rq rc w))" by (rule acting.mux_property [OF assms(2-6)])
  then show ?thesis by (simp add: acts_for_snd)
qed

end
