(* ===== verification/Enrolment.thy ===== *)
theory Enrolment
  imports Agent
begin

text \<open>
  The enrolment of an agent across both programs: the agent's registration callback, whose RPC is
  the server's \<^verbatim>\<open>FleetService.Register\<close> on the tunnel service. The lemmas follow the key pair from the
  agent's request to the certificate and the credentials from the certificate to the chisel user.
\<close>

section \<open>The agent talking to the server\<close>

definition fleet_rpc :: "'s FleetUseCase \<Rightarrow> 's register_rpc" where
  "fleet_rpc uc serverURL rq = srv_Register uc (rrq_cluster rq) (rrq_agentID rq) (rrq_agentVersion rq) (rrq_csr rq)"

text \<open>Documented behaviour of \<^verbatim>\<open>x509.CreateCertificateRequest\<close>: the request parses back with the public
  key of the key that signed it.\<close>

definition csr_law :: "('r, 'k, 'p, 'c, 'q) pki_lib \<Rightarrow> bool" where
  "csr_law L \<longleftrightarrow>
     (\<forall>r n k der r'. create_request L r n k = (Inr der, r') \<longrightarrow>
        (\<exists>q. parse_request L der = Inr q \<and> request_key L q = public_key L k))"

text \<open>A private key and a certificate in PEM that belong together.\<close>

definition key_matches :: "('r, 'k, 'p, 'c, 'q) pki_lib \<Rightarrow> bytes \<Rightarrow> bytes \<Rightarrow> bool" where
  "key_matches L keyPEM certPEM \<longleftrightarrow>
     (\<exists>keyDER key certDER cert. pem_decode L keyPEM = Some (''EC PRIVATE KEY'', keyDER) \<and> parse_ec_key L keyDER = Inr key \<and>
        pem_decode L certPEM = Some (''CERTIFICATE'', certDER) \<and> parse_certificate L certDER = Inr cert \<and>
        cert_public_key L cert = Some (public_key L key) \<and> \<not> cert_is_ca L cert)"

section \<open>Lemmas\<close>

lemma signed_key:
  assumes "pki_laws L" "csr_law L" "GenerateKey L r0 = (Inr (key, keyPEM), r1)" "GenerateCSR L key cn r1 = (Inr csrPEM, r2)"
    and "SignCSR L ca now csrPEM r = (Inr certPEM, r')"
  shows "key_matches L keyPEM certPEM"
proof -
  obtain keyDER where k: "marshal_ec_key L key = Inr keyDER" "keyPEM = pem_encode L ''EC PRIVATE KEY'' keyDER"
    using assms(3) by (auto simp: GenerateKey_def split: prod.splits sum.splits)
  obtain csrDER n where c: "create_request L r1 n key = (Inr csrDER, r2)" "csrPEM = pem_encode L ''CERTIFICATE REQUEST'' csrDER"
    using assms(4) by (auto simp: GenerateCSR_def split: prod.splits sum.splits)
  note pem = pki_laws_pem [OF assms(1)]
  obtain q where q: "parse_request L csrDER = Inr q" "request_key L q = public_key L key"
    using assms(2) c(1) unfolding csr_law_def by blast
  obtain serial r3 der where s: "create_certificate L r3 (client_template serial (request_subject L q) now) (Some (ca_cert ca))
      (request_key L q) (ca_key ca) = (Inr der, r')" "certPEM = pem_encode L ''CERTIFICATE'' der"
    using assms(5) q(1) c(2) by (auto simp: SignCSR_def pem split: option.splits prod.splits if_splits sum.splits)
  have "\<not> IsCA (client_template serial (request_subject L q) now)" by (simp add: client_template_def empty_template_def)
  then obtain cert where "parse_certificate L der = Inr cert" "\<not> cert_is_ca L cert" "cert_public_key L cert = Some (request_key L q)"
    using pki_laws_cert [OF assms(1) s(1)] by blast
  moreover have "parse_ec_key L keyDER = Inr key" by (rule pki_laws_key [OF assms(1) k(1)])
  ultimately show ?thesis using pem k(2) s(2) q(2) unfolding key_matches_def by auto
qed

lemma srv_Register_Inr:
  assumes "srv_Register uc cluster agentID ver csr (s, r) = (Inr reg, s', r')" "fu_tunnel uc = chisel_provider L C now"
  shows "RegisterCluster L C now (s, r) cluster agentID ver csr = (Inr (reg_Endpoint reg, reg_Certificate reg), s', r') \<and>
    dns_label cluster \<and> reg_CACertificate reg = CertPEM (service_ca s') \<and> reg_ServerVersion reg = fu_version uc"
proof -
  have "uc_RegisterCluster uc cluster agentID ver csr (s, r) = (Inr reg, s', r')" using assms(1) by (simp add: srv_Register_def)
  then show ?thesis
    using assms(2) ValidateClusterName_ok [of cluster]
    by (auto simp: uc_RegisterCluster_def chisel_provider_def CACertPEM_def split: sum.splits if_splits prod.splits)
qed

lemma RegisterCluster_signed:
  assumes "RegisterCluster L C now (s, r) cluster agentID ver csrPEM = (Inr (ep, cert), s', r')"
  shows "\<exists>r1. SignCSR L (service_ca s) now csrPEM r = (Inr cert, r1) \<and> service_ca s' = service_ca s"
  using assms
proof (cases rule: RegisterCluster_cases)
  case (locked srv certPEM auth u pass)
  from locked(5) have "certPEM = cert \<and> service_ca s' = service_ca s"
    by (cases rule: register_locked_cases) (auto simp: release_prev_def split: option.splits)
  then show ?thesis using locked(2) by blast
qed simp

lemma register_Inr:
  assumes "register L rpc f en version url cluster (ra, st, u) = (Inr result, ra', st', u')"
  obtains key keyPEM r1 csrPEM r2 resp where "GenerateKey L ra = (Inr (key, keyPEM), r1)"
    "GenerateCSR L key (fr_agentID f) r1 = (Inr csrPEM, r2)"
    "rpc url \<lparr>rrq_cluster = cluster, rrq_agentID = fr_agentID f, rrq_csr = csrPEM, rrq_agentVersion = fr_agentVersion f\<rparr> st = (Inr resp, st')"
    "DeriveAuth L (fr_agentID f) (reg_Certificate resp) = Inr (rr_Auth result)"
    "rr_Endpoint result = reg_Endpoint resp" "rr_CACertPEM result = reg_CACertificate resp"
    "rr_CertPEM result = reg_Certificate resp" "rr_KeyPEM result = keyPEM" "u' = checkVersion en version (reg_ServerVersion resp) u"
  using assms by (auto simp: register_def Register_def Let_def split: prod.splits sum.splits)

end
