(* ===== verification/End_To_End.thy ===== *)
theory End_To_End
  imports Dispatch Enrolment
begin

text \<open>
  The server as its clients see it: an HTTP client that reaches the server's handler, the calls of the
  generated clients through it, and the lemmas that follow a call through CORS, authentication,
  the multiplexer and the generated handler to the method of the service.
\<close>

section \<open>A client of the server\<close>

text \<open>The transport of a client, with the bearer token it adds to every request.\<close>

definition served_by :: "('w, 'r) handler \<Rightarrow> gostring option \<Rightarrow> rctx \<Rightarrow> ('w, 'r) HTTPClient" where
  "served_by h bearer rc rq w = (case h (rq\<lparr>rq_bearer := bearer\<rparr>) rc w of (r, w') \<Rightarrow> (Inr r, w'))"

text \<open>CORS concerns requests of browsers: one without an origin is passed on.\<close>

definition cors_same_origin :: "(gostring list option \<Rightarrow> ('w, 'r) handler \<Rightarrow> ('w, 'r) handler) \<Rightarrow> bool" where
  "cors_same_origin cors \<longleftrightarrow> (\<forall>os next rq rc w. rq_origin rq = [] \<longrightarrow> cors os next rq rc w = next rq rc w)"

lemma NewServer_config:
  assumes "NewServer A cors listen m0 (server_options address origins oidc (Inr mux)) = Inr h"
  shows "h = wrapCORS cors (server_config address origins oidc (Inr mux)) (wrapAuth A (server_config address origins oidc (Inr mux)) oidc mux)"
  using assms unfolding NewServer_def server_options_config Let_def
  by (simp add: buildHandler_def server_config_def split: if_splits option.splits)

text \<open>A request without an origin meets the authentication.\<close>

lemma same_origin_request:
  assumes "authn_laws A" "cors_same_origin cors" "rq_origin rq = []"
    and "NewServer A cors listen m0 (server_options address origins oidc (Inr mux)) = Inr h"
  shows "h rq (c, i) w =
    (if isPublicPath (server_config address origins oidc (Inr mux)) (rq_path rq) then mux rq (c, i) w
     else case oidc rq of
            Inl e \<Rightarrow> (authn_reject A e, w)
          | Inr u \<Rightarrow> mux rq (WithUserInfo c u, Some u) w)"
  using assms(2,3) unfolding NewServer_config [OF assms(4)] wrapCORS_def cors_same_origin_def
  by (simp add: wrapAuth_config [OF assms(1)])

text \<open>The user a verified token stands for.\<close>

definition token_user :: "id_token \<Rightarrow> gostring list \<Rightarrow> UserInfo" where
  "token_user idToken groups = \<lparr>ui_Subject = it_Subject idToken, ui_Groups = ''system:authenticated'' # map (\<lambda>g. ''oidc:'' @ g) groups\<rparr>"

lemma oidc_token:
  assumes "token \<noteq> []" "verifier token = Inr idToken" "it_Groups idToken = Inr groups"
  shows "oidc_authenticate verifier (rq\<lparr>rq_bearer := Some token\<rparr>) = Inr (token_user idToken groups)"
  using assms by (simp add: oidc_authenticate_def token_user_def)

section \<open>Calls\<close>

text \<open>A procedure of a service and the handler the generated switch selects for it.\<close>

definition procedure_of :: "('w, 'r) ops_lib \<Rightarrow> 'r http_lib \<Rightarrow> ('w, 'r) Handler \<Rightarrow> gostring \<Rightarrow> ('w, 'r) handler \<Rightarrow> bool" where
  "procedure_of Ops H hs procedure k \<longleftrightarrow>
     procedure \<in> set service_procedures \<and>
     (\<exists>l m k'. procedure = CHR ''/'' # l @ CHR ''/'' # m \<and> (l, k') \<in> set (subtrees Ops H hs) \<and> CHR ''/'' \<notin> set m \<and>
        m \<notin> {[], ''.'', ''..''} \<and> (\<forall>rq rc w. rq_path rq = procedure \<longrightarrow> k' rq rc w = k rq rc w))"

lemma procedure_of_routed:
  assumes "procedure_of Ops H hs procedure k" "ops_laws Ops" "server_Mount Ops H hs = Inr mux" "rpc_post procedure rq"
  shows "mux (rq\<lparr>rq_bearer := b\<rparr>) rc w = k (rq\<lparr>rq_bearer := b\<rparr>) rc w"
proof -
  obtain l m k' where p: "procedure = CHR ''/'' # l @ CHR ''/'' # m" "(l, k') \<in> set (subtrees Ops H hs)" "CHR ''/'' \<notin> set m"
      "m \<notin> {[], ''.'', ''..''}" "\<forall>rq rc w. rq_path rq = procedure \<longrightarrow> k' rq rc w = k rq rc w"
    using assms(1) unfolding procedure_of_def by blast
  have "mux (rq\<lparr>rq_bearer := b\<rparr>) rc w = k' (rq\<lparr>rq_bearer := b\<rparr>) rc w"
    using procedure_routed [OF assms(2,3) _ p(2-4), of "rq\<lparr>rq_bearer := b\<rparr>"] assms(4) p(1) by (simp add: rpc_post_def)
  also have "\<dots> = k (rq\<lparr>rq_bearer := b\<rparr>) rc w"
    using p(5) [rule_format, of "rq\<lparr>rq_bearer := b\<rparr>"] assms(4) by (simp add: rpc_post_def)
  finally show ?thesis .
qed

text \<open>With a token that is accepted a call reaches the handler of a protected procedure, as the token's user.\<close>

lemma server_delivers:
  assumes "authn_laws A" "cors_same_origin cors" "ops_laws Ops" "server_Mount Ops H hs = Inr mux"
    and "NewServer A cors listen m0 (server_options address origins (oidc_authenticate verifier) (Inr mux)) = Inr h"
    and "procedure_of Ops H hs procedure k" "procedure \<noteq> FleetServiceRegisterProcedure"
    and "token \<noteq> []" "verifier token = Inr idToken" "it_Groups idToken = Inr groups"
  shows "delivers (served_by h (Some token) (c, i)) procedure k (WithUserInfo c (token_user idToken groups), Some (token_user idToken groups))"
  unfolding delivers_def
proof (intro exI [of _ "Some token"] allI impI)
  fix rq w assume post: "rpc_post procedure rq"
  have "rq_path (rq\<lparr>rq_bearer := Some token\<rparr>) \<in> set service_procedures" "rq_path (rq\<lparr>rq_bearer := Some token\<rparr>) \<noteq> FleetServiceRegisterProcedure"
    using assms(6,7) post by (simp_all add: procedure_of_def rpc_post_def)
  note protected = protected_procedure [OF this, of address origins "oidc_authenticate verifier" "Inr mux"]
  have "rq_origin (rq\<lparr>rq_bearer := Some token\<rparr>) = []" using post by (simp add: rpc_post_def)
  from same_origin_request [OF assms(1,2) this assms(5), of c i w]
  have "h (rq\<lparr>rq_bearer := Some token\<rparr>) (c, i) w =
      mux (rq\<lparr>rq_bearer := Some token\<rparr>) (WithUserInfo c (token_user idToken groups), Some (token_user idToken groups)) w"
    using protected oidc_token [where verifier = verifier, OF assms(8-10), of rq] by simp
  then show "served_by h (Some token) (c, i) rq w =
      (case k (rq\<lparr>rq_bearer := Some token\<rparr>) (WithUserInfo c (token_user idToken groups), Some (token_user idToken groups)) w of
         (r, w') \<Rightarrow> (Inr r, w'))"
    unfolding served_by_def procedure_of_routed [OF assms(6,3,4) post] by simp
qed

text \<open>The agent needs no token to register.\<close>

lemma server_delivers_register:
  assumes "authn_laws A" "cors_same_origin cors" "ops_laws Ops" "server_Mount Ops H hs = Inr mux"
    and "NewServer A cors listen m0 (server_options address origins oidc (Inr mux)) = Inr h"
    and "procedure_of Ops H hs FleetServiceRegisterProcedure k"
  shows "delivers (served_by h None (c, i)) FleetServiceRegisterProcedure k (c, i)"
  unfolding delivers_def
proof (intro exI [of _ None] allI impI)
  fix rq w assume post: "rpc_post FleetServiceRegisterProcedure rq"
  have "isPublicPath (server_config address origins oidc (Inr mux)) FleetServiceRegisterProcedure"
    by (simp add: isPublicPath_def server_config_def public_paths_def)
  moreover have "rq_origin (rq\<lparr>rq_bearer := None\<rparr>) = []" "rq_path (rq\<lparr>rq_bearer := None\<rparr>) = FleetServiceRegisterProcedure"
    using post by (simp_all add: rpc_post_def)
  ultimately have "h (rq\<lparr>rq_bearer := None\<rparr>) (c, i) w = mux (rq\<lparr>rq_bearer := None\<rparr>) (c, i) w"
    using same_origin_request [OF assms(1,2) _ assms(5), of "rq\<lparr>rq_bearer := None\<rparr>" c i w] by simp
  then show "served_by h None (c, i) rq w = (case k (rq\<lparr>rq_bearer := None\<rparr>) (c, i) w of (r, w') \<Rightarrow> (Inr r, w'))"
    unfolding served_by_def procedure_of_routed [OF assms(6,3,4) post] by simp
qed

lemma procedure_of_Register:
  "procedure_of Ops H (server_handlers D env) FleetServiceRegisterProcedure
     (cu_NewHandler (fcn_Register (sd_fleetRPC D)) FleetServiceRegisterProcedure (fsh_Register (fleet_service D env)))"
  unfolding procedure_of_def
proof (intro conjI exI)
  show "FleetServiceRegisterProcedure = CHR ''/'' # ''otterscale.fleet.v1.FleetService'' @ CHR ''/'' # ''Register''"
    by (simp add: FleetServiceRegisterProcedure_def)
  show "(''otterscale.fleet.v1.FleetService'', snd (NewFleetServiceHandler H (hd_fleet (server_handlers D env)))) \<in>
      set (subtrees Ops H (server_handlers D env))"
    by (simp add: subtrees_def)
qed (simp_all add: service_procedures_def FleetServiceRegisterProcedure_def NewFleetServiceHandler_def procedure_defs
    server_handlers_def fleet_handlers_def)

lemma procedure_of_List:
  "procedure_of Ops H (server_handlers D env) ResourceServiceListProcedure
     (cu_NewHandler (rcn_List (sd_resourceRPC D)) ResourceServiceListProcedure (rsh_List (resource_service D env)))"
  unfolding procedure_of_def
proof (intro conjI exI)
  show "ResourceServiceListProcedure = CHR ''/'' # ''otterscale.resource.v1.ResourceService'' @ CHR ''/'' # ''List''"
    by (simp add: ResourceServiceListProcedure_def)
  show "(''otterscale.resource.v1.ResourceService'', snd (NewResourceServiceHandler H (hd_resource (server_handlers D env)))) \<in>
      set (subtrees Ops H (server_handlers D env))"
    by (simp add: subtrees_def)
qed (simp_all add: service_procedures_def NewResourceServiceHandler_def procedure_defs server_handlers_def resource_handlers_def)

text \<open>The agent's registration through the server is a call of the tunnel service.\<close>

lemma register_through_server:
  assumes "authn_laws A" "cors_same_origin cors" "ops_laws Ops" "server_Mount Ops H (server_handlers D env) = Inr mux"
    and "NewServer A cors listen m0 (server_options address origins oidc (Inr mux)) = Inr h"
    and "unary_calls (fcn_Register (sd_fleetRPC D))" "origin_url url"
    and "registrar_rpc (sd_fleetRPC D) (served_by h None (c, i)) url req w = (Inr resp, w')"
  shows "\<exists>s' rs'. srv_Register (env_fleet D env) (rrq_cluster req) (rrq_agentID req) (rrq_agentVersion req) (rrq_csr req)
      (kw_tunnel (sw_k8s w), sw_rand w) = (Inr resp, s', rs') \<and> w' = w\<lparr>sw_k8s := (sw_k8s w)\<lparr>kw_tunnel := s'\<rparr>, sw_rand := rs'\<rparr>"
proof -
  note del = server_delivers_register [OF assms(1-5) procedure_of_Register, of c i]
  obtain r w1 where run: "fsh_Register (fleet_service D env) (fst (c, i)) req w = (r, w1)" by fastforce
  then have "r = Inr resp \<and> w1 = w'"
    using registrar_rpc_served(1) [OF assms(6,7) del, of req w] registrar_rpc_served(2) [OF assms(6,7) del, of req w] assms(8)
    by (cases r) fastforce+
  then show ?thesis using run by (auto simp: fleet_service_def on_tunnel_def split: prod.splits)
qed

section \<open>A call answered by the cluster\<close>

text \<open>An API server at an address that answers a user's list of a resource: the transport and the clients can be made, and
  every request with that host and that identity is answered.\<close>

definition as_identity :: "gostring \<Rightarrow> UserInfo \<Rightarrow> 't rest_config \<Rightarrow> bool" where
  "as_identity address u cfg \<longleftrightarrow> rc_Host cfg = address \<and> rc_UserName cfg = ui_Subject u \<and> rc_Groups cfg = ui_Groups u"

definition answers_list ::
  "('tun, 't, 'x, 'sc, 'ver) k8s_api \<Rightarrow> gostring \<Rightarrow> UserInfo \<Rightarrow> ResourceIdentifier \<Rightarrow> ListOptions \<Rightarrow> UnstructuredList \<Rightarrow> bool" where
  "answers_list A address u i opts items \<longleftrightarrow>
     (\<forall>x. \<exists>rt x'. transport_for A address x = (Inr rt, x')) \<and>
     (\<forall>cfg. as_identity address u cfg \<longrightarrow>
        new_discovery_client A cfg = Inr () \<and> new_dynamic_client A cfg = Inr () \<and>
        (\<forall>x. \<exists>rs x'. server_resources_gv A cfg (gv_string (id_Group i) (id_Version i)) x = (Inr rs, x') \<and>
           (\<exists>r \<in> set rs. ar_Name r = id_Resource i)) \<and>
        (\<forall>x. \<exists>x'. dyn_list A cfg \<lparr>gvr_Group = id_Group i, gvr_Version = id_Version i, gvr_Resource = id_Resource i\<rparr> (id_Namespace i)
           (meta_list opts) x = (Inr items, x')))"

lemma impersonationConfig_succeeds:
  assumes "ctx_user ctx = Some u" "resolve_address A (kw_tunnel w) cluster = Inr address"
    and "\<forall>x. \<exists>rt x'. transport_for A address x = (Inr rt, x')"
  obtains cfg w1 where "impersonationConfig A ctx cluster w = (Inr cfg, w1)" "as_identity address u cfg"
    "kw_tunnel w1 = kw_tunnel w" "sent w1 = sent w"
proof -
  obtain rt w1 where rt: "roundTripper A cluster address w = (Inr rt, w1)" "kw_tunnel w1 = kw_tunnel w" "sent w1 = sent w"
  proof -
    show thesis
    proof (cases "gget (transports w) cluster")
      case None
      obtain rt0 x0 where "transport_for A address (kw_ext w) = (Inr rt0, x0)" using assms(3) by blast
      then show thesis using that None by (simp add: roundTripper_def ext_call_def)
    next
      case (Some old)
      obtain rt1 x1 where "transport_for A address (close_idle A (ct_rt old) (kw_ext w)) = (Inr rt1, x1)" using assms(3) by blast
      then show thesis
        using that Some by (cases "ct_address old = address") (simp_all add: roundTripper_def ext_call_def closeTransport_def Let_def)
    qed
  qed
  show thesis
    by (rule that [of "\<lparr>rc_Host = address, rc_UserName = ui_Subject u, rc_Groups = ui_Groups u, rc_Transport = Some rt, rc_Timeout = clientTimeout\<rparr>" w1])
      (simp_all add: impersonationConfig_def UserInfoFromContext_def assms(1,2) rt as_identity_def)
qed

text \<open>The use case asks the cluster for its resources and then for the list, both in the name of the user.\<close>

lemma ListResources_answered:
  assumes "ctx_user ctx = Some u" "resolve_address A (kw_tunnel w) (id_Cluster i) = Inr address" "answers_list A address u i opts items"
  shows "\<exists>cfg1 cfg2 w'. ListResources (k8s_use_case A minv) ctx i opts w = (Inr items, w') \<and> as_identity address u cfg1 \<and>
      as_identity address u cfg2 \<and> kw_tunnel w' = kw_tunnel w \<and>
      sent w' = sent w @ [(cfg1, ReqServerResourcesForGroupVersion (gv_string (id_Group i) (id_Version i))),
        (cfg2, ReqList \<lparr>gvr_Group = id_Group i, gvr_Version = id_Version i, gvr_Resource = id_Resource i\<rparr> (id_Namespace i) (meta_list opts))]"
proof -
  let ?gvr = "\<lparr>gvr_Group = id_Group i, gvr_Version = id_Version i, gvr_Resource = id_Resource i\<rparr>"
  note tr = assms(3) [unfolded answers_list_def, THEN conjunct1]
  note ans = assms(3) [unfolded answers_list_def, THEN conjunct2, rule_format]
  obtain c1 w1 where c1: "impersonationConfig A ctx (id_Cluster i) w = (Inr c1, w1)" "as_identity address u c1" "kw_tunnel w1 = kw_tunnel w"
      "sent w1 = sent w"
    by (rule impersonationConfig_succeeds [OF assms(1,2) tr])
  obtain rs x1 where rs: "server_resources_gv A c1 (gv_string (id_Group i) (id_Version i)) (kw_ext w1) = (Inr rs, x1)"
      "\<exists>r \<in> set rs. ar_Name r = id_Resource i"
    using ans [OF c1(2)] by blast
  define w2 where "w2 = w1\<lparr>kw_ext := x1, sent := sent w1 @ [(c1, ReqServerResourcesForGroupVersion (gv_string (id_Group i) (id_Version i)))]\<rparr>"
  have "LookupResource A ctx (id_Cluster i) (id_Group i) (id_Version i) (id_Resource i) w = (Inr ?gvr, w2)"
    using ans [OF c1(2)] rs by (simp add: LookupResource_def discovery_client_def bindE_def mapErrE_def liftE_def retE_def c1(1) api_call_def w2_def Let_def)
  moreover have "kw_tunnel w2 = kw_tunnel w" by (simp add: w2_def c1(3))
  then obtain c2 w3 where c2: "impersonationConfig A ctx (id_Cluster i) w2 = (Inr c2, w3)" "as_identity address u c2" "kw_tunnel w3 = kw_tunnel w"
      "sent w3 = sent w2"
    using impersonationConfig_succeeds [OF assms(1) _ tr, of w2 "id_Cluster i"] assms(2) by metis
  moreover obtain x2 where "dyn_list A c2 ?gvr (id_Namespace i) (meta_list opts) (kw_ext w3) = (Inr items, x2)"
    using ans [OF c2(2)] by blast
  ultimately have "ListResources (k8s_use_case A minv) ctx i opts w =
      (Inr items, w3\<lparr>kw_ext := x2, sent := sent w2 @ [(c2, ReqList ?gvr (id_Namespace i) (meta_list opts))]\<rparr>)"
    using ans [OF c2(2)]
    by (simp add: ListResources_def k8s_use_case_def NewResourceUseCase_def lookupGVR_def NewDiscoveryClient_def NewResourceRepo_def
        repo_List_def dynamicClient_def bindE_def mapErrE_def liftE_def retE_def api_call_def Let_def)
  then show ?thesis using c1(2-4) c2(2,3) by (auto simp: w2_def)
qed

lemma ListResources_on_server:
  assumes "ListResources (k8s_use_case (sd_k8s D) (sd_minVersion D)) ctx i opts (sw_k8s w) = (r, k)"
  shows "ListResources (deps_use_case D) ctx i opts w = (r, w\<lparr>sw_k8s := k\<rparr>)"
  using assms
  by (auto simp: ListResources_def deps_use_case_def server_resource_use_case_def k8s_use_case_def NewResourceUseCase_def lookupGVR_def
      server_discovery_def server_resource_repo_def Let_def bindE_def on_k8s_def split: prod.splits sum.splits)

text \<open>A user's call of \<^verbatim>\<open>List\<close> returns the list of the cluster.\<close>

lemma list_through_server:
  assumes "authn_laws A" "cors_same_origin cors" "ops_laws Ops" "server_Mount Ops H (server_handlers D env) = Inr mux"
    and "NewServer A cors listen m0 (server_options address origins (oidc_authenticate verifier) (Inr mux)) = Inr h"
    and "unary_calls (rcn_List (sd_resourceRPC D))" "origin_url url"
    and "token \<noteq> []" "verifier token = Inr idToken" "it_Groups idToken = Inr groups"
    and "resolve_address (sd_k8s D) (kw_tunnel (sw_k8s w)) (id_Cluster q) = Inr addr"
    and "answers_list (sd_k8s D) addr (token_user idToken groups) q opts items" "list_response (sd_proto D) items = Inr p"
  shows "\<exists>w' cfg1 cfg2. resourceServiceClient_List (NewResourceServiceClient (sd_resourceRPC D) (served_by h (Some token) (c, i)) url) (q, opts) w =
        ((Some p, None), w') \<and> as_identity addr (token_user idToken groups) cfg1 \<and> as_identity addr (token_user idToken groups) cfg2 \<and>
      sent (sw_k8s w') = sent (sw_k8s w) @ [(cfg1, ReqServerResourcesForGroupVersion (gv_string (id_Group q) (id_Version q))),
        (cfg2, ReqList \<lparr>gvr_Group = id_Group q, gvr_Version = id_Version q, gvr_Resource = id_Resource q\<rparr> (id_Namespace q) (meta_list opts))]"
proof -
  let ?u = "token_user idToken groups" and ?q = "q\<lparr>id_Name := []\<rparr>"
  have user: "ctx_user (WithUserInfo c ?u) = Some ?u" by (simp add: WithUserInfo_def)
  have "answers_list (sd_k8s D) addr ?u ?q opts items" "resolve_address (sd_k8s D) (kw_tunnel (sw_k8s w)) (id_Cluster ?q) = Inr addr"
    using assms(11,12) by (simp_all add: answers_list_def)
  from ListResources_answered [OF user this(2,1), of "sd_minVersion D"] obtain cfg1 cfg2 k where run:
      "ListResources (k8s_use_case (sd_k8s D) (sd_minVersion D)) (WithUserInfo c ?u) ?q opts (sw_k8s w) = (Inr items, k)"
      "as_identity addr ?u cfg1" "as_identity addr ?u cfg2"
      "sent k = sent (sw_k8s w) @ [(cfg1, ReqServerResourcesForGroupVersion (gv_string (id_Group q) (id_Version q))),
        (cfg2, ReqList \<lparr>gvr_Group = id_Group q, gvr_Version = id_Version q, gvr_Resource = id_Resource q\<rparr> (id_Namespace q) (meta_list opts))]"
    by auto
  have "rsh_List (resource_service D env) (fst (WithUserInfo c ?u, Some ?u)) (q, opts) w = (Inr p, w\<lparr>sw_k8s := k\<rparr>)"
    using ListResources_on_server [OF run(1)] assms(13)
    by (simp add: resource_service_def srv_List_def converted_def bindE_def mapErrE_def liftE_def Let_def)
  moreover have "ResourceServiceListProcedure \<noteq> FleetServiceRegisterProcedure" "ResourceServiceListProcedure \<in> set service_procedures"
    by (simp_all add: ResourceServiceListProcedure_def FleetServiceRegisterProcedure_def service_procedures_def)
  moreover note server_delivers [OF assms(1-5) procedure_of_List this(1) assms(8-10), of c i]
  ultimately have "cu_NewClient (rcn_List (sd_resourceRPC D)) (served_by h (Some token) (c, i)) (url @ ResourceServiceListProcedure) (q, opts) w =
      ((Some \<lparr>Msg = p\<rparr>, None), w\<lparr>sw_k8s := k\<rparr>)"
    using assms(6,7) unfolding unary_calls_def by blast
  then show ?thesis
    using run(2-4) by (auto simp: resourceServiceClient_List_def NewResourceServiceClient_def response_msg_def Let_def trim_origin [OF assms(7)])
qed

text \<open>A registration that succeeds was one run of \<^verbatim>\<open>RegisterCluster\<close> with a request for the key the agent generated.\<close>

lemma registration_run:
  assumes "authn_laws A" "cors_same_origin cors" "ops_laws Ops" "server_Mount Ops H (server_handlers D env) = Inr mux"
    and "NewServer A cors listen m0 (server_options address origins oidc (Inr mux)) = Inr h"
    and "unary_calls (fcn_Register (sd_fleetRPC D))" "origin_url url"
    and "register (sd_pki D) (registrar_rpc (sd_fleetRPC D) (served_by h None (c, i))) f en version url cluster (ra, w, u) = (Inr result, ra', w', u')"
  obtains key r1 csrPEM r2 s' rs' where "GenerateKey (sd_pki D) ra = (Inr (key, rr_KeyPEM result), r1)"
    "GenerateCSR (sd_pki D) key (fr_agentID f) r1 = (Inr csrPEM, r2)"
    "RegisterCluster (sd_pki D) (sd_chisel D) (ev_now env) (kw_tunnel (sw_k8s w), sw_rand w) cluster (fr_agentID f) (fr_agentVersion f) csrPEM =
       (Inr (rr_Endpoint result, rr_CertPEM result), s', rs')"
    "DeriveAuth (sd_pki D) (fr_agentID f) (rr_CertPEM result) = Inr (rr_Auth result)" "rr_CACertPEM result = CertPEM (service_ca s')"
    "w' = w\<lparr>sw_k8s := (sw_k8s w)\<lparr>kw_tunnel := s'\<rparr>, sw_rand := rs'\<rparr>"
  using assms(8)
proof (cases rule: register_Inr)
  case (1 key keyPEM r1 csrPEM r2 resp)
  obtain s' rs' where run: "srv_Register (env_fleet D env) cluster (fr_agentID f) (fr_agentVersion f) csrPEM (kw_tunnel (sw_k8s w), sw_rand w) =
      (Inr resp, s', rs')" "w' = w\<lparr>sw_k8s := (sw_k8s w)\<lparr>kw_tunnel := s'\<rparr>, sw_rand := rs'\<rparr>"
    using register_through_server [OF assms(1-7) 1(3)] by auto
  have "fu_tunnel (env_fleet D env) = chisel_provider (sd_pki D) (sd_chisel D) (ev_now env)" by (simp add: env_fleet_def)
  note reg = srv_Register_Inr [OF run(1) this]
  show ?thesis by (rule that [of key r1 csrPEM r2 s' rs']) (use 1(1,2,4-8) reg run(2) in simp_all)
qed

text \<open>No public endpoint names a cluster.\<close>

lemma public_names_no_cluster:
  assumes "isPublicPath (server_config address origins oidc mount) (rq_path rq)"
  shows "called_cluster D rq = None"
proof (rule ccontr)
  assume "called_cluster D rq \<noteq> None"
  then have "rq_path rq \<in> fst ` set (resource_clusters (sd_resourceRPC D) @ runtime_clusters (sd_runtimeRPC D))"
    unfolding called_cluster_def by (metis map_of_eq_None_iff option.case(1))
  then have "rq_path rq \<in> set service_procedures" "rq_path rq \<noteq> FleetServiceRegisterProcedure"
    by (auto simp: resource_clusters_def runtime_clusters_def procedure_defs service_procedures_def)
  from protected_procedure [OF this] assms show False by blast
qed

text \<open>Whatever request the server is sent, it sends requests only for a verified token and as its user.\<close>

lemma request_acts:
  assumes "authn_laws A" "cors_laws cors" "ops_laws Ops" "ops_quiet Ops" "flight_law (sd_flight D)"
    and "rpc_serves D" "server_Mount Ops H (server_handlers D env) = Inr mux"
    and "NewServer A cors listen m0 (server_options address origins (oidc_authenticate verifier) (Inr mux)) = Inr h"
    and "url_ok rq" "h rq (c, i) w = (resp, w')"
  shows "\<exists>l. sent (sw_k8s w') = sent (sw_k8s w) @ l \<and>
      (\<forall>(cfg, req) \<in> set l. \<exists>token idToken groups ca.
         rq_bearer rq = Some token \<and> verifier token = Inr idToken \<and> it_Groups idToken = Inr groups \<and> called_cluster D rq = Some ca \<and>
         impersonates (sd_k8s D) (kw_tunnel (sw_k8s w)) (WithUserInfo c (token_user idToken groups)) ca cfg)"
proof (rule request_cases [OF assms(1,2,8), of rq c i w])
  note act = mux_acts [OF assms(5,6,3,4,7,9), unfolded acts_for_def, rule_format]
  {
    assume pub: "isPublicPath (server_config address origins (oidc_authenticate verifier) (Inr mux)) (rq_path rq)" and run: "h rq (c, i) w = mux rq (c, i) w"
    have "called_cluster D rq = None" by (rule public_names_no_cluster [OF pub])
    with act [of "(c, i)" w] show ?thesis using assms(10) unfolding run by fastforce
  next
    fix token idToken groups u
    assume tok: "rq_bearer rq = Some token" "verifier token = Inr idToken" "it_Groups idToken = Inr groups"
      "u = \<lparr>ui_Subject = it_Subject idToken, ui_Groups = ''system:authenticated'' # map (\<lambda>g. ''oidc:'' @ g) groups\<rparr>"
      and run: "h rq (c, i) w = mux rq (WithUserInfo c u, Some u) w"
    have "u = token_user idToken groups" by (simp add: tok(4) token_user_def)
    with act [of "(WithUserInfo c u, Some u)" w] show ?thesis using assms(10) tok(1-3) unfolding run by fastforce
  }
qed (use assms(10) in auto)

end
