(* ===== verification/Server_Run.thy ===== *)
theory Server_Run
  imports End_To_End Step_Systems
begin

text \<open>
  The running server: requests of any kind, in any order and from anyone, and the background work of the health check, the
  session reaper and the cache evictor (\<^verbatim>\<open>cmd/server/background.go\<close>, \<^verbatim>\<open>chisel/health.go\<close>). The invariant joins those of the
  parts: the tunnel registry is consistent, the session store and the schema cache are within their bounds.
\<close>

section \<open>Invariant\<close>

definition schemas_bounded :: "'sc DiscoveryCache \<Rightarrow> bool" where
  "schemas_bounded c \<longleftrightarrow>
     gwf (ca_schemaCache c) \<and> glen (ca_schemaCache c) \<le> ca_maxSchemaEntries c \<and> ca_maxSchemaEntries c = defaultMaxSchemaEntries"

definition server_inv :: "(('v, 'k, 'c) Service, 't, 'x, 'sc, 'rs) server_world \<Rightarrow> bool" where
  "server_inv w \<longleftrightarrow>
     service_inv (kw_tunnel (sw_k8s w)) \<and> store_bounded (sw_sessions w) \<and> schemas_bounded (sw_cache w)"

text \<open>What an operation keeps, in the form of the contracts of the adapters: nothing is logged.\<close>

abbreviation nothing :: "'w \<Rightarrow> unit list" where
  "nothing \<equiv> (\<lambda>_. [])"

definition keeps :: "('w \<Rightarrow> bool) \<Rightarrow> ('w \<Rightarrow> 'a \<times> 'w) \<Rightarrow> bool" where
  "keeps I m \<longleftrightarrow> (\<forall>w. I w \<longrightarrow> I (snd (m w)))"

lemma keeps_iff_logs: "logs_only nothing I (\<lambda>_. True) m \<longleftrightarrow> keeps I m"
  by (auto simp: logs_only_def keeps_def)

lemma keepsD: "keeps I m \<Longrightarrow> I w \<Longrightarrow> I (snd (m w))"
  by (simp add: keeps_def)

lemma keeps_cong: "(\<And>w. snd (m w) = snd (m' w)) \<Longrightarrow> keeps I m' \<Longrightarrow> keeps I m"
  by (simp add: keeps_def)

lemma schemas_bounded_insert: "schemas_bounded c \<Longrightarrow> schemas_bounded (cache_insert t k v c)"
  using cache_insert_bound [of c t k v] by (simp add: schemas_bounded_def cache_insert_gwf)

lemma schemas_bounded_evict: "schemas_bounded c \<Longrightarrow> schemas_bounded (evictExpiredSchemas t c)"
  using evict_glen [of t c] by (auto simp: schemas_bounded_def evict_gwf)

section \<open>The adapters\<close>

lemma keeps_on_k8s:
  fixes A :: "(('v, 'k, 'c) Service, 't, 'x, 'sc, 'ver) k8s_api" and m :: "((('v, 'k, 'c) Service, 't, 'x) kworld, 'a) eff"
  assumes "\<And>tun. as_user A tun ctx cl m"
  shows "keeps (server_inv) (on_k8s m :: ((('v, 'k, 'c) Service, 't, 'x, 'sd, 'rs) server_world, 'a) eff)"
  unfolding keeps_def
proof (intro allI impI)
  fix w :: "(('v, 'k, 'c) Service, 't, 'x, 'sd, 'rs) server_world"
  assume inv: "server_inv w"
  obtain r k where run: "m (sw_k8s w) = (r, k)" by fastforce
  have "routes_via (kw_tunnel (sw_k8s w)) k"
    using assms [of "kw_tunnel (sw_k8s w)", unfolded as_user_def logs_only_def, rule_format, of "sw_k8s w"] run
    by (auto simp: routes_via_def)
  then show "server_inv (snd (on_k8s m w))"
    using inv run by (auto simp: server_inv_def routes_via_def on_k8s_def)
qed

lemma keeps_on_cache:
  fixes disc :: "((('v, 'k, 'c) Service, 't, 'x) kworld, 'sc) DiscoveryClient"
  assumes "\<And>tun. as_user A tun ctx cl (dc_ResolveSchema disc ctx cl g v k)" "flight_law flight_Do"
  shows "keeps (server_inv) (on_cache (cached_ResolveSchema clock disc flight_Do ctx cl g v k) :: ((('v, 'k, 'c) Service, 't, 'x, 'sc, 'rs) server_world, 'sc) eff)"
  unfolding keeps_def
proof (intro allI impI)
  fix w :: "(('v, 'k, 'c) Service, 't, 'x, 'sc, 'rs) server_world"
  assume inv: "server_inv w"
  let ?c = "\<lparr>cw_cache = sw_cache w, cw_ext = sw_k8s w\<rparr>"
  have ok: "routes_via (kw_tunnel (sw_k8s w)) (snd (dc_ResolveSchema disc ctx cl g v k (sw_k8s w)))"
    using assms(1) [of "kw_tunnel (sw_k8s w)", unfolded as_user_def logs_only_def, rule_format, of "sw_k8s w"]
    by (auto simp: routes_via_def)
  have fetched: "routes_via (kw_tunnel (sw_k8s w)) (cw_ext (snd (fetch_schema clock disc ctx cl g v k ?c))) \<and>
      schemas_bounded (cw_cache (snd (fetch_schema clock disc ctx cl g v k ?c)))"
    using ok inv by (auto simp: fetch_schema_def server_inv_def schemas_bounded_insert split: prod.splits sum.splits)
  consider "snd (cached_ResolveSchema clock disc flight_Do ctx cl g v k ?c) = ?c"
    | "snd (cached_ResolveSchema clock disc flight_Do ctx cl g v k ?c) = snd (fetch_schema clock disc ctx cl g v k ?c)"
    using assms(2) unfolding flight_law_def cached_ResolveSchema_def Let_def
    by (cases "cache_lookup (clock (cw_ext ?c)) (schemaCacheKey cl g v k) (cw_cache ?c)") (auto, metis snd_conv)
  then have "routes_via (kw_tunnel (sw_k8s w)) (cw_ext (snd (cached_ResolveSchema clock disc flight_Do ctx cl g v k ?c))) \<and>
      schemas_bounded (cw_cache (snd (cached_ResolveSchema clock disc flight_Do ctx cl g v k ?c)))"
    by cases (use inv fetched in \<open>auto simp: server_inv_def routes_via_def\<close>)
  then show "server_inv (snd (on_cache (cached_ResolveSchema clock disc flight_Do ctx cl g v k) w))"
    using inv by (auto simp: server_inv_def routes_via_def on_cache_def split: prod.splits)
qed

text \<open>The use case keeps what its backend keeps.\<close>

interpretation keeping: cluster_backend "server_discovery A minv" "server_resource_repo A" nothing
  server_inv "\<lambda>_ _ _. True"
  for A :: "(('v, 'k, 'c) Service, 't, 'x, 'sc, 'ver) k8s_api" and minv
proof unfold_locales
  show "dc_LookupResource (server_discovery A minv) ctx cl g v r w = (Inr x, w') \<Longrightarrow> x = \<lparr>gvr_Group = g, gvr_Version = v, gvr_Resource = r\<rparr>"
    for ctx cl g v r w w' x and A :: "(('v, 'k, 'c) Service, 't, 'x, 'sc, 'ver) k8s_api" and minv
    by (rule server.lookup_gvr)
qed (auto simp: server_discovery_def server_resource_repo_def NewDiscoveryClient_def NewResourceRepo_def Let_def keeps_iff_logs
     intro!: keeps_on_k8s as_user_discovery as_user_repo)

section \<open>The sessions\<close>

lemma tables_upd_exec [simp]: "exec_tab (upd_exec r g s) = exec_tab s" "pf_tab (upd_exec r g s) = pf_tab s"
  by (simp_all add: upd_exec_def split: option.splits)

lemma tables_upd_pf [simp]: "exec_tab (upd_pf r g s) = exec_tab s" "pf_tab (upd_pf r g s) = pf_tab s"
  by (simp_all add: upd_pf_def split: option.splits)

lemma bounded_heap [simp]: "store_bounded (s\<lparr>exec_heap := h\<rparr>) = store_bounded s" "store_bounded (s\<lparr>pf_heap := p\<rparr>) = store_bounded s"
  by (simp_all add: store_bounded_def)

lemma bounded_upd [simp]: "store_bounded (upd_exec r g s) = store_bounded s" "store_bounded (upd_pf r p s) = store_bounded s"
  by (simp_all add: store_bounded_def)

lemma bounded_close [simp]: "store_bounded (exec_cancel_close r s) = store_bounded s" "store_bounded (pf_cancel_close r s) = store_bounded s"
  by (simp_all add: exec_cancel_close_def pf_cancel_close_def split: option.splits)

lemma bounded_put: "store_bounded s \<Longrightarrow> PutExec s r = (res, s') \<Longrightarrow> store_bounded s'" "store_bounded s \<Longrightarrow> PutPortForward s r = (res', s') \<Longrightarrow> store_bounded s'"
  using store_step_bounded [of s "OpPutExec r"] store_step_bounded [of s "OpPutPortForward r"] by simp_all

lemma bounded_remove: "store_bounded s \<Longrightarrow> RemoveExec s i = (res, s') \<Longrightarrow> store_bounded s'" "store_bounded s \<Longrightarrow> RemovePortForward s i = (res', s') \<Longrightarrow> store_bounded s'"
  using store_step_bounded [of s "OpRemoveExec i"] store_step_bounded [of s "OpRemovePortForward i"] by simp_all

lemmas bounded_rules = bounded_put [rotated] bounded_remove [rotated]

lemma bounded_start:
  assumes "store_bounded s"
  shows "StartExec s r uuid params = (res, s') \<Longrightarrow> store_bounded s'" "StartPortForward s r uuid cl ns name port = (res', s') \<Longrightarrow> store_bounded s'"
  using assms by (auto simp: StartExec_def StartPortForward_def Let_def split: if_splits prod.splits sum.splits dest: bounded_rules)

lemma bounded_cleanup: "store_bounded s \<Longrightarrow> store_bounded (CleanupExec s i)" "store_bounded s \<Longrightarrow> store_bounded (CleanupPortForward s i)"
  by (auto simp: CleanupExec_def CleanupPortForward_def split: prod.splits option.splits dest: bounded_rules)

text \<open>What other requests do to the sessions while a stream is open keeps the bound too.\<close>

definition env_ok :: "'st server_env \<Rightarrow> bool" where
  "env_ok env \<longleftrightarrow> (\<forall>s. store_bounded s \<longrightarrow> store_bounded (ev_between env s))"

lemma bounded_streams:
  assumes "store_bounded s" "\<And>s. store_bounded s \<Longrightarrow> store_bounded (between s)"
  shows "store_bounded (snd (ExecuteTTY s r uuid sendf evs between req))"
    "store_bounded (snd (srv_PortForward s r uuid psend rds between firstSend cl ns name port))"
  using assms
  by (auto simp: ExecuteTTY_def srv_PortForward_def Let_def intro!: bounded_cleanup dest: bounded_start split: prod.splits sum.splits option.splits)

lemma bounded_writes:
  assumes "store_bounded s"
  shows "store_bounded (snd (WriteTTY s i b o1))" "store_bounded (snd (ResizeTTY s i rows cols))" "store_bounded (snd (srv_WritePortForward s i b o1))"
  using assms
  by (auto simp: WriteTTY_def WriteExec_def ResizeTTY_def ResizeExec_def srv_WritePortForward_def WritePortForward_def Let_def
      split: prod.splits option.splits write_outcome.splits)

section \<open>The methods\<close>

lemma keeps_sessions:
  assumes "\<And>s. store_bounded s \<Longrightarrow> store_bounded (snd (m s))"
  shows "keeps (server_inv) (on_sessions m)"
  using assms by (auto simp: keeps_def on_sessions_def server_inv_def routes_via_def split: prod.splits) (metis snd_conv)

lemma keeps_converted: "logs_only nothing I (\<lambda>_. True) m \<Longrightarrow> keeps I (converted m conv)"
  unfolding keeps_iff_logs [symmetric] by (rule logs_only_converted)

lemma fleet_service_keeps:
  "keeps (server_inv) (fsh_ListClusters (fleet_service D env) ctx q1)"
  "keeps (server_inv) (fsh_Register (fleet_service D env) ctx q2)"
  "keeps (server_inv) (fsh_GetAgentManifest (fleet_service D env) ctx q3)"
proof -
  have tun: "fu_tunnel (env_fleet D env) = chisel_provider (sd_pki D) (sd_chisel D) (ev_now env)" by (simp add: env_fleet_def)
  have reg: "service_inv (fst (snd (srv_Register (env_fleet D env) cl a v csr (s, r))))" if "service_inv s" for cl a v csr s r
    using that by (auto simp: srv_Register_def uc_RegisterCluster_def tun chisel_provider_def mapErrE_def split: sum.splits if_splits prod.splits
        dest: RegisterCluster_inv)
  show "keeps (server_inv) (fsh_Register (fleet_service D env) ctx q2)"
    using reg by (auto simp: keeps_def fleet_service_def on_tunnel_def server_inv_def routes_via_def split: prod.splits)
      (metis fst_conv snd_conv)
qed (simp_all add: keeps_def fleet_service_def)

lemma resource_service_keeps:
  assumes "flight_law (sd_flight D)"
  shows "keeps (server_inv) (rsh_Discovery (resource_service D env) ctx cl)"
    "keeps (server_inv) (rsh_Schema (resource_service D env) ctx (cl, g, v, k))"
    "keeps (server_inv) (rsh_List (resource_service D env) ctx (i, lo))"
    "keeps (server_inv) (rsh_Get (resource_service D env) ctx i)"
    "keeps (server_inv) (rsh_Describe (resource_service D env) ctx i)"
    "keeps (server_inv) (rsh_Create (resource_service D env) ctx (i, mf))"
    "keeps (server_inv) (rsh_Apply (resource_service D env) ctx (i, mf, ao))"
    "keeps (server_inv) (rsh_Delete (resource_service D env) ctx (i, gp))"
    "keeps (server_inv) (rsh_Watch (resource_service D env) ctx (i, wo))"
proof -
  note defs = resource_service_def deps_use_case_def server_resource_use_case_def Let_def srv_List_def srv_Get_def srv_Describe_def
    srv_Create_def srv_Apply_def srv_Delete_def
  show "keeps (server_inv) (rsh_Discovery (resource_service D env) ctx cl)"
    by (auto simp: defs srv_Discovery_def uc_ServerResources_def NewResourceUseCase_def server_discovery_def NewDiscoveryClient_def keeps_iff_logs
        intro!: keeps_converted keeps_on_k8s as_user_discovery assms)
  show "keeps (server_inv) (rsh_Schema (resource_service D env) ctx (cl, g, v, k))"
    by (auto simp: defs srv_Schema_def uc_ResolveSchema_def NewResourceUseCase_def NewDiscoveryClient_def keeps_iff_logs
        intro!: keeps_converted keeps_on_cache [where A = "sd_k8s D"] as_user_discovery assms)
  show "keeps (server_inv) (rsh_List (resource_service D env) ctx (i, lo))"
    "keeps (server_inv) (rsh_Get (resource_service D env) ctx i)"
    "keeps (server_inv) (rsh_Describe (resource_service D env) ctx i)"
    "keeps (server_inv) (rsh_Create (resource_service D env) ctx (i, mf))"
    "keeps (server_inv) (rsh_Apply (resource_service D env) ctx (i, mf, ao))"
    "keeps (server_inv) (rsh_Delete (resource_service D env) ctx (i, gp))"
    by (simp add: defs, rule keeps_converted keeps_iff_logs [THEN iffD1, OF logs_only_mapErrE], rule keeping.use_case_log)+
  have "keeps (server_inv) (srv_Watch (sd_proto D) (deps_use_case D) ctx (ev_watch_send env) (ev_watch_inputs env) i wo)"
    by (simp add: srv_Watch_def defs keeps_iff_logs [symmetric]) (auto intro!: logs_only_bindE keeping.use_case_log)
  then show "keeps (server_inv) (rsh_Watch (resource_service D env) ctx (i, wo))"
    by (rule keeps_cong [rotated]) (auto simp: defs resource_Watch_def split: prod.splits sum.splits)
qed

lemma keeps_on_runtime:
  shows "keeps (server_inv) (rt_PodLogs (server_runtime_repo A stamp) ctx c ns name po)"
    "keeps (server_inv) (rt_UpdateScale (server_runtime_repo A stamp) ctx c gvr ns name n)"
    "keeps (server_inv) (rt_Restart (server_runtime_repo A stamp) ctx c gvr ns name)"
  unfolding server_runtime_repo_def NewRuntimeRepo_def Let_def RuntimeRepo.simps by (rule keeps_on_k8s, rule as_user_runtime)+

lemma keeps_run:
  assumes "server_inv w"
  shows "server_inv (run_exec A ctx started w)" "server_inv (run_port_forward A S evs ctx pf w)"
  using assms
  by (auto simp: run_exec_def run_port_forward_def split: sum.splits prod.splits
      intro!: keepsD [OF keeps_on_k8s [OF as_user_runtime(2)]] keepsD [OF keeps_on_k8s [OF as_user_runtime(6)]])

lemma server_inv_sessions:
  "server_inv (w\<lparr>sw_sessions := s\<rparr>) \<longleftrightarrow>
     service_inv (kw_tunnel (sw_k8s w)) \<and> store_bounded s \<and> schemas_bounded (sw_cache w)"
  by (simp add: server_inv_def)

lemma runtime_service_keeps:
  fixes D :: "('v, 'k, 'c, 'p, 'q, 't, 'x, 'sc, 'ver, 'rs, 'st, 'r) server_deps"
  assumes "env_ok env"
  shows "keeps (server_inv) (tsh_PodLog (runtime_service D env) ctx lr)"
    "keeps (server_inv) (tsh_ExecuteTTY (runtime_service D env) ctx et)"
    "keeps (server_inv) (tsh_WriteTTY (runtime_service D env) ctx (i, b))"
    "keeps (server_inv) (tsh_ResizeTTY (runtime_service D env) ctx (i, rows, cols))"
    "keeps (server_inv) (tsh_PortForward (runtime_service D env) ctx (cl, ns, name, port))"
    "keeps (server_inv) (tsh_WritePortForward (runtime_service D env) ctx (i, b))"
    "keeps (server_inv) (tsh_Scale (runtime_service D env) ctx (ri, n))"
    "keeps (server_inv) (tsh_Restart (runtime_service D env) ctx ri)"
proof -
  note logs = keeps_on_runtime [folded keeps_iff_logs] keeping.lookupGVR_log
  have "keeps (server_inv) (PodLog (server_runtime_repo (sd_k8s D) (ev_stamp env)) ctx (ev_log_reads env) (ev_log_send env) lr)"
    by (simp add: PodLog_def StartPodLogs_def keeps_iff_logs [symmetric]) (auto intro!: logs_only_bindE logs)
  then show "keeps (server_inv) (tsh_PodLog (runtime_service D env) ctx lr)"
    by (rule keeps_cong [rotated]) (auto simp: runtime_service_def runtime_PodLog_def Let_def split: prod.splits sum.splits)
  show "keeps (server_inv) (tsh_Scale (runtime_service D env) ctx (ri, n))"
    "keeps (server_inv) (tsh_Restart (runtime_service D env) ctx ri)"
    by (simp add: runtime_service_def Let_def srv_Scale_def uc_Scale_def srv_Restart_def uc_Restart_def keeps_iff_logs [symmetric],
        auto intro!: logs_only_bindE logs)+
  show "keeps (server_inv) (tsh_WriteTTY (runtime_service D env) ctx (i, b))"
    "keeps (server_inv) (tsh_ResizeTTY (runtime_service D env) ctx (i, rows, cols))"
    "keeps (server_inv) (tsh_WritePortForward (runtime_service D env) ctx (i, b))"
    by (simp_all add: runtime_service_def Let_def keeps_sessions bounded_writes)
  have between: "\<And>s. store_bounded s \<Longrightarrow> store_bounded (ev_between env s)" using assms by (simp add: env_ok_def)
  show "keeps (server_inv) (tsh_ExecuteTTY (runtime_service D env) ctx et)"
    unfolding keeps_def
  proof (intro allI impI)
    fix w :: "(('v, 'k, 'c) Service, 't, 'x, 'sc, 'rs) server_world"
    assume "server_inv w"
    then have "server_inv (w\<lparr>sw_sessions := snd (ExecuteTTY (sw_sessions w) (ev_ref env) (ev_uuid env) (ev_exec_send env) (ev_exec_events env)
        (ev_between env) et)\<rparr>)"
      unfolding server_inv_sessions using bounded_streams(1) [where between = "ev_between env", OF _ between] by (simp add: server_inv_def)
    then show "server_inv (snd (tsh_ExecuteTTY (runtime_service D env) ctx et w))"
      by (auto simp: runtime_service_def runtime_ExecuteTTY_def Let_def split: prod.splits intro!: keeps_run(1))
  qed
  show "keeps (server_inv) (tsh_PortForward (runtime_service D env) ctx (cl, ns, name, port))"
    unfolding keeps_def
  proof (intro allI impI)
    fix w :: "(('v, 'k, 'c) Service, 't, 'x, 'sc, 'rs) server_world"
    assume "server_inv w"
    then have "server_inv (w\<lparr>sw_sessions := snd (srv_PortForward (sw_sessions w) (ev_ref env) (ev_uuid env) (ev_pf_send env) (ev_pf_reads env)
        (ev_between env) (ev_pf_first env) cl ns name port)\<rparr>)"
      unfolding server_inv_sessions using bounded_streams(2) [where between = "ev_between env", OF _ between] by (simp add: server_inv_def)
    then show "server_inv (snd (tsh_PortForward (runtime_service D env) ctx (cl, ns, name, port) w))"
      by (auto simp: runtime_service_def runtime_PortForward_def Let_def split: prod.splits intro!: keeps_run(2))
  qed
qed

section \<open>Requests\<close>

interpretation invariant: server_property "\<lambda>f. keeps I (\<lambda>w. ((), f w))" for I
proof unfold_locales
  fix I :: "(('v, 'k, 'c) Service, 't, 'x, 'sc, 'rs) server_world \<Rightarrow> bool" and f
  assume "\<And>w. \<exists>g. keeps I (\<lambda>w. ((), g w)) \<and> f w = g w"
  then show "keeps I (\<lambda>w. ((), f w))" unfolding keeps_def by (metis snd_conv)
qed (simp add: keeps_def)

lemma keeps_snd: "keeps I (\<lambda>w. ((), snd (m w))) \<longleftrightarrow> keeps I m"
  by (simp add: keeps_def)

lemma mux_keeps:
  assumes "flight_law (sd_flight D)" "rpc_serves D" "ops_laws Ops" "ops_quiet Ops" "env_ok env"
    and "server_Mount Ops H (server_handlers D env) = Inr mux" "url_ok rq"
  shows "keeps (server_inv) (mux rq rc)"
proof -
  let ?P = "\<lambda>f. keeps (server_inv) (\<lambda>w. ((), f w))"
  have "fleet_methods D env (fst rc) rq ?P" by (simp add: fleet_methods_def Let_def keeps_snd fleet_service_keeps)
  moreover have "resource_methods D env (fst rc) rq ?P"
    using resource_service_keeps [OF assms(1)] by (auto simp: resource_methods_def Let_def keeps_snd)
  moreover have "runtime_methods D env (fst rc) rq ?P"
    using runtime_service_keeps [OF assms(5)] by (auto simp: runtime_methods_def Let_def keeps_snd)
  ultimately have "?P (\<lambda>w. snd (mux rq rc w))" by (rule invariant.mux_property [OF assms(2-4,6,7)])
  then show ?thesis by (simp add: keeps_snd)
qed

section \<open>Runs\<close>

text \<open>The libraries and options of the HTTP side.\<close>

record ('w, 'r) http_stack =
  st_ops :: "('w, 'r) ops_lib"
  st_http :: "'r http_lib"
  st_authn :: "('w, 'r) authn_lib"
  st_cors :: "gostring list option \<Rightarrow> ('w, 'r) handler \<Rightarrow> ('w, 'r) handler"
  st_listen :: "gostring \<Rightarrow> go_error option"
  st_address :: gostring
  st_origins :: "gostring list"
  st_verifier :: "gostring \<Rightarrow> id_token res"

text \<open>The handler of the server for the environment of a request.\<close>

definition server_http ::
  "('v, 'k, 'c, 'p, 'q, 't, 'x, 'sc, 'ver, 'rs, 'st, 'r) server_deps \<Rightarrow>
     ((('v, 'k, 'c) Service, 't, 'x, 'sc, 'rs) server_world, 'r) http_stack \<Rightarrow> 'st server_env \<Rightarrow>
     ((('v, 'k, 'c) Service, 't, 'x, 'sc, 'rs) server_world, 'r) handler res" where
  "server_http D X env =
     (case server_Mount (st_ops X) (st_http X) (server_handlers D env) of
        Inl e \<Rightarrow> Inl e
      | Inr mux \<Rightarrow>
          NewServer (st_authn X) (st_cors X) (st_listen X) mux
            (server_options (st_address X) (st_origins X) (oidc_authenticate (st_verifier X)) (Inr mux)))"

text \<open>What happens in the server: a request is served, one of the threads of the tunnel service does a step (a
  registration, the restart of the chisel server, a step of the health check), the goroutine of a session reports its
  result, the reaper or the evictor runs.\<close>

datatype server_event = Request http_request | TunnelStep | SessionEnds | Reap | Evict

type_synonym ('v, 'k, 'c, 't, 'x, 'sc, 'rs) server_state =
  "(('v, 'k, 'c) Service, 't, 'x, 'sc, 'rs) server_world \<times> (gostring, nat) gomap \<times> health_pc"

inductive server_step ::
  "('v, 'k, 'c, 'p, 'q, 't, 'x, 'sc, 'ver, 'rs, 'st, 'r) server_deps \<Rightarrow>
     ((('v, 'k, 'c) Service, 't, 'x, 'sc, 'rs) server_world, 'r) http_stack \<Rightarrow> server_event \<Rightarrow>
     ('v, 'k, 'c, 't, 'x, 'sc, 'rs) server_state \<Rightarrow> ('v, 'k, 'c, 't, 'x, 'sc, 'rs) server_state \<Rightarrow> bool"
  for D X where
  request: "env_ok env \<Longrightarrow> url_ok rq \<Longrightarrow> server_http D X env = Inr h \<Longrightarrow> h rq (c, i) w = (resp, w') \<Longrightarrow>
    server_step D X (Request rq) (w, fc, pc) (w', fc, pc)"
| tunnel: "tunnel_step (sd_pki D) (sd_chisel D) (kw_tunnel (sw_k8s w), fc, pc) (s', fc', pc') \<Longrightarrow>
    server_step D X TunnelStep (w, fc, pc) (w\<lparr>sw_k8s := (sw_k8s w)\<lparr>kw_tunnel := s'\<rparr>\<rparr>, fc', pc')"
| exec_ends: "server_step D X SessionEnds (w, fc, pc) (w\<lparr>sw_sessions := exec_finish (sw_sessions w) r res\<rparr>, fc, pc)"
| forward_ends: "server_step D X SessionEnds (w, fc, pc) (w\<lparr>sw_sessions := pf_finish (sw_sessions w) r res\<rparr>, fc, pc)"
| reap: "server_step D X Reap (w, fc, pc) (w\<lparr>sw_sessions := snd (ReapStaleSessions (sw_sessions w))\<rparr>, fc, pc)"
| evict: "server_step D X Evict (w, fc, pc) (w\<lparr>sw_cache := evictExpiredSchemas now (sw_cache w)\<rparr>, fc, pc)"

inductive_cases server_requestE: "server_step D X (Request rq) (w, fc, pc) st"

text \<open>The state \<^verbatim>\<open>wireServer\<close> builds.\<close>

definition server_init :: "('k, 'c) CA \<Rightarrow> 'x \<Rightarrow> 'rs \<Rightarrow> ('v, 'k, 'c, 't, 'x, 'sc, 'rs) server_state" where
  "server_init ca x rs =
     (\<lparr>sw_k8s = \<lparr>kw_tunnel = NewService ca, transports = [], kw_ext = x, sent = []\<rparr>, sw_cache = NewDiscoveryCache DefaultTTL [],
       sw_rand = rs, sw_sessions = new_world\<rparr>, [], Idle)"

text \<open>What the code relies on of the libraries.\<close>

definition stack_laws ::
  "('v, 'k, 'c, 'p, 'q, 't, 'x, 'sc, 'ver, 'rs, 'st, 'r) server_deps \<Rightarrow>
     ((('v, 'k, 'c) Service, 't, 'x, 'sc, 'rs) server_world, 'r) http_stack \<Rightarrow> bool" where
  "stack_laws D X \<longleftrightarrow>
     authn_laws (st_authn X) \<and> cors_laws (st_cors X) \<and> ops_laws (st_ops X) \<and> ops_quiet (st_ops X) \<and>
     flight_law (sd_flight D) \<and> rpc_serves D"

lemma server_http_Inr:
  assumes "server_http D X env = Inr h"
  obtains mux where "server_Mount (st_ops X) (st_http X) (server_handlers D env) = Inr mux"
    "NewServer (st_authn X) (st_cors X) (st_listen X) mux
       (server_options (st_address X) (st_origins X) (oidc_authenticate (st_verifier X)) (Inr mux)) = Inr h"
  using assms by (auto simp: server_http_def split: sum.splits)

lemma request_keeps:
  assumes "stack_laws D X" "env_ok env" "url_ok rq" "server_http D X env = Inr h" "h rq (c, i) w = (resp, w')" "server_inv w"
  shows "server_inv w'"
proof -
  note L = assms(1) [unfolded stack_laws_def]
  obtain mux where mux: "server_Mount (st_ops X) (st_http X) (server_handlers D env) = Inr mux"
      "NewServer (st_authn X) (st_cors X) (st_listen X) mux
         (server_options (st_address X) (st_origins X) (oidc_authenticate (st_verifier X)) (Inr mux)) = Inr h"
    by (rule server_http_Inr [OF assms(4)])
  have "keeps (server_inv) (mux rq rc)" for rc
    using L by (intro mux_keeps [OF _ _ _ _ assms(2) mux(1) assms(3)]) blast+
  note kept = keepsD [OF this assms(6)]
  have "authn_laws (st_authn X)" "cors_laws (st_cors X)" using L by blast+
  from request_cases [OF this mux(2), of rq c i w] consider "snd (h rq (c, i) w) = w" | rc where "h rq (c, i) w = mux rq rc w"
    by (metis snd_conv)
  then show ?thesis by cases (use kept assms(5,6) in \<open>metis snd_conv\<close>)+
qed

lemma server_step_keeps:
  assumes "stack_laws D X" "server_step D X ev (w, fc, pc) (w', fc', pc')" "server_inv w"
  shows "server_inv w'"
  using assms(2)
proof cases
  case (request env rq h c i resp)
  then show ?thesis using request_keeps [OF assms(1)] assms(3) by blast
next
  case (tunnel s')
  then show ?thesis using tunnel_step_inv assms(3) by (fastforce simp: server_inv_def routes_via_def)
next
  case (exec_ends r res)
  then show ?thesis using assms(3) by (simp add: server_inv_sessions exec_finish_def) (simp add: server_inv_def)
next
  case (forward_ends r res)
  then show ?thesis using assms(3) by (simp add: server_inv_sessions pf_finish_def) (simp add: server_inv_def)
next
  case reap
  then show ?thesis using assms(3) reap_bounded by (simp add: server_inv_sessions) (simp add: server_inv_def)
next
  case (evict now)
  then show ?thesis using assms(3) by (simp add: server_inv_def schemas_bounded_evict)
qed

interpretation running: closed_set "server_step D X" "\<lambda>_. True" "\<lambda>(w, _). stack_laws D X \<and> server_inv w" for D X
  by unfold_locales (auto dest: server_step_keeps)

lemma server_inv_init: "server_inv (fst (server_init ca x rs))"
  by (simp add: server_init_def server_inv_def service_inv_new routes_via_def store_bounded_def new_world_def NewSessionStore_def
      schemas_bounded_def NewDiscoveryCache_def glen_def)

lemma server_reached_inv:
  assumes "stack_laws D X" "run (server_step D X) (server_init ca x rs) ls (w, fc, pc)"
  shows "server_inv w"
  using running.run_stays [OF assms(2)] assms(1) server_inv_init [of ca x rs]
  by (auto simp: list_all_iff case_prod_unfold)

text \<open>Every request sent to a cluster goes back to a request to the server with a verified token.\<close>

definition caused_by ::
  "('v, 'k, 'c, 'p, 'q, 't, 'x, 'sc, 'ver, 'rs, 'st, 'r) server_deps \<Rightarrow> (gostring \<Rightarrow> id_token res) \<Rightarrow> http_request \<Rightarrow> 't rest_config \<Rightarrow> bool" where
  "caused_by D verifier rq cfg \<longleftrightarrow>
     (\<exists>token idToken groups. rq_bearer rq = Some token \<and> verifier token = Inr idToken \<and> it_Groups idToken = Inr groups \<and>
        called_cluster D rq \<noteq> None \<and> rc_UserName cfg = it_Subject idToken \<and>
        rc_Groups cfg = ''system:authenticated'' # map (\<lambda>g. ''oidc:'' @ g) groups)"

lemma server_step_sent:
  assumes "stack_laws D X" "server_step D X ev (w, fc, pc) (w', fc', pc')"
  shows "\<exists>l. sent (sw_k8s w') = sent (sw_k8s w) @ l \<and> (\<forall>(cfg, req) \<in> set l. \<exists>rq. ev = Request rq \<and> caused_by D (st_verifier X) rq cfg)"
  using assms(2)
proof cases
  case (request env rq h c i resp)
  note L = assms(1) [unfolded stack_laws_def]
  obtain mux where mux: "server_Mount (st_ops X) (st_http X) (server_handlers D env) = Inr mux"
      "NewServer (st_authn X) (st_cors X) (st_listen X) mux
         (server_options (st_address X) (st_origins X) (oidc_authenticate (st_verifier X)) (Inr mux)) = Inr h"
    by (rule server_http_Inr [OF request(6)])
  have "\<exists>l. sent (sw_k8s w') = sent (sw_k8s w) @ l \<and>
      (\<forall>(cfg, req) \<in> set l. \<exists>token idToken groups ca.
         rq_bearer rq = Some token \<and> st_verifier X token = Inr idToken \<and> it_Groups idToken = Inr groups \<and> called_cluster D rq = Some ca \<and>
         impersonates (sd_k8s D) (kw_tunnel (sw_k8s w)) (WithUserInfo c (token_user idToken groups)) ca cfg)"
    using request_acts [OF _ _ _ _ _ _ mux request(5,7)] L by blast
  then show ?thesis
    using request(1) by (fastforce simp: caused_by_def impersonates_def WithUserInfo_def token_user_def)
qed auto

lemma server_run_sent:
  assumes "run (server_step D X) st ls st'" "stack_laws D X" "server_inv (fst st)"
  shows "\<exists>l. sent (sw_k8s (fst st')) = sent (sw_k8s (fst st)) @ l \<and>
      (\<forall>(cfg, req) \<in> set l. \<exists>rq. Request rq \<in> set ls \<and> caused_by D (st_verifier X) rq cfg)"
  using assms
proof (induction rule: run.induct)
  case (cons l s s1 ls s2)
  obtain w fc pc w1 fc1 pc1 where st: "s = (w, fc, pc)" "s1 = (w1, fc1, pc1)" by (metis prod_cases3)
  from cons(1) cons.prems obtain l1 where "sent (sw_k8s w1) = sent (sw_k8s w) @ l1"
      "\<forall>(cfg, req) \<in> set l1. \<exists>rq. l = Request rq \<and> caused_by D (st_verifier X) rq cfg"
    using server_step_sent by (fastforce simp: st server_inv_def)
  moreover from cons(1) cons.prems have "server_inv w1" using server_step_keeps by (fastforce simp: st)
  with cons.IH cons.prems obtain l2 where "sent (sw_k8s (fst s2)) = sent (sw_k8s w1) @ l2"
      "\<forall>(cfg, req) \<in> set l2. \<exists>rq. Request rq \<in> set ls \<and> caused_by D (st_verifier X) rq cfg"
    by (auto simp: st)
  ultimately show ?case by (intro exI [of _ "l1 @ l2"]) (fastforce simp: st)
qed simp

end
