(* ===== verification/Demo_Server.thy ===== *)
theory Demo_Server
  imports Server_Run
begin

text \<open>
  A concrete server for examples: an RPC library that sends messages as length-prefixed texts, an
  API server behind every endpoint, an OIDC verifier that knows one token, and operational
  endpoints that do nothing. All laws the theorems assume of the libraries hold for it.
\<close>

section \<open>Coding of messages\<close>

primrec enc_strings :: "gostring list \<Rightarrow> bytes" where
  "enc_strings [] = []"
| "enc_strings (s # ss) = replicate (length s) CHR ''1'' @ CHR ''0'' # s @ enc_strings ss"

fun dec_strings :: "nat \<Rightarrow> bytes \<Rightarrow> gostring list" where
  "dec_strings 0 b = []"
| "dec_strings (Suc n) b =
     (let k = length (takeWhile (\<lambda>c. c = CHR ''1'') b); r = drop (Suc k) b in take k r # dec_strings n (drop k r))"

lemma dec_enc_strings: "length ss = n \<Longrightarrow> dec_strings n (enc_strings ss) = ss"
  by (induction ss arbitrary: n) (auto simp: Let_def takeWhile_append)

definition int_text :: "int \<Rightarrow> gostring" where
  "int_text n = (if n < 0 then CHR ''-'' else CHR ''+'') # replicate (nat \<bar>n\<bar>) CHR ''1''"

definition text_int :: "gostring \<Rightarrow> int" where
  "text_int s = (if hd s = CHR ''-'' then - int (length (tl s)) else int (length (tl s)))"

lemma text_int_text: "text_int (int_text n) = n"
  by (simp add: text_int_def int_text_def)

definition enc_register :: "RegisterRequest \<Rightarrow> bytes" where
  "enc_register q = enc_strings [rrq_cluster q, rrq_agentID q, rrq_csr q, rrq_agentVersion q]"

definition dec_register :: "bytes \<Rightarrow> RegisterRequest option" where
  "dec_register b =
     (let f = dec_strings 4 b in Some \<lparr>rrq_cluster = f ! 0, rrq_agentID = f ! 1, rrq_csr = f ! 2, rrq_agentVersion = f ! 3\<rparr>)"

lemma dec_enc_register: "dec_register (enc_register q) = Some q"
  using dec_enc_strings [of "[rrq_cluster q, rrq_agentID q, rrq_csr q, rrq_agentVersion q]" 4]
  by (simp add: dec_register_def enc_register_def Let_def del: enc_strings.simps dec_strings.simps)

definition enc_list :: "ListRequest \<Rightarrow> bytes" where
  "enc_list q =
     (case q of (i, opts) \<Rightarrow>
        enc_strings [id_Cluster i, id_Group i, id_Version i, id_Resource i, id_Namespace i, id_Name i,
          lo_LabelSelector opts, lo_FieldSelector opts, int_text (lo_Limit opts), lo_Continue opts])"

definition dec_list :: "bytes \<Rightarrow> ListRequest option" where
  "dec_list b =
     (let f = dec_strings 10 b in
      Some (\<lparr>id_Cluster = f ! 0, id_Group = f ! 1, id_Version = f ! 2, id_Resource = f ! 3, id_Namespace = f ! 4, id_Name = f ! 5\<rparr>,
            \<lparr>lo_LabelSelector = f ! 6, lo_FieldSelector = f ! 7, lo_Limit = text_int (f ! 8), lo_Continue = f ! 9\<rparr>))"

lemma dec_enc_list: "dec_list (enc_list q) = Some q"
proof -
  obtain i opts where q: "q = (i, opts)" by fastforce
  show ?thesis
    using dec_enc_strings [of "[id_Cluster i, id_Group i, id_Version i, id_Resource i, id_Namespace i, id_Name i,
          lo_LabelSelector opts, lo_FieldSelector opts, int_text (lo_Limit opts), lo_Continue opts]" 10]
    by (simp add: q dec_list_def enc_list_def text_int_text Let_def del: enc_strings.simps dec_strings.simps)
qed

section \<open>The RPC library\<close>

datatype demo_answer = DaRegistration Registration | DaList "jobj pb_ListResponse" | DaError go_error | DaStatus nat

definition answer_error :: "demo_answer \<Rightarrow> go_error" where
  "answer_error r = (case r of DaError e \<Rightarrow> e | _ \<Rightarrow> Plain ''unexpected answer'')"

text \<open>The path of the URL of a procedure, its last two segments.\<close>

definition url_path :: "gostring \<Rightarrow> gostring" where
  "url_path url =
     (let r = rev url; m = takeWhile (\<lambda>c. c \<noteq> CHR ''/'') r; r' = tl (dropWhile (\<lambda>c. c \<noteq> CHR ''/'') r) in
      CHR ''/'' # rev (takeWhile (\<lambda>c. c \<noteq> CHR ''/'') r') @ CHR ''/'' # rev m)"

definition call_request :: "gostring \<Rightarrow> bytes \<Rightarrow> http_request" where
  "call_request url body =
     \<lparr>rq_method = ''POST'', rq_path = url_path url, rq_escaped = url_path url, rq_origin = [], rq_bearer = None, rq_body = body\<rparr>"

definition demo_unary ::
  "('q \<Rightarrow> bytes) \<Rightarrow> (bytes \<Rightarrow> 'q option) \<Rightarrow> ('p \<Rightarrow> demo_answer) \<Rightarrow> (demo_answer \<Rightarrow> 'p option) \<Rightarrow> ('q, 'p, 'w, demo_answer) connect_unary" where
  "demo_unary enc dec ans unans =
     \<lparr>cu_Unmarshal = (\<lambda>rq. case dec (rq_body rq) of None \<Rightarrow> Inl (Plain ''unmarshal message'') | Some q \<Rightarrow> Inr q),
      cu_NewClient = (\<lambda>httpClient url q w.
        case httpClient (call_request url (enc q)) w of
          (Inl e, w') \<Rightarrow> ((None, Some e), w')
        | (Inr r, w') \<Rightarrow>
            (case unans r of None \<Rightarrow> ((None, Some (answer_error r)), w') | Some p \<Rightarrow> ((Some \<lparr>Msg = p\<rparr>, None), w'))),
      cu_NewHandler = (\<lambda>procedure f rq rc w.
        case dec (rq_body rq) of
          None \<Rightarrow> (DaStatus 400, w)
        | Some q \<Rightarrow> (case f (fst rc) q w of (Inl e, w') \<Rightarrow> (DaError e, w') | (Inr p, w') \<Rightarrow> (ans p, w')))\<rparr>"

definition demo_stream :: "('q, 'p, 'w, demo_answer) connect_stream" where
  "demo_stream =
     \<lparr>cs_Unmarshal = (\<lambda>rq. Inl (Plain ''unmarshal message'')), cs_NewClient = (\<lambda>httpClient url q w. (Inl (Plain ''no stream''), w)),
      cs_NewHandler = (\<lambda>procedure f rq rc w. (DaStatus 415, w))\<rparr>"

text \<open>A procedure that refuses every message.\<close>

definition demo_refuses :: "('q, 'p, 'w, demo_answer) connect_unary" where
  "demo_refuses = demo_unary (\<lambda>_. []) (\<lambda>_. None) (\<lambda>_. DaStatus 500) (\<lambda>_. None)"

lemma demo_unary_serves: "unary_serves (demo_unary enc dec ans unans)"
  by (auto simp: unary_serves_def demo_unary_def split: option.splits prod.splits sum.splits)

lemma demo_refuses_serves: "unary_serves demo_refuses"
  unfolding demo_refuses_def by (rule demo_unary_serves)

lemma demo_stream_serves: "stream_serves demo_stream"
  by (simp add: stream_serves_def demo_stream_def)

lemma url_path_split:
  assumes "CHR ''/'' \<notin> set l" "CHR ''/'' \<notin> set m"
  shows "url_path (base @ CHR ''/'' # l @ CHR ''/'' # m) = CHR ''/'' # l @ CHR ''/'' # m"
proof -
  have seg: "takeWhile (\<lambda>c. c \<noteq> CHR ''/'') (rev y @ CHR ''/'' # z) = rev y" "dropWhile (\<lambda>c. c \<noteq> CHR ''/'') (rev y @ CHR ''/'' # z) = CHR ''/'' # z"
    if "CHR ''/'' \<notin> set y" for y z :: gostring
    by (subst takeWhile_append2 dropWhile_append2, use that in auto)+
  show ?thesis using seg [OF assms(1)] seg [OF assms(2)] by (simp add: url_path_def Let_def)
qed

lemma procedures_two_segments:
  "list_all (\<lambda>p. p = CHR ''/'' # takeWhile (\<lambda>c. c \<noteq> CHR ''/'') (tl p) @ CHR ''/'' # tl (dropWhile (\<lambda>c. c \<noteq> CHR ''/'') (tl p)) \<and>
     list_all (\<lambda>c. c \<noteq> CHR ''/'') (tl (dropWhile (\<lambda>c. c \<noteq> CHR ''/'') (tl p)))) service_procedures"
  by code_simp

lemma url_path_procedure:
  assumes "p \<in> set service_procedures"
  shows "url_path (base @ p) = p"
proof -
  let ?l = "takeWhile (\<lambda>c. c \<noteq> CHR ''/'') (tl p)" and ?m = "tl (dropWhile (\<lambda>c. c \<noteq> CHR ''/'') (tl p))"
  note p = bspec [OF procedures_two_segments [unfolded list_all_iff] assms]
  have "CHR ''/'' \<notin> set ?l" by (auto dest: set_takeWhileD)
  moreover have "CHR ''/'' \<notin> set ?m" using conjunct2 [OF p] by blast
  ultimately have "url_path (base @ CHR ''/'' # ?l @ CHR ''/'' # ?m) = CHR ''/'' # ?l @ CHR ''/'' # ?m" by (rule url_path_split)
  then show ?thesis using conjunct1 [OF p] by argo
qed

lemma demo_unary_calls:
  assumes "\<And>q. dec (enc q) = Some q" "\<And>p. unans (ans p) = Some p" "\<And>e. unans (DaError e) = None"
  shows "unary_calls (demo_unary enc dec ans unans)"
  unfolding unary_calls_def
proof (intro allI impI, elim conjE)
  fix base procedure f httpClient and rc :: rctx and q w
  assume p: "procedure \<in> set service_procedures"
    and "delivers httpClient procedure (cu_NewHandler (demo_unary enc dec ans unans) procedure f) rc"
  then obtain bearer where del: "\<And>rq w. rpc_post procedure rq \<Longrightarrow> httpClient rq w =
      (case cu_NewHandler (demo_unary enc dec ans unans) procedure f (rq\<lparr>rq_bearer := bearer\<rparr>) rc w of (r, w') \<Rightarrow> (Inr r, w'))"
    unfolding delivers_def by blast
  have "url_path (base @ procedure) = procedure" by (rule url_path_procedure [OF p])
  then have "rpc_post procedure (call_request (base @ procedure) (enc q))" by (simp add: rpc_post_def call_request_def)
  note run = del [OF this, of w]
  show "(\<forall>p w'. f (fst rc) q w = (Inr p, w') \<longrightarrow>
        cu_NewClient (demo_unary enc dec ans unans) httpClient (base @ procedure) q w = ((Some \<lparr>Msg = p\<rparr>, None), w')) \<and>
      (\<forall>e w'. f (fst rc) q w = (Inl e, w') \<longrightarrow>
        (\<exists>e'. cu_NewClient (demo_unary enc dec ans unans) httpClient (base @ procedure) q w = ((None, Some e'), w') \<and>
           (\<forall>c. connect_code_of e = Some c \<longrightarrow> connect_code_of e' = Some c)))"
    using run by (auto simp: demo_unary_def call_request_def assms answer_error_def)
qed

section \<open>The libraries of the server\<close>

type_synonym demo_tunnel = "((gostring, gostring \<times> gostring) gomap, nat, bool \<times> nat) Service"
type_synonym demo_state = "(demo_tunnel, gostring, nat, unit, nat) server_world"

text \<open>Every API server knows pods and has none.\<close>

definition demo_k8s :: "(demo_tunnel, gostring, nat, unit, nat) k8s_api" where
  "demo_k8s = \<lparr>resolve_address = ResolveAddress,
     transport_for = transport_for demo_api, close_idle = close_idle demo_api,
     new_discovery_client = new_discovery_client demo_api, new_dynamic_client = new_dynamic_client demo_api, new_clientset = new_clientset demo_api,
     server_resources_gv = server_resources_gv demo_api, server_groups_resources = server_groups_resources demo_api,
     resolve_schema_gvk = resolve_schema_gvk demo_api, server_version_info = server_version_info demo_api,
     semver_parse = semver_parse demo_api, semver_geq = semver_geq demo_api,
     dyn_list = dyn_list demo_api, dyn_get = dyn_get demo_api, dyn_create = dyn_create demo_api, dyn_patch = dyn_patch demo_api,
     dyn_delete = dyn_delete demo_api, dyn_update = dyn_update demo_api, dyn_watch = dyn_watch demo_api, pod_logs = pod_logs demo_api,
     spdy_executor = spdy_executor demo_api, spdy_stream = spdy_stream demo_api,
     yaml_decode = yaml_decode demo_api, marshal_object = marshal_object demo_api,
     nested_int64 = nested_int64 demo_api, set_nested_int64 = set_nested_int64 demo_api,
     marshal_status = marshal_status demo_api, unmarshal_map = unmarshal_map demo_api\<rparr>"

definition demo_fleetRPC :: "(demo_state, demo_answer) fleet_connect" where
  "demo_fleetRPC = \<lparr>fcn_ListClusters = demo_refuses,
     fcn_Register = demo_unary enc_register dec_register DaRegistration (\<lambda>r. case r of DaRegistration g \<Rightarrow> Some g | _ \<Rightarrow> None),
     fcn_GetAgentManifest = demo_refuses\<rparr>"

definition demo_resourceRPC :: "(jobj, demo_state, demo_answer) resource_connect" where
  "demo_resourceRPC = \<lparr>rcn_Discovery = demo_refuses, rcn_Schema = demo_refuses,
     rcn_List = demo_unary enc_list dec_list DaList (\<lambda>r. case r of DaList l \<Rightarrow> Some l | _ \<Rightarrow> None),
     rcn_Get = demo_refuses, rcn_Describe = demo_refuses, rcn_Create = demo_refuses, rcn_Apply = demo_refuses, rcn_Delete = demo_refuses,
     rcn_Watch = demo_stream\<rparr>"

definition demo_runtimeRPC :: "(demo_state, demo_answer) runtime_connect" where
  "demo_runtimeRPC = \<lparr>tcn_PodLog = demo_stream, tcn_ExecuteTTY = demo_stream, tcn_WriteTTY = demo_refuses, tcn_ResizeTTY = demo_refuses,
     tcn_PortForward = demo_stream, tcn_WritePortForward = demo_refuses, tcn_Scale = demo_refuses, tcn_Restart = demo_refuses\<rparr>"

definition demo_deps ::
  "((gostring, gostring \<times> gostring) gomap, nat, bool \<times> nat, nat, nat, gostring, nat, unit, nat, nat, jobj, demo_answer) server_deps" where
  "demo_deps = \<lparr>sd_pki = demo_lib, sd_chisel = demo_chisel, sd_k8s = demo_k8s,
     sd_spdy = \<lparr>spdy_round_tripper = (\<lambda>_. Inr ()), spdy_dial = (\<lambda>_ _ _ x. (Inr (), x)), create_stream = (\<lambda>_ x. (Inr (), x))\<rparr>,
     sd_minVersion = 0,
     sd_proto = \<lparr>new_struct = Inr, parse_group_version = (\<lambda>s. Inr ([], s)),
       marshal_schema = (\<lambda>_. Inr []), unmarshal_struct = (\<lambda>_. Inr [])\<rparr>,
     sd_clock = (\<lambda>_. 0), sd_flight = (\<lambda>_ m. m), sd_fleet = demo_api_fleet,
     sd_fleetRPC = demo_fleetRPC, sd_resourceRPC = demo_resourceRPC, sd_runtimeRPC = demo_runtimeRPC, sd_raw = (\<lambda>r. DaStatus (resp_status r))\<rparr>"

definition demo_env :: "jobj server_env" where
  "demo_env = \<lparr>ev_now = 0, ev_unix = 0, ev_stamp = ''now'', ev_ref = 0, ev_uuid = ''u'', ev_between = id, ev_write = WriteReturned (Inr ()),
     ev_watch_send = (\<lambda>_. None), ev_watch_inputs = (\<lambda>_. []), ev_log_reads = (\<lambda>_. []), ev_log_send = (\<lambda>_. None),
     ev_exec_send = (\<lambda>_. None), ev_exec_events = [], ev_pf_first = None, ev_pf_send = (\<lambda>_. None), ev_pf_reads = [], ev_pf_events = []\<rparr>"

definition demo_ops :: "(demo_state, demo_answer) ops_lib" where
  "demo_ops =
     (let ok = (\<lambda>rq rc w. (DaStatus 200, w)) in
      \<lparr>ol_interceptor = None, ol_exporter = None,
       ol_reflectV1 = (\<lambda>_. (''/grpc.reflection.v1.ServerReflection/'', ok)),
       ol_reflectV1Alpha = (\<lambda>_. (''/grpc.reflection.v1alpha.ServerReflection/'', ok)),
       ol_health = (\<lambda>_. (''/grpc.health.v1.Health/'', ok)), ol_metrics = ok\<rparr>)"

definition demo_http_lib :: "demo_answer http_lib" where
  "demo_http_lib = \<lparr>hl_bad_request = (\<lambda>_. DaStatus 400), hl_redirect = (\<lambda>_ _. DaStatus 307), hl_not_allowed = (\<lambda>_. DaStatus 405),
     hl_not_found = (\<lambda>_. DaStatus 404)\<rparr>"

definition demo_server_mux :: "(demo_state, demo_answer) handler" where
  "demo_server_mux =
     (case server_Mount demo_ops demo_http_lib (server_handlers demo_deps demo_env) of
        Inr mux \<Rightarrow> mux
      | Inl _ \<Rightarrow> (\<lambda>_ _ w. (DaStatus 500, w)))"

definition demo_server_authn :: "(demo_state, demo_answer) authn_lib" where
  "demo_server_authn = \<lparr>authn_Wrap = (\<lambda>auth next rq rc w. case auth rq of Inl e \<Rightarrow> (DaError e, w) | Inr u \<Rightarrow> next rq (fst rc, Some u) w),
     authn_reject = DaError\<rparr>"

definition demo_cors :: "gostring list option \<Rightarrow> (demo_state, demo_answer) handler \<Rightarrow> (demo_state, demo_answer) handler" where
  "demo_cors origins next = next"

definition demo_server :: "(demo_state, demo_answer) handler" where
  "demo_server = wrapAuth demo_server_authn (server_config '':1'' [''https://ui''] (oidc_authenticate demo_verifier) (Inr demo_server_mux))
     (oidc_authenticate demo_verifier) demo_server_mux"

section \<open>The laws hold\<close>

lemma demo_csr_law: "csr_law demo_lib"
  by (simp add: csr_law_def demo_lib_def)

lemma demo_server_authn_laws: "authn_laws demo_server_authn"
  by (auto simp: authn_laws_def demo_server_authn_def split: sum.split)

lemma demo_cors_laws: "cors_laws demo_cors" "cors_same_origin demo_cors"
  by (simp_all add: cors_laws_def cors_same_origin_def demo_cors_def)

lemma demo_ops_laws: "ops_laws demo_ops" "ops_quiet demo_ops"
  by (simp_all add: ops_laws_def ops_quiet_def demo_ops_def Let_def)

lemma demo_deps_simps [simp]: "sd_pki demo_deps = demo_lib" "sd_chisel demo_deps = demo_chisel" "sd_k8s demo_deps = demo_k8s"
  "sd_fleetRPC demo_deps = demo_fleetRPC" "sd_resourceRPC demo_deps = demo_resourceRPC" "sd_runtimeRPC demo_deps = demo_runtimeRPC"
  by (simp_all add: demo_deps_def)

lemma demo_env_fleet: "env_fleet demo_deps demo_env = demo_api_fleet"
  by (simp add: env_fleet_def demo_deps_def demo_env_def demo_api_fleet_def)

lemma demo_rpc_serves: "rpc_serves demo_deps"
  by (simp add: rpc_serves_def Let_def demo_fleetRPC_def demo_resourceRPC_def demo_runtimeRPC_def demo_unary_serves demo_refuses_serves demo_stream_serves)

lemma demo_calls: "unary_calls (fcn_Register demo_fleetRPC)" "unary_calls (rcn_List demo_resourceRPC)"
  by (simp_all add: demo_fleetRPC_def demo_resourceRPC_def demo_unary_calls dec_enc_register dec_enc_list)

lemma demo_k8s_laws: "resolve_address demo_k8s = ResolveAddress"
  by (simp add: demo_k8s_def demo_api_def)

lemma demo_flight_law: "flight_law (sd_flight demo_deps)"
  by (simp add: flight_law_def demo_deps_def)

lemma demo_mount: "server_Mount demo_ops demo_http_lib (server_handlers demo_deps demo_env) = Inr demo_server_mux"
  by (simp add: demo_server_mux_def server_Mount_def server_routes_def registerOpsHandlers_def demo_ops_def Let_def)

lemma demo_new_server: "NewServer demo_server_authn demo_cors (\<lambda>_. None) demo_server_mux
    (server_options '':1'' [''https://ui''] (oidc_authenticate demo_verifier) (Inr demo_server_mux)) = Inr demo_server"
  unfolding NewServer_def server_options_config Let_def
  by (simp add: demo_server_def buildHandler_def server_config_def wrapCORS_def demo_cors_def)

lemma demo_origin: "origin_url ''http://s''"
  unfolding origin_url_def by (rule exI [of _ "''http''"], rule exI [of _ "''s''"]) simp

section \<open>A registration and a list\<close>

definition demo_start :: demo_state where
  "demo_start = \<lparr>sw_k8s = \<lparr>kw_tunnel = demo_service, transports = [], kw_ext = 0, sent = []\<rparr>, sw_cache = NewDiscoveryCache DefaultTTL [],
     sw_rand = 0, sw_sessions = new_world\<rparr>"

abbreviation nobody :: rctx where
  "nobody \<equiv> (\<lparr>ctx_user = None\<rparr>, None)"

definition demo_registers :: "RegisterResult res \<times> nat \<times> demo_state \<times> updater" where
  "demo_registers = register demo_lib (registrar_rpc demo_fleetRPC (served_by demo_server None nobody)) \<lparr>fr_agentID = ''agent'', fr_agentVersion = ''v1''\<rparr>
     demo_update ''v1'' ''http://s'' ''prod'' (9, demo_start, \<lparr>up_client = False, up_requests = []\<rparr>)"

lemma demo_enrolment: "\<exists>result ra' w' u'. demo_registers = (Inr result, ra', w', u')"
proof -
  have key: "GenerateKey demo_lib 9 = (Inr (9, pem_encode demo_lib ''EC PRIVATE KEY'' (itoa 9)), 10)"
    by (simp add: GenerateKey_def demo_lib_def)
  have nine: "itoa 9 = ''9''" by code_simp
  have csr: "GenerateCSR demo_lib 9 n 10 = (Inr demo_csr, 11)" for n
    by (simp add: GenerateCSR_def demo_lib_def demo_csr_def nine)
  obtain ep cert s1 r1 where reg:
      "RegisterCluster demo_lib demo_chisel 0 (demo_service, 0) ''prod'' ''agent'' ''v1'' demo_csr = (Inr (ep, cert), s1, r1)"
    by (rule demo_register_first)
  have "dns_label ''prod''" by code_simp
  then have "ValidateClusterName ''prod'' = Inr ()" by (simp add: ValidateClusterName_ok)
  moreover have "demo_csr \<noteq> []" by (simp add: demo_csr_def demo_lib_def)
  ultimately obtain resp where resp: "srv_Register demo_api_fleet ''prod'' ''agent'' ''v1'' demo_csr (demo_service, 0) = (Inr resp, s1, r1)"
      "reg_Certificate resp = cert" "reg_ServerVersion resp = ''v1''"
    using reg by (simp add: srv_Register_def uc_RegisterCluster_def demo_api_fleet_def chisel_provider_def)
  have law: "chisel_laws demo_chisel gget" by (rule demo_chisel_laws)
  obtain auth where auth: "DeriveAuth demo_lib ''agent'' cert = Inr auth"
    using registered_agent_can_log_in [OF law _ reg] by auto
  let ?req = "\<lparr>rrq_cluster = ''prod'', rrq_agentID = ''agent'', rrq_csr = demo_csr, rrq_agentVersion = ''v1''\<rparr>"
  note del = server_delivers_register [OF demo_server_authn_laws demo_cors_laws(2) demo_ops_laws(1) demo_mount demo_new_server procedure_of_Register,
      of "\<lparr>ctx_user = None\<rparr>" None]
  have "fsh_Register (fleet_service demo_deps demo_env) (fst nobody) ?req demo_start =
      (Inr resp, demo_start\<lparr>sw_k8s := (sw_k8s demo_start)\<lparr>kw_tunnel := s1\<rparr>, sw_rand := r1\<rparr>)"
    by (simp add: fleet_service_def demo_env_fleet on_tunnel_def demo_start_def resp(1))
  note call = registrar_rpc_served(1) [OF demo_calls(1) demo_origin del [unfolded demo_deps_simps] this]
  show ?thesis
    unfolding demo_registers_def using auth by (simp add: register_def Register_def key csr call resp(2,3) checkVersion_def)
qed

lemma demo_answers: "answers_list demo_k8s address u (demo_id cl) opts empty_list"
  by (simp add: answers_list_def demo_k8s_def demo_api_def demo_id_def)

definition demo_list_options :: ListOptions where
  "demo_list_options = \<lparr>lo_LabelSelector = [], lo_FieldSelector = [], lo_Limit = 0, lo_Continue = []\<rparr>"

definition demo_page :: "jobj pb_ListResponse" where
  "demo_page = (case list_response (sd_proto demo_deps) empty_list of Inr p \<Rightarrow> p)"

lemma demo_list_response: "list_response (sd_proto demo_deps) empty_list = Inr demo_page"
  by (simp add: demo_page_def list_response_def empty_list_def)

lemma demo_token: "''good'' \<noteq> []" "demo_verifier ''good'' = Inr \<lparr>it_Subject = ''alice'', it_Groups = Inr [''system:masters'']\<rparr>"
    "it_Groups \<lparr>it_Subject = ''alice'', it_Groups = Inr [''system:masters'']\<rparr> = Inr [''system:masters'']"
  by (simp_all add: demo_verifier_def)

text \<open>The request of a user's client for the pods of a cluster.\<close>

definition demo_list_request :: "gostring \<Rightarrow> http_request" where
  "demo_list_request cl = (call_request (''http://s'' @ ResourceServiceListProcedure) (enc_list (demo_id cl, demo_list_options)))\<lparr>rq_bearer := Some ''good''\<rparr>"

definition demo_registered :: demo_state where
  "demo_registered = demo_start\<lparr>sw_k8s := \<lparr>kw_tunnel = demo_service\<lparr>clusters := [(''prod'', \<lparr>Host = ''127.1.1.1'', User = ''agent'', AgentVersion = ''v1''\<rparr>)]\<rparr>,
     transports = [], kw_ext = 0, sent = []\<rparr>\<rparr>"

lemma demo_list_sends_at:
  assumes "ResolveAddress (kw_tunnel (sw_k8s w)) ''prod'' = Inr addr"
  shows "\<exists>a b. sent (sw_k8s (snd (demo_server (demo_list_request ''prod'') nobody w))) = sent (sw_k8s w) @ [a, b]"
proof -
  have "resolve_address (sd_k8s demo_deps) (kw_tunnel (sw_k8s w)) (id_Cluster (demo_id ''prod'')) = Inr addr"
    by (simp add: demo_k8s_laws assms demo_id_def)
  from list_through_server [OF demo_server_authn_laws demo_cors_laws(2) demo_ops_laws(1) demo_mount demo_new_server
      _ demo_origin demo_token this _ demo_list_response, of demo_list_options "\<lparr>ctx_user = None\<rparr>" None]
  obtain w' a b where run: "resourceServiceClient_List (NewResourceServiceClient demo_resourceRPC (served_by demo_server (Some ''good'') nobody) ''http://s'')
      (demo_id ''prod'', demo_list_options) w = ((Some demo_page, None), w')" "sent (sw_k8s w') = sent (sw_k8s w) @ [a, b]"
    by (auto simp: demo_calls(2) demo_answers)
  have "w' = snd (demo_server (demo_list_request ''prod'') nobody w)"
    using run(1) unfolding resourceServiceClient_List_def NewResourceServiceClient_def Let_def trim_origin [OF demo_origin] demo_resourceRPC_def
    by (auto simp: demo_unary_def served_by_def demo_list_request_def split: prod.splits sum.splits option.splits)
  then show ?thesis using run(2) by blast
qed

lemma demo_list_sends: "\<exists>a b. sent (sw_k8s (snd (demo_server (demo_list_request ''prod'') nobody demo_registered))) = [a, b]"
  using demo_list_sends_at [of demo_registered] by (simp add: demo_registered_def ResolveAddress_endpoint)

section \<open>A run of the server\<close>

definition demo_stack :: "(demo_state, demo_answer) http_stack" where
  "demo_stack = \<lparr>st_ops = demo_ops, st_http = demo_http_lib, st_authn = demo_server_authn, st_cors = demo_cors, st_listen = (\<lambda>_. None),
     st_address = '':1'', st_origins = [''https://ui''], st_verifier = demo_verifier\<rparr>"

definition demo_ca :: "(nat, bool \<times> nat) CA" where
  "demo_ca = \<lparr>ca_cert = (True, 5), ca_key = 5, ca_certPEM = []\<rparr>"

lemma demo_stack_laws: "stack_laws demo_deps demo_stack"
  by (simp add: stack_laws_def demo_stack_def demo_server_authn_laws demo_cors_laws demo_ops_laws demo_k8s_laws demo_flight_law demo_rpc_serves)

lemma demo_http: "server_http demo_deps demo_stack demo_env = Inr demo_server"
  by (simp add: server_http_def demo_stack_def demo_mount demo_new_server)

lemma demo_env_ok: "env_ok demo_env"
  by (simp add: env_ok_def demo_env_def)

lemma demo_list_url: "url_ok (demo_list_request ''prod'')"
  by code_simp

text \<open>The chisel server starts, an agent registers, a user lists the pods of the cluster, the reaper runs.\<close>

lemma demo_run:
  "\<exists>w. run (server_step demo_deps demo_stack) (server_init demo_ca 0 0) [TunnelStep, TunnelStep, Request (demo_list_request ''prod''), Reap] (w, [], Idle) \<and>
     length (sent (sw_k8s w)) = 2"
proof -
  let ?step = "server_step demo_deps demo_stack" and ?init = "fst (server_init demo_ca 0 0) :: demo_state"
  have init: "server_init demo_ca 0 0 = (?init, [], Idle)" by (simp add: server_init_def)
  obtain ep cert s1 r1 where reg: "RegisterCluster demo_lib demo_chisel 0 (demo_service, 0) ''prod'' ''agent'' ''v1'' demo_csr = (Inr (ep, cert), s1, r1)"
    by (rule demo_register_first)
  have tun: "kw_tunnel (sw_k8s ?init) = NewService demo_ca" "sent (sw_k8s ?init) = []" by (simp_all add: server_init_def)
  have serv: "demo_service = ServerRef_Store [] (NewService demo_ca)" by (simp add: demo_service_def demo_ca_def)
  define w1 where "w1 = ?init\<lparr>sw_k8s := (sw_k8s ?init)\<lparr>kw_tunnel := demo_service\<rparr>\<rparr>"
  define w2 where "w2 = w1\<lparr>sw_k8s := (sw_k8s w1)\<lparr>kw_tunnel := s1\<rparr>\<rparr>"
  define w3 where "w3 = snd (demo_server (demo_list_request ''prod'') nobody w2)"
  have "?step TunnelStep (?init, [], Idle) (w1, [], Idle)"
    unfolding w1_def by (rule server_step.tunnel) (unfold tun(1) serv, rule step_store)
  moreover have "kw_tunnel (sw_k8s w1) = demo_service" by (simp add: w1_def)
  then have "?step TunnelStep (w1, [], Idle) (w2, [], Idle)"
    unfolding w2_def by (intro server_step.tunnel) (simp, rule step_register [OF reg])
  moreover have "?step (Request (demo_list_request ''prod'')) (w2, [], Idle) (w3, [], Idle)"
    by (rule server_step.request [OF demo_env_ok demo_list_url demo_http, of "\<lparr>ctx_user = None\<rparr>" None w2 "fst (demo_server (demo_list_request ''prod'') nobody w2)"])
      (simp add: w3_def)
  moreover have "?step Reap (w3, [], Idle) (w3\<lparr>sw_sessions := snd (ReapStaleSessions (sw_sessions w3))\<rparr>, [], Idle)" by (rule server_step.reap)
  ultimately have "run ?step (server_init demo_ca 0 0) [TunnelStep, TunnelStep, Request (demo_list_request ''prod''), Reap]
      (w3\<lparr>sw_sessions := snd (ReapStaleSessions (sw_sessions w3))\<rparr>, [], Idle)"
    by (subst init) (blast intro: run.intros)
  moreover have "\<exists>addr. ResolveAddress (kw_tunnel (sw_k8s w2)) ''prod'' = Inr addr"
    using RegisterCluster_entry [OF reg] by (auto simp: w2_def ResolveAddress_endpoint)
  then have "length (sent (sw_k8s w3)) = 2"
    using demo_list_sends_at [of w2] tun(2) by (fastforce simp: w3_def w2_def w1_def)
  ultimately show ?thesis by (intro exI) auto
qed

end
