(* ===== verification/Spec2Isabelle.thy ===== *)
theory Spec2Isabelle
  imports Registry Session_Lifecycle Discovery_Cache Kubernetes_Client Resource_Handler Bridge Programs Wiring Port_Forward Watch_Relay Terminal_Stream Server_Run Demo_Server
begin

text \<open>
  Verification library of the otterscale agent, the Go program under \<^verbatim>\<open>src/\<close>: a control-plane server
  and an agent that runs in every cluster it manages. The agent opens a reverse tunnel (chisel) to
  the server; the server answers an API (Connect RPC behind OIDC) and forwards every request, in
  the name of the authenticated user, through the tunnel to the API server of the addressed cluster.

  \<^bold>\<open>The parts, how they interact, and where they are modelled.\<close>

  \<^item> \<open>Prelude\<close>: Go maps as association lists (\<open>gget\<close>, \<open>gput\<close>, \<open>gdel\<close>), decimal output, lemmas on lists,
    words and options. \<open>Effects\<close>: operations with effects and the predicate \<open>logs_only\<close> for what they may
    send. \<open>Go_Errors\<close>: error values, \<^verbatim>\<open>errors.As\<close>, the domain codes and their two mappings
    (\<^verbatim>\<open>core/errors.go\<close>, \<^verbatim>\<open>kubernetes/errors.go\<close>, \<^verbatim>\<open>handler/code.go\<close>). \<open>Encoding\<close>, \<open>Sha256\<close>, \<open>Go_Json\<close>,
    \<open>Json_Roundtrip\<close>: base 64, SHA-256 and HMAC, quoting and JSON of the standard library.
  \<^item> Enrolment, server side. \<open>Addresses\<close> (\<^verbatim>\<open>address_allocator.go\<close>), \<open>Pki\<close> (\<^verbatim>\<open>pki/\<close>), \<open>Tunnel_Service\<close>
    (\<^verbatim>\<open>chisel/service.go\<close>, \<^verbatim>\<open>health.go\<close>), \<open>Registry\<close> (the abstract registry it refines), \<open>Cluster_Name\<close> and
    \<open>Fleet\<close> (\<^verbatim>\<open>core/fleet.go\<close>, \<^verbatim>\<open>handler/fleet.go\<close>, \<^verbatim>\<open>handler/manifest.go\<close>, \<^verbatim>\<open>cmd/server/handler.go\<close>),
    \<open>Manifest_Token\<close> (\<^verbatim>\<open>core/manifest_token.go\<close>), \<open>Manifest_Renderer\<close> (\<^verbatim>\<open>manifest/renderer.go\<close>).
  \<^item> Enrolment, agent side. \<open>Agent\<close> (\<^verbatim>\<open>fleet_registrar.go\<close>, \<^verbatim>\<open>updater.go\<close>, \<^verbatim>\<open>agent.go\<close>), \<open>Bootstrap\<close>
    (\<^verbatim>\<open>bootstrap/\<close>), \<open>Tunnel_Client\<close> (\<^verbatim>\<open>tunnel/client.go\<close>, \<^verbatim>\<open>backoff.go\<close>). \<open>Enrolment\<close> joins both sides.
  \<^item> Requests. \<open>Http_Auth\<close> (\<^verbatim>\<open>transport/http/\<close>), \<open>Server_Mux\<close> (\<^verbatim>\<open>cmd/server/handler.go\<close> and the multiplexer of
    \<^verbatim>\<open>net/http\<close>), \<open>Rpc\<close> (the generated clients, handlers and stubs of \<^verbatim>\<open>api/*/v1/pbconnect\<close>), \<open>Resource_Handler\<close>
    (\<^verbatim>\<open>handler/resource.go\<close>), \<open>Core_Types\<close> and \<open>Resources\<close> (\<^verbatim>\<open>core/resource.go\<close>), \<open>Discovery_Cache\<close> (\<^verbatim>\<open>cache/\<close>),
    \<open>Kubernetes_Client\<close> (\<^verbatim>\<open>kubernetes/\<close>), \<open>Sessions\<close> and \<open>Runtime\<close> (\<^verbatim>\<open>core/session.go\<close>, \<^verbatim>\<open>core/runtime.go\<close>,
    \<^verbatim>\<open>handler/runtime.go\<close>), \<open>Session_Lifecycle\<close> (the abstract life cycle that the session store and the use case refine).
    \<open>Forwarding\<close>: the loops of the streaming methods. \<open>Port_Forward\<close>, \<open>Watch_Relay\<close> and \<open>Terminal_Stream\<close> are the goroutines of a port-forward, of a
    watch and of a terminal session, from the stream of the cluster to the handler (\<^verbatim>\<open>kubernetes/runtime_repo.go\<close>,
    \<^verbatim>\<open>resource_repo.go\<close>, \<^verbatim>\<open>core/runtime.go\<close>, \<^verbatim>\<open>handler/runtime.go\<close>).
  \<^item> The server in one piece. \<open>Services\<close>: the state of the server and the three services on it, as \<^verbatim>\<open>wireServer\<close> puts them
    together; \<open>Dispatch\<close>: from a request to the method that serves it; \<open>End_To_End\<close>: calls through client, middleware,
    multiplexer and service; \<open>Server_Run\<close>: runs of the server with its background threads; \<open>Demo_Server\<close>: a concrete server.
  \<^item> Lifecycle. \<open>Transport\<close> (\<^verbatim>\<open>transport.go\<close>), \<open>Bridge\<close> (\<^verbatim>\<open>pipe/\<close>, \<^verbatim>\<open>tunnel/bridge.go\<close>), \<open>Tunnel_Listener\<close>
    (\<^verbatim>\<open>tunnel/server.go\<close>, \<^verbatim>\<open>tunnel_factory.go\<close>), \<open>Config\<close> (\<^verbatim>\<open>config/\<close>), \<open>Programs\<close> (\<^verbatim>\<open>cmd/server\<close>,
    \<^verbatim>\<open>cmd/agent\<close>), \<open>Wiring\<close> (\<^verbatim>\<open>cmd/otterscale\<close>, the provider functions and the commands).

  A struct is a record with the fields of the source, an enumeration a datatype, an operation a
  function of the same name on the state it changes; fallible operations return
  \<open>go_error + 'a\<close>. Concurrent code (the session store and the terminal queue, the health check, the
  schema cache, \<^verbatim>\<open>Serve\<close>, the bridge, a \<^verbatim>\<open>Stop\<close> during a dial, port-forwards, watches and terminal sessions) is an inductive step relation whose
  steps are the sections between two synchronisations; \<open>Step_Systems\<close> has the runs of labelled relations. A request is served
  in one step of the server; what other requests do to the sessions meanwhile is part of its environment (\<open>server_env\<close>). Packages outside the repository (x509, chisel,
  client-go, viper, authn, cors, errgroup, semver) are records of functions; what the code relies
  on is a named predicate on them (\<open>pki_laws\<close>, \<open>csr_law\<close>, \<open>chisel_laws\<close>, \<open>viper_source_laws\<close>,
  \<open>authn_laws\<close>, \<open>cors_laws\<close>, \<open>cors_same_origin\<close>, \<open>ops_laws\<close>, \<open>ops_quiet\<close>, \<open>flight_law\<close>, \<open>unary_serves\<close>, \<open>stream_serves\<close>,
  \<open>unary_calls\<close>, \<open>errgroup_spec\<close>, \<open>semver_law\<close>, \<open>poll_law\<close>), with a concrete instance in the witnesses.

  \<^bold>\<open>Interfaces.\<close> Contracts are locales, interpreted on the model: \<open>keyed_store\<close> (Go maps), \<open>tunnel_provider\<close>
  (what the fleet use case relies on, interpreted on the chisel service), \<open>cluster_backend\<close> (what the resource
  use case may send, interpreted on the Kubernetes adapter, on the server's adapters and for keeping the server's invariant),
  \<open>session_table\<close> (the bounded tables of the session store, interpreted for both kinds of session), \<open>closed_set\<close> (sets of states
  that steps do not leave: invariants and traps of port-forwards, watches, terminal sessions and the server), \<open>counted_steps\<close>
  (steps that a measure counts down, interpreted for terminal sessions and \<^verbatim>\<open>Serve\<close>), \<open>simulation\<close> (every step is a step of a specification,
  interpreted for a table of sessions and for both kinds of session together), \<open>forwarding_loop\<close> (what a loop that forwards
  events to a client returns and sends, interpreted for terminals, copied streams and watches) and \<open>step_property\<close> with
  \<open>server_property\<close> (what holds of the multiplexer when it holds of the methods, interpreted for acting in a user's name and for
  keeping an invariant).

  \<^bold>\<open>What is shown.\<close> This theory: enrolment works from the agent's key to the resolvable endpoint through the HTTP stack, an
  enrolled cluster can be used, a caller's identity is the same from its token to the cluster, and the whole server keeps
  its invariant and accounts for every request it ever sent. Below it: no request reaches anything
  but the public endpoints without a verified token, whatever its path; manifest URLs survive a restart; the tunnel service
  refines the registry under every interleaving; certificates are signed soundly
  and the authority survives crashes of a start that can read it; manifest tokens and URLs round trip and cannot be forged;
  no value injects YAML into a manifest; every request is impersonated; every error of a unary method has a Connect code; the schema
  cache is fresh and bounded; the session store refines the life cycle of sessions, which are bounded and closed exactly once; the goroutines of
  port-forwards, watches and terminal sessions deliver in order without gaps, those of watches and terminals completely when the stream ends by itself; a terminal session ends completely
  unless its size queue jams; CRDs are patched, then seen as established, then used; \<^verbatim>\<open>Serve\<close> shuts down when it must and stops every listener;
  the bridge leaks no connection while its wait group is used as documented; a self-update is confined to the agent's image; every option has its own flag,
  variable, file entry and default. Some theorems show where the code falls short of its comments: a health check that
  drops a fresh registration, a size queue that hangs a terminal session after five resizes, a write that hides a finished session, an abandoned port-forward that
  never ends, a cancelled watch that leaks its goroutine, a wait group that panics, a read error that replaces an authority, file entries that do not
  come before environment variables.

  \<^bold>\<open>Bounds.\<close> The JSON parser runs with fuel twice the length of its input plus one, which
  \<open>json_parse_encode\<close> shows to be enough for every encoded value. A dial has at most eight steps, \<^verbatim>\<open>Serve\<close>
  with \<open>n\<close> listeners at most \<open>4n + 2\<close> of its own, the goroutines of a terminal session at most \<open>tty_work\<close>. All other functions terminate by structural recursion or a
  measure. Durations and Unix times are 64-bit words, the address sum a 32-bit word, \<^verbatim>\<open>int32\<close> fields 32-bit
  words; lengths and counters that cannot overflow are naturals.

  \<^bold>\<open>Not modelled.\<close> Generated messages (\<^verbatim>\<open>api/**/*.pb.go\<close>: accessors and descriptors), the sets the injectors were
  generated from, signals and exit codes (\<^verbatim>\<open>main.go\<close>), and logging. Time passes only where the code reads the clock or waits;
  timeouts of HTTP servers and clients do not cut anything off in the model. The bytes the tunnel bridge copies are not
  represented, nor are file permissions. The coding of messages and the RPC protocols are the library's: one record of functions
  for each pair of message types. Reflection, health and metrics are handlers given to the multiplexer.

  \<^bold>\<open>Left open.\<close> Requests are atomic steps of the server's runs; the streams of several sessions are not interleaved byte by
  byte with them. The tunnel client and the server are joined by a registration, not by a protocol run of chisel, which is a
  package outside the repository; so nothing is said of how long a cluster stays connected.
\<close>

section \<open>Properties across components\<close>

text \<open>Claim C1. When an agent's registration with a server succeeds, the tunnel it is about to open works: the
  server's chisel instance knows the agent under exactly the credentials the agent derived and
  allows it the endpoint it was given, the cluster resolves to that endpoint for every API
  request, no other cluster is affected, the CA certificate the agent will trust is the one of
  the authority that signs, and the certificate it got is a client certificate for the private
  key it just generated. The registration goes through the generated client, the server's middleware,
  its multiplexer and the fleet service, and changes no other part of the server.\<close>

theorem enrolment_end_to_end:
  assumes "pki_laws (sd_pki D)" "csr_law (sd_pki D)" "chisel_laws (sd_chisel D) users" "service_inv (kw_tunnel (sw_k8s w))"
    and "authn_laws A" "cors_same_origin cors" "ops_laws Ops" "server_Mount Ops H (server_handlers D env) = Inr mux"
    and "NewServer A cors listen m0 (server_options address origins oidc (Inr mux)) = Inr h"
    and "unary_calls (fcn_Register (sd_fleetRPC D))" "origin_url url" "CHR '':'' \<notin> set (fr_agentID f)"
    and "register (sd_pki D) (registrar_rpc (sd_fleetRPC D) (served_by h None (c, i))) f en version url cluster (ra, w, u) = (Inr result, ra', w', u')"
  shows "\<exists>s s' srv pass host. s = kw_tunnel (sw_k8s w) \<and> s' = kw_tunnel (sw_k8s w') \<and> server s' = Some srv \<and>
      users srv (fr_agentID f) = Some (pass, allowed_pattern host) \<and>
      rr_Auth result = fr_agentID f @ '':'' @ pass \<and> rr_Endpoint result = endpoint_of host \<and>
      ResolveAddress s' cluster = Inr (''http://'' @ rr_Endpoint result) \<and>
      (\<forall>c. c \<noteq> cluster \<longrightarrow> ResolveAddress s' c = ResolveAddress s c) \<and>
      rr_CACertPEM result = CertPEM (service_ca s) \<and> key_matches (sd_pki D) (rr_KeyPEM result) (rr_CertPEM result) \<and>
      w' = w\<lparr>sw_k8s := (sw_k8s w)\<lparr>kw_tunnel := s'\<rparr>, sw_rand := sw_rand w'\<rparr>"
proof (rule registration_run [OF assms(5-11,13)])
  fix key r1 csrPEM r2 s' rs'
  assume key: "GenerateKey (sd_pki D) ra = (Inr (key, rr_KeyPEM result), r1)" "GenerateCSR (sd_pki D) key (fr_agentID f) r1 = (Inr csrPEM, r2)"
    and run: "RegisterCluster (sd_pki D) (sd_chisel D) (ev_now env) (kw_tunnel (sw_k8s w), sw_rand w) cluster (fr_agentID f) (fr_agentVersion f) csrPEM =
       (Inr (rr_Endpoint result, rr_CertPEM result), s', rs')"
    and auth: "DeriveAuth (sd_pki D) (fr_agentID f) (rr_CertPEM result) = Inr (rr_Auth result)" "rr_CACertPEM result = CertPEM (service_ca s')"
    and w': "w' = w\<lparr>sw_k8s := (sw_k8s w)\<lparr>kw_tunnel := s'\<rparr>, sw_rand := rs'\<rparr>"
  obtain r3 where sign: "SignCSR (sd_pki D) (service_ca (kw_tunnel (sw_k8s w))) (ev_now env) csrPEM (sw_rand w) = (Inr (rr_CertPEM result), r3)"
      "service_ca s' = service_ca (kw_tunnel (sw_k8s w))"
    using RegisterCluster_signed [OF run] by blast
  have "key_matches (sd_pki D) (rr_KeyPEM result) (rr_CertPEM result)" by (rule signed_key [OF assms(1,2) key sign(1)])
  moreover have "\<forall>c. c \<noteq> cluster \<longrightarrow> ResolveAddress s' c = ResolveAddress (kw_tunnel (sw_k8s w)) c"
    using RegisterCluster_frame [OF run] by (simp add: ResolveAddress_def)
  moreover have "ResolveAddress s' cluster = Inr (''http://'' @ rr_Endpoint result)"
    using RegisterCluster_entry [OF run] by (metis ResolveAddress_endpoint Cluster.select_convs(1))
  ultimately show ?thesis
    using registered_agent_can_log_in [OF assms(3,12) run] auth sign(2) w' by auto
qed

text \<open>Claim C2. The identity of a caller is the same from its token to the cluster: whatever request the
  server is sent, and however its path is encoded, every request it then sends to a cluster is
  sent because the call carried a token the OIDC verifier accepted, impersonates that token's subject
  with the group system:authenticated and the token's groups under the prefix \<^verbatim>\<open>oidc:\<close>, and goes to
  the endpoint at which the cluster named in the call's message is registered with the tunnel service. This holds for all procedures of the
  resource and runtime services, and in particular public endpoints send nothing to any cluster.\<close>

theorem token_identity_reaches_cluster:
  assumes "authn_laws A" "cors_laws cors" "ops_laws Ops" "ops_quiet Ops" "flight_law (sd_flight D)"
    and "rpc_serves D" "resolve_address (sd_k8s D) = ResolveAddress"
    and "server_Mount Ops H (server_handlers D env) = Inr mux"
    and "NewServer A cors listen m0 (server_options address origins (oidc_authenticate verifier) (Inr mux)) = Inr h"
    and "url_ok rq" "h rq (c, i) w = (resp, w')"
  shows "\<exists>l. sent (sw_k8s w') = sent (sw_k8s w) @ l \<and>
      (\<forall>(cfg, req) \<in> set l. \<exists>token idToken groups cluster e.
         rq_bearer rq = Some token \<and> verifier token = Inr idToken \<and> it_Groups idToken = Inr groups \<and>
         rc_UserName cfg = it_Subject idToken \<and> rc_Groups cfg = ''system:authenticated'' # map (\<lambda>g. ''oidc:'' @ g) groups \<and>
         called_cluster D rq = Some cluster \<and> gget (clusters (kw_tunnel (sw_k8s w))) cluster = Some e \<and>
         rc_Host cfg = ''http://'' @ endpoint_of (Host e))"
proof -
  from request_acts [OF assms(1-6,8-11)] obtain l where l: "sent (sw_k8s w') = sent (sw_k8s w) @ l"
      "\<forall>(cfg, req) \<in> set l. \<exists>token idToken groups ca.
         rq_bearer rq = Some token \<and> verifier token = Inr idToken \<and> it_Groups idToken = Inr groups \<and> called_cluster D rq = Some ca \<and>
         impersonates (sd_k8s D) (kw_tunnel (sw_k8s w)) (WithUserInfo c (token_user idToken groups)) ca cfg"
    by blast
  then show ?thesis
    by (intro conjI exI [of _ l]) (fastforce simp: impersonates_def WithUserInfo_def token_user_def assms(7) ResolveAddress_endpoint)+
qed

text \<open>Claim C4. An enrolled cluster can be used: after an agent's registration a user whose token the OIDC verifier accepts can
  list a resource of that cluster through the generated client. The server sends exactly two requests, the discovery of the
  group version and the list, both to the endpoint the agent was given and in the name of the token's subject and
  prefixed groups, and the client gets the items the API server behind the tunnel answered, converted to a response. The
  server may have moved on to another request environment (clock, identifiers) in between.\<close>

theorem enrolled_cluster_is_usable:
  assumes "authn_laws A" "cors_same_origin cors" "ops_laws Ops" "server_Mount Ops H (server_handlers D env) = Inr mux"
    and "NewServer A cors listen m0 (server_options address origins (oidc_authenticate verifier) (Inr mux)) = Inr h"
    and "unary_calls (fcn_Register (sd_fleetRPC D))" "origin_url url"
    and "register (sd_pki D) (registrar_rpc (sd_fleetRPC D) (served_by h None (c, i))) f en version url cluster (ra, w, u) = (Inr result, ra', w', u')"
    and "server_Mount Ops H (server_handlers D env') = Inr mux'"
    and "NewServer A cors listen m0 (server_options address origins (oidc_authenticate verifier) (Inr mux')) = Inr h'"
    and "unary_calls (rcn_List (sd_resourceRPC D))" "resolve_address (sd_k8s D) = ResolveAddress"
    and "token \<noteq> []" "verifier token = Inr idToken" "it_Groups idToken = Inr groups" "id_Cluster q = cluster"
    and "answers_list (sd_k8s D) (''http://'' @ rr_Endpoint result) (token_user idToken groups) q opts items"
    and "list_response (sd_proto D) items = Inr p"
  shows "\<exists>w2 cfg1 cfg2. resourceServiceClient_List (NewResourceServiceClient (sd_resourceRPC D) (served_by h' (Some token) (c', i')) url) (q, opts) w' =
        ((Some p, None), w2) \<and> as_identity (''http://'' @ rr_Endpoint result) (token_user idToken groups) cfg1 \<and>
      as_identity (''http://'' @ rr_Endpoint result) (token_user idToken groups) cfg2 \<and>
      sent (sw_k8s w2) = sent (sw_k8s w) @ [(cfg1, ReqServerResourcesForGroupVersion (gv_string (id_Group q) (id_Version q))),
        (cfg2, ReqList \<lparr>gvr_Group = id_Group q, gvr_Version = id_Version q, gvr_Resource = id_Resource q\<rparr> (id_Namespace q) (meta_list opts))]"
proof (rule registration_run [OF assms(1-8)])
  fix csrPEM s' rs'
  assume run: "RegisterCluster (sd_pki D) (sd_chisel D) (ev_now env) (kw_tunnel (sw_k8s w), sw_rand w) cluster (fr_agentID f) (fr_agentVersion f) csrPEM =
       (Inr (rr_Endpoint result, rr_CertPEM result), s', rs')"
    and w': "w' = w\<lparr>sw_k8s := (sw_k8s w)\<lparr>kw_tunnel := s'\<rparr>, sw_rand := rs'\<rparr>"
  have "ResolveAddress s' cluster = Inr (''http://'' @ rr_Endpoint result)"
    using RegisterCluster_entry [OF run] by (metis ResolveAddress_endpoint Cluster.select_convs(1))
  then have "resolve_address (sd_k8s D) (kw_tunnel (sw_k8s w')) (id_Cluster q) = Inr (''http://'' @ rr_Endpoint result)"
    by (simp add: w' assms(12,16))
  moreover have "sent (sw_k8s w') = sent (sw_k8s w)" by (simp add: w')
  ultimately show ?thesis
    using list_through_server [OF assms(1-3,9,10,11,7,13-15) _ assms(17,18), of w' c' i'] by simp
qed

text \<open>Claim C3. The server as a whole, under every sequence of requests from anyone and steps of its background threads, starting
  from the state it is wired with: the hosts in use are exactly those of registered clusters and two clusters never resolve to the
  same URL; at most a hundred sessions of either kind and
  ten thousand schemas are held; and every request ever
  sent to a cluster goes back to a request to the server that carried a verified token and named a cluster, and impersonates that
  token's subject and prefixed groups. What other requests do to the sessions while a stream is served is
  arbitrary as long as the store's operations keep its bound.\<close>

theorem server_run_safe:
  assumes "stack_laws D X" "run (server_step D X) (server_init ca x rs) ls (w, fc, pc)"
  shows "let s = kw_tunnel (sw_k8s w) in
      gkeys (usedHosts (addrs s)) = {h. \<exists>c e. gget (clusters s) c = Some e \<and> Host e = h} \<and>
      (\<forall>a b u. ResolveAddress s a = Inr u \<and> ResolveAddress s b = Inr u \<longrightarrow> a = b) \<and>
      glen (exec_tab (sw_sessions w)) \<le> 100 \<and> glen (pf_tab (sw_sessions w)) \<le> 100 \<and> glen (ca_schemaCache (sw_cache w)) \<le> 10000 \<and>
      (\<forall>(cfg, req) \<in> set (sent (sw_k8s w)). \<exists>rq. Request rq \<in> set ls \<and> caused_by D (st_verifier X) rq cfg)"
proof -
  note inv = server_reached_inv [OF assms, unfolded server_inv_def]
  have "service_inv (kw_tunnel (sw_k8s w))" using inv by blast
  note tun = service_inv_hosts [OF this]
  have sent: "\<forall>(cfg, req) \<in> set (sent (sw_k8s w)). \<exists>rq. Request rq \<in> set ls \<and> caused_by D (st_verifier X) rq cfg"
    using server_run_sent [OF assms(2,1) server_inv_init] by (simp add: server_init_def)
  have "glen (exec_tab (sw_sessions w)) \<le> 100" "glen (pf_tab (sw_sessions w)) \<le> 100"
    using inv by (simp_all add: store_bounded_def maxExecSessions_def maxPortForwardSessions_def)
  moreover have "glen (ca_schemaCache (sw_cache w)) \<le> 10000" using inv by (simp add: schemas_bounded_def defaultMaxSchemaEntries_def)
  ultimately show ?thesis unfolding Let_def using tun sent by blast
qed

section \<open>Witnesses\<close>

lemma demo_agent_name: "CHR '':'' \<notin> set ''agent''"
  by simp

theorem enrolment_end_to_end_witness:
  "\<exists>result ra' w' u' srv pass host. demo_registers = (Inr result, ra', w', u') \<and> rr_Auth result = ''agent'' @ '':'' @ pass \<and>
     server (kw_tunnel (sw_k8s w')) = Some srv \<and> gget srv ''agent'' = Some (pass, allowed_pattern host) \<and>
     ResolveAddress (kw_tunnel (sw_k8s w')) ''prod'' = Inr (''http://'' @ rr_Endpoint result) \<and>
     key_matches demo_lib (rr_KeyPEM result) (rr_CertPEM result) \<and> sw_sessions w' = new_world"
proof -
  obtain result ra' w' u' where run: "demo_registers = (Inr result, ra', w', u')" using demo_enrolment by blast
  have inv: "service_inv (kw_tunnel (sw_k8s demo_start))" by (simp add: demo_start_def demo_service_inv)
  from enrolment_end_to_end [of demo_deps, unfolded demo_deps_simps, OF demo_lib_laws demo_csr_law demo_chisel_laws inv demo_server_authn_laws
      demo_cors_laws(2) demo_ops_laws(1) demo_mount demo_new_server demo_calls(1) demo_origin _ run [unfolded demo_registers_def],
      unfolded fleetRegistrar.simps, OF demo_agent_name]
  obtain s' srv pass host where "s' = kw_tunnel (sw_k8s w')" "server s' = Some srv" "gget srv ''agent'' = Some (pass, allowed_pattern host)"
      "rr_Auth result = ''agent'' @ '':'' @ pass" "ResolveAddress s' ''prod'' = Inr (''http://'' @ rr_Endpoint result)"
      "key_matches demo_lib (rr_KeyPEM result) (rr_CertPEM result)"
      "w' = demo_start\<lparr>sw_k8s := (sw_k8s demo_start)\<lparr>kw_tunnel := s'\<rparr>, sw_rand := sw_rand w'\<rparr>"
    by blast
  moreover from this(7) have "sw_sessions w' = sw_sessions demo_start" by (metis server_world.ext_inject server_world.surjective server_world.update_convs(1,3))
  moreover have "sw_sessions demo_start = new_world" by (simp add: demo_start_def)
  ultimately show ?thesis using run by metis
qed

theorem token_identity_reaches_cluster_witness:
  "\<exists>r1 r2. map (\<lambda>(cfg, req). (rc_UserName cfg, rc_Groups cfg, rc_Host cfg))
     (sent (sw_k8s (snd (demo_server (demo_list_request ''prod'') nobody demo_registered)))) = [r1, r2] \<and>
     r1 = (''alice'', [''system:authenticated'', ''oidc:system:masters''], ''http://'' @ endpoint_of ''127.1.1.1'') \<and> r2 = r1"
proof -
  obtain resp w' where run: "demo_server (demo_list_request ''prod'') nobody demo_registered = (resp, w')" by fastforce
  have path: "rq_path (demo_list_request ''prod'') = ResourceServiceListProcedure" by code_simp
  have body: "rq_body (demo_list_request ''prod'') = enc_list (demo_id ''prod'', demo_list_options)"
    by (simp add: demo_list_request_def call_request_def)
  have "called_cluster demo_deps (demo_list_request ''prod'') = Some ''prod''"
    by (simp add: called_cluster_def path resource_clusters_def procedure_defs names_def demo_resourceRPC_def demo_unary_def body dec_enc_list demo_id_def)
  moreover have "sent (sw_k8s demo_registered) = []" "rq_bearer (demo_list_request ''prod'') = Some ''good''"
    "gget (clusters (kw_tunnel (sw_k8s demo_registered))) ''prod'' = Some \<lparr>Host = ''127.1.1.1'', User = ''agent'', AgentVersion = ''v1''\<rparr>"
    by (simp_all add: demo_registered_def demo_list_request_def)
  moreover note token_identity_reaches_cluster [of _ _ _ demo_deps, unfolded demo_deps_simps, OF demo_server_authn_laws demo_cors_laws(1) demo_ops_laws
      demo_flight_law demo_rpc_serves demo_k8s_laws demo_mount demo_new_server demo_list_url run]
  ultimately have all: "\<forall>(cfg, req) \<in> set (sent (sw_k8s w')). rc_UserName cfg = ''alice'' \<and> rc_Groups cfg = [''system:authenticated'', ''oidc:system:masters''] \<and>
      rc_Host cfg = ''http://'' @ endpoint_of ''127.1.1.1''"
    using demo_token(2) by fastforce
  obtain a b where "sent (sw_k8s w') = [a, b]" using demo_list_sends run by auto
  then show ?thesis using all run by (auto split: prod.splits)
qed

theorem enrolled_cluster_is_usable_witness:
  "\<exists>result ra' w' u' w2. demo_registers = (Inr result, ra', w', u') \<and>
     resourceServiceClient_List (NewResourceServiceClient demo_resourceRPC (served_by demo_server (Some ''good'') nobody) ''http://s'')
       (demo_id ''prod'', demo_list_options) w' = ((Some demo_page, None), w2) \<and> length (sent (sw_k8s w2)) = 2"
proof -
  obtain result ra' w' u' where run: "demo_registers = (Inr result, ra', w', u')" using demo_enrolment by blast
  have cl: "id_Cluster (demo_id ''prod'') = ''prod''" "sent (sw_k8s demo_start) = []" by (simp_all add: demo_id_def demo_start_def)
  from enrolled_cluster_is_usable [of _ _ _ _ demo_deps, unfolded demo_deps_simps, OF demo_server_authn_laws demo_cors_laws(2) demo_ops_laws(1) demo_mount
      demo_new_server demo_calls(1) demo_origin run [unfolded demo_registers_def] demo_mount demo_new_server demo_calls(2) demo_k8s_laws demo_token cl(1)
      demo_answers demo_list_response, of "\<lparr>ctx_user = None\<rparr>" None demo_list_options]
  show ?thesis using run cl(2) by fastforce
qed

theorem server_run_safe_witness:
  "\<exists>w fc pc. run (server_step demo_deps demo_stack) (server_init demo_ca 0 0)
       [TunnelStep, TunnelStep, Request (demo_list_request ''prod''), Reap] (w, fc, pc) \<and> length (sent (sw_k8s w)) = 2 \<and>
     (\<forall>(cfg, req) \<in> set (sent (sw_k8s w)). rc_UserName cfg = ''alice'' \<and> rc_Groups cfg = [''system:authenticated'', ''oidc:system:masters''])"
proof -
  obtain w where run: "run (server_step demo_deps demo_stack) (server_init demo_ca 0 0)
       [TunnelStep, TunnelStep, Request (demo_list_request ''prod''), Reap] (w, [], Idle)" "length (sent (sw_k8s w)) = 2"
    using demo_run by blast
  have "st_verifier demo_stack = demo_verifier" "rq_bearer (demo_list_request ''prod'') = Some ''good''"
    by (simp_all add: demo_stack_def demo_list_request_def)
  moreover from server_run_safe [OF demo_stack_laws run(1)]
  have "\<forall>(cfg, req) \<in> set (sent (sw_k8s w)). caused_by demo_deps (st_verifier demo_stack) (demo_list_request ''prod'') cfg"
    unfolding Let_def by fastforce
  ultimately have "\<forall>(cfg, req) \<in> set (sent (sw_k8s w)). rc_UserName cfg = ''alice'' \<and> rc_Groups cfg = [''system:authenticated'', ''oidc:system:masters'']"
    using demo_token(2) by (fastforce simp: caused_by_def)
  with run show ?thesis by blast
qed

end
